(* ===== verification/SdPrelude.thy ===== *)
theory SdPrelude
  imports Main "HOL-Library.Word" "HOL-Library.Monad_Syntax"
begin

text \<open>
  Vocabulary shared by every theory of the development: the machine integer
  types of the Arduino sources, little-endian access to byte buffers (the
  processors the library targets are little-endian, and the code overlays
  integers on byte arrays through unions and packed structs), and generic
  lemmas on words, lists and buffers.
\<close>

unbundle bit_operations_syntax

type_synonym u8 = "8 word"
type_synonym u16 = "16 word"
type_synonym u32 = "32 word"

text \<open>Lemma collections: buffer reads over writes, and the frame facts of the state.\<close>

named_theorems buf_simps
named_theorems frame_simps

section \<open>Little-endian integers in a byte buffer\<close>

definition get16 :: "u8 list \<Rightarrow> nat \<Rightarrow> u16" where
  "get16 bs i = ucast (bs ! i) OR push_bit 8 (ucast (bs ! (i + 1)))"

definition put16 :: "u8 list \<Rightarrow> nat \<Rightarrow> u16 \<Rightarrow> u8 list" where
  "put16 bs i v = bs[i := ucast v, i + 1 := ucast (drop_bit 8 v)]"

definition get32 :: "u8 list \<Rightarrow> nat \<Rightarrow> u32" where
  "get32 bs i = ucast (get16 bs i) OR push_bit 16 (ucast (get16 bs (i + 2)))"

definition put32 :: "u8 list \<Rightarrow> nat \<Rightarrow> u32 \<Rightarrow> u8 list" where
  "put32 bs i v = put16 (put16 bs i (ucast v)) (i + 2) (ucast (drop_bit 16 v))"

text \<open>Words as bytes in memory order.\<close>

definition le16 :: "u16 \<Rightarrow> u8 list" where
  "le16 v = [ucast v, ucast (drop_bit 8 v)]"

definition le32 :: "u32 \<Rightarrow> u8 list" where
  "le32 v = le16 (ucast v) @ le16 (ucast (drop_bit 16 v))"

lemma length_put16 [simp]: "length (put16 bs i v) = length bs"
  by (simp add: put16_def)

lemma length_put32 [simp]: "length (put32 bs i v) = length bs"
  by (simp add: put32_def)

lemma low_byte: "(ucast (x AND 0xFF) :: u8) = ucast (x :: u16)"
proof -
  have m: "(0xFF :: u16) = mask 8" by (simp add: mask_eq_exp_minus_1)
  show ?thesis unfolding m by (intro bit_word_eqI) (auto simp: bit_simps)
qed

lemma join16_split:
  fixes v :: u16
  shows "ucast (ucast v :: u8) OR push_bit 8 (ucast (ucast (drop_bit 8 v) :: u8)) = v"
  by (rule bit_word_eqI) (auto simp: bit_simps)

lemma join32_split:
  fixes v :: u32
  shows "ucast (ucast v :: u16) OR push_bit 16 (ucast (ucast (drop_bit 16 v) :: u16)) = v"
  by (rule bit_word_eqI) (auto simp: bit_simps)

text \<open>Words as bytes with the most significant one first.\<close>

definition be32_bytes :: "u32 \<Rightarrow> u8 list" where
  "be32_bytes v = [ucast (drop_bit 24 v), ucast (drop_bit 16 v), ucast (drop_bit 8 v), ucast v]"

definition be32_of :: "u8 list \<Rightarrow> u32" where
  "be32_of bs = push_bit 24 (ucast (bs ! 0)) OR push_bit 16 (ucast (bs ! 1)) OR
     push_bit 8 (ucast (bs ! 2)) OR ucast (bs ! 3)"

lemma le32_rev: "rev (le32 v) = be32_bytes v"
proof -
  have "ucast (ucast v :: u16) = (ucast v :: u8)" "ucast (drop_bit 8 (ucast v :: u16)) = (ucast (drop_bit 8 v) :: u8)"
      "ucast (ucast (drop_bit 16 v) :: u16) = (ucast (drop_bit 16 v) :: u8)"
      "ucast (drop_bit 8 (ucast (drop_bit 16 v) :: u16)) = (ucast (drop_bit 24 v) :: u8)"
    by (rule bit_word_eqI; auto simp: bit_simps dest: bit_imp_le_length)+
  then show ?thesis by (simp add: le32_def le16_def be32_bytes_def)
qed

lemma get32_le32: "get32 (le32 v) 0 = v"
proof -
  have "get32 (le32 v) 0 = ucast (ucast v :: u16) OR push_bit 16 (ucast (ucast (drop_bit 16 v) :: u16))"
    by (simp add: get32_def le32_def get16_def le16_def join16_split)
  also have "\<dots> = v" by (rule bit_word_eqI) (auto simp: bit_simps dest: bit_imp_le_length)
  finally show ?thesis .
qed

lemma be32_bytes_of:
  assumes "length bs = 4"
  shows "be32_bytes (be32_of bs) = bs"
proof -
  obtain a b c d where bs: "bs = [a, b, c, d]" using assms by (auto simp: length_Suc_conv numeral_eq_Suc)
  show ?thesis
    unfolding be32_bytes_def be32_of_def bs
    by (simp, intro conjI; rule bit_word_eqI; auto simp: bit_simps dest: bit_imp_le_length)
qed

lemma swapped_bytes:
  assumes "le32 x = rev (le32 (get32 bs 0))" and "length bs = 4"
  shows "x = be32_of bs"
proof -
  obtain a b c d where bs: "bs = [a, b, c, d]" using assms(2) by (auto simp: length_Suc_conv numeral_eq_Suc)
  have "le32 (get32 bs 0) = bs"
    unfolding get32_def get16_def le32_def le16_def bs
    by (simp, intro conjI; rule bit_word_eqI; auto simp: bit_simps dest: bit_imp_le_length)
  then have "le32 (be32_of bs) = le32 x"
    using assms le32_rev [of "be32_of bs"] be32_bytes_of [of bs] by (metis rev_rev_ident)
  then show ?thesis using get32_le32 by metis
qed

lemma get16_put16_same [buf_simps]:
  "i + 1 < length bs \<Longrightarrow> get16 (put16 bs i v) i = v"
  by (simp add: get16_def put16_def join16_split)

lemma get16_put16_other [buf_simps]:
  "i + 1 < j \<or> j + 1 < i \<Longrightarrow> get16 (put16 bs i v) j = get16 bs j"
  by (auto simp: get16_def put16_def nth_list_update)

lemma get32_put32_same [buf_simps]:
  "i + 3 < length bs \<Longrightarrow> get32 (put32 bs i v) i = v"
  by (simp add: get32_def put32_def get16_put16_same get16_put16_other join32_split)

lemma get32_put32_other [buf_simps]:
  "i + 3 < j \<or> j + 3 < i \<Longrightarrow> get32 (put32 bs i v) j = get32 bs j"
  by (auto simp: get32_def put32_def get16_put16_other)

lemma get16_put16_idx:
  "2 * i + 1 < length bs \<Longrightarrow>
     get16 (put16 bs (2 * i) v) (2 * j) = (if i = j then v else get16 bs (2 * j))"
  by (auto simp: buf_simps intro!: get16_put16_other)

lemma get32_put32_idx:
  "4 * i + 3 < length bs \<Longrightarrow>
     get32 (put32 bs (4 * i) v) (4 * j) = (if i = j then v else get32 bs (4 * j))"
  by (auto simp: buf_simps intro!: get32_put32_other)

section \<open>Copying a run of bytes into a buffer\<close>

text \<open>\<open>while (dst != end) *dst++ = *src++;\<close> with \<open>dst\<close> at offset \<open>off\<close>.\<close>

definition splice :: "u8 list \<Rightarrow> nat \<Rightarrow> u8 list \<Rightarrow> u8 list" where
  "splice buf off data = take off buf @ data @ drop (off + length data) buf"

definition slice :: "nat \<Rightarrow> nat \<Rightarrow> 'a list \<Rightarrow> 'a list" where
  "slice off n xs = take n (drop off xs)"

lemma length_splice [simp]:
  "off + length data \<le> length buf \<Longrightarrow> length (splice buf off data) = length buf"
  by (simp add: splice_def)

lemma length_slice: "length (slice off n xs) = min n (length xs - off)"
  by (simp add: slice_def min.commute)

lemma length_slice_exact [simp]: "off + n \<le> length xs \<Longrightarrow> length (slice off n xs) = n"
  by (simp add: slice_def)

lemma slice_whole [simp]: "n = length xs \<Longrightarrow> slice 0 n xs = xs"
  by (simp add: slice_def)

lemma nth_slice: "i < n \<Longrightarrow> off + i < length xs \<Longrightarrow> slice off n xs ! i = xs ! (off + i)"
  by (simp add: slice_def)

lemma nth_splice:
  assumes "off + length data \<le> length buf" and "i < length buf"
  shows "splice buf off data ! i =
           (if off \<le> i \<and> i < off + length data then data ! (i - off) else buf ! i)"
  using assms by (auto simp: splice_def nth_append)

lemma splice_nil [simp]: "splice buf off [] = buf"
  by (simp add: splice_def)

lemma splice_all: "length data = length buf \<Longrightarrow> splice buf 0 data = data"
  by (simp add: splice_def)

lemma slice_splice_same [buf_simps]:
  "off + length data \<le> length buf \<Longrightarrow> slice off (length data) (splice buf off data) = data"
  by (simp add: splice_def slice_def)

lemma slice_splice_disjoint [buf_simps]:
  assumes "off + length data \<le> length buf" and "o2 + n \<le> length buf"
    and "o2 + n \<le> off \<or> off + length data \<le> o2"
  shows "slice o2 n (splice buf off data) = slice o2 n buf"
  using assms by (intro nth_equalityI) (auto simp: nth_slice nth_splice length_slice)

lemma splice_slice_id:
  "off + n \<le> length buf \<Longrightarrow> splice buf off (slice off n buf) = buf"
  by (rule nth_equalityI) (auto simp: nth_splice nth_slice)

section \<open>Words\<close>

lemma word_neq_0_iff_unat: "(w :: 'a::len word) \<noteq> 0 \<longleftrightarrow> 0 < unat w"
  by (simp add: unat_gt_0)

lemma unat_add_small:
  "unat (a :: 'a::len word) + unat b < 2 ^ LENGTH('a) \<Longrightarrow> unat (a + b) = unat a + unat b"
  by (simp add: unat_word_ariths)

lemma unat_Suc_small:
  "unat (a :: 'a::len word) + 1 < 2 ^ LENGTH('a) \<Longrightarrow> unat (a + 1) = unat a + 1"
  by (simp add: unat_word_ariths)

lemma unat_sub_small:
  "unat b \<le> unat (a :: 'a::len word) \<Longrightarrow> unat (a - b) = unat a - unat b"
  by (simp add: unat_sub word_le_nat_alt)

lemma unat_bound:
  "unat (w :: u32) < 4294967296" "unat (x :: u16) < 65536" "unat (b :: u8) < 256"
  using unsigned_less [of w] unsigned_less [of x] unsigned_less [of b] by simp_all

lemma eq_of_nat: "unat w = n \<Longrightarrow> w = of_nat n"
  by auto

lemma unat_of_nat_small:
  "n < 2 ^ LENGTH('a::len) \<Longrightarrow> unat (of_nat n :: 'a word) = n"
  by (simp add: unat_of_nat take_bit_nat_eq_self)

lemma unat_push_bit_small:
  "unat (w :: 'a::len word) * 2 ^ n < 2 ^ LENGTH('a) \<Longrightarrow> unat (push_bit n w) = unat w * 2 ^ n"
  by (metis unsigned_push_bit_eq push_bit_eq_mult take_bit_nat_eq_self)

lemma unat_take_bit_mod: "unat (take_bit n (w :: 'a::len word)) = unat w mod 2 ^ n"
  by (metis unsigned_take_bit_eq take_bit_eq_mod)

lemma unat_drop_bit_div: "unat (drop_bit n (w :: 'a::len word)) = unat w div 2 ^ n"
  by (metis unat_drop_bit_eq drop_bit_eq_div)

lemma and_mask_take_bit:
  "(w :: u32) AND 0xFF = take_bit 8 w" "w AND 0x7F = take_bit 7 w"
  "w AND 0x1FF = take_bit 9 w" "w AND 0xF = take_bit 4 w" "w AND 0x1F = take_bit 5 w"
  by (simp_all add: take_bit_eq_mask mask_eq_exp_minus_1)

lemma and_mask16_take_bit:
  "(v :: u16) AND 0xF = take_bit 4 v" "v AND 0x1F = take_bit 5 v" "v AND 0x3F = take_bit 6 v"
  by (simp_all add: take_bit_eq_mask mask_eq_exp_minus_1)

lemma unat_ucast_up:
  "LENGTH('a::len) \<le> LENGTH('b::len) \<Longrightarrow> unat (ucast (w :: 'a word) :: 'b word) = unat w"
  by (metis unsigned_ucast_eq take_bit_nat_eq_self unsigned_less le_less_trans
      less_le_trans power_increasing one_le_numeral nat_le_iff_add)

lemma unat_ucast_mod: "unat (ucast (w :: 'a::len word) :: 'b::len word) = unat w mod 2 ^ LENGTH('b)"
  by (simp add: unsigned_ucast_eq take_bit_eq_mod)

lemma bit_small:
  assumes "unat (w :: 'a::len word) < 2 ^ n" and "n \<le> k"
  shows "\<not> bit w k"
proof -
  have "bit (unat w) k = bit (take_bit n (unat w)) k"
    using assms(1) by (simp add: take_bit_nat_eq_self)
  then show ?thesis using assms(2) by (auto simp: bit_simps dest: bit_imp_le_length)
qed

lemma bit_bound: "bit (w :: 'a::len word) k \<Longrightarrow> unat w < 2 ^ n \<Longrightarrow> k < n"
  using bit_small [of w n k] by (meson not_le)

lemma sint32_small: "unat (w :: u32) < 2147483648 \<Longrightarrow> sint w = int (unat w)"
proof -
  assume "unat w < 2147483648"
  moreover have "uint w = int (unat w)" by simp
  ultimately have "uint w < 2147483648" by linarith
  then have "signed_take_bit 31 (uint w) = uint w"
    by (intro signed_take_bit_int_eq_self) (auto intro: order_trans [OF _ uint_ge_0])
  then show ?thesis by (simp add: sint_uint)
qed

section \<open>Decimal digits\<close>

fun decimal :: "nat \<Rightarrow> u8 list" where
  "decimal n = (if n < 10 then [0x30 + of_nat n] else decimal (n div 10) @ [0x30 + of_nat (n mod 10)])"

declare decimal.simps [simp del]

definition dotted_quad :: "u8 list \<Rightarrow> u8 list" where
  "dotted_quad ip =
     decimal (unat (ip ! 0)) @ 0x2E # decimal (unat (ip ! 1)) @ 0x2E #
     decimal (unat (ip ! 2)) @ 0x2E # decimal (unat (ip ! 3))"

end
