(* ===== verification/Eeprom.thy ===== *)
theory Eeprom
  imports SdPrelude
begin

text \<open>
  The emulated EEPROM (EEPROM/EEPROM.cpp, EEPROM.h): one flash sector with a copy in RAM.
  The flash functions of the SDK are the parameter \<open>flash_ops\<close>; they act on a flash of
  any type.  An \<open>int\<close> and a \<open>size_t\<close> are 32 bit words.  The copy is absent as long as
  \<open>_data\<close> is null.  The locale \<open>flash_chip\<close> states what the sector functions of a flash
  chip promise: erasing sets all bits of a sector, writing clears bits.
\<close>

section \<open>The class\<close>

record 'f flash_ops =
  spi_flash_read :: "u32 \<Rightarrow> u32 \<Rightarrow> 'f \<Rightarrow> u8 list"
  spi_flash_erase_sector :: "u32 \<Rightarrow> 'f \<Rightarrow> bool \<times> 'f"
  spi_flash_write :: "u32 \<Rightarrow> u8 list \<Rightarrow> 'f \<Rightarrow> bool \<times> 'f"

definition SPI_FLASH_SEC_SIZE :: u32 where [simp]: "SPI_FLASH_SEC_SIZE = 4096"

record eeprom =
  ee_sector :: u32
  ee_data :: "u8 list option"
  ee_size :: u32
  ee_dirty :: bool

text \<open>
  The constructors; the one without an argument computes the sector from the address of
  the end of the file system, which the linker gives.
\<close>

definition eeprom_new :: "u32 \<Rightarrow> eeprom" where
  "eeprom_new sector = \<lparr>ee_sector = sector, ee_data = None, ee_size = 0, ee_dirty = False\<rparr>"

definition eeprom_default :: "u32 \<Rightarrow> eeprom" where
  "eeprom_default spiffs_end = eeprom_new ((spiffs_end - 0x40200000) div SPI_FLASH_SEC_SIZE)"

definition eeprom_begin :: "'f flash_ops \<Rightarrow> u32 \<Rightarrow> eeprom \<Rightarrow> 'f \<Rightarrow> eeprom" where
  "eeprom_begin fl n e f =
     (if n \<le> 0 then e
      else
        let n = (if n > SPI_FLASH_SEC_SIZE then SPI_FLASH_SEC_SIZE else n);
            n = (n + 3) AND NOT 3
        in e\<lparr>ee_data := Some (spi_flash_read fl (ee_sector e * SPI_FLASH_SEC_SIZE) n f), ee_size := n\<rparr>)"

definition eeprom_commit :: "'f flash_ops \<Rightarrow> eeprom \<Rightarrow> 'f \<Rightarrow> bool \<times> eeprom \<times> 'f" where
  "eeprom_commit fl e f =
     (if ee_size e = 0 then (False, e, f)
      else if \<not> ee_dirty e then (True, e, f)
      else case ee_data e of
        None \<Rightarrow> (False, e, f)
      | Some bs \<Rightarrow>
          (case spi_flash_erase_sector fl (ee_sector e) f of
             (False, f) \<Rightarrow> (False, e, f)
           | (True, f) \<Rightarrow>
               (case spi_flash_write fl (ee_sector e * SPI_FLASH_SEC_SIZE) bs f of
                  (False, f) \<Rightarrow> (False, e, f)
                | (True, f) \<Rightarrow> (True, e\<lparr>ee_dirty := False\<rparr>, f))))"

definition eeprom_end :: "'f flash_ops \<Rightarrow> eeprom \<Rightarrow> 'f \<Rightarrow> eeprom \<times> 'f" where
  "eeprom_end fl e f =
     (if ee_size e = 0 then (e, f)
      else case eeprom_commit fl e f of (_, e, f) \<Rightarrow> (e\<lparr>ee_data := None, ee_size := 0\<rparr>, f))"

definition eeprom_read :: "u32 \<Rightarrow> eeprom \<Rightarrow> u8" where
  "eeprom_read address e =
     (if sint address < 0 \<or> address \<ge> ee_size e then 0
      else case ee_data e of None \<Rightarrow> 0 | Some bs \<Rightarrow> bs ! unat address)"

definition eeprom_write :: "u32 \<Rightarrow> u8 \<Rightarrow> eeprom \<Rightarrow> eeprom" where
  "eeprom_write address v e =
     (if sint address < 0 \<or> address \<ge> ee_size e then e
      else case ee_data e of
        None \<Rightarrow> e
      | Some bs \<Rightarrow>
          if bs ! unat address \<noteq> v then e\<lparr>ee_data := Some (bs[unat address := v]), ee_dirty := True\<rparr>
          else e)"

text \<open>
  The templates \<open>get\<close> and \<open>put\<close> on the bytes \<open>t\<close> of the object.  Within the range checked
  there is always a copy.
\<close>

definition eeprom_get :: "u32 \<Rightarrow> u8 list \<Rightarrow> eeprom \<Rightarrow> u8 list" where
  "eeprom_get address t e =
     (if sint address < 0 \<or> address + of_nat (length t) > ee_size e then t
      else slice (unat address) (length t) (the (ee_data e)))"

definition eeprom_put :: "u32 \<Rightarrow> u8 list \<Rightarrow> eeprom \<Rightarrow> eeprom" where
  "eeprom_put address t e =
     (if sint address < 0 \<or> address + of_nat (length t) > ee_size e then e
      else e\<lparr>ee_data := Some (splice (the (ee_data e)) (unat address) t), ee_dirty := True\<rparr>)"

text \<open>\<open>getDataPtr\<close>: the caller may change all bytes through the pointer.\<close>

definition eeprom_getDataPtr :: "eeprom \<Rightarrow> u8 list option \<times> eeprom" where
  "eeprom_getDataPtr e = (ee_data e, e\<lparr>ee_dirty := True\<rparr>)"

section \<open>A flash chip\<close>

locale flash_chip =
  fixes fl :: "'f flash_ops" and cell :: "'f \<Rightarrow> nat \<Rightarrow> u8"
  assumes read_law: "unat a + unat n \<le> 2 ^ 32 \<Longrightarrow>
      spi_flash_read fl a n f = map (cell f) [unat a ..< unat a + unat n]"
    and erase_law: "spi_flash_erase_sector fl s f = (True, f') \<Longrightarrow>
      cell f' i = (if i div 4096 = unat s then 0xFF else cell f i)"
    and write_law: "spi_flash_write fl a bs f = (True, f') \<Longrightarrow> unat a + length bs \<le> 2 ^ 32 \<Longrightarrow>
      cell f' i = (if unat a \<le> i \<and> i < unat a + length bs then cell f i AND bs ! (i - unat a) else cell f i)"

text \<open>
  The invariant of an object: its copy has the length of its size, which is a multiple of
  four in one sector, and it equals the flash unless it is marked dirty.
\<close>

definition eeprom_ok :: "('f \<Rightarrow> nat \<Rightarrow> u8) \<Rightarrow> eeprom \<Rightarrow> 'f \<Rightarrow> bool" where
  "eeprom_ok cell e f \<longleftrightarrow>
     unat (ee_sector e) < 2 ^ 20 \<and> unat (ee_size e) \<le> 4096 \<and> unat (ee_size e) mod 4 = 0 \<and>
     (case ee_data e of
        None \<Rightarrow> ee_size e = 0
      | Some bs \<Rightarrow> ee_size e \<noteq> 0 \<and> length bs = unat (ee_size e) \<and>
          (\<not> ee_dirty e \<longrightarrow> (\<forall>i < length bs. cell f (4096 * unat (ee_sector e) + i) = bs ! i)))"

lemma sector_address:
  "unat (s :: u32) < 2 ^ 20 \<Longrightarrow> unat (s * 4096) = 4096 * unat s"
  by (simp add: unat_word_ariths)

lemma round_up:
  fixes n :: u32
  assumes "0 < n" and "n \<le> 4096"
  shows "unat ((n + 3) AND NOT 3) = 4 * ((unat n + 3) div 4)"
proof -
  have n: "unat (n + 3) = unat n + 3" using assms by (intro trans [OF unat_add_small]) (simp_all add: word_le_nat_alt)
  have m: "(3 :: u32) = mask 2" by (simp add: mask_eq_exp_minus_1)
  have "(n + 3) AND NOT 3 = push_bit 2 (drop_bit 2 (n + 3))"
    unfolding m by (rule bit_word_eqI) (auto simp: bit_simps simp del: add_2_eq_Suc add_2_eq_Suc')
  moreover have "unat (drop_bit 2 (n + 3)) = (unat n + 3) div 4" by (simp add: unat_drop_bit_div n)
  moreover have "unat n \<le> 4096" using assms(2) by (simp add: word_le_nat_alt)
  ultimately show ?thesis by (simp add: unat_push_bit_small)
qed

text \<open>The operations keep the invariant.\<close>

context flash_chip
begin

lemma new_ok: "unat s < 2 ^ 20 \<Longrightarrow> eeprom_ok cell (eeprom_new s) f"
  by (simp add: eeprom_ok_def eeprom_new_def)

lemma begin_ok:
  assumes "eeprom_ok cell e f"
  shows "eeprom_ok cell (eeprom_begin fl n e f) f"
proof (cases "n = 0")
  case False
  define k where "k = (if n > 4096 then 4096 else n)"
  have k: "0 < k" "k \<le> 4096" using False by (auto simp: k_def word_neq_0_conv)
  then have u: "unat ((k + 3) AND NOT 3) = 4 * ((unat k + 3) div 4)" by (rule round_up)
  have "unat k \<le> 4096" "0 < unat k" using k by (simp_all add: word_le_nat_alt word_less_nat_alt)
  then have "(unat k + 3) div 4 \<le> 4099 div 4" by (intro div_le_mono) simp
  then have c: "4 * ((unat k + 3) div 4) \<le> 4096" by simp
  have "0 < 4 * ((unat k + 3) div 4)" using \<open>0 < unat k\<close> by (simp add: div_greater_zero_iff)
  with c have b: "unat ((k + 3) AND NOT 3) \<le> 4096" "0 < unat ((k + 3) AND NOT 3)" unfolding u by blast+
  have s: "unat (ee_sector e) < 2 ^ 20" using assms by (simp add: eeprom_ok_def)
  have "spi_flash_read fl (ee_sector e * 4096) ((k + 3) AND NOT 3) f =
      map (cell f) [4096 * unat (ee_sector e) ..< 4096 * unat (ee_sector e) + unat ((k + 3) AND NOT 3)]"
    using read_law [of "ee_sector e * 4096" "(k + 3) AND NOT 3" f] b s by (simp add: sector_address)
  moreover have "eeprom_begin fl n e f =
      e\<lparr>ee_data := Some (spi_flash_read fl (ee_sector e * 4096) ((k + 3) AND NOT 3) f), ee_size := (k + 3) AND NOT 3\<rparr>"
    using False by (simp add: eeprom_begin_def k_def Let_def)
  ultimately show ?thesis using b s u by (auto simp: eeprom_ok_def word_neq_0_iff_unat)
qed (use assms in \<open>simp add: eeprom_begin_def\<close>)

lemma write_ok: "eeprom_ok cell e f \<Longrightarrow> eeprom_ok cell (eeprom_write a v e) f"
  by (auto simp: eeprom_ok_def eeprom_write_def split: option.splits)

lemma commit_spec:
  assumes "eeprom_ok cell e f" and "eeprom_commit fl e f = (True, e', f')"
  shows "eeprom_ok cell e' f'" and "ee_data e' = ee_data e" and "ee_size e' = ee_size e" and "\<not> ee_dirty e'"
    and "ee_sector e' = ee_sector e"
    and "a div 4096 \<noteq> unat (ee_sector e) \<Longrightarrow> cell f' a = cell f a"
proof -
  have "eeprom_ok cell e' f' \<and> ee_data e' = ee_data e \<and> ee_size e' = ee_size e \<and> \<not> ee_dirty e' \<and>
      ee_sector e' = ee_sector e \<and> (a div 4096 \<noteq> unat (ee_sector e) \<longrightarrow> cell f' a = cell f a)"
  proof (cases "ee_dirty e")
    case False
    then show ?thesis using assms by (auto simp: eeprom_commit_def split: if_splits)
  next
    case True
    then obtain bs f1 where bs: "ee_data e = Some bs" "spi_flash_erase_sector fl (ee_sector e) f = (True, f1)"
        "spi_flash_write fl (ee_sector e * 4096) bs f1 = (True, f')" "e' = e\<lparr>ee_dirty := False\<rparr>"
      using assms(2) by (auto simp: eeprom_commit_def split: if_splits option.splits prod.splits bool.splits)
    have ok: "unat (ee_sector e) < 2 ^ 20" "length bs \<le> 4096"
      using assms(1) bs(1) by (auto simp: eeprom_ok_def)
    have w: "cell f' i = (if 4096 * unat (ee_sector e) \<le> i \<and> i < 4096 * unat (ee_sector e) + length bs
        then cell f1 i AND bs ! (i - 4096 * unat (ee_sector e)) else cell f1 i)" for i
      using write_law [OF bs(3), of i] ok by (simp add: sector_address)
    have "(4096 * unat (ee_sector e) + i) div 4096 = unat (ee_sector e)" if "i < length bs" for i
      using that ok(2) by simp
    moreover have "(0xFF :: u8) = - 1" by simp
    then have "(0xFF :: u8) AND b = b" for b by (simp only: and.left_neutral)
    ultimately have "\<forall>i < length bs. cell f' (4096 * unat (ee_sector e) + i) = bs ! i"
      by (simp add: w erase_law [OF bs(2)])
    moreover have "cell f' a = cell f a" if "a div 4096 \<noteq> unat (ee_sector e)"
    proof -
      have "\<not> (4096 * unat (ee_sector e) \<le> a \<and> a < 4096 * unat (ee_sector e) + length bs)"
        using that ok(2) by (auto simp: div_nat_eqI)
      then have "cell f' a = cell f1 a" unfolding w by (rule if_not_P)
      then show ?thesis using that by (simp add: erase_law [OF bs(2)])
    qed
    ultimately show ?thesis using assms(1) bs by (simp add: eeprom_ok_def)
  qed
  then show "eeprom_ok cell e' f'" and "ee_data e' = ee_data e" and "ee_size e' = ee_size e" and "\<not> ee_dirty e'"
    and "ee_sector e' = ee_sector e"
    and "a div 4096 \<noteq> unat (ee_sector e) \<Longrightarrow> cell f' a = cell f a"
    by blast+
qed


lemma restart_reads_copy:
  assumes "eeprom_ok cell e f" and "ee_size e \<noteq> 0" and "\<not> ee_dirty e"
  shows "eeprom_begin fl (ee_size e) (eeprom_new (ee_sector e)) f = e"
proof -
  obtain bs where bs: "ee_data e = Some bs" "length bs = unat (ee_size e)"
      "\<forall>i < length bs. cell f (4096 * unat (ee_sector e) + i) = bs ! i"
    using assms by (auto simp: eeprom_ok_def split: option.splits)
  have ok: "unat (ee_sector e) < 2 ^ 20" "unat (ee_size e) \<le> 4096" "4 dvd unat (ee_size e)"
    using assms(1) by (auto simp: eeprom_ok_def)
  have "0 < ee_size e" "ee_size e \<le> 4096" using assms(2) ok by (simp_all add: word_neq_0_conv word_le_nat_alt)
  from round_up [OF this] have "unat ((ee_size e + 3) AND NOT 3) = unat (ee_size e)" using ok(3) by (auto elim!: dvdE)
  then have n: "(ee_size e + 3) AND NOT 3 = ee_size e" by (simp only: word_unat_eq_iff)
  then have n': "ee_size e + 3 AND - 4 = ee_size e" by simp
  have "spi_flash_read fl (ee_sector e * 4096) (ee_size e) f =
      map (cell f) [4096 * unat (ee_sector e) ..< 4096 * unat (ee_sector e) + unat (ee_size e)]"
    using read_law [of "ee_sector e * 4096" "ee_size e" f] ok by (simp add: sector_address)
  also have "\<dots> = bs" using bs(2,3) by (intro nth_equalityI) auto
  finally show ?thesis
    using assms(2,3) bs(1) ok(2) by (simp add: eeprom_begin_def eeprom_new_def Let_def n' word_less_nat_alt)
qed

end

section \<open>A flash chip in memory\<close>

definition nor_flash :: "(nat \<Rightarrow> u8) flash_ops" where
  "nor_flash =
     \<lparr> spi_flash_read = (\<lambda>a n f. map f [unat a ..< unat a + unat n]),
       spi_flash_erase_sector = (\<lambda>s f. (True, \<lambda>i. if i div 4096 = unat s then 0xFF else f i)),
       spi_flash_write = (\<lambda>a bs f.
         (True, \<lambda>i. if unat a \<le> i \<and> i < unat a + length bs then f i AND bs ! (i - unat a) else f i)) \<rparr>"

interpretation nor: flash_chip nor_flash "\<lambda>f. f"
  by unfold_locales (auto simp: nor_flash_def)

section \<open>Properties\<close>

text \<open>
  C37. What has been committed survives a restart: after a successful commit a new object on
  the same sector, begun with the same size, is in the same state, with all bytes written
  and nothing left to commit, and no cell outside the sector has changed.
\<close>

theorem committed_eeprom_survives_restart:
  assumes "flash_chip fl cell" and "eeprom_ok cell e f" and "eeprom_commit fl e f = (True, e', f')"
  shows "eeprom_begin fl (ee_size e) (eeprom_new (ee_sector e)) f' = e' \<and>
    ee_data e' = ee_data e \<and> \<not> ee_dirty e' \<and>
    (a div 4096 = unat (ee_sector e) \<or> cell f' a = cell f a)"
proof -
  note spec = flash_chip.commit_spec [OF assms]
  have "ee_size e' \<noteq> 0" using assms(3) spec(3) by (auto simp: eeprom_commit_def)
  then show ?thesis
    using flash_chip.restart_reads_copy [OF assms(1) spec(1)] spec by auto
qed

definition eeprom_example :: eeprom where
  "eeprom_example = eeprom_write 3 7 (eeprom_begin nor_flash 6 (eeprom_new 1) (\<lambda>a. 0xFF))"

lemma eeprom_example_ok: "eeprom_ok (\<lambda>f. f) eeprom_example (\<lambda>a. 0xFF)"
  unfolding eeprom_example_def by (intro nor.write_ok nor.begin_ok nor.new_ok) simp

lemma eeprom_example_dirty: "ee_dirty eeprom_example" "ee_size eeprom_example = 8" "ee_data eeprom_example \<noteq> None"
  by (simp_all add: eeprom_example_def eeprom_begin_def eeprom_write_def eeprom_new_def nor_flash_def)

lemma committed_eeprom_survives_restart_witness:
  "\<exists>e' f'. eeprom_commit nor_flash eeprom_example (\<lambda>a. 0xFF) = (True, e', f') \<and>
     eeprom_begin nor_flash 8 (eeprom_new (ee_sector eeprom_example)) f' = e' \<and>
     ee_data e' = ee_data eeprom_example"
proof -
  obtain e' f' where c: "eeprom_commit nor_flash eeprom_example (\<lambda>a. 0xFF) = (True, e', f')"
    using eeprom_example_dirty by (auto simp: eeprom_commit_def nor_flash_def)
  then show ?thesis
    using committed_eeprom_survives_restart [OF nor.flash_chip_axioms eeprom_example_ok c] eeprom_example_dirty(2) by auto
qed

end
