(* ===== verification/DnsServer.thy ===== *)
theory DnsServer
  imports SdPrelude "HOL-Library.Monad_Syntax"
begin

text \<open>
  The name server of a captive portal (DNSServer/src/DNSServer.cpp, DNSServer.h).  The UDP
  socket, the allocation and the two operations on the Arduino \<open>String\<close> that the server
  uses are the parameter \<open>dns_env\<close>.  A packet is the list of its bytes, on which the code
  overlays the header; an access outside the packet is undefined in C++: the function then
  returns \<open>None\<close>.
\<close>

section \<open>State\<close>

record 'n dns_env =
  udp_begin :: "u16 \<Rightarrow> 'n \<Rightarrow> bool \<times> 'n"
  udp_parsePacket :: "'n \<Rightarrow> nat \<times> 'n"
  udp_read :: "nat \<Rightarrow> 'n \<Rightarrow> u8 list \<times> 'n"
  udp_beginPacket :: "'n \<Rightarrow> 'n"
  udp_write :: "u8 list \<Rightarrow> 'n \<Rightarrow> 'n"
  udp_endPacket :: "'n \<Rightarrow> 'n"
  udp_stop :: "'n \<Rightarrow> 'n"
  malloc_ok :: "nat \<Rightarrow> 'n \<Rightarrow> bool \<times> 'n"
  str_toLowerCase :: "u8 list \<Rightarrow> u8 list"
  str_replace :: "u8 list \<Rightarrow> u8 list \<Rightarrow> u8 list \<Rightarrow> u8 list"

datatype DNSReplyCode = NoError | FormError | ServerFailure | NonExistentDomain | NotImplemented |
  Refused | YXDomain | YXRRSet | NXRRSet

definition reply_code :: "DNSReplyCode \<Rightarrow> u8" where
  "reply_code c =
     (case c of NoError \<Rightarrow> 0 | FormError \<Rightarrow> 1 | ServerFailure \<Rightarrow> 2 | NonExistentDomain \<Rightarrow> 3 |
        NotImplemented \<Rightarrow> 4 | Refused \<Rightarrow> 5 | YXDomain \<Rightarrow> 6 | YXRRSet \<Rightarrow> 7 | NXRRSet \<Rightarrow> 8)"

text \<open>The packet buffer lives only during a request.  \<open>_ttl\<close> is kept as its bytes in memory.\<close>

record 'n dns =
  dns_port :: u16
  domainName :: "u8 list"
  resolvedIP :: "u8 list"
  ttl_bytes :: "u8 list"
  errorReplyCode :: DNSReplyCode
  dns_world :: 'n

definition htonl_bytes :: "u32 \<Rightarrow> u8 list" where
  "htonl_bytes v = [ucast (drop_bit 24 v), ucast (drop_bit 16 v), ucast (drop_bit 8 v), ucast v]"

definition dns_new :: "'n \<Rightarrow> 'n dns" where
  "dns_new n =
     \<lparr> dns_port = 0, domainName = [], resolvedIP = [0, 0, 0, 0], ttl_bytes = htonl_bytes 60,
       errorReplyCode = NonExistentDomain, dns_world = n \<rparr>"

definition downcaseAndRemoveWwwPrefix :: "'n dns_env \<Rightarrow> u8 list \<Rightarrow> u8 list" where
  "downcaseAndRemoveWwwPrefix env s = str_replace env (str_toLowerCase env s) [0x77, 0x77, 0x77, 0x2E] []"

definition dns_start :: "'n dns_env \<Rightarrow> u16 \<Rightarrow> u8 list \<Rightarrow> u8 list \<Rightarrow> 'n dns \<Rightarrow> bool \<times> 'n dns" where
  "dns_start env port name ip d =
     (let d = d\<lparr>dns_port := port, domainName := downcaseAndRemoveWwwPrefix env name, resolvedIP := take 4 ip\<rparr>
      in case udp_begin env port (dns_world d) of (ok, n) \<Rightarrow> (ok, d\<lparr>dns_world := n\<rparr>))"

definition setErrorReplyCode :: "DNSReplyCode \<Rightarrow> 'n dns \<Rightarrow> 'n dns" where
  "setErrorReplyCode c d = d\<lparr>errorReplyCode := c\<rparr>"

definition setTTL :: "u32 \<Rightarrow> 'n dns \<Rightarrow> 'n dns" where
  "setTTL v d = d\<lparr>ttl_bytes := htonl_bytes v\<rparr>"

definition dns_stop :: "'n dns_env \<Rightarrow> 'n dns \<Rightarrow> 'n dns" where
  "dns_stop env d = d\<lparr>dns_world := udp_stop env (dns_world d)\<rparr>"

section \<open>Reading a request\<close>

definition byteAt :: "u8 list \<Rightarrow> nat \<Rightarrow> u8 option" where
  "byteAt buf i = (if i < length buf then Some (buf ! i) else None)"

text \<open>The bit fields of the header, from the lowest bit on.\<close>

definition DNS_QR_QUERY :: u8 where [simp]: "DNS_QR_QUERY = 0"
definition DNS_QR_RESPONSE :: u8 where [simp]: "DNS_QR_RESPONSE = 1"
definition DNS_OPCODE_QUERY :: u8 where [simp]: "DNS_OPCODE_QUERY = 0"

definition header_QR :: "u8 \<Rightarrow> u8" where "header_QR b = drop_bit 7 b"
definition header_OPCode :: "u8 \<Rightarrow> u8" where "header_OPCode b = drop_bit 3 b AND 0xF"

definition countIs :: "u8 list \<Rightarrow> nat \<Rightarrow> u8 \<Rightarrow> bool option" where
  "countIs buf i v = do { a \<leftarrow> byteAt buf i; b \<leftarrow> byteAt buf (i + 1); Some (a = 0 \<and> b = v) }"

definition requestIncludesOnlyOneQuestion :: "u8 list \<Rightarrow> bool option" where
  "requestIncludesOnlyOneQuestion buf = do {
     q \<leftarrow> countIs buf 4 1;
     if \<not> q then Some False
     else do {
       a \<leftarrow> countIs buf 6 0;
       if \<not> a then Some False
       else do {
         n \<leftarrow> countIs buf 8 0;
         if \<not> n then Some False else countIs buf 10 0 } } }"

text \<open>The loop over the labels, with \<open>pos\<close> counted from the start of the packet.\<close>

function nameLoop :: "u8 list \<Rightarrow> nat \<Rightarrow> u8 list \<Rightarrow> u8 list option" where
  "nameLoop buf pos parsed =
     (case byteAt buf pos of
        None \<Rightarrow> None
      | Some labelLength \<Rightarrow>
          let n = unat labelLength;
              parsed = parsed @ slice (pos + 1) n buf;
              pos = pos + n + 1
          in case byteAt buf pos of
               None \<Rightarrow> None
             | Some b \<Rightarrow> if b = 0 then Some parsed else nameLoop buf pos (parsed @ [0x2E]))"
  by pat_completeness auto
termination
  by (relation "measure (\<lambda>(buf, pos, _). length buf - pos)") (auto simp: byteAt_def split: if_splits)

declare nameLoop.simps [simp del]

definition getDomainNameWithoutWwwPrefix :: "'n dns_env \<Rightarrow> u8 list \<Rightarrow> u8 list option" where
  "getDomainNameWithoutWwwPrefix env buf = do {
     b \<leftarrow> byteAt buf 12;
     if b = 0 then Some []
     else do {
       name \<leftarrow> nameLoop buf 12 [];
       Some (downcaseAndRemoveWwwPrefix env name) } }"

section \<open>Answering\<close>

definition replyWithIP :: "'n dns_env \<Rightarrow> u8 list \<Rightarrow> 'n dns \<Rightarrow> 'n dns option" where
  "replyWithIP env buf d =
     (if length buf < 8 then None
      else
        let buf = buf[2 := buf ! 2 OR 0x80, 6 := buf ! 4, 7 := buf ! 5];
            n = udp_beginPacket env (dns_world d);
            n = udp_write env buf n;
            n = udp_write env [192] n; n = udp_write env [12] n;
            n = udp_write env [0] n; n = udp_write env [1] n;
            n = udp_write env [0] n; n = udp_write env [1] n;
            n = udp_write env (ttl_bytes d) n;
            n = udp_write env [0] n; n = udp_write env [4] n;
            n = udp_write env (resolvedIP d) n
        in Some (d\<lparr>dns_world := udp_endPacket env n\<rparr>))"

definition replyWithCustomCode :: "'n dns_env \<Rightarrow> u8 list \<Rightarrow> 'n dns \<Rightarrow> 'n dns option" where
  "replyWithCustomCode env buf d =
     (if length buf < 12 then None
      else
        let buf = buf[2 := buf ! 2 OR 0x80,
                      3 := (buf ! 3 AND 0xF0) OR (reply_code (errorReplyCode d) AND 0x0F), 4 := 0, 5 := 0];
            n = udp_beginPacket env (dns_world d);
            n = udp_write env (take 12 buf) n
        in Some (d\<lparr>dns_world := udp_endPacket env n\<rparr>))"

definition requestMatches :: "'n dns_env \<Rightarrow> u8 list \<Rightarrow> 'n dns \<Rightarrow> bool option" where
  "requestMatches env buf d = do {
     f \<leftarrow> byteAt buf 2;
     if header_QR f \<noteq> DNS_QR_QUERY \<or> header_OPCode f \<noteq> DNS_OPCODE_QUERY then Some False
     else do {
       one \<leftarrow> requestIncludesOnlyOneQuestion buf;
       if \<not> one then Some False
       else if domainName d = [0x2A] then Some True
       else do {
         name \<leftarrow> getDomainNameWithoutWwwPrefix env buf;
         Some (name = domainName d) } } }"

definition processNextRequest :: "'n dns_env \<Rightarrow> 'n dns \<Rightarrow> 'n dns option" where
  "processNextRequest env d =
     (case udp_parsePacket env (dns_world d) of (currentPacketSize, n) \<Rightarrow>
        if currentPacketSize = 0 then Some (d\<lparr>dns_world := n\<rparr>)
        else
          (case malloc_ok env currentPacketSize n of (ok, n) \<Rightarrow>
             if \<not> ok then Some (d\<lparr>dns_world := n\<rparr>)
             else
               (case udp_read env currentPacketSize n of (buf, n) \<Rightarrow>
                  let d = d\<lparr>dns_world := n\<rparr> in do {
                    hit \<leftarrow> requestMatches env buf d;
                    f \<leftarrow> byteAt buf 2;
                    if hit then replyWithIP env buf d
                    else if header_QR f = DNS_QR_QUERY then replyWithCustomCode env buf d
                    else Some d })))"

section \<open>The socket\<close>

text \<open>
  What a socket with a packet waiting promises: the packet is delivered, and the writes
  between the beginning and the end of a packet are sent as one datagram.
\<close>

locale dns_socket =
  fixes env :: "'n dns_env" and waiting :: "'n \<Rightarrow> u8 list" and pending :: "'n \<Rightarrow> u8 list" and
    datagrams :: "'n \<Rightarrow> u8 list list"
  assumes parse_law: "\<exists>n'. udp_parsePacket env n = (length (waiting n), n') \<and> waiting n' = waiting n \<and>
      datagrams n' = datagrams n"
    and malloc_law: "k \<le> 512 \<Longrightarrow> \<exists>n'. malloc_ok env k n = (True, n') \<and> waiting n' = waiting n \<and> datagrams n' = datagrams n"
    and read_law: "\<exists>n'. udp_read env (length (waiting n)) n = (waiting n, n') \<and> datagrams n' = datagrams n"
    and begin_law: "pending (udp_beginPacket env n) = [] \<and> datagrams (udp_beginPacket env n) = datagrams n"
    and write_law: "pending (udp_write env bs n) = pending n @ bs \<and> datagrams (udp_write env bs n) = datagrams n"
    and end_law: "datagrams (udp_endPacket env n) = datagrams n @ [pending n]"
begin

lemma receives:
  assumes "waiting (dns_world d) = buf" and "buf \<noteq> []" and "length buf \<le> 512"
  shows "\<exists>n. processNextRequest env d = do {
      hit \<leftarrow> requestMatches env buf (d\<lparr>dns_world := n\<rparr>);
      f \<leftarrow> byteAt buf 2;
      if hit then replyWithIP env buf (d\<lparr>dns_world := n\<rparr>)
      else if header_QR f = DNS_QR_QUERY then replyWithCustomCode env buf (d\<lparr>dns_world := n\<rparr>)
      else Some (d\<lparr>dns_world := n\<rparr>) } \<and> datagrams n = datagrams (dns_world d)"
proof -
  obtain n1 where n1: "udp_parsePacket env (dns_world d) = (length buf, n1)" "waiting n1 = buf"
      "datagrams n1 = datagrams (dns_world d)"
    using parse_law [of "dns_world d"] assms(1) by auto
  obtain n2 where n2: "malloc_ok env (length buf) n1 = (True, n2)" "waiting n2 = buf" "datagrams n2 = datagrams n1"
    using malloc_law [OF assms(3), of n1] n1 by auto
  obtain n3 where n3: "udp_read env (length buf) n2 = (buf, n3)" "datagrams n3 = datagrams n2"
    using read_law [of n2] n2 by auto
  have "length buf \<noteq> 0" using assms(2) by simp
  then show ?thesis
    using n1 n2 n3 by (intro exI [of _ n3]) (simp add: processNextRequest_def Let_def)
qed

lemma replyWithIP_datagram:
  assumes "8 \<le> length buf"
  shows "\<exists>d'. replyWithIP env buf d = Some d' \<and> datagrams (dns_world d') = datagrams (dns_world d) @
     [buf[2 := buf ! 2 OR 0x80, 6 := buf ! 4, 7 := buf ! 5] @ [192, 12, 0, 1, 0, 1] @ ttl_bytes d @ [0, 4] @ resolvedIP d]"
  using assms by (simp add: replyWithIP_def end_law write_law begin_law Let_def)

lemma replyWithCustomCode_datagram:
  assumes "12 \<le> length buf"
  shows "\<exists>d'. replyWithCustomCode env buf d = Some d' \<and> datagrams (dns_world d') = datagrams (dns_world d) @
     [take 12 (buf[2 := buf ! 2 OR 0x80,
         3 := (buf ! 3 AND 0xF0) OR (reply_code (errorReplyCode d) AND 0x0F), 4 := 0, 5 := 0])]"
  using assms by (simp add: replyWithCustomCode_def end_law write_law begin_law Let_def)

end


section \<open>Names\<close>

text \<open>A name as labels: its encoding in a packet, and its text.\<close>

definition encodeName :: "u8 list list \<Rightarrow> u8 list" where
  "encodeName labels = concat (map (\<lambda>l. of_nat (length l) # l) labels)"

fun dotted :: "u8 list list \<Rightarrow> u8 list" where
  "dotted [] = []"
| "dotted [l] = l"
| "dotted (l # ls) = l @ [0x2E] @ dotted ls"

lemma nameLoop_decodes:
  assumes "labels \<noteq> []" and "\<forall>l \<in> set labels. 0 < length l \<and> length l < 256"
    and "buf = pre @ encodeName labels @ [0] @ rest" and "pos = length pre"
  shows "nameLoop buf pos parsed = Some (parsed @ dotted labels)"
  using assms
proof (induction labels arbitrary: pre parsed pos rule: dotted.induct)
  case (2 l)
  then have "unat (of_nat (length l) :: u8) = length l" by (simp add: unat_of_nat_small)
  then show ?case using 2
    by (subst nameLoop.simps) (simp add: byteAt_def encodeName_def nth_append slice_def)
next
  case (3 l l2 ls)
  then have u: "unat (of_nat (length l) :: u8) = length l" "unat (of_nat (length l2) :: u8) = length l2"
    by (simp_all add: unat_of_nat_small)
  then have nz: "(of_nat (length l2) :: u8) \<noteq> 0" using 3(3) by auto
  have "nameLoop buf (length (pre @ of_nat (length l) # l)) (parsed @ l @ [0x2E]) =
      Some ((parsed @ l @ [0x2E]) @ dotted (l2 # ls))"
    using 3(3,4) by (intro 3(1) [OF _ _ _ refl]) (simp_all add: encodeName_def)
  then show ?case using 3(4,5) u nz
    by (subst nameLoop.simps) (simp add: byteAt_def encodeName_def nth_append slice_def)
qed simp

lemma low_three_bits:
  fixes b :: u8
  assumes "b AND 0xF8 = 0"
  shows "drop_bit 3 b = 0"
proof (rule bit_word_eqI)
  fix k
  assume "k < LENGTH(8)"
  have "(0xF8 :: u8) = NOT (mask 3)" by (simp add: mask_eq_exp_minus_1)
  then have "\<not> bit (b AND NOT (mask 3)) (3 + k)" using assms by simp
  then show "bit (drop_bit 3 b) k \<longleftrightarrow> bit (0 :: u8) k"
    by (auto simp: bit_simps dest: bit_imp_le_length)
qed

lemma query_matches:
  assumes buf: "buf = [i1, i2, f1, f2, 0, 1, 0, 0, 0, 0, 0, 0] @ encodeName labels @ [0] @ rest"
    and "f1 AND 0xF8 = 0" and "labels \<noteq> []" and "\<forall>l \<in> set labels. 0 < length l \<and> length l < 256"
  shows "requestMatches env buf d =
      Some (domainName d = [0x2A] \<or> downcaseAndRemoveWwwPrefix env (dotted labels) = domainName d)"
    and "byteAt buf 2 = Some f1" and "header_QR f1 = 0"
proof -
  have "drop_bit 3 f1 = 0" using assms(2) by (rule low_three_bits)
  then have qr: "header_QR f1 = 0" "header_OPCode f1 = 0"
    using drop_bit_drop_bit [of 4 3 f1] by (simp_all add: header_QR_def header_OPCode_def)
  obtain l ls where ls: "labels = l # ls" "0 < length l" "length l < 256" using assms(3,4) by (cases labels) auto
  then have "unat (of_nat (length l) :: u8) = length l" by (simp add: unat_of_nat_small)
  then have "(of_nat (length l) :: u8) \<noteq> 0" using ls(2) by auto
  then have first: "byteAt buf 12 = Some (of_nat (length l))" "(of_nat (length l) :: u8) \<noteq> 0"
    by (simp_all add: byteAt_def buf encodeName_def ls(1) nth_append)
  have "nameLoop buf 12 [] = Some ([] @ dotted labels)"
    using assms(3,4) by (intro nameLoop_decodes [of _ _ "[i1, i2, f1, f2, 0, 1, 0, 0, 0, 0, 0, 0]" rest]) (simp_all add: buf)
  then have name: "getDomainNameWithoutWwwPrefix env buf = Some (downcaseAndRemoveWwwPrefix env (dotted labels))"
    using first by (simp add: getDomainNameWithoutWwwPrefix_def)
  have two: "byteAt buf 2 = Some f1" by (simp add: byteAt_def buf)
  have "requestIncludesOnlyOneQuestion buf = Some True"
    by (simp add: requestIncludesOnlyOneQuestion_def countIs_def byteAt_def buf)
  then show "requestMatches env buf d =
      Some (domainName d = [0x2A] \<or> downcaseAndRemoveWwwPrefix env (dotted labels) = domainName d)"
    using two qr name by (simp add: requestMatches_def)
  show "byteAt buf 2 = Some f1" "header_QR f1 = 0" by (rule two, rule qr(1))
qed

section \<open>Property\<close>

text \<open>
  C38. Every well-formed query for one name is answered with one datagram.  If the name, in
  lower case and without the prefix, is that of the server, or the server answers for all
  names, it is the query as a response with one answer record behind it: a pointer to the
  name, type A, class IN, the time to live, and the address.  Otherwise it is the header
  alone, as a response with the error code and no question.
\<close>

theorem query_is_answered:
  assumes "dns_socket env waiting pending datagrams"
    and "waiting (dns_world d) = [i1, i2, f1, f2, 0, 1, 0, 0, 0, 0, 0, 0] @ encodeName labels @ [0] @ rest"
    and "length (encodeName labels) + length rest < 500"
    and "f1 AND 0xF8 = 0" and "labels \<noteq> []" and "\<forall>l \<in> set labels. 0 < length l \<and> length l < 256"
  shows "\<exists>d'. processNextRequest env d = Some d' \<and> datagrams (dns_world d') = datagrams (dns_world d) @
    [if domainName d = [0x2A] \<or> downcaseAndRemoveWwwPrefix env (dotted labels) = domainName d
     then [i1, i2, f1 OR 0x80, f2, 0, 1, 0, 1, 0, 0, 0, 0] @ encodeName labels @ [0] @ rest @
       [192, 12, 0, 1, 0, 1] @ ttl_bytes d @ [0, 4] @ resolvedIP d
     else [i1, i2, f1 OR 0x80, (f2 AND 0xF0) OR (reply_code (errorReplyCode d) AND 0x0F), 0, 0, 0, 0, 0, 0, 0, 0]]"
proof -
  define buf where "buf = [i1, i2, f1, f2, 0, 1, 0, 0, 0, 0, 0, 0] @ encodeName labels @ [0] @ rest"
  have w: "waiting (dns_world d) = buf" "buf \<noteq> []" "length buf \<le> 512" using assms(2,3) by (simp_all add: buf_def)
  obtain n where n: "processNextRequest env d = do {
      hit \<leftarrow> requestMatches env buf (d\<lparr>dns_world := n\<rparr>);
      f \<leftarrow> byteAt buf 2;
      if hit then replyWithIP env buf (d\<lparr>dns_world := n\<rparr>)
      else if header_QR f = DNS_QR_QUERY then replyWithCustomCode env buf (d\<lparr>dns_world := n\<rparr>)
      else Some (d\<lparr>dns_world := n\<rparr>) }" "datagrams n = datagrams (dns_world d)"
    using dns_socket.receives [OF assms(1) w] by blast
  have hit: "requestMatches env buf (d\<lparr>dns_world := n\<rparr>) =
      Some (domainName d = [0x2A] \<or> downcaseAndRemoveWwwPrefix env (dotted labels) = domainName d)"
    using query_matches(1) [OF buf_def assms(4-6), of env "d\<lparr>dns_world := n\<rparr>"] by simp
  have P: "processNextRequest env d =
      (if domainName d = [0x2A] \<or> downcaseAndRemoveWwwPrefix env (dotted labels) = domainName d
       then replyWithIP env buf (d\<lparr>dns_world := n\<rparr>) else replyWithCustomCode env buf (d\<lparr>dns_world := n\<rparr>))"
    using n(1) hit query_matches(2,3) [OF buf_def assms(4-6)] by simp
  note replies = dns_socket.replyWithIP_datagram [OF assms(1), of buf "d\<lparr>dns_world := n\<rparr>"]
    dns_socket.replyWithCustomCode_datagram [OF assms(1), of buf "d\<lparr>dns_world := n\<rparr>"]
  show ?thesis
  proof (cases "domainName d = [0x2A] \<or> downcaseAndRemoveWwwPrefix env (dotted labels) = domainName d")
    case True
    have "buf[2 := buf ! 2 OR 0x80, 6 := buf ! 4, 7 := buf ! 5] =
        [i1, i2, f1 OR 0x80, f2, 0, 1, 0, 1, 0, 0, 0, 0] @ encodeName labels @ [0] @ rest"
      by (simp add: buf_def)
    then show ?thesis using replies(1) n(2) P True by (simp add: buf_def)
  next
    case False
    have "take 12 (buf[2 := buf ! 2 OR 0x80,
         3 := (buf ! 3 AND 0xF0) OR (reply_code (errorReplyCode d) AND 0x0F), 4 := 0, 5 := 0]) =
       [i1, i2, f1 OR 0x80, (f2 AND 0xF0) OR (reply_code (errorReplyCode d) AND 0x0F), 0, 0, 0, 0, 0, 0, 0, 0]"
      by (simp add: buf_def)
    then show ?thesis using replies(2) n(2) P False by (simp add: buf_def)
  qed
qed

section \<open>A socket with one packet\<close>

text \<open>Replacing all occurrences of a pattern, skipping the first \<open>k\<close> bytes.\<close>

fun replaceFrom :: "nat \<Rightarrow> u8 list \<Rightarrow> u8 list \<Rightarrow> u8 list \<Rightarrow> u8 list" where
  "replaceFrom k [] pat new = []"
| "replaceFrom (Suc k) (c # cs) pat new = replaceFrom k cs pat new"
| "replaceFrom 0 (c # cs) pat new =
     (if pat \<noteq> [] \<and> take (length pat) (c # cs) = pat then new @ replaceFrom (length pat - 1) cs pat new
      else c # replaceFrom 0 cs pat new)"

record socket =
  arrived :: "u8 list"
  unsent :: "u8 list"
  out :: "u8 list list"

definition socket_env :: "socket dns_env" where
  "socket_env =
     \<lparr> udp_begin = (\<lambda>p n. (True, n)),
       udp_parsePacket = (\<lambda>n. (length (arrived n), n)),
       udp_read = (\<lambda>k n. (take k (arrived n), n\<lparr>arrived := drop k (arrived n)\<rparr>)),
       udp_beginPacket = (\<lambda>n. n\<lparr>unsent := []\<rparr>),
       udp_write = (\<lambda>bs n. n\<lparr>unsent := unsent n @ bs\<rparr>),
       udp_endPacket = (\<lambda>n. n\<lparr>out := out n @ [unsent n], unsent := []\<rparr>),
       udp_stop = (\<lambda>n. n),
       malloc_ok = (\<lambda>k n. (k \<le> 4096, n)),
       str_toLowerCase = map (\<lambda>c. if 0x41 \<le> c \<and> c \<le> 0x5A then c + 0x20 else c),
       str_replace = replaceFrom 0 \<rparr>"

interpretation socket: dns_socket socket_env arrived unsent out
  by unfold_locales (auto simp: socket_env_def)

lemma query_is_answered_witness:
  "\<exists>d'. processNextRequest socket_env
        ((dns_new \<lparr>arrived = [0, 7, 1, 0, 0, 1, 0, 0, 0, 0, 0, 0] @ encodeName [[0x61], [0x62]] @ [0] @ [0, 1, 0, 1],
            unsent = [], out = []\<rparr>)\<lparr>domainName := [0x61, 0x2E, 0x62], resolvedIP := [192, 168, 4, 1]\<rparr>) = Some d' \<and>
      out (dns_world d') =
        [[0, 7, 0x81, 0, 0, 1, 0, 1, 0, 0, 0, 0, 1, 0x61, 1, 0x62, 0, 0, 1, 0, 1,
          192, 12, 0, 1, 0, 1, 0, 0, 0, 60, 0, 4, 192, 168, 4, 1]]"
  using query_is_answered [OF socket.dns_socket_axioms, of
      "(dns_new \<lparr>arrived = [0, 7, 1, 0, 0, 1, 0, 0, 0, 0, 0, 0] @ encodeName [[0x61], [0x62]] @ [0] @ [0, 1, 0, 1],
            unsent = [], out = []\<rparr>)\<lparr>domainName := [0x61, 0x2E, 0x62], resolvedIP := [192, 168, 4, 1]\<rparr>"
      0 7 1 0 "[[0x61], [0x62]]" "[0, 1, 0, 1]"]
  by (simp add: dns_new_def encodeName_def htonl_bytes_def downcaseAndRemoveWwwPrefix_def socket_env_def)

end
