(* ===== verification/RingBuffer.thy ===== *)
theory RingBuffer
  imports SdPrelude "HOL-Library.Sublist"
begin

text \<open>
  The ring buffer in which the WiFi driver looks for the answers of the modem
  (WiFiEsp/src/utility/RingBuffer.cpp).  The pointers into the buffer are indices; the
  buffer has one byte more than its size, for a terminating zero.  A read outside the
  buffer is undefined in C++: the function then returns \<open>None\<close>.
\<close>

section \<open>The class\<close>

record ring =
  rb_size :: nat
  ringBuf :: "u8 list"
  ringBufP :: nat

definition ring_init :: "ring \<Rightarrow> ring" where
  "ring_init r = r\<lparr>ringBufP := 0, ringBuf := replicate (rb_size r + 1) 0\<rparr>"

definition ring_new :: "nat \<Rightarrow> ring" where
  "ring_new n = ring_init \<lparr>rb_size = n, ringBuf = [], ringBufP = 0\<rparr>"

definition ring_reset :: "ring \<Rightarrow> ring" where
  "ring_reset r = r\<lparr>ringBufP := 0\<rparr>"

definition ring_push :: "u8 \<Rightarrow> ring \<Rightarrow> ring" where
  "ring_push c r =
     (let r = r\<lparr>ringBuf := (ringBuf r)[ringBufP r := c]\<rparr>;
          p = ringBufP r + 1
      in r\<lparr>ringBufP := (if p \<ge> rb_size r then 0 else p)\<rparr>)"

text \<open>The comparison loop of \<open>endsWith\<close>, from the index \<open>b\<close> on.\<close>

fun compareLoop :: "ring \<Rightarrow> u8 list \<Rightarrow> int \<Rightarrow> bool option" where
  "compareLoop r [] b = Some True"
| "compareLoop r (p # ps) b =
     (if b < 0 \<or> int (length (ringBuf r)) \<le> b then None
      else if p \<noteq> ringBuf r ! nat b then Some False
      else compareLoop r ps (if b + 1 = int (rb_size r) then 0 else b + 1))"

definition ring_endsWith :: "u8 list \<Rightarrow> ring \<Rightarrow> bool option" where
  "ring_endsWith str r =
     (let b = int (ringBufP r) - int (length str)
      in compareLoop r str (if b < 0 then b + int (rb_size r) else b))"

text \<open>
  \<open>strncpy\<close> writes \<open>n\<close> bytes, the source up to its terminating zero, then zeros.  The
  lengths are computed in 32 bits: with more characters skipped than there are before the
  position, the length of \<open>getStr\<close> is huge, and \<open>getStrN\<close> copies \<open>num\<close> characters.
\<close>

definition strncpy_bytes :: "u8 list \<Rightarrow> nat \<Rightarrow> u8 list" where
  "strncpy_bytes src n = (let s = take n (takeWhile (\<lambda>c. c \<noteq> 0) src) in s @ replicate (n - length s) 0)"

definition ring_getStr :: "u32 \<Rightarrow> ring \<Rightarrow> u8 list" where
  "ring_getStr skipChars r =
     (let len = of_nat (ringBufP r) - skipChars in strncpy_bytes (ringBuf r) (unat len))"

definition ring_getStrN :: "u32 \<Rightarrow> u32 \<Rightarrow> ring \<Rightarrow> u8 list" where
  "ring_getStrN skipChars num r =
     (let len = of_nat (ringBufP r) - skipChars;
          len = (if len > num then num else len)
      in strncpy_bytes (ringBuf r) (unat len))"

section \<open>What the buffer holds\<close>

text \<open>
  The buffer holds the last \<open>rb_size\<close> bytes of what has been pushed, behind as many zeros as
  it had at the beginning: the byte pushed \<open>k\<close> pushes before the end is \<open>k\<close> places before
  the position, around the ring.
\<close>

definition holds :: "ring \<Rightarrow> u8 list \<Rightarrow> bool" where
  "holds r xs \<longleftrightarrow>
     0 < rb_size r \<and> ringBufP r < rb_size r \<and> length (ringBuf r) = rb_size r + 1 \<and> rb_size r \<le> length xs \<and>
     (\<forall>k. 1 \<le> k \<and> k \<le> rb_size r \<longrightarrow>
        ringBuf r ! ((ringBufP r + rb_size r - k) mod rb_size r) = xs ! (length xs - k))"

lemma holds_new: "0 < n \<Longrightarrow> holds (ring_new n) (replicate n 0)"
proof -
  have "replicate (Suc n) (0 :: u8) ! i = 0" if "i < Suc n" for i using that by (rule nth_replicate)
  then show "0 < n \<Longrightarrow> holds (ring_new n) (replicate n 0)"
    by (auto simp: holds_def ring_new_def ring_init_def simp del: replicate_Suc)
qed

lemma wrap_once: "(a :: nat) = n + x \<Longrightarrow> a mod n = x mod n"
  by simp

lemma ring_step:
  assumes "p < n" and "1 \<le> k" and "k \<le> n"
  shows "((if p + 1 \<ge> n then 0 else p + 1) + n - k) mod n = (p + n - (k - 1)) mod (n :: nat)"
proof (cases "p + 1 = n")
  case True
  then have "p + n - (k - 1) = n + (0 + n - k)" using assms by auto
  from wrap_once [OF this] show ?thesis using True by simp
next
  case False
  then have "p + 1 < n" "p + n - (k - 1) = p + 1 + n - k" using assms by auto
  then show ?thesis by simp
qed

lemma ring_apart: "p < n \<Longrightarrow> 1 \<le> k \<Longrightarrow> k < n \<Longrightarrow> (p + n - k) mod n \<noteq> (p :: nat)"
proof -
  assume a: "p < n" "1 \<le> k" "k < n"
  show "(p + n - k) mod n \<noteq> p"
  proof (cases "k \<le> p")
    case True
    then have "p + n - k = n + (p - k)" using a by auto
    from wrap_once [OF this] show ?thesis using a True by auto
  next
    case False
    then show ?thesis using a by auto
  qed
qed

lemma holds_push:
  assumes "holds r xs"
  shows "holds (ring_push c r) (xs @ [c])"
proof -
  define n p where "n = rb_size r" and "p = ringBufP r"
  have r: "0 < n" "p < n" "length (ringBuf r) = n + 1" "n \<le> length xs"
      "\<And>k. 1 \<le> k \<Longrightarrow> k \<le> n \<Longrightarrow> ringBuf r ! ((p + n - k) mod n) = xs ! (length xs - k)"
    using assms by (auto simp: holds_def n_def p_def)
  define p' where "p' = (if p + 1 \<ge> n then 0 else p + 1)"
  have "(ringBuf r)[p := c] ! ((p' + n - k) mod n) = (xs @ [c]) ! (length xs + 1 - k)"
    if k: "1 \<le> k" "k \<le> n" for k
  proof (cases "k = 1")
    case True
    then have "(p' + n - k) mod n = p" using ring_step [OF r(2) k, folded p'_def] r(2) by simp
    then show ?thesis using True r by simp
  next
    case False
    then have k': "1 \<le> k - 1" "k - 1 < n" using k by auto
    have "length xs + 1 - k = length xs - (k - 1)" "length xs - (k - 1) < length xs" using k' r(1,4) by auto
    then have "(xs @ [c]) ! (length xs + 1 - k) = xs ! (length xs - (k - 1))" by (simp only: nth_append if_True)
    moreover have "(ringBuf r)[p := c] ! ((p + n - (k - 1)) mod n) = ringBuf r ! ((p + n - (k - 1)) mod n)"
      using ring_apart [OF r(2) k'] by simp
    ultimately show ?thesis using r(5) [OF k'(1)] k' ring_step [OF r(2) k, folded p'_def] by simp
  qed
  moreover have "ring_push c r = r\<lparr>ringBuf := (ringBuf r)[p := c], ringBufP := p'\<rparr>"
    by (simp add: ring_push_def Let_def p'_def p_def n_def)
  moreover have "p' < n" using r(1,2) by (simp add: p'_def)
  ultimately show ?thesis using r(1-4) by (simp add: holds_def n_def [symmetric])
qed

lemma holds_fold: "holds r xs \<Longrightarrow> holds (fold ring_push ys r) (xs @ ys)"
proof (induction ys arbitrary: r xs)
  case (Cons y ys)
  then show ?case using Cons.IH [OF holds_push [OF Cons.prems]] by simp
qed simp

lemma compareLoop_spec:
  assumes "holds r xs" and "length str \<le> rb_size r" and "b = int ((ringBufP r + rb_size r - length str) mod rb_size r)"
  shows "compareLoop r str b = Some (str = drop (length xs - length str) xs)"
  using assms(2,3)
proof (induction str arbitrary: b)
  case (Cons c str)
  define n p where "n = rb_size r" and "p = ringBufP r"
  have r: "0 < n" "p < n" "length (ringBuf r) = n + 1" "n \<le> length xs"
      "\<And>k. 1 \<le> k \<Longrightarrow> k \<le> n \<Longrightarrow> ringBuf r ! ((p + n - k) mod n) = xs ! (length xs - k)"
    using assms(1) by (auto simp: holds_def n_def p_def)
  define j where "j = length (c # str)"
  define i where "i = (p + n - j) mod n"
  have j: "1 \<le> j" "j \<le> n" "length str = j - 1" using Cons.prems(1) by (simp_all add: j_def n_def)
  have b: "b = int i" using Cons.prems(2) by (simp add: i_def j_def n_def p_def)
  have i: "i < n" using r(1) by (simp add: i_def)
  have here: "ringBuf r ! i = xs ! (length xs - j)" using r(5) [OF j(1,2)] by (simp add: i_def)
  have "(if b + 1 = int n then 0 else b + 1) = int ((p + n - (j - 1)) mod n)"
  proof -
    have "p + n - (j - 1) = Suc (p + n - j)" using j r by auto
    then have "(p + n - (j - 1)) mod n = (if Suc i = n then 0 else Suc i)"
      by (simp add: i_def mod_Suc)
    then show ?thesis by (auto simp: b)
  qed
  moreover define nx where "nx = (if b + 1 = int n then 0 else b + 1)"
  ultimately have IH: "compareLoop r str nx = Some (str = drop (length xs - (j - 1)) xs)"
    using Cons.IH [of nx] j by (simp add: n_def p_def)
  have "drop (length xs - j) xs = xs ! (length xs - j) # drop (length xs - (j - 1)) xs"
    using Cons_nth_drop_Suc [of "length xs - j" xs] j r(4) by (simp add: Suc_diff_le)
  moreover have "compareLoop r (c # str) b = (if c \<noteq> ringBuf r ! i then Some False else compareLoop r str nx)"
    using b i r(3) by (simp add: nx_def n_def)
  ultimately show ?case
    using IH here by (simp add: j_def [symmetric] del: list.size)
qed simp

section \<open>Property\<close>

text \<open>
  C39. The ring buffer finds what the modem sent: after any number of bytes pushed into a new
  buffer, endsWith answers whether the text is a suffix of all that has been pushed, for
  every text without a zero byte that is not longer than the buffer.  It reads only inside
  the buffer.
\<close>

theorem endsWith_iff_suffix:
  assumes "0 < n" and "length str \<le> n" and "0 \<notin> set str"
  shows "ring_endsWith str (fold ring_push xs (ring_new n)) = Some (suffix str xs)"
proof -
  define r where "r = fold ring_push xs (ring_new n)"
  define all where "all = replicate n 0 @ xs"
  have h: "holds r all" unfolding r_def all_def by (intro holds_fold holds_new assms(1))
  have size: "rb_size (fold ring_push ys q) = rb_size q" for ys q
    by (induction ys arbitrary: q) (simp_all add: ring_push_def Let_def)
  have n: "rb_size r = n" by (simp add: r_def size ring_new_def ring_init_def)
  have p: "ringBufP r < n" using h n by (simp add: holds_def)
  have "ring_endsWith str r = compareLoop r str (int ((ringBufP r + n - length str) mod n))"
  proof (cases "length str \<le> ringBufP r")
    case True
    then have "ringBufP r + n - length str = n + (ringBufP r - length str)" by simp
    from wrap_once [OF this] have "(ringBufP r + n - length str) mod n = ringBufP r - length str" using p by simp
    then show ?thesis using True p n by (simp add: ring_endsWith_def of_nat_diff)
  next
    case False
    then have "(ringBufP r + n - length str) mod n = ringBufP r + n - length str"
      using assms(1) by (intro mod_less) linarith
    then show ?thesis using False assms(2) n by (simp add: ring_endsWith_def of_nat_diff algebra_simps)
  qed
  also have "\<dots> = Some (str = drop (length all - length str) all)"
    using h assms(2) n by (intro compareLoop_spec) simp_all
  also have "(str = drop (length all - length str) all) = suffix str xs"
  proof (cases "length str \<le> length xs")
    case True
    then show ?thesis by (auto simp: all_def suffix_def) (metis append_take_drop_id)+
  next
    case False
    then have "0 \<in> set (drop (length all - length str) all)" using assms(2) by (simp add: all_def)
    then show ?thesis using False assms(3) suffix_length_le by metis
  qed
  finally show ?thesis by (simp add: r_def)
qed

lemma endsWith_iff_suffix_witness:
  "ring_endsWith [3, 4] (fold ring_push [1, 2, 3, 4] (ring_new 3)) = Some True"
  using endsWith_iff_suffix [of 3 "[3, 4]" "[1, 2, 3, 4]"] by (simp add: suffix_def)

end
