(* ===== verification/MqttPacket.thy ===== *)
theory MqttPacket
  imports SdPrelude
begin

text \<open>
  The packets of the MQTT client (Adafruit_MQTT_Library/Adafruit_MQTT.cpp): what each of
  the packet generation functions writes from the start of the packet on, and the length
  that it returns, in its own integer type.  A C string is the list of its bytes without
  the terminating zero.  That the bytes fit the buffer is not checked here, as it is not
  in the code; theory Mqtt stores them in the buffer and records an overrun.
\<close>

section \<open>Constants\<close>

definition MQTT_PROTOCOL_LEVEL :: u8 where [simp]: "MQTT_PROTOCOL_LEVEL = 4"
definition MQTT_CTRL_CONNECT :: u8 where [simp]: "MQTT_CTRL_CONNECT = 0x1"
definition MQTT_CTRL_CONNECTACK :: u8 where [simp]: "MQTT_CTRL_CONNECTACK = 0x2"
definition MQTT_CTRL_PUBLISH :: u8 where [simp]: "MQTT_CTRL_PUBLISH = 0x3"
definition MQTT_CTRL_PUBACK :: u8 where [simp]: "MQTT_CTRL_PUBACK = 0x4"
definition MQTT_CTRL_SUBSCRIBE :: u8 where [simp]: "MQTT_CTRL_SUBSCRIBE = 0x8"
definition MQTT_CTRL_SUBACK :: u8 where [simp]: "MQTT_CTRL_SUBACK = 0x9"
definition MQTT_CTRL_UNSUBSCRIBE :: u8 where [simp]: "MQTT_CTRL_UNSUBSCRIBE = 0xA"
definition MQTT_CTRL_UNSUBACK :: u8 where [simp]: "MQTT_CTRL_UNSUBACK = 0xB"
definition MQTT_CTRL_PINGREQ :: u8 where [simp]: "MQTT_CTRL_PINGREQ = 0xC"
definition MQTT_CTRL_PINGRESP :: u8 where [simp]: "MQTT_CTRL_PINGRESP = 0xD"
definition MQTT_CTRL_DISCONNECT :: u8 where [simp]: "MQTT_CTRL_DISCONNECT = 0xE"
definition MQTT_QOS_1 :: u8 where [simp]: "MQTT_QOS_1 = 0x1"
definition MQTT_CONN_KEEPALIVE :: u16 where [simp]: "MQTT_CONN_KEEPALIVE = 300"
definition MQTT_CONN_USERNAMEFLAG :: u8 where [simp]: "MQTT_CONN_USERNAMEFLAG = 0x80"
definition MQTT_CONN_PASSWORDFLAG :: u8 where [simp]: "MQTT_CONN_PASSWORDFLAG = 0x40"
definition MQTT_CONN_WILLRETAIN :: u8 where [simp]: "MQTT_CONN_WILLRETAIN = 0x20"
definition MQTT_CONN_WILLQOS_1 :: u8 where [simp]: "MQTT_CONN_WILLQOS_1 = 0x08"
definition MQTT_CONN_WILLQOS_2 :: u8 where [simp]: "MQTT_CONN_WILLQOS_2 = 0x18"
definition MQTT_CONN_WILLFLAG :: u8 where [simp]: "MQTT_CONN_WILLFLAG = 0x04"
definition MQTT_CONN_CLEANSESSION :: u8 where [simp]: "MQTT_CONN_CLEANSESSION = 0x02"

section \<open>Strings and packet identifiers\<close>

text \<open>\<open>strlen\<close> in a \<open>uint16_t\<close>.\<close>

definition strlen16 :: "u8 list \<Rightarrow> u16" where
  "strlen16 s = of_nat (length s)"

definition stringprint :: "u8 list \<Rightarrow> u16 \<Rightarrow> u8 list" where
  "stringprint s maxlen =
     (let len = strlen16 s;
          len = (if maxlen > 0 \<and> len > maxlen then maxlen else len)
      in [ucast (drop_bit 8 len), ucast (len AND 0xFF)] @ take (unat len) s)"

definition idBytes :: "u16 \<Rightarrow> u8 list" where
  "idBytes n = [ucast (drop_bit 8 n AND 0xFF), ucast (n AND 0xFF)]"

text \<open>Filling in \<open>packet[1]\<close> last: the 16 bit length without the fixed header, cut to a byte.\<close>

definition fillLength :: "u8 list \<Rightarrow> u8 list" where
  "fillLength packet = packet[1 := ucast (strlen16 packet - 2)]"

section \<open>The packets\<close>

text \<open>
  The will is a topic and a payload with its flags, absent as long as \<open>will_topic\<close> is null.
\<close>

record mqtt_will =
  will_topic :: "u8 list option"
  will_payload :: "u8 list"
  will_qos :: u8
  will_retain :: u8

definition has_will :: "mqtt_will \<Rightarrow> bool" where
  "has_will w \<longleftrightarrow> (case will_topic w of None \<Rightarrow> False | Some t \<Rightarrow> t \<noteq> [])"

definition connectFlags :: "mqtt_will \<Rightarrow> u8 list \<Rightarrow> u8 list \<Rightarrow> u8" where
  "connectFlags w user pass =
     (let fl = MQTT_CONN_CLEANSESSION;
          fl = (if has_will w then
                  let fl = fl OR MQTT_CONN_WILLFLAG;
                      fl = (if will_qos w = 1 then fl OR MQTT_CONN_WILLQOS_1
                            else if will_qos w = 2 then fl OR MQTT_CONN_WILLQOS_2 else fl)
                  in if will_retain w = 1 then fl OR MQTT_CONN_WILLRETAIN else fl
                else fl);
          fl = (if user \<noteq> [] then fl OR MQTT_CONN_USERNAMEFLAG else fl)
      in if pass \<noteq> [] then fl OR MQTT_CONN_PASSWORDFLAG else fl)"

definition connectPacket :: "u8 list \<Rightarrow> u8 list \<Rightarrow> u8 list \<Rightarrow> mqtt_will \<Rightarrow> u8 list" where
  "connectPacket clientid user pass w =
     fillLength
       ([push_bit 4 MQTT_CTRL_CONNECT OR 0x0, 0] @ stringprint [0x4D, 0x51, 0x54, 0x54] 0 @
        [MQTT_PROTOCOL_LEVEL, connectFlags w user pass,
         ucast (drop_bit 8 MQTT_CONN_KEEPALIVE), ucast (MQTT_CONN_KEEPALIVE AND 0xFF)] @
        (if MQTT_PROTOCOL_LEVEL = 3 then stringprint clientid 23
         else if clientid \<noteq> [] then stringprint clientid 0 else [0, 0]) @
        (if has_will w then stringprint (the (will_topic w)) 0 @ stringprint (will_payload w) 0 else []) @
        (if user \<noteq> [] then stringprint user 0 else []) @
        (if pass \<noteq> [] then stringprint pass 0 else []))"

text \<open>The remaining length: seven bits in a byte, the top bit when more follow.\<close>

function lengthBytes :: "u16 \<Rightarrow> u8 list" where
  "lengthBytes len =
     (let encodedByte = ucast (len mod 128) :: u8; len = len div 128
      in if len > 0 then (encodedByte OR 0x80) # lengthBytes len else [encodedByte])"
  by pat_completeness auto
termination
  by (relation "measure unat") (auto simp: word_less_nat_alt unat_div div_less_dividend)

declare lengthBytes.simps [simp del]

definition publishPacket :: "u8 list \<Rightarrow> u8 list \<Rightarrow> u16 \<Rightarrow> u8 \<Rightarrow> u16 \<Rightarrow> u8 list" where
  "publishPacket tpc data bLen q packet_id =
     (let len = 2 + strlen16 tpc; len = (if q > 0 then len + 2 else len); len = len + bLen
      in [push_bit 4 MQTT_CTRL_PUBLISH OR push_bit 1 q] @ lengthBytes len @ stringprint tpc 0 @
         (if q > 0 then idBytes packet_id else []) @ take (unat bLen) data)"

definition subscribePacket :: "u8 list \<Rightarrow> u8 \<Rightarrow> u16 \<Rightarrow> u8 list" where
  "subscribePacket tpc q packet_id =
     fillLength ([push_bit 4 MQTT_CTRL_SUBSCRIBE OR push_bit 1 MQTT_QOS_1, 0] @ idBytes packet_id @
       stringprint tpc 0 @ [q])"

definition unsubscribePacket :: "u8 list \<Rightarrow> u16 \<Rightarrow> u8 list" where
  "unsubscribePacket tpc packet_id =
     fillLength ([push_bit 4 MQTT_CTRL_UNSUBSCRIBE OR 0x1, 0] @ idBytes packet_id @ stringprint tpc 0)"

definition pingPacket :: "u8 list" where
  "pingPacket = [push_bit 4 MQTT_CTRL_PINGREQ, 0]"

definition pubackPacket :: "u16 \<Rightarrow> u8 list" where
  "pubackPacket packetid =
     [push_bit 4 MQTT_CTRL_PUBACK, 2, ucast (drop_bit 8 packetid), ucast packetid]"

definition disconnectPacket :: "u8 list" where
  "disconnectPacket = [push_bit 4 MQTT_CTRL_DISCONNECT, 0]"

end
