(* ===== verification/BlockDevice.thy ===== *)
theory BlockDevice
  imports SdPrelude
begin

text \<open>
  The interface between the file system (SdVolume and SdFile) and the card driver
  (Sd2Card): the three operations the file system calls, as a record of functions
  on the driver's state, and the contract they promise on a card that works.
  A read into a buffer returns the bytes read, \<open>None\<close> standing for the C++ result
  \<open>false\<close> with the destination unchanged.
\<close>

record 'c card_ops =
  card_readBlock :: "u32 \<Rightarrow> 'c \<Rightarrow> u8 list option \<times> 'c"
  card_readData :: "u32 \<Rightarrow> u16 \<Rightarrow> u16 \<Rightarrow> 'c \<Rightarrow> u8 list option \<times> 'c"
  card_writeBlock :: "u32 \<Rightarrow> u8 list \<Rightarrow> 'c \<Rightarrow> bool \<times> 'c"

text \<open>
  The contract.  \<open>good c\<close> says that the card behind driver state \<open>c\<close> is initialised
  and answers; \<open>disk c b\<close> is what block \<open>b\<close> holds; \<open>lim\<close> is the number of blocks.
  Block zero is write protected by the driver (SD_PROTECT_BLOCK_ZERO).  A partial
  read is promised only from the start of a block, which is how SdFile::read
  uses it for buffered files.
\<close>

locale block_device =
  fixes ops :: "'c card_ops"
    and good :: "'c \<Rightarrow> bool"
    and disk :: "'c \<Rightarrow> u32 \<Rightarrow> u8 list"
    and lim :: nat
  assumes lim_bound: "lim < 2 ^ 32"
    and disk_length: "good c \<Longrightarrow> length (disk c b) = 512"
    and readBlock_law: "good c \<Longrightarrow> unat b < lim \<Longrightarrow>
      \<exists>c'. card_readBlock ops b c = (Some (disk c b), c') \<and> good c' \<and> disk c' = disk c"
    and readData_law: "good c \<Longrightarrow> unat b < lim \<Longrightarrow> n \<le> 512 \<Longrightarrow>
      \<exists>c'. card_readData ops b 0 n c = (Some (take (unat n) (disk c b)), c')
           \<and> good c' \<and> disk c' = disk c"
    and writeBlock_law: "good c \<Longrightarrow> unat b < lim \<Longrightarrow> b \<noteq> 0 \<Longrightarrow> length d = 512 \<Longrightarrow>
      \<exists>c'. card_writeBlock ops b d c = (True, c') \<and> good c' \<and> disk c' = (disk c)(b := d)"

section \<open>Sequencing of fallible steps\<close>

text \<open>
  \<open>if (!f()) return false;\<close> on a state, and the same for a call that hands back a
  value: the pattern every routine of the library is written in.
\<close>

definition seqOk :: "bool \<times> 's \<Rightarrow> ('s \<Rightarrow> bool \<times> 's) \<Rightarrow> bool \<times> 's" where
  "seqOk r k = (case r of (ok, s) \<Rightarrow> if ok then k s else (False, s))"

definition seqVal :: "'a option \<times> 's \<Rightarrow> ('a \<Rightarrow> 's \<Rightarrow> bool \<times> 's) \<Rightarrow> bool \<times> 's" where
  "seqVal r k = (case r of (None, s) \<Rightarrow> (False, s) | (Some v, s) \<Rightarrow> k v s)"

lemma seqOk_simps [simp]:
  "seqOk (True, s) k = k s" "seqOk (False, s) k = (False, s)"
  by (simp_all add: seqOk_def)

lemma seqVal_simps [simp]:
  "seqVal (Some v, s) k = k v s" "seqVal (None, s) k = (False, s)"
  by (simp_all add: seqVal_def)

lemma seqOk_True_iff: "seqOk r k = (True, t) \<longleftrightarrow> (\<exists>s. r = (True, s) \<and> k s = (True, t))"
  by (cases r) (auto simp: seqOk_def)

lemma seqVal_True_iff:
  "seqVal r k = (True, t) \<longleftrightarrow> (\<exists>v s. r = (Some v, s) \<and> k v s = (True, t))"
  by (cases r) (auto simp: seqVal_def split: option.splits)

end
