(* ===== verification/FatStructs.thy ===== *)
theory FatStructs
  imports SdPrelude
begin

text \<open>
  The on-disk structures of SD/src/utility/FatStructs.h and the date and time
  fields of SdFat.h.  A packed struct is a record with the fields of the source
  and a decoder that reads each field at its byte offset in a 512 byte block;
  the directory entry, which the code also writes, has an encoder too.  A pair of
  bit-fields that share one byte is decoded by mask and shift.
\<close>

section \<open>Master boot record and partition table\<close>

record part_t =
  boot :: u8
  beginHead :: u8
  beginSector :: u8
  beginCylinderHigh :: u8
  beginCylinderLow :: u8
  part_type :: u8
  endHead :: u8
  endSector :: u8
  endCylinderHigh :: u8
  endCylinderLow :: u8
  firstSector :: u32
  totalSectors :: u32

definition part_of_bytes :: "u8 list \<Rightarrow> part_t" where
  "part_of_bytes bs =
     \<lparr> boot = bs ! 0, beginHead = bs ! 1,
       beginSector = bs ! 2 AND 0x3F, beginCylinderHigh = drop_bit 6 (bs ! 2),
       beginCylinderLow = bs ! 3, part_type = bs ! 4, endHead = bs ! 5,
       endSector = bs ! 6 AND 0x3F, endCylinderHigh = drop_bit 6 (bs ! 6),
       endCylinderLow = bs ! 7, firstSector = get32 bs 8, totalSectors = get32 bs 12 \<rparr>"

record mbr_t =
  codeArea :: "u8 list"
  diskSignature :: u32
  usuallyZero :: u16
  part :: "part_t list"
  mbrSig0 :: u8
  mbrSig1 :: u8

definition mbr_of_block :: "u8 list \<Rightarrow> mbr_t" where
  "mbr_of_block blk =
     \<lparr> codeArea = slice 0 440 blk, diskSignature = get32 blk 440, usuallyZero = get16 blk 444,
       part = map (\<lambda>i. part_of_bytes (slice (446 + 16 * i) 16 blk)) [0, 1, 2, 3],
       mbrSig0 = blk ! 510, mbrSig1 = blk ! 511 \<rparr>"

section \<open>BIOS parameter block and boot sector\<close>

record bpb_t =
  bytesPerSector :: u16
  sectorsPerCluster :: u8
  reservedSectorCount :: u16
  bpb_fatCount :: u8
  bpb_rootDirEntryCount :: u16
  totalSectors16 :: u16
  mediaType :: u8
  sectorsPerFat16 :: u16
  sectorsPerTrtack :: u16
  headCount :: u16
  hidddenSectors :: u32
  totalSectors32 :: u32
  sectorsPerFat32 :: u32
  fat32Flags :: u16
  fat32Version :: u16
  fat32RootCluster :: u32
  fat32FSInfo :: u16
  fat32BackBootBlock :: u16
  fat32Reserved :: "u8 list"

definition bpb_of_bytes :: "u8 list \<Rightarrow> bpb_t" where
  "bpb_of_bytes bs =
     \<lparr> bytesPerSector = get16 bs 0, sectorsPerCluster = bs ! 2,
       reservedSectorCount = get16 bs 3, bpb_fatCount = bs ! 5,
       bpb_rootDirEntryCount = get16 bs 6, totalSectors16 = get16 bs 8, mediaType = bs ! 10,
       sectorsPerFat16 = get16 bs 11, sectorsPerTrtack = get16 bs 13, headCount = get16 bs 15,
       hidddenSectors = get32 bs 17, totalSectors32 = get32 bs 21, sectorsPerFat32 = get32 bs 25,
       fat32Flags = get16 bs 29, fat32Version = get16 bs 31, fat32RootCluster = get32 bs 33,
       fat32FSInfo = get16 bs 37, fat32BackBootBlock = get16 bs 39,
       fat32Reserved = slice 41 12 bs \<rparr>"

record fbs_t =
  jmpToBootCode :: "u8 list"
  oemName :: "u8 list"
  bpb :: bpb_t
  driveNumber :: u8
  reserved1 :: u8
  bootSignature :: u8
  volumeSerialNumber :: u32
  volumeLabel :: "u8 list"
  fileSystemType :: "u8 list"
  bootCode :: "u8 list"
  bootSectorSig0 :: u8
  bootSectorSig1 :: u8

definition fbs_of_block :: "u8 list \<Rightarrow> fbs_t" where
  "fbs_of_block blk =
     \<lparr> jmpToBootCode = slice 0 3 blk, oemName = slice 3 8 blk, bpb = bpb_of_bytes (slice 11 53 blk),
       driveNumber = blk ! 64, reserved1 = blk ! 65, bootSignature = blk ! 66,
       volumeSerialNumber = get32 blk 67, volumeLabel = slice 71 11 blk,
       fileSystemType = slice 82 8 blk, bootCode = slice 90 420 blk,
       bootSectorSig0 = blk ! 510, bootSectorSig1 = blk ! 511 \<rparr>"

definition FAT16EOC_MIN :: u32 where [simp]: "FAT16EOC_MIN = 0xFFF8"
definition FAT32EOC_MIN :: u32 where [simp]: "FAT32EOC_MIN = 0x0FFFFFF8"
definition FAT32EOC :: u32 where [simp]: "FAT32EOC = 0x0FFFFFFF"
definition FAT32MASK :: u32 where [simp]: "FAT32MASK = 0x0FFFFFFF"

section \<open>Directory entries\<close>

record dir_t =
  dname :: "u8 list"
  attributes :: u8
  reservedNT :: u8
  creationTimeTenths :: u8
  creationTime :: u16
  creationDate :: u16
  lastAccessDate :: u16
  firstClusterHigh :: u16
  lastWriteTime :: u16
  lastWriteDate :: u16
  firstClusterLow :: u16
  dir_fileSize :: u32

definition dir_of_bytes :: "u8 list \<Rightarrow> dir_t" where
  "dir_of_bytes bs =
     \<lparr> dname = slice 0 11 bs, attributes = bs ! 11, reservedNT = bs ! 12,
       creationTimeTenths = bs ! 13, creationTime = get16 bs 14, creationDate = get16 bs 16,
       lastAccessDate = get16 bs 18, firstClusterHigh = get16 bs 20, lastWriteTime = get16 bs 22,
       lastWriteDate = get16 bs 24, firstClusterLow = get16 bs 26, dir_fileSize = get32 bs 28 \<rparr>"

definition bytes_of_dir :: "dir_t \<Rightarrow> u8 list" where
  "bytes_of_dir d =
     dname d @ [attributes d, reservedNT d, creationTimeTenths d]
     @ le16 (creationTime d) @ le16 (creationDate d) @ le16 (lastAccessDate d)
     @ le16 (firstClusterHigh d) @ le16 (lastWriteTime d) @ le16 (lastWriteDate d)
     @ le16 (firstClusterLow d) @ le32 (dir_fileSize d)"

text \<open>The view \<open>cacheBuffer_.dir[i]\<close> of the cache union, read and written.\<close>

definition dir_at :: "u8 list \<Rightarrow> nat \<Rightarrow> dir_t" where
  "dir_at buf i = dir_of_bytes (slice (32 * i) 32 buf)"

definition put_dir :: "u8 list \<Rightarrow> nat \<Rightarrow> dir_t \<Rightarrow> u8 list" where
  "put_dir buf i d = splice buf (32 * i) (bytes_of_dir d)"

text \<open>The zeroed entry \<open>memset(p, 0, sizeof(dir_t))\<close>.\<close>

definition dir_zero :: dir_t where
  "dir_zero =
     \<lparr> dname = replicate 11 0, attributes = 0, reservedNT = 0, creationTimeTenths = 0,
       creationTime = 0, creationDate = 0, lastAccessDate = 0, firstClusterHigh = 0,
       lastWriteTime = 0, lastWriteDate = 0, firstClusterLow = 0, dir_fileSize = 0 \<rparr>"

definition DIR_NAME_DELETED :: u8 where [simp]: "DIR_NAME_DELETED = 0xE5"
definition DIR_NAME_FREE :: u8 where [simp]: "DIR_NAME_FREE = 0x00"
definition DIR_ATT_READ_ONLY :: u8 where [simp]: "DIR_ATT_READ_ONLY = 0x01"
definition DIR_ATT_VOLUME_ID :: u8 where [simp]: "DIR_ATT_VOLUME_ID = 0x08"
definition DIR_ATT_DIRECTORY :: u8 where [simp]: "DIR_ATT_DIRECTORY = 0x10"
definition DIR_ATT_LONG_NAME :: u8 where [simp]: "DIR_ATT_LONG_NAME = 0x0F"
definition DIR_ATT_LONG_NAME_MASK :: u8 where [simp]: "DIR_ATT_LONG_NAME_MASK = 0x3F"

definition DIR_ATT_FILE_TYPE_MASK :: u8 where
  [simp]: "DIR_ATT_FILE_TYPE_MASK = DIR_ATT_VOLUME_ID OR DIR_ATT_DIRECTORY"

definition DIR_IS_LONG_NAME :: "dir_t \<Rightarrow> bool" where
  "DIR_IS_LONG_NAME d \<longleftrightarrow> attributes d AND DIR_ATT_LONG_NAME_MASK = DIR_ATT_LONG_NAME"

definition DIR_IS_FILE :: "dir_t \<Rightarrow> bool" where
  "DIR_IS_FILE d \<longleftrightarrow> attributes d AND DIR_ATT_FILE_TYPE_MASK = 0"

definition DIR_IS_SUBDIR :: "dir_t \<Rightarrow> bool" where
  "DIR_IS_SUBDIR d \<longleftrightarrow> attributes d AND DIR_ATT_FILE_TYPE_MASK = DIR_ATT_DIRECTORY"

definition DIR_IS_FILE_OR_SUBDIR :: "dir_t \<Rightarrow> bool" where
  "DIR_IS_FILE_OR_SUBDIR d \<longleftrightarrow> attributes d AND DIR_ATT_VOLUME_ID = 0"

section \<open>Dates and times of a directory entry\<close>

text \<open>The operands are promoted to \<open>int\<close> and the result is cut to 16 bits.\<close>

definition FAT_DATE :: "u16 \<Rightarrow> u8 \<Rightarrow> u8 \<Rightarrow> u16" where
  "FAT_DATE year month day =
     ucast (push_bit 9 (ucast year - 1980 :: u32) OR push_bit 5 (ucast month) OR ucast day)"

definition FAT_YEAR :: "u16 \<Rightarrow> u16" where
  "FAT_YEAR fatDate = 1980 + drop_bit 9 fatDate"

definition FAT_MONTH :: "u16 \<Rightarrow> u8" where
  "FAT_MONTH fatDate = ucast (drop_bit 5 fatDate AND 0xF)"

definition FAT_DAY :: "u16 \<Rightarrow> u8" where
  "FAT_DAY fatDate = ucast (fatDate AND 0x1F)"

definition FAT_TIME :: "u8 \<Rightarrow> u8 \<Rightarrow> u8 \<Rightarrow> u16" where
  "FAT_TIME hour minute second =
     ucast (push_bit 11 (ucast hour :: u32) OR push_bit 5 (ucast minute)
            OR ucast (drop_bit 1 second))"

definition FAT_HOUR :: "u16 \<Rightarrow> u8" where
  "FAT_HOUR fatTime = ucast (drop_bit 11 fatTime)"

definition FAT_MINUTE :: "u16 \<Rightarrow> u8" where
  "FAT_MINUTE fatTime = ucast (drop_bit 5 fatTime AND 0x3F)"

definition FAT_SECOND :: "u16 \<Rightarrow> u8" where
  "FAT_SECOND fatTime = ucast (2 * (fatTime AND 0x1F))"

definition FAT_DEFAULT_DATE :: u16 where
  "FAT_DEFAULT_DATE = push_bit 9 (2000 - 1980) OR push_bit 5 1 OR 1"

definition FAT_DEFAULT_TIME :: u16 where
  "FAT_DEFAULT_TIME = push_bit 11 1"

section \<open>Encoding and decoding agree\<close>

lemma length_le16 [simp]: "length (le16 v) = 2"
  by (simp add: le16_def)

lemma length_le32 [simp]: "length (le32 v) = 4"
  by (simp add: le32_def)

lemma length_bytes_of_dir [simp]: "length (dname d) = 11 \<Longrightarrow> length (bytes_of_dir d) = 32"
  by (simp add: bytes_of_dir_def)

lemma length_dname_dir_of_bytes [simp]: "11 \<le> length bs \<Longrightarrow> length (dname (dir_of_bytes bs)) = 11"
  by (simp add: dir_of_bytes_def)

lemma length_dname_dir_at [simp]:
  "32 * i + 32 \<le> length buf \<Longrightarrow> length (dname (dir_at buf i)) = 11"
  by (simp add: dir_at_def)

lemma get16_append_le16: "length xs = i \<Longrightarrow> get16 (xs @ le16 v @ ys) i = v"
  by (simp add: get16_def le16_def nth_append join16_split)

lemma get32_append_le32: "length xs = i \<Longrightarrow> get32 (xs @ le32 v @ ys) i = v"
  using get16_append_le16 [of "xs @ le16 (ucast v)" "i + 2" "ucast (drop_bit 16 v)" ys]
  by (simp add: get32_def le32_def get16_append_le16 join32_split)

lemma dir_of_bytes_of_dir:
  assumes "length (dname d) = 11"
  shows "dir_of_bytes (bytes_of_dir d) = d"
proof -
  have "get16 (bytes_of_dir d) 14 = creationTime d"
    using assms by (simp add: bytes_of_dir_def get16_def le16_def nth_append join16_split)
  moreover have "get16 (bytes_of_dir d) 16 = creationDate d"
    using assms by (simp add: bytes_of_dir_def get16_def le16_def nth_append join16_split)
  moreover have "get16 (bytes_of_dir d) 18 = lastAccessDate d"
    using assms by (simp add: bytes_of_dir_def get16_def le16_def nth_append join16_split)
  moreover have "get16 (bytes_of_dir d) 20 = firstClusterHigh d"
    using assms by (simp add: bytes_of_dir_def get16_def le16_def nth_append join16_split)
  moreover have "get16 (bytes_of_dir d) 22 = lastWriteTime d"
    using assms by (simp add: bytes_of_dir_def get16_def le16_def nth_append join16_split)
  moreover have "get16 (bytes_of_dir d) 24 = lastWriteDate d"
    using assms by (simp add: bytes_of_dir_def get16_def le16_def nth_append join16_split)
  moreover have "get16 (bytes_of_dir d) 26 = firstClusterLow d"
    using assms by (simp add: bytes_of_dir_def get16_def le16_def nth_append join16_split)
  moreover have "get32 (bytes_of_dir d) 28 = dir_fileSize d"
    using assms
    by (simp add: bytes_of_dir_def get32_def get16_def le32_def le16_def nth_append join16_split
          join32_split)
  moreover have "slice 0 11 (bytes_of_dir d) = dname d"
    using assms by (simp add: bytes_of_dir_def slice_def)
  ultimately show ?thesis
    using assms by (simp add: dir_of_bytes_def) (simp add: bytes_of_dir_def nth_append)
qed

lemma slice_append_slice: "slice a n xs @ slice (a + n) m xs = slice a (n + m) xs"
  by (simp add: slice_def take_add drop_drop add.commute [of n a])

lemma le16_join: "le16 (ucast a OR push_bit 8 (ucast b)) = [a, b :: u8]"
proof -
  have "(ucast (ucast a OR push_bit 8 (ucast b) :: u16) :: u8) = a"
    by (rule bit_word_eqI) (auto simp: bit_simps)
  moreover have "(ucast (drop_bit 8 (ucast a OR push_bit 8 (ucast b) :: u16)) :: u8) = b"
    by (rule bit_word_eqI) (auto simp: bit_simps dest: bit_imp_le_length)
  ultimately show ?thesis by (simp add: le16_def)
qed

lemma le32_join: "le32 (ucast a OR push_bit 16 (ucast b)) = le16 a @ le16 b"
proof -
  have "(ucast (ucast a OR push_bit 16 (ucast b) :: u32) :: u16) = a"
    by (rule bit_word_eqI) (auto simp: bit_simps)
  moreover have "(ucast (drop_bit 16 (ucast a OR push_bit 16 (ucast b) :: u32)) :: u16) = b"
    by (rule bit_word_eqI) (auto simp: bit_simps dest: bit_imp_le_length)
  ultimately show ?thesis by (simp add: le32_def)
qed

lemma slice_1: "i < length xs \<Longrightarrow> slice i 1 xs = [xs ! i]"
  by (simp add: slice_def take_Suc hd_drop_conv_nth)

lemma slice_2: "i + 1 < length xs \<Longrightarrow> slice i 2 xs = [xs ! i, xs ! (i + 1)]"
  using slice_append_slice [of i 1 xs 1] by (simp add: slice_1 [simplified] numeral_2_eq_2)

lemma le16_get16: "i + 1 < length bs \<Longrightarrow> le16 (get16 bs i) = slice i 2 bs"
  by (simp add: get16_def le16_join slice_2)

lemma le32_get32: "i + 3 < length bs \<Longrightarrow> le32 (get32 bs i) = slice i 4 bs"
  using slice_append_slice [of i 2 bs 2] by (simp add: get32_def le32_join le16_get16)

lemma bytes_of_dir_of_bytes:
  assumes "length bs = 32"
  shows "bytes_of_dir (dir_of_bytes bs) = bs"
proof -
  have "bytes_of_dir (dir_of_bytes bs) =
      slice 0 11 bs @ slice 11 1 bs @ slice 12 1 bs @ slice 13 1 bs @ slice 14 2 bs @ slice 16 2 bs
      @ slice 18 2 bs @ slice 20 2 bs @ slice 22 2 bs @ slice 24 2 bs @ slice 26 2 bs @ slice 28 4 bs"
    using assms
    by (simp add: bytes_of_dir_def dir_of_bytes_def le16_get16 le32_get32 slice_1 [simplified])
  also have "\<dots> = slice 0 32 bs"
    using slice_append_slice [of 0 11 bs 21] slice_append_slice [of 11 1 bs 20]
      slice_append_slice [of 12 1 bs 19] slice_append_slice [of 13 1 bs 18]
      slice_append_slice [of 14 2 bs 16] slice_append_slice [of 16 2 bs 14]
      slice_append_slice [of 18 2 bs 12] slice_append_slice [of 20 2 bs 10]
      slice_append_slice [of 22 2 bs 8] slice_append_slice [of 24 2 bs 6]
      slice_append_slice [of 26 2 bs 4]
    by simp
  finally show ?thesis using assms by simp
qed

lemma length_put_dir [simp]:
  "length (dname d) = 11 \<Longrightarrow> 32 * i + 32 \<le> length buf \<Longrightarrow> length (put_dir buf i d) = length buf"
  by (simp add: put_dir_def)

lemma dir_at_put_dir_same [buf_simps]:
  assumes "length (dname d) = 11" and "32 * i + 32 \<le> length buf"
  shows "dir_at (put_dir buf i d) i = d"
  using slice_splice_same [of "32 * i" "bytes_of_dir d" buf] assms
  by (simp add: dir_at_def put_dir_def dir_of_bytes_of_dir)

lemma dir_at_put_dir_other [buf_simps]:
  assumes "length (dname d) = 11" and "32 * i + 32 \<le> length buf" and "32 * j + 32 \<le> length buf"
    and "i \<noteq> j"
  shows "dir_at (put_dir buf i d) j = dir_at buf j"
proof -
  from assms(4) have "32 * j + 32 \<le> 32 * i \<or> 32 * i + 32 \<le> 32 * j" by linarith
  with assms(1-3) show ?thesis
    by (simp add: dir_at_def put_dir_def slice_splice_disjoint)
qed

lemma put_dir_dir_at: "32 * i + 32 \<le> length buf \<Longrightarrow> put_dir buf i (dir_at buf i) = buf"
  by (simp add: put_dir_def dir_at_def bytes_of_dir_of_bytes splice_slice_id)

section \<open>Directory entry kinds\<close>

lemma DIR_IS_exclusive: "\<not> (DIR_IS_FILE d \<and> DIR_IS_SUBDIR d)"
  by (simp add: DIR_IS_FILE_def DIR_IS_SUBDIR_def)

section \<open>Dates and times\<close>

lemma FAT_DATE_fields:
  assumes "1980 \<le> unat year" and "unat year \<le> 2107" and "unat month < 16" and "unat day < 32"
  shows "FAT_YEAR (FAT_DATE year month day) = year"
    and "FAT_MONTH (FAT_DATE year month day) = month"
    and "FAT_DAY (FAT_DATE year month day) = day"
proof -
  let ?y = "ucast year - 1980 :: u32"
  have yv: "unat ?y = unat year - 1980"
    using assms(1) by (subst unat_sub_small) (auto simp: unat_ucast_up)
  with assms(2) have y: "unat ?y < 2 ^ 7" by simp
  note small = bit_small [OF y] bit_small [of month 4] bit_small [of day 5]
  have "drop_bit 9 (FAT_DATE year month day) = ucast ?y"
    using assms y
    by (intro bit_word_eqI) (auto simp: FAT_DATE_def bit_simps small intro: bit_bound [where n = 7, simplified])
  then have "unat (drop_bit 9 (FAT_DATE year month day)) = unat year - 1980"
    using yv assms(2) by (simp add: unat_ucast_mod)
  then show "FAT_YEAR (FAT_DATE year month day) = year"
    using assms(1,2)
    by (subst word_unat_eq_iff) (simp add: FAT_YEAR_def unat_word_ariths)
  show "FAT_MONTH (FAT_DATE year month day) = month"
    using assms
    by (intro bit_word_eqI)
       (auto simp: FAT_MONTH_def FAT_DATE_def and_mask16_take_bit bit_simps small
             intro: bit_bound [where n = 4, simplified])
  show "FAT_DAY (FAT_DATE year month day) = day"
    using assms
    by (intro bit_word_eqI)
       (auto simp: FAT_DAY_def FAT_DATE_def and_mask16_take_bit bit_simps small
             intro: bit_bound [where n = 5, simplified])
qed

lemma FAT_TIME_fields:
  assumes "unat hour < 32" and "unat minute < 64" and "unat second < 64"
  shows "FAT_HOUR (FAT_TIME hour minute second) = hour"
    and "FAT_MINUTE (FAT_TIME hour minute second) = minute"
    and "FAT_SECOND (FAT_TIME hour minute second) = second AND NOT 1"
proof -
  note small = bit_small [of hour 5] bit_small [of minute 6] bit_small [of second 6]
  show "FAT_HOUR (FAT_TIME hour minute second) = hour"
    using assms
    by (intro bit_word_eqI)
       (auto simp: FAT_HOUR_def FAT_TIME_def bit_simps small intro: bit_bound [where n = 5, simplified])
  show "FAT_MINUTE (FAT_TIME hour minute second) = minute"
    using assms
    by (intro bit_word_eqI)
       (auto simp: FAT_MINUTE_def FAT_TIME_def and_mask16_take_bit bit_simps small intro: bit_bound [where n = 6, simplified])
  have dbl: "FAT_SECOND t = ucast (2 * take_bit 5 t)" for t
    by (simp add: FAT_SECOND_def and_mask16_take_bit)
  have "bit (FAT_SECOND t) n \<longleftrightarrow> n < 8 \<and> n \<noteq> 0 \<and> n - 1 < 5 \<and> bit t (n - 1)" for t n
    unfolding dbl by (subst bit_ucast_iff, subst bit_double_iff) (auto simp: bit_simps)
  then show "FAT_SECOND (FAT_TIME hour minute second) = second AND NOT 1"
    using assms
    by (intro bit_word_eqI)
       (auto simp: FAT_TIME_def bit_simps small bit_1_iff dest: bit_bound [where n = 6, simplified])
qed

end
