(* ===== verification/SdVolume.thy ===== *)
theory SdVolume
  imports BlockDevice FatStructs
begin

text \<open>
  SdVolume of SD/src/utility/SdVolume.cpp and SdFat.h: the one-block cache shared
  by every file, the File Allocation Table reached through it, cluster allocation,
  and mounting.  The static members of the class and the fields of the one volume
  object are the record \<open>fs\<close>, next to the two other globals the file code uses:
  the date/time callback (with the number of times it has been called, since each
  call may answer differently) and the characters printed on the serial port.
\<close>

section \<open>State\<close>

record sdvolume =
  allocSearchStart :: u32
  blocksPerCluster :: u8
  blocksPerFat :: u32
  clusterCount :: u32
  clusterSizeShift :: u8
  dataStartBlock :: u32
  fatCount :: u8
  fatStartBlock :: u32
  fatType :: u8
  rootDirEntryCount :: u16
  rootDirStart :: u32

record 'c fs =
  card :: 'c
  cacheBuffer :: "u8 list"
  cacheBlockNumber :: u32
  cacheDirty :: bool
  cacheMirrorBlock :: u32
  vol :: sdvolume
  dateTime :: "(nat \<Rightarrow> u16 \<times> u16) option"
  dateCalls :: nat
  serial :: "u8 list"

text \<open>The state before any volume is mounted: static initialisers and the constructor.\<close>

definition sdvolume_new :: sdvolume where
  "sdvolume_new =
     \<lparr> allocSearchStart = 2, blocksPerCluster = 0, blocksPerFat = 0, clusterCount = 0,
       clusterSizeShift = 0, dataStartBlock = 0, fatCount = 0, fatStartBlock = 0, fatType = 0,
       rootDirEntryCount = 0, rootDirStart = 0 \<rparr>"

definition fs_new :: "'c \<Rightarrow> 'c fs" where
  "fs_new c =
     \<lparr> card = c, cacheBuffer = replicate 512 0, cacheBlockNumber = 0xFFFFFFFF, cacheDirty = False,
       cacheMirrorBlock = 0, vol = sdvolume_new, dateTime = None, dateCalls = 0, serial = [] \<rparr>"

definition CACHE_FOR_READ :: bool where [simp]: "CACHE_FOR_READ = False"
definition CACHE_FOR_WRITE :: bool where [simp]: "CACHE_FOR_WRITE = True"

section \<open>The block cache\<close>

definition cacheFlush :: "'c card_ops \<Rightarrow> 'c fs \<Rightarrow> bool \<times> 'c fs" where
  "cacheFlush ops s =
     (if cacheDirty s then
        case card_writeBlock ops (cacheBlockNumber s) (cacheBuffer s) (card s) of (ok, c) \<Rightarrow>
          let s = s\<lparr>card := c\<rparr> in
          if \<not> ok then (False, s)
          else if cacheMirrorBlock s \<noteq> 0 then
            case card_writeBlock ops (cacheMirrorBlock s) (cacheBuffer s) (card s) of (ok, c) \<Rightarrow>
              let s = s\<lparr>card := c\<rparr> in
              if \<not> ok then (False, s)
              else (True, s\<lparr>cacheMirrorBlock := 0, cacheDirty := False\<rparr>)
          else (True, s\<lparr>cacheDirty := False\<rparr>)
      else (True, s))"

definition cacheSetDirty :: "'c fs \<Rightarrow> 'c fs" where
  "cacheSetDirty s = s\<lparr>cacheDirty := True\<rparr>"

definition cacheRawBlock :: "'c card_ops \<Rightarrow> u32 \<Rightarrow> bool \<Rightarrow> 'c fs \<Rightarrow> bool \<times> 'c fs" where
  "cacheRawBlock ops blockNumber action s =
     seqOk
       (if cacheBlockNumber s \<noteq> blockNumber then
          seqOk (cacheFlush ops s) (\<lambda>s.
            case card_readBlock ops blockNumber (card s) of
              (None, c) \<Rightarrow> (False, s\<lparr>card := c\<rparr>)
            | (Some d, c) \<Rightarrow>
                (True, s\<lparr>card := c, cacheBuffer := d, cacheBlockNumber := blockNumber\<rparr>))
        else (True, s))
       (\<lambda>s. (True, s\<lparr>cacheDirty := cacheDirty s \<or> action\<rparr>))"

definition cacheZeroBlock :: "'c card_ops \<Rightarrow> u32 \<Rightarrow> 'c fs \<Rightarrow> bool \<times> 'c fs" where
  "cacheZeroBlock ops blockNumber s =
     seqOk (cacheFlush ops s) (\<lambda>s.
       (True, cacheSetDirty
                (s\<lparr>cacheBuffer := replicate 512 0, cacheBlockNumber := blockNumber\<rparr>)))"

definition cacheClear :: "'c card_ops \<Rightarrow> 'c fs \<Rightarrow> u8 list \<times> 'c fs" where
  "cacheClear ops s =
     (let s = snd (cacheFlush ops s);
          s = s\<lparr>cacheBlockNumber := 0xFFFFFFFF\<rparr>
      in (cacheBuffer s, s))"

section \<open>Geometry\<close>

definition blockOfCluster :: "sdvolume \<Rightarrow> u32 \<Rightarrow> u8" where
  "blockOfCluster v position = ucast (drop_bit 9 position AND (ucast (blocksPerCluster v) - 1))"

definition clusterStartBlock :: "sdvolume \<Rightarrow> u32 \<Rightarrow> u32" where
  "clusterStartBlock v cluster =
     dataStartBlock v + push_bit (unat (clusterSizeShift v)) (cluster - 2)"

definition blockNumber :: "sdvolume \<Rightarrow> u32 \<Rightarrow> u32 \<Rightarrow> u32" where
  "blockNumber v cluster position =
     clusterStartBlock v cluster + ucast (blockOfCluster v position)"

definition isEOC :: "sdvolume \<Rightarrow> u32 \<Rightarrow> bool" where
  "isEOC v cluster \<longleftrightarrow> cluster \<ge> (if fatType v = 16 then FAT16EOC_MIN else FAT32EOC_MIN)"

section \<open>File Allocation Table\<close>

text \<open>The block of the first FAT that holds the entry of a cluster.\<close>

definition fatLba :: "sdvolume \<Rightarrow> u32 \<Rightarrow> u32" where
  "fatLba v cluster =
     fatStartBlock v + (if fatType v = 16 then drop_bit 8 cluster else drop_bit 7 cluster)"

definition fatGet :: "'c card_ops \<Rightarrow> u32 \<Rightarrow> 'c fs \<Rightarrow> u32 option \<times> 'c fs" where
  "fatGet ops cluster s =
     (if cluster > clusterCount (vol s) + 1 then (None, s)
      else
        let lba = fatLba (vol s) cluster in
        case (if lba \<noteq> cacheBlockNumber s then cacheRawBlock ops lba CACHE_FOR_READ s
              else (True, s)) of
          (False, s) \<Rightarrow> (None, s)
        | (True, s) \<Rightarrow>
            (Some (if fatType (vol s) = 16
                   then ucast (get16 (cacheBuffer s) (2 * unat (cluster AND 0xFF)))
                   else get32 (cacheBuffer s) (4 * unat (cluster AND 0x7F)) AND FAT32MASK), s))"

definition fatPut :: "'c card_ops \<Rightarrow> u32 \<Rightarrow> u32 \<Rightarrow> 'c fs \<Rightarrow> bool \<times> 'c fs" where
  "fatPut ops cluster value s =
     (if cluster < 2 then (False, s)
      else if cluster > clusterCount (vol s) + 1 then (False, s)
      else
        let lba = fatLba (vol s) cluster in
        seqOk (if lba \<noteq> cacheBlockNumber s then cacheRawBlock ops lba CACHE_FOR_READ s
               else (True, s)) (\<lambda>s.
          let buf = (if fatType (vol s) = 16
                     then put16 (cacheBuffer s) (2 * unat (cluster AND 0xFF)) (ucast value)
                     else put32 (cacheBuffer s) (4 * unat (cluster AND 0x7F)) value);
              s = cacheSetDirty (s\<lparr>cacheBuffer := buf\<rparr>)
          in (True, if fatCount (vol s) > 1
                    then s\<lparr>cacheMirrorBlock := lba + blocksPerFat (vol s)\<rparr> else s)))"

definition fatPutEOC :: "'c card_ops \<Rightarrow> u32 \<Rightarrow> 'c fs \<Rightarrow> bool \<times> 'c fs" where
  "fatPutEOC ops cluster s = fatPut ops cluster 0x0FFFFFFF s"

section \<open>Cluster chains\<close>

text \<open>
  The search loop of allocContiguous: the first argument counts the iterations left
  (\<open>n\<close> runs from 0 while \<open>n < clusterCount_\<close>); the result is the group found.
\<close>

fun allocSearch ::
  "'c card_ops \<Rightarrow> nat \<Rightarrow> u32 \<Rightarrow> u32 \<Rightarrow> u32 \<Rightarrow> u32 \<Rightarrow> 'c fs \<Rightarrow> (u32 \<times> u32) option \<times> 'c fs" where
  "allocSearch ops 0 count fatEnd bgnCluster endCluster s = (None, s)"
| "allocSearch ops (Suc k) count fatEnd bgnCluster endCluster s =
     (let (bgnCluster, endCluster) =
            (if endCluster > fatEnd then (2, 2) else (bgnCluster, endCluster))
      in case fatGet ops endCluster s of
           (None, s) \<Rightarrow> (None, s)
         | (Some f, s) \<Rightarrow>
             if f \<noteq> 0
             then allocSearch ops k count fatEnd (endCluster + 1) (endCluster + 1) s
             else if endCluster - bgnCluster + 1 = count
             then (Some (bgnCluster, endCluster), s)
             else allocSearch ops k count fatEnd bgnCluster (endCluster + 1) s)"

function linkClusters :: "'c card_ops \<Rightarrow> u32 \<Rightarrow> u32 \<Rightarrow> 'c fs \<Rightarrow> bool \<times> 'c fs" where
  "linkClusters ops bgnCluster endCluster s =
     (if endCluster > bgnCluster then
        case fatPut ops (endCluster - 1) endCluster s of (ok, s) \<Rightarrow>
          if \<not> ok then (False, s) else linkClusters ops bgnCluster (endCluster - 1) s
      else (True, s))"
  by pat_completeness auto
termination
  by (relation "measure (\<lambda>(ops, bgn, endc, s). unat endc - unat bgn)")
     (auto simp: word_less_nat_alt unat_sub_small)

definition allocContiguous ::
  "'c card_ops \<Rightarrow> u32 \<Rightarrow> u32 \<Rightarrow> 'c fs \<Rightarrow> u32 option \<times> 'c fs" where
  "allocContiguous ops count curCluster s =
     (let (bgnCluster, setStart) =
            (if curCluster \<noteq> 0 then (curCluster + 1, False)
             else (allocSearchStart (vol s), count = 1));
          fatEnd = clusterCount (vol s) + 1
      in case allocSearch ops (unat (clusterCount (vol s))) count fatEnd bgnCluster bgnCluster s of
           (None, s) \<Rightarrow> (None, s)
         | (Some (bgnCluster, endCluster), s) \<Rightarrow>
             case seqOk (fatPutEOC ops endCluster s) (\<lambda>s.
                    seqOk (linkClusters ops bgnCluster endCluster s) (\<lambda>s.
                      if curCluster \<noteq> 0 then fatPut ops curCluster bgnCluster s
                      else (True, s))) of
               (False, s) \<Rightarrow> (None, s)
             | (True, s) \<Rightarrow>
                 (Some bgnCluster,
                  if setStart then s\<lparr>vol := vol s\<lparr>allocSearchStart := bgnCluster + 1\<rparr>\<rparr> else s))"

text \<open>
  The two loops that follow a chain.  Nothing bounds them on a corrupt table, so they
  are partial: \<open>None\<close> means that the loop does not end.
\<close>

partial_function (option) chainLoop ::
  "'c card_ops \<Rightarrow> u32 \<Rightarrow> u32 \<Rightarrow> 'c fs \<Rightarrow> (u32 option \<times> 'c fs) option" where
  "chainLoop ops cluster n s =
     (case fatGet ops cluster s of
        (None, s) \<Rightarrow> Some (None, s)
      | (Some cluster, s) \<Rightarrow>
          let n = n + push_bit (unat (clusterSizeShift (vol s))) 512 in
          if isEOC (vol s) cluster then Some (Some n, s) else chainLoop ops cluster n s)"

definition chainSize :: "'c card_ops \<Rightarrow> u32 \<Rightarrow> 'c fs \<Rightarrow> (u32 option \<times> 'c fs) option" where
  "chainSize ops cluster s = chainLoop ops cluster 0 s"

partial_function (option) freeLoop ::
  "'c card_ops \<Rightarrow> u32 \<Rightarrow> 'c fs \<Rightarrow> (bool \<times> 'c fs) option" where
  "freeLoop ops cluster s =
     (case fatGet ops cluster s of
        (None, s) \<Rightarrow> Some (False, s)
      | (Some nxt, s) \<Rightarrow>
          (case fatPut ops cluster 0 s of (ok, s) \<Rightarrow>
             if \<not> ok then Some (False, s)
             else if isEOC (vol s) nxt then Some (True, s)
             else freeLoop ops nxt s))"

definition freeChain :: "'c card_ops \<Rightarrow> u32 \<Rightarrow> 'c fs \<Rightarrow> (bool \<times> 'c fs) option" where
  "freeChain ops cluster s = freeLoop ops cluster (s\<lparr>vol := vol s\<lparr>allocSearchStart := 2\<rparr>\<rparr>)"

section \<open>Mounting a volume\<close>

text \<open>The loop that finds the shift equal to multiplication by \<open>blocksPerCluster_\<close>.\<close>

function shiftLoop :: "u8 \<Rightarrow> u8 \<Rightarrow> bool \<times> u8" where
  "shiftLoop bpc shift =
     (if (ucast bpc :: u32) \<noteq> push_bit (unat shift) 1 then
        if shift > 7 then (False, shift + 1) else shiftLoop bpc (shift + 1)
      else (True, shift))"
  by pat_completeness auto
termination
  by (relation "measure (\<lambda>(bpc, shift). 256 - unat shift)")
     (auto simp: word_less_nat_alt word_le_nat_alt unat_Suc_small)

declare linkClusters.simps [simp del] shiftLoop.simps [simp del]

text \<open>The part of init that follows the checks of the boot sector.\<close>

definition initGeometry :: "u32 \<Rightarrow> bpb_t \<Rightarrow> sdvolume \<Rightarrow> bool \<times> sdvolume" where
  "initGeometry volumeStartBlock b v =
     (let v = v\<lparr>fatCount := bpb_fatCount b, blocksPerCluster := sectorsPerCluster b\<rparr>
      in case shiftLoop (blocksPerCluster v) 0 of (ok, shift) \<Rightarrow>
        let v = v\<lparr>clusterSizeShift := shift\<rparr> in
        if \<not> ok then (False, v)
        else
          let v = v\<lparr>blocksPerFat := (if sectorsPerFat16 b \<noteq> 0 then ucast (sectorsPerFat16 b)
                                      else sectorsPerFat32 b)\<rparr>;
              v = v\<lparr>fatStartBlock := volumeStartBlock + ucast (reservedSectorCount b)\<rparr>;
              v = v\<lparr>rootDirEntryCount := bpb_rootDirEntryCount b\<rparr>;
              v = v\<lparr>rootDirStart := fatStartBlock v + ucast (bpb_fatCount b) * blocksPerFat v\<rparr>;
              v = v\<lparr>dataStartBlock := rootDirStart v +
                      (32 * ucast (bpb_rootDirEntryCount b) + 511) div 512\<rparr>;
              totalBlocks = (if totalSectors16 b \<noteq> 0 then ucast (totalSectors16 b)
                             else totalSectors32 b);
              v = v\<lparr>clusterCount := totalBlocks - (dataStartBlock v - volumeStartBlock)\<rparr>;
              v = v\<lparr>clusterCount := drop_bit (unat (clusterSizeShift v)) (clusterCount v)\<rparr>
          in (True,
              if clusterCount v < 4085 then v\<lparr>fatType := 12\<rparr>
              else if clusterCount v < 65525 then v\<lparr>fatType := 16\<rparr>
              else v\<lparr>rootDirStart := fat32RootCluster b, fatType := 32\<rparr>))"

definition initPart :: "'c card_ops \<Rightarrow> u8 \<Rightarrow> 'c fs \<Rightarrow> bool \<times> 'c fs" where
  "initPart ops prt s =
     (case (if prt \<noteq> 0 then
              if prt > 4 then (None, s)
              else case cacheRawBlock ops 0 CACHE_FOR_READ s of
                (False, s) \<Rightarrow> (None, s)
              | (True, s) \<Rightarrow>
                  let p = part (mbr_of_block (cacheBuffer s)) ! unat (prt - 1) in
                  if boot p AND 0x7F \<noteq> 0 \<or> totalSectors p < 100 \<or> firstSector p = 0
                  then (None, s)
                  else (Some (firstSector p), s)
            else (Some 0, s)) of
        (None, s) \<Rightarrow> (False, s)
      | (Some volumeStartBlock, s) \<Rightarrow>
          seqOk (cacheRawBlock ops volumeStartBlock CACHE_FOR_READ s) (\<lambda>s.
            let b = bpb (fbs_of_block (cacheBuffer s)) in
            if bytesPerSector b \<noteq> 512 \<or> bpb_fatCount b = 0 \<or> reservedSectorCount b = 0
               \<or> sectorsPerCluster b = 0
            then (False, s)
            else case initGeometry volumeStartBlock b (vol s) of (ok, v) \<Rightarrow> (ok, s\<lparr>vol := v\<rparr>)))"

text \<open>\<open>init(dev)\<close>: partition one first, then the super floppy format.\<close>

definition initVolume :: "'c card_ops \<Rightarrow> 'c fs \<Rightarrow> bool \<times> 'c fs" where
  "initVolume ops s =
     (case initPart ops 1 s of (ok, s) \<Rightarrow> if ok then (True, s) else initPart ops 0 s)"

end
