(* ===== verification/ShortName.thy ===== *)
theory ShortName
  imports FatStructs
begin

text \<open>
  DOS 8.3 names (SdFile::make83Name and SdFile::dirName of
  SD/src/utility/SdFile.cpp).  A C string is the list of its characters before the
  terminating NUL.  The list of illegal characters is compiled in for AVR and ARM
  only; the ESP8266 build, which the rest of the driver is written for, has none.
\<close>

section \<open>The code\<close>

definition toUpper83 :: "u8 \<Rightarrow> u8" where
  "toUpper83 c = (if c < 0x61 \<or> c > 0x7A then c else c + (0x41 - 0x61))"

text \<open>The loop over the string: \<open>n\<close> is the last index allowed, \<open>i\<close> the next to be filled.\<close>

fun make83Loop :: "u8 list \<Rightarrow> nat \<Rightarrow> nat \<Rightarrow> u8 list \<Rightarrow> u8 list option" where
  "make83Loop [] n i name = Some name"
| "make83Loop (c # str) n i name =
     (if c = 0x2E then
        if n = 10 then None else make83Loop str 10 8 name
      else if i > n \<or> c < 0x21 \<or> c > 0x7E then None
      else make83Loop str n (i + 1) (name[i := toUpper83 c]))"

definition make83Name :: "u8 list \<Rightarrow> u8 list option" where
  "make83Name str =
     (case make83Loop str 7 0 (replicate 11 0x20) of
        None \<Rightarrow> None
      | Some name \<Rightarrow> if name ! 0 \<noteq> 0x20 then Some name else None)"

text \<open>The name field without its blanks, a dot before the extension.\<close>

fun dirNameLoop :: "u8 list \<Rightarrow> nat \<Rightarrow> u8 list" where
  "dirNameLoop [] i = []"
| "dirNameLoop (c # cs) i =
     (if c = 0x20 then dirNameLoop cs (i + 1)
      else (if i = 8 then [0x2E] else []) @ c # dirNameLoop cs (i + 1))"

definition dirName :: "dir_t \<Rightarrow> u8 list" where
  "dirName d = dirNameLoop (dname d) 0"

section \<open>Names that a directory entry can hold\<close>

definition char83 :: "u8 \<Rightarrow> bool" where
  "char83 c \<longleftrightarrow> 0x21 \<le> c \<and> c \<le> 0x7E \<and> c \<noteq> 0x2E"

definition pad :: "nat \<Rightarrow> u8 list \<Rightarrow> u8 list" where
  "pad n cs = cs @ replicate (n - length cs) 0x20"

text \<open>The name field of a base name and an extension.\<close>

definition field83 :: "u8 list \<Rightarrow> u8 list \<Rightarrow> u8 list" where
  "field83 base ext = pad 8 (map toUpper83 base) @ pad 3 (map toUpper83 ext)"

definition parts83 :: "u8 list \<Rightarrow> u8 list \<Rightarrow> bool" where
  "parts83 base ext \<longleftrightarrow>
     base \<noteq> [] \<and> length base \<le> 8 \<and> length ext \<le> 3 \<and>
     (\<forall>c \<in> set base \<union> set ext. char83 c)"

lemma length_pad [simp]: "length cs \<le> n \<Longrightarrow> length (pad n cs) = n"
  by (simp add: pad_def)

lemma length_field83: "parts83 base ext \<Longrightarrow> length (field83 base ext) = 11"
  by (simp add: field83_def parts83_def)

lemma unat_toUpper83:
  "unat (toUpper83 c) = (if 97 \<le> unat c \<and> unat c \<le> 122 then unat c - 32 else unat c)"
proof (cases "97 \<le> unat c \<and> unat c \<le> 122")
  case True
  then have "unat (c - 0x20) = unat c - 32" using unat_sub_small [of "0x20" c] by simp
  with True show ?thesis by (simp add: toUpper83_def word_less_nat_alt)
next
  case False
  then show ?thesis by (auto simp: toUpper83_def word_less_nat_alt)
qed

lemma char83_nat: "char83 c \<longleftrightarrow> 33 \<le> unat c \<and> unat c \<le> 126 \<and> unat c \<noteq> 46"
  by (auto simp: char83_def word_le_nat_alt word_unat_eq_iff)

lemma toUpper83_char83: "char83 c \<Longrightarrow> char83 (toUpper83 c)"
  by (auto simp: char83_nat unat_toUpper83)

lemma toUpper83_idem: "toUpper83 (toUpper83 c) = toUpper83 c"
  by (auto simp: word_unat_eq_iff unat_toUpper83)

lemma char83_not_blank: "char83 c \<Longrightarrow> c \<noteq> 0x20"
  by (auto simp: char83_def)

text \<open>Between dots the loop copies valid characters while there is room.\<close>

lemma make83Loop_segment:
  assumes "0x2E \<notin> set cs" and "n < length name"
  shows "make83Loop (cs @ rest) n i name =
    (if (\<forall>c \<in> set cs. char83 c) \<and> (cs = [] \<or> i + length cs \<le> n + 1)
     then make83Loop rest n (i + length cs) (splice name i (map toUpper83 cs)) else None)"
  using assms
proof (induction cs arbitrary: i name)
  case Nil
  then show ?case by simp
next
  case (Cons c cs)
  have sp: "splice (name[i := toUpper83 c]) (i + 1) (map toUpper83 cs) =
      splice name i (map toUpper83 (c # cs))" if "i + length cs \<le> n"
    using that Cons.prems(2)
    by (intro nth_equalityI) (auto simp: nth_splice nth_list_update nth_Cons')
  have "make83Loop ((c # cs) @ rest) n i name =
      (if char83 c \<and> i \<le> n then make83Loop (cs @ rest) n (i + 1) (name[i := toUpper83 c])
       else None)"
    using Cons.prems(1) unfolding char83_def
    by (simp only: append_Cons make83Loop.simps) (auto simp: not_le not_less)
  moreover have "make83Loop (cs @ rest) n (i + 1) (name[i := toUpper83 c]) =
      (if (\<forall>c \<in> set cs. char83 c) \<and> (cs = [] \<or> i + 1 + length cs \<le> n + 1)
       then make83Loop rest n (i + 1 + length cs)
              (splice (name[i := toUpper83 c]) (i + 1) (map toUpper83 cs)) else None)"
    using Cons.prems by (intro Cons.IH) simp_all
  ultimately show ?case
    using sp by (cases "cs = []") auto
qed

lemma splice_blank:
  "length cs \<le> n \<Longrightarrow> splice (replicate n 0x20) 0 cs = pad n cs"
  by (simp add: splice_def pad_def)

lemma splice_ext:
  assumes "length base \<le> 8" and "length ext \<le> 3"
  shows "splice (pad 11 base) 8 ext = pad 8 base @ pad 3 ext"
proof -
  have "pad 11 base = pad 8 base @ replicate 3 0x20"
    using assms(1) by (simp add: pad_def flip: replicate_add)
  then show ?thesis using assms by (simp add: splice_def pad_def)
qed

lemma field83_first: "parts83 base ext \<Longrightarrow> field83 base ext ! 0 \<noteq> 0x20"
  using char83_not_blank [OF toUpper83_char83]
  by (cases base) (auto simp: field83_def pad_def parts83_def)

section \<open>What make83Name accepts\<close>

lemma blank11: "replicate 11 (0x20 :: u8) = replicate 8 0x20 @ replicate 3 0x20"
  by (simp flip: replicate_add)

lemma pad_11: "length base \<le> 8 \<Longrightarrow> pad 11 base = pad 8 base @ replicate 3 0x20"
  using splice_ext [of base "[]"] by (simp add: pad_def)

lemma make83Name_base:
  assumes "0x2E \<notin> set base"
  shows "make83Name base = (if parts83 base [] then Some (field83 base []) else None)"
proof (cases "(\<forall>c \<in> set base. char83 c) \<and> length base \<le> 8")
  case True
  then have l: "make83Loop base 7 0 (replicate 11 0x20) = Some (field83 base [])"
    using make83Loop_segment [OF assms, of 7 "replicate 11 0x20" "[]" 0] splice_blank [of _ 11]
    by (auto simp: field83_def pad_11 pad_def [of 3])
  show ?thesis
  proof (cases "base = []")
    case True
    then show ?thesis by (simp add: make83Name_def parts83_def)
  next
    case False
    with True have p: "parts83 base []" by (simp add: parts83_def)
    with l field83_first [OF p] show ?thesis by (simp add: make83Name_def)
  qed
next
  case False
  then show ?thesis
    using make83Loop_segment [OF assms, of 7 "replicate 11 0x20" "[]" 0]
    by (auto simp: make83Name_def parts83_def)
qed

lemma make83Name_dotted:
  assumes "0x2E \<notin> set base"
  shows "make83Name (base @ 0x2E # ext) =
    (if parts83 base ext then Some (field83 base ext) else None)"
proof (cases "(\<forall>c \<in> set base. char83 c) \<and> length base \<le> 8")
  case base: True
  let ?name = "pad 11 (map toUpper83 base)"
  have len: "10 < length ?name" using base by simp
  have l: "make83Loop (base @ 0x2E # ext) 7 0 (replicate 11 0x20) = make83Loop ext 10 8 ?name"
    using make83Loop_segment [OF assms, of 7 "replicate 11 0x20" "0x2E # ext" 0] base
    by (auto simp: splice_blank)
  show ?thesis
  proof (cases "0x2E \<in> set ext")
    case True
    then obtain e1 e2 where e: "ext = e1 @ 0x2E # e2" "0x2E \<notin> set e1"
      using split_list_first by metis
    then have "make83Loop ext 10 8 ?name = None"
      using make83Loop_segment [OF e(2) len, of "0x2E # e2" 8] by simp
    then show ?thesis using l True by (auto simp: make83Name_def parts83_def char83_def)
  next
    case False
    have r: "make83Loop ext 10 8 ?name =
        (if (\<forall>c \<in> set ext. char83 c) \<and> length ext \<le> 3 then Some (field83 base ext) else None)"
      using make83Loop_segment [OF False len, of "[]" 8] base splice_ext [of "map toUpper83 base" "map toUpper83 ext"]
      by (auto simp: field83_def)
    show ?thesis
    proof (cases "base = []")
      case True
      then have "field83 base ext ! 0 = 0x20" by (simp add: field83_def pad_def nth_append)
      then show ?thesis using True l r by (simp add: make83Name_def parts83_def)
    next
      case nonempty: False
      show ?thesis
        using l r base nonempty field83_first [of base ext]
        by (simp add: make83Name_def parts83_def ball_Un)
    qed
  qed
next
  case False
  then show ?thesis
    using make83Loop_segment [OF assms, of 7 "replicate 11 0x20" "0x2E # ext" 0]
    by (auto simp: make83Name_def parts83_def)
qed


text \<open>The strings of a base name and an extension: the dot may be left out of a bare name.\<close>

definition joined :: "u8 list \<Rightarrow> u8 list \<Rightarrow> u8 list \<Rightarrow> bool" where
  "joined str base ext \<longleftrightarrow> str = base @ 0x2E # ext \<or> str = base \<and> ext = []"

lemma parts83_no_dot: "parts83 base ext \<Longrightarrow> 0x2E \<notin> set base"
  by (auto simp: parts83_def char83_def)

lemma make83Name_joined:
  "joined str base ext \<Longrightarrow> parts83 base ext \<Longrightarrow> make83Name str = Some (field83 base ext)"
  using make83Name_base make83Name_dotted parts83_no_dot by (auto simp: joined_def)

lemma make83Name_Some:
  assumes "make83Name str = Some nm"
  shows "\<exists>base ext. joined str base ext \<and> parts83 base ext \<and> nm = field83 base ext"
proof (cases "0x2E \<in> set str")
  case False
  with assms make83Name_base have "parts83 str []" "nm = field83 str []"
    by (auto split: if_splits)
  then show ?thesis unfolding joined_def by blast
next
  case True
  then obtain b e where s: "str = b @ 0x2E # e" "0x2E \<notin> set b"
    using split_list_first by metis
  with assms make83Name_dotted have "parts83 b e" "nm = field83 b e" by (auto split: if_splits)
  with s(1) show ?thesis unfolding joined_def by blast
qed

section \<open>dirName inverts make83Name\<close>

lemma dirNameLoop_blanks: "dirNameLoop (replicate k 0x20 @ cs) i = dirNameLoop cs (i + k)"
  by (induction k arbitrary: i) auto

lemma dirNameLoop_base:
  "\<forall>c \<in> set cs. c \<noteq> 0x20 \<Longrightarrow> i + length cs \<le> 8 \<Longrightarrow>
     dirNameLoop (cs @ rest) i = cs @ dirNameLoop rest (i + length cs)"
  by (induction cs arbitrary: i) auto

lemma dirNameLoop_ext_tail:
  "\<forall>c \<in> set cs. c \<noteq> 0x20 \<Longrightarrow> 8 < i \<Longrightarrow>
     dirNameLoop (cs @ replicate k 0x20) i = cs"
  using dirNameLoop_blanks [of k "[]"] by (induction cs arbitrary: i) auto

lemma dirNameLoop_field83:
  assumes "parts83 base ext"
  shows "dirNameLoop (field83 base ext) 0 =
    map toUpper83 base @ (if ext = [] then [] else 0x2E # map toUpper83 ext)"
proof -
  have nb: "\<forall>c \<in> set (map toUpper83 base). c \<noteq> 0x20" "\<forall>c \<in> set (map toUpper83 ext). c \<noteq> 0x20"
    and len: "length base \<le> 8" "length ext \<le> 3"
    using assms char83_not_blank [OF toUpper83_char83] by (auto simp: parts83_def)
  have "dirNameLoop (field83 base ext) 0 =
      map toUpper83 base @ dirNameLoop (pad 3 (map toUpper83 ext)) 8"
    using nb(1) len(1) by (simp add: field83_def pad_def dirNameLoop_base dirNameLoop_blanks)
  also have "dirNameLoop (pad 3 (map toUpper83 ext)) 8 =
      (if ext = [] then [] else 0x2E # map toUpper83 ext)"
    using nb(2) dirNameLoop_blanks [of 3 "[]" 8] dirNameLoop_ext_tail
    by (cases ext) (auto simp: pad_def)
  finally show ?thesis .
qed

lemma field83_upper: "field83 (map toUpper83 base) (map toUpper83 ext) = field83 base ext"
  by (simp add: field83_def comp_def toUpper83_idem)

lemma parts83_upper: "parts83 base ext \<Longrightarrow> parts83 (map toUpper83 base) (map toUpper83 ext)"
  by (auto simp: parts83_def toUpper83_char83)

lemma make83Name_dirName:
  assumes "parts83 base ext"
  shows "make83Name (dirNameLoop (field83 base ext) 0) = Some (field83 base ext)"
  using make83Name_joined [OF _ parts83_upper [OF assms]]
  by (auto simp: dirNameLoop_field83 [OF assms] field83_upper joined_def)

end
