(* ===== verification/SdPrint.thy ===== *)
theory SdPrint
  imports SdVolume ShortName
begin

text \<open>
  What the library prints on the serial port (SdFile::printDirName, printFatDate,
  printFatTime and printTwoDigits of SD/src/utility/SdFile.cpp).  The Print class of
  the Arduino core is represented by its documented output: a character, a string, or
  an unsigned number in decimal is appended to what has been sent.
\<close>

definition emit :: "u8 list \<Rightarrow> 'c fs \<Rightarrow> 'c fs" where
  "emit cs s = s\<lparr>serial := serial s @ cs\<rparr>"

fun printNameLoop :: "u8 list \<Rightarrow> nat \<Rightarrow> u8 \<Rightarrow> 'c fs \<Rightarrow> u8 \<times> 'c fs" where
  "printNameLoop [] i w s = (w, s)"
| "printNameLoop (c # cs) i w s =
     (if c = 0x20 then printNameLoop cs (i + 1) w s
      else
        let (w, s) = (if i = 8 then (w + 1, emit [0x2E] s) else (w, s))
        in printNameLoop cs (i + 1) (w + 1) (emit [c] s))"

definition printDirName :: "dir_t \<Rightarrow> u8 \<Rightarrow> 'c fs \<Rightarrow> 'c fs" where
  "printDirName d width s =
     (let (w, s) = printNameLoop (dname d) 0 0 s;
          (w, s) = (if DIR_IS_SUBDIR d then (w + 1, emit [0x2F] s) else (w, s))
      in emit (replicate (unat width - unat w) 0x20) s)"

definition printTwoDigits :: "u8 \<Rightarrow> 'c fs \<Rightarrow> 'c fs" where
  "printTwoDigits v s = emit [0x30 + v div 10, 0x30 + v mod 10] s"

definition printFatDate :: "u16 \<Rightarrow> 'c fs \<Rightarrow> 'c fs" where
  "printFatDate fatDate s =
     (let s = emit (decimal (unat (FAT_YEAR fatDate))) s;
          s = emit [0x2D] s;
          s = printTwoDigits (FAT_MONTH fatDate) s;
          s = emit [0x2D] s
      in printTwoDigits (FAT_DAY fatDate) s)"

definition printFatTime :: "u16 \<Rightarrow> 'c fs \<Rightarrow> 'c fs" where
  "printFatTime fatTime s =
     (let s = printTwoDigits (FAT_HOUR fatTime) s;
          s = emit [0x3A] s;
          s = printTwoDigits (FAT_MINUTE fatTime) s;
          s = emit [0x3A] s
      in printTwoDigits (FAT_SECOND fatTime) s)"

section \<open>Only the serial port is touched\<close>

lemma emit_frame [frame_simps]:
  "vol (emit cs s) = vol s" "card (emit cs s) = card s" "cacheBuffer (emit cs s) = cacheBuffer s"
  "cacheBlockNumber (emit cs s) = cacheBlockNumber s" "cacheDirty (emit cs s) = cacheDirty s"
  "cacheMirrorBlock (emit cs s) = cacheMirrorBlock s" "dateTime (emit cs s) = dateTime s"
  "dateCalls (emit cs s) = dateCalls s" "serial (emit cs s) = serial s @ cs"
  by (simp_all add: emit_def)

lemma emit_emit [simp]: "emit b (emit a s) = emit (a @ b) s"
  by (simp add: emit_def)

lemma emit_Nil [simp]: "emit [] s = s"
  by (simp add: emit_def)

text \<open>printDirName prints the text that dirName stores, and counts the characters printed.\<close>

lemma printNameLoop_eq:
  "printNameLoop cs i w s =
     (w + of_nat (length (dirNameLoop cs i)), emit (dirNameLoop cs i) s)"
  by (induction cs i w s rule: printNameLoop.induct) (auto simp: algebra_simps)

end
