(* ===== verification/Mqtt.thy ===== *)
theory Mqtt
  imports MqttPacket SdPrint
begin

text \<open>
  The MQTT client (Adafruit_MQTT_Library: Adafruit_MQTT.cpp, Adafruit_MQTT_Client.cpp).  The
  Arduino \<open>Client\<close> that carries the bytes is the parameter \<open>net\<close>, with the clock and the delay
  of the core; the user's callbacks are the parameter \<open>handlers\<close>.  Both act on the outside
  world, a state of an arbitrary type.  The one packet buffer is a list of
  \<open>MAXBUFFERSIZE\<close> bytes: a write that would leave it, undefined in C++, sets the flag
  \<open>overrun\<close> and stores nothing; what the model says afterwards is no claim about the code.
  Subscription objects are shared by pointer: they live in a store, and the client keeps
  their addresses.  The debug and error output is left out.
\<close>

section \<open>The interface\<close>

record 'n net =
  client_connect :: "u8 list \<Rightarrow> u16 \<Rightarrow> 'n \<Rightarrow> bool \<times> 'n"
  client_connected :: "'n \<Rightarrow> bool \<times> 'n"
  client_available :: "'n \<Rightarrow> bool \<times> 'n"
  client_read :: "'n \<Rightarrow> u8 \<times> 'n"
  client_write :: "u8 list \<Rightarrow> 'n \<Rightarrow> u16 \<times> 'n"
  client_stop :: "'n \<Rightarrow> 'n"
  core_delay :: "u32 \<Rightarrow> 'n \<Rightarrow> 'n"
  core_millis :: "'n \<Rightarrow> u32 \<times> 'n"

definition MAXBUFFERSIZE :: nat where [simp]: "MAXBUFFERSIZE = 150"
definition MAXSUBSCRIPTIONS :: nat where [simp]: "MAXSUBSCRIPTIONS = 5"
definition SUBSCRIPTIONDATALEN :: nat where [simp]: "SUBSCRIPTIONDATALEN = 100"
definition CONNECT_TIMEOUT_MS :: u16 where [simp]: "CONNECT_TIMEOUT_MS = 6000"
definition PUBLISH_TIMEOUT_MS :: u16 where [simp]: "PUBLISH_TIMEOUT_MS = 500"
definition PING_TIMEOUT_MS :: u16 where [simp]: "PING_TIMEOUT_MS = 500"
definition SUBACK_TIMEOUT_MS :: u16 where [simp]: "SUBACK_TIMEOUT_MS = 500"
definition MQTT_CLIENT_READINTERVAL_MS :: u16 where [simp]: "MQTT_CLIENT_READINTERVAL_MS = 10"

section \<open>State\<close>

text \<open>A subscription object; the booleans say which callback pointers are set.\<close>

record subscription =
  topic :: "u8 list"
  sub_qos :: u8
  lastread :: "u8 list"
  datalen :: u16
  callback_uint32t :: bool
  callback_double :: bool
  callback_buffer :: bool
  callback_io :: bool

definition subscription_new :: "u8 list \<Rightarrow> u8 \<Rightarrow> subscription" where
  "subscription_new feed q =
     \<lparr> topic = feed, sub_qos = q, lastread = replicate SUBSCRIPTIONDATALEN 0, datalen = 0,
       callback_uint32t = False, callback_double = False, callback_buffer = False, callback_io = False \<rparr>"

text \<open>The four overloads of \<open>setCallback\<close>.\<close>

definition setCallbackUInt32 :: "subscription \<Rightarrow> subscription" where
  "setCallbackUInt32 sub = sub\<lparr>callback_uint32t := True\<rparr>"

definition setCallbackDouble :: "subscription \<Rightarrow> subscription" where
  "setCallbackDouble sub = sub\<lparr>callback_double := True\<rparr>"

definition setCallbackBuffer :: "subscription \<Rightarrow> subscription" where
  "setCallbackBuffer sub = sub\<lparr>callback_buffer := True\<rparr>"

definition setCallbackIO :: "subscription \<Rightarrow> subscription" where
  "setCallbackIO sub = sub\<lparr>callback_io := True\<rparr>"

definition removeCallback :: "subscription \<Rightarrow> subscription" where
  "removeCallback sub =
     sub\<lparr>callback_uint32t := False, callback_buffer := False, callback_double := False, callback_io := False\<rparr>"

record 'n mqtt =
  servername :: "u8 list"
  portnum :: u16
  clientid :: "u8 list"
  username :: "u8 list"
  password :: "u8 list"
  mwill :: mqtt_will
  buffer :: "u8 list"
  packet_id_counter :: u16
  subscriptions :: "nat option list"
  heap :: "nat \<Rightarrow> subscription"
  overrun :: bool
  world :: 'n

text \<open>The constructor; the one without a client id passes the empty string.\<close>

definition mqtt_new ::
  "u8 list \<Rightarrow> u16 \<Rightarrow> u8 list \<Rightarrow> u8 list \<Rightarrow> u8 list \<Rightarrow> (nat \<Rightarrow> subscription) \<Rightarrow> 'n \<Rightarrow> 'n mqtt" where
  "mqtt_new server port cid user pass subs n =
     \<lparr> servername = server, portnum = port, clientid = cid, username = user, password = pass,
       mwill = \<lparr>will_topic = None, will_payload = [], will_qos = 0, will_retain = 0\<rparr>,
       buffer = replicate MAXBUFFERSIZE 0, packet_id_counter = 0,
       subscriptions = replicate MAXSUBSCRIPTIONS None, heap = subs, overrun = False, world = n \<rparr>"

definition storeBytes :: "nat \<Rightarrow> u8 list \<Rightarrow> 'n mqtt \<Rightarrow> 'n mqtt" where
  "storeBytes off bs m =
     (if off + length bs \<le> length (buffer m) then m\<lparr>buffer := splice (buffer m) off bs\<rparr>
      else m\<lparr>overrun := True\<rparr>)"

section \<open>The connection\<close>

definition connectServer :: "'n net \<Rightarrow> 'n mqtt \<Rightarrow> bool \<times> 'n mqtt" where
  "connectServer nt m =
     (let m = m\<lparr>buffer := replicate MAXBUFFERSIZE 0\<rparr>;
          m = storeBytes 0 (servername m @ [0]) m
      in case client_connect nt (servername m) (portnum m) (world m) of (r, n) \<Rightarrow> (r, m\<lparr>world := n\<rparr>))"

definition connected :: "'n net \<Rightarrow> 'n mqtt \<Rightarrow> bool \<times> 'n mqtt" where
  "connected nt m = (case client_connected nt (world m) of (r, n) \<Rightarrow> (r, m\<lparr>world := n\<rparr>))"

definition disconnectServer :: "'n net \<Rightarrow> 'n mqtt \<Rightarrow> bool \<times> 'n mqtt" where
  "disconnectServer nt m =
     (case connected nt m of (c, m) \<Rightarrow>
        (True, if c then m\<lparr>world := client_stop nt (world m)\<rparr> else m))"

text \<open>
  The inner loop of readPacket: take bytes while there are any, until \<open>maxlen\<close> have been
  read.  The length is a \<open>uint16_t\<close>, compared for equality.
\<close>

partial_function (option) drain :: "'n net \<Rightarrow> u16 \<Rightarrow> u8 list \<Rightarrow> 'n \<Rightarrow> (bool \<times> u8 list \<times> 'n) option" where
  "drain nt maxlen acc n =
     (case client_available nt n of (avail, n) \<Rightarrow>
        if \<not> avail then Some (False, acc, n)
        else
          (case client_read nt n of (c, n) \<Rightarrow>
             let acc = acc @ [c] in
             if of_nat (length acc) = maxlen then Some (True, acc, n) else drain nt maxlen acc n))"

partial_function (option) receive ::
  "'n net \<Rightarrow> u16 \<Rightarrow> u16 \<Rightarrow> u16 \<Rightarrow> u8 list \<Rightarrow> 'n \<Rightarrow> (u8 list \<times> 'n) option" where
  "receive nt maxlen t timeout acc n =
     (case client_connected nt n of (up, n) \<Rightarrow>
          if \<not> (up \<and> 0 \<le> sint timeout) then Some (acc, n)
          else
            Option.bind (drain nt maxlen acc n) (\<lambda>(full, acc', n).
              if full then Some (acc', n)
              else
                let timeout = (if acc' \<noteq> acc then t else timeout) - MQTT_CLIENT_READINTERVAL_MS
                in receive nt maxlen t timeout acc' (core_delay nt (ucast MQTT_CLIENT_READINTERVAL_MS) n)))"

text \<open>\<open>readPacket(buffer + off, maxlen, timeout)\<close>: the count, and the bytes in the buffer.\<close>

definition readPacket :: "'n net \<Rightarrow> nat \<Rightarrow> u16 \<Rightarrow> u16 \<Rightarrow> 'n mqtt \<Rightarrow> (u16 \<times> 'n mqtt) option" where
  "readPacket nt off maxlen timeout m = do {
     (bs, n) \<leftarrow> receive nt maxlen timeout timeout [] (world m);
     Some (of_nat (length bs), storeBytes off bs (m\<lparr>world := n\<rparr>)) }"

text \<open>
  The loop of sendPacket.  The pointer to the bytes is not moved between the pieces of at
  most 250 bytes, so every piece starts with the first byte.
\<close>

function sendLoop :: "'n net \<Rightarrow> u8 list \<Rightarrow> u16 \<Rightarrow> 'n \<Rightarrow> bool \<times> 'n" where
  "sendLoop nt bs len n =
     (if len > 0 then
        case client_connected nt n of
          (False, n) \<Rightarrow> (False, n)
        | (True, n) \<Rightarrow>
            let sendlen = min len 250 in
            (case client_write nt (take (unat sendlen) bs) n of (ret, n) \<Rightarrow>
               if ret \<noteq> sendlen then (False, n) else sendLoop nt bs (len - ret) n)
      else (True, n))"
  by pat_completeness auto
termination
proof (relation "measure (\<lambda>(nt, bs, len, n). unat len)", goal_cases)
  case (2 nt bs len n)
  then show ?case by (auto simp: min_def word_less_nat_alt word_le_nat_alt unat_sub_small)
qed simp

declare sendLoop.simps [simp del]

definition sendPacket :: "'n net \<Rightarrow> u8 list \<Rightarrow> u16 \<Rightarrow> 'n mqtt \<Rightarrow> bool \<times> 'n mqtt" where
  "sendPacket nt bs len m = (case sendLoop nt bs len (world m) of (r, n) \<Rightarrow> (r, m\<lparr>world := n\<rparr>))"

text \<open>Building a packet in the buffer and sending it; the length has the type the builder returns.\<close>

definition sendNew8 :: "'n net \<Rightarrow> u8 list \<Rightarrow> 'n mqtt \<Rightarrow> bool \<times> 'n mqtt" where
  "sendNew8 nt packet m =
     (let m = storeBytes 0 packet m
      in sendPacket nt (buffer m) (ucast (ucast (strlen16 packet) :: u8)) m)"

section \<open>Receiving a packet\<close>

text \<open>
  The loop over the bytes of the remaining length: the offset behind it and its value,
  or nothing when a byte is missing or the length is too long.
\<close>

partial_function (option) lengthLoop ::
  "'n net \<Rightarrow> u16 \<Rightarrow> nat \<Rightarrow> u32 \<Rightarrow> u32 \<Rightarrow> 'n mqtt \<Rightarrow> ((nat \<times> u32) option \<times> 'n mqtt) option" where
  "lengthLoop nt timeout off value multiplier m =
     Option.bind (readPacket nt off 1 timeout m) (\<lambda>(r, m).
       if (ucast r :: u8) \<noteq> 1 then Some (None, m)
       else
         let encodedByte = buffer m ! off;
             value = value + ucast (encodedByte AND 0x7F) * multiplier;
             multiplier = multiplier * 128
         in if multiplier > 128 * 128 * 128 then Some (None, m)
            else if encodedByte AND 0x80 \<noteq> 0 then lengthLoop nt timeout (off + 1) value multiplier m
            else Some (Some (off + 1, value), m))"

definition readFullPacket :: "'n net \<Rightarrow> u16 \<Rightarrow> u16 \<Rightarrow> 'n mqtt \<Rightarrow> (u16 \<times> 'n mqtt) option" where
  "readFullPacket nt maxsize timeout m = do {
     (r, m) \<leftarrow> readPacket nt 0 1 timeout m;
     if (ucast r :: u8) \<noteq> 1 then Some (0, m)
     else do {
       (res, m) \<leftarrow> lengthLoop nt timeout 1 0 1 m;
       case res of
         None \<Rightarrow> Some (0, m)
       | Some (off, value) \<Rightarrow> do {
           let room = ucast maxsize - of_nat off - 1;
           (r, m) \<leftarrow> readPacket nt off (ucast (if value > room then room else value)) timeout m;
           Some (of_nat off + ucast (ucast r :: u8), m) } } }"

partial_function (option) processPacketsUntil ::
  "'n net \<Rightarrow> u8 \<Rightarrow> u16 \<Rightarrow> 'n mqtt \<Rightarrow> (u16 \<times> 'n mqtt) option" where
  "processPacketsUntil nt waitfor timeout m =
     Option.bind (readFullPacket nt (of_nat MAXBUFFERSIZE) timeout m) (\<lambda>(len, m).
       if len = 0 then Some (0, m)
       else if drop_bit 4 (buffer m ! 0) = waitfor then Some (len, m)
       else processPacketsUntil nt waitfor timeout m)"

section \<open>Subscriptions\<close>

text \<open>The first index from \<open>i\<close> on whose slot satisfies a test.\<close>

fun findSlot :: "(nat option \<Rightarrow> bool) \<Rightarrow> nat option list \<Rightarrow> nat \<Rightarrow> nat option" where
  "findSlot P [] i = None"
| "findSlot P (x # xs) i = (if P x then Some i else findSlot P xs (i + 1))"

definition subscribe :: "nat \<Rightarrow> 'n mqtt \<Rightarrow> bool \<times> 'n mqtt" where
  "subscribe sub m =
     (case findSlot (\<lambda>x. x = Some sub) (subscriptions m) 0 of
        Some _ \<Rightarrow> (True, m)
      | None \<Rightarrow>
          case findSlot (\<lambda>x. x = None) (subscriptions m) 0 of
            Some i \<Rightarrow> (True, m\<lparr>subscriptions := (subscriptions m)[i := Some sub]\<rparr>)
          | None \<Rightarrow> (False, m))"

definition unsubscribe :: "'n net \<Rightarrow> nat \<Rightarrow> 'n mqtt \<Rightarrow> (bool \<times> 'n mqtt) option" where
  "unsubscribe nt sub m =
     (case findSlot (\<lambda>x. x = Some sub) (subscriptions m) 0 of
        None \<Rightarrow> Some (True, m)
      | Some i \<Rightarrow>
          let packet = unsubscribePacket (topic (heap m sub)) (packet_id_counter m);
              m = m\<lparr>packet_id_counter := packet_id_counter m + 1\<rparr>
          in case sendNew8 nt packet m of
               (False, m) \<Rightarrow> Some (False, m)
             | (True, m) \<Rightarrow> do {
                 (ok, m) \<leftarrow>
                   (if sub_qos (heap m sub) > 0 \<and> MQTT_PROTOCOL_LEVEL > 3 then do {
                      (len, m) \<leftarrow> readFullPacket nt (of_nat MAXBUFFERSIZE) CONNECT_TIMEOUT_MS m;
                      Some (\<not> ((ucast len :: u8) \<noteq> 5 \<or> buffer m ! 0 \<noteq> push_bit 4 MQTT_CTRL_UNSUBACK), m) }
                    else Some (True, m));
                 Some (if ok then (True, m\<lparr>subscriptions := (subscriptions m)[i := None]\<rparr>)
                       else (False, m)) })"

section \<open>Publishing\<close>

definition publish :: "'n net \<Rightarrow> u8 list \<Rightarrow> u8 list \<Rightarrow> u16 \<Rightarrow> u8 \<Rightarrow> 'n mqtt \<Rightarrow> (bool \<times> 'n mqtt) option" where
  "publish nt tpc data bLen q m =
     (let packet = publishPacket tpc data bLen q (packet_id_counter m);
          m = (if q > 0 then m\<lparr>packet_id_counter := packet_id_counter m + 1\<rparr> else m);
          m = storeBytes 0 packet m
      in case sendPacket nt (buffer m) (strlen16 packet) m of
           (False, m) \<Rightarrow> Some (False, m)
         | (True, m) \<Rightarrow>
             if q > 0 then do {
               (len, m) \<leftarrow> readFullPacket nt (of_nat MAXBUFFERSIZE) PUBLISH_TIMEOUT_MS m;
               if len \<noteq> 4 \<or> drop_bit 4 (buffer m ! 0) \<noteq> MQTT_CTRL_PUBACK then Some (False, m)
               else
                 let packnum = push_bit 8 (ucast (buffer m ! 2)) OR ucast (buffer m ! 3);
                     packnum = packnum + 1
                 in Some (packnum = packet_id_counter m, m) }
             else Some (True, m))"

definition publishString :: "'n net \<Rightarrow> u8 list \<Rightarrow> u8 list \<Rightarrow> u8 \<Rightarrow> 'n mqtt \<Rightarrow> (bool \<times> 'n mqtt) option" where
  "publishString nt tpc data q m = publish nt tpc data (strlen16 data) q m"

text \<open>
  The class Adafruit_MQTT_Publish: a topic with a quality of service.  Integers are printed
  by \<open>ultoa\<close> and \<open>ltoa\<close>; the text that \<open>dtostrf\<close> makes of a double is a parameter, and must
  fit the 41 bytes of the local array.
\<close>

record publisher =
  pub_topic :: "u8 list"
  pub_qos :: u8

definition publisher_new :: "u8 list \<Rightarrow> u8 \<Rightarrow> publisher" where
  "publisher_new feed q = \<lparr>pub_topic = feed, pub_qos = q\<rparr>"

definition publishPayload :: "'n net \<Rightarrow> publisher \<Rightarrow> u8 list \<Rightarrow> 'n mqtt \<Rightarrow> (bool \<times> 'n mqtt) option" where
  "publishPayload nt p payload m = publishString nt (pub_topic p) payload (pub_qos p) m"

definition publishBytes :: "'n net \<Rightarrow> publisher \<Rightarrow> u8 list \<Rightarrow> u16 \<Rightarrow> 'n mqtt \<Rightarrow> (bool \<times> 'n mqtt) option" where
  "publishBytes nt p payload bLen m = publish nt (pub_topic p) payload bLen (pub_qos p) m"

definition publishUnsigned :: "'n net \<Rightarrow> publisher \<Rightarrow> u32 \<Rightarrow> 'n mqtt \<Rightarrow> (bool \<times> 'n mqtt) option" where
  "publishUnsigned nt p i m = publishString nt (pub_topic p) (decimal (unat i)) (pub_qos p) m"

definition publishSigned :: "'n net \<Rightarrow> publisher \<Rightarrow> u32 \<Rightarrow> 'n mqtt \<Rightarrow> (bool \<times> 'n mqtt) option" where
  "publishSigned nt p i m =
     publishString nt (pub_topic p)
       (if sint i < 0 then 0x2D # decimal (nat (- sint i)) else decimal (nat (sint i))) (pub_qos p) m"

definition publishDouble ::
  "('d \<Rightarrow> u8 \<Rightarrow> u8 list) \<Rightarrow> 'n net \<Rightarrow> publisher \<Rightarrow> 'd \<Rightarrow> u8 \<Rightarrow> 'n mqtt \<Rightarrow> (bool \<times> 'n mqtt) option" where
  "publishDouble dtostrf nt p f precision m =
     (let payload = dtostrf f precision;
          m = (if length payload < 41 then m else m\<lparr>overrun := True\<rparr>)
      in publishString nt (pub_topic p) payload (pub_qos p) m)"

section \<open>Connecting\<close>

definition setWill :: "'n net \<Rightarrow> u8 list \<Rightarrow> u8 list \<Rightarrow> u8 \<Rightarrow> u8 \<Rightarrow> 'n mqtt \<Rightarrow> bool \<times> 'n mqtt" where
  "setWill nt tpc payload q retain m =
     (case connected nt m of
        (True, m) \<Rightarrow> (False, m)
      | (False, m) \<Rightarrow>
          (True, m\<lparr>mwill := \<lparr>will_topic = Some tpc, will_payload = payload, will_qos = q, will_retain = retain\<rparr>\<rparr>))"

text \<open>At most \<open>k\<close> attempts to subscribe: an error to send, no acknowledgement, or success.\<close>

datatype attempt = SendFailed | NoAck | Acknowledged

fun subscribeLoop :: "'n net \<Rightarrow> nat \<Rightarrow> nat \<Rightarrow> 'n mqtt \<Rightarrow> (attempt \<times> 'n mqtt) option" where
  "subscribeLoop nt sub 0 m = Some (NoAck, m)"
| "subscribeLoop nt sub (Suc k) m =
     (let packet = subscribePacket (topic (heap m sub)) (sub_qos (heap m sub)) (packet_id_counter m);
          m = m\<lparr>packet_id_counter := packet_id_counter m + 1\<rparr>
      in case sendNew8 nt packet m of
           (False, m) \<Rightarrow> Some (SendFailed, m)
         | (True, m) \<Rightarrow>
             if MQTT_PROTOCOL_LEVEL < 3 then Some (NoAck, m)
             else
               Option.bind (processPacketsUntil nt MQTT_CTRL_SUBACK SUBACK_TIMEOUT_MS m) (\<lambda>(len, m).
                 if len \<noteq> 0 then Some (Acknowledged, m) else subscribeLoop nt sub k m))"

fun resubscribe :: "'n net \<Rightarrow> nat option list \<Rightarrow> 'n mqtt \<Rightarrow> (u8 \<times> 'n mqtt) option" where
  "resubscribe nt [] m = Some (0, m)"
| "resubscribe nt (None # xs) m = resubscribe nt xs m"
| "resubscribe nt (Some sub # xs) m =
     Option.bind (subscribeLoop nt sub 3 m) (\<lambda>(a, m).
       case a of
         SendFailed \<Rightarrow> Some (- 1, m)
       | NoAck \<Rightarrow> Some (- 2, m)
       | Acknowledged \<Rightarrow> resubscribe nt xs m)"

text \<open>The result is an \<open>int8_t\<close>.\<close>

definition connect :: "'n net \<Rightarrow> 'n mqtt \<Rightarrow> (u8 \<times> 'n mqtt) option" where
  "connect nt m =
     (case connectServer nt m of
        (False, m) \<Rightarrow> Some (- 1, m)
      | (True, m) \<Rightarrow>
          case sendNew8 nt (connectPacket (clientid m) (username m) (password m) (mwill m)) m of
            (False, m) \<Rightarrow> Some (- 1, m)
          | (True, m) \<Rightarrow> do {
              (len, m) \<leftarrow> readFullPacket nt (of_nat MAXBUFFERSIZE) CONNECT_TIMEOUT_MS m;
              if (ucast len :: u8) \<noteq> 4 then Some (- 1, m)
              else if buffer m ! 0 \<noteq> push_bit 4 MQTT_CTRL_CONNECTACK \<or> buffer m ! 1 \<noteq> 2 then Some (- 1, m)
              else if buffer m ! 3 \<noteq> 0 then Some (buffer m ! 3, m)
              else resubscribe nt (subscriptions m) m })"

definition connectErrorString :: "u8 \<Rightarrow> string" where
  "connectErrorString code =
     (if code = 1 then ''The Server does not support the level of the MQTT protocol requested''
      else if code = 2 then ''The Client identifier is correct UTF-8 but not allowed by the Server''
      else if code = 3 then ''The MQTT service is unavailable''
      else if code = 4 then ''The data in the user name or password is malformed''
      else if code = 5 then ''Not authorized to connect''
      else if code = 6 then ''Exceeded reconnect rate limit. Please try again later.''
      else if code = 7 then
        ''You have been banned from connecting. Please contact the MQTT server administrator for more details.''
      else if code = - 1 then ''Connection failed''
      else if code = - 2 then ''Failed to subscribe''
      else ''Unknown error'')"

definition connectAs :: "'n net \<Rightarrow> u8 list \<Rightarrow> u8 list \<Rightarrow> 'n mqtt \<Rightarrow> (u8 \<times> 'n mqtt) option" where
  "connectAs nt user pass m = connect nt (m\<lparr>username := user, password := pass\<rparr>)"

definition disconnect :: "'n net \<Rightarrow> 'n mqtt \<Rightarrow> bool \<times> 'n mqtt" where
  "disconnect nt m = (case sendNew8 nt disconnectPacket m of (_, m) \<Rightarrow> disconnectServer nt m)"

fun ping :: "'n net \<Rightarrow> nat \<Rightarrow> 'n mqtt \<Rightarrow> (bool \<times> 'n mqtt) option" where
  "ping nt 0 m = Some (False, m)"
| "ping nt (Suc num) m =
     (case sendNew8 nt pingPacket m of
        (False, m) \<Rightarrow> ping nt num m
      | (True, m) \<Rightarrow>
          Option.bind (processPacketsUntil nt MQTT_CTRL_PINGRESP PING_TIMEOUT_MS m) (\<lambda>(len, m).
            if buffer m ! 0 = push_bit 4 MQTT_CTRL_PINGRESP then Some (True, m) else ping nt num m))"

partial_function (option) flushIncoming :: "'n net \<Rightarrow> u16 \<Rightarrow> 'n mqtt \<Rightarrow> 'n mqtt option" where
  "flushIncoming nt timeout m =
     Option.bind (readPacket nt 0 (of_nat MAXBUFFERSIZE) timeout m) (\<lambda>(len, m).
       if len \<noteq> 0 then flushIncoming nt timeout m else Some m)"

section \<open>Messages\<close>

text \<open>\<open>strncasecmp\<close> of the ESP8266 build; a string ends with a zero byte.\<close>

definition tolower :: "u8 \<Rightarrow> u8" where
  "tolower c = (if 0x41 \<le> c \<and> c \<le> 0x5A then c + 0x20 else c)"

fun strncasecmp :: "u8 list \<Rightarrow> u8 list \<Rightarrow> nat \<Rightarrow> int" where
  "strncasecmp (a # str1) (b # str2) (Suc len) =
     (let d = uint (tolower a) - uint (tolower b)
      in if d \<noteq> 0 \<or> tolower b = 0 then d else strncasecmp str1 str2 len)"
| "strncasecmp _ _ _ = 0"

text \<open>The first subscription whose topic is the one of the packet in the buffer.\<close>

definition matches :: "'n mqtt \<Rightarrow> nat option \<Rightarrow> bool" where
  "matches m slot =
     (case slot of
        None \<Rightarrow> False
      | Some sub \<Rightarrow>
          length (topic (heap m sub)) = unat (buffer m ! 3) \<and>
          strncasecmp (drop 4 (buffer m)) (topic (heap m sub) @ [0]) (unat (buffer m ! 3)) = 0)"

text \<open>
  The data that a packet of \<open>len\<close> bytes carries behind its topic, as it is copied into the
  subscription: at most the size of \<open>lastread\<close>, which is zeroed before.
\<close>

definition deliver :: "u16 \<Rightarrow> nat \<Rightarrow> u16 \<Rightarrow> subscription \<Rightarrow> u8 list \<Rightarrow> subscription" where
  "deliver len topiclen packet_id_len sub buf =
     (let n = len - of_nat topiclen - packet_id_len - 4;
          n = (if unat n > SUBSCRIPTIONDATALEN then of_nat SUBSCRIPTIONDATALEN - 1 else n)
      in sub\<lparr>lastread := splice (replicate SUBSCRIPTIONDATALEN 0) 0
                           (slice (4 + topiclen + unat packet_id_len) (unat n) buf),
             datalen := n\<rparr>)"

definition readSubscription :: "'n net \<Rightarrow> u16 \<Rightarrow> 'n mqtt \<Rightarrow> (nat option \<times> 'n mqtt) option" where
  "readSubscription nt timeout m = do {
     (len, m) \<leftarrow> readFullPacket nt (of_nat MAXBUFFERSIZE) timeout m;
     if len = 0 then Some (None, m)
     else
       let topiclen = unat (buffer m ! 3) in
       case findSlot (matches m) (subscriptions m) 0 of
         None \<Rightarrow> Some (None, m)
       | Some i \<Rightarrow>
           let sub = the (subscriptions m ! i);
               qos1 = (buffer m ! 0 AND 0x6 = 0x2);
               packetid = push_bit 8 (ucast (buffer m ! (topiclen + 4))) OR ucast (buffer m ! (topiclen + 5));
               m = m\<lparr>heap := (heap m)(sub :=
                       deliver len topiclen (if qos1 then 2 else 0) (heap m sub) (buffer m))\<rparr>
           in Some (Some sub,
                if MQTT_PROTOCOL_LEVEL > 3 \<and> qos1
                then snd (sendPacket nt (pubackPacket packetid) 4 m) else m) }"

section \<open>Callbacks\<close>

text \<open>The user's functions, by the object they are set on; the text for \<open>atof\<close> is passed on.\<close>

record 'n handlers =
  on_uint32 :: "nat \<Rightarrow> u32 \<Rightarrow> 'n \<Rightarrow> 'n"
  on_double :: "nat \<Rightarrow> u8 list \<Rightarrow> 'n \<Rightarrow> 'n"
  on_buffer :: "nat \<Rightarrow> u8 list \<Rightarrow> u16 \<Rightarrow> 'n \<Rightarrow> 'n"
  on_io :: "nat \<Rightarrow> u8 list \<Rightarrow> u16 \<Rightarrow> 'n \<Rightarrow> 'n"

text \<open>\<open>atoi\<close>: blanks, a sign, digits.\<close>

fun digits :: "u8 list \<Rightarrow> u32 \<Rightarrow> u32" where
  "digits (c # cs) v = (if 0x30 \<le> c \<and> c \<le> 0x39 then digits cs (10 * v + ucast (c - 0x30)) else v)"
| "digits [] v = v"

fun atoi :: "u8 list \<Rightarrow> u32" where
  "atoi (c # cs) =
     (if c = 0x20 \<or> 0x09 \<le> c \<and> c \<le> 0x0D then atoi cs
      else if c = 0x2D then - digits cs 0
      else if c = 0x2B then digits cs 0
      else digits (c # cs) 0)"
| "atoi [] = 0"

definition callBack :: "'n handlers \<Rightarrow> nat \<Rightarrow> 'n mqtt \<Rightarrow> 'n mqtt" where
  "callBack h sub m =
     (let s = heap m sub in
      m\<lparr>world :=
         (if callback_uint32t s then on_uint32 h sub (atoi (lastread s)) (world m)
          else if callback_double s then on_double h sub (lastread s) (world m)
          else if callback_buffer s then on_buffer h sub (lastread s) (datalen s) (world m)
          else if callback_io s then on_io h sub (lastread s) (datalen s) (world m)
          else world m)\<rparr>)"

text \<open>
  The loop adds the time since the start, not since the last round, to the time elapsed;
  the start only moves when the clock has wrapped.
\<close>

partial_function (option) processLoop ::
  "'n net \<Rightarrow> 'n handlers \<Rightarrow> u16 \<Rightarrow> u32 \<Rightarrow> u32 \<Rightarrow> 'n mqtt \<Rightarrow> 'n mqtt option" where
  "processLoop nt h timeout starttime elapsed m =
     (if elapsed < scast timeout then
        Option.bind (readSubscription nt (timeout - ucast elapsed) m) (\<lambda>(sub, m).
          let m = (case sub of None \<Rightarrow> m | Some sub \<Rightarrow> callBack h sub m) in
          (case core_millis nt (world m) of (endtime, n) \<Rightarrow>
             let starttime = (if endtime < starttime then endtime else starttime)
             in processLoop nt h timeout starttime (elapsed + (endtime - starttime)) (m\<lparr>world := n\<rparr>)))
      else Some m)"

definition processPackets :: "'n net \<Rightarrow> 'n handlers \<Rightarrow> u16 \<Rightarrow> 'n mqtt \<Rightarrow> 'n mqtt option" where
  "processPackets nt h timeout m =
     (case core_millis nt (world m) of (starttime, n) \<Rightarrow> processLoop nt h timeout starttime 0 (m\<lparr>world := n\<rparr>))"

end
