(* ===== verification/MqttLink.thy ===== *)
theory MqttLink
  imports Mqtt
begin

text \<open>
  The laws of a connection that stays up, as the client relies on them: the bytes that
  have arrived are read in order, and the bytes written are sent.  Over such a
  connection the receiving functions of the client are computed on the bytes.
\<close>

section \<open>A connection that is up\<close>

locale link =
  fixes nt :: "'n net" and incoming :: "'n \<Rightarrow> u8 list" and sent :: "'n \<Rightarrow> u8 list"
  assumes connected_law: "\<exists>n'. client_connected nt n = (True, n') \<and> incoming n' = incoming n \<and> sent n' = sent n"
    and available_law: "\<exists>n'. client_available nt n = (incoming n \<noteq> [], n') \<and> incoming n' = incoming n \<and> sent n' = sent n"
    and read_law: "incoming n = b # bs \<Longrightarrow> \<exists>n'. client_read nt n = (b, n') \<and> incoming n' = bs \<and> sent n' = sent n"
    and write_law: "length bs < 65536 \<Longrightarrow>
      \<exists>n'. client_write nt bs n = (of_nat (length bs), n') \<and> incoming n' = incoming n \<and> sent n' = sent n @ bs"
    and connect_law: "\<exists>n'. client_connect nt server port n = (True, n') \<and> incoming n' = incoming n \<and> sent n' = sent n"
    and delay_law: "incoming (core_delay nt t n) = incoming n \<and> sent (core_delay nt t n) = sent n"

context link
begin

section \<open>Reading\<close>

lemma drain_exact:
  assumes "incoming n = bs @ rest" and "bs \<noteq> []" and "length acc + length bs = unat maxlen"
  shows "\<exists>n'. drain nt maxlen acc n = Some (True, acc @ bs, n') \<and> incoming n' = rest \<and> sent n' = sent n"
  using assms
proof (induction bs arbitrary: acc n)
  case (Cons b bs)
  obtain n1 where n1: "client_available nt n = (True, n1)" "incoming n1 = incoming n" "sent n1 = sent n"
    using available_law [of n] Cons.prems by auto
  obtain n2 where n2: "client_read nt n1 = (b, n2)" "incoming n2 = bs @ rest" "sent n2 = sent n"
    using read_law [of n1 b "bs @ rest"] Cons.prems n1 by auto
  show ?case
  proof (cases "bs = []")
    case True
    then have "of_nat (length (acc @ [b])) = maxlen" using Cons.prems by simp
    then show ?thesis using True n1 n2 by (subst drain.simps) (simp add: Let_def)
  next
    case False
    have "unat maxlen < 65536" by (rule unat_bound)
    then have "unat (of_nat (length (acc @ [b])) :: u16) = length acc + 1"
      using Cons.prems(3) by (intro trans [OF unat_of_nat_small]) auto
    moreover have "length acc + 1 < unat maxlen" using Cons.prems(3) False by (cases bs) auto
    ultimately have "of_nat (length (acc @ [b])) \<noteq> maxlen" by auto
    moreover obtain n' where "drain nt maxlen (acc @ [b]) n2 = Some (True, (acc @ [b]) @ bs, n')"
        "incoming n' = rest" "sent n' = sent n2"
      using Cons.IH [OF n2(2) False, of "acc @ [b]"] Cons.prems(3) by auto
    ultimately show ?thesis using n1 n2 by (subst drain.simps) (simp add: Let_def)
  qed
qed simp

lemma receive_exact:
  assumes "incoming n = bs @ rest" and "bs \<noteq> []" and "length bs = unat maxlen" and "0 \<le> sint timeout"
  shows "\<exists>n'. receive nt maxlen t timeout [] n = Some (bs, n') \<and> incoming n' = rest \<and> sent n' = sent n"
proof -
  obtain n1 where n1: "client_connected nt n = (True, n1)" "incoming n1 = incoming n" "sent n1 = sent n"
    using connected_law [of n] by auto
  obtain n2 where "drain nt maxlen [] n1 = Some (True, bs, n2)" "incoming n2 = rest" "sent n2 = sent n"
    using drain_exact [of n1 bs rest "[]" maxlen] assms n1 by auto
  then show ?thesis using n1 assms(4) by (subst receive.simps) simp
qed

lemma readPacket_exact:
  assumes "incoming (world m) = bs @ rest" and "bs \<noteq> []" and "length bs = unat maxlen" and "0 \<le> sint timeout"
    and "off + length bs \<le> length (buffer m)"
  shows "\<exists>n'. readPacket nt off maxlen timeout m =
      Some (maxlen, m\<lparr>world := n', buffer := splice (buffer m) off bs\<rparr>) \<and>
      incoming n' = rest \<and> sent n' = sent (world m)"
proof -
  obtain n' where "receive nt maxlen timeout timeout [] (world m) = Some (bs, n')" "incoming n' = rest"
      "sent n' = sent (world m)"
    using receive_exact [OF assms(1-4), of timeout] by auto
  moreover have "(of_nat (length bs) :: u16) = maxlen" using assms(3) by simp
  ultimately show ?thesis
    using assms(5) by (intro exI [of _ n']) (simp add: readPacket_def storeBytes_def)
qed

end

section \<open>Bytes of the remaining length\<close>

lemma seven_bits:
  fixes len :: u16
  shows "(ucast (len mod 128) :: u8) AND 0x7F = ucast (len mod 128)"
    and "(ucast (len mod 128) OR 0x80 :: u8) AND 0x7F = ucast (len mod 128)"
    and "(ucast (len mod 128) :: u8) AND 0x80 = 0" and "(ucast (len mod 128) OR 0x80 :: u8) AND 0x80 \<noteq> 0"
proof -
  have m: "len mod 128 = take_bit 7 len" by (simp add: take_bit_eq_mod)
  have k: "(0x7F :: u8) = mask 7" by (simp add: mask_eq_exp_minus_1)
  show a: "(ucast (len mod 128) :: u8) AND 0x7F = ucast (len mod 128)"
    unfolding m k by (rule bit_word_eqI) (auto simp: bit_simps)
  then show "(ucast (len mod 128) OR 0x80 :: u8) AND 0x7F = ucast (len mod 128)"
    by (simp add: bit.conj_disj_distrib2)
  have "((ucast (len mod 128) :: u8) AND 0x7F) AND 0x80 = 0" by (simp add: and.assoc)
  then show c: "(ucast (len mod 128) :: u8) AND 0x80 = 0" by (simp only: a)
  then show "(ucast (len mod 128) OR 0x80 :: u8) AND 0x80 \<noteq> 0"
    by (simp add: bit.conj_disj_distrib2)
qed

lemma length_split:
  fixes len :: u16
  shows "(ucast len :: u32) = ucast (ucast (len mod 128) :: u8) + 128 * ucast (len div 128)"
proof -
  have "unat len mod 128 + 128 * (unat len div 128) = unat len" by simp
  moreover have "unat len < 65536" by (rule unat_bound)
  then have "unat len div 128 < 512" by simp
  ultimately have "unat (ucast (ucast (len mod 128) :: u8) + 128 * ucast (len div 128) :: u32) = unat len"
    by (simp add: unat_word_ariths unat_ucast_mod unat_div unat_mod)
  moreover have "unat (ucast len :: u32) = unat len" by (simp add: unat_ucast_up)
  ultimately show ?thesis by (simp add: word_unat_eq_iff)
qed

lemma length_lengthBytes: "length (lengthBytes len) = (if len < 128 then 1 else if len < 16384 then 2 else 3)"
proof -
  have d: "len div 128 > 0 \<longleftrightarrow> \<not> x < 128" if "x = len" for len x :: u16
    using that by (auto simp: word_less_nat_alt unat_div)
  have "unat len < 65536" by (rule unat_bound)
  then have "unat (len div 128 div 128 div 128) = 0" by (simp add: unat_div)
  then have z: "len div 128 div 128 div 128 = 0" by (simp add: unat_eq_0)
  show ?thesis
    by (subst lengthBytes.simps, subst lengthBytes.simps, subst lengthBytes.simps)
      (use z in \<open>auto simp: Let_def word_less_nat_alt unat_div\<close>)
qed

lemma splice_append:
  assumes "off + length xs + length ys \<le> length buf"
  shows "splice (splice buf off xs) (off + length xs) ys = splice buf off (xs @ ys)"
  using assms by (intro nth_equalityI) (auto simp: nth_splice nth_append)

lemma splice_cons:
  assumes "off + length (x # ys) \<le> length buf"
  shows "splice (splice buf off [x]) (off + 1) ys = splice buf off (x # ys)"
  using splice_append [of off "[x]" ys buf] assms by simp

lemma nth_splice_one: "off < length buf \<Longrightarrow> splice buf off [x] ! off = x"
  by (simp add: nth_splice)

context link
begin

lemma lengthLoop_decodes:
  assumes "incoming (world m) = lengthBytes len @ rest" and "0 \<le> sint timeout"
    and "off + length (lengthBytes len) \<le> length (buffer m)"
    and "unat mult * 128 ^ length (lengthBytes len) \<le> 128 ^ 3"
  shows "\<exists>n'. lengthLoop nt timeout off v mult m =
      Some (Some (off + length (lengthBytes len), v + ucast len * mult),
            m\<lparr>world := n', buffer := splice (buffer m) off (lengthBytes len)\<rparr>) \<and>
      incoming n' = rest \<and> sent n' = sent (world m)"
  using assms
proof (induction len arbitrary: off v mult m rule: lengthBytes.induct)
  case (1 len)
  let ?low = "ucast (len mod 128) :: u8"
  note B = lengthBytes.simps [of len, unfolded Let_def]
  let ?more = "len div 128 > 0"
  let ?b = "if ?more then ?low OR 0x80 else ?low"
  obtain tl' where L: "lengthBytes len = ?b # tl'" "tl' = (if ?more then lengthBytes (len div 128) else [])"
    using B by auto
  have off: "off < length (buffer m)" using 1(4) L(1) by simp
  obtain n1 where n1: "readPacket nt off 1 timeout m =
      Some (1, m\<lparr>world := n1, buffer := splice (buffer m) off [?b]\<rparr>)"
      "incoming n1 = tl' @ rest" "sent n1 = sent (world m)"
    using readPacket_exact [of m "[?b]" "tl' @ rest" 1 timeout off] 1(2,3) L(1) off by auto
  let ?m = "m\<lparr>world := n1, buffer := splice (buffer m) off [?b]\<rparr>"
  have nb: "buffer ?m ! off = ?b" using nth_splice_one [OF off] by simp
  have small: "unat mult * 128 \<le> 128 ^ 3"
  proof -
    have "unat mult * 128 * 1 \<le> unat mult * 128 * 128 ^ length tl'" by (intro mult_le_mono2) simp
    also have "\<dots> = unat mult * 128 ^ length (lengthBytes len)" using L(1) by simp
    finally show ?thesis using 1(5) by linarith
  qed
  then have um: "unat (mult * 128) = unat mult * 128" by (simp add: unat_word_ariths)
  then have ok: "\<not> mult * 128 > 128 * 128 * 128" using small by (simp add: word_less_nat_alt)
  have val: "ucast (?b AND 0x7F) = (ucast ?low :: u32)" using seven_bits(1,2) [of len] by auto
  show ?case
  proof (cases "?more")
    case False
    then have z: "len div 128 = 0" by (metis word_gt_0)
    have "?b AND 0x80 = 0" using False seven_bits(3) by simp
    moreover have "(ucast len :: u32) = ucast ?low" using length_split [of len] z by simp
    ultimately show ?thesis
      using n1 nb ok val L False by (intro exI [of _ n1], subst lengthLoop.simps) (simp add: Let_def)
  next
    case True
    have set: "?b AND 0x80 \<noteq> 0" using True seven_bits(4) by simp
    have tl: "tl' = lengthBytes (len div 128)" using L(2) True by simp
    have 2: "unat (mult * 128) * 128 ^ length (lengthBytes (len div 128)) \<le> 128 ^ 3"
      using 1(5) L(1) tl um by simp
    have 3: "off + 1 + length (lengthBytes (len div 128)) \<le> length (buffer ?m)"
      using 1(4) L(1) tl off by simp
    obtain n2 where n2: "lengthLoop nt timeout (off + 1) (v + ucast ?low * mult) (mult * 128) ?m =
        Some (Some (off + 1 + length (lengthBytes (len div 128)),
            v + ucast ?low * mult + ucast (len div 128) * (mult * 128)),
          ?m\<lparr>world := n2, buffer := splice (buffer ?m) (off + 1) (lengthBytes (len div 128))\<rparr>)"
        "incoming n2 = rest" "sent n2 = sent (world ?m)"
      using 1(1) [OF refl refl True, of ?m "off + 1" "mult * 128" "v + ucast ?low * mult"] n1(2) 1(3) 2 3 tl by auto
    have "v + ucast ?low * mult + ucast (len div 128) * (mult * 128) = v + ucast len * mult"
      unfolding length_split [of len] by (simp add: algebra_simps)
    moreover have "splice (buffer ?m) (off + 1) (lengthBytes (len div 128)) = splice (buffer m) off (lengthBytes len)"
      using splice_cons [of off ?b tl' "buffer m"] 1(4) L(1) tl by simp
    moreover have "lengthLoop nt timeout off v mult m =
        lengthLoop nt timeout (off + 1) (v + ucast ?low * mult) (mult * 128) ?m"
      using n1(1) nb ok val set by (subst lengthLoop.simps) (simp add: Let_def)
    ultimately show ?thesis
      using n2 n1(3) L(1) tl by (intro exI [of _ n2]) simp
  qed
qed


lemma readFullPacket_exact:
  assumes "incoming (world m) = h # lengthBytes len @ body @ rest" and "0 \<le> sint timeout"
    and "length body = unat len" and "body \<noteq> []" and "length (buffer m) = 150"
    and "1 + length (lengthBytes len) + length body \<le> 149"
  shows "\<exists>n'. readFullPacket nt 150 timeout m =
      Some (of_nat (1 + length (lengthBytes len) + length body),
        m\<lparr>world := n', buffer := splice (buffer m) 0 (h # lengthBytes len @ body)\<rparr>) \<and>
      incoming n' = rest \<and> sent n' = sent (world m)"
proof -
  define lb where "lb = length (lengthBytes len)"
  have lb: "1 \<le> lb" "lb \<le> 3" by (simp_all add: lb_def length_lengthBytes)
  obtain n1 where n1: "readPacket nt 0 1 timeout m = Some (1, m\<lparr>world := n1, buffer := splice (buffer m) 0 [h]\<rparr>)"
      "incoming n1 = lengthBytes len @ body @ rest" "sent n1 = sent (world m)"
    using readPacket_exact [of m "[h]" "lengthBytes len @ body @ rest" 1 timeout 0] assms(1,2,5) by auto
  define m1 where "m1 = m\<lparr>world := n1, buffer := splice (buffer m) 0 [h]\<rparr>"
  have m1: "length (buffer m1) = 150" "incoming (world m1) = lengthBytes len @ body @ rest"
      "sent (world m1) = sent (world m)"
    using assms(5) n1 by (simp_all add: m1_def)
  have "(128 :: nat) ^ lb \<le> 128 ^ 3" using lb(2) by (intro power_increasing) auto
  then obtain n2 where n2: "lengthLoop nt timeout 1 0 1 m1 =
      Some (Some (1 + lb, ucast len), m1\<lparr>world := n2, buffer := splice (buffer m1) 1 (lengthBytes len)\<rparr>)"
      "incoming n2 = body @ rest" "sent n2 = sent (world m)"
    using lengthLoop_decodes [of m1 len "body @ rest" timeout 1 1 0] m1 assms(2) lb by (auto simp: lb_def)
  define m2 where "m2 = m1\<lparr>world := n2, buffer := splice (buffer m1) 1 (lengthBytes len)\<rparr>"
  have m2: "length (buffer m2) = 150" "incoming (world m2) = body @ rest" "sent (world m2) = sent (world m)"
    using m1 n2 lb by (simp_all add: m2_def lb_def)
  obtain n3 where n3: "readPacket nt (1 + lb) len timeout m2 =
      Some (len, m2\<lparr>world := n3, buffer := splice (buffer m2) (1 + lb) body\<rparr>)"
      "incoming n3 = rest" "sent n3 = sent (world m)"
    using readPacket_exact [of m2 body rest len timeout "1 + lb"] m2 assms(2,3,4,6) lb by (auto simp: lb_def)
  have room: "\<not> (ucast len :: u32) > 150 - of_nat (1 + lb) - 1"
  proof -
    have "lb = 1 \<or> lb = 2 \<or> lb = 3" using lb by linarith
    then show ?thesis using assms(3,6) by (auto simp: word_less_nat_alt unat_ucast_up lb_def)
  qed
  have cut: "(ucast (ucast len :: u32) :: u16) = len"
    using unat_bound(2) [of len] by (simp add: word_unat_eq_iff unat_ucast_mod unat_ucast_up)
  have byte: "(ucast (ucast len :: u8) :: u16) = len"
  proof -
    have "unat len < 256" using assms(3,6) by linarith
    then show ?thesis by (simp add: word_unat_eq_iff unat_ucast_mod unat_ucast_up)
  qed
  have res: "of_nat (1 + lb) + len = of_nat (1 + lb + length body)" using assms(3) by simp
  have b1: "buffer m2 = splice (buffer m) 0 (h # lengthBytes len)"
    using splice_cons [of 0 h "lengthBytes len" "buffer m"] assms(5) lb by (simp add: m1_def m2_def lb_def)
  have b2: "splice (buffer m2) (1 + lb) body = splice (buffer m) 0 (h # lengthBytes len @ body)"
    unfolding b1 using splice_append [of 0 "h # lengthBytes len" body "buffer m"] assms(5,6) by (simp add: lb_def)
  have "readFullPacket nt 150 timeout m = Some (of_nat (1 + lb) + len, m2\<lparr>world := n3, buffer := splice (buffer m2) (1 + lb) body\<rparr>)"
    unfolding readFullPacket_def n1(1) m1_def [symmetric]
    using n2(1) [folded m2_def] room n3(1) by (simp add: cut byte del: of_nat_add of_nat_Suc)
  then show ?thesis
    unfolding res b2 using n3 by (intro exI [of _ n3]) (simp add: m1_def m2_def lb_def)
qed


section \<open>Waiting on a silent connection\<close>

lemma drain_empty:
  assumes "incoming n = []"
  shows "\<exists>n'. drain nt maxlen acc n = Some (False, acc, n') \<and> incoming n' = [] \<and> sent n' = sent n"
  using available_law [of n] assms by (subst drain.simps) auto

lemma receive_idle:
  assumes "incoming n = []"
  shows "\<exists>n'. receive nt maxlen t timeout acc n = Some (acc, n') \<and> incoming n' = [] \<and> sent n' = sent n"
  using assms
proof (induction "nat (sint timeout + 11)" arbitrary: timeout n rule: less_induct)
  case less
  obtain n1 where n1: "client_connected nt n = (True, n1)" "incoming n1 = []" "sent n1 = sent n"
    using connected_law [of n] less.prems by auto
  show ?case
  proof (cases "0 \<le> sint timeout")
    case False
    then show ?thesis using n1 by (subst receive.simps) simp
  next
    case True
    obtain n2 where n2: "drain nt maxlen acc n1 = Some (False, acc, n2)" "incoming n2 = []" "sent n2 = sent n"
      using drain_empty [OF n1(2)] n1(3) by metis
    have "sint timeout < 32768" using sint_less [of timeout] by simp
    then have s: "sint (timeout - 10) = sint timeout - 10"
      using True by (simp add: sint_word_ariths signed_take_bit_int_eq_self)
    then show ?thesis
      using less.hyps [of "timeout - 10" "core_delay nt 10 n2"] True n1 n2 delay_law [of 10 n2]
      by (subst receive.simps) (simp add: Let_def)
  qed
qed

text \<open>
  With the length limit zero the count of the bytes never equals the limit, so all that
  has arrived is taken.
\<close>

lemma drain_unlimited:
  assumes "incoming n = bs" and "length acc + length bs < 65536" and "acc @ bs \<noteq> []"
  shows "\<exists>n'. drain nt 0 acc n = Some (False, acc @ bs, n') \<and> incoming n' = [] \<and> sent n' = sent n"
  using assms
proof (induction bs arbitrary: acc n)
  case Nil
  then show ?case using drain_empty [of n] by simp
next
  case (Cons b bs)
  obtain n1 where n1: "client_available nt n = (True, n1)" "incoming n1 = incoming n" "sent n1 = sent n"
    using available_law [of n] Cons.prems by auto
  obtain n2 where n2: "client_read nt n1 = (b, n2)" "incoming n2 = bs" "sent n2 = sent n"
    using read_law [of n1 b bs] Cons.prems n1 by auto
  have "unat (of_nat (length (acc @ [b])) :: u16) = length acc + 1"
    using Cons.prems(2) by (intro trans [OF unat_of_nat_small]) auto
  then have "of_nat (length (acc @ [b])) \<noteq> (0 :: u16)" by (metis Suc_eq_plus1 nat.distinct(1) unat_0)
  moreover obtain n' where "drain nt 0 (acc @ [b]) n2 = Some (False, (acc @ [b]) @ bs, n')"
      "incoming n' = []" "sent n' = sent n2"
    using Cons.IH [OF n2(2), of "acc @ [b]"] Cons.prems(2) by auto
  ultimately show ?case using n1 n2 by (subst drain.simps) (simp add: Let_def)
qed

lemma receive_unlimited:
  assumes "incoming n = bs" and "length bs < 65536" and "bs \<noteq> []" and "0 \<le> sint timeout"
  shows "\<exists>n'. receive nt 0 t timeout [] n = Some (bs, n') \<and> incoming n' = [] \<and> sent n' = sent n"
proof -
  obtain n1 where n1: "client_connected nt n = (True, n1)" "incoming n1 = bs" "sent n1 = sent n"
    using connected_law [of n] assms by auto
  obtain n2 where n2: "drain nt 0 [] n1 = Some (False, bs, n2)" "incoming n2 = []" "sent n2 = sent n"
    using drain_unlimited [of n1 bs "[]"] n1 assms(2,3) by auto
  have "incoming (core_delay nt 10 n2) = []" using n2 delay_law [of 10 n2] by simp
  from receive_idle [OF this, of 0 t "t - 10" bs] obtain n' where
    "receive nt 0 t (t - 10) bs (core_delay nt 10 n2) = Some (bs, n')" "incoming n' = []" "sent n' = sent n"
    using n2 delay_law [of 10 n2] by auto
  then show ?thesis using n1 n2 assms(3,4) by (subst receive.simps) (simp add: Let_def)
qed

section \<open>Sending\<close>

lemma sendLoop_once:
  assumes "0 < unat len" and "unat len \<le> 250" and "unat len \<le> length bs"
  shows "\<exists>n'. sendLoop nt bs len n = (True, n') \<and> incoming n' = incoming n \<and> sent n' = sent n @ take (unat len) bs"
proof -
  obtain n1 where n1: "client_connected nt n = (True, n1)" "incoming n1 = incoming n" "sent n1 = sent n"
    using connected_law [of n] by auto
  have m: "min len 250 = len" using assms(2) by (simp add: min_def word_le_nat_alt)
  have l2: "length (take (unat len) bs) < 65536" using assms(2) by simp
  have l: "(of_nat (length (take (unat len) bs)) :: u16) = len" using assms(3) by (simp add: min_def)
  obtain n2 where n2: "client_write nt (take (unat len) bs) n1 = (len, n2)" "incoming n2 = incoming n"
      "sent n2 = sent n @ take (unat len) bs"
    using write_law [OF l2, of n1] n1 unfolding l by auto
  have "sendLoop nt bs 0 n2 = (True, n2)" by (subst sendLoop.simps) simp
  moreover have "0 < len" using assms(1) by (simp add: word_less_nat_alt)
  ultimately show ?thesis using n1 n2 m by (subst sendLoop.simps) simp
qed

lemma sendPacket_all:
  assumes "0 < unat len" and "unat len \<le> 250" and "unat len \<le> length bs"
  shows "\<exists>n'. sendPacket nt bs len m = (True, m\<lparr>world := n'\<rparr>) \<and> incoming n' = incoming (world m) \<and>
      sent n' = sent (world m) @ take (unat len) bs"
  using sendLoop_once [OF assms, of "world m"] by (auto simp: sendPacket_def)

lemma sendNew8_packet:
  assumes "packet \<noteq> []" and "length packet \<le> 150" and "length (buffer m) = 150"
  shows "\<exists>n'. sendNew8 nt packet m = (True, m\<lparr>world := n', buffer := splice (buffer m) 0 packet\<rparr>) \<and>
      incoming n' = incoming (world m) \<and> sent n' = sent (world m) @ packet"
proof -
  define len where "len = (ucast (ucast (strlen16 packet) :: u8) :: u16)"
  have len: "unat len = length packet"
    using assms(2) by (simp add: len_def strlen16_def unat_ucast_mod unat_of_nat_small)
  have t: "take (length packet) (splice (buffer m) 0 packet) = packet" by (simp add: splice_def)
  define m1 where "m1 = m\<lparr>buffer := splice (buffer m) 0 packet\<rparr>"
  have st: "storeBytes 0 packet m = m1" using assms by (simp add: storeBytes_def m1_def)
  have m1: "length (buffer m1) = 150" "take (length packet) (buffer m1) = packet" "world m1 = world m"
    using assms t by (simp_all add: m1_def)
  obtain n' where "sendPacket nt (buffer m1) len m1 = (True, m1\<lparr>world := n'\<rparr>)"
      "incoming n' = incoming (world m)" "sent n' = sent (world m) @ packet"
    using sendPacket_all [of len "buffer m1" m1] assms(1,2) m1 unfolding len by auto
  moreover have "m1\<lparr>world := n'\<rparr> = m\<lparr>world := n', buffer := splice (buffer m) 0 packet\<rparr>" for n'
    by (simp add: m1_def)
  ultimately show ?thesis by (auto simp: sendNew8_def st len_def [symmetric])
qed

end

section \<open>A pair of byte queues\<close>

text \<open>The connection of the witnesses: what arrives, what has been sent, and the clock.\<close>

record stream =
  inbox :: "u8 list"
  outbox :: "u8 list"
  clock :: u32

definition stream_net :: "stream net" where
  "stream_net =
     \<lparr> client_connect = (\<lambda>server port n. (True, n)),
       client_connected = (\<lambda>n. (True, n)),
       client_available = (\<lambda>n. (inbox n \<noteq> [], n)),
       client_read = (\<lambda>n. case inbox n of [] \<Rightarrow> (0xFF, n) | b # bs \<Rightarrow> (b, n\<lparr>inbox := bs\<rparr>)),
       client_write = (\<lambda>bs n. (of_nat (length bs), n\<lparr>outbox := outbox n @ bs\<rparr>)),
       client_stop = (\<lambda>n. n\<lparr>inbox := []\<rparr>),
       core_delay = (\<lambda>t n. n\<lparr>clock := clock n + t\<rparr>),
       core_millis = (\<lambda>n. (clock n, n)) \<rparr>"

interpretation stream: link stream_net inbox outbox
  by unfold_locales (auto simp: stream_net_def)

end
