(* ===== verification/MqttProps.thy ===== *)
theory MqttProps
  imports MqttLink
begin

text \<open>
  The properties of the MQTT client: what the packets carry, what happens to a message
  that the broker sends, publishing, connecting and the table of subscriptions, over a
  connection that stays up (theory MqttLink).
\<close>

section \<open>Helper lemmas\<close>

lemma join_bytes: "push_bit 8 (ucast (ucast (drop_bit 8 x) :: u8)) OR ucast (ucast x :: u8) = (x :: u16)"
  by (rule bit_word_eqI) (auto simp: bit_simps)


lemma stringprint_short:
  assumes "length s < 256"
  shows "stringprint s 0 = [0, of_nat (length s)] @ s"
proof -
  have u: "unat (strlen16 s) = length s" using assms by (simp add: strlen16_def unat_of_nat_small)
  have "drop_bit 8 (strlen16 s) = 0"
    using u assms by (simp add: word_unat_eq_iff unat_drop_bit_div)
  moreover have "(ucast (strlen16 s AND 0xFF) :: u8) = of_nat (length s)"
  proof -
    have "(ucast (strlen16 s AND 0xFF) :: u8) = ucast (strlen16 s)" by (rule low_byte)
    then show ?thesis using u assms by (simp add: word_unat_eq_iff unat_ucast_mod unat_of_nat_small)
  qed
  ultimately show ?thesis using u by (simp add: stringprint_def Let_def)
qed


lemma findSlot_Some:
  "findSlot P xs k = Some i \<Longrightarrow> k \<le> i \<and> i - k < length xs \<and> P (xs ! (i - k))"
  by (induction xs arbitrary: k) (fastforce simp: Suc_diff_le split: if_splits)+

lemma findSlot_None: "findSlot P xs k = None \<longleftrightarrow> (\<forall>x\<in>set xs. \<not> P x)"
  by (induction xs arbitrary: k) auto

lemma tolower_zero [simp]: "tolower c = 0 \<longleftrightarrow> c = 0"
proof -
  have "c + 0x20 \<noteq> 0" if "0x41 \<le> c" "c \<le> 0x5A"
    using that by (auto simp: word_le_nat_alt word_unat_eq_iff unat_word_ariths)
  then show ?thesis by (auto simp: tolower_def)
qed



text \<open>The length of what follows the fixed header of a PUBLISH packet.\<close>

definition publishSize :: "u8 list \<Rightarrow> u8 list \<Rightarrow> u8 \<Rightarrow> nat" where
  "publishSize tpc data q = 2 + length tpc + (if q > 0 then 2 else 0) + length data"

lemma publishPacket_bytes:
  assumes "publishSize tpc data q < 256"
  shows "publishPacket tpc data (of_nat (length data)) q pid =
    (0x30 OR push_bit 1 q) # lengthBytes (of_nat (publishSize tpc data q)) @
      [0, of_nat (length tpc)] @ tpc @ (if q > 0 then idBytes pid else []) @ data"
proof -
  have "length tpc < 256" "length data < 256" using assms by (auto simp: publishSize_def split: if_splits)
  moreover have "(if q > 0 then 2 + strlen16 tpc + 2 else 2 + strlen16 tpc) + of_nat (length data) =
      (of_nat (publishSize tpc data q) :: u16)"
    by (auto simp: publishSize_def strlen16_def)
  ultimately show ?thesis
    using stringprint_short [of tpc] by (simp add: publishPacket_def Let_def unat_of_nat_small)
qed

section \<open>Receiving a message\<close>







lemma publish_received:
  assumes "link nt incoming sent" and "0 \<le> sint timeout" and "length (buffer m) = 150"
    and "incoming (world m) = publishPacket tpc data (of_nat (length data)) q pid @ rest"
    and "publishSize tpc data q \<le> 146"
  defines "P \<equiv> publishPacket tpc data (of_nat (length data)) q pid"
  shows "\<exists>n'. readFullPacket nt 150 timeout m = Some (of_nat (length P), m\<lparr>world := n', buffer := splice (buffer m) 0 P\<rparr>) \<and>
    incoming n' = rest \<and> sent n' = sent (world m)"
proof -
  define r where "r = publishSize tpc data q"
  have r: "unat (of_nat r :: u16) = r" using assms(5) by (simp add: r_def unat_of_nat_small)
  define body where "body = [0, of_nat (length tpc)] @ tpc @ (if q > 0 then idBytes pid else []) @ data"
  have P: "P = (0x30 OR push_bit 1 q) # lengthBytes (of_nat r) @ body"
    unfolding P_def r_def body_def using assms(5) by (intro publishPacket_bytes) simp
  have body: "length body = r" "body \<noteq> []" by (simp_all add: body_def r_def publishSize_def idBytes_def)
  have "length (lengthBytes (of_nat r)) \<le> 2"
    using assms(5) r by (simp add: length_lengthBytes word_less_nat_alt r_def)
  then show ?thesis
    using link.readFullPacket_exact [OF assms(1), of m "0x30 OR push_bit 1 q" "of_nat r" body rest timeout]
      assms(2-5) body r P by (simp add: P_def [symmetric] r_def)
qed



text \<open>A client with the subscriptions \<open>led\<close> and \<open>fan\<close>, and a message for \<open>LED\<close>.\<close>

definition example_client :: "u8 list \<Rightarrow> stream mqtt" where
  "example_client arriving =
     (mqtt_new [0x68] 1883 [0x63] [] []
        (\<lambda>a. subscription_new (if a = 0 then [0x6C, 0x65, 0x64] else [0x66, 0x61, 0x6E]) 1)
        \<lparr>inbox = arriving, outbox = [], clock = 0\<rparr>)
     \<lparr>subscriptions := [None, Some 1, Some 0, None, None]\<rparr>"


text \<open>
  The remaining length of a packet survives encoding and decoding: for every 16 bit
  length the receiver of readFullPacket gets back from the bytes written by publishPacket
  the same value, and stops behind them.
\<close>

theorem remaining_length_round_trip:
  assumes "link nt incoming sent" and "0 \<le> sint timeout" and "length (buffer m) = 150"
    and "incoming (world m) = lengthBytes len @ rest"
  shows "\<exists>m'. lengthLoop nt timeout 1 0 1 m = Some (Some (1 + length (lengthBytes len), ucast len), m') \<and>
    slice 1 (length (lengthBytes len)) (buffer m') = lengthBytes len \<and>
    incoming (world m') = rest \<and> sent (world m') = sent (world m)"
proof -
  have lb: "length (lengthBytes len) \<le> 3" by (simp add: length_lengthBytes)
  then have "(128 :: nat) ^ length (lengthBytes len) \<le> 128 ^ 3" by (intro power_increasing) auto
  then obtain n' where "lengthLoop nt timeout 1 0 1 m = Some (Some (1 + length (lengthBytes len), ucast len),
        m\<lparr>world := n', buffer := splice (buffer m) 1 (lengthBytes len)\<rparr>)"
      "incoming n' = rest" "sent n' = sent (world m)"
    using link.lengthLoop_decodes [OF assms(1,4,2), of 1 1 0] assms(3) lb by auto
  then show ?thesis using assms(3) lb by (simp add: slice_splice_same)
qed

lemma remaining_length_round_trip_witness:
  "\<exists>m'. lengthLoop stream_net 500 1 0 1 (example_client (lengthBytes 321 @ [7])) =
      Some (Some (1 + length (lengthBytes 321), 321), m') \<and> inbox (world m') = [7]"
  using remaining_length_round_trip [OF stream.link_axioms, of 500 "example_client (lengthBytes 321 @ [7])" 321 "[7]"]
  by (auto simp: example_client_def mqtt_new_def)

text \<open>
  A message whose remaining length takes two bytes is lost: readSubscription takes the
  length of the topic from the fourth byte of the packet, which then is its high byte, so
  that no subscription with a topic matches.  The message is consumed and nothing is
  acknowledged.
\<close>

theorem long_message_is_lost:
  assumes "link nt incoming sent" and "0 \<le> sint timeout" and "length (buffer m) = 150"
    and "incoming (world m) = publishPacket tpc data (of_nat (length data)) q pid @ rest"
    and "128 \<le> publishSize tpc data q" and "publishSize tpc data q \<le> 146"
    and "\<forall>s. Some s \<in> set (subscriptions m) \<longrightarrow> topic (heap m s) \<noteq> []"
  shows "\<exists>m'. readSubscription nt timeout m = Some (None, m') \<and> heap m' = heap m \<and>
    subscriptions m' = subscriptions m \<and> incoming (world m') = rest \<and> sent (world m') = sent (world m)"
proof -
  define P where "P = publishPacket tpc data (of_nat (length data)) q pid"
  obtain n1 where n1: "readFullPacket nt 150 timeout m = Some (of_nat (length P), m\<lparr>world := n1, buffer := splice (buffer m) 0 P\<rparr>)"
      "incoming n1 = rest" "sent n1 = sent (world m)"
    using publish_received [OF assms(1-4,6)] by (auto simp: P_def)
  define m1 where "m1 = m\<lparr>world := n1, buffer := splice (buffer m) 0 P\<rparr>"
  have big: "\<not> (of_nat (publishSize tpc data q) :: u16) < 128" "(of_nat (publishSize tpc data q) :: u16) < 16384"
    using assms(5,6) by (simp_all add: word_less_nat_alt unat_of_nat_small)
  obtain b c where lb: "lengthBytes (of_nat (publishSize tpc data q)) = [b, c]"
    using length_lengthBytes [of "of_nat (publishSize tpc data q)"] big by (auto simp: length_Suc_conv numeral_2_eq_2)
  have P: "P = [0x30 OR push_bit 1 q, b, c, 0, of_nat (length tpc)] @ tpc @ (if q > 0 then idBytes pid else []) @ data"
    using publishPacket_bytes [of tpc data q pid] assms(6) lb by (simp add: P_def)
  have "length P < 256" using assms(6) by (simp add: P publishSize_def idBytes_def split: if_splits)
  then have "unat (of_nat (length P) :: u16) = length P" by (simp add: unat_of_nat_small)
  then have nz: "(of_nat (length P) :: u16) \<noteq> 0" by (auto simp: P)
  have "buffer m1 ! 3 = 0" by (simp add: m1_def splice_def P)
  then have "findSlot (matches m1) (subscriptions m1) 0 = None"
    using assms(7) by (auto simp: findSlot_None matches_def m1_def split: option.splits)
  then show ?thesis
    using n1 nz unfolding readSubscription_def
    by (simp add: m1_def [symmetric] Let_def) (simp add: m1_def)
qed

lemma long_message_is_lost_witness:
  "\<exists>m'. readSubscription stream_net 500
        (example_client (publishPacket [0x6C, 0x65, 0x64] (replicate 140 1) 140 0 0)) = Some (None, m') \<and>
      inbox (world m') = []"
  using long_message_is_lost [OF stream.link_axioms, of 500
      "example_client (publishPacket [0x6C, 0x65, 0x64] (replicate 140 1) 140 0 0)"
      "[0x6C, 0x65, 0x64]" "replicate 140 1" 0 0 "[]"]
  by (auto simp: example_client_def mqtt_new_def subscription_new_def publishSize_def)


section \<open>Publishing\<close>

lemma lengthBytes_two: "lengthBytes 2 = [2]"
  by (subst lengthBytes.simps) (simp add: Let_def)

lemma lengthBytes_three: "lengthBytes 3 = [3]"
  by (subst lengthBytes.simps) (simp add: Let_def)

lemma two_byte_packet:
  assumes "link nt incoming sent" and "0 \<le> sint timeout" and "length (buffer m) = 150"
    and "incoming (world m) = [h, 2, a, b] @ rest"
  shows "\<exists>n'. readFullPacket nt 150 timeout m = Some (4, m\<lparr>world := n', buffer := splice (buffer m) 0 [h, 2, a, b]\<rparr>) \<and>
    incoming n' = rest \<and> sent n' = sent (world m)"
  using link.readFullPacket_exact [OF assms(1), of m h 2 "[a, b]" rest timeout] assms
  by (simp add: lengthBytes_two)

text \<open>
  C18. A message is published with quality of service 1 by sending exactly the PUBLISH
  packet with the current packet id; the broker's acknowledgement is accepted if and only
  if it is for that id, and the id counter moves on.
\<close>

theorem publish_acknowledged:
  assumes "link nt incoming sent" and "length (buffer m) = 150"
    and "incoming (world m) = pubackPacket pid @ rest" and "q > 0"
    and "publishSize tpc data q \<le> 147"
  defines "P \<equiv> publishPacket tpc data (of_nat (length data)) q (packet_id_counter m)"
  shows "\<exists>m'. publish nt tpc data (of_nat (length data)) q m = Some (pid = packet_id_counter m, m') \<and>
    sent (world m') = sent (world m) @ P \<and> incoming (world m') = rest \<and>
    packet_id_counter m' = packet_id_counter m + 1"
proof -
  have "length (lengthBytes (of_nat (publishSize tpc data q))) \<le> 2"
    using assms(5) by (simp add: length_lengthBytes word_less_nat_alt unat_of_nat_small)
  then have P: "length P \<le> 150" "P \<noteq> []"
    using publishPacket_bytes [of tpc data q "packet_id_counter m"] assms(5)
    by (auto simp: P_def publishSize_def idBytes_def split: if_splits)
  define m1 where "m1 = m\<lparr>buffer := splice (buffer m) 0 P, packet_id_counter := packet_id_counter m + 1\<rparr>"
  have st: "storeBytes 0 P (m\<lparr>packet_id_counter := packet_id_counter m + 1\<rparr>) = m1"
    using P assms(2) by (simp add: storeBytes_def m1_def)
  have u: "unat (strlen16 P) = length P" using P by (simp add: strlen16_def unat_of_nat_small)
  have t: "take (length P) (buffer m1) = P" by (simp add: m1_def splice_def)
  have l: "length (buffer m1) = 150" using P assms(2) by (simp add: m1_def)
  obtain n1 where n1: "sendPacket nt (buffer m1) (strlen16 P) m1 = (True, m1\<lparr>world := n1\<rparr>)"
      "incoming n1 = pubackPacket pid @ rest" "sent n1 = sent (world m) @ P"
    using link.sendPacket_all [OF assms(1), of "strlen16 P" "buffer m1" m1] P assms(3) l
    unfolding u t by (auto simp: m1_def)
  define m2 where "m2 = m1\<lparr>world := n1\<rparr>"
  obtain n2 where n2: "readFullPacket nt 150 500 m2 = Some (4, m2\<lparr>world := n2, buffer := splice (buffer m2) 0 (pubackPacket pid)\<rparr>)"
      "incoming n2 = rest" "sent n2 = sent (world m) @ P"
    using two_byte_packet [OF assms(1), of 500 m2] n1 l by (auto simp: m2_def pubackPacket_def)
  define m3 where "m3 = m2\<lparr>world := n2, buffer := splice (buffer m2) 0 (pubackPacket pid)\<rparr>"
  have b: "drop_bit 4 (buffer m3 ! 0) = 4" "push_bit 8 (ucast (buffer m3 ! 2)) OR ucast (buffer m3 ! 3) = pid"
    using join_bytes [of pid] by (simp_all add: m3_def splice_def pubackPacket_def)
  have "publish nt tpc data (of_nat (length data)) q m = Some (pid + 1 = packet_id_counter m3, m3)"
    using assms(4) n1(1) n2(1) b unfolding publish_def P_def [symmetric] Let_def
    by (simp add: st m2_def [symmetric] m3_def [symmetric])
  then show ?thesis using n2 by (simp add: m3_def m2_def m1_def)
qed

lemma publish_acknowledged_witness:
  "\<exists>m'. publish stream_net [0x6C] [0x4F, 0x4E] 2 1 (example_client (pubackPacket 0)) = Some (True, m')"
  using publish_acknowledged [OF stream.link_axioms, of "example_client (pubackPacket 0)" 0 "[]" 1 "[0x6C]" "[0x4F, 0x4E]"]
  by (auto simp: example_client_def mqtt_new_def publishSize_def)

section \<open>The table of subscriptions\<close>

text \<open>
  The table of subscriptions never holds an object twice: subscribe keeps that, adds
  the object and nothing else, and refuses only when the table is full without it.
\<close>

theorem subscribe_keeps_table:
  assumes "subscribe s m = (ok, m')" and "distinct (filter (\<lambda>x. x \<noteq> None) (subscriptions m))"
  shows "distinct (filter (\<lambda>x. x \<noteq> None) (subscriptions m')) \<and>
    length (subscriptions m') = length (subscriptions m) \<and>
    set (subscriptions m') - {None} = set (subscriptions m) - {None} \<union> (if ok then {Some s} else {}) \<and>
    (ok \<longleftrightarrow> Some s \<in> set (subscriptions m) \<or> None \<in> set (subscriptions m))"
proof (cases "findSlot (\<lambda>x. x = Some s) (subscriptions m) 0")
  case (Some i)
  then have "Some s \<in> set (subscriptions m)" using findSlot_Some [OF Some] by (simp add: in_set_conv_nth) (metis)
  then show ?thesis using assms Some by (auto simp: subscribe_def)
next
  case new: None
  then have s: "Some s \<notin> set (subscriptions m)" by (auto simp: findSlot_None)
  show ?thesis
  proof (cases "findSlot (\<lambda>x. x = None) (subscriptions m) 0")
    case None
    then have "None \<notin> set (subscriptions m)" by (auto simp: findSlot_None)
    moreover have "m' = m" "\<not> ok" using assms(1) new None by (simp_all add: subscribe_def)
    ultimately show ?thesis using assms(2) s by auto
  next
    case (Some i)
    then have i: "i < length (subscriptions m)" "subscriptions m ! i = None"
      using findSlot_Some [OF Some] by simp_all
    define as bs where "as = take i (subscriptions m)" and "bs = drop (Suc i) (subscriptions m)"
    have "subscriptions m = as @ None # bs" "(subscriptions m)[i := Some s] = as @ Some s # bs"
      using id_take_nth_drop [OF i(1)] i by (simp_all add: as_def bs_def upd_conv_take_nth_drop)
    moreover have "m' = m\<lparr>subscriptions := (subscriptions m)[i := Some s]\<rparr>" "ok"
      using assms(1) new Some by (simp_all add: subscribe_def)
    ultimately show ?thesis using assms(2) s by auto
  qed
qed

lemma subscribe_keeps_table_witness:
  "distinct (filter (\<lambda>x. x \<noteq> None) (subscriptions (snd (subscribe 2 (example_client [])))))"
  using subscribe_keeps_table [of 2 "example_client []" "fst (subscribe 2 (example_client []))"
      "snd (subscribe 2 (example_client []))"]
  by (simp add: example_client_def)

section \<open>Connecting\<close>

text \<open>The acknowledgement of a subscription, with its packet id and granted quality of service.\<close>

definition suback :: "u16 \<times> u8 \<Rightarrow> u8 list" where
  "suback a = [0x90, 3] @ idBytes (fst a) @ [snd a]"

text \<open>What is sent for the subscriptions of a table, from a packet id on.\<close>

fun subscribePackets :: "(nat \<Rightarrow> subscription) \<Rightarrow> u16 \<Rightarrow> nat option list \<Rightarrow> u8 list" where
  "subscribePackets h n [] = []"
| "subscribePackets h n (None # xs) = subscribePackets h n xs"
| "subscribePackets h n (Some s # xs) = subscribePacket (topic (h s)) (sub_qos (h s)) n @ subscribePackets h (n + 1) xs"

lemma subscribePacket_short:
  assumes "length t \<le> 143"
  shows "subscribePacket t q n \<noteq> []" and "length (subscribePacket t q n) = 7 + length t"
  using assms stringprint_short [of t] by (simp_all add: subscribePacket_def fillLength_def idBytes_def)

context link
begin

lemma three_byte_packet:
  assumes "0 \<le> sint timeout" and "length (buffer m) = 150" and "incoming (world m) = suback a @ rest"
  shows "\<exists>n'. readFullPacket nt 150 timeout m = Some (5, m\<lparr>world := n', buffer := splice (buffer m) 0 (suback a)\<rparr>) \<and>
    incoming n' = rest \<and> sent n' = sent (world m)"
  using readFullPacket_exact [of m "0x90" 3 "idBytes (fst a) @ [snd a]" rest timeout] assms
  by (simp add: lengthBytes_three suback_def idBytes_def)

lemma resubscribe_all:
  assumes "length (buffer m) = 150" and "incoming (world m) = concat (map suback acks) @ rest"
    and "length acks = length (filter (\<lambda>x. x \<noteq> None) xs)"
    and "\<forall>s. Some s \<in> set xs \<longrightarrow> length (topic (heap m s)) \<le> 143"
  shows "\<exists>m'. resubscribe nt xs m = Some (0, m') \<and> incoming (world m') = rest \<and>
    sent (world m') = sent (world m) @ subscribePackets (heap m) (packet_id_counter m) xs \<and>
    heap m' = heap m \<and> subscriptions m' = subscriptions m"
  using assms
proof (induction xs arbitrary: m acks)
  case Nil
  then show ?case by simp
next
  case (Cons x xs)
  show ?case
  proof (cases x)
    case None
    then show ?thesis using Cons by auto
  next
    case (Some s)
    then obtain a acks' where acks: "acks = a # acks'" "length acks' = length (filter (\<lambda>x. x \<noteq> None) xs)"
      using Cons.prems(3) by (cases acks) auto
    define P where "P = subscribePacket (topic (heap m s)) (sub_qos (heap m s)) (packet_id_counter m)"
    have P: "P \<noteq> []" "length P \<le> 150"
      using subscribePacket_short [of "topic (heap m s)"] Cons.prems(4) Some by (simp_all add: P_def)
    define m1 where "m1 = m\<lparr>packet_id_counter := packet_id_counter m + 1\<rparr>"
    obtain n1 where n1: "sendNew8 nt P m1 = (True, m1\<lparr>world := n1, buffer := splice (buffer m1) 0 P\<rparr>)"
        "incoming n1 = incoming (world m)" "sent n1 = sent (world m) @ P"
      using sendNew8_packet [OF P, of m1] Cons.prems(1) by (auto simp: m1_def)
    define m2 where "m2 = m1\<lparr>world := n1, buffer := splice (buffer m1) 0 P\<rparr>"
    have m2: "length (buffer m2) = 150" "incoming (world m2) = suback a @ concat (map suback acks') @ rest"
      using n1 P Cons.prems(1,2) acks by (simp_all add: m2_def m1_def)
    obtain n2 where n2: "readFullPacket nt 150 500 m2 = Some (5, m2\<lparr>world := n2, buffer := splice (buffer m2) 0 (suback a)\<rparr>)"
        "incoming n2 = concat (map suback acks') @ rest" "sent n2 = sent (world m) @ P"
      using three_byte_packet [OF _ m2, of 500] n1 by (auto simp: m2_def)
    define m3 where "m3 = m2\<lparr>world := n2, buffer := splice (buffer m2) 0 (suback a)\<rparr>"
    have b: "drop_bit 4 (buffer m3 ! 0) = 9" by (simp add: m3_def splice_def suback_def)
    have m3: "length (buffer m3) = 150" "heap m3 = heap m" "subscriptions m3 = subscriptions m"
        "packet_id_counter m3 = packet_id_counter m + 1"
      using m2(1) by (simp_all add: m3_def m2_def m1_def suback_def idBytes_def)
    have "processPacketsUntil nt 9 500 m2 = Some (5, m3)"
      using n2(1) b by (subst processPacketsUntil.simps) (simp add: m3_def [symmetric])
    then have "subscribeLoop nt s 3 m = Some (Acknowledged, m3)"
      using n1(1) by (simp add: numeral_3_eq_3 m1_def [symmetric] m2_def [symmetric] P_def [symmetric])
    then have "resubscribe nt (x # xs) m = resubscribe nt xs m3" using Some by simp
    moreover obtain m' where "resubscribe nt xs m3 = Some (0, m')" "incoming (world m') = rest"
        "sent (world m') = sent (world m3) @ subscribePackets (heap m3) (packet_id_counter m3) xs"
        "heap m' = heap m3" "subscriptions m' = subscriptions m3"
      using Cons.IH [OF m3(1), of acks'] n2(2) acks(2) Cons.prems(4) m3(2) by (auto simp: m3_def)
    ultimately show ?thesis using m3 n2(3) Some by (simp add: P_def [symmetric]) (simp add: m3_def)
  qed
qed

end


text \<open>
  C17. Connecting to a broker that accepts the client and acknowledges its subscriptions:
  connect returns 0 after sending exactly the CONNECT packet and one SUBSCRIBE packet for
  each object of the table, in the order of the table and with consecutive packet ids.
\<close>

theorem connect_resubscribes:
  assumes "link nt incoming sent" and "length (servername m) < 150"
    and "length (connectPacket (clientid m) (username m) (password m) (mwill m)) \<le> 150"
    and "\<forall>s. Some s \<in> set (subscriptions m) \<longrightarrow> length (topic (heap m s)) \<le> 143"
    and "incoming (world m) = [0x20, 2, session, 0] @ concat (map suback acks) @ rest"
    and "length acks = length (filter (\<lambda>x. x \<noteq> None) (subscriptions m))"
  shows "\<exists>m'. connect nt m = Some (0, m') \<and> incoming (world m') = rest \<and>
    sent (world m') = sent (world m) @ connectPacket (clientid m) (username m) (password m) (mwill m) @
      subscribePackets (heap m) (packet_id_counter m) (subscriptions m)"
proof -
  define P where "P = connectPacket (clientid m) (username m) (password m) (mwill m)"
  have P: "P \<noteq> []" "length P \<le> 150" using assms(3) by (simp_all add: P_def connectPacket_def fillLength_def)
  obtain n1 where n1: "client_connect nt (servername m) (portnum m) (world m) = (True, n1)"
      "incoming n1 = incoming (world m)" "sent n1 = sent (world m)"
    using link.connect_law [OF assms(1)] by metis
  define m1 where "m1 = m\<lparr>world := n1, buffer := splice (replicate 150 0) 0 (servername m @ [0])\<rparr>"
  have c: "connectServer nt m = (True, m1)"
    using n1(1) assms(2) by (simp add: connectServer_def storeBytes_def m1_def)
  have m1: "length (buffer m1) = 150" "heap m1 = heap m" "subscriptions m1 = subscriptions m"
      "packet_id_counter m1 = packet_id_counter m" "connectPacket (clientid m1) (username m1) (password m1) (mwill m1) = P"
    using assms(2) by (simp_all add: m1_def P_def)
  obtain n2 where n2: "sendNew8 nt P m1 = (True, m1\<lparr>world := n2, buffer := splice (buffer m1) 0 P\<rparr>)"
      "incoming n2 = incoming (world m)" "sent n2 = sent (world m) @ P"
    using link.sendNew8_packet [OF assms(1) P, of m1] m1(1) n1 by (auto simp: m1_def)
  define m2 where "m2 = m1\<lparr>world := n2, buffer := splice (buffer m1) 0 P\<rparr>"
  have m2: "length (buffer m2) = 150" using P m1 by (simp add: m2_def)
  obtain n3 where n3: "readFullPacket nt 150 6000 m2 =
      Some (4, m2\<lparr>world := n3, buffer := splice (buffer m2) 0 [0x20, 2, session, 0]\<rparr>)"
      "incoming n3 = concat (map suback acks) @ rest" "sent n3 = sent (world m) @ P"
    using two_byte_packet [OF assms(1), of 6000 m2 "0x20" session 0] n2 assms(5) m2 by (auto simp: m2_def)
  define m3 where "m3 = m2\<lparr>world := n3, buffer := splice (buffer m2) 0 [0x20, 2, session, 0]\<rparr>"
  have b: "buffer m3 ! 0 = 0x20" "buffer m3 ! Suc 0 = 2" "buffer m3 ! 3 = 0" by (simp_all add: m3_def splice_def)
  have m3: "length (buffer m3) = 150" "heap m3 = heap m" "subscriptions m3 = subscriptions m"
      "packet_id_counter m3 = packet_id_counter m" "incoming (world m3) = concat (map suback acks) @ rest"
      "sent (world m3) = sent (world m) @ P"
    using m2 m1 n3 by (simp_all add: m3_def m2_def)
  have "connect nt m = resubscribe nt (subscriptions m) m3"
    using n2(1) n3(1) b m3(3) unfolding connect_def c
    by (simp add: m1(5) m2_def [symmetric] m3_def [symmetric])
  then show ?thesis
    using link.resubscribe_all [OF assms(1) m3(1,5), of "subscriptions m"] m3 assms(4,6)
    by (auto simp: P_def)
qed

lemma connect_resubscribes_witness:
  "\<exists>m'. connect stream_net (example_client ([0x20, 2, 0, 0] @ suback (0, 1) @ suback (1, 1))) = Some (0, m') \<and>
      inbox (world m') = []"
  using connect_resubscribes [OF stream.link_axioms,
      of "example_client ([0x20, 2, 0, 0] @ suback (0, 1) @ suback (1, 1))" 0 "[(0, 1), (1, 1)]" "[]"]
  by (auto simp: example_client_def mqtt_new_def subscription_new_def connectPacket_def fillLength_def
      stringprint_def strlen16_def has_will_def)

section \<open>Packets without a body\<close>

text \<open>
  C35. A packet whose remaining length is zero, such as the answer to a ping, is read together
  with everything that has arrived behind it: the messages there are lost, and with more
  than 148 bytes they are written behind the end of the packet buffer.
\<close>

theorem empty_packet_swallows_rest:
  assumes "link nt incoming sent" and "0 \<le> sint timeout" and "length (buffer m) = 150"
    and "incoming (world m) = [h, 0] @ rest" and "rest \<noteq> []" and "length rest < 65536"
  shows "\<exists>m'. readFullPacket nt 150 timeout m = Some (2 + ucast (of_nat (length rest) :: u8), m') \<and>
    incoming (world m') = [] \<and> (overrun m' \<longleftrightarrow> overrun m \<or> 148 < length rest)"
proof -
  obtain n1 where n1: "readPacket nt 0 1 timeout m = Some (1, m\<lparr>world := n1, buffer := splice (buffer m) 0 [h]\<rparr>)"
      "incoming n1 = 0 # rest"
    using link.readPacket_exact [OF assms(1), of m "[h]" "0 # rest" 1 timeout 0] assms(2-4) by auto
  define m1 where "m1 = m\<lparr>world := n1, buffer := splice (buffer m) 0 [h]\<rparr>"
  have zero: "lengthBytes 0 = [0]" by (subst lengthBytes.simps) (simp add: Let_def)
  obtain n2 where n2: "lengthLoop nt timeout 1 0 1 m1 =
      Some (Some (2, 0), m1\<lparr>world := n2, buffer := splice (buffer m1) 1 [0]\<rparr>)" "incoming n2 = rest"
    using link.lengthLoop_decodes [OF assms(1), of m1 0 rest timeout 1 1 0] assms(2,3) n1
    by (auto simp: m1_def zero numeral_2_eq_2)
  define m2 where "m2 = m1\<lparr>world := n2, buffer := splice (buffer m1) 1 [0]\<rparr>"
  have m2: "length (buffer m2) = 150" "overrun m2 = overrun m" using assms(3) by (simp_all add: m2_def m1_def)
  obtain n3 where n3: "receive nt 0 timeout timeout [] n2 = Some (rest, n3)" "incoming n3 = []"
    using link.receive_unlimited [OF assms(1) n2(2) assms(6,5,2)] by metis
  have "readPacket nt 2 0 timeout m2 = Some (of_nat (length rest), storeBytes 2 rest (m2\<lparr>world := n3\<rparr>))"
    using n3 by (simp add: readPacket_def m2_def)
  moreover have "(ucast (of_nat (length rest) :: u16) :: u8) = of_nat (length rest)"
    by (simp add: word_unat_eq_iff unat_ucast_mod unat_of_nat take_bit_eq_mod mod_mod_cancel)
  ultimately have "readFullPacket nt 150 timeout m =
      Some (2 + ucast (of_nat (length rest) :: u8), storeBytes 2 rest (m2\<lparr>world := n3\<rparr>))"
    using n2(1) [folded m2_def] unfolding readFullPacket_def n1(1) m1_def [symmetric] by simp
  then show ?thesis
    using m2 n3 by (auto simp: storeBytes_def)
qed

lemma empty_packet_swallows_rest_witness:
  "\<exists>m'. readFullPacket stream_net 150 500 (example_client ([0xD0, 0] @ replicate 200 7)) = Some (202, m') \<and>
      overrun m'"
  using empty_packet_swallows_rest [OF stream.link_axioms, of 500
      "example_client ([0xD0, 0] @ replicate 200 7)" "0xD0" "replicate 200 7"]
  by (auto simp: example_client_def mqtt_new_def)


section \<open>Unsubscribing\<close>

text \<open>
  Unsubscribing from a topic of quality of service 1 or 2 fails although the broker
  acknowledges it: the acknowledgement has four bytes and unsubscribe expects five.  The
  subscription stays in the table, while the broker has dropped it.
\<close>

theorem unsubscribe_refuses_unsuback:
  assumes "link nt incoming sent" and "length (buffer m) = 150"
    and "Some s \<in> set (subscriptions m)" and "sub_qos (heap m s) > 0" and "length (topic (heap m s)) \<le> 143"
    and "incoming (world m) = [0xB0, 2] @ idBytes (packet_id_counter m) @ rest"
  shows "\<exists>m'. unsubscribe nt s m = Some (False, m') \<and> subscriptions m' = subscriptions m \<and>
    sent (world m') = sent (world m) @ unsubscribePacket (topic (heap m s)) (packet_id_counter m) \<and>
    incoming (world m') = rest"
proof -
  define P where "P = unsubscribePacket (topic (heap m s)) (packet_id_counter m)"
  have P: "P \<noteq> []" "length P \<le> 150"
    using assms(5) stringprint_short [of "topic (heap m s)"]
    by (simp_all add: P_def unsubscribePacket_def fillLength_def idBytes_def)
  obtain i where i: "findSlot (\<lambda>x. x = Some s) (subscriptions m) 0 = Some i"
    using findSlot_None [of "\<lambda>x. x = Some s" "subscriptions m" 0] assms(3) by blast
  define m1 where "m1 = m\<lparr>packet_id_counter := packet_id_counter m + 1\<rparr>"
  obtain n1 where n1: "sendNew8 nt P m1 = (True, m1\<lparr>world := n1, buffer := splice (buffer m1) 0 P\<rparr>)"
      "incoming n1 = incoming (world m)" "sent n1 = sent (world m) @ P"
    using link.sendNew8_packet [OF assms(1) P, of m1] assms(2) by (auto simp: m1_def)
  define m2 where "m2 = m1\<lparr>world := n1, buffer := splice (buffer m1) 0 P\<rparr>"
  have m2: "length (buffer m2) = 150" using P assms(2) by (simp add: m2_def m1_def)
  obtain m3 where m3: "readFullPacket nt 150 6000 m2 = Some (4, m3)" "subscriptions m3 = subscriptions m"
      "incoming (world m3) = rest" "sent (world m3) = sent (world m) @ P"
    using two_byte_packet [OF assms(1), of 6000 m2 "0xB0" _ _ rest] n1 assms(6) m2
    by (auto simp: m2_def m1_def idBytes_def)
  have "unsubscribe nt s m = Some (False, m3)"
    using n1(1) [folded m2_def] m3(1) assms(4) unfolding unsubscribe_def i
    by (simp add: Let_def P_def [symmetric] m1_def [symmetric]) (simp add: m2_def m1_def)
  then show ?thesis using m3 by (simp add: P_def)
qed

lemma unsubscribe_refuses_unsuback_witness:
  "\<exists>m'. unsubscribe stream_net 0 (example_client [0xB0, 2, 0, 0]) = Some (False, m')"
  using unsubscribe_refuses_unsuback [OF stream.link_axioms, of "example_client [0xB0, 2, 0, 0]" 0 "[]"]
  by (auto simp: example_client_def mqtt_new_def subscription_new_def idBytes_def)

section \<open>A silent broker\<close>

text \<open>
  Waiting for a message ends: when nothing arrives, readSubscription returns after the
  time out without a subscription, and the subscriptions are as before.
\<close>

theorem silent_broker_times_out:
  assumes "link nt incoming sent" and "incoming (world m) = []"
  shows "\<exists>m'. readSubscription nt timeout m = Some (None, m') \<and> heap m' = heap m \<and>
    subscriptions m' = subscriptions m \<and> sent (world m') = sent (world m)"
proof -
  obtain n' where "receive nt 1 timeout timeout [] (world m) = Some ([], n')" "sent n' = sent (world m)"
    using link.receive_idle [OF assms, of 1 timeout timeout "[]"] by auto
  then show ?thesis
    by (simp add: readSubscription_def readFullPacket_def readPacket_def storeBytes_def)
qed

lemma silent_broker_times_out_witness:
  "\<exists>m'. readSubscription stream_net 100 (example_client []) = Some (None, m')"
  using silent_broker_times_out [OF stream.link_axioms, of "example_client []" 100]
  by (auto simp: example_client_def mqtt_new_def)

end
