(* ===== verification/SdFile.thy ===== *)
theory SdFile
  imports SdPrint
begin

text \<open>
  SdFile of SD/src/utility/SdFat.h and SdFile.cpp: files and directories.  An SdFile
  object is a record; a method takes the object and the state of the volume and
  returns its result with both updated.  A method with a second SdFile argument (the
  directory) returns that one too.  There is one volume, so the pointer \<open>vol_\<close> has no
  field.  The fields that the constructor leaves unset are zero here: nothing reads
  them before an open sets them.  A loop that a corrupt table can keep from ending
  makes the method partial (\<open>None\<close>: it does not return).
\<close>

section \<open>State\<close>

datatype file_type = CLOSED | NORMAL | ROOT16 | ROOT32 | SUBDIR

fun type_code :: "file_type \<Rightarrow> u8" where
  "type_code CLOSED = 0"
| "type_code NORMAL = 1"
| "type_code ROOT16 = 2"
| "type_code ROOT32 = 3"
| "type_code SUBDIR = 4"

definition FAT_FILE_TYPE_MIN_DIR :: u8 where [simp]: "FAT_FILE_TYPE_MIN_DIR = type_code ROOT16"

record sdfile =
  flags :: u8
  ftype :: file_type
  curCluster :: u32
  curPosition :: u32
  dirBlock :: u32
  dirIndex :: u8
  fileSize :: u32
  firstCluster :: u32
  writeError :: bool

definition sdfile_new :: sdfile where
  "sdfile_new =
     \<lparr> flags = 0, ftype = CLOSED, curCluster = 0, curPosition = 0, dirBlock = 0, dirIndex = 0,
       fileSize = 0, firstCluster = 0, writeError = False \<rparr>"

definition LS_DATE :: u8 where [simp]: "LS_DATE = 1"
definition LS_SIZE :: u8 where [simp]: "LS_SIZE = 2"
definition LS_R :: u8 where [simp]: "LS_R = 4"

definition O_READ :: u8 where [simp]: "O_READ = 0x01"
definition O_WRITE :: u8 where [simp]: "O_WRITE = 0x02"
definition O_RDWR :: u8 where [simp]: "O_RDWR = O_READ OR O_WRITE"
definition O_ACCMODE :: u8 where [simp]: "O_ACCMODE = O_READ OR O_WRITE"
definition O_APPEND :: u8 where [simp]: "O_APPEND = 0x04"
definition O_SYNC :: u8 where [simp]: "O_SYNC = 0x08"
definition O_CREAT :: u8 where [simp]: "O_CREAT = 0x10"
definition O_EXCL :: u8 where [simp]: "O_EXCL = 0x20"
definition O_TRUNC :: u8 where [simp]: "O_TRUNC = 0x40"

definition T_ACCESS :: u8 where [simp]: "T_ACCESS = 1"
definition T_CREATE :: u8 where [simp]: "T_CREATE = 2"
definition T_WRITE :: u8 where [simp]: "T_WRITE = 4"

definition F_FILE_UNBUFFERED_READ :: u8 where [simp]: "F_FILE_UNBUFFERED_READ = 0x40"
definition F_FILE_DIR_DIRTY :: u8 where [simp]: "F_FILE_DIR_DIRTY = 0x80"

definition isDir :: "sdfile \<Rightarrow> bool" where
  "isDir f \<longleftrightarrow> type_code (ftype f) \<ge> FAT_FILE_TYPE_MIN_DIR"

definition isFile :: "sdfile \<Rightarrow> bool" where "isFile f \<longleftrightarrow> ftype f = NORMAL"
definition isOpen :: "sdfile \<Rightarrow> bool" where "isOpen f \<longleftrightarrow> ftype f \<noteq> CLOSED"
definition isSubDir :: "sdfile \<Rightarrow> bool" where "isSubDir f \<longleftrightarrow> ftype f = SUBDIR"

definition isRoot :: "sdfile \<Rightarrow> bool" where
  "isRoot f \<longleftrightarrow> ftype f = ROOT16 \<or> ftype f = ROOT32"

definition setUnbufferedRead :: "sdfile \<Rightarrow> sdfile" where
  "setUnbufferedRead f =
     (if isFile f then f\<lparr>flags := flags f OR F_FILE_UNBUFFERED_READ\<rparr> else f)"

definition clearUnbufferedRead :: "sdfile \<Rightarrow> sdfile" where
  "clearUnbufferedRead f = f\<lparr>flags := flags f AND NOT F_FILE_UNBUFFERED_READ\<rparr>"

definition unbufferedRead :: "sdfile \<Rightarrow> bool" where
  "unbufferedRead f \<longleftrightarrow> flags f AND F_FILE_UNBUFFERED_READ \<noteq> 0"

definition dateTimeCallback :: "(nat \<Rightarrow> u16 \<times> u16) \<Rightarrow> 'c fs \<Rightarrow> 'c fs" where
  "dateTimeCallback cb s = s\<lparr>dateTime := Some cb\<rparr>"

definition dateTimeCallbackCancel :: "'c fs \<Rightarrow> 'c fs" where
  "dateTimeCallbackCancel s = s\<lparr>dateTime := None\<rparr>"

definition rewind :: "sdfile \<Rightarrow> sdfile" where
  "rewind f = f\<lparr>curPosition := 0, curCluster := 0\<rparr>"

section \<open>Allocation\<close>

definition addCluster :: "'c card_ops \<Rightarrow> sdfile \<Rightarrow> 'c fs \<Rightarrow> bool \<times> sdfile \<times> 'c fs" where
  "addCluster ops f s =
     (case allocContiguous ops 1 (curCluster f) s of
        (None, s) \<Rightarrow> (False, f, s)
      | (Some c, s) \<Rightarrow>
          let f = f\<lparr>curCluster := c\<rparr> in
          (True,
           if firstCluster f = 0
           then f\<lparr>firstCluster := curCluster f, flags := flags f OR F_FILE_DIR_DIRTY\<rparr> else f,
           s))"

text \<open>The loop \<open>for (i = n; i != 0; i--)\<close> that zeroes the blocks of a cluster, the last first.\<close>

fun zeroBlocks :: "'c card_ops \<Rightarrow> u32 \<Rightarrow> nat \<Rightarrow> 'c fs \<Rightarrow> bool \<times> 'c fs" where
  "zeroBlocks ops block 0 s = (True, s)"
| "zeroBlocks ops block (Suc i) s =
     seqOk (cacheZeroBlock ops (block + of_nat (Suc i) - 1) s) (zeroBlocks ops block i)"

definition addDirCluster :: "'c card_ops \<Rightarrow> sdfile \<Rightarrow> 'c fs \<Rightarrow> bool \<times> sdfile \<times> 'c fs" where
  "addDirCluster ops f s =
     (case addCluster ops f s of
        (False, f, s) \<Rightarrow> (False, f, s)
      | (True, f, s) \<Rightarrow>
          case zeroBlocks ops (clusterStartBlock (vol s) (curCluster f))
                 (unat (blocksPerCluster (vol s))) s of
            (False, s) \<Rightarrow> (False, f, s)
          | (True, s) \<Rightarrow>
              (True,
               f\<lparr>fileSize := fileSize f + push_bit (unat (clusterSizeShift (vol s))) 512\<rparr>, s))"

section \<open>Directory entries in the cache\<close>

definition cacheDirEntry :: "'c card_ops \<Rightarrow> bool \<Rightarrow> sdfile \<Rightarrow> 'c fs \<Rightarrow> bool \<times> 'c fs" where
  "cacheDirEntry ops action f s = cacheRawBlock ops (dirBlock f) action s"

text \<open>The entry that a pointer into the cached block refers to, and storing it there.\<close>

definition cachedDir :: "'c fs \<Rightarrow> u8 \<Rightarrow> dir_t" where
  "cachedDir s i = dir_at (cacheBuffer s) (unat i)"

definition storeDir :: "u8 \<Rightarrow> dir_t \<Rightarrow> 'c fs \<Rightarrow> 'c fs" where
  "storeDir i d s = s\<lparr>cacheBuffer := put_dir (cacheBuffer s) (unat i) d\<rparr>"

text \<open>One call of the user's date and time function.\<close>

definition callDateTime :: "(nat \<Rightarrow> u16 \<times> u16) \<Rightarrow> 'c fs \<Rightarrow> (u16 \<times> u16) \<times> 'c fs" where
  "callDateTime cb s = (cb (dateCalls s), s\<lparr>dateCalls := dateCalls s + 1\<rparr>)"

definition sync :: "'c card_ops \<Rightarrow> sdfile \<Rightarrow> 'c fs \<Rightarrow> bool \<times> sdfile \<times> 'c fs" where
  "sync ops f s =
     (if \<not> isOpen f then (False, f, s)
      else
        case (if flags f AND F_FILE_DIR_DIRTY \<noteq> 0 then
                case cacheDirEntry ops CACHE_FOR_WRITE f s of
                  (False, s) \<Rightarrow> (False, f, s)
                | (True, s) \<Rightarrow>
                    let d = cachedDir s (dirIndex f);
                        d = (if \<not> isDir f then d\<lparr>dir_fileSize := fileSize f\<rparr> else d);
                        d = d\<lparr>firstClusterLow := ucast (firstCluster f AND 0xFFFF),
                              firstClusterHigh := ucast (drop_bit 16 (firstCluster f))\<rparr>;
                        (d, s) = (case dateTime s of
                                    None \<Rightarrow> (d, s)
                                  | Some cb \<Rightarrow>
                                      case callDateTime cb s of ((date, time), s) \<Rightarrow>
                                        (d\<lparr>lastWriteDate := date, lastWriteTime := time,
                                           lastAccessDate := date\<rparr>, s))
                    in (True, f\<lparr>flags := flags f AND NOT F_FILE_DIR_DIRTY\<rparr>,
                        storeDir (dirIndex f) d s)
              else (True, f, s)) of
          (False, f, s) \<Rightarrow> (False, f, s)
        | (True, f, s) \<Rightarrow> (case cacheFlush ops s of (ok, s) \<Rightarrow> (ok, f, s)))"

definition close :: "'c card_ops \<Rightarrow> sdfile \<Rightarrow> 'c fs \<Rightarrow> bool \<times> sdfile \<times> 'c fs" where
  "close ops f s =
     (case sync ops f s of
        (False, f, s) \<Rightarrow> (False, f, s)
      | (True, f, s) \<Rightarrow> (True, f\<lparr>ftype := CLOSED\<rparr>, s))"

definition dirEntry :: "'c card_ops \<Rightarrow> sdfile \<Rightarrow> 'c fs \<Rightarrow> dir_t option \<times> sdfile \<times> 'c fs" where
  "dirEntry ops f s =
     (case sync ops f s of
        (False, f, s) \<Rightarrow> (None, f, s)
      | (True, f, s) \<Rightarrow>
          case cacheDirEntry ops CACHE_FOR_READ f s of
            (False, s) \<Rightarrow> (None, f, s)
          | (True, s) \<Rightarrow> (Some (cachedDir s (dirIndex f)), f, s))"

definition timestamp ::
  "'c card_ops \<Rightarrow> u8 \<Rightarrow> u16 \<Rightarrow> u8 \<Rightarrow> u8 \<Rightarrow> u8 \<Rightarrow> u8 \<Rightarrow> u8 \<Rightarrow> sdfile \<Rightarrow> 'c fs \<Rightarrow> bool \<times> sdfile \<times> 'c fs"
where
  "timestamp ops tflags year month day hour minute second f s =
     (if \<not> isOpen f \<or> year < 1980 \<or> year > 2107 \<or> month < 1 \<or> month > 12 \<or> day < 1 \<or> day > 31
         \<or> hour > 23 \<or> minute > 59 \<or> second > 59
      then (False, f, s)
      else
        case cacheDirEntry ops CACHE_FOR_WRITE f s of
          (False, s) \<Rightarrow> (False, f, s)
        | (True, s) \<Rightarrow>
            let d = cachedDir s (dirIndex f);
                dirDate = FAT_DATE year month day;
                dirTime = FAT_TIME hour minute second;
                d = (if tflags AND T_ACCESS \<noteq> 0 then d\<lparr>lastAccessDate := dirDate\<rparr> else d);
                d = (if tflags AND T_CREATE \<noteq> 0
                     then d\<lparr>creationDate := dirDate, creationTime := dirTime,
                            creationTimeTenths := (if second AND 1 \<noteq> 0 then 100 else 0)\<rparr>
                     else d);
                d = (if tflags AND T_WRITE \<noteq> 0
                     then d\<lparr>lastWriteDate := dirDate, lastWriteTime := dirTime\<rparr> else d)
            in sync ops f (cacheSetDirty (storeDir (dirIndex f) d s)))"

section \<open>Position\<close>

text \<open>
  The loop \<open>while (nNew--)\<close> of seekSet: follow the chain \<open>k\<close> times.  On a failure the
  cluster reached stays in \<open>curCluster_\<close>.
\<close>

fun seekLoop :: "'c card_ops \<Rightarrow> nat \<Rightarrow> u32 \<Rightarrow> 'c fs \<Rightarrow> bool \<times> u32 \<times> 'c fs" where
  "seekLoop ops 0 c s = (True, c, s)"
| "seekLoop ops (Suc k) c s =
     (case fatGet ops c s of
        (None, s) \<Rightarrow> (False, c, s)
      | (Some c, s) \<Rightarrow> seekLoop ops k c s)"

definition seekSet :: "'c card_ops \<Rightarrow> u32 \<Rightarrow> sdfile \<Rightarrow> 'c fs \<Rightarrow> bool \<times> sdfile \<times> 'c fs" where
  "seekSet ops pos f s =
     (if \<not> isOpen f \<or> pos > fileSize f then (False, f, s)
      else if ftype f = ROOT16 then (True, f\<lparr>curPosition := pos\<rparr>, s)
      else if pos = 0 then (True, f\<lparr>curCluster := 0, curPosition := 0\<rparr>, s)
      else
        let sh = unat (clusterSizeShift (vol s)) + 9;
            nCur = drop_bit sh (curPosition f - 1);
            nNew = drop_bit sh (pos - 1);
            (c, nNew) = (if nNew < nCur \<or> curPosition f = 0 then (firstCluster f, nNew)
                         else (curCluster f, nNew - nCur))
        in case seekLoop ops (unat nNew) c s of
             (False, c, s) \<Rightarrow> (False, f\<lparr>curCluster := c\<rparr>, s)
           | (True, c, s) \<Rightarrow> (True, f\<lparr>curCluster := c, curPosition := pos\<rparr>, s))"

definition seekCur :: "'c card_ops \<Rightarrow> u32 \<Rightarrow> sdfile \<Rightarrow> 'c fs \<Rightarrow> bool \<times> sdfile \<times> 'c fs" where
  "seekCur ops pos f s = seekSet ops (curPosition f + pos) f s"

definition seekEnd :: "'c card_ops \<Rightarrow> sdfile \<Rightarrow> 'c fs \<Rightarrow> bool \<times> sdfile \<times> 'c fs" where
  "seekEnd ops f s = seekSet ops (fileSize f) f s"


section \<open>Reading\<close>

text \<open>
  The block that holds the current position, for SdFile::read: a FAT16 root directory
  lies in consecutive blocks; elsewhere the first byte of a cluster moves
  \<open>curCluster_\<close> along the chain.
\<close>

definition readLocate :: "'c card_ops \<Rightarrow> sdfile \<Rightarrow> 'c fs \<Rightarrow> u32 option \<times> sdfile \<times> 'c fs" where
  "readLocate ops f s =
     (if ftype f = ROOT16 then (Some (rootDirStart (vol s) + drop_bit 9 (curPosition f)), f, s)
      else
        let boc = blockOfCluster (vol s) (curPosition f) in
        case (if curPosition f AND 0x1FF = 0 \<and> boc = 0 then
                if curPosition f = 0 then (True, f\<lparr>curCluster := firstCluster f\<rparr>, s)
                else case fatGet ops (curCluster f) s of
                       (None, s) \<Rightarrow> (False, f, s)
                     | (Some c, s) \<Rightarrow> (True, f\<lparr>curCluster := c\<rparr>, s)
              else (True, f, s)) of
          (False, f, s) \<Rightarrow> (None, f, s)
        | (True, f, s) \<Rightarrow>
            (Some (clusterStartBlock (vol s) (curCluster f) + ucast boc), f, s))"

text \<open>The bytes read from one block: directly into the buffer, or through the cache.\<close>

definition readChunk ::
  "'c card_ops \<Rightarrow> sdfile \<Rightarrow> u32 \<Rightarrow> u16 \<Rightarrow> u16 \<Rightarrow> 'c fs \<Rightarrow> u8 list option \<times> 'c fs" where
  "readChunk ops f block offset n s =
     (if (unbufferedRead f \<or> n = 512) \<and> block \<noteq> cacheBlockNumber s then
        case card_readData ops block offset n (card s) of (r, c) \<Rightarrow> (r, s\<lparr>card := c\<rparr>)
      else
        case cacheRawBlock ops block CACHE_FOR_READ s of
          (False, s) \<Rightarrow> (None, s)
        | (True, s) \<Rightarrow> (Some (slice (unat offset) (unat n) (cacheBuffer s)), s))"

text \<open>The amount taken from the current block: \<open>n\<close> bytes at \<open>offset\<close>.\<close>

definition chunkSize :: "u16 \<Rightarrow> u16 \<Rightarrow> u16" where
  "chunkSize todo offset = (if unat todo > 512 - unat offset then 512 - offset else todo)"

definition blockOffset :: "sdfile \<Rightarrow> u16" where
  "blockOffset f = ucast (curPosition f AND 0x1FF)"

lemma blockOffset_nat: "unat (blockOffset f) = unat (curPosition f) mod 512"
  by (simp add: blockOffset_def and_mask_take_bit unat_ucast_mod unat_take_bit_mod)

lemma chunkSize_nat:
  assumes "unat offset < 512"
  shows "unat (chunkSize todo offset) = min (unat todo) (512 - unat offset)"
  using assms unat_sub_small [of offset 512] by (auto simp: chunkSize_def)

text \<open>
  The loop of read: \<open>dst\<close> collects the bytes stored in the caller's buffer so far, which
  are there also when the loop fails.
\<close>

function readLoop ::
  "'c card_ops \<Rightarrow> u16 \<Rightarrow> u8 list \<Rightarrow> sdfile \<Rightarrow> 'c fs \<Rightarrow> bool \<times> u8 list \<times> sdfile \<times> 'c fs" where
  "readLoop ops toRead dst f s =
     (if toRead > 0 then
        let offset = blockOffset f in
        case readLocate ops f s of
          (None, f, s) \<Rightarrow> (False, dst, f, s)
        | (Some block, f, s) \<Rightarrow>
            let n = chunkSize toRead offset in
            case readChunk ops f block offset n s of
              (None, s) \<Rightarrow> (False, dst, f, s)
            | (Some bs, s) \<Rightarrow>
                readLoop ops (toRead - n) (dst @ bs)
                  (f\<lparr>curPosition := curPosition f + ucast n\<rparr>) s
      else (True, dst, f, s))"
  by pat_completeness auto
termination
proof (relation "measure (\<lambda>(ops, toRead, dst, f, s). unat toRead)", goal_cases)
  case 1
  show ?case by simp
next
  case (2 ops toRead dst f s offset)
  then have "unat (chunkSize toRead offset) = min (unat toRead) (512 - unat (blockOffset f))"
    and "unat (blockOffset f) < 512"
    using chunkSize_nat [of "blockOffset f"] by (simp_all add: blockOffset_nat)
  with 2 show ?case by (auto simp: word_less_nat_alt unat_sub_small)
qed

declare readLoop.simps [simp del]

text \<open>
  \<open>read(buf, nbyte)\<close>: the result is the number of bytes as an \<open>int16_t\<close>, \<open>-1\<close> on an
  error, next to the bytes stored in the buffer.
\<close>

type_synonym i16 = "16 word"

definition read :: "'c card_ops \<Rightarrow> u16 \<Rightarrow> sdfile \<Rightarrow> 'c fs \<Rightarrow> i16 \<times> u8 list \<times> sdfile \<times> 'c fs" where
  "read ops nbyte f s =
     (if \<not> isOpen f \<or> flags f AND O_READ = 0 then (-1, [], f, s)
      else
        let nbyte = (if (ucast nbyte :: u32) > fileSize f - curPosition f
                     then ucast (fileSize f - curPosition f) else nbyte)
        in case readLoop ops nbyte [] f s of
             (False, dst, f, s) \<Rightarrow> (-1, dst, f, s)
           | (True, dst, f, s) \<Rightarrow> (nbyte, dst, f, s))"

text \<open>\<open>read()\<close>: the next byte, or -1.\<close>

definition readByte :: "'c card_ops \<Rightarrow> sdfile \<Rightarrow> 'c fs \<Rightarrow> i16 \<times> sdfile \<times> 'c fs" where
  "readByte ops f s =
     (case read ops 1 f s of (r, dst, f, s) \<Rightarrow> (if r = 1 then ucast (dst ! 0) else -1, f, s))"

text \<open>The entry is named by its index in the cache; \<open>None\<close> is the null pointer.\<close>

definition readDirCache :: "'c card_ops \<Rightarrow> sdfile \<Rightarrow> 'c fs \<Rightarrow> u8 option \<times> sdfile \<times> 'c fs" where
  "readDirCache ops f s =
     (if \<not> isDir f then (None, f, s)
      else
        let i = ucast (drop_bit 5 (curPosition f) AND 0xF) in
        case readByte ops f s of (r, f, s) \<Rightarrow>
          if sint r < 0 then (None, f, s)
          else (Some i, f\<lparr>curPosition := curPosition f + 31\<rparr>, s))"

partial_function (option) readDirLoop ::
  "'c card_ops \<Rightarrow> sdfile \<Rightarrow> 'c fs \<Rightarrow> (8 word \<times> u8 list \<times> sdfile \<times> 'c fs) option" where
  "readDirLoop ops f s =
     (case read ops 32 f s of (r, bs, f, s) \<Rightarrow>
        let n = ucast r; d = dir_of_bytes bs in
        if n = 32 then
          if dname d ! 0 = DIR_NAME_FREE then Some (0, bs, f, s)
          else if dname d ! 0 = DIR_NAME_DELETED \<or> dname d ! 0 = 0x2E
          then readDirLoop ops f s
          else if DIR_IS_FILE_OR_SUBDIR d then Some (n, bs, f, s)
          else readDirLoop ops f s
        else Some (if sint n < 0 then -1 else 0, bs, f, s))"

definition readDir ::
  "'c card_ops \<Rightarrow> sdfile \<Rightarrow> 'c fs \<Rightarrow> (8 word \<times> u8 list \<times> sdfile \<times> 'c fs) option" where
  "readDir ops f s =
     (if \<not> isDir f \<or> 0x1F AND curPosition f \<noteq> 0 then Some (-1, [], f, s)
      else readDirLoop ops f s)"


section \<open>Writing\<close>

definition setWriteError :: "sdfile \<Rightarrow> sdfile" where
  "setWriteError f = f\<lparr>writeError := True\<rparr>"

text \<open>
  How the body of the write loop ends: at the label \<open>writeErrorReturn\<close>, by the
  \<open>return false\<close> in its middle, or at the end of the round.
\<close>

datatype write_exit = WriteErrorReturn | ReturnFalse | NextRound

text \<open>The start of a cluster: take the first, the next, or a new one.\<close>

definition writeLocate ::
  "'c card_ops \<Rightarrow> sdfile \<Rightarrow> 'c fs \<Rightarrow> write_exit \<times> sdfile \<times> 'c fs" where
  "writeLocate ops f s =
     (if curCluster f = 0 then
        if firstCluster f = 0 then
          case addCluster ops f s of (ok, f, s) \<Rightarrow>
            (if ok then NextRound else WriteErrorReturn, f, s)
        else (NextRound, f\<lparr>curCluster := firstCluster f\<rparr>, s)
      else
        case fatGet ops (curCluster f) s of
          (None, s) \<Rightarrow> (ReturnFalse, f, s)
        | (Some nxt, s) \<Rightarrow>
            if isEOC (vol s) nxt then
              case addCluster ops f s of (ok, f, s) \<Rightarrow>
                (if ok then NextRound else WriteErrorReturn, f, s)
            else (NextRound, f\<lparr>curCluster := nxt\<rparr>, s))"

text \<open>Store \<open>n\<close> bytes of \<open>src\<close> in a block: past the cache when they fill it.\<close>

definition writeChunk ::
  "'c card_ops \<Rightarrow> sdfile \<Rightarrow> u32 \<Rightarrow> u16 \<Rightarrow> u16 \<Rightarrow> u8 list \<Rightarrow> 'c fs \<Rightarrow> bool \<times> 'c fs" where
  "writeChunk ops f block off n src s =
     (if n = 512 then
        let s = (if cacheBlockNumber s = block then s\<lparr>cacheBlockNumber := 0xFFFFFFFF\<rparr> else s)
        in case card_writeBlock ops block (take 512 src) (card s) of (ok, c) \<Rightarrow>
             (ok, s\<lparr>card := c\<rparr>)
      else
        seqOk
          (if off = 0 \<and> curPosition f \<ge> fileSize f then
             seqOk (cacheFlush ops s) (\<lambda>s.
               (True, cacheSetDirty (s\<lparr>cacheBlockNumber := block\<rparr>)))
           else cacheRawBlock ops block CACHE_FOR_WRITE s)
          (\<lambda>s. (True, s\<lparr>cacheBuffer :=
             splice (cacheBuffer s) (unat off) (take (unat n) src)\<rparr>)))"

function writeLoop ::
  "'c card_ops \<Rightarrow> u8 list \<Rightarrow> u16 \<Rightarrow> sdfile \<Rightarrow> 'c fs \<Rightarrow> write_exit \<times> sdfile \<times> 'c fs" where
  "writeLoop ops src nToWrite f s =
     (if nToWrite > 0 then
        let boc = blockOfCluster (vol s) (curPosition f); off = blockOffset f in
        case (if boc = 0 \<and> off = 0 then writeLocate ops f s else (NextRound, f, s)) of
          (NextRound, f, s) \<Rightarrow>
            let n = chunkSize nToWrite off;
                block = clusterStartBlock (vol s) (curCluster f) + ucast boc
            in (case writeChunk ops f block off n src s of
                  (False, s) \<Rightarrow> (WriteErrorReturn, f, s)
                | (True, s) \<Rightarrow>
                    writeLoop ops (drop (unat n) src) (nToWrite - n)
                      (f\<lparr>curPosition := curPosition f + ucast n\<rparr>) s)
        | r \<Rightarrow> r
      else (NextRound, f, s))"
  by pat_completeness auto
termination
proof (relation "measure (\<lambda>(ops, src, nToWrite, f, s). unat nToWrite)", goal_cases)
  case 1
  show ?case by simp
next
  case (2 ops src nToWrite f s boc off)
  then have "unat (chunkSize nToWrite off) = min (unat nToWrite) (512 - unat (blockOffset f))"
    and "unat (blockOffset f) < 512"
    using chunkSize_nat [of "blockOffset f"] by (simp_all add: blockOffset_nat)
  with 2 show ?case by (auto simp: word_less_nat_alt unat_sub_small)
qed

declare writeLoop.simps [simp del]

definition writeBytes :: "'c card_ops \<Rightarrow> u8 list \<Rightarrow> u16 \<Rightarrow> sdfile \<Rightarrow> 'c fs \<Rightarrow> u32 \<times> sdfile \<times> 'c fs" where
  "writeBytes ops src nbyte f s =
     (if \<not> isFile f \<or> flags f AND O_WRITE = 0 then (0, setWriteError f, s)
      else
        case (if flags f AND O_APPEND \<noteq> 0 \<and> curPosition f \<noteq> fileSize f
              then seekEnd ops f s else (True, f, s)) of
          (False, f, s) \<Rightarrow> (0, setWriteError f, s)
        | (True, f, s) \<Rightarrow>
            case writeLoop ops src nbyte f s of
              (WriteErrorReturn, f, s) \<Rightarrow> (0, setWriteError f, s)
            | (ReturnFalse, f, s) \<Rightarrow> (0, f, s)
            | (NextRound, f, s) \<Rightarrow>
                let f = (if curPosition f > fileSize f
                         then f\<lparr>fileSize := curPosition f, flags := flags f OR F_FILE_DIR_DIRTY\<rparr>
                         else if dateTime s \<noteq> None \<and> nbyte \<noteq> 0
                         then f\<lparr>flags := flags f OR F_FILE_DIR_DIRTY\<rparr> else f)
                in case (if flags f AND O_SYNC \<noteq> 0 then sync ops f s else (True, f, s)) of
                     (False, f, s) \<Rightarrow> (0, setWriteError f, s)
                   | (True, f, s) \<Rightarrow> (ucast nbyte, f, s))"

definition writeByte :: "'c card_ops \<Rightarrow> u8 \<Rightarrow> sdfile \<Rightarrow> 'c fs \<Rightarrow> u32 \<times> sdfile \<times> 'c fs" where
  "writeByte ops b f s = writeBytes ops [b] 1 f s"

text \<open>A C string without its NUL; the length is passed as a \<open>uint16_t\<close>.\<close>

definition writeStr :: "'c card_ops \<Rightarrow> u8 list \<Rightarrow> sdfile \<Rightarrow> 'c fs \<Rightarrow> u32 \<times> sdfile \<times> 'c fs" where
  "writeStr ops str f s = writeBytes ops str (of_nat (length str)) f s"

section \<open>Truncating and removing\<close>

definition truncate ::
  "'c card_ops \<Rightarrow> u32 \<Rightarrow> sdfile \<Rightarrow> 'c fs \<Rightarrow> (bool \<times> sdfile \<times> 'c fs) option" where
  "truncate ops len f s =
     (if \<not> isFile f \<or> flags f AND O_WRITE = 0 then Some (False, f, s)
      else if len > fileSize f then Some (False, f, s)
      else if fileSize f = 0 then Some (True, f, s)
      else
        let newPos = (if curPosition f > len then len else curPosition f) in
        case seekSet ops len f s of
          (False, f, s) \<Rightarrow> Some (False, f, s)
        | (True, f, s) \<Rightarrow> do {
            (ok, f, s) \<leftarrow>
              (if len = 0 then do {
                 (ok, s) \<leftarrow> freeChain ops (firstCluster f) s;
                 Some (ok, if ok then f\<lparr>firstCluster := 0\<rparr> else f, s) }
               else
                 case fatGet ops (curCluster f) s of
                   (None, s) \<Rightarrow> Some (False, f, s)
                 | (Some toFree, s) \<Rightarrow>
                     if \<not> isEOC (vol s) toFree then do {
                       (ok, s) \<leftarrow> freeChain ops toFree s;
                       Some (case seqOk (ok, s) (fatPutEOC ops (curCluster f)) of (ok, s) \<Rightarrow> (ok, f, s)) }
                     else Some (True, f, s));
            if \<not> ok then Some (False, f, s)
            else
              let f = f\<lparr>fileSize := len, flags := flags f OR F_FILE_DIR_DIRTY\<rparr> in
              case sync ops f s of
                (False, f, s) \<Rightarrow> Some (False, f, s)
              | (True, f, s) \<Rightarrow> Some (seekSet ops newPos f s) })"

definition removeFile :: "'c card_ops \<Rightarrow> sdfile \<Rightarrow> 'c fs \<Rightarrow> (bool \<times> sdfile \<times> 'c fs) option" where
  "removeFile ops f s = do {
     (ok, f, s) \<leftarrow> truncate ops 0 f s;
     if \<not> ok then Some (False, f, s)
     else
       case cacheDirEntry ops CACHE_FOR_WRITE f s of
         (False, s) \<Rightarrow> Some (False, f, s)
       | (True, s) \<Rightarrow>
           let d = cachedDir s (dirIndex f);
               s = storeDir (dirIndex f) (d\<lparr>dname := (dname d)[0 := DIR_NAME_DELETED]\<rparr>) s;
               f = f\<lparr>ftype := CLOSED\<rparr>
           in case cacheFlush ops s of (ok, s) \<Rightarrow> Some (ok, f, s) }"

section \<open>Opening\<close>

definition openCachedEntry ::
  "'c card_ops \<Rightarrow> u8 \<Rightarrow> u8 \<Rightarrow> sdfile \<Rightarrow> 'c fs \<Rightarrow> (bool \<times> sdfile \<times> 'c fs) option" where
  "openCachedEntry ops index oflag f s =
     (let p = cachedDir s index in
      if attributes p AND (DIR_ATT_READ_ONLY OR DIR_ATT_DIRECTORY) \<noteq> 0
         \<and> oflag AND (O_WRITE OR O_TRUNC) \<noteq> 0
      then Some (False, f, s)
      else
        let f = f\<lparr>dirIndex := index, dirBlock := cacheBlockNumber s\<rparr>;
            f = f\<lparr>firstCluster := push_bit 16 (ucast (firstClusterHigh p))\<rparr>;
            f = f\<lparr>firstCluster := firstCluster f OR ucast (firstClusterLow p)\<rparr>
        in do {
          (ok, f, s) \<leftarrow>
            (if DIR_IS_FILE p
             then Some (True, f\<lparr>fileSize := dir_fileSize p, ftype := NORMAL\<rparr>, s)
             else if DIR_IS_SUBDIR p then do {
               (r, s) \<leftarrow> chainSize ops (firstCluster f) s;
               Some (case r of None \<Rightarrow> (False, f, s)
                     | Some sz \<Rightarrow> (True, f\<lparr>fileSize := sz, ftype := SUBDIR\<rparr>, s)) }
             else Some (False, f, s));
          if \<not> ok then Some (False, f, s)
          else
            let f = f\<lparr>flags := oflag AND (O_ACCMODE OR O_SYNC OR O_APPEND),
                     curCluster := 0, curPosition := 0\<rparr>
            in if oflag AND O_TRUNC \<noteq> 0 then truncate ops 0 f s else Some (True, f, s) })"

definition openRoot :: "'c card_ops \<Rightarrow> sdfile \<Rightarrow> 'c fs \<Rightarrow> (bool \<times> sdfile \<times> 'c fs) option" where
  "openRoot ops f s =
     (if isOpen f then Some (False, f, s)
      else do {
        (ok, f, s) \<leftarrow>
          (if fatType (vol s) = 16
           then Some (True, f\<lparr>ftype := ROOT16, firstCluster := 0,
                              fileSize := 32 * ucast (rootDirEntryCount (vol s))\<rparr>, s)
           else if fatType (vol s) = 32 then
             let f = f\<lparr>ftype := ROOT32, firstCluster := rootDirStart (vol s)\<rparr> in do {
               (r, s) \<leftarrow> chainSize ops (firstCluster f) s;
               Some (case r of None \<Rightarrow> (False, f, s)
                     | Some sz \<Rightarrow> (True, f\<lparr>fileSize := sz\<rparr>, s)) }
           else Some (False, f, s));
        Some (if ok
              then (True, f\<lparr>flags := O_READ, curCluster := 0, curPosition := 0,
                            dirBlock := 0, dirIndex := 0\<rparr>, s)
              else (False, f, s)) })"


section \<open>Opening by name, creating\<close>

text \<open>
  How the search of open(dirFile, fileName, oflag) ends: the method fails, the entry
  with an index in the cached block matches, or the name is not there (with the flag
  that an empty slot was seen, whose place is then in the SdFile).
\<close>

datatype search = SearchFail | SearchHit u8 | SearchMiss bool

partial_function (option) openSearch ::
  "'c card_ops \<Rightarrow> u8 list \<Rightarrow> u8 \<Rightarrow> bool \<Rightarrow> sdfile \<Rightarrow> sdfile \<Rightarrow> 'c fs
   \<Rightarrow> (search \<times> sdfile \<times> sdfile \<times> 'c fs) option" where
  "openSearch ops nm oflag emptyFound f dirFile s =
     (if curPosition dirFile < fileSize dirFile then
        let index = ucast (0xF AND drop_bit 5 (curPosition dirFile)) in
        case readDirCache ops dirFile s of
          (None, dirFile, s) \<Rightarrow> Some (SearchFail, f, dirFile, s)
        | (Some i, dirFile, s) \<Rightarrow>
            let p = cachedDir s i in
            if dname p ! 0 = DIR_NAME_FREE \<or> dname p ! 0 = DIR_NAME_DELETED then
              let f = (if \<not> emptyFound
                       then f\<lparr>dirIndex := index, dirBlock := cacheBlockNumber s\<rparr> else f)
              in if dname p ! 0 = DIR_NAME_FREE then Some (SearchMiss True, f, dirFile, s)
                 else openSearch ops nm oflag True f dirFile s
            else if nm = dname p then
              if oflag AND (O_CREAT OR O_EXCL) = O_CREAT OR O_EXCL
              then Some (SearchFail, f, dirFile, s)
              else Some (SearchHit (0xF AND index), f, dirFile, s)
            else openSearch ops nm oflag emptyFound f dirFile s
      else Some (SearchMiss emptyFound, f, dirFile, s))"

text \<open>An empty file's entry, stored at an index of the cached block, with its timestamps.\<close>

definition newEntry :: "u8 \<Rightarrow> u8 list \<Rightarrow> 'c fs \<Rightarrow> 'c fs" where
  "newEntry index nm s =
     (let d = dir_zero\<lparr>dname := nm\<rparr>;
          (d, s) = (case dateTime s of
                      Some cb \<Rightarrow>
                        (case callDateTime cb s of ((date, time), s) \<Rightarrow>
                           (d\<lparr>creationDate := date, creationTime := time\<rparr>, s))
                    | None \<Rightarrow> (d\<lparr>creationDate := FAT_DEFAULT_DATE,
                                 creationTime := FAT_DEFAULT_TIME\<rparr>, s));
          d = d\<lparr>lastAccessDate := creationDate d, lastWriteDate := creationDate d,
                lastWriteTime := creationTime d\<rparr>
      in storeDir index d s)"

definition openName ::
  "'c card_ops \<Rightarrow> u8 list \<Rightarrow> u8 \<Rightarrow> sdfile \<Rightarrow> sdfile \<Rightarrow> 'c fs
   \<Rightarrow> (bool \<times> sdfile \<times> sdfile \<times> 'c fs) option" where
  "openName ops fileName oflag f dirFile s =
     (if isOpen f then Some (False, f, dirFile, s)
      else
        case make83Name fileName of
          None \<Rightarrow> Some (False, f, dirFile, s)
        | Some nm \<Rightarrow> do {
            (r, f, dirFile, s) \<leftarrow> openSearch ops nm oflag False f (rewind dirFile) s;
            case r of
              SearchFail \<Rightarrow> Some (False, f, dirFile, s)
            | SearchHit index \<Rightarrow> do {
                (ok, f, s) \<leftarrow> openCachedEntry ops index oflag f s;
                Some (ok, f, dirFile, s) }
            | SearchMiss emptyFound \<Rightarrow>
                if oflag AND (O_CREAT OR O_WRITE) \<noteq> O_CREAT OR O_WRITE
                then Some (False, f, dirFile, s)
                else
                  case (if emptyFound then
                          case cacheDirEntry ops CACHE_FOR_WRITE f s of (ok, s) \<Rightarrow> (ok, f, dirFile, s)
                        else if ftype dirFile = ROOT16 then (False, f, dirFile, s)
                        else
                          case addDirCluster ops dirFile s of
                            (False, dirFile, s) \<Rightarrow> (False, f, dirFile, s)
                          | (True, dirFile, s) \<Rightarrow> (True, f\<lparr>dirIndex := 0\<rparr>, dirFile, s)) of
                    (False, f, dirFile, s) \<Rightarrow> Some (False, f, dirFile, s)
                  | (True, f, dirFile, s) \<Rightarrow>
                      case cacheFlush ops (newEntry (dirIndex f) nm s) of
                        (False, s) \<Rightarrow> Some (False, f, dirFile, s)
                      | (True, s) \<Rightarrow> do {
                          (ok, f, s) \<leftarrow> openCachedEntry ops (dirIndex f) oflag f s;
                          Some (ok, f, dirFile, s) } })"

definition openIndex ::
  "'c card_ops \<Rightarrow> u16 \<Rightarrow> u8 \<Rightarrow> sdfile \<Rightarrow> sdfile \<Rightarrow> 'c fs
   \<Rightarrow> (bool \<times> sdfile \<times> sdfile \<times> 'c fs) option" where
  "openIndex ops index oflag f dirFile s =
     (if isOpen f then Some (False, f, dirFile, s)
      else if oflag AND (O_CREAT OR O_EXCL) = O_CREAT OR O_EXCL then Some (False, f, dirFile, s)
      else
        case seekSet ops (32 * ucast index) dirFile s of
          (False, dirFile, s) \<Rightarrow> Some (False, f, dirFile, s)
        | (True, dirFile, s) \<Rightarrow>
            case readDirCache ops dirFile s of
              (None, dirFile, s) \<Rightarrow> Some (False, f, dirFile, s)
            | (Some i, dirFile, s) \<Rightarrow>
                let p = cachedDir s i in
                if dname p ! 0 = DIR_NAME_FREE \<or> dname p ! 0 = DIR_NAME_DELETED \<or> dname p ! 0 = 0x2E
                then Some (False, f, dirFile, s)
                else do {
                  (ok, f, s) \<leftarrow> openCachedEntry ops (ucast (index AND 0xF)) oflag f s;
                  Some (ok, f, dirFile, s) })"

text \<open>The entries of a new directory: a blank name with one dot, or two.\<close>

definition makeDir ::
  "'c card_ops \<Rightarrow> u8 list \<Rightarrow> sdfile \<Rightarrow> sdfile \<Rightarrow> 'c fs
   \<Rightarrow> (bool \<times> sdfile \<times> sdfile \<times> 'c fs) option" where
  "makeDir ops name f dir s = do {
     (ok, f, dir, s) \<leftarrow> openName ops name (O_CREAT OR O_EXCL OR O_RDWR) f dir s;
     if \<not> ok then Some (False, f, dir, s)
     else
       let f = f\<lparr>flags := O_READ, ftype := SUBDIR\<rparr> in
       case addDirCluster ops f s of
         (False, f, s) \<Rightarrow> Some (False, f, dir, s)
       | (True, f, s) \<Rightarrow>
       case sync ops f s of
         (False, f, s) \<Rightarrow> Some (False, f, dir, s)
       | (True, f, s) \<Rightarrow>
       case cacheDirEntry ops CACHE_FOR_WRITE f s of
         (False, s) \<Rightarrow> Some (False, f, dir, s)
       | (True, s) \<Rightarrow>
           let p = (cachedDir s (dirIndex f))\<lparr>attributes := DIR_ATT_DIRECTORY\<rparr>;
               s = storeDir (dirIndex f) p s;
               d = p\<lparr>dname := (replicate 11 0x20)[0 := 0x2E]\<rparr>;
               block = clusterStartBlock (vol s) (firstCluster f)
           in case cacheRawBlock ops block CACHE_FOR_WRITE s of
                (False, s) \<Rightarrow> Some (False, f, dir, s)
              | (True, s) \<Rightarrow>
                  let s = storeDir 0 d s;
                      d = d\<lparr>dname := (dname d)[1 := 0x2E]\<rparr>;
                      d = (if isRoot dir then d\<lparr>firstClusterLow := 0, firstClusterHigh := 0\<rparr>
                           else d\<lparr>firstClusterLow := ucast (firstCluster dir AND 0xFFFF),
                                  firstClusterHigh := ucast (drop_bit 16 (firstCluster dir))\<rparr>);
                      s = storeDir 1 d s;
                      f = f\<lparr>curPosition := 2 * 32\<rparr>
                  in case cacheFlush ops s of (ok, s) \<Rightarrow> Some (ok, f, dir, s) }"

definition createContiguous ::
  "'c card_ops \<Rightarrow> u8 list \<Rightarrow> u32 \<Rightarrow> sdfile \<Rightarrow> sdfile \<Rightarrow> 'c fs
   \<Rightarrow> (bool \<times> sdfile \<times> sdfile \<times> 'c fs) option" where
  "createContiguous ops fileName sz f dirFile s =
     (if sz = 0 then Some (False, f, dirFile, s)
      else do {
        (ok, f, dirFile, s) \<leftarrow> openName ops fileName (O_CREAT OR O_EXCL OR O_RDWR) f dirFile s;
        if \<not> ok then Some (False, f, dirFile, s)
        else
          let count = drop_bit (unat (clusterSizeShift (vol s)) + 9) (sz - 1) + 1 in
          case allocContiguous ops count (firstCluster f) s of
            (None, s) \<Rightarrow> do {
              (ok, f, s) \<leftarrow> removeFile ops f s;
              Some (False, f, dirFile, s) }
          | (Some c, s) \<Rightarrow>
              let f = f\<lparr>firstCluster := c, fileSize := sz, flags := flags f OR F_FILE_DIR_DIRTY\<rparr>
              in case sync ops f s of (ok, f, s) \<Rightarrow> Some (ok, f, dirFile, s) })"

partial_function (option) contiguousLoop ::
  "'c card_ops \<Rightarrow> sdfile \<Rightarrow> u32 \<Rightarrow> 'c fs \<Rightarrow> ((u32 \<times> u32) option \<times> 'c fs) option" where
  "contiguousLoop ops f c s =
     (case fatGet ops c s of
        (None, s) \<Rightarrow> Some (None, s)
      | (Some nxt, s) \<Rightarrow>
          if nxt \<noteq> c + 1 then
            if \<not> isEOC (vol s) nxt then Some (None, s)
            else Some (Some (clusterStartBlock (vol s) (firstCluster f),
                             clusterStartBlock (vol s) c + ucast (blocksPerCluster (vol s)) - 1), s)
          else contiguousLoop ops f (c + 1) s)"

definition contiguousRange ::
  "'c card_ops \<Rightarrow> sdfile \<Rightarrow> 'c fs \<Rightarrow> ((u32 \<times> u32) option \<times> 'c fs) option" where
  "contiguousRange ops f s =
     (if firstCluster f = 0 then Some (None, s) else contiguousLoop ops f (firstCluster f) s)"

section \<open>Removing by name, directories\<close>

definition removeName ::
  "'c card_ops \<Rightarrow> u8 list \<Rightarrow> sdfile \<Rightarrow> 'c fs \<Rightarrow> (bool \<times> sdfile \<times> 'c fs) option" where
  "removeName ops fileName dirFile s = do {
     (ok, file, dirFile, s) \<leftarrow> openName ops fileName O_WRITE sdfile_new dirFile s;
     if \<not> ok then Some (False, dirFile, s)
     else do {
       (ok, file, s) \<leftarrow> removeFile ops file s;
       Some (ok, dirFile, s) } }"

text \<open>The check of rmDir that no file is left: \<open>True\<close> when the loop reaches its end.\<close>

partial_function (option) emptyLoop ::
  "'c card_ops \<Rightarrow> sdfile \<Rightarrow> 'c fs \<Rightarrow> (bool \<times> sdfile \<times> 'c fs) option" where
  "emptyLoop ops f s =
     (if curPosition f < fileSize f then
        case readDirCache ops f s of
          (None, f, s) \<Rightarrow> Some (False, f, s)
        | (Some i, f, s) \<Rightarrow>
            let p = cachedDir s i in
            if dname p ! 0 = DIR_NAME_FREE then Some (True, f, s)
            else if dname p ! 0 = DIR_NAME_DELETED \<or> dname p ! 0 = 0x2E then emptyLoop ops f s
            else if DIR_IS_FILE_OR_SUBDIR p then Some (False, f, s)
            else emptyLoop ops f s
      else Some (True, f, s))"

definition rmDir :: "'c card_ops \<Rightarrow> sdfile \<Rightarrow> 'c fs \<Rightarrow> (bool \<times> sdfile \<times> 'c fs) option" where
  "rmDir ops f s =
     (if \<not> isSubDir f then Some (False, f, s)
      else do {
        (ok, f, s) \<leftarrow> emptyLoop ops (rewind f) s;
        if \<not> ok then Some (False, f, s)
        else removeFile ops (f\<lparr>ftype := NORMAL, flags := flags f OR O_WRITE\<rparr>) s })"

text \<open>rmRfStar: the loop over a directory, recursive on its subdirectories.\<close>

partial_function (option) rmRfLoop ::
  "'c card_ops \<Rightarrow> sdfile \<Rightarrow> 'c fs \<Rightarrow> (bool \<times> sdfile \<times> 'c fs) option" where
  "rmRfLoop ops this s =
     (if curPosition this < fileSize this then
        let index = ucast (curPosition this div 32) :: u16 in
        case readDirCache ops this s of
          (None, this, s) \<Rightarrow> Some (False, this, s)
        | (Some i, this, s) \<Rightarrow>
            let p = cachedDir s i in
            if dname p ! 0 = DIR_NAME_FREE
            then if isRoot this then Some (True, this, s) else rmDir ops this s
            else if dname p ! 0 = DIR_NAME_DELETED \<or> dname p ! 0 = 0x2E then rmRfLoop ops this s
            else if \<not> DIR_IS_FILE_OR_SUBDIR p then rmRfLoop ops this s
            else do {
              (ok, f, this, s) \<leftarrow> openIndex ops index O_READ sdfile_new this s;
              if \<not> ok then Some (False, this, s)
              else do {
                (ok, f, s) \<leftarrow>
                  (if isSubDir f then rmRfLoop ops (rewind f) s
                   else removeFile ops (f\<lparr>flags := flags f OR O_WRITE\<rparr>) s);
                if \<not> ok then Some (False, this, s)
                else
                  case (if curPosition this \<noteq> 32 * (ucast index + 1)
                        then seekSet ops (32 * (ucast index + 1)) this s else (True, this, s)) of
                    (ok, this, s) \<Rightarrow>
                      if \<not> ok then Some (False, this, s) else rmRfLoop ops this s } }
      else if isRoot this then Some (True, this, s) else rmDir ops this s)"

definition rmRfStar :: "'c card_ops \<Rightarrow> sdfile \<Rightarrow> 'c fs \<Rightarrow> (bool \<times> sdfile \<times> 'c fs) option" where
  "rmRfStar ops f s = rmRfLoop ops (rewind f) s"

section \<open>Listing\<close>

text \<open>\<open>for (int8_t i = 0; i < indent; i++)\<close>: the counter is signed, the bound is not.\<close>

partial_function (option) indentLoop :: "8 word \<Rightarrow> u8 \<Rightarrow> 'c fs \<Rightarrow> 'c fs option" where
  "indentLoop i indent s =
     (if sint i < int (unat indent) then indentLoop (i + 1) indent (emit [0x20] s) else Some s)"

definition lsEntry :: "u8 \<Rightarrow> dir_t \<Rightarrow> 'c fs \<Rightarrow> 'c fs" where
  "lsEntry lflags p s =
     (let s = printDirName p (if lflags AND (LS_DATE OR LS_SIZE) \<noteq> 0 then 14 else 0) s;
          s = (if lflags AND LS_DATE \<noteq> 0
               then printFatTime (lastWriteTime p) (emit [0x20] (printFatDate (lastWriteDate p) s))
               else s);
          s = (if \<not> DIR_IS_SUBDIR p \<and> lflags AND LS_SIZE \<noteq> 0
               then emit (decimal (unat (dir_fileSize p))) (emit [0x20] s) else s)
      in emit [0x0D, 0x0A] s)"

partial_function (option) lsLoop ::
  "'c card_ops \<Rightarrow> u8 \<Rightarrow> u8 \<Rightarrow> sdfile \<Rightarrow> 'c fs \<Rightarrow> (sdfile \<times> 'c fs) option" where
  "lsLoop ops lflags indent f s =
     (case readDirCache ops f s of
        (None, f, s) \<Rightarrow> Some (f, s)
      | (Some i, f, s) \<Rightarrow>
          let p = cachedDir s i in
          if dname p ! 0 = DIR_NAME_FREE then Some (f, s)
          else if dname p ! 0 = DIR_NAME_DELETED \<or> dname p ! 0 = 0x2E
          then lsLoop ops lflags indent f s
          else if \<not> DIR_IS_FILE_OR_SUBDIR p then lsLoop ops lflags indent f s
          else do {
            s \<leftarrow> indentLoop 0 indent s;
            let s = lsEntry lflags p s in
            if lflags AND LS_R \<noteq> 0 \<and> DIR_IS_SUBDIR p then
              let index = ucast (curPosition f div 32 - 1) :: u16 in do {
                (ok, g, f, s) \<leftarrow> openIndex ops index O_READ sdfile_new f s;
                s \<leftarrow> (if ok then do {
                        (g, s) \<leftarrow> lsLoop ops lflags (indent + 2) (rewind g) s;
                        Some s }
                      else Some s);
                case seekSet ops (32 * (ucast index + 1)) f s of (ok, f, s) \<Rightarrow>
                  lsLoop ops lflags indent f s }
            else lsLoop ops lflags indent f s })"

definition ls :: "'c card_ops \<Rightarrow> u8 \<Rightarrow> u8 \<Rightarrow> sdfile \<Rightarrow> 'c fs \<Rightarrow> (sdfile \<times> 'c fs) option" where
  "ls ops lflags indent f s = lsLoop ops lflags indent (rewind f) s"

end
