(* ===== verification/SdCache.thy ===== *)
theory SdCache
  imports SdVolume
begin

text \<open>
  Correctness of the block cache of SdVolume.  The abstract state is the logical
  disk \<open>view\<close>: what every block will hold once the cache is flushed.  The lemmas
  say that flushing and loading never change it, and what a load leaves in the
  cache; they are proved from the contract of the card driver alone.
\<close>

definition view :: "('c \<Rightarrow> u32 \<Rightarrow> u8 list) \<Rightarrow> 'c fs \<Rightarrow> u32 \<Rightarrow> u8 list" where
  "view disk s b =
     (if cacheDirty s \<and> (b = cacheBlockNumber s \<or> cacheMirrorBlock s \<noteq> 0 \<and> b = cacheMirrorBlock s)
      then cacheBuffer s else disk (card s) b)"

definition cache_ok ::
  "('c \<Rightarrow> bool) \<Rightarrow> ('c \<Rightarrow> u32 \<Rightarrow> u8 list) \<Rightarrow> nat \<Rightarrow> 'c fs \<Rightarrow> bool" where
  "cache_ok good disk lim s \<longleftrightarrow>
     good (card s) \<and> length (cacheBuffer s) = 512 \<and>
     (cacheDirty s \<longrightarrow> cacheBlockNumber s \<noteq> 0 \<and> unat (cacheBlockNumber s) < lim) \<and>
     (\<not> cacheDirty s \<longrightarrow> cacheMirrorBlock s = 0 \<and>
        (unat (cacheBlockNumber s) < lim \<longrightarrow>
           cacheBuffer s = disk (card s) (cacheBlockNumber s))) \<and>
     (cacheMirrorBlock s \<noteq> 0 \<longrightarrow>
        cacheMirrorBlock s = cacheBlockNumber s + blocksPerFat (vol s) \<and>
        unat (fatStartBlock (vol s)) \<le> unat (cacheBlockNumber s) \<and>
        unat (cacheBlockNumber s) < unat (fatStartBlock (vol s)) + unat (blocksPerFat (vol s)) \<and>
        fatCount (vol s) > 1 \<and> unat (cacheMirrorBlock s) < lim \<and> cacheMirrorBlock s \<noteq> cacheBlockNumber s)"

text \<open>What no cache operation touches.\<close>

definition env :: "'c fs \<Rightarrow> sdvolume \<times> (nat \<Rightarrow> u16 \<times> u16) option \<times> nat \<times> u8 list" where
  "env s = (vol s, dateTime s, dateCalls s, serial s)"

lemma env_simps [simp]:
  "env (s\<lparr>card := c\<rparr>) = env s" "env (s\<lparr>cacheBuffer := b\<rparr>) = env s"
  "env (s\<lparr>cacheBlockNumber := n\<rparr>) = env s" "env (s\<lparr>cacheDirty := d\<rparr>) = env s"
  "env (s\<lparr>cacheMirrorBlock := m\<rparr>) = env s" "env (cacheSetDirty s) = env s"
  by (simp_all add: env_def cacheSetDirty_def)

lemma env_vol: "env s' = env s \<Longrightarrow> vol s' = vol s"
  by (simp add: env_def)

text \<open>The same, but for the place where the next cluster search starts.\<close>

definition env_geo :: "'c fs \<Rightarrow> sdvolume \<times> (nat \<Rightarrow> u16 \<times> u16) option \<times> nat \<times> u8 list" where
  "env_geo s = (vol s\<lparr>allocSearchStart := 0\<rparr>, dateTime s, dateCalls s, serial s)"

lemma env_imp_env_geo: "env s' = env s \<Longrightarrow> env_geo s' = env_geo s"
  by (simp add: env_def env_geo_def)

lemma env_geo_alloc [simp]:
  "env_geo (s\<lparr>vol := vol s\<lparr>allocSearchStart := a\<rparr>\<rparr>) = env_geo s"
  by (simp add: env_geo_def)

lemma view_vol [simp]: "view disk (s\<lparr>vol := v\<rparr>) = view disk s"
  by (auto simp: view_def fun_eq_iff)

lemma cache_ok_alloc [simp]:
  "cache_ok good disk lim (s\<lparr>vol := vol s\<lparr>allocSearchStart := a\<rparr>\<rparr>) = cache_ok good disk lim s"
  by (simp add: cache_ok_def)

lemma view_clean: "\<not> cacheDirty s \<Longrightarrow> view disk s = disk (card s)"
  by (simp add: view_def fun_eq_iff)

lemma cacheFlush_env: "cacheFlush ops s = (r, s') \<Longrightarrow> env s' = env s"
  by (auto simp: cacheFlush_def Let_def split: if_splits prod.splits)

lemma cacheRawBlock_env: "cacheRawBlock ops b a s = (r, s') \<Longrightarrow> env s' = env s"
  by (auto simp: cacheRawBlock_def seqOk_def split: if_splits prod.splits option.splits
           dest: cacheFlush_env)

lemma cacheZeroBlock_env: "cacheZeroBlock ops b s = (r, s') \<Longrightarrow> env s' = env s"
  by (auto simp: cacheZeroBlock_def seqOk_def split: if_splits prod.splits dest: cacheFlush_env)

text \<open>A step that succeeds, keeps the invariant and everything outside the cache.\<close>

definition quiet ::
  "('c \<Rightarrow> bool) \<Rightarrow> ('c \<Rightarrow> u32 \<Rightarrow> u8 list) \<Rightarrow> nat \<Rightarrow> 'c fs \<Rightarrow> 'c fs \<Rightarrow> bool" where
  "quiet good disk lim s s' \<longleftrightarrow>
     cache_ok good disk lim s' \<and> view disk s' = view disk s \<and> env s' = env s"

lemma quietD:
  assumes "quiet good disk lim s s'"
  shows "cache_ok good disk lim s'" and "view disk s' = view disk s" and "env s' = env s"
    and "vol s' = vol s"
  using assms by (auto simp: quiet_def env_def)

lemma quiet_refl: "cache_ok good disk lim s \<Longrightarrow> quiet good disk lim s s"
  by (simp add: quiet_def)

lemma quiet_trans:
  "quiet good disk lim s s' \<Longrightarrow> quiet good disk lim s' s'' \<Longrightarrow> quiet good disk lim s s''"
  by (simp add: quiet_def)

context block_device
begin

lemma cache_ok_buffer:
  assumes "cache_ok good disk lim s" and "unat (cacheBlockNumber s) < lim"
  shows "cacheBuffer s = view disk s (cacheBlockNumber s)"
  using assms by (auto simp: cache_ok_def view_def)

lemma view_length:
  assumes "cache_ok good disk lim s"
  shows "length (view disk s b) = 512"
  using assms disk_length by (auto simp: cache_ok_def view_def)

lemma cacheFlush_spec:
  assumes ok: "cache_ok good disk lim s"
  obtains s' where "cacheFlush ops s = (True, s')" and "quiet good disk lim s s'"
    and "\<not> cacheDirty s'" and "cacheBuffer s' = cacheBuffer s"
    and "cacheBlockNumber s' = cacheBlockNumber s"
proof (cases "cacheDirty s")
  case False
  then show ?thesis using ok by (intro that [of s]) (simp_all add: cacheFlush_def quiet_refl)
next
  case True
  let ?b = "cacheBlockNumber s" and ?m = "cacheMirrorBlock s" and ?d = "cacheBuffer s"
  from ok True have g: "good (card s)" "unat ?b < lim" "?b \<noteq> 0" "length ?d = 512"
    by (auto simp: cache_ok_def)
  from writeBlock_law [OF g] obtain c where
    c: "card_writeBlock ops ?b ?d (card s) = (True, c)" "good c" "disk c = (disk (card s))(?b := ?d)"
    by blast
  show ?thesis
  proof (cases "?m = 0")
    case m0: True
    let ?s = "s\<lparr>card := c, cacheDirty := False\<rparr>"
    have "cacheFlush ops s = (True, ?s)"
      using True c m0 by (simp add: cacheFlush_def Let_def)
    moreover have "quiet good disk lim s ?s"
      using ok True c m0
      by (auto simp: quiet_def cache_ok_def view_def fun_eq_iff)
    ultimately show ?thesis by (rule that) simp_all
  next
    case m: False
    with ok have gm: "unat ?m < lim" "?m \<noteq> ?b" by (auto simp: cache_ok_def)
    from writeBlock_law [OF c(2) gm(1) m g(4)] obtain c' where
      c': "card_writeBlock ops ?m ?d c = (True, c')" "good c'" "disk c' = (disk c)(?m := ?d)"
      by blast
    let ?s = "s\<lparr>card := c', cacheMirrorBlock := 0, cacheDirty := False\<rparr>"
    have "cacheFlush ops s = (True, ?s)"
      using True c c' m by (simp add: cacheFlush_def Let_def)
    moreover have "quiet good disk lim s ?s"
      using ok True c c' m gm
      by (auto simp: quiet_def cache_ok_def view_def fun_eq_iff)
    ultimately show ?thesis by (rule that) simp_all
  qed
qed

lemma cacheRawBlock_spec:
  assumes ok: "cache_ok good disk lim s" and b: "unat b < lim" and w: "a \<Longrightarrow> b \<noteq> 0"
  obtains s' where "cacheRawBlock ops b a s = (True, s')" and "quiet good disk lim s s'"
    and "cacheBlockNumber s' = b" and "cacheBuffer s' = view disk s b" and "a \<Longrightarrow> cacheDirty s'"
proof (cases "cacheBlockNumber s = b")
  case True
  let ?s = "s\<lparr>cacheDirty := cacheDirty s \<or> a\<rparr>"
  have "cacheRawBlock ops b a s = (True, ?s)"
    using True by (simp add: cacheRawBlock_def)
  moreover have "quiet good disk lim s ?s"
    using ok True b w by (auto simp: quiet_def cache_ok_def view_def fun_eq_iff)
  moreover have "cacheBuffer ?s = view disk s b"
    using ok True b by (auto simp: cache_ok_def view_def)
  ultimately show ?thesis using True by (intro that [of ?s]) simp_all
next
  case False
  obtain s1 where s1: "cacheFlush ops s = (True, s1)" "quiet good disk lim s s1"
      "\<not> cacheDirty s1"
    using cacheFlush_spec [OF ok] by blast
  then have q: "good (card s1)" "view disk s1 = view disk s" "cacheMirrorBlock s1 = 0"
    by (auto simp: quiet_def cache_ok_def)
  from readBlock_law [OF q(1) b] obtain c where
    c: "card_readBlock ops b (card s1) = (Some (disk (card s1) b), c)" "good c"
      "disk c = disk (card s1)"
    by blast
  let ?s = "s1\<lparr>card := c, cacheBuffer := disk (card s1) b, cacheBlockNumber := b,
              cacheDirty := cacheDirty s1 \<or> a\<rparr>"
  have "cacheRawBlock ops b a s = (True, ?s)"
    using False s1 c by (simp add: cacheRawBlock_def)
  moreover
  have "cache_ok good disk lim ?s"
    using s1(3) c q(3) b w disk_length [OF q(1)] by (auto simp: cache_ok_def)
  then have "quiet good disk lim s ?s"
    using s1 c(3) q(2,3) by (auto simp: quiet_def view_def fun_eq_iff)
  moreover have "cacheBuffer ?s = view disk s b"
    using view_clean [OF s1(3), of disk] q(2) by simp
  ultimately show ?thesis by (intro that [of ?s]) simp_all
qed

lemma cacheZeroBlock_spec:
  assumes ok: "cache_ok good disk lim s" and b: "unat b < lim" "b \<noteq> 0"
  obtains s' where "cacheZeroBlock ops b s = (True, s')" and "cache_ok good disk lim s'"
    and "view disk s' = (view disk s)(b := replicate 512 0)" and "env s' = env s"
    and "cacheBlockNumber s' = b" and "cacheBuffer s' = replicate 512 0"
proof -
  obtain s1 where s1: "cacheFlush ops s = (True, s1)" "quiet good disk lim s s1"
      "\<not> cacheDirty s1"
    using cacheFlush_spec [OF ok] by blast
  then have m: "cacheMirrorBlock s1 = 0" and v: "view disk s1 = view disk s"
    by (auto simp: quiet_def cache_ok_def)
  let ?s = "cacheSetDirty (s1\<lparr>cacheBuffer := replicate 512 0, cacheBlockNumber := b\<rparr>)"
  have "cacheZeroBlock ops b s = (True, ?s)"
    using s1 by (simp add: cacheZeroBlock_def)
  moreover have "cache_ok good disk lim ?s"
    using s1 m b by (auto simp: quiet_def cache_ok_def cacheSetDirty_def)
  moreover have "view disk ?s = (view disk s)(b := replicate 512 0)"
    using s1(3) v m by (auto simp: view_def cacheSetDirty_def fun_eq_iff)
  ultimately show ?thesis using s1(2) by (intro that [of ?s]) (auto simp: quiet_def cacheSetDirty_def)
qed

text \<open>Changing the loaded block in place, as every writer does: the view changes there only.\<close>

lemma cache_modify:
  assumes ok: "cache_ok good disk lim s" and m: "cacheMirrorBlock s = 0"
    and b: "unat (cacheBlockNumber s) < lim" "cacheBlockNumber s \<noteq> 0" and len: "length d = 512"
  shows "cache_ok good disk lim (s\<lparr>cacheBuffer := d, cacheDirty := True\<rparr>)"
    and "view disk (s\<lparr>cacheBuffer := d, cacheDirty := True\<rparr>) =
         (view disk s)(cacheBlockNumber s := d)"
  using assms by (auto simp: cache_ok_def view_def fun_eq_iff)

end

end
