(* ===== verification/FatTable.thy ===== *)
theory FatTable
  imports SdCache
begin

text \<open>
  The File Allocation Table as a function.  \<open>fat_entry D v c\<close> reads the entry of
  cluster \<open>c\<close> on the logical disk \<open>D\<close>; \<open>fat_store\<close> is the effect of storing one, in the
  first FAT and its mirror.  \<open>fatGet\<close> and \<open>fatPut\<close> are shown to refine these on every
  volume whose geometry is sound.
\<close>

section \<open>Sound geometry\<close>

text \<open>FAT entries in one block, and the least value that ends a chain.\<close>

definition epb :: "sdvolume \<Rightarrow> nat" where
  "epb v = (if fatType v = 16 then 256 else 128)"

definition eocMin :: "sdvolume \<Rightarrow> nat" where
  "eocMin v = (if fatType v = 16 then 0xFFF8 else 0x0FFFFFF8)"

text \<open>
  The regions of a mountable volume lie in the card one after another: boot block,
  FATs, FAT16 root directory, data clusters; the FAT has an entry for every cluster;
  and cluster numbers are below the end-of-chain marks.
\<close>

definition geom :: "nat \<Rightarrow> sdvolume \<Rightarrow> bool" where
  "geom lim v \<longleftrightarrow>
     (fatType v = 16 \<or> fatType v = 32) \<and>
     0 < unat (fatStartBlock v) \<and> 0 < unat (fatCount v) \<and>
     unat (clusterCount v) + 1 < epb v * unat (blocksPerFat v) \<and>
     unat (clusterCount v) + 2 \<le> eocMin v \<and>
     unat (clusterSizeShift v) \<le> 7 \<and>
     unat (blocksPerCluster v) = 2 ^ unat (clusterSizeShift v) \<and>
     unat (fatStartBlock v) + unat (fatCount v) * unat (blocksPerFat v) \<le> unat (dataStartBlock v) \<and>
     (fatType v = 16 \<longrightarrow>
        unat (fatStartBlock v) + unat (fatCount v) * unat (blocksPerFat v) \<le> unat (rootDirStart v) \<and>
        unat (rootDirStart v) + (32 * unat (rootDirEntryCount v) + 511) div 512
          \<le> unat (dataStartBlock v)) \<and>
     unat (dataStartBlock v) + unat (clusterCount v) * 2 ^ unat (clusterSizeShift v) \<le> lim \<and>
     lim < 2 ^ 32"

lemma geom_allocSearchStart [simp]: "geom lim (v\<lparr>allocSearchStart := a\<rparr>) = geom lim v"
  by (simp add: geom_def epb_def eocMin_def)

lemma geom_regions:
  assumes "geom lim v"
  shows "unat (fatStartBlock v) + unat (fatCount v) * unat (blocksPerFat v) \<le> unat (dataStartBlock v)"
    and "unat (dataStartBlock v) \<le> lim" and "lim < 2 ^ 32" and "0 < unat (fatStartBlock v)"
    and "1 \<le> unat (fatCount v)"
  using assms by (auto simp: geom_def)

lemma geom_copies:
  assumes "geom lim v" and "k \<le> unat (fatCount v)"
  shows "unat (fatStartBlock v) + k * unat (blocksPerFat v) \<le> unat (dataStartBlock v)"
  using mult_le_mono1 [OF assms(2), of "unat (blocksPerFat v)"] geom_regions(1) [OF assms(1)]
  by linarith

text \<open>A cluster with an entry in the FAT, and one that can hold data.\<close>

definition in_fat :: "sdvolume \<Rightarrow> u32 \<Rightarrow> bool" where
  "in_fat v c \<longleftrightarrow> unat c \<le> unat (clusterCount v) + 1"

definition data_cluster :: "sdvolume \<Rightarrow> u32 \<Rightarrow> bool" where
  "data_cluster v c \<longleftrightarrow> 2 \<le> unat c \<and> unat c \<le> unat (clusterCount v) + 1"

lemma data_cluster_in_fat: "data_cluster v c \<Longrightarrow> in_fat v c"
  by (simp add: data_cluster_def in_fat_def)

lemma in_fat_allocSearchStart [simp]:
  "in_fat (v\<lparr>allocSearchStart := a\<rparr>) = in_fat v"
  "data_cluster (v\<lparr>allocSearchStart := a\<rparr>) = data_cluster v"
  by (auto simp: in_fat_def data_cluster_def fun_eq_iff)

lemma geom_clusterCount:
  assumes "geom lim v"
  shows "unat (clusterCount v + 1) = unat (clusterCount v) + 1"
proof (rule unat_Suc_small)
  show "unat (clusterCount v) + 1 < 2 ^ LENGTH(32)"
    using assms by (auto simp: geom_def eocMin_def split: if_splits)
qed

lemma in_fat_iff:
  assumes "geom lim v"
  shows "c > clusterCount v + 1 \<longleftrightarrow> \<not> in_fat v c"
  using geom_clusterCount [OF assms] by (simp add: in_fat_def word_less_nat_alt not_le)

lemma data_cluster_guard:
  assumes "geom lim v" and "data_cluster v c"
  shows "\<not> c < 2" and "\<not> c > clusterCount v + 1" and "c \<noteq> 0"
  using assms in_fat_iff [OF assms(1), of c]
  by (auto simp: data_cluster_def in_fat_def word_less_nat_alt)

lemma isEOC_nat: "isEOC v c \<longleftrightarrow> eocMin v \<le> unat c"
  by (simp add: isEOC_def eocMin_def word_le_nat_alt)

lemma in_fat_not_EOC: "geom lim v \<Longrightarrow> in_fat v c \<Longrightarrow> \<not> isEOC v c"
  by (simp add: isEOC_nat in_fat_def geom_def)

lemma epb_cases: "epb v = 256 \<or> epb v = 128"
  by (simp add: epb_def)

lemma fatLba_nat:
  assumes g: "geom lim v" and c: "in_fat v c"
  shows "unat (fatLba v c) = unat (fatStartBlock v) + unat c div epb v"
    and "unat c div epb v < unat (blocksPerFat v)"
proof -
  have "unat c < epb v * unat (blocksPerFat v)"
    using g c by (simp add: geom_def in_fat_def)
  then show lt: "unat c div epb v < unat (blocksPerFat v)"
    using epb_cases [of v] by (auto simp: less_mult_imp_div_less mult.commute)
  have "unat (fatStartBlock v) + unat c div epb v < 2 ^ LENGTH(32)"
    using geom_copies [OF g geom_regions(5) [OF g]] geom_regions(2,3) [OF g] lt by simp
  then show "unat (fatLba v c) = unat (fatStartBlock v) + unat c div epb v"
    using g by (auto simp: fatLba_def epb_def geom_def unat_drop_bit_div unat_word_ariths)
qed

lemma fatLba_valid:
  assumes "geom lim v" and "in_fat v c"
  shows "unat (fatLba v c) < lim" and "fatLba v c \<noteq> 0"
    and "unat (fatLba v c) < unat (dataStartBlock v)"
proof -
  note r = geom_regions [OF assms(1)]
  show lt: "unat (fatLba v c) < unat (dataStartBlock v)"
    using geom_copies [OF assms(1) r(5)] fatLba_nat [OF assms] by simp
  with r(2) show "unat (fatLba v c) < lim" by simp
  show "fatLba v c \<noteq> 0"
    using r(4) fatLba_nat(1) [OF assms] by (simp add: word_neq_0_iff_unat)
qed

lemma mirror_valid:
  assumes g: "geom lim v" and c: "in_fat v c" and m: "fatCount v > 1"
  shows "unat (fatLba v c + blocksPerFat v) = unat (fatLba v c) + unat (blocksPerFat v)"
    and "unat (fatLba v c + blocksPerFat v) < unat (dataStartBlock v)"
    and "unat (fatLba v c + blocksPerFat v) < lim"
    and "fatLba v c + blocksPerFat v \<noteq> 0" and "fatLba v c + blocksPerFat v \<noteq> fatLba v c"
proof -
  note r = geom_regions [OF g]
  have "2 \<le> unat (fatCount v)" using m by (simp add: word_less_nat_alt)
  from geom_copies [OF g this] fatLba_nat [OF g c]
  have b: "unat (fatLba v c) + unat (blocksPerFat v) < unat (dataStartBlock v)" by simp
  with r(2,3) have "unat (fatLba v c) + unat (blocksPerFat v) < 2 ^ LENGTH(32)" by simp
  then show e: "unat (fatLba v c + blocksPerFat v) = unat (fatLba v c) + unat (blocksPerFat v)"
    by (rule unat_add_small)
  with b show d: "unat (fatLba v c + blocksPerFat v) < unat (dataStartBlock v)" by simp
  with r(2) show "unat (fatLba v c + blocksPerFat v) < lim" by simp
  have p: "0 < unat (blocksPerFat v)" using fatLba_nat(2) [OF g c] by simp
  with e show "fatLba v c + blocksPerFat v \<noteq> 0" by (auto simp: word_neq_0_iff_unat)
  from e p show "fatLba v c + blocksPerFat v \<noteq> fatLba v c" by (metis less_add_same_cancel1 less_irrefl)
qed

section \<open>The table as a function, and its update\<close>

definition fat_entry :: "(u32 \<Rightarrow> u8 list) \<Rightarrow> sdvolume \<Rightarrow> u32 \<Rightarrow> u32" where
  "fat_entry D v c =
     (if fatType v = 16 then ucast (get16 (D (fatLba v c)) (2 * unat (c AND 0xFF)))
      else get32 (D (fatLba v c)) (4 * unat (c AND 0x7F)) AND FAT32MASK)"

definition fat_trunc :: "sdvolume \<Rightarrow> u32 \<Rightarrow> u32" where
  "fat_trunc v x = (if fatType v = 16 then take_bit 16 x else x AND FAT32MASK)"

definition fat_block_put :: "sdvolume \<Rightarrow> u8 list \<Rightarrow> u32 \<Rightarrow> u32 \<Rightarrow> u8 list" where
  "fat_block_put v buf c x =
     (if fatType v = 16 then put16 buf (2 * unat (c AND 0xFF)) (ucast x)
      else put32 buf (4 * unat (c AND 0x7F)) x)"

definition fat_store ::
  "(u32 \<Rightarrow> u8 list) \<Rightarrow> sdvolume \<Rightarrow> u32 \<Rightarrow> u32 \<Rightarrow> u32 \<Rightarrow> u8 list" where
  "fat_store D v c x =
     (let lba = fatLba v c; buf = fat_block_put v (D lba) c x
      in if fatCount v > 1 then D(lba := buf, lba + blocksPerFat v := buf) else D(lba := buf))"

lemma fat_entry_allocSearchStart [simp]:
  "fat_entry D (v\<lparr>allocSearchStart := a\<rparr>) = fat_entry D v"
  "fat_store D (v\<lparr>allocSearchStart := a\<rparr>) = fat_store D v"
  "fat_trunc (v\<lparr>allocSearchStart := a\<rparr>) = fat_trunc v"
  "isEOC (v\<lparr>allocSearchStart := a\<rparr>) = isEOC v"
  by (auto simp: fat_entry_def fat_store_def fat_block_put_def fat_trunc_def fatLba_def isEOC_def
        Let_def fun_eq_iff)

lemma length_fat_block_put [simp]: "length (fat_block_put v buf c x) = length buf"
  by (simp add: fat_block_put_def)

lemma fat_store_length:
  "(\<And>b. length (D b) = 512) \<Longrightarrow> length (fat_store D v c x b) = 512"
  by (simp add: fat_store_def Let_def)

lemma ucast16_trunc: "(ucast (ucast (x :: u32) :: u16) :: u32) = take_bit 16 x"
  by (rule bit_word_eqI) (auto simp: bit_simps)

lemma fat_block_put_get16:
  assumes "length buf = 512"
  shows "get16 (put16 buf (2 * unat (c AND 0xFF)) x) (2 * unat ((c' :: u32) AND 0xFF)) =
         (if unat (c :: u32) mod 256 = unat c' mod 256 then x
          else get16 buf (2 * unat (c' AND 0xFF)))"
  using assms get16_put16_idx [of "unat c mod 256" buf x "unat c' mod 256"]
  by (simp add: and_mask_take_bit unat_take_bit_mod)

lemma fat_block_put_get32:
  assumes "length buf = 512"
  shows "get32 (put32 buf (4 * unat (c AND 0x7F)) x) (4 * unat ((c' :: u32) AND 0x7F)) =
         (if unat (c :: u32) mod 128 = unat c' mod 128 then x
          else get32 buf (4 * unat (c' AND 0x7F)))"
  using assms get32_put32_idx [of "unat c mod 128" buf x "unat c' mod 128"]
  by (simp add: and_mask_take_bit unat_take_bit_mod)

lemma fatLba_eq_iff:
  assumes "geom lim v" and "in_fat v c" and "in_fat v c'"
  shows "fatLba v c = fatLba v c' \<longleftrightarrow> unat c div epb v = unat c' div epb v"
  using fatLba_nat(1) [OF assms(1,2)] fatLba_nat(1) [OF assms(1,3)]
  by (simp add: word_unat_eq_iff)

text \<open>A FAT block of the first copy is no mirror block.\<close>

lemma fatLba_not_mirror:
  assumes "geom lim v" and "in_fat v c" and "in_fat v c'" and "fatCount v > 1"
  shows "fatLba v c' \<noteq> fatLba v c + blocksPerFat v"
  using fatLba_nat [OF assms(1,2)] fatLba_nat [OF assms(1,3)] mirror_valid(1) [OF assms(1,2,4)]
  by (auto simp: word_unat_eq_iff)

lemma fat_entry_fat_store:
  assumes g: "geom lim v" and c: "in_fat v c" and c': "in_fat v c'"
    and len: "length (D (fatLba v c)) = 512"
  shows "fat_entry (fat_store D v c x) v c' = (if c' = c then fat_trunc v x else fat_entry D v c')"
proof -
  have nm: "fat_store D v c x (fatLba v c') =
      (if fatLba v c' = fatLba v c then fat_block_put v (D (fatLba v c)) c x else D (fatLba v c'))"
    using fatLba_not_mirror [OF g c c'] by (auto simp: fat_store_def Let_def)
  show ?thesis
  proof (cases "unat c div epb v = unat c' div epb v")
    case True
    have "c' = c \<longleftrightarrow> unat c mod epb v = unat c' mod epb v"
      using True by (metis div_mult_mod_eq word_unat_eq_iff)
    then show ?thesis
      using True fatLba_eq_iff [OF g c c'] len
      by (auto simp: fat_entry_def nm fat_trunc_def epb_def fat_block_put_def
            fat_block_put_get16 fat_block_put_get32 ucast16_trunc)
  next
    case False
    then show ?thesis
      using fatLba_eq_iff [OF g c c'] by (auto simp: fat_entry_def nm)
  qed
qed

text \<open>Storing an entry leaves every block outside the FATs as it was.\<close>

definition fat_region :: "sdvolume \<Rightarrow> u32 \<Rightarrow> bool" where
  "fat_region v b \<longleftrightarrow>
     unat (fatStartBlock v) \<le> unat b \<and>
     unat b < unat (fatStartBlock v) + unat (fatCount v) * unat (blocksPerFat v)"

lemma fat_region_allocSearchStart [simp]:
  "fat_region (v\<lparr>allocSearchStart := a\<rparr>) = fat_region v"
  by (simp add: fat_region_def fun_eq_iff)

lemma fat_region_lba:
  assumes g: "geom lim v" and c: "in_fat v c"
  shows "fat_region v (fatLba v c)"
    and "fatCount v > 1 \<Longrightarrow> fat_region v (fatLba v c + blocksPerFat v)"
proof -
  let ?n = "unat (blocksPerFat v)"
  have "1 * ?n \<le> unat (fatCount v) * ?n"
    using geom_regions(5) [OF g] by (rule mult_le_mono1)
  then show "fat_region v (fatLba v c)"
    using fatLba_nat [OF g c] unfolding fat_region_def by linarith
  assume m: "fatCount v > 1"
  then have "2 * ?n \<le> unat (fatCount v) * ?n"
    by (intro mult_le_mono1) (simp add: word_less_nat_alt)
  then show "fat_region v (fatLba v c + blocksPerFat v)"
    using fatLba_nat [OF g c] mirror_valid(1) [OF g c m] unfolding fat_region_def by linarith
qed

lemma fat_store_outside:
  assumes "geom lim v" and "in_fat v c" and "\<not> fat_region v b"
  shows "fat_store D v c x b = D b"
  using fat_region_lba [OF assms(1,2)] assms(3) by (auto simp: fat_store_def Let_def)

lemma outside_fat:
  assumes "geom lim v"
  shows "unat (dataStartBlock v) \<le> unat b \<Longrightarrow> \<not> fat_region v b"
    and "\<not> fat_region v 0"
    and "fatType v = 16 \<Longrightarrow> unat (rootDirStart v) \<le> unat b \<Longrightarrow> \<not> fat_region v b"
  using assms by (auto simp: fat_region_def geom_def)

section \<open>fatGet and fatPut refine the table\<close>

text \<open>The mirror that the cache remembers is a block of the tables.\<close>

lemma mirror_in_fat:
  assumes ok: "cache_ok good disk lim s" and g: "geom lim (vol s)" and m: "cacheMirrorBlock s \<noteq> 0"
  shows "fat_region (vol s) (cacheMirrorBlock s)" and "fat_region (vol s) (cacheBlockNumber s)"
proof -
  let ?v = "vol s"
  from ok m have c: "cacheMirrorBlock s = cacheBlockNumber s + blocksPerFat ?v"
    "unat (fatStartBlock ?v) \<le> unat (cacheBlockNumber s)"
    "unat (cacheBlockNumber s) < unat (fatStartBlock ?v) + unat (blocksPerFat ?v)" "fatCount ?v > 1"
    by (auto simp: cache_ok_def)
  have two: "2 * unat (blocksPerFat ?v) \<le> unat (fatCount ?v) * unat (blocksPerFat ?v)"
    using c(4) by (intro mult_le_mono1) (simp add: word_less_nat_alt)
  have "unat (cacheBlockNumber s + blocksPerFat ?v) = unat (cacheBlockNumber s) + unat (blocksPerFat ?v)"
  proof (rule unat_add_small)
    have "unat (cacheBlockNumber s) + unat (blocksPerFat ?v) < 2 ^ 32"
      using two c(3) geom_regions(1-3) [OF g] by linarith
    then show "unat (cacheBlockNumber s) + unat (blocksPerFat ?v) < 2 ^ LENGTH(32)" by simp
  qed
  then have m: "unat (cacheMirrorBlock s) = unat (cacheBlockNumber s) + unat (blocksPerFat ?v)"
    using c(1) by simp
  show "fat_region ?v (cacheMirrorBlock s)"
    unfolding fat_region_def m using c(2,3) two by (intro conjI; linarith)
  show "fat_region ?v (cacheBlockNumber s)"
    unfolding fat_region_def using c(2,3) two by (intro conjI; linarith)
qed

context block_device
begin

lemma fatGet_spec:
  assumes ok: "cache_ok good disk lim s" and g: "geom lim (vol s)" and c: "in_fat (vol s) c"
  obtains s' where "fatGet ops c s = (Some (fat_entry (view disk s) (vol s) c), s')"
    and "quiet good disk lim s s'"
proof -
  let ?b = "fatLba (vol s) c"
  have guard: "\<not> c > clusterCount (vol s) + 1" using in_fat_iff [OF g] c by simp
  note lv = fatLba_valid [OF g c]
  show ?thesis
  proof (cases "?b = cacheBlockNumber s")
    case True
    with ok lv have "cacheBuffer s = view disk s ?b" by (simp add: cache_ok_buffer)
    then have "fatGet ops c s = (Some (fat_entry (view disk s) (vol s) c), s)"
      using guard True by (simp add: fatGet_def Let_def fat_entry_def)
    then show ?thesis by (rule that) (rule quiet_refl [OF ok])
  next
    case False
    obtain s' where s': "cacheRawBlock ops ?b CACHE_FOR_READ s = (True, s')"
        "quiet good disk lim s s'" "cacheBuffer s' = view disk s ?b"
      using cacheRawBlock_spec [OF ok lv(1), of False] by auto
    from s'(2) have "vol s' = vol s" by (rule quietD)
    with s' have "fatGet ops c s = (Some (fat_entry (view disk s) (vol s) c), s')"
      using guard False by (simp add: fatGet_def Let_def fat_entry_def)
    then show ?thesis using s'(2) by (rule that)
  qed
qed

lemma fatGet_outside:
  assumes "geom lim (vol s)" and "\<not> in_fat (vol s) c"
  shows "fatGet ops c s = (None, s)"
  using assms in_fat_iff by (simp add: fatGet_def)

lemma fatPut_spec:
  assumes ok: "cache_ok good disk lim s" and g: "geom lim (vol s)" and c: "data_cluster (vol s) c"
  obtains s' where "fatPut ops c x s = (True, s')" and "cache_ok good disk lim s'"
    and "view disk s' = fat_store (view disk s) (vol s) c x" and "env s' = env s"
    and "cacheBlockNumber s' = fatLba (vol s) c"
proof -
  let ?v = "vol s"
  let ?b = "fatLba ?v c"
  have cf: "in_fat ?v c" using c by (rule data_cluster_in_fat)
  note guard = data_cluster_guard [OF g c] and lv = fatLba_valid [OF g cf]
  obtain s1 where s1: "(if ?b \<noteq> cacheBlockNumber s then cacheRawBlock ops ?b CACHE_FOR_READ s
                        else (True, s)) = (True, s1)" "quiet good disk lim s s1"
      "cacheBlockNumber s1 = ?b" "cacheBuffer s1 = view disk s ?b"
  proof (cases "?b = cacheBlockNumber s")
    case True
    with ok lv show ?thesis
      by (intro that [of s]) (simp_all add: quiet_refl cache_ok_buffer)
  next
    case False
    with cacheRawBlock_spec [OF ok lv(1), of False] that show ?thesis by auto
  qed
  note v1 = quietD(4) [OF s1(2)] and ok1 = quietD(1) [OF s1(2)] and vw = quietD(2) [OF s1(2)]
  let ?buf = "fat_block_put ?v (view disk s ?b) c x"
  let ?s2 = "s1\<lparr>cacheBuffer := ?buf, cacheDirty := True\<rparr>"
  let ?s' = "if fatCount ?v > 1 then ?s2\<lparr>cacheMirrorBlock := ?b + blocksPerFat ?v\<rparr> else ?s2"
  have "fatPut ops c x s = (True, ?s')"
    using guard s1 v1 by (simp add: fatPut_def Let_def fat_block_put_def cacheSetDirty_def)
  moreover have lb: "length ?buf = 512" using ok by (simp add: view_length)
  have "cache_ok good disk lim ?s'"
    using ok1 lv s1(3) v1 lb mirror_valid [OF g cf] fatLba_nat [OF g cf]
    by (auto simp: cache_ok_def)
  moreover have "view disk ?s' = fat_store (view disk s) ?v c x"
  proof (cases "fatCount ?v > 1")
    case True
    have "cacheDirty s1 \<and> cacheMirrorBlock s1 \<noteq> 0 \<Longrightarrow> cacheMirrorBlock s1 = ?b + blocksPerFat ?v"
      using ok1 s1(3) v1 by (auto simp: cache_ok_def)
    then show ?thesis
      using True s1(3) mirror_valid(4) [OF g cf True] vw [symmetric]
      by (auto simp: view_def fat_store_def Let_def fun_eq_iff)
  next
    case False
    then have "cacheMirrorBlock s1 = 0" using ok1 v1 by (auto simp: cache_ok_def)
    then show ?thesis
      using False s1(3) vw [symmetric] by (auto simp: view_def fat_store_def Let_def fun_eq_iff)
  qed
  moreover have "env ?s' = env s"
    using s1(2) by (simp add: quiet_def)
  moreover have "cacheBlockNumber ?s' = ?b" using s1(3) by simp
  ultimately show ?thesis by (rule that)
qed

end

end
