(* ===== verification/FatChain.thy ===== *)
theory FatChain
  imports FatTable
begin

text \<open>
  Cluster chains.  A chain is a list of clusters in which each entry of the table is
  the next cluster and the last entry is an end-of-chain mark.  The lemmas give the
  effect of chainSize, freeChain and allocContiguous on the table as a function.
\<close>

fun chain :: "(u32 \<Rightarrow> u32) \<Rightarrow> (u32 \<Rightarrow> bool) \<Rightarrow> u32 list \<Rightarrow> bool" where
  "chain F e [] = False"
| "chain F e [c] = e (F c)"
| "chain F e (c # d # cs) = (F c = d \<and> \<not> e d \<and> chain F e (d # cs))"

lemma chain_Cons:
  "chain F e (c # cs) \<longleftrightarrow> (cs = [] \<and> e (F c)) \<or>
     (cs \<noteq> [] \<and> F c = hd cs \<and> \<not> e (hd cs) \<and> chain F e cs)"
  by (cases cs) auto

lemma chain_append:
  "ds \<noteq> [] \<Longrightarrow> chain F e (cs @ ds) \<Longrightarrow> chain F e ds"
  by (induction cs) (auto simp: chain_Cons)

lemma chain_unique:
  "chain F e (c # cs) \<Longrightarrow> chain F e (c # ds) \<Longrightarrow> cs = ds"
proof (induction cs arbitrary: c ds)
  case Nil
  then show ?case by (auto simp: chain_Cons)
next
  case (Cons x cs)
  from Cons.prems(1) have x: "F c = x" "\<not> e x" "chain F e (x # cs)" by simp_all
  with Cons.prems(2) obtain ds' where ds: "ds = x # ds'" "chain F e (x # ds')"
    by (cases ds) simp_all
  from Cons.IH [OF x(3) ds(2)] ds(1) show ?case by simp
qed

lemma chain_distinct: "chain F e cs \<Longrightarrow> distinct cs"
proof (induction cs)
  case Nil
  then show ?case by simp
next
  case (Cons c cs)
  have "c \<notin> set cs"
  proof
    assume "c \<in> set cs"
    then obtain xs ys where cs: "cs = xs @ c # ys" by (meson split_list)
    then have "chain F e (c # ys)"
      using Cons.prems chain_append [of "c # ys" F e "c # xs"] by simp
    from chain_unique [OF Cons.prems this] have "length cs = length ys" by simp
    with cs show False by simp
  qed
  moreover have "distinct cs"
    using Cons by (cases cs) (auto simp: chain_Cons)
  ultimately show ?case by simp
qed

lemma chain_cong:
  "chain F e cs \<Longrightarrow> (\<And>c. c \<in> set cs \<Longrightarrow> G c = F c) \<Longrightarrow> chain G e cs"
  by (induction cs) (auto simp: chain_Cons)

text \<open>Links inside a chain, and its last entry.\<close>

lemma chain_nth:
  "chain F e cs \<Longrightarrow> Suc i < length cs \<Longrightarrow> F (cs ! i) = cs ! Suc i"
proof (induction cs arbitrary: i)
  case (Cons c cs)
  then show ?case by (cases i) (auto simp: chain_Cons hd_conv_nth)
qed simp

lemma chain_last: "chain F e cs \<Longrightarrow> e (F (last cs))"
  by (induction cs) (auto simp: chain_Cons)

lemma chain_not_eoc: "chain F e (c # cs) \<Longrightarrow> d \<in> set cs \<Longrightarrow> \<not> e d"
proof (induction cs arbitrary: c)
  case (Cons x cs)
  then show ?case by (auto simp: chain_Cons)
qed simp

lemma chain_snoc:
  "chain F e cs \<Longrightarrow> d \<notin> set cs \<Longrightarrow> \<not> e d \<Longrightarrow> e x \<Longrightarrow> chain (F(last cs := d, d := x)) e (cs @ [d])"
proof (induction cs)
  case (Cons c cs)
  have "c \<notin> set cs" using chain_distinct [OF Cons.prems(1)] by simp
  then have ne: "cs \<noteq> [] \<Longrightarrow> last cs \<noteq> c" using last_in_set by metis
  show ?case
  proof (cases "cs = []")
    case True
    with Cons.prems show ?thesis by auto
  next
    case False
    define G where "G = F(last cs := d, d := x)"
    have "chain G e (cs @ [d])"
      unfolding G_def using Cons False by (auto simp only: chain_Cons set_simps insert_iff)
    moreover have "G c = hd cs" "\<not> e (hd cs)"
      using False ne Cons.prems by (auto simp: chain_Cons G_def)
    ultimately have "chain G e ((c # cs) @ [d])" using False by (simp add: chain_Cons [of _ _ c])
    then show ?thesis unfolding G_def by (simp only: last_ConsR [OF False])
  qed
qed simp

text \<open>The chain of a volume: its clusters all hold data.\<close>

definition fat_chain :: "(u32 \<Rightarrow> u8 list) \<Rightarrow> sdvolume \<Rightarrow> u32 list \<Rightarrow> bool" where
  "fat_chain D v cs \<longleftrightarrow>
     chain (fat_entry D v) (isEOC v) cs \<and> (\<forall>c \<in> set cs. data_cluster v c)"

lemma fat_chain_distinct: "fat_chain D v cs \<Longrightarrow> distinct cs"
  by (auto simp: fat_chain_def chain_distinct)

lemma fat_chain_allocSearchStart [simp]:
  "fat_chain D (v\<lparr>allocSearchStart := a\<rparr>) = fat_chain D v"
  by (simp add: fat_chain_def fun_eq_iff)

section \<open>chainSize\<close>

definition clusterBytes :: "sdvolume \<Rightarrow> nat" where
  "clusterBytes v = 512 * 2 ^ unat (clusterSizeShift v)"

context block_device
begin

lemma chainLoop_chain:
  assumes "cache_ok good disk lim s" and "geom lim (vol s)"
    and "fat_chain (view disk s) (vol s) (c # cs)"
  shows "\<exists>s'. chainLoop ops c n s =
      Some (Some (n + of_nat (length (c # cs)) * push_bit (unat (clusterSizeShift (vol s))) 512), s')
      \<and> quiet good disk lim s s'"
  using assms
proof (induction cs arbitrary: c n s)
  case Nil
  then have "in_fat (vol s) c" by (simp add: fat_chain_def data_cluster_in_fat)
  then obtain s' where s': "fatGet ops c s = (Some (fat_entry (view disk s) (vol s) c), s')"
      "quiet good disk lim s s'"
    using fatGet_spec [OF Nil(1,2)] by blast
  with Nil(3) quietD(4) [OF s'(2)] show ?case
    by (subst chainLoop.simps) (simp add: fat_chain_def Let_def)
next
  case (Cons d cs)
  then have "in_fat (vol s) c" by (simp add: fat_chain_def data_cluster_in_fat)
  then obtain s' where s': "fatGet ops c s = (Some (fat_entry (view disk s) (vol s) c), s')"
      "quiet good disk lim s s'"
    using fatGet_spec [OF Cons.prems(1,2)] by blast
  note q = quietD [OF s'(2)]
  from Cons.prems(3) have ch: "fat_chain (view disk s') (vol s') (d # cs)"
      "fat_entry (view disk s) (vol s) c = d" "\<not> isEOC (vol s) d"
    using q by (auto simp: fat_chain_def)
  from Cons.IH [OF q(1) _ ch(1), of "n + push_bit (unat (clusterSizeShift (vol s))) 512"]
  obtain s'' where "chainLoop ops d (n + push_bit (unat (clusterSizeShift (vol s))) 512) s' =
      Some (Some (n + push_bit (unat (clusterSizeShift (vol s))) 512 +
        of_nat (length (d # cs)) * push_bit (unat (clusterSizeShift (vol s))) 512), s'')"
      "quiet good disk lim s' s''"
    using q(4) Cons.prems(2) by auto
  then show ?case
    using s' ch q(4)
    by (subst chainLoop.simps) (auto simp: Let_def algebra_simps intro: quiet_trans)
qed

text \<open>A size is returned for a chain only: the loop follows the table to an end mark.\<close>

lemma chainLoop_returns:
  assumes ret: "chainLoop ops c n s = Some (Some r, s')"
    and "cache_ok good disk lim s" and "geom lim (vol s)"
  shows "\<exists>cs. chain (fat_entry (view disk s) (vol s)) (isEOC (vol s)) (c # cs)"
proof -
  have "cache_ok good disk lim s \<longrightarrow> geom lim (vol s) \<longrightarrow> fst (Some r, s') \<noteq> None \<longrightarrow>
      (\<exists>cs. chain (fat_entry (view disk s) (vol s)) (isEOC (vol s)) (c # cs))"
  proof (rule chainLoop.raw_induct [where P = "\<lambda>ops' c n s r. ops' = ops \<longrightarrow>
      cache_ok good disk lim s \<longrightarrow> geom lim (vol s) \<longrightarrow> fst r \<noteq> None \<longrightarrow>
      (\<exists>cs. chain (fat_entry (view disk s) (vol s)) (isEOC (vol s)) (c # cs))", OF _ ret,
      THEN mp, OF _ refl])
    fix f and ops' :: "'c card_ops" and c n :: u32 and s :: "'c fs" and r
    assume IH: "\<And>ops' c n s r. f ops' c n s = Some r \<Longrightarrow> ops' = ops \<longrightarrow>
        cache_ok good disk lim s \<longrightarrow> geom lim (vol s) \<longrightarrow> fst r \<noteq> None \<longrightarrow>
        (\<exists>cs. chain (fat_entry (view disk s) (vol s)) (isEOC (vol s)) (c # cs))"
      and step: "(case fatGet ops' c s of (None, s) \<Rightarrow> Some (None, s)
        | (Some cluster, s) \<Rightarrow>
            let n = n + push_bit (unat (clusterSizeShift (vol s))) 512
            in if isEOC (vol s) cluster then Some (Some n, s) else f ops' cluster n s) = Some r"
    show "ops' = ops \<longrightarrow> cache_ok good disk lim s \<longrightarrow> geom lim (vol s) \<longrightarrow> fst r \<noteq> None \<longrightarrow>
        (\<exists>cs. chain (fat_entry (view disk s) (vol s)) (isEOC (vol s)) (c # cs))"
    proof (intro impI)
      assume o: "ops' = ops" and ok: "cache_ok good disk lim s" and g: "geom lim (vol s)"
        and r: "fst r \<noteq> None"
      have "in_fat (vol s) c"
        using step r o fatGet_outside [OF g] by (rule_tac ccontr) auto
      then obtain s1 where s1: "fatGet ops c s = (Some (fat_entry (view disk s) (vol s) c), s1)"
          "quiet good disk lim s s1"
        using fatGet_spec [OF ok g] by blast
      note q = quietD [OF s1(2)]
      let ?d = "fat_entry (view disk s) (vol s) c"
      show "\<exists>cs. chain (fat_entry (view disk s) (vol s)) (isEOC (vol s)) (c # cs)"
      proof (cases "isEOC (vol s) ?d")
        case True
        then have "chain (fat_entry (view disk s) (vol s)) (isEOC (vol s)) [c]" by simp
        then show ?thesis by blast
      next
        case False
        with step o s1 q(4) have "f ops ?d (n + push_bit (unat (clusterSizeShift (vol s))) 512) s1 = Some r"
          by (simp add: Let_def)
        from IH [OF this] q g r obtain cs where
          "chain (fat_entry (view disk s) (vol s)) (isEOC (vol s)) (?d # cs)" by auto
        with False have "chain (fat_entry (view disk s) (vol s)) (isEOC (vol s)) (c # ?d # cs)" by simp
        then show ?thesis by blast
      qed
    qed
  qed
  with assms(2,3) show ?thesis by simp
qed

end

section \<open>Steps that only change the table\<close>

lemma geo_volume:
  assumes "env_geo s' = env_geo s"
  shows "fat_entry D (vol s') = fat_entry D (vol s)" and "in_fat (vol s') = in_fat (vol s)"
    and "data_cluster (vol s') = data_cluster (vol s)" and "geom lim (vol s') = geom lim (vol s)"
    and "isEOC (vol s') = isEOC (vol s)" and "fat_trunc (vol s') = fat_trunc (vol s)"
    and "fat_region (vol s') = fat_region (vol s)" and "clusterCount (vol s') = clusterCount (vol s)"
    and "fat_chain D (vol s') = fat_chain D (vol s)"
proof -
  from assms have e: "vol s'\<lparr>allocSearchStart := 0\<rparr> = vol s\<lparr>allocSearchStart := 0\<rparr>"
    by (simp add: env_geo_def)
  show "fat_entry D (vol s') = fat_entry D (vol s)" "in_fat (vol s') = in_fat (vol s)"
    "data_cluster (vol s') = data_cluster (vol s)" "geom lim (vol s') = geom lim (vol s)"
    "isEOC (vol s') = isEOC (vol s)" "fat_trunc (vol s') = fat_trunc (vol s)"
    "fat_region (vol s') = fat_region (vol s)" "fat_chain D (vol s') = fat_chain D (vol s)"
    using fat_entry_allocSearchStart [where v = "vol s" and a = 0] fat_entry_allocSearchStart [where v = "vol s'" and a = 0]
      in_fat_allocSearchStart [where v = "vol s" and a = 0] in_fat_allocSearchStart [where v = "vol s'" and a = 0]
      geom_allocSearchStart [where v = "vol s" and a = 0] geom_allocSearchStart [where v = "vol s'" and a = 0]
      fat_region_allocSearchStart [where v = "vol s" and a = 0] fat_region_allocSearchStart [where v = "vol s'" and a = 0]
      fat_chain_allocSearchStart [where v = "vol s" and a = 0] fat_chain_allocSearchStart [where v = "vol s'" and a = 0] e
    by metis+
  from e show "clusterCount (vol s') = clusterCount (vol s)"
    by (metis sdvolume.select_convs(4) sdvolume.surjective sdvolume.update_convs(1))
qed

text \<open>
  \<open>fat_updated s s' F\<close>: from \<open>s\<close> to \<open>s'\<close> the table has become \<open>F\<close>, and no block outside
  the FATs and no other part of the state has changed.
\<close>

definition fat_updated ::
  "('c \<Rightarrow> bool) \<Rightarrow> ('c \<Rightarrow> u32 \<Rightarrow> u8 list) \<Rightarrow> nat \<Rightarrow> 'c fs \<Rightarrow> 'c fs \<Rightarrow> (u32 \<Rightarrow> u32) \<Rightarrow> bool" where
  "fat_updated good disk lim s s' F \<longleftrightarrow>
     cache_ok good disk lim s' \<and> env_geo s' = env_geo s \<and>
     (\<forall>y. in_fat (vol s) y \<longrightarrow> fat_entry (view disk s') (vol s) y = F y) \<and>
     (\<forall>b. \<not> fat_region (vol s) b \<longrightarrow> view disk s' b = view disk s b)"

lemma fat_updatedD:
  assumes "fat_updated good disk lim s s' F"
  shows "cache_ok good disk lim s'" and "env_geo s' = env_geo s"
    and "\<And>y. in_fat (vol s) y \<Longrightarrow> fat_entry (view disk s') (vol s') y = F y"
    and "\<And>b. \<not> fat_region (vol s) b \<Longrightarrow> view disk s' b = view disk s b"
  using assms geo_volume(1) [of s' s] by (auto simp: fat_updated_def)

lemma fat_updated_trans:
  assumes 1: "fat_updated good disk lim s s1 F" and 2: "fat_updated good disk lim s1 s2 G"
  shows "fat_updated good disk lim s s2 G"
  using assms geo_volume [of s1 s] by (auto simp: fat_updated_def)

lemma fat_updated_alloc [simp]:
  "fat_updated good disk lim s (s'\<lparr>vol := vol s'\<lparr>allocSearchStart := a\<rparr>\<rparr>) F =
     fat_updated good disk lim s s' F"
  by (simp add: fat_updated_def)

lemma fat_updated_cong:
  "fat_updated good disk lim s s' F \<Longrightarrow> (\<And>y. in_fat (vol s) y \<Longrightarrow> G y = F y) \<Longrightarrow>
     fat_updated good disk lim s s' G"
  by (simp add: fat_updated_def)

lemma quiet_fat_updated:
  "quiet good disk lim s s' \<Longrightarrow> fat_updated good disk lim s s' (fat_entry (view disk s) (vol s))"
  by (auto simp: fat_updated_def dest: quietD env_imp_env_geo)

lemma fat_trunc_cluster:
  assumes "geom lim v" and "data_cluster v c"
  shows "fat_trunc v c = c"
proof -
  have c: "unat c < eocMin v" using assms by (simp add: data_cluster_def geom_def)
  show ?thesis
  proof (cases "fatType v = 16")
    case True
    with c have "unat c < 2 ^ 16" by (simp add: eocMin_def)
    then show ?thesis
      using True by (simp add: fat_trunc_def take_bit_word_eq_self word_less_nat_alt
          word_unat_eq_iff unat_take_bit_mod)
  next
    case False
    with c have "unat c < 2 ^ 28" by (simp add: eocMin_def)
    moreover have "c AND FAT32MASK = take_bit 28 c"
      by (simp add: take_bit_eq_mask mask_eq_exp_minus_1)
    ultimately show ?thesis
      using False by (simp add: fat_trunc_def word_unat_eq_iff unat_take_bit_mod)
  qed
qed

lemma fat_trunc_0 [simp]: "fat_trunc v 0 = 0"
  by (simp add: fat_trunc_def)

lemma fat_trunc_EOC:
  assumes "fatType v = 16 \<or> fatType v = 32"
  shows "isEOC v (fat_trunc v 0x0FFFFFFF)"
  using assms by (auto simp: isEOC_def fat_trunc_def take_bit_eq_mask mask_eq_exp_minus_1)

context block_device
begin

lemma fatPut_updates:
  assumes "cache_ok good disk lim s" and "geom lim (vol s)" and "data_cluster (vol s) c"
  obtains s' where "fatPut ops c x s = (True, s')" and "env s' = env s"
    and "fat_updated good disk lim s s'
           ((fat_entry (view disk s) (vol s))(c := fat_trunc (vol s) x))"
    and "fat_region (vol s) (cacheBlockNumber s')"
proof -
  note cf = data_cluster_in_fat [OF assms(3)]
  obtain s' where s': "fatPut ops c x s = (True, s')" "cache_ok good disk lim s'"
      "view disk s' = fat_store (view disk s) (vol s) c x" "env s' = env s"
      "cacheBlockNumber s' = fatLba (vol s) c"
    using fatPut_spec [OF assms] by blast
  have "fat_updated good disk lim s s'
      ((fat_entry (view disk s) (vol s))(c := fat_trunc (vol s) x))"
    using fat_entry_fat_store [OF assms(2) cf] fat_store_outside [OF assms(2) cf]
      view_length [OF assms(1)] s'(2,3) env_imp_env_geo [OF s'(4)]
    by (simp add: fat_updated_def)
  then show ?thesis
    using s'(5) fat_region_lba(1) [OF assms(2) cf] by (intro that [OF s'(1,4)]) simp_all
qed

section \<open>freeChain\<close>

text \<open>One round of the loop of freeChain: read the entry, then clear it.\<close>

lemma free_step:
  assumes "cache_ok good disk lim s" and "geom lim (vol s)" and "data_cluster (vol s) c"
  obtains s1 s2 where "fatGet ops c s = (Some (fat_entry (view disk s) (vol s) c), s1)"
    and "fatPut ops c 0 s1 = (True, s2)" and "env s2 = env s"
    and "fat_updated good disk lim s s2 ((fat_entry (view disk s) (vol s))(c := 0))"
proof -
  obtain s1 where s1: "fatGet ops c s = (Some (fat_entry (view disk s) (vol s) c), s1)"
      "quiet good disk lim s s1"
    using fatGet_spec [OF assms(1,2) data_cluster_in_fat [OF assms(3)]] by blast
  note q = quietD [OF s1(2)]
  obtain s2 where s2: "fatPut ops c 0 s1 = (True, s2)" "env s2 = env s1"
      "fat_updated good disk lim s1 s2 ((fat_entry (view disk s1) (vol s1))(c := fat_trunc (vol s1) 0))"
    using fatPut_updates [of s1 c 0] q(1,4) assms(2,3) by auto
  from fat_updated_trans [OF quiet_fat_updated [OF s1(2)] s2(3)]
  have "fat_updated good disk lim s s2 ((fat_entry (view disk s) (vol s))(c := 0))"
    by (simp only: q(2,4) fat_trunc_0)
  moreover have "env s2 = env s" by (simp only: s2(2) q(3))
  ultimately show ?thesis using s1(1) s2(1) by (intro that)
qed

lemma freeLoop_chain:
  assumes "cache_ok good disk lim s" and "geom lim (vol s)"
    and "fat_chain (view disk s) (vol s) (c # cs)"
  shows "\<exists>s'. freeLoop ops c s = Some (True, s') \<and> env s' = env s \<and>
      fat_updated good disk lim s s'
        (\<lambda>y. if y \<in> set (c # cs) then 0 else fat_entry (view disk s) (vol s) y)"
  using assms
proof (induction cs arbitrary: c s)
  case Nil
  then have c: "data_cluster (vol s) c" by (simp add: fat_chain_def)
  from free_step [OF Nil(1,2) c] obtain s1 s2 where
    st: "fatGet ops c s = (Some (fat_entry (view disk s) (vol s) c), s1)"
      "fatPut ops c 0 s1 = (True, s2)" "env s2 = env s"
      "fat_updated good disk lim s s2 ((fat_entry (view disk s) (vol s))(c := 0))" .
  then show ?case
    using Nil(3) env_vol [OF st(3)]
    by (subst freeLoop.simps) (auto simp: fat_chain_def elim: fat_updated_cong)
next
  case (Cons d cs)
  then have c: "data_cluster (vol s) c" by (simp add: fat_chain_def)
  have cd: "c \<notin> set (d # cs)" using fat_chain_distinct [OF Cons.prems(3)] by simp
  from free_step [OF Cons.prems(1,2) c] obtain s1 s2 where
    st: "fatGet ops c s = (Some (fat_entry (view disk s) (vol s) c), s1)"
      "fatPut ops c 0 s1 = (True, s2)" "env s2 = env s"
      "fat_updated good disk lim s s2 ((fat_entry (view disk s) (vol s))(c := 0))" .
  note v2 = env_vol [OF st(3)] and u = fat_updatedD [OF st(4)]
  have ch: "fat_entry (view disk s) (vol s) c = d" "\<not> isEOC (vol s) d"
    using Cons.prems(3) by (auto simp: fat_chain_def)
  have "fat_chain (view disk s2) (vol s2) (d # cs)"
    using Cons.prems(3) cd u(3) v2
    by (auto simp: fat_chain_def data_cluster_in_fat elim!: chain_cong)
  from Cons.IH [OF u(1) _ this] Cons.prems(2) v2 obtain s3 where
    s3: "freeLoop ops d s2 = Some (True, s3)" "env s3 = env s2"
      "fat_updated good disk lim s2 s3
        (\<lambda>y. if y \<in> set (d # cs) then 0 else fat_entry (view disk s2) (vol s2) y)"
    by auto
  have "fat_updated good disk lim s s3
      (\<lambda>y. if y \<in> set (c # d # cs) then 0 else fat_entry (view disk s) (vol s) y)"
    by (rule fat_updated_cong [OF fat_updated_trans [OF st(4) s3(3)]]) (simp add: u(3))
  then show ?case
    using st s3 ch v2 by (subst freeLoop.simps) auto
qed

lemma freeChain_chain:
  assumes "cache_ok good disk lim s" and "geom lim (vol s)"
    and "fat_chain (view disk s) (vol s) (c # cs)"
  shows "\<exists>s'. freeChain ops c s = Some (True, s') \<and>
      vol s' = vol s\<lparr>allocSearchStart := 2\<rparr> \<and>
      fat_updated good disk lim s s'
        (\<lambda>y. if y \<in> set (c # cs) then 0 else fat_entry (view disk s) (vol s) y)"
proof -
  let ?s = "s\<lparr>vol := vol s\<lparr>allocSearchStart := 2\<rparr>\<rparr>"
  have ok: "cache_ok good disk lim ?s" and vw: "view disk ?s = view disk s"
    using assms(1) by (auto simp: cache_ok_def view_def fun_eq_iff)
  obtain s' where "freeLoop ops c ?s = Some (True, s')" "env s' = env ?s"
      "fat_updated good disk lim ?s s'
        (\<lambda>y. if y \<in> set (c # cs) then 0 else fat_entry (view disk ?s) (vol ?s) y)"
    using freeLoop_chain [OF ok, of c cs] assms(2,3) vw by auto
  then show ?thesis
    using env_vol [of s' ?s] vw by (auto simp: freeChain_def fat_updated_def)
qed

text \<open>On any table at all, freeing a chain comes to an end.\<close>

lemma fatPut_reject:
  assumes "geom lim (vol s)" and "\<not> data_cluster (vol s) c"
  shows "fatPut ops c x s = (False, s)"
  using assms in_fat_iff [OF assms(1), of c]
  by (auto simp: fatPut_def data_cluster_def in_fat_def word_less_nat_alt)

lemma freeLoop_not_data:
  assumes ok: "cache_ok good disk lim s" and g: "geom lim (vol s)" and c: "\<not> data_cluster (vol s) c"
  shows "\<exists>s'. freeLoop ops c s = Some (False, s')"
proof (cases "in_fat (vol s) c")
  case False
  then show ?thesis using fatGet_outside [OF g] by (subst freeLoop.simps) simp
next
  case True
  then obtain s1 where s1: "fatGet ops c s = (Some (fat_entry (view disk s) (vol s) c), s1)"
      "quiet good disk lim s s1"
    using fatGet_spec [OF ok g] by blast
  have "fatPut ops c 0 s1 = (False, s1)"
    using fatPut_reject g c quietD(4) [OF s1(2)] by simp
  with s1 show ?thesis by (subst freeLoop.simps) simp
qed

lemma freeLoop_returns:
  assumes "cache_ok good disk lim s" and "geom lim (vol s)"
  shows "\<exists>r s'. freeLoop ops c s = Some (r, s')"
  using assms
proof (induction "Finite_Set.card {x. data_cluster (vol s) x \<and> fat_entry (view disk s) (vol s) x \<noteq> 0}"
       arbitrary: s c rule: less_induct)
  case less
  let ?F = "fat_entry (view disk s) (vol s)"
  show ?case
  proof (cases "data_cluster (vol s) c")
    case False
    with freeLoop_not_data less.prems show ?thesis by blast
  next
    case True
    from free_step [OF less.prems True] obtain s1 s2 where
      st: "fatGet ops c s = (Some (?F c), s1)" "fatPut ops c 0 s1 = (True, s2)" "env s2 = env s"
        "fat_updated good disk lim s s2 (?F(c := 0))" .
    note v2 = env_vol [OF st(3)] and u = fat_updatedD [OF st(4)]
    have g2: "geom lim (vol s2)" using less.prems(2) v2 by simp
    have "\<exists>r s'. freeLoop ops (?F c) s2 = Some (r, s')"
    proof (cases "data_cluster (vol s) (?F c)")
      case False
      with freeLoop_not_data [OF u(1) g2, of "?F c"] v2 show ?thesis by auto
    next
      case d: True
      then have "?F c \<noteq> 0" using data_cluster_guard(3) [OF less.prems(2)] by blast
      then have "{x. data_cluster (vol s2) x \<and> fat_entry (view disk s2) (vol s2) x \<noteq> 0}
          \<subset> {x. data_cluster (vol s) x \<and> ?F x \<noteq> 0}"
      proof (intro psubsetI)
        show "{x. data_cluster (vol s2) x \<and> fat_entry (view disk s2) (vol s2) x \<noteq> 0}
            \<subseteq> {x. data_cluster (vol s) x \<and> ?F x \<noteq> 0}"
          using v2 u(3) by (auto simp: data_cluster_in_fat split: if_splits)
        have "fat_entry (view disk s2) (vol s2) c = 0"
          using u(3) [of c] True by (simp add: data_cluster_in_fat)
        then show "{x. data_cluster (vol s2) x \<and> fat_entry (view disk s2) (vol s2) x \<noteq> 0}
            \<noteq> {x. data_cluster (vol s) x \<and> ?F x \<noteq> 0}"
          using True \<open>?F c \<noteq> 0\<close> by auto
      qed
      then have "Finite_Set.card {x. data_cluster (vol s2) x \<and> fat_entry (view disk s2) (vol s2) x \<noteq> 0}
          < Finite_Set.card {x. data_cluster (vol s) x \<and> ?F x \<noteq> 0}"
        by (intro psubset_card_mono) simp_all
      from less.hyps [OF this u(1) g2] show ?thesis .
    qed
    then show ?thesis using st by (subst freeLoop.simps) auto
  qed
qed

end

section \<open>allocContiguous\<close>

text \<open>The search finds a run of free clusters, and changes nothing.\<close>

definition free_run :: "(u32 \<Rightarrow> u32) \<Rightarrow> sdvolume \<Rightarrow> u32 \<Rightarrow> u32 \<Rightarrow> u32 \<Rightarrow> bool" where
  "free_run F v count b e \<longleftrightarrow>
     2 \<le> unat b \<and> unat b \<le> unat e \<and> unat e \<le> unat (clusterCount v) + 1 \<and>
     unat e + 1 = unat b + unat count \<and>
     (\<forall>x. unat b \<le> unat x \<and> unat x \<le> unat e \<longrightarrow> F x = 0)"

context block_device
begin

lemma allocSearch_sound:
  assumes "cache_ok good disk lim s" and "geom lim (vol s)"
    and "k \<le> unat (clusterCount (vol s))"
    and "2 \<le> unat b" and "unat b \<le> unat e" and "unat e \<le> unat (clusterCount (vol s)) + 2"
    and "\<And>x. unat b \<le> unat x \<Longrightarrow> unat x < unat e \<Longrightarrow> fat_entry (view disk s) (vol s) x = 0"
  shows "\<exists>r s'. allocSearch ops k count (clusterCount (vol s) + 1) b e s = (r, s') \<and>
      quiet good disk lim s s' \<and>
      (\<forall>b' e'. r = Some (b', e') \<longrightarrow>
         free_run (fat_entry (view disk s) (vol s)) (vol s) count b' e')"
  using assms
proof (induction k arbitrary: b e s)
  case 0
  then show ?case by (auto simp: quiet_refl)
next
  case (Suc k)
  let ?v = "vol s" and ?F = "fat_entry (view disk s) (vol s)"
  let ?b = "if e > clusterCount ?v + 1 then 2 else b" and ?e = "if e > clusterCount ?v + 1 then 2 else e"
  have big: "unat (clusterCount ?v) + 2 < 2 ^ 32"
    using Suc.prems(2) by (auto simp: geom_def eocMin_def split: if_splits)
  have e: "2 \<le> unat ?b" "unat ?b \<le> unat ?e" "unat ?e \<le> unat (clusterCount ?v) + 1"
    using Suc.prems in_fat_iff [OF Suc.prems(2), of e] by (auto simp: in_fat_def)
  have zero: "?F x = 0" if "unat ?b \<le> unat x" "unat x < unat ?e" for x
    using that Suc.prems(7) by (auto split: if_splits)
  then have "in_fat ?v ?e" using e by (simp add: in_fat_def)
  then obtain s1 where s1: "fatGet ops ?e s = (Some (?F ?e), s1)" "quiet good disk lim s s1"
    using fatGet_spec [OF Suc.prems(1,2)] by blast
  note q = quietD [OF s1(2)]
  have e1: "unat (?e + 1) = unat ?e + 1"
    using e big by (intro unat_Suc_small) simp
  consider (used) "?F ?e \<noteq> 0" | (found) "?F ?e = 0" "?e - ?b + 1 = count"
    | (more) "?F ?e = 0" "?e - ?b + 1 \<noteq> count" by blast
  then show ?case
  proof cases
    case used
    have "\<exists>r s'. allocSearch ops k count (clusterCount (vol s1) + 1) (?e + 1) (?e + 1) s1 = (r, s') \<and>
      quiet good disk lim s1 s' \<and>
      (\<forall>b' e'. r = Some (b', e') \<longrightarrow> free_run (fat_entry (view disk s1) (vol s1)) (vol s1) count b' e')"
      using Suc.prems(2,3) e e1 q by (intro Suc.IH) auto
    then show ?thesis using s1 used q(2,4) quiet_trans [OF s1(2)]
      by (auto simp: Let_def split: if_splits)
  next
    case found
    have "unat (?e - ?b + 1) = unat ?e - unat ?b + 1"
      using e big by (subst unat_Suc_small) (auto simp: unat_sub_small)
    with found(2) e have "unat ?e + 1 = unat ?b + unat count" by auto
    moreover have "?F x = 0" if "unat ?b \<le> unat x" "unat x \<le> unat ?e" for x
      proof (cases "unat x = unat ?e")
      case True
      then have "x = ?e" by (rule word_unat_eq_iff [THEN iffD2])
      with found(1) show ?thesis by (simp only:)
    next
      case False
      with that(2) show ?thesis by (intro zero [OF that(1)]) simp
    qed
    ultimately have "free_run ?F ?v count ?b ?e" using e by (simp add: free_run_def)
    then show ?thesis using s1 found by (auto simp: Let_def split: if_splits)
  next
    case more
    have "?F x = 0" if "unat ?b \<le> unat x" "unat x < unat (?e + 1)" for x
      proof (cases "unat x = unat ?e")
      case True
      then have "x = ?e" by (rule word_unat_eq_iff [THEN iffD2])
      with more(1) show ?thesis by (simp only:)
    next
      case False
      with that(2) e1 show ?thesis by (intro zero [OF that(1)]) simp
    qed
    then have "\<exists>r s'. allocSearch ops k count (clusterCount (vol s1) + 1) ?b (?e + 1) s1 = (r, s') \<and>
      quiet good disk lim s1 s' \<and>
      (\<forall>b' e'. r = Some (b', e') \<longrightarrow> free_run (fat_entry (view disk s1) (vol s1)) (vol s1) count b' e')"
      using Suc.prems(2,3) e e1 q by (intro Suc.IH) auto
    then show ?thesis using s1 more q(2,4) quiet_trans [OF s1(2)]
      by (auto simp: Let_def split: if_splits)
  qed
qed

text \<open>The linking loop makes every cluster of the run point to its successor.\<close>

lemma linkClusters_spec:
  assumes "cache_ok good disk lim s" and "geom lim (vol s)"
    and "data_cluster (vol s) b" and "data_cluster (vol s) e"
  shows "\<exists>s'. linkClusters ops b e s = (True, s') \<and> env s' = env s \<and>
      fat_updated good disk lim s s'
        (\<lambda>y. if unat b \<le> unat y \<and> unat y < unat e then y + 1
             else fat_entry (view disk s) (vol s) y) \<and>
      (fat_region (vol s) (cacheBlockNumber s) \<longrightarrow> fat_region (vol s) (cacheBlockNumber s'))"
  using assms
proof (induction "unat e - unat b" arbitrary: e s)
  case 0
  then show ?case
    using quiet_fat_updated [OF quiet_refl [OF 0(2)]]
    by (subst linkClusters.simps) (auto simp: word_less_nat_alt elim!: fat_updated_cong)
next
  case (Suc n)
  let ?F = "fat_entry (view disk s) (vol s)"
  have gt: "unat b < unat e" using Suc.hyps(2) by simp
  then have e1: "unat (e - 1) = unat e - 1" using unat_sub_small [of 1 e] by simp
  have d1: "data_cluster (vol s) (e - 1)"
    using Suc.prems(3,4) gt e1 by (auto simp: data_cluster_def)
  obtain s1 where s1: "fatPut ops (e - 1) e s = (True, s1)" "env s1 = env s"
      "fat_updated good disk lim s s1 (?F(e - 1 := fat_trunc (vol s) e))"
      "fat_region (vol s) (cacheBlockNumber s1)"
    using fatPut_updates [OF Suc.prems(1,2) d1] by blast
  note v1 = env_vol [OF s1(2)] and u = fat_updatedD [OF s1(3)]
  have tr: "fat_trunc (vol s) e = e"
    using fat_trunc_cluster [OF Suc.prems(2,4)] .
  have n: "n = unat (e - 1) - unat b" using Suc.hyps(2) e1 by simp
  obtain s2 where s2: "linkClusters ops b (e - 1) s1 = (True, s2)" "env s2 = env s1"
      "fat_updated good disk lim s1 s2
        (\<lambda>y. if unat b \<le> unat y \<and> unat y < unat (e - 1) then y + 1
             else fat_entry (view disk s1) (vol s1) y)"
      "fat_region (vol s) (cacheBlockNumber s2)"
    using s1(4) Suc.hyps(1) [of "e - 1" s1] n u(1) v1 Suc.prems(2,3) d1 by auto
  have "fat_updated good disk lim s s2
      (\<lambda>y. if unat b \<le> unat y \<and> unat y < unat e then y + 1 else ?F y)"
  proof (rule fat_updated_cong [OF fat_updated_trans [OF s1(3) s2(3)]])
    fix y assume y: "in_fat (vol s) y"
    have "y = e - 1 \<longleftrightarrow> unat y = unat e - 1"
      using e1 by (simp add: word_unat_eq_iff)
    then show "(if unat b \<le> unat y \<and> unat y < unat e then y + 1 else ?F y) =
        (if unat b \<le> unat y \<and> unat y < unat (e - 1) then y + 1
         else fat_entry (view disk s1) (vol s1) y)"
      using u(3) [OF y] e1 tr gt by auto
  qed
  moreover have "linkClusters ops b e s = (True, s2)"
    using s1(1) s2(1) gt by (subst linkClusters.simps) (simp add: word_less_nat_alt)
  ultimately show ?case using s1(2) s2(2,4) by auto
qed

end

text \<open>The table after a successful allocation.\<close>

definition alloc_table :: "(u32 \<Rightarrow> u32) \<Rightarrow> sdvolume \<Rightarrow> u32 \<Rightarrow> u32 \<Rightarrow> u32 \<Rightarrow> u32 \<Rightarrow> u32" where
  "alloc_table F v cur b e y =
     (if unat b \<le> unat y \<and> unat y < unat e then y + 1
      else if y = e then fat_trunc v 0x0FFFFFFF
      else if cur \<noteq> 0 \<and> y = cur then b else F y)"

lemma free_run_clusters:
  assumes "free_run F v count b e"
  shows "data_cluster v b" and "data_cluster v e" and "F b = 0" and "F e = 0"
  using assms by (auto simp: free_run_def data_cluster_def)

context block_device
begin

lemma allocContiguous_spec:
  assumes ok: "cache_ok good disk lim s" and g: "geom lim (vol s)"
    and start: "2 \<le> unat (allocSearchStart (vol s))"
      "unat (allocSearchStart (vol s)) \<le> unat (clusterCount (vol s)) + 2"
    and cur: "cur \<noteq> 0 \<Longrightarrow> data_cluster (vol s) cur \<and> fat_entry (view disk s) (vol s) cur \<noteq> 0"
  shows "(\<exists>s'. allocContiguous ops count cur s = (None, s') \<and> quiet good disk lim s s' \<and>
       allocSearch ops (unat (clusterCount (vol s))) count (clusterCount (vol s) + 1)
         (if cur \<noteq> 0 then cur + 1 else allocSearchStart (vol s))
         (if cur \<noteq> 0 then cur + 1 else allocSearchStart (vol s)) s = (None, s')) \<or>
    (\<exists>b e s'. allocContiguous ops count cur s = (Some b, s') \<and>
       free_run (fat_entry (view disk s) (vol s)) (vol s) count b e \<and>
       fat_updated good disk lim s s' (alloc_table (fat_entry (view disk s) (vol s)) (vol s) cur b e) \<and>
       vol s' = (if cur = 0 \<and> count = 1 then vol s\<lparr>allocSearchStart := b + 1\<rparr> else vol s) \<and>
       fat_region (vol s) (cacheBlockNumber s'))"
proof -
  let ?v = "vol s" and ?F = "fat_entry (view disk s) (vol s)"
  let ?b = "if cur \<noteq> 0 then cur + 1 else allocSearchStart ?v"
  have cur1: "unat (cur + 1) = unat cur + 1" if "cur \<noteq> 0"
  proof (rule unat_Suc_small)
    show "unat cur + 1 < 2 ^ LENGTH(32)"
      using cur [OF that] g by (auto simp: geom_def eocMin_def data_cluster_def split: if_splits)
  qed
  have b: "2 \<le> unat ?b" "unat ?b \<le> unat (clusterCount ?v) + 2"
    using start cur cur1 by (auto simp: data_cluster_def)
  obtain r s1 where s1: "allocSearch ops (unat (clusterCount ?v)) count (clusterCount ?v + 1) ?b ?b s = (r, s1)"
      "quiet good disk lim s s1" "\<And>b' e'. r = Some (b', e') \<Longrightarrow> free_run ?F ?v count b' e'"
    using allocSearch_sound [OF ok g order_refl b(1) order_refl b(2), of count]
    by (fastforce simp: not_less)
  note q = quietD [OF s1(2)]
  show ?thesis
  proof (cases r)
    case None
    then show ?thesis
      using s1(1,2) by (auto simp: allocContiguous_def Let_def split: if_splits)
  next
    case (Some p)
    then obtain b' e' where p: "r = Some (b', e')" by (cases p) auto
    note fr = s1(3) [OF p] and frc = free_run_clusters [OF s1(3) [OF p]]
    have g1: "geom lim (vol s1)" using g q(4) by simp
    obtain s2 where s2: "fatPutEOC ops e' s1 = (True, s2)" "env s2 = env s1"
        "fat_updated good disk lim s1 s2 (?F(e' := fat_trunc ?v 0x0FFFFFFF))"
        "fat_region ?v (cacheBlockNumber s2)"
      using fatPut_updates [OF q(1) g1, of e' "0x0FFFFFFF"] frc(2) q(2,4)
      by (auto simp: fatPutEOC_def)
    note v2 = env_vol [OF s2(2)] and u2 = fat_updatedD [OF s2(3)]
    obtain s3 where s3: "linkClusters ops b' e' s2 = (True, s3)" "env s3 = env s2"
        "fat_updated good disk lim s2 s3
          (\<lambda>y. if unat b' \<le> unat y \<and> unat y < unat e' then y + 1
               else fat_entry (view disk s2) (vol s2) y)"
        "fat_region ?v (cacheBlockNumber s3)"
      using linkClusters_spec [OF u2(1), of b' e'] v2 g1 q(4) frc s2(4) by auto
    note v3 = env_vol [OF s3(2)] and u3 = fat_updatedD [OF s3(3)]
    have up3: "fat_updated good disk lim s s3 (alloc_table ?F ?v 0 b' e')"
      by (rule fat_updated_cong [OF fat_updated_trans [OF quiet_fat_updated [OF s1(2)]
            fat_updated_trans [OF s2(3) s3(3)]]])
         (use u2(3) q(4) in \<open>auto simp: alloc_table_def\<close>)
    show ?thesis
    proof (cases "cur = 0")
      case True
      have "fat_updated good disk lim s
          (s3\<lparr>vol := vol s3\<lparr>allocSearchStart := b' + 1\<rparr>\<rparr>) (alloc_table ?F ?v cur b' e')"
        using up3 True by simp
      moreover have "allocContiguous ops count cur s =
          (Some b', if count = 1 then s3\<lparr>vol := vol s3\<lparr>allocSearchStart := b' + 1\<rparr>\<rparr> else s3)"
        using True s1(1) p s2(1) s3(1) by (simp add: allocContiguous_def)
      ultimately show ?thesis
        using True up3 v3 v2 q(4) fr s3(4) by (cases "count = 1") auto
    next
      case False
      have c3: "data_cluster (vol s3) cur" using cur [OF False] v3 v2 q(4) by simp
      obtain s4 where s4: "fatPut ops cur b' s3 = (True, s4)" "env s4 = env s3"
          "fat_updated good disk lim s3 s4
            ((fat_entry (view disk s3) (vol s3))(cur := fat_trunc (vol s3) b'))"
          "fat_region (vol s3) (cacheBlockNumber s4)"
        using fatPut_updates [OF u3(1) _ c3] g1 v3 v2 by auto
      have tr: "fat_trunc (vol s3) b' = b'"
        using fat_trunc_cluster [OF g frc(1)] v3 v2 q(4) by simp
      have nin: "\<not> (unat b' \<le> unat cur \<and> unat cur \<le> unat e')"
        using fr cur [OF False] by (auto simp: free_run_def)
      have "fat_updated good disk lim s s4 (alloc_table ?F ?v cur b' e')"
      proof (rule fat_updated_cong [OF fat_updated_trans [OF up3 s4(3)]])
        fix y assume "in_fat ?v y"
        with fat_updatedD(3) [OF up3] have "fat_entry (view disk s3) (vol s3) y = alloc_table ?F ?v 0 b' e' y"
          by simp
        then show "alloc_table ?F ?v cur b' e' y =
            ((fat_entry (view disk s3) (vol s3))(cur := fat_trunc (vol s3) b')) y"
          using nin False fr by (auto simp: alloc_table_def tr free_run_def)
      qed
      moreover have "allocContiguous ops count cur s = (Some b', s4)"
        using False s1(1) p s2(1) s3(1) s4(1) by (simp add: allocContiguous_def)
      ultimately show ?thesis
        using False env_vol [OF s4(2)] v3 v2 q(4) fr s4(4) by auto
    qed
  qed
qed

end

end
