(* ===== verification/FatAlloc.thy ===== *)
theory FatAlloc
  imports FatChain
begin

text \<open>
  Further facts on the table: a single cluster is allocated whenever one is free, and
  chainSize follows a chain, or does not return on a cyclic table.
\<close>

section \<open>Allocating one cluster\<close>

definition free_cluster :: "(u32 \<Rightarrow> u8 list) \<Rightarrow> sdvolume \<Rightarrow> u32 \<Rightarrow> bool" where
  "free_cluster D v c \<longleftrightarrow> data_cluster v c \<and> fat_entry D v c = 0"

definition start_ok :: "sdvolume \<Rightarrow> bool" where
  "start_ok v \<longleftrightarrow> 2 \<le> unat (allocSearchStart v) \<and>
     unat (allocSearchStart v) \<le> unat (clusterCount v) + 2"

context block_device
begin

text \<open>A search for one cluster that fails has looked at \<open>k\<close> clusters, from \<open>b\<close> on and around.\<close>

lemma allocSearch_None:
  assumes "allocSearch ops k 1 (clusterCount (vol s) + 1) b b s = (None, s')"
    and "cache_ok good disk lim s" and "geom lim (vol s)"
    and "k \<le> unat (clusterCount (vol s))"
    and "2 \<le> unat b" and "unat b \<le> unat (clusterCount (vol s)) + 2"
    and "data_cluster (vol s) x"
    and "(unat b \<le> unat x \<and> unat x < unat b + k) \<or>
         (unat b \<le> unat x + unat (clusterCount (vol s)) \<and>
          unat x + unat (clusterCount (vol s)) < unat b + k)"
  shows "fat_entry (view disk s) (vol s) x \<noteq> 0"
  using assms
proof (induction k arbitrary: b s)
  case 0
  then show ?case by auto
next
  case (Suc k)
  let ?v = "vol s" and ?F = "fat_entry (view disk s) (vol s)"
  let ?e = "if b > clusterCount ?v + 1 then 2 else b"
  have big: "unat (clusterCount ?v) + 2 < 2 ^ 32"
    using Suc.prems(3) by (auto simp: geom_def eocMin_def split: if_splits)
  have e: "2 \<le> unat ?e" "unat ?e \<le> unat (clusterCount ?v) + 1"
    and eb: "unat ?e = (if unat b = unat (clusterCount ?v) + 2 then 2 else unat b)"
    using Suc.prems(4-6) in_fat_iff [OF Suc.prems(3), of b] by (auto simp: in_fat_def)
  then have "in_fat ?v ?e" by (simp add: in_fat_def)
  then obtain s1 where s1: "fatGet ops ?e s = (Some (?F ?e), s1)" "quiet good disk lim s s1"
    using fatGet_spec [OF Suc.prems(2,3)] by blast
  note q = quietD [OF s1(2)]
  have e1: "unat (?e + 1) = unat ?e + 1" using e big by (intro unat_Suc_small) simp
  have step: "?F ?e \<noteq> 0 \<and>
      allocSearch ops k 1 (clusterCount ?v + 1) (?e + 1) (?e + 1) s1 = (None, s')"
    using Suc.prems(1) s1 by (auto simp: Let_def split: if_splits)
  show ?case
  proof (cases "unat x = unat ?e")
    case True
    then have "x = ?e" by (rule word_unat_eq_iff [THEN iffD2])
    with step show ?thesis by simp
  next
    case False
    have "?F x = fat_entry (view disk s1) (vol s1) x" using q by simp
    moreover have "fat_entry (view disk s1) (vol s1) x \<noteq> 0"
    proof (rule Suc.IH)
      show "(unat (?e + 1) \<le> unat x \<and> unat x < unat (?e + 1) + k) \<or>
         (unat (?e + 1) \<le> unat x + unat (clusterCount (vol s1)) \<and>
          unat x + unat (clusterCount (vol s1)) < unat (?e + 1) + k)"
        using False Suc.prems(4-8) e1 eb q(4) by (auto simp: data_cluster_def split: if_splits)
    qed (use step Suc.prems q e e1 in auto)
    ultimately show ?thesis by simp
  qed
qed

lemma alloc_one:
  assumes ok: "cache_ok good disk lim s" and g: "geom lim (vol s)" and st: "start_ok (vol s)"
    and cur: "cur \<noteq> 0 \<Longrightarrow> data_cluster (vol s) cur \<and> fat_entry (view disk s) (vol s) cur \<noteq> 0"
    and free: "free_cluster (view disk s) (vol s) x"
  obtains b s' where "allocContiguous ops 1 cur s = (Some b, s')"
    and "free_cluster (view disk s) (vol s) b"
    and "fat_updated good disk lim s s'
      (\<lambda>y. if y = b then fat_trunc (vol s) 0x0FFFFFFF else if cur \<noteq> 0 \<and> y = cur then b
           else fat_entry (view disk s) (vol s) y)"
    and "start_ok (vol s')" and "fat_region (vol s) (cacheBlockNumber s')"
proof -
  let ?v = "vol s" and ?F = "fat_entry (view disk s) (vol s)"
  let ?b = "if cur \<noteq> 0 then cur + 1 else allocSearchStart ?v"
  have big: "unat (clusterCount ?v) + 2 < 2 ^ 32"
    using g by (auto simp: geom_def eocMin_def split: if_splits)
  have cur1: "unat (cur + 1) = unat cur + 1" if "cur \<noteq> 0"
    using cur [OF that] big by (intro unat_Suc_small) (simp add: data_cluster_def)
  have b: "2 \<le> unat ?b" "unat ?b \<le> unat (clusterCount ?v) + 2"
    using st cur cur1 by (auto simp: data_cluster_def start_ok_def)
  have "allocSearch ops (unat (clusterCount ?v)) 1 (clusterCount ?v + 1) ?b ?b s \<noteq> (None, s')" for s'
  proof
    assume "allocSearch ops (unat (clusterCount ?v)) 1 (clusterCount ?v + 1) ?b ?b s = (None, s')"
    moreover have dx: "2 \<le> unat x" "unat x \<le> unat (clusterCount ?v) + 1" "data_cluster ?v x"
      using free by (auto simp: free_cluster_def data_cluster_def)
    moreover have "(unat ?b \<le> unat x \<and> unat x < unat ?b + unat (clusterCount ?v)) \<or>
        (unat ?b \<le> unat x + unat (clusterCount ?v) \<and>
         unat x + unat (clusterCount ?v) < unat ?b + unat (clusterCount ?v))"
      using dx(1,2) b by linarith
    ultimately have "?F x \<noteq> 0"
      by (intro allocSearch_None [OF _ ok g order_refl b])
    with free show False by (simp add: free_cluster_def)
  qed
  with allocContiguous_spec [OF ok g _ _ cur, of 1] st obtain b' e s' where
    s': "allocContiguous ops 1 cur s = (Some b', s')" "free_run ?F ?v 1 b' e"
      "fat_updated good disk lim s s' (alloc_table ?F ?v cur b' e)"
      "vol s' = (if cur = 0 \<and> 1 = (1::u32) then ?v\<lparr>allocSearchStart := b' + 1\<rparr> else ?v)"
      "fat_region ?v (cacheBlockNumber s')"
    unfolding start_ok_def by blast
  from s'(2) have "unat e = unat b'" by (simp add: free_run_def)
  then have e: "e = b'" by (rule word_unat_eq_iff [THEN iffD2])
  have fb: "free_cluster (view disk s) ?v b'"
    using free_run_clusters [OF s'(2)] by (simp add: free_cluster_def)
  then have "unat (b' + 1) = unat b' + 1"
    using big by (intro unat_Suc_small) (simp add: free_cluster_def data_cluster_def)
  then have "start_ok (vol s')"
    using s'(4) st fb by (auto simp: start_ok_def free_cluster_def data_cluster_def)
  moreover have "alloc_table ?F ?v cur b' e =
      (\<lambda>y. if y = b' then fat_trunc ?v 0x0FFFFFFF else if cur \<noteq> 0 \<and> y = cur then b' else ?F y)"
    by (auto simp: alloc_table_def fun_eq_iff e)
  ultimately show ?thesis using that [OF s'(1) fb] s'(3,5) by simp
qed

lemma alloc_none:
  assumes ok: "cache_ok good disk lim s" and g: "geom lim (vol s)" and st: "start_ok (vol s)"
    and cur: "cur \<noteq> 0 \<Longrightarrow> data_cluster (vol s) cur \<and> fat_entry (view disk s) (vol s) cur \<noteq> 0"
    and none: "\<nexists>x. free_cluster (view disk s) (vol s) x"
  shows "\<exists>s'. allocContiguous ops 1 cur s = (None, s') \<and> quiet good disk lim s s'"
proof -
  have "\<not> free_run (fat_entry (view disk s) (vol s)) (vol s) 1 b e" for b e
    using none free_run_clusters(1,3) unfolding free_cluster_def by blast
  with allocContiguous_spec [OF ok g _ _ cur, of 1] st show ?thesis
    unfolding start_ok_def by blast
qed

section \<open>chainSize\<close>

lemma chainSize_chain:
  assumes "cache_ok good disk lim s" and "geom lim (vol s)"
    and "fat_chain (view disk s) (vol s) (c # cs)"
  obtains s' where "chainSize ops c s =
      Some (Some (of_nat (length (c # cs)) * push_bit (unat (clusterSizeShift (vol s))) 512), s')"
    and "quiet good disk lim s s'"
  using chainLoop_chain [OF assms, of 0] by (auto simp: chainSize_def)

text \<open>
  A set of clusters that the table maps into itself, with no end mark: from any of them
  the loop does not end.
\<close>

lemma chainLoop_cycle:
  assumes ok: "cache_ok good disk lim s" and g: "geom lim (vol s)"
    and S: "\<And>x. x \<in> S \<Longrightarrow> in_fat (vol s) x \<and> fat_entry (view disk s) (vol s) x \<in> S"
    and c: "c \<in> S"
  shows "chainLoop ops c n s = None"
proof (rule ccontr)
  assume "chainLoop ops c n s \<noteq> None"
  then obtain r where ret: "chainLoop ops c n s = Some r" by blast
  let ?P = "\<lambda>s :: 'c fs. cache_ok good disk lim s \<and> geom lim (vol s) \<and>
      (\<forall>x \<in> S. in_fat (vol s) x \<and> fat_entry (view disk s) (vol s) x \<in> S)"
  have "ops = ops \<longrightarrow> c \<in> S \<longrightarrow> ?P s \<longrightarrow> False"
  proof (rule chainLoop.raw_induct [where P = "\<lambda>ops' c n s r. ops' = ops \<longrightarrow> c \<in> S \<longrightarrow> ?P s \<longrightarrow> False",
        OF _ ret])
    fix f and ops' :: "'c card_ops" and c n :: u32 and s :: "'c fs" and r
    assume IH: "\<And>ops' c n s r. f ops' c n s = Some r \<Longrightarrow> ops' = ops \<longrightarrow> c \<in> S \<longrightarrow> ?P s \<longrightarrow> False"
      and step: "(case fatGet ops' c s of (None, s) \<Rightarrow> Some (None, s)
        | (Some cluster, s) \<Rightarrow>
            let n = n + push_bit (unat (clusterSizeShift (vol s))) 512
            in if isEOC (vol s) cluster then Some (Some n, s) else f ops' cluster n s) = Some r"
    show "ops' = ops \<longrightarrow> c \<in> S \<longrightarrow> ?P s \<longrightarrow> False"
    proof (intro impI)
      assume o: "ops' = ops" and c: "c \<in> S" and P: "?P s"
      let ?d = "fat_entry (view disk s) (vol s) c"
      obtain s1 where s1: "fatGet ops c s = (Some ?d, s1)" "quiet good disk lim s s1"
        using fatGet_spec [of s c] P c by blast
      note q = quietD [OF s1(2)]
      have d: "?d \<in> S" "\<not> isEOC (vol s) ?d" using P c in_fat_not_EOC by blast+
      with step o s1 q(4) have "f ops ?d (n + push_bit (unat (clusterSizeShift (vol s))) 512) s1 = Some r"
        by (simp add: Let_def)
      from IH [OF this] d P q show False by simp
    qed
  qed
  with ok g S c show False by simp
qed

end

end
