(* ===== verification/FileData.thy ===== *)
theory FileData
  imports SdFile FatAlloc
begin

text \<open>
  Files as byte strings.  The blocks of a file are those of its cluster chain (for a
  FAT16 root directory, consecutive blocks); its bytes are their contents in order.
  \<open>file_ok\<close> relates an SdFile object to the chain it stands for.
\<close>

section \<open>Blocks of a chain\<close>

definition bpc :: "sdvolume \<Rightarrow> nat" where
  "bpc v = 2 ^ unat (clusterSizeShift v)"

definition file_block :: "sdvolume \<Rightarrow> u32 list \<Rightarrow> nat \<Rightarrow> u32" where
  "file_block v cs k = clusterStartBlock v (cs ! (k div bpc v)) + of_nat (k mod bpc v)"

lemma bpc_pos [simp]: "0 < bpc v" by (simp add: bpc_def)

lemma bpc_allocSearchStart [simp]: "bpc (v\<lparr>allocSearchStart := a\<rparr>) = bpc v"
  by (simp add: bpc_def)

lemma bpc_bound: "geom lim v \<Longrightarrow> bpc v \<le> 128"
  using power_increasing [of "unat (clusterSizeShift v)" 7 "2 :: nat"]
  by (simp add: bpc_def geom_def)

lemma clusterBytes_bpc: "clusterBytes v = 512 * bpc v"
  by (simp add: clusterBytes_def bpc_def)

lemma cluster_region:
  assumes "geom lim v" and "data_cluster v c"
  shows "unat (dataStartBlock v) + (unat c - 2) * bpc v + bpc v \<le> lim"
proof -
  have "unat c - 2 + 1 \<le> unat (clusterCount v)" using assms(2) by (auto simp: data_cluster_def)
  then have "(unat c - 2 + 1) * bpc v \<le> unat (clusterCount v) * bpc v" by (rule mult_le_mono1)
  then show ?thesis using assms(1) by (simp add: geom_def bpc_def)
qed

lemma clusterStartBlock_nat:
  assumes g: "geom lim v" and c: "data_cluster v c"
  shows "unat (clusterStartBlock v c) = unat (dataStartBlock v) + (unat c - 2) * bpc v"
proof -
  have "unat (c - 2) = unat c - 2"
    using c unat_sub_small [of 2 c] by (simp add: data_cluster_def)
  moreover have lt: "unat (dataStartBlock v) + (unat c - 2) * bpc v < 2 ^ 32"
    using cluster_region [OF g c] geom_regions(3) [OF g] bpc_pos [of v] by linarith
  ultimately have "unat (push_bit (unat (clusterSizeShift v)) (c - 2)) = (unat c - 2) * bpc v"
    using unat_push_bit_small [of "c - 2" "unat (clusterSizeShift v)"] by (simp add: bpc_def)
  with lt show ?thesis by (simp add: clusterStartBlock_def unat_word_ariths)
qed

lemma cluster_block_nat:
  assumes g: "geom lim v" and c: "data_cluster v c" and i: "i < bpc v"
  shows "unat (clusterStartBlock v c + of_nat i) =
      unat (dataStartBlock v) + (unat c - 2) * bpc v + i"
    and "unat (clusterStartBlock v c + of_nat i) < lim"
    and "unat (dataStartBlock v) \<le> unat (clusterStartBlock v c + of_nat i)"
proof -
  have lt: "unat (dataStartBlock v) + (unat c - 2) * bpc v + i < lim"
    using cluster_region [OF g c] i by linarith
  have "unat (of_nat i :: u32) = i"
    using lt geom_regions(3) [OF g] by (simp add: unat_of_nat_small)
  then show e: "unat (clusterStartBlock v c + of_nat i) =
      unat (dataStartBlock v) + (unat c - 2) * bpc v + i"
    using lt geom_regions(3) [OF g] clusterStartBlock_nat [OF g c]
    by (simp add: unat_word_ariths)
  show "unat (clusterStartBlock v c + of_nat i) < lim" using e lt by simp
  show "unat (dataStartBlock v) \<le> unat (clusterStartBlock v c + of_nat i)" using e by simp
qed

lemma block_index: "k < n * bpc v \<Longrightarrow> k div bpc v < n \<and> k mod bpc v < bpc v"
  by (simp add: less_mult_imp_div_less)

lemma file_block_valid:
  assumes g: "geom lim v" and cs: "\<forall>c \<in> set cs. data_cluster v c" and k: "k < length cs * bpc v"
  shows "unat (file_block v cs k) < lim" and "file_block v cs k \<noteq> 0"
    and "\<not> fat_region v (file_block v cs k)"
    and "unat (dataStartBlock v) \<le> unat (file_block v cs k)"
proof -
  have c: "data_cluster v (cs ! (k div bpc v))" and i: "k mod bpc v < bpc v"
    using cs block_index [OF k] by simp_all
  note b = cluster_block_nat [OF g c i]
  show "unat (file_block v cs k) < lim" "unat (dataStartBlock v) \<le> unat (file_block v cs k)"
    using b(2,3) by (simp_all add: file_block_def)
  then show "\<not> fat_region v (file_block v cs k)" using outside_fat(1) [OF g] by blast
  show "file_block v cs k \<noteq> 0"
    using b(3) geom_regions(1,4) [OF g] by (auto simp: file_block_def)
qed

lemma cluster_block_inj:
  assumes g: "geom lim v" and "data_cluster v c" "i < bpc v" and "data_cluster v d" "j < bpc v"
    and eq: "clusterStartBlock v c + of_nat i = clusterStartBlock v d + of_nat j"
  shows "c = d \<and> i = j"
proof -
  have e: "(unat c - 2) * bpc v + i = (unat d - 2) * bpc v + j"
    using cluster_block_nat(1) [OF g assms(2,3)] cluster_block_nat(1) [OF g assms(4,5)] eq by simp
  have "(unat c - 2) = ((unat c - 2) * bpc v + i) div bpc v" using assms(3) by simp
  also have "\<dots> = unat d - 2" using assms(5) by (simp add: e)
  finally have "unat c - 2 = unat d - 2" .
  with e assms(2,4) show ?thesis by (auto simp: data_cluster_def word_unat_eq_iff)
qed

lemma file_block_inj:
  assumes g: "geom lim v" and cs: "\<forall>c \<in> set cs. data_cluster v c" and d: "distinct cs"
    and "j < length cs * bpc v" and "k < length cs * bpc v"
    and "file_block v cs j = file_block v cs k"
  shows "j = k"
proof -
  note ji = block_index [OF assms(4)] and ki = block_index [OF assms(5)]
  have "cs ! (j div bpc v) = cs ! (k div bpc v) \<and> j mod bpc v = k mod bpc v"
    using assms(6) cs ji ki
    by (intro cluster_block_inj [OF g]) (simp_all add: file_block_def)
  then have "j div bpc v = k div bpc v \<and> j mod bpc v = k mod bpc v"
    using d ji ki by (auto simp: nth_eq_iff_index_eq)
  then show ?thesis by (metis div_mult_mod_eq)
qed

lemma file_block_disjoint:
  assumes g: "geom lim v" and "\<forall>c \<in> set cs. data_cluster v c" and "\<forall>c \<in> set ds. data_cluster v c"
    and "set cs \<inter> set ds = {}" and "j < length cs * bpc v" and "k < length ds * bpc v"
  shows "file_block v cs j \<noteq> file_block v ds k"
proof
  note ji = block_index [OF assms(5)] and ki = block_index [OF assms(6)]
  assume "file_block v cs j = file_block v ds k"
  then have "cs ! (j div bpc v) = ds ! (k div bpc v)"
    using cluster_block_inj [OF g, of "cs ! (j div bpc v)" "j mod bpc v" "ds ! (k div bpc v)" "k mod bpc v"]
      assms(2,3) ji ki by (simp add: file_block_def)
  then show False using assms(4) ji ki nth_mem by (metis disjoint_iff)
qed

lemma file_block_append:
  "k < length cs * bpc v \<Longrightarrow> file_block v (cs @ ds) k = file_block v cs k"
  by (simp add: file_block_def nth_append block_index)

section \<open>Bytes of a run of blocks\<close>

definition blocks_bytes :: "(u32 \<Rightarrow> u8 list) \<Rightarrow> (nat \<Rightarrow> u32) \<Rightarrow> nat \<Rightarrow> u8 list" where
  "blocks_bytes D blk n = concat (map (\<lambda>k. D (blk k)) [0..<n])"

lemma length_blocks_bytes:
  "(\<And>b. length (D b) = 512) \<Longrightarrow> length (blocks_bytes D blk n) = 512 * n"
  by (induction n) (simp_all add: blocks_bytes_def)

lemma blocks_bytes_nth:
  assumes len: "\<And>b. length (D b) = 512" and "p < 512 * n"
  shows "blocks_bytes D blk n ! p = D (blk (p div 512)) ! (p mod 512)"
  using assms(2)
proof (induction n)
  case (Suc n)
  have s: "blocks_bytes D blk (Suc n) = blocks_bytes D blk n @ D (blk n)"
    by (simp add: blocks_bytes_def)
  show ?case
  proof (cases "p < 512 * n")
    case True
    with Suc.IH s length_blocks_bytes [of D blk n, OF len] show ?thesis by (simp add: nth_append)
  next
    case False
    with Suc.prems have n: "p div 512 = n" by simp
    then have "p - 512 * n = p mod 512" using minus_mult_div_eq_mod [of p 512] by simp
    with False n s length_blocks_bytes [of D blk n, OF len] show ?thesis by (simp add: nth_append)
  qed
qed simp

lemma blocks_bytes_slice:
  assumes len: "\<And>b. length (D b) = 512" and "k < n" and "off + m \<le> 512"
  shows "slice (512 * k + off) m (blocks_bytes D blk n) = slice off m (D (blk k))"
proof (rule nth_equalityI)
  have l: "512 * k + off + m \<le> 512 * n" using assms(2,3) by linarith
  then show "length (slice (512 * k + off) m (blocks_bytes D blk n)) = length (slice off m (D (blk k)))"
    using assms(3) len by (simp add: length_blocks_bytes)
  fix i assume "i < length (slice (512 * k + off) m (blocks_bytes D blk n))"
  then have i: "i < m" using l len by (simp add: length_blocks_bytes)
  have "(512 * k + off + i) div 512 = k \<and> (512 * k + off + i) mod 512 = off + i"
    using i assms(3) by (simp add: add.assoc)
  then show "slice (512 * k + off) m (blocks_bytes D blk n) ! i = slice off m (D (blk k)) ! i"
    using i l assms(3) len blocks_bytes_nth [OF len, where p = "512 * k + off + i" and n = n and blk = blk]
    by (simp add: nth_slice length_blocks_bytes)
qed

lemma blocks_bytes_cong:
  "(\<And>k :: nat. k < n \<Longrightarrow> D (blk k) = E (blk' k)) \<Longrightarrow> blocks_bytes D blk n = blocks_bytes E blk' n"
  by (auto simp: blocks_bytes_def intro!: arg_cong [where f = concat])

text \<open>Storing bytes in one block stores them in the string.\<close>

lemma blocks_bytes_splice:
  assumes len: "\<And>b. length (D b) = 512" and k: "k < n" and "off + length data \<le> 512"
    and inj: "\<And>j. j < n \<Longrightarrow> blk j = blk k \<Longrightarrow> j = k"
  shows "blocks_bytes (D(blk k := splice (D (blk k)) off data)) blk n =
    splice (blocks_bytes D blk n) (512 * k + off) data"
proof (rule nth_equalityI)
  let ?E = "D(blk k := splice (D (blk k)) off data)"
  have lenE: "\<And>b. length (?E b) = 512" using len assms(3) by simp
  have l: "512 * k + off + length data \<le> 512 * n" using k assms(3) by linarith
  show "length (blocks_bytes ?E blk n) = length (splice (blocks_bytes D blk n) (512 * k + off) data)"
    using l len lenE by (simp add: length_blocks_bytes)
  fix p assume "p < length (blocks_bytes ?E blk n)"
  then have p: "p < 512 * n" using lenE by (simp add: length_blocks_bytes)
  then have pd: "p div 512 < n" by (simp add: less_mult_imp_div_less mult.commute)
  have lhs: "blocks_bytes ?E blk n ! p = ?E (blk (p div 512)) ! (p mod 512)"
    by (rule blocks_bytes_nth [OF lenE p])
  have sp: "splice (blocks_bytes D blk n) (512 * k + off) data ! p =
      (if 512 * k + off \<le> p \<and> p < 512 * k + off + length data then data ! (p - (512 * k + off))
       else blocks_bytes D blk n ! p)"
    using l p by (intro nth_splice) (simp_all add: length_blocks_bytes len)
  have rhs: "splice (blocks_bytes D blk n) (512 * k + off) data ! p =
      (if 512 * k + off \<le> p \<and> p < 512 * k + off + length data then data ! (p - (512 * k + off))
       else D (blk (p div 512)) ! (p mod 512))"
    unfolding sp by (simp only: blocks_bytes_nth [OF len p])
  show "blocks_bytes ?E blk n ! p = splice (blocks_bytes D blk n) (512 * k + off) data ! p"
  proof (cases "p div 512 = k")
    case True
    then have e: "p = 512 * k + p mod 512" using mult_div_mod_eq [of 512 p] by simp
    have "?E (blk (p div 512)) ! (p mod 512) =
      (if off \<le> p mod 512 \<and> p mod 512 < off + length data then data ! (p mod 512 - off)
       else D (blk k) ! (p mod 512))"
      using True assms(3) len by (simp add: nth_splice)
    moreover have "(512 * k + off \<le> p \<and> p < 512 * k + off + length data) =
        (off \<le> p mod 512 \<and> p mod 512 < off + length data)" and "p - (512 * k + off) = p mod 512 - off"
      using e by linarith+
    ultimately show ?thesis unfolding lhs rhs using True by simp
  next
    case False
    then have "blk (p div 512) \<noteq> blk k" using inj pd by blast
    moreover have "\<not> (512 * k + off \<le> p \<and> p < 512 * k + off + length data)"
    proof
      assume a: "512 * k + off \<le> p \<and> p < 512 * k + off + length data"
      then have "512 * k \<le> p" "p < 512 * k + 512" using assms(3) by linarith+
      then have "p div 512 = k" by (intro div_nat_eqI) simp_all
      with False show False by simp
    qed
    ultimately show ?thesis unfolding lhs rhs by auto
  qed
qed


section \<open>What an SdFile stands for\<close>

text \<open>The blocks of a file and their number; a FAT16 root directory has no chain.\<close>

definition fblock :: "sdvolume \<Rightarrow> sdfile \<Rightarrow> u32 list \<Rightarrow> nat \<Rightarrow> u32" where
  "fblock v f cs =
     (if ftype f = ROOT16 then (\<lambda>k. rootDirStart v + of_nat k) else file_block v cs)"

definition nblocks :: "sdvolume \<Rightarrow> sdfile \<Rightarrow> u32 list \<Rightarrow> nat" where
  "nblocks v f cs =
     (if ftype f = ROOT16 then (32 * unat (rootDirEntryCount v) + 511) div 512
      else length cs * bpc v)"

text \<open>All the bytes in the blocks of the file, and those up to its size.\<close>

definition raw_bytes :: "(u32 \<Rightarrow> u8 list) \<Rightarrow> sdvolume \<Rightarrow> sdfile \<Rightarrow> u32 list \<Rightarrow> u8 list" where
  "raw_bytes D v f cs = blocks_bytes D (fblock v f cs) (nblocks v f cs)"

definition contents :: "(u32 \<Rightarrow> u8 list) \<Rightarrow> sdvolume \<Rightarrow> sdfile \<Rightarrow> u32 list \<Rightarrow> u8 list" where
  "contents D v f cs = take (unat (fileSize f)) (raw_bytes D v f cs)"

text \<open>The chain behind the object, its size, and its position.\<close>

definition file_chain :: "(u32 \<Rightarrow> u8 list) \<Rightarrow> sdvolume \<Rightarrow> sdfile \<Rightarrow> u32 list \<Rightarrow> bool" where
  "file_chain D v f cs \<longleftrightarrow>
     (if ftype f = ROOT16 then cs = [] \<and> fatType v = 16
      else if firstCluster f = 0 then cs = []
      else fat_chain D v cs \<and> hd cs = firstCluster f)"

definition pos_ok :: "sdvolume \<Rightarrow> sdfile \<Rightarrow> u32 list \<Rightarrow> bool" where
  "pos_ok v f cs \<longleftrightarrow>
     curPosition f \<le> fileSize f \<and>
     (ftype f \<noteq> ROOT16 \<longrightarrow>
        (if curPosition f = 0 then curCluster f = 0
         else curCluster f = cs ! ((unat (curPosition f) - 1) div clusterBytes v)))"

definition file_ok :: "(u32 \<Rightarrow> u8 list) \<Rightarrow> sdvolume \<Rightarrow> sdfile \<Rightarrow> u32 list \<Rightarrow> bool" where
  "file_ok D v f cs \<longleftrightarrow>
     isOpen f \<and> file_chain D v f cs \<and> pos_ok v f cs \<and>
     unat (fileSize f) \<le> 512 * nblocks v f cs"

lemma chain_not_Nil: "fat_chain D v cs \<Longrightarrow> cs \<noteq> []"
  by (auto simp: fat_chain_def)

lemma file_chain_clusters: "file_chain D v f cs \<Longrightarrow> \<forall>c \<in> set cs. data_cluster v c"
  by (auto simp: file_chain_def fat_chain_def split: if_splits)

lemma file_chain_distinct: "file_chain D v f cs \<Longrightarrow> distinct cs"
  by (auto simp: file_chain_def fat_chain_distinct split: if_splits)

text \<open>Every block of a file lies on the card, outside block zero and the tables.\<close>

lemma fblock_valid:
  assumes g: "geom lim v" and c: "file_chain D v f cs" and k: "k < nblocks v f cs"
  shows "unat (fblock v f cs k) < lim" and "fblock v f cs k \<noteq> 0"
    and "\<not> fat_region v (fblock v f cs k)"
proof -
  have "unat (fblock v f cs k) < lim \<and> fblock v f cs k \<noteq> 0 \<and> \<not> fat_region v (fblock v f cs k)"
  proof (cases "ftype f = ROOT16")
    case True
    with c have t: "fatType v = 16" by (simp add: file_chain_def)
    have r: "unat (fatStartBlock v) + unat (fatCount v) * unat (blocksPerFat v) \<le> unat (rootDirStart v)"
      "unat (rootDirStart v) + (32 * unat (rootDirEntryCount v) + 511) div 512 \<le> unat (dataStartBlock v)"
      using g t by (auto simp: geom_def)
    note gr = geom_regions [OF g]
    have k': "k < (32 * unat (rootDirEntryCount v) + 511) div 512"
      using k True by (simp add: nblocks_def)
    have sm: "unat (rootDirStart v) + k < lim" using r(2) k' gr(2) by linarith
    have "unat (rootDirStart v + of_nat k) = unat (rootDirStart v) + k"
      using sm gr(3) by (simp add: unat_word_ariths unat_of_nat_small)
    moreover have "0 < unat (rootDirStart v)" using r(1) gr(4) by linarith
    ultimately show ?thesis
      using True sm outside_fat(3) [OF g t, of "rootDirStart v + of_nat k"]
      by (auto simp: fblock_def)
  next
    case False
    then show ?thesis
      using file_block_valid [OF g file_chain_clusters [OF c], of k] k
      by (simp add: fblock_def nblocks_def)
  qed
  then show "unat (fblock v f cs k) < lim" and "fblock v f cs k \<noteq> 0"
    and "\<not> fat_region v (fblock v f cs k)" by blast+
qed

text \<open>Moving within the file keeps the rest.\<close>

lemma file_upd [simp]:
  "fblock v (f\<lparr>curPosition := p\<rparr>) cs = fblock v f cs"
  "fblock v (f\<lparr>curCluster := c\<rparr>) cs = fblock v f cs"
  "fblock v (f\<lparr>flags := x\<rparr>) cs = fblock v f cs"
  "fblock v (f\<lparr>fileSize := n\<rparr>) cs = fblock v f cs"
  "fblock v (f\<lparr>firstCluster := c\<rparr>) cs = fblock v f cs"
  "nblocks v (f\<lparr>curPosition := p\<rparr>) cs = nblocks v f cs"
  "nblocks v (f\<lparr>curCluster := c\<rparr>) cs = nblocks v f cs"
  "nblocks v (f\<lparr>flags := x\<rparr>) cs = nblocks v f cs"
  "nblocks v (f\<lparr>fileSize := n\<rparr>) cs = nblocks v f cs"
  "nblocks v (f\<lparr>firstCluster := c\<rparr>) cs = nblocks v f cs"
  "raw_bytes D v (f\<lparr>curPosition := p\<rparr>) cs = raw_bytes D v f cs"
  "raw_bytes D v (f\<lparr>curCluster := c\<rparr>) cs = raw_bytes D v f cs"
  "raw_bytes D v (f\<lparr>flags := x\<rparr>) cs = raw_bytes D v f cs"
  "raw_bytes D v (f\<lparr>fileSize := n\<rparr>) cs = raw_bytes D v f cs"
  "raw_bytes D v (f\<lparr>firstCluster := c\<rparr>) cs = raw_bytes D v f cs"
  "file_chain D v (f\<lparr>curPosition := p\<rparr>) cs = file_chain D v f cs"
  "file_chain D v (f\<lparr>curCluster := c\<rparr>) cs = file_chain D v f cs"
  "file_chain D v (f\<lparr>flags := x\<rparr>) cs = file_chain D v f cs"
  "file_chain D v (f\<lparr>fileSize := n\<rparr>) cs = file_chain D v f cs"
  by (simp_all add: fblock_def nblocks_def raw_bytes_def file_chain_def)

lemma contents_upd [simp]:
  "contents D v (f\<lparr>curPosition := p\<rparr>) cs = contents D v f cs"
  "contents D v (f\<lparr>curCluster := c\<rparr>) cs = contents D v f cs"
  "contents D v (f\<lparr>flags := x\<rparr>) cs = contents D v f cs"
  by (simp_all add: contents_def)

lemma isOpen_upd [simp]:
  "isOpen (f\<lparr>curPosition := p\<rparr>) = isOpen f" "isOpen (f\<lparr>curCluster := c\<rparr>) = isOpen f"
  "isOpen (f\<lparr>flags := x\<rparr>) = isOpen f" "isOpen (f\<lparr>fileSize := n\<rparr>) = isOpen f"
  "isOpen (f\<lparr>firstCluster := c\<rparr>) = isOpen f"
  by (simp_all add: isOpen_def)

lemma length_raw_bytes:
  "(\<And>b. length (D b) = 512) \<Longrightarrow> length (raw_bytes D v f cs) = 512 * nblocks v f cs"
  by (simp add: raw_bytes_def length_blocks_bytes)

lemma length_contents:
  "(\<And>b. length (D b) = 512) \<Longrightarrow> file_ok D v f cs \<Longrightarrow> length (contents D v f cs) = unat (fileSize f)"
  by (simp add: contents_def length_raw_bytes file_ok_def)

lemma slice_contents:
  "p + n \<le> unat (fileSize f) \<Longrightarrow> slice p n (contents D v f cs) = slice p n (raw_bytes D v f cs)"
  by (simp add: contents_def slice_def drop_take min_absorb1)

section \<open>Positions and clusters\<close>

lemma pred_div:
  fixes p c :: nat
  assumes "0 < c" and "0 < p"
  shows "(p - 1) div c = (if p mod c = 0 then p div c - 1 else p div c)"
proof -
  obtain q where q: "p = Suc q" using assms(2) by (cases p) auto
  have "Suc q div c = (if Suc q mod c = 0 then Suc (q div c) else q div c)"
    using assms(1) by (simp add: div_Suc)
  with q show ?thesis by auto
qed

lemma pos_block:
  fixes p :: nat
  shows "p div clusterBytes v = (p div 512) div bpc v"
    and "p mod clusterBytes v = 0 \<longleftrightarrow> p mod 512 = 0 \<and> (p div 512) mod bpc v = 0"
proof -
  show "p div clusterBytes v = (p div 512) div bpc v"
    by (simp add: clusterBytes_bpc div_mult2_eq)
  have "p mod clusterBytes v = 512 * (p div 512 mod bpc v) + p mod 512"
    by (simp add: clusterBytes_bpc mod_mult2_eq)
  then show "p mod clusterBytes v = 0 \<longleftrightarrow> p mod 512 = 0 \<and> (p div 512) mod bpc v = 0"
    by auto
qed

lemma clusterBytes_pos [simp]: "0 < clusterBytes v" by (simp add: clusterBytes_bpc)

lemma blockOfCluster_nat:
  assumes "geom lim v"
  shows "unat (blockOfCluster v p) = (unat p div 512) mod bpc v"
proof -
  have b: "unat (blocksPerCluster v) = bpc v" using assms by (simp add: geom_def bpc_def)
  have sh: "unat (clusterSizeShift v) \<le> 7" using assms by (simp add: geom_def)
  have p32: "(2 :: nat) ^ unat (clusterSizeShift v) < 2 ^ LENGTH(32)"
    using sh by (intro power_strict_increasing) simp_all
  have e: "ucast (blocksPerCluster v) - 1 = (mask (unat (clusterSizeShift v)) :: u32)"
  proof -
    have "(ucast (blocksPerCluster v) :: u32) = of_nat (2 ^ unat (clusterSizeShift v))"
      unfolding word_unat_eq_iff unat_of_nat_small [OF p32] using b
      by (simp add: unat_ucast_up bpc_def)
    then show ?thesis by (simp add: mask_eq_exp_minus_1)
  qed
  have "unat (drop_bit 9 p AND (ucast (blocksPerCluster v) - 1)) = (unat p div 512) mod bpc v"
    unfolding e by (simp add: take_bit_eq_mask [symmetric] unat_take_bit_mod unat_drop_bit_div bpc_def)
  moreover have "(unat p div 512) mod bpc v < 256"
    using bpc_bound [OF assms] mod_less_divisor [OF bpc_pos, of "unat p div 512" v] by linarith
  ultimately show ?thesis
    by (simp add: blockOfCluster_def unat_ucast_mod)
qed

end
