(* ===== verification/FileRead.thy ===== *)
theory FileRead
  imports FileData
begin

text \<open>
  Positioning and reading: seekSet finds the cluster of a position, and read returns
  the bytes of the file from the current position on, the cache and the direct path
  alike, without changing the logical disk.
\<close>

text \<open>The state of a file after a move to a position.\<close>

definition moved :: "sdvolume \<Rightarrow> u32 list \<Rightarrow> nat \<Rightarrow> sdfile \<Rightarrow> sdfile \<Rightarrow> bool" where
  "moved v cs p f f' \<longleftrightarrow>
     (\<exists>c. f' = f\<lparr>curCluster := c, curPosition := of_nat p\<rparr>) \<and> unat (curPosition f') = p \<and> pos_ok v f' cs"

lemma moved_file_ok: "moved v cs p f f' \<Longrightarrow> file_ok D v f cs \<Longrightarrow> file_ok D v f' cs"
  by (auto simp: moved_def file_ok_def)

lemma moved_contents: "moved v cs p f f' \<Longrightarrow> contents D v f' cs = contents D v f cs"
  by (auto simp: moved_def)

lemma moved_trans: "moved v cs p f f' \<Longrightarrow> moved v cs q f' f'' \<Longrightarrow> moved v cs q f f''"
  by (auto simp: moved_def)

lemma moved_refl: "pos_ok v f cs \<Longrightarrow> unat (curPosition f) = p \<Longrightarrow> moved v cs p f f"
  by (auto simp: moved_def intro!: exI [of _ "curCluster f"])

lemma moved_fields:
  assumes "moved v cs p f f'"
  shows "flags f' = flags f" "ftype f' = ftype f" "fileSize f' = fileSize f"
    "firstCluster f' = firstCluster f" "dirBlock f' = dirBlock f" "dirIndex f' = dirIndex f"
    "writeError f' = writeError f" "unat (curPosition f') = p"
  using assms by (auto simp: moved_def)

lemma cluster_index_bound:
  assumes "p < 512 * (n * bpc v)"
  shows "p div clusterBytes v < n"
proof -
  have "p < n * clusterBytes v" using assms by (simp add: clusterBytes_bpc algebra_simps)
  then show ?thesis by (simp add: less_mult_imp_div_less)
qed

lemma shift_div: "unat (drop_bit (unat (clusterSizeShift v) + 9) p) = unat p div clusterBytes v"
  by (simp add: unat_drop_bit_div clusterBytes_def power_add mult.commute)

context block_device
begin

lemma seekLoop_chain:
  assumes "cache_ok good disk lim s" and "geom lim (vol s)" and "fat_chain (view disk s) (vol s) cs"
    and "i + k < length cs"
  shows "\<exists>s'. seekLoop ops k (cs ! i) s = (True, cs ! (i + k), s') \<and> quiet good disk lim s s'"
  using assms
proof (induction k arbitrary: i s)
  case 0
  then show ?case by (auto intro: quiet_refl)
next
  case (Suc k)
  have "in_fat (vol s) (cs ! i)"
    using Suc.prems by (auto simp: fat_chain_def intro!: data_cluster_in_fat)
  then obtain s1 where s1: "fatGet ops (cs ! i) s = (Some (fat_entry (view disk s) (vol s) (cs ! i)), s1)"
      "quiet good disk lim s s1"
    using fatGet_spec [OF Suc.prems(1,2)] by blast
  note q = quietD [OF s1(2)]
  have "fat_entry (view disk s) (vol s) (cs ! i) = cs ! Suc i"
    using Suc.prems by (intro chain_nth) (auto simp: fat_chain_def)
  moreover obtain s2 where "seekLoop ops k (cs ! Suc i) s1 = (True, cs ! (Suc i + k), s2)"
      "quiet good disk lim s1 s2"
    using Suc.IH [of s1 "Suc i"] Suc.prems q by auto
  ultimately show ?case using s1 quiet_trans [OF s1(2)] by auto
qed

lemma seekSet_spec:
  assumes ok: "cache_ok good disk lim s" and g: "geom lim (vol s)"
    and f: "file_ok (view disk s) (vol s) f cs" and pos: "pos \<le> fileSize f"
  obtains f' s' where "seekSet ops pos f s = (True, f', s')" and "quiet good disk lim s s'"
    and "moved (vol s) cs (unat pos) f f'"
proof (cases "ftype f = ROOT16 \<or> pos = 0")
  case True
  let ?f = "if ftype f = ROOT16 then f\<lparr>curPosition := pos\<rparr> else f\<lparr>curCluster := 0, curPosition := 0\<rparr>"
  have "seekSet ops pos f s = (True, ?f, s)"
    using True pos f by (auto simp: seekSet_def file_ok_def not_less)
  moreover have "moved (vol s) cs (unat pos) f ?f"
    using True pos f
    by (auto simp: moved_def pos_ok_def file_ok_def
          intro!: exI [of _ "if ftype f = ROOT16 then curCluster f else 0"])
  ultimately show ?thesis using quiet_refl [OF ok] by (intro that)
next
  case False
  let ?v = "vol s" and ?cb = "clusterBytes (vol s)"
  have p0: "0 < unat pos" using False by (simp add: unat_gt_0)
  have sz: "unat pos \<le> unat (fileSize f)" using pos by (simp add: word_le_nat_alt)
  have "unat (fileSize f) \<le> 512 * (length cs * bpc ?v)"
    using f False by (simp add: file_ok_def nblocks_def)
  with sz p0 have j: "(unat pos - 1) div ?cb < length cs"
    by (intro cluster_index_bound) linarith
  have ch: "fat_chain (view disk s) ?v cs" "hd cs = firstCluster f" "cs \<noteq> []"
    using f False j by (auto simp: file_ok_def file_chain_def split: if_splits)
  have nNew: "unat (drop_bit (unat (clusterSizeShift ?v) + 9) (pos - 1)) = (unat pos - 1) div ?cb"
    using p0 unat_sub_small [of 1 pos] by (simp add: shift_div)
  define i where "i = (if (unat pos - 1) div ?cb < unat (drop_bit (unat (clusterSizeShift ?v) + 9) (curPosition f - 1))
      \<or> curPosition f = 0 then 0 else (unat (curPosition f) - 1) div ?cb)"
  have nw: "drop_bit (unat (clusterSizeShift ?v) + 9) (pos - 1) = of_nat ((unat pos - 1) div ?cb)"
    by (rule eq_of_nat [OF nNew])
  have nCur: "unat (drop_bit (unat (clusterSizeShift ?v) + 9) (curPosition f - 1)) = (unat (curPosition f) - 1) div ?cb"
    if "curPosition f \<noteq> 0"
    using that unat_sub_small [of 1 "curPosition f"] by (simp add: shift_div unat_gt_0 Suc_le_eq)
  have le: "i \<le> (unat pos - 1) div ?cb" using nCur by (auto simp: i_def)
  have start: "(if drop_bit (unat (clusterSizeShift ?v) + 9) (pos - 1) < drop_bit (unat (clusterSizeShift ?v) + 9) (curPosition f - 1)
        \<or> curPosition f = 0 then (firstCluster f, drop_bit (unat (clusterSizeShift ?v) + 9) (pos - 1))
      else (curCluster f, drop_bit (unat (clusterSizeShift ?v) + 9) (pos - 1) - drop_bit (unat (clusterSizeShift ?v) + 9) (curPosition f - 1)))
      = (cs ! i, of_nat ((unat pos - 1) div ?cb - i))"
  proof (cases "drop_bit (unat (clusterSizeShift ?v) + 9) (pos - 1) < drop_bit (unat (clusterSizeShift ?v) + 9) (curPosition f - 1)
        \<or> curPosition f = 0")
    case True
    then have "i = 0" by (auto simp: i_def word_less_nat_alt nNew)
    then show ?thesis
      using True ch(2,3) nw by (simp add: hd_conv_nth)
  next
    case F: False
    then have i: "i = (unat (curPosition f) - 1) div ?cb" by (auto simp: i_def word_less_nat_alt nNew)
    have "curCluster f = cs ! i"
      using f F False by (simp add: i file_ok_def pos_ok_def)
    moreover have "drop_bit (unat (clusterSizeShift ?v) + 9) (pos - 1) - drop_bit (unat (clusterSizeShift ?v) + 9) (curPosition f - 1)
        = of_nat ((unat pos - 1) div ?cb - i)"
    proof (rule eq_of_nat)
      show "unat (drop_bit (unat (clusterSizeShift ?v) + 9) (pos - 1)
          - drop_bit (unat (clusterSizeShift ?v) + 9) (curPosition f - 1)) = (unat pos - 1) div ?cb - i"
        using F nCur nNew by (subst unat_sub_small) (auto simp: i word_less_nat_alt)
    qed
    ultimately show ?thesis using F by simp
  qed
  have small: "unat (of_nat ((unat pos - 1) div ?cb - i) :: u32) = (unat pos - 1) div ?cb - i"
    using le nNew unat_bound(1) [of "drop_bit (unat (clusterSizeShift ?v) + 9) (pos - 1)"]
    by (intro unat_of_nat_small) simp
  obtain s' where s': "seekLoop ops ((unat pos - 1) div ?cb - i) (cs ! i) s =
      (True, cs ! ((unat pos - 1) div ?cb), s')" "quiet good disk lim s s'"
    using seekLoop_chain [OF ok g ch(1), of i "(unat pos - 1) div ?cb - i"] j le by auto
  let ?f = "f\<lparr>curCluster := cs ! ((unat pos - 1) div ?cb), curPosition := pos\<rparr>"
  have "seekSet ops pos f s = (True, ?f, s')"
    using False pos f start small s'(1)
    by (simp add: seekSet_def file_ok_def not_less Let_def)
  moreover have "moved ?v cs (unat pos) f ?f"
    using p0 pos False by (auto simp: moved_def pos_ok_def)
  ultimately show ?thesis using s'(2) by (intro that)
qed

end


section \<open>Reading\<close>

context block_device
begin

text \<open>The block of the position, with \<open>curCluster_\<close> moved to its cluster.\<close>

lemma readLocate_spec:
  assumes ok: "cache_ok good disk lim s" and g: "geom lim (vol s)"
    and f: "file_ok (view disk s) (vol s) f cs" and p: "unat (curPosition f) < unat (fileSize f)"
  obtains f' s' where
    "readLocate ops f s = (Some (fblock (vol s) f cs (unat (curPosition f) div 512)), f', s')"
    and "quiet good disk lim s s'"
    and "f' = (if ftype f = ROOT16 then f
               else f\<lparr>curCluster := cs ! (unat (curPosition f) div clusterBytes (vol s))\<rparr>)"
proof (cases "ftype f = ROOT16")
  case True
  have "drop_bit 9 (curPosition f) = of_nat (unat (curPosition f) div 512)"
  proof -
    have "unat (curPosition f) div 512 < 2 ^ LENGTH(32)"
      using unat_bound(1) [of "curPosition f"] by simp
    then show ?thesis
      unfolding word_unat_eq_iff by (simp add: unat_of_nat_small unat_drop_bit_div)
  qed
  then show ?thesis
    using True quiet_refl [OF ok] by (intro that [of f s]) (simp_all add: readLocate_def fblock_def)
next
  case False
  let ?v = "vol s" and ?p = "unat (curPosition f)" and ?cb = "clusterBytes (vol s)"
  have "?p < 512 * (length cs * bpc ?v)"
    using f p False by (simp add: file_ok_def nblocks_def)
  then have j: "?p div ?cb < length cs" by (rule cluster_index_bound)
  have ch: "fat_chain (view disk s) ?v cs" "hd cs = firstCluster f" "cs \<noteq> []"
    using f False j by (auto simp: file_ok_def file_chain_def split: if_splits)
  let ?f = "f\<lparr>curCluster := cs ! (?p div ?cb)\<rparr>"
  have cond: "(curPosition f AND 0x1FF = 0 \<and> blockOfCluster ?v (curPosition f) = 0) = (?p mod ?cb = 0)"
    using blockOfCluster_nat [OF g, of "curPosition f"]
    by (simp add: pos_block(2) and_mask_take_bit word_unat_eq_iff unat_take_bit_mod)
  have block: "clusterStartBlock ?v (cs ! (?p div ?cb)) + ucast (blockOfCluster ?v (curPosition f))
      = file_block ?v cs (?p div 512)"
  proof -
    have "(ucast (blockOfCluster ?v (curPosition f)) :: u32) = of_nat ((?p div 512) mod bpc ?v)"
      using blockOfCluster_nat [OF g, of "curPosition f"]
      by (intro eq_of_nat) (simp add: unat_ucast_up)
    then show ?thesis by (simp add: file_block_def pos_block(1))
  qed
  show ?thesis
  proof (cases "?p mod ?cb = 0")
    case F: False
    then have "0 < ?p" by (auto intro: gr0I)
    with F have "(?p - 1) div ?cb = ?p div ?cb" using pred_div [of ?cb ?p] by simp
    then have cc: "curCluster f = cs ! (?p div ?cb)"
      using f False \<open>0 < ?p\<close> by (auto simp: file_ok_def pos_ok_def split: if_splits)
    then have "?f = f" by simp
    then show ?thesis
      using False F cond block [folded cc] quiet_refl [OF ok]
      by (intro that [of f s]) (auto simp: readLocate_def Let_def fblock_def)
  next
    case T: True
    show ?thesis
    proof (cases "curPosition f = 0")
      case True
      then have "firstCluster f = cs ! (?p div ?cb)" using ch by (simp add: hd_conv_nth)
      then show ?thesis
        using False True T cond block quiet_refl [OF ok]
        by (intro that [of ?f s]) (auto simp: readLocate_def Let_def fblock_def)
    next
      case nz: False
      then have p0: "0 < ?p" by (simp add: unat_gt_0)
      have dge: "1 \<le> ?p div ?cb" using T p0 by (auto simp: Suc_le_eq div_greater_zero_iff mod_eq_0_iff_dvd dvd_imp_le)
      have cur: "curCluster f = cs ! (?p div ?cb - 1)"
        using f False nz T pred_div [of ?cb ?p] p0 by (simp add: file_ok_def pos_ok_def)
      have "in_fat ?v (curCluster f)"
        using ch(1) j by (auto simp: cur fat_chain_def intro!: data_cluster_in_fat)
      then obtain s1 where s1: "fatGet ops (curCluster f) s =
          (Some (fat_entry (view disk s) ?v (curCluster f)), s1)" "quiet good disk lim s s1"
        using fatGet_spec [OF ok g] by blast
      have "fat_entry (view disk s) ?v (curCluster f) = cs ! (?p div ?cb)"
        using ch(1) j dge chain_nth [of "fat_entry (view disk s) ?v" "isEOC ?v" cs "?p div ?cb - 1"]
        by (simp add: cur fat_chain_def)
      then show ?thesis
        using False nz T cond block s1 quietD(4) [OF s1(2)]
        by (intro that [of ?f s1]) (auto simp: readLocate_def Let_def fblock_def)
    qed
  qed
qed

text \<open>One block's worth of bytes, through the cache or past it.\<close>

lemma readChunk_spec:
  assumes ok: "cache_ok good disk lim s" and g: "geom lim (vol s)"
    and b: "unat b < lim" "\<not> fat_region (vol s) b"
    and u: "\<not> unbufferedRead f" and n: "unat off + unat n \<le> 512"
  obtains s' where "readChunk ops f b off n s = (Some (slice (unat off) (unat n) (view disk s b)), s')"
    and "quiet good disk lim s s'"
proof (cases "n = 512 \<and> b \<noteq> cacheBlockNumber s")
  case True
  then have off: "off = 0" "unat n = 512" using n by (simp_all add: word_unat_eq_iff)
  have vb: "view disk s b = disk (card s) b"
  proof -
    have "\<not> (cacheDirty s \<and> cacheMirrorBlock s \<noteq> 0 \<and> b = cacheMirrorBlock s)"
      using mirror_in_fat [OF ok g] b(2) by blast
    then show ?thesis using True by (auto simp: view_def)
  qed
  have gd: "good (card s)" using ok by (simp add: cache_ok_def)
  obtain c where c: "card_readData ops b 0 n (card s) = (Some (take (unat n) (disk (card s) b)), c)"
      "good c" "disk c = disk (card s)"
    using readData_law [OF gd b(1), of n] True by auto
  have "quiet good disk lim s (s\<lparr>card := c\<rparr>)"
    using ok c by (auto simp: quiet_def cache_ok_def view_def fun_eq_iff)
  then show ?thesis
    using True u off c vb disk_length [OF gd]
    by (intro that) (simp_all add: readChunk_def slice_def)
next
  case False
  obtain s' where "cacheRawBlock ops b CACHE_FOR_READ s = (True, s')" "quiet good disk lim s s'"
      "cacheBuffer s' = view disk s b"
    using cacheRawBlock_spec [OF ok b(1), of False] by auto
  then show ?thesis using False u by (intro that [of s']) (auto simp: readChunk_def)
qed

text \<open>After a step of \<open>n\<close> bytes within the block of the position, which is not left.\<close>

lemma pos_ok_advance:
  assumes f: "file_ok D v f cs" and n: "0 < n" "unat (curPosition f) mod 512 + n \<le> 512"
    "unat (curPosition f) + n \<le> unat (fileSize f)"
  shows "moved v cs (unat (curPosition f) + n) f
    ((if ftype f = ROOT16 then f else f\<lparr>curCluster := cs ! (unat (curPosition f) div clusterBytes v)\<rparr>)
       \<lparr>curPosition := of_nat (unat (curPosition f) + n)\<rparr>)"
proof -
  let ?p = "unat (curPosition f)"
  have small: "unat (of_nat (?p + n) :: u32) = ?p + n"
    using n(3) unat_bound(1) [of "fileSize f"] by (intro unat_of_nat_small) simp
  have "(?p + n - 1) div 512 = ?p div 512"
  proof (rule div_nat_eqI)
    show "512 * (?p div 512) \<le> ?p + n - 1" using n(1) mult_div_mod_eq [of 512 ?p] by linarith
    show "?p + n - 1 < 512 * Suc (?p div 512)"
      unfolding mult_Suc_right using n(1,2) mult_div_mod_eq [of 512 ?p] by linarith
  qed
  then have "(?p + n - 1) div clusterBytes v = ?p div clusterBytes v"
    by (simp add: pos_block(1))
  moreover have "(of_nat (?p + n) :: u32) \<le> fileSize f" "(of_nat (?p + n) :: u32) \<noteq> 0"
    using small n(1,3) by (auto simp: word_le_nat_alt word_unat_eq_iff)
  ultimately show ?thesis
    using small
    by (auto simp: moved_def pos_ok_def
          intro!: exI [of _ "if ftype f = ROOT16 then curCluster f else cs ! (?p div clusterBytes v)"])
qed

lemma readLoop_spec:
  assumes "cache_ok good disk lim s" and "geom lim (vol s)"
    and "file_ok (view disk s) (vol s) f cs" and "\<not> unbufferedRead f"
    and "unat (curPosition f) + unat toRead \<le> unat (fileSize f)"
  shows "\<exists>f' s'. readLoop ops toRead dst f s =
      (True, dst @ slice (unat (curPosition f)) (unat toRead) (contents (view disk s) (vol s) f cs), f', s')
    \<and> quiet good disk lim s s' \<and> moved (vol s) cs (unat (curPosition f) + unat toRead) f f'"
  using assms
proof (induction "unat toRead" arbitrary: toRead dst f s rule: less_induct)
  case less
  let ?v = "vol s" and ?D = "view disk s" and ?p = "unat (curPosition f)"
  show ?case
  proof (cases "toRead = 0")
    case True
    have "pos_ok ?v f cs" using less.prems(3) by (simp add: file_ok_def)
    then show ?thesis
      using True less.prems(1)
      by (subst readLoop.simps) (auto simp: slice_def quiet_refl moved_refl)
  next
    case False
    then have t0: "0 < unat toRead" by (simp add: unat_gt_0)
    with less.prems(5) have psz: "?p < unat (fileSize f)" by linarith
    obtain f1 s1 where l: "readLocate ops f s = (Some (fblock ?v f cs (?p div 512)), f1, s1)"
        "quiet good disk lim s s1"
        "f1 = (if ftype f = ROOT16 then f else f\<lparr>curCluster := cs ! (?p div clusterBytes ?v)\<rparr>)"
      using readLocate_spec [OF less.prems(1,2,3) psz] by blast
    note q1 = quietD [OF l(2)]
    let ?off = "blockOffset f" and ?n = "chunkSize toRead (blockOffset f)"
    have off: "unat ?off = ?p mod 512" by (rule blockOffset_nat)
    have n: "unat ?n = min (unat toRead) (512 - ?p mod 512)"
      using chunkSize_nat [of ?off toRead] off by simp
    have n0: "0 < unat ?n" "unat ?n \<le> unat toRead" "?p mod 512 + unat ?n \<le> 512"
      using n t0 by auto
    have kb: "?p div 512 < nblocks ?v f cs"
      using psz less.prems(3) by (auto simp: file_ok_def intro!: less_mult_imp_div_less)
    have fc: "file_chain ?D ?v f cs" using less.prems(3) by (simp add: file_ok_def)
    note bv = fblock_valid [OF less.prems(2) fc kb]
    have "\<not> unbufferedRead f1" using less.prems(4) l(3) by (simp add: unbufferedRead_def)
    then obtain s2 where c: "readChunk ops f1 (fblock ?v f cs (?p div 512)) ?off ?n s1 =
        (Some (slice (?p mod 512) (unat ?n) (?D (fblock ?v f cs (?p div 512)))), s2)"
        "quiet good disk lim s1 s2"
      using readChunk_spec [OF q1(1) _ _ _ _ , of "fblock ?v f cs (?p div 512)" f1 ?off ?n]
        bv q1 less.prems(2) off n0(3) by auto
    note q2 = quietD [OF quiet_trans [OF l(2) c(2)]]
    let ?f = "f1\<lparr>curPosition := curPosition f1 + ucast ?n\<rparr>"
    have "(ucast ?n :: u32) = of_nat (unat ?n)"
      by (intro eq_of_nat) (simp add: unat_ucast_up)
    then have "curPosition f1 + ucast ?n = of_nat (?p + unat ?n)"
      using l(3) by simp
    then have mv: "moved ?v cs (?p + unat ?n) f ?f"
      using pos_ok_advance [OF less.prems(3) n0(1,3)] n0(2) less.prems(5) l(3) by simp
    note mf = moved_fields [OF mv]
    have "unat (toRead - ?n) = unat toRead - unat ?n"
      using n0(2) by (rule unat_sub_small)
    then obtain f' s' where r: "readLoop ops (toRead - ?n)
          (dst @ slice (?p mod 512) (unat ?n) (?D (fblock ?v f cs (?p div 512)))) ?f s2 =
        (True, (dst @ slice (?p mod 512) (unat ?n) (?D (fblock ?v f cs (?p div 512)))) @
           slice (?p + unat ?n) (unat toRead - unat ?n) (contents ?D ?v f cs), f', s')"
        "quiet good disk lim s2 s'" "moved ?v cs (?p + unat toRead) ?f f'"
      using less.hyps [of "toRead - ?n" s2 ?f "dst @ slice (?p mod 512) (unat ?n) (?D (fblock ?v f cs (?p div 512)))"]
        n0 q2 less.prems moved_file_ok [OF mv less.prems(3)] mf moved_contents [OF mv]
      by (auto simp: unbufferedRead_def)
    have len: "\<And>b. length (?D b) = 512" using view_length [OF less.prems(1)] .
    have "slice (?p mod 512) (unat ?n) (?D (fblock ?v f cs (?p div 512))) =
        slice ?p (unat ?n) (contents ?D ?v f cs)"
      using blocks_bytes_slice [of ?D, OF len kb n0(3), of "fblock ?v f cs"] n0(2) less.prems(5)
      by (simp add: slice_contents raw_bytes_def)
    then have "(dst @ slice (?p mod 512) (unat ?n) (?D (fblock ?v f cs (?p div 512)))) @
           slice (?p + unat ?n) (unat toRead - unat ?n) (contents ?D ?v f cs) =
        dst @ slice ?p (unat toRead) (contents ?D ?v f cs)"
      using n0(2) slice_append_slice [of ?p "unat ?n" "contents ?D ?v f cs" "unat toRead - unat ?n"]
      by simp
    with r l(1) c(1) False show ?thesis
      using quiet_trans [OF quiet_trans [OF l(2) c(2)] r(2)] moved_trans [OF mv r(3)]
      by (subst readLoop.simps) (auto simp: Let_def word_neq_0_conv)
  qed
qed

text \<open>\<open>read(buf, nbyte)\<close>, of a file opened for reading that is not read unbuffered.\<close>

lemma read_spec:
  assumes ok: "cache_ok good disk lim s" and g: "geom lim (vol s)"
    and f: "file_ok (view disk s) (vol s) f cs" and u: "\<not> unbufferedRead f"
    and r: "flags f AND O_READ \<noteq> 0"
    and m: "m = min (unat nbyte) (unat (fileSize f) - unat (curPosition f))"
  obtains f' s' where "read ops nbyte f s =
      (of_nat m, slice (unat (curPosition f)) m (contents (view disk s) (vol s) f cs), f', s')"
    and "quiet good disk lim s s'" and "moved (vol s) cs (unat (curPosition f) + m) f f'"
proof -
  let ?left = "fileSize f - curPosition f"
  let ?n = "if (ucast nbyte :: u32) > ?left then ucast ?left else nbyte"
  have p: "unat (curPosition f) \<le> unat (fileSize f)"
    using f by (simp add: file_ok_def pos_ok_def word_le_nat_alt)
  have left: "unat ?left = unat (fileSize f) - unat (curPosition f)"
    using p by (rule unat_sub_small)
  have n: "unat ?n = m"
  proof (cases "(ucast nbyte :: u32) > ?left")
    case True
    then have lt: "unat ?left < unat nbyte" by (simp add: word_less_nat_alt unat_ucast_up)
    then have "unat ?left < 65536" using unat_bound(2) [of nbyte] by linarith
    then show ?thesis using True lt left m by (simp add: unat_ucast_mod)
  next
    case False
    then show ?thesis using left m by (simp add: word_less_nat_alt unat_ucast_up)
  qed
  have "unat (curPosition f) + unat ?n \<le> unat (fileSize f)" using n m p by simp
  from readLoop_spec [OF ok g f u this, of "[]"] n obtain f' s' where
    "readLoop ops ?n [] f s = (True, slice (unat (curPosition f)) m (contents (view disk s) (vol s) f cs), f', s')"
    "quiet good disk lim s s'" "moved (vol s) cs (unat (curPosition f) + m) f f'"
    by auto
  moreover have "?n = of_nat m" using n by (rule eq_of_nat)
  ultimately show ?thesis
    using f r by (intro that [of f' s']) (auto simp: read_def file_ok_def Let_def)
qed

end

end
