(* ===== verification/FileWrite.thy ===== *)
theory FileWrite
  imports FileRead
begin

text \<open>
  Writing refines the replacement of a part of a byte string: after write, the contents
  are the old ones with the new bytes spliced in at the position, extending the file
  when they reach past its end, and nothing else on the volume has changed but the
  clusters taken from the free ones.
\<close>

section \<open>Volumes that differ in the search start only\<close>

lemma env_geo_vol:
  assumes "env_geo s' = env_geo s"
  obtains a where "vol s' = vol s\<lparr>allocSearchStart := a\<rparr>"
proof -
  have "vol s' = vol s\<lparr>allocSearchStart := allocSearchStart (vol s')\<rparr>"
    using assms by (cases "vol s'", cases "vol s") (auto simp: env_geo_def)
  then show ?thesis by (rule that)
qed

lemma alloc_start_file [simp]:
  "clusterStartBlock (v\<lparr>allocSearchStart := a\<rparr>) = clusterStartBlock v"
  "file_block (v\<lparr>allocSearchStart := a\<rparr>) = file_block v"
  "blockOfCluster (v\<lparr>allocSearchStart := a\<rparr>) = blockOfCluster v"
  "clusterBytes (v\<lparr>allocSearchStart := a\<rparr>) = clusterBytes v"
  "pos_ok (v\<lparr>allocSearchStart := a\<rparr>) = pos_ok v"
  "free_cluster D (v\<lparr>allocSearchStart := a\<rparr>) = free_cluster D v"
  by (auto simp: fun_eq_iff clusterStartBlock_def file_block_def blockOfCluster_def clusterBytes_def
      pos_ok_def free_cluster_def)

lemma alloc_start_bytes [simp]:
  "fblock (v\<lparr>allocSearchStart := a\<rparr>) = fblock v"
  "nblocks (v\<lparr>allocSearchStart := a\<rparr>) = nblocks v"
  "raw_bytes D (v\<lparr>allocSearchStart := a\<rparr>) = raw_bytes D v"
  "contents D (v\<lparr>allocSearchStart := a\<rparr>) = contents D v"
  by (simp_all add: fun_eq_iff fblock_def nblocks_def raw_bytes_def contents_def)

lemma alloc_start_chain [simp]:
  "fat_chain D (v\<lparr>allocSearchStart := a\<rparr>) = fat_chain D v"
  "file_chain D (v\<lparr>allocSearchStart := a\<rparr>) = file_chain D v"
  "file_ok D (v\<lparr>allocSearchStart := a\<rparr>) = file_ok D v"
  by (auto simp: fun_eq_iff fat_chain_def file_chain_def file_ok_def)

section \<open>What a write may change\<close>

definition chain_blocks :: "sdvolume \<Rightarrow> u32 list \<Rightarrow> u32 set" where
  "chain_blocks v cs = file_block v cs ` {..<length cs * bpc v}"

lemma chain_blocks_append: "chain_blocks v cs \<subseteq> chain_blocks v (cs @ ds)"
  unfolding chain_blocks_def
proof
  fix b assume "b \<in> file_block v cs ` {..<length cs * bpc v}"
  then obtain k where k: "k < length cs * bpc v" "b = file_block v cs k" by auto
  then have "b = file_block v (cs @ ds) k" "k < length (cs @ ds) * bpc v"
    by (simp_all add: file_block_append algebra_simps)
  then show "b \<in> file_block v (cs @ ds) ` {..<length (cs @ ds) * bpc v}" by blast
qed

definition extends ::
  "('c \<Rightarrow> bool) \<Rightarrow> ('c \<Rightarrow> u32 \<Rightarrow> u8 list) \<Rightarrow> nat \<Rightarrow> 'c fs \<Rightarrow> 'c fs \<Rightarrow> u32 list \<Rightarrow> u32 list \<Rightarrow> bool" where
  "extends good disk lim s s' cs cs' \<longleftrightarrow>
     cache_ok good disk lim s' \<and> env_geo s' = env_geo s \<and> start_ok (vol s') \<and>
     (\<exists>new. cs' = cs @ new \<and> (\<forall>c \<in> set new. free_cluster (view disk s) (vol s) c)) \<and>
     (\<forall>y. in_fat (vol s) y \<and> y \<notin> set cs' \<longrightarrow>
        fat_entry (view disk s') (vol s) y = fat_entry (view disk s) (vol s) y) \<and>
     (\<forall>b. \<not> fat_region (vol s) b \<and> b \<notin> chain_blocks (vol s) cs' \<longrightarrow> view disk s' b = view disk s b)"

lemma extends_refl:
  "quiet good disk lim s s' \<Longrightarrow> start_ok (vol s) \<Longrightarrow> extends good disk lim s s' cs cs"
  by (auto simp: extends_def dest: quietD env_imp_env_geo)

lemma extendsD:
  assumes "extends good disk lim s s' cs cs'"
  shows "cache_ok good disk lim s'" and "env_geo s' = env_geo s" and "start_ok (vol s')"
    and "\<exists>new. cs' = cs @ new"
    and "\<And>y. in_fat (vol s) y \<Longrightarrow> y \<notin> set cs' \<Longrightarrow>
        fat_entry (view disk s') (vol s) y = fat_entry (view disk s) (vol s) y"
    and "\<And>b. \<not> fat_region (vol s) b \<Longrightarrow> b \<notin> chain_blocks (vol s) cs' \<Longrightarrow> view disk s' b = view disk s b"
  using assms by (auto simp: extends_def)

lemma chain_entry_nonzero:
  assumes g: "geom lim v" and ch: "fat_chain D v cs" and c: "c \<in> set cs"
  shows "fat_entry D v c \<noteq> 0"
proof -
  obtain i where i: "i < length cs" "cs ! i = c" using c by (auto simp: in_set_conv_nth)
  show ?thesis
  proof (cases "Suc i < length cs")
    case True
    then have "fat_entry D v c = cs ! Suc i"
      using ch i chain_nth [of "fat_entry D v" "isEOC v" cs i] by (simp add: fat_chain_def)
    moreover have "data_cluster v (cs ! Suc i)" using ch True by (simp add: fat_chain_def)
    ultimately show ?thesis using data_cluster_guard(3) [OF g] by metis
  next
    case False
    with i have "c = last cs" by (metis Suc_lessI diff_Suc_1 last_conv_nth length_greater_0_conv list.size(3) not_less_zero)
    then have "isEOC v (fat_entry D v c)"
      using ch chain_last [of "fat_entry D v" "isEOC v" cs] by (simp add: fat_chain_def)
    then show ?thesis by (auto simp: isEOC_nat eocMin_def split: if_splits)
  qed
qed

lemma file_chain_nonzero:
  assumes "geom lim v" and "file_chain D v f cs" and "c \<in> set cs"
  shows "fat_entry D v c \<noteq> 0"
  using assms chain_entry_nonzero by (fastforce simp: file_chain_def split: if_splits)

lemma extends_trans:
  assumes 1: "extends good disk lim s s1 cs cs1" and 2: "extends good disk lim s1 s2 cs1 cs2"
    and nz: "\<And>c. c \<in> set cs1 \<Longrightarrow> fat_entry (view disk s1) (vol s1) c \<noteq> 0"
  shows "extends good disk lim s s2 cs cs2"
proof -
  obtain a where v1: "vol s1 = vol s\<lparr>allocSearchStart := a\<rparr>"
    using env_geo_vol [OF extendsD(2) [OF 1]] .
  obtain n1 where n1: "cs1 = cs @ n1" "\<forall>c \<in> set n1. free_cluster (view disk s) (vol s) c"
    using 1 by (auto simp: extends_def)
  obtain n2 where n2: "cs2 = cs1 @ n2" "\<forall>c \<in> set n2. free_cluster (view disk s1) (vol s) c"
    using 2 v1 by (auto simp: extends_def)
  have "free_cluster (view disk s) (vol s) c" if c: "c \<in> set n2" for c
  proof -
    have f: "free_cluster (view disk s1) (vol s) c" using n2(2) c by blast
    then have "c \<notin> set cs1" using nz v1 by (auto simp: free_cluster_def)
    with f extendsD(5) [OF 1 data_cluster_in_fat, of c] show ?thesis
      by (simp add: free_cluster_def)
  qed
  with n1 n2(1) have new: "\<exists>new. cs2 = cs @ new \<and> (\<forall>c \<in> set new. free_cluster (view disk s) (vol s) c)"
    by (intro exI [of _ "n1 @ n2"]) auto
  have sub: "chain_blocks (vol s) cs1 \<subseteq> chain_blocks (vol s) cs2" "set cs1 \<subseteq> set cs2"
    using chain_blocks_append n2(1) by auto
  have cb: "chain_blocks (vol s1) = chain_blocks (vol s)"
    by (simp add: chain_blocks_def fun_eq_iff v1)
  show ?thesis
    unfolding extends_def
  proof (intro conjI new allI impI)
    show "cache_ok good disk lim s2" "start_ok (vol s2)" using extendsD [OF 2] by blast+
    show "env_geo s2 = env_geo s" using extendsD(2) [OF 1] extendsD(2) [OF 2] by simp
  next
    fix y assume "in_fat (vol s) y \<and> y \<notin> set cs2"
    then show "fat_entry (view disk s2) (vol s) y = fat_entry (view disk s) (vol s) y"
      using extendsD(5) [OF 1, of y] extendsD(5) [OF 2, of y] v1 sub(2) by auto
  next
    fix b assume "\<not> fat_region (vol s) b \<and> b \<notin> chain_blocks (vol s) cs2"
    then show "view disk s2 b = view disk s b"
      using extendsD(6) [OF 1, of b] extendsD(6) [OF 2, of b] v1 cb sub(1) by auto
  qed
qed

section \<open>Splicing byte strings\<close>

lemma splice_splice:
  assumes "off \<le> length c" and "n = off + length a"
  shows "splice (splice c off a) n b = splice c off (a @ b)"
  using assms by (simp add: splice_def ac_simps)


section \<open>Adding a cluster\<close>

lemma fat_chain_snoc:
  assumes g: "geom lim v" and t: "fatType v = 16 \<or> fatType v = 32"
    and ch: "cs \<noteq> [] \<Longrightarrow> fat_chain D v cs" and b: "free_cluster D v b"
    and F': "\<And>y. in_fat v y \<Longrightarrow> fat_entry E v y =
      (if y = b then fat_trunc v 0x0FFFFFFF else if cs \<noteq> [] \<and> y = last cs then b else fat_entry D v y)"
  shows "fat_chain E v (cs @ [b])" and "b \<notin> set cs"
proof -
  note eoc = fat_trunc_EOC [OF t]
  have db: "data_cluster v b" "fat_entry D v b = 0" using b by (auto simp: free_cluster_def)
  show nb: "b \<notin> set cs"
    using ch chain_entry_nonzero [OF g] db(2) by (cases "cs = []") auto
  show "fat_chain E v (cs @ [b])"
  proof (cases "cs = []")
    case True
    then show ?thesis
      using F' [OF data_cluster_in_fat [OF db(1)]] eoc db(1) by (simp add: fat_chain_def)
  next
    case False
    let ?F = "(fat_entry D v)(last cs := b, b := fat_trunc v 0x0FFFFFFF)"
    have "chain ?F (isEOC v) (cs @ [b])"
      using ch [OF False] nb eoc in_fat_not_EOC [OF g data_cluster_in_fat [OF db(1)]]
      by (intro chain_snoc) (auto simp: fat_chain_def)
    then have "chain (fat_entry E v) (isEOC v) (cs @ [b])"
    proof (rule chain_cong)
      fix c assume "c \<in> set (cs @ [b])"
      then have "in_fat v c" using ch [OF False] db(1) by (auto simp: fat_chain_def data_cluster_in_fat)
      then show "fat_entry E v c = ?F c" using F' False by simp
    qed
    then show ?thesis using ch [OF False] db(1) by (auto simp: fat_chain_def)
  qed
qed

lemma isOpen_normal: "ftype f \<noteq> CLOSED \<Longrightarrow> isOpen f" by (simp add: isOpen_def)

context block_device
begin

lemma addCluster_spec:
  assumes ok: "cache_ok good disk lim s" and g: "geom lim (vol s)" and st: "start_ok (vol s)"
    and f: "file_chain (view disk s) (vol s) f cs" and nr: "ftype f \<noteq> ROOT16"
    and cur: "curCluster f = (if cs = [] then 0 else last cs)"
    and x: "free_cluster (view disk s) (vol s) x"
  obtains b s' f' where "addCluster ops f s = (True, f', s')"
    and "f' = f\<lparr>curCluster := b, firstCluster := (if cs = [] then b else firstCluster f),
              flags := (if cs = [] then flags f OR F_FILE_DIR_DIRTY else flags f)\<rparr>"
    and "file_chain (view disk s') (vol s) f' (cs @ [b])"
    and "extends good disk lim s s' cs (cs @ [b])"
    and "fat_region (vol s) (cacheBlockNumber s')"
    and "\<And>c. free_cluster (view disk s') (vol s) c \<longleftrightarrow> c \<noteq> b \<and> free_cluster (view disk s) (vol s) c"
    and "\<And>k. \<not> fat_region (vol s) k \<Longrightarrow> view disk s' k = view disk s k"
proof -
  let ?v = "vol s" and ?F = "fat_entry (view disk s) (vol s)"
  have t: "fatType ?v = 16 \<or> fatType ?v = 32" using g by (simp add: geom_def)
  have ch: "fat_chain (view disk s) ?v cs" "hd cs = firstCluster f" if "cs \<noteq> []"
    using f nr that by (auto simp: file_chain_def split: if_splits)
  have dc: "cs \<noteq> [] \<Longrightarrow> data_cluster ?v (last cs)"
    using ch(1) last_in_set by (auto simp: fat_chain_def)
  have fz: "firstCluster f = 0 \<longleftrightarrow> cs = []"
    using f nr chain_not_Nil by (auto simp: file_chain_def split: if_splits)
  have c0: "curCluster f = 0 \<longleftrightarrow> cs = []"
    using dc data_cluster_guard(3) [OF g] cur by auto
  have "data_cluster ?v (curCluster f) \<and> ?F (curCluster f) \<noteq> 0" if "curCluster f \<noteq> 0"
    using that c0 cur dc ch chain_entry_nonzero [OF g] by auto
  from alloc_one [OF ok g st this x] obtain b s' where
    s': "allocContiguous ops 1 (curCluster f) s = (Some b, s')" "free_cluster (view disk s) ?v b"
      "fat_updated good disk lim s s'
        (\<lambda>y. if y = b then fat_trunc ?v 0x0FFFFFFF else if curCluster f \<noteq> 0 \<and> y = curCluster f then b
             else ?F y)" "start_ok (vol s')" "fat_region ?v (cacheBlockNumber s')"
    by blast
  have db: "data_cluster ?v b" "?F b = 0" using s'(2) by (auto simp: free_cluster_def)
  note u = fat_updatedD [OF s'(3)]
  have E: "fat_entry (view disk s') ?v y =
      (if y = b then fat_trunc ?v 0x0FFFFFFF else if cs \<noteq> [] \<and> y = last cs then b else ?F y)"
    if "in_fat ?v y" for y
    using s'(3) that c0 cur by (auto simp: fat_updated_def)
  note sn = fat_chain_snoc [OF g t ch(1) s'(2) E]
  let ?f = "f\<lparr>curCluster := b, firstCluster := (if cs = [] then b else firstCluster f),
              flags := (if cs = [] then flags f OR F_FILE_DIR_DIRTY else flags f)\<rparr>"
  have b0: "b \<noteq> 0" using data_cluster_guard(3) [OF g db(1)] .
  show ?thesis
  proof (rule that [of ?f s' b])
    show "addCluster ops f s = (True, ?f, s')"
      using s'(1) fz by (simp add: addCluster_def Let_def)
    show "file_chain (view disk s') ?v ?f (cs @ [b])"
      using sn(1) ch(2) nr fz b0 by (auto simp: file_chain_def)
    show "extends good disk lim s s' cs (cs @ [b])"
      using u s'(2,4) E by (auto simp: extends_def)
    show "fat_region ?v (cacheBlockNumber s')" by (rule s'(5))
    show "free_cluster (view disk s') ?v c \<longleftrightarrow> c \<noteq> b \<and> free_cluster (view disk s) ?v c" for c
    proof (cases "data_cluster ?v c")
      case True
      have "fat_trunc ?v 0x0FFFFFFF \<noteq> 0"
        using fat_trunc_EOC [OF t] by (auto simp: isEOC_nat eocMin_def split: if_splits)
      moreover have "cs \<noteq> [] \<Longrightarrow> ?F (last cs) \<noteq> 0"
        using ch chain_entry_nonzero [OF g] by auto
      ultimately show ?thesis
        using E [OF data_cluster_in_fat [OF True]] True b0 by (auto simp: free_cluster_def)
    qed (simp add: free_cluster_def)
    show "\<not> fat_region ?v k \<Longrightarrow> view disk s' k = view disk s k" for k by (rule u(4))
  qed simp
qed

end


section \<open>The parts of the write loop\<close>

definition nfree :: "(u32 \<Rightarrow> u8 list) \<Rightarrow> sdvolume \<Rightarrow> nat" where
  "nfree D v = Finite_Set.card {c. free_cluster D v c}"

text \<open>The file during the loop: the position may be past \<open>fileSize_\<close>, but not past the chain.\<close>

definition wr_ok :: "(u32 \<Rightarrow> u8 list) \<Rightarrow> sdvolume \<Rightarrow> sdfile \<Rightarrow> u32 list \<Rightarrow> bool" where
  "wr_ok D v f cs \<longleftrightarrow>
     ftype f = NORMAL \<and> file_chain D v f cs \<and> unat (curPosition f) \<le> 512 * (length cs * bpc v) \<and>
     (if curPosition f = 0 then curCluster f = 0
      else curCluster f = cs ! ((unat (curPosition f) - 1) div clusterBytes v))"

text \<open>
  The cache holds no unwritten data for a block of the file that the loop has still to
  reach: writing such a block past the cache would leave the stale copy dirty.
\<close>

definition no_clash :: "'c fs \<Rightarrow> u32 list \<Rightarrow> nat \<Rightarrow> bool" where
  "no_clash s cs p \<longleftrightarrow>
     (cacheDirty s \<longrightarrow>
        (\<forall>k < length cs * bpc (vol s). p \<le> 512 * k \<longrightarrow> cacheBlockNumber s \<noteq> file_block (vol s) cs k))"

lemma no_clash_clean: "\<not> cacheDirty s \<Longrightarrow> no_clash s cs p"
  by (simp add: no_clash_def)

lemma no_clash_fat:
  assumes g: "geom lim (vol s)" and "\<forall>c \<in> set cs. data_cluster (vol s) c"
    and "fat_region (vol s) (cacheBlockNumber s)"
  shows "no_clash s cs p"
  using file_block_valid(3) [OF g assms(2)] assms(3) by (auto simp: no_clash_def)

context block_device
begin

lemma writeChunk_spec:
  assumes ok: "cache_ok good disk lim s" and g: "geom lim (vol s)"
    and b: "unat b < lim" "b \<noteq> 0" "\<not> fat_region (vol s) b"
    and n: "unat off + unat n \<le> 512" "unat n \<le> length src"
    and clash: "n = 512 \<Longrightarrow> \<not> (cacheDirty s \<and> cacheBlockNumber s = b)"
  obtains s' X where "writeChunk ops f b off n src s = (True, s')"
    and "cache_ok good disk lim s'" and "env s' = env s" and "view disk s' = (view disk s)(b := X)"
    and "length X = 512" and "take (unat off + unat n) X = take (unat off) (view disk s b) @ take (unat n) src"
    and "off \<noteq> 0 \<or> curPosition f < fileSize f \<Longrightarrow>
      drop (unat off + unat n) X = drop (unat off + unat n) (view disk s b)"
    and "cacheDirty s' \<Longrightarrow> (n \<noteq> 512 \<and> cacheBlockNumber s' = b) \<or>
      (n = 512 \<and> cacheDirty s \<and> cacheBlockNumber s' = cacheBlockNumber s)"
proof (cases "n = 512")
  case True
  then have off: "off = 0" "unat n = 512" using n by (simp_all add: word_unat_eq_iff)
  let ?s = "if cacheBlockNumber s = b then s\<lparr>cacheBlockNumber := 0xFFFFFFFF\<rparr> else s"
  let ?X = "take 512 src"
  have gd: "good (card s)" using ok by (simp add: cache_ok_def)
  have X: "length ?X = 512" using n(2) off by simp
  from writeBlock_law [OF gd b(1,2) X] obtain c where
    c: "card_writeBlock ops b ?X (card s) = (True, c)" "good c" "disk c = (disk (card s))(b := ?X)"
    by blast
  have m: "cacheMirrorBlock s \<noteq> 0 \<Longrightarrow> cacheMirrorBlock s \<noteq> b"
    using mirror_in_fat [OF ok g] b(3) by blast
  have big: "\<not> unat (0xFFFFFFFF :: u32) < lim" using lim_bound by simp
  let ?s' = "?s\<lparr>card := c\<rparr>"
  show ?thesis
  proof (rule that [of ?s' ?X])
    show "writeChunk ops f b off n src s = (True, ?s')"
      using True c(1) by (simp add: writeChunk_def Let_def)
    show "cache_ok good disk lim ?s'"
      using ok c big clash True by (auto simp: cache_ok_def)
    show "env ?s' = env s" by simp
    show "view disk ?s' = (view disk s)(b := ?X)"
      using c(3) clash True m by (auto simp: view_def fun_eq_iff)
  qed (use True X off n clash view_length [OF ok, of b] in auto)
next
  case False
  have lenb: "length (view disk s b) = 512" by (rule view_length [OF ok])
  show ?thesis
  proof (cases "off = 0 \<and> curPosition f \<ge> fileSize f")
    case True
    obtain s1 where s1: "cacheFlush ops s = (True, s1)" "quiet good disk lim s s1" "\<not> cacheDirty s1"
      using cacheFlush_spec [OF ok] by blast
    note q = quietD [OF s1(2)]
    have l: "length (cacheBuffer s1) = 512" "cacheMirrorBlock s1 = 0"
      using q(1) s1(3) by (auto simp: cache_ok_def)
    let ?X = "splice (cacheBuffer s1) 0 (take (unat n) src)"
    let ?s' = "s1\<lparr>cacheBlockNumber := b, cacheDirty := True, cacheBuffer := ?X\<rparr>"
    have lX: "length ?X = 512" using l n by simp
    show ?thesis
    proof (rule that [of ?s' ?X])
      show "writeChunk ops f b off n src s = (True, ?s')"
        using False True s1(1) by (simp add: writeChunk_def cacheSetDirty_def)
      show "cache_ok good disk lim ?s'" using q(1) s1(3) l lX b by (auto simp: cache_ok_def)
      show "env ?s' = env s" using q(3) by (simp add: env_def)
      have "view disk ?s' = (view disk s1)(b := ?X)"
        using s1(3) l by (auto simp: view_def fun_eq_iff)
      then show "view disk ?s' = (view disk s)(b := ?X)" by (simp add: q(2))
    qed (use True False lX n in \<open>auto simp: splice_def\<close>)
  next
    case F: False
    obtain s1 where s1: "cacheRawBlock ops b CACHE_FOR_WRITE s = (True, s1)" "quiet good disk lim s s1"
        "cacheBlockNumber s1 = b" "cacheBuffer s1 = view disk s b" "cacheDirty s1"
      using cacheRawBlock_spec [OF ok b(1), of True] b(2) by auto
    note q = quietD [OF s1(2)]
    have m: "cacheMirrorBlock s1 = 0"
      using mirror_in_fat(2) [OF q(1)] g q(4) s1(3) b(3) by auto
    let ?X = "splice (view disk s b) (unat off) (take (unat n) src)"
    let ?s' = "s1\<lparr>cacheBuffer := ?X, cacheDirty := True\<rparr>"
    have lX: "length ?X = 512" using lenb n by simp
    note cm = cache_modify [OF q(1) m, unfolded s1(3), OF b(1,2) lX]
    have s1e: "s1\<lparr>cacheBuffer := ?X\<rparr> = ?s'" using s1(5) by simp
    show ?thesis
    proof (rule that [of ?s' ?X])
      show "writeChunk ops f b off n src s = (True, ?s')"
        using False F s1(1,4) s1e by (auto simp: writeChunk_def)
      show "cache_ok good disk lim ?s'" by (rule cm(1))
      show "env ?s' = env s" using q(3) by (simp add: env_def)
      show "view disk ?s' = (view disk s)(b := ?X)" using cm(2) q(2) by simp
    qed (use False lX n lenb s1(3) in \<open>auto simp: splice_def min_absorb1\<close>)
  qed
qed

end


lemma cacheFlush_clean: "cacheFlush ops s = (True, s') \<Longrightarrow> \<not> cacheDirty s'"
  by (auto simp: cacheFlush_def Let_def split: if_splits prod.splits)

lemma fatGet_clean: "fatGet ops c s = (Some x, s') \<Longrightarrow> s' = s \<or> \<not> cacheDirty s'"
  by (auto simp: fatGet_def Let_def cacheRawBlock_def seqOk_def dest: cacheFlush_clean
        split: if_splits prod.splits option.splits bool.splits)

lemma no_clash_quiet:
  "no_clash s cs p \<Longrightarrow> s' = s \<or> \<not> cacheDirty s' \<Longrightarrow> no_clash s' cs p"
  by (auto simp: no_clash_def)

lemma nfree_remove:
  assumes "free_cluster D v b"
    and "\<And>c. free_cluster E v c \<longleftrightarrow> c \<noteq> b \<and> free_cluster D v c"
  shows "nfree D v = nfree E v + 1"
proof -
  have "{c. free_cluster D v c} = insert b {c. free_cluster E v c}" using assms by auto
  moreover have "b \<notin> {c. free_cluster E v c}" using assms by auto
  ultimately show ?thesis by (simp add: nfree_def)
qed

lemma nfree_pos: "0 < nfree D v \<Longrightarrow> \<exists>x. free_cluster D v x"
  by (auto simp: nfree_def card_gt_0_iff)

lemma boundary:
  assumes "geom lim v"
  shows "(blockOfCluster v (curPosition f) = 0 \<and> blockOffset f = 0) =
    (unat (curPosition f) mod clusterBytes v = 0)"
  using blockOfCluster_nat [OF assms, of "curPosition f"] blockOffset_nat [of f]
  by (auto simp: pos_block(2) word_unat_eq_iff)

context block_device
begin

lemma addCluster_step:
  assumes ok: "cache_ok good disk lim s" and g: "geom lim (vol s)" and st: "start_ok (vol s)"
    and f: "file_chain (view disk s) (vol s) f cs" and nr: "ftype f \<noteq> ROOT16"
    and cur: "curCluster f = (if cs = [] then 0 else last cs)"
    and need: "0 < nfree (view disk s) (vol s)"
  obtains b s' f' where "addCluster ops f s = (True, f', s')"
    and "f' = f\<lparr>curCluster := b, firstCluster := (if cs = [] then b else firstCluster f),
              flags := (if cs = [] then flags f OR F_FILE_DIR_DIRTY else flags f)\<rparr>"
    and "file_chain (view disk s') (vol s) f' (cs @ [b])"
    and "extends good disk lim s s' cs (cs @ [b])"
    and "\<And>p. no_clash s' (cs @ [b]) p"
    and "nfree (view disk s) (vol s) = nfree (view disk s') (vol s) + 1"
    and "\<And>k. \<not> fat_region (vol s) k \<Longrightarrow> view disk s' k = view disk s k"
proof -
  obtain x where x: "free_cluster (view disk s) (vol s) x" using nfree_pos [OF need] by blast
  obtain b s' f' where
    a: "addCluster ops f s = (True, f', s')"
      "f' = f\<lparr>curCluster := b, firstCluster := (if cs = [] then b else firstCluster f),
              flags := (if cs = [] then flags f OR F_FILE_DIR_DIRTY else flags f)\<rparr>"
      "file_chain (view disk s') (vol s) f' (cs @ [b])"
      "extends good disk lim s s' cs (cs @ [b])"
      "fat_region (vol s) (cacheBlockNumber s')"
      "\<And>c. free_cluster (view disk s') (vol s) c \<longleftrightarrow> c \<noteq> b \<and> free_cluster (view disk s) (vol s) c"
      "\<And>k. \<not> fat_region (vol s) k \<Longrightarrow> view disk s' k = view disk s k"
    by (rule addCluster_spec [OF ok g st f nr cur x], rule that)
  obtain z where v': "vol s' = vol s\<lparr>allocSearchStart := z\<rparr>"
    using env_geo_vol [OF extendsD(2) [OF a(4)]] .
  have g': "geom lim (vol s')" using g by (simp add: v')
  have fr': "fat_region (vol s') (cacheBlockNumber s')" using a(5) by (simp add: v')
  have dc': "\<forall>c \<in> set (cs @ [b]). data_cluster (vol s') c"
    using file_chain_clusters [OF a(3)] by (simp add: v')
  have nc: "no_clash s' (cs @ [b]) p" for p by (rule no_clash_fat [OF g' dc' fr'])
  have b: "free_cluster (view disk s) (vol s) b" using a(4) by (auto simp: extends_def)
  have nf: "nfree (view disk s) (vol s) = nfree (view disk s') (vol s) + 1"
    by (rule nfree_remove [OF b a(6)])
  show ?thesis by (rule that [OF a(1-4) nc nf a(7)])
qed

lemma writeLocate_step:
  assumes ok: "cache_ok good disk lim s" and g: "geom lim (vol s)" and st: "start_ok (vol s)"
    and w: "wr_ok (view disk s) (vol s) f cs" and nc: "no_clash s cs p" and p: "p = unat (curPosition f)"
    and need: "p = 512 * (length cs * bpc (vol s)) \<Longrightarrow> 0 < nfree (view disk s) (vol s)"
  obtains f' s' cs' fc fl where
    "(if blockOfCluster (vol s) (curPosition f) = 0 \<and> blockOffset f = 0 then writeLocate ops f s
      else (NextRound, f, s)) = (NextRound, f', s')"
    and "f' = f\<lparr>curCluster := cs' ! (p div clusterBytes (vol s)), firstCluster := fc, flags := fl\<rparr>"
    and "fl = flags f \<and> fc = firstCluster f \<or> fl = flags f OR F_FILE_DIR_DIRTY"
    and "p < 512 * (length cs' * bpc (vol s))"
    and "file_chain (view disk s') (vol s) f' cs'"
    and "extends good disk lim s s' cs cs'" and "no_clash s' cs' p"
    and "nfree (view disk s) (vol s) + length cs = nfree (view disk s') (vol s) + length cs'"
    and "length cs' = max (length cs) (p div clusterBytes (vol s) + 1)"
    and "\<And>k. \<not> fat_region (vol s) k \<Longrightarrow> view disk s' k = view disk s k"
proof -
  let ?v = "vol s" and ?D = "view disk s" and ?cb = "clusterBytes (vol s)"
  let ?j = "p div ?cb"
  have fc: "file_chain ?D ?v f cs" and nr: "ftype f \<noteq> ROOT16" and ple: "p \<le> length cs * ?cb"
    and cur: "curCluster f = (if p = 0 then 0 else cs ! ((p - 1) div ?cb))"
    using w p by (auto simp: wr_ok_def clusterBytes_bpc algebra_simps unat_eq_0)
  have fz: "firstCluster f = 0 \<longleftrightarrow> cs = []"
    using fc nr chain_not_Nil by (auto simp: file_chain_def split: if_splits)
  have ch: "fat_chain ?D ?v cs" "hd cs = firstCluster f" if "cs \<noteq> []"
    using fc nr that by (auto simp: file_chain_def split: if_splits)
  have dc: "c \<in> set cs \<Longrightarrow> data_cluster ?v c" for c using file_chain_clusters [OF fc] by blast
  have cur0: "curCluster f = 0 \<longleftrightarrow> p = 0"
  proof (cases "p = 0")
    case False
    then have "(p - 1) div ?cb < length cs" using ple by (intro less_mult_imp_div_less) simp
    then show ?thesis using False cur dc [of "cs ! ((p - 1) div ?cb)"] data_cluster_guard(3) [OF g] by auto
  qed (simp add: cur)
  have bytes: "p < 512 * (n * bpc ?v) \<longleftrightarrow> ?j < n" for n
  proof -
    have "p < 512 * (n * bpc ?v) \<longleftrightarrow> p < n * ?cb" by (simp add: clusterBytes_bpc algebra_simps)
    then show ?thesis by (simp add: div_less_iff_less_mult)
  qed
  show ?thesis
  proof (cases "p mod ?cb = 0")
    case False
    have p0: "0 < p" using False by (auto intro: gr0I)
    have "?j < length cs"
    proof -
      have "p \<noteq> length cs * ?cb" using False by auto
      with ple have "p < length cs * ?cb" by simp
      then show ?thesis by (rule less_mult_imp_div_less)
    qed
    moreover have "curCluster f = cs ! ?j"
      using p0 cur pred_div [of ?cb p] False by simp
    ultimately show ?thesis
      using boundary [OF g, of f] p False fc nc bytes [of "length cs"] extends_refl [OF quiet_refl [OF ok] st]
      by (intro that [of f s "flags f" "firstCluster f" cs]) auto
  next
    case T: True
    have loc: "(if blockOfCluster ?v (curPosition f) = 0 \<and> blockOffset f = 0 then writeLocate ops f s
      else (NextRound, f, s)) = writeLocate ops f s"
      using boundary [OF g, of f] T p by simp
    have pj: "p = ?j * ?cb" using T by auto
    have jle: "?j \<le> length cs" using ple by (metis clusterBytes_pos div_le_mono div_mult_self_is_m)
    have pred: "(p - 1) div ?cb = ?j - 1" if "0 < p" using pred_div [of ?cb p] T that by simp
    have jpos: "0 < p \<Longrightarrow> 0 < ?j" using pj by (cases ?j) auto
    show ?thesis
    proof (cases "?j < length cs")
      case jl: True
      show ?thesis
      proof (cases "p = 0")
        case True
        have ne: "cs \<noteq> []" using jl by auto
        have "writeLocate ops f s = (NextRound, f\<lparr>curCluster := cs ! ?j\<rparr>, s)"
          using True ne cur0 fz ch(2) by (simp add: writeLocate_def hd_conv_nth)
        then show ?thesis
          using loc jl fc nc bytes [of "length cs"] extends_refl [OF quiet_refl [OF ok] st]
          by (intro that [of "f\<lparr>curCluster := cs ! ?j\<rparr>" s "flags f" "firstCluster f" cs]) auto
      next
        case False
        then have p0: "0 < p" by simp
        have c: "curCluster f = cs ! (?j - 1)" using cur pred p0 by simp
        have ne: "cs \<noteq> []" using jl by auto
        have "in_fat ?v (curCluster f)" using c jl dc by (auto intro!: data_cluster_in_fat)
        then obtain s1 where s1: "fatGet ops (curCluster f) s = (Some (fat_entry ?D ?v (curCluster f)), s1)"
            "quiet good disk lim s s1"
          using fatGet_spec [OF ok g] by blast
        note q = quietD [OF s1(2)]
        have nx: "fat_entry ?D ?v (curCluster f) = cs ! ?j"
          using ch(1) [OF ne] jl jpos [OF p0] chain_nth [of "fat_entry ?D ?v" "isEOC ?v" cs "?j - 1"]
          by (simp add: c fat_chain_def)
        have ne2: "\<not> isEOC ?v (cs ! ?j)"
          using dc jl in_fat_not_EOC [OF g data_cluster_in_fat] by auto
        have "writeLocate ops f s = (NextRound, f\<lparr>curCluster := cs ! ?j\<rparr>, s1)"
          using False cur0 s1(1) nx ne2 q(4) by (simp add: writeLocate_def)
        then show ?thesis
          using loc jl fc nc bytes [of "length cs"] extends_refl [OF s1(2) st] q
            no_clash_quiet [OF nc fatGet_clean [OF s1(1)]]
          by (intro that [of "f\<lparr>curCluster := cs ! ?j\<rparr>" s1 "flags f" "firstCluster f" cs]) auto
      qed
    next
      case False
      with jle have je: "?j = length cs" by simp
      then have pe: "p = 512 * (length cs * bpc ?v)"
        using pj by (simp add: clusterBytes_bpc algebra_simps)
      have need': "0 < nfree ?D ?v" by (rule need [OF pe])
      show ?thesis
      proof (cases "cs = []")
        case True
        then have p0: "p = 0" using pe by simp
        have "curCluster f = (if cs = [] then 0 else last cs)" using True cur p0 by simp
        note cu = this
        obtain b s' f' where
          a: "addCluster ops f s = (True, f', s')"
            "f' = f\<lparr>curCluster := b, firstCluster := (if cs = [] then b else firstCluster f),
              flags := (if cs = [] then flags f OR F_FILE_DIR_DIRTY else flags f)\<rparr>"
            "file_chain (view disk s') ?v f' (cs @ [b])" "extends good disk lim s s' cs (cs @ [b])"
            "\<And>p. no_clash s' (cs @ [b]) p" "nfree ?D ?v = nfree (view disk s') ?v + 1"
            "\<And>k. \<not> fat_region ?v k \<Longrightarrow> view disk s' k = ?D k"
          by (rule addCluster_step [OF ok g st fc nr cu need'], rule that)
        have "writeLocate ops f s = (NextRound, f', s')"
          using p0 cur0 fz True a(1) by (simp add: writeLocate_def)
        then show ?thesis
          using loc a je True bytes [of 1] p0
          by (intro that [of f' s' "flags f OR F_FILE_DIR_DIRTY" b "cs @ [b]"]) auto
      next
        case ne: False
        then have p0: "0 < p" using je pj jle by (cases p) auto
        have last: "curCluster f = last cs"
          using cur pred p0 je ne by (simp add: last_conv_nth)
        have "in_fat ?v (curCluster f)" using last ne dc by (auto intro!: data_cluster_in_fat)
        then obtain s1 where s1: "fatGet ops (curCluster f) s = (Some (fat_entry ?D ?v (curCluster f)), s1)"
            "quiet good disk lim s s1"
          using fatGet_spec [OF ok g] by blast
        note q = quietD [OF s1(2)]
        have eoc: "isEOC ?v (fat_entry ?D ?v (curCluster f))"
          using ch(1) [OF ne] chain_last [of "fat_entry ?D ?v" "isEOC ?v" cs] by (simp add: last fat_chain_def)
        have "curCluster f = (if cs = [] then 0 else last cs)" using ne last by simp
        note cu = this
        have h: "geom lim (vol s1)" "start_ok (vol s1)" "file_chain (view disk s1) (vol s1) f cs"
            "0 < nfree (view disk s1) (vol s1)"
          using g st fc need' q by simp_all
        obtain b s' f' where
          a: "addCluster ops f s1 = (True, f', s')"
            "f' = f\<lparr>curCluster := b, firstCluster := (if cs = [] then b else firstCluster f),
              flags := (if cs = [] then flags f OR F_FILE_DIR_DIRTY else flags f)\<rparr>"
            "file_chain (view disk s') ?v f' (cs @ [b])" "extends good disk lim s1 s' cs (cs @ [b])"
            "\<And>p. no_clash s' (cs @ [b]) p" "nfree ?D ?v = nfree (view disk s') ?v + 1"
            "\<And>k. \<not> fat_region ?v k \<Longrightarrow> view disk s' k = ?D k"
          by (rule addCluster_step [OF q(1) h(1-3) nr cu h(4), unfolded q(2) q(4)], rule that)
        have ex: "extends good disk lim s s' cs (cs @ [b])"
        proof (rule extends_trans [OF extends_refl [OF s1(2) st] a(4)])
          show "c \<in> set cs \<Longrightarrow> fat_entry (view disk s1) (vol s1) c \<noteq> 0" for c
            using file_chain_nonzero [OF g fc] q by simp
        qed
        have "writeLocate ops f s = (NextRound, f', s')"
          using p0 cur0 s1(1) eoc a(1) q(4) by (simp add: writeLocate_def)
        then show ?thesis
          using loc a je ne ex bytes [of "length cs + 1"]
          by (intro that [of f' s' "flags f" "firstCluster f" "cs @ [b]"]) auto
      qed
    qed
  qed
qed

end

end
