(* ===== verification/FileStore.thy ===== *)
theory FileStore
  imports FileWrite
begin

text \<open>
  The loop of write and write itself: the bytes of a cluster chain before and after one
  round, the invariant of the loop, and the contents of the file when it returns.
\<close>

section \<open>The bytes of a chain\<close>

definition chain_bytes :: "(u32 \<Rightarrow> u8 list) \<Rightarrow> sdvolume \<Rightarrow> u32 list \<Rightarrow> u8 list" where
  "chain_bytes D v cs = blocks_bytes D (file_block v cs) (length cs * bpc v)"

lemma raw_bytes_chain: "ftype f \<noteq> ROOT16 \<Longrightarrow> raw_bytes D v f cs = chain_bytes D v cs"
  by (simp add: raw_bytes_def chain_bytes_def fblock_def nblocks_def)

lemma chain_bytes_allocSearchStart [simp]:
  "chain_bytes D (v\<lparr>allocSearchStart := a\<rparr>) cs = chain_bytes D v cs"
  by (simp add: chain_bytes_def)

lemma length_chain_bytes:
  "(\<And>b. length (D b) = 512) \<Longrightarrow> length (chain_bytes D v cs) = 512 * (length cs * bpc v)"
  by (simp add: chain_bytes_def length_blocks_bytes)

lemma blocks_bytes_add:
  "blocks_bytes D blk (n + m) = blocks_bytes D blk n @ blocks_bytes D (\<lambda>k. blk (n + k)) m"
  by (induction m) (simp_all add: blocks_bytes_def)

lemma chain_bytes_prefix:
  assumes "\<And>k. k < length cs * bpc v \<Longrightarrow> E (file_block v cs k) = D (file_block v cs k)"
  shows "\<exists>rest. chain_bytes E v (cs @ ds) = chain_bytes D v cs @ rest"
proof -
  have "blocks_bytes E (file_block v (cs @ ds)) (length cs * bpc v) = chain_bytes D v cs"
    unfolding chain_bytes_def
    by (rule blocks_bytes_cong) (simp add: file_block_append assms)
  moreover have "chain_bytes E v (cs @ ds) =
      blocks_bytes E (file_block v (cs @ ds)) (length cs * bpc v + length ds * bpc v)"
    by (simp add: chain_bytes_def algebra_simps)
  ultimately show ?thesis by (simp add: blocks_bytes_add)
qed

lemma chain_bytes_store:
  assumes len: "\<And>b. length (D b) = 512" and g: "geom lim v"
    and cs: "\<forall>c \<in> set cs. data_cluster v c" "distinct cs"
    and k: "k < length cs * bpc v" and X: "length X = 512"
  shows "chain_bytes (D(file_block v cs k := X)) v cs = splice (chain_bytes D v cs) (512 * k) X"
proof -
  have "splice (D (file_block v cs k)) 0 X = X" using X len by (intro splice_all) simp
  then show ?thesis
    using blocks_bytes_splice [of D k "length cs * bpc v" 0 X "file_block v cs", OF len k]
      file_block_inj [OF g cs] k X
    by (simp add: chain_bytes_def)
qed

text \<open>One block replaced, as seen in the byte string.\<close>

lemma splice_take:
  assumes "512 * k + 512 \<le> length R" and X: "length X = 512" and m: "off + m \<le> 512"
    and t: "take (off + m) X = take off (slice (512 * k) 512 R) @ data"
  shows "take (512 * k + off + m) (splice R (512 * k) X) = take (512 * k + off) R @ data"
proof -
  have "take (512 * k + off + m) (splice R (512 * k) X) = take (512 * k) R @ take (off + m) X"
    using assms(1-3) by (simp add: splice_def min_absorb2)
  also have "\<dots> = (take (512 * k) R @ take off (drop (512 * k) R)) @ data"
    using t m by (simp add: slice_def min_absorb1)
  also have "take (512 * k) R @ take off (drop (512 * k) R) = take (512 * k + off) R"
    by (simp add: take_add)
  finally show ?thesis .
qed

lemma splice_drop:
  assumes "512 * k + 512 \<le> length R" and X: "length X = 512" and m: "off + m \<le> 512"
    and t: "drop (off + m) X = drop (off + m) (slice (512 * k) 512 R)"
  shows "drop (512 * k + off + m) (splice R (512 * k) X) = drop (512 * k + off + m) R"
proof (rule nth_equalityI)
  have lS: "length (slice (512 * k) 512 R) = 512" using assms(1) by simp
  show "length (drop (512 * k + off + m) (splice R (512 * k) X)) = length (drop (512 * k + off + m) R)"
    using assms(1) X by simp
  fix i assume "i < length (drop (512 * k + off + m) (splice R (512 * k) X))"
  then have i: "512 * k + off + m + i < length R" using assms(1) X by simp
  have "X ! (off + m + i) = R ! (512 * k + off + m + i)" if "off + m + i < 512"
  proof -
    have "X ! (off + m + i) = drop (off + m) X ! i" using that X by simp
    also have "\<dots> = slice (512 * k) 512 R ! (off + m + i)" using that lS by (simp add: t)
    also have "\<dots> = R ! (512 * k + (off + m + i))" using that i by (intro nth_slice) simp_all
    finally show ?thesis by (simp add: ac_simps)
  qed
  then show "drop (512 * k + off + m) (splice R (512 * k) X) ! i = drop (512 * k + off + m) R ! i"
    using i assms(1) X by (auto simp: nth_splice add.assoc)
qed

section \<open>One round of the loop\<close>

lemma fat_entry_outside:
  assumes "geom lim v" and "\<not> fat_region v b" and "in_fat v c"
  shows "fat_entry (D(b := X)) v c = fat_entry D v c"
  using assms fat_region_lba(1) by (auto simp: fat_entry_def Let_def)

lemma file_chain_outside:
  assumes g: "geom lim v" and b: "\<not> fat_region v b"
  shows "file_chain (D(b := X)) v f cs = file_chain D v f cs"
    and "free_cluster (D(b := X)) v = free_cluster D v"
    and "nfree (D(b := X)) v = nfree D v"
proof -
  have e: "fat_entry (D(b := X)) v c = fat_entry D v c" if "data_cluster v c" for c
    using fat_entry_outside [OF g b data_cluster_in_fat [OF that]] .
  have "fat_chain (D(b := X)) v cs = fat_chain D v cs"
  proof (cases "\<forall>c \<in> set cs. data_cluster v c")
    case True
    then have "chain (fat_entry (D(b := X)) v) (isEOC v) cs = chain (fat_entry D v) (isEOC v) cs"
      using e chain_cong [of "fat_entry D v" "isEOC v" cs "fat_entry (D(b := X)) v"]
        chain_cong [of "fat_entry (D(b := X)) v" "isEOC v" cs "fat_entry D v"] by auto
    then show ?thesis by (simp add: fat_chain_def)
  next
    case False
    then show ?thesis unfolding fat_chain_def by blast
  qed
  then show "file_chain (D(b := X)) v f cs = file_chain D v f cs" by (simp add: file_chain_def)
  show f: "free_cluster (D(b := X)) v = free_cluster D v"
    using e by (auto simp: fun_eq_iff free_cluster_def)
  show "nfree (D(b := X)) v = nfree D v" by (simp add: nfree_def f)
qed

text \<open>The state of the loop after it has stored \<open>data\<close> at byte \<open>p\<close>.\<close>

definition stored ::
  "('c \<Rightarrow> bool) \<Rightarrow> ('c \<Rightarrow> u32 \<Rightarrow> u8 list) \<Rightarrow> nat \<Rightarrow> 'c fs \<Rightarrow> 'c fs \<Rightarrow> sdfile \<Rightarrow> sdfile \<Rightarrow>
     u32 list \<Rightarrow> u32 list \<Rightarrow> nat \<Rightarrow> u8 list \<Rightarrow> bool" where
  "stored good disk lim s s' f f' cs cs' p data \<longleftrightarrow>
     extends good disk lim s s' cs cs' \<and> wr_ok (view disk s') (vol s) f' cs' \<and>
     no_clash s' cs' (p + length data) \<and>
     nfree (view disk s) (vol s) + length cs = nfree (view disk s') (vol s) + length cs' \<and>
     (\<exists>c fc fl. f' = f\<lparr>curCluster := c, firstCluster := fc, flags := fl,
                     curPosition := of_nat (p + length data)\<rparr> \<and>
        (fl = flags f \<and> fc = firstCluster f \<or> fl = flags f OR F_FILE_DIR_DIRTY)) \<and>
     take (p + length data) (chain_bytes (view disk s') (vol s) cs') =
       take p (chain_bytes (view disk s) (vol s) cs) @ data \<and>
     drop (p + length data) (take (unat (fileSize f)) (chain_bytes (view disk s') (vol s) cs')) =
       drop (p + length data) (take (unat (fileSize f)) (chain_bytes (view disk s) (vol s) cs))"

text \<open>What the loop needs of the file and of the volume: room for what is left to write.\<close>

definition room :: "(u32 \<Rightarrow> u8 list) \<Rightarrow> sdvolume \<Rightarrow> sdfile \<Rightarrow> u32 list \<Rightarrow> nat \<Rightarrow> bool" where
  "room D v f cs n \<longleftrightarrow>
     unat (curPosition f) + n \<le> clusterBytes v * (length cs + nfree D v) \<and>
     unat (curPosition f) + n < 2 ^ 32 \<and> unat (fileSize f) \<le> 512 * (length cs * bpc v)"

lemma word_ucast_of_nat: "unat n < 2 ^ LENGTH('b) \<Longrightarrow> (ucast (n :: 'a :: len word) :: 'b :: len word) = of_nat (unat n)"
  by (simp add: word_unat_eq_iff unat_ucast_mod unat_of_nat_small)

lemma block_bounds:
  fixes p N :: nat
  assumes "p < 512 * N"
  shows "p div 512 < N" and "512 * (p div 512) + p mod 512 = p" and "p mod 512 < 512"
    and "512 * (p div 512) + 512 \<le> 512 * N"
proof -
  show "p div 512 < N" using assms by (simp add: less_mult_imp_div_less mult.commute)
  then show "512 * (p div 512) + 512 \<le> 512 * N" by linarith
qed simp_all

lemma same_block:
  fixes p n :: nat
  assumes "0 < n" and "p mod 512 + n \<le> 512"
  shows "(p + n - 1) div clusterBytes v = p div clusterBytes v"
proof -
  have "(p + n - 1) div 512 = p div 512"
  proof (rule div_nat_eqI)
    show "512 * (p div 512) \<le> p + n - 1" using assms(1) mult_div_mod_eq [of 512 p] by linarith
    show "p + n - 1 < 512 * Suc (p div 512)"
      unfolding mult_Suc_right using assms mult_div_mod_eq [of 512 p] by linarith
  qed
  then show ?thesis by (simp add: pos_block(1))
qed

lemma cluster_block_of:
  assumes g: "geom lim v" and c: "curCluster f = cs ! (p div clusterBytes v)" and p: "p = unat (curPosition f)"
  shows "clusterStartBlock v (curCluster f) + ucast (blockOfCluster v (curPosition f)) =
    file_block v cs (p div 512)"
proof -
  have "(ucast (blockOfCluster v (curPosition f)) :: u32) = of_nat ((p div 512) mod bpc v)"
    using blockOfCluster_nat [OF g, of "curPosition f"] p
    by (intro eq_of_nat) (simp add: unat_ucast_up)
  then show ?thesis using c by (simp add: file_block_def pos_block(1))
qed

lemma wr_ok_advance:
  assumes "ftype f = NORMAL" and "file_chain D v f cs" and n: "0 < n" "p mod 512 + n \<le> 512"
    and p: "p < 512 * (length cs * bpc v)" "p + n < 2 ^ 32"
    and c: "curCluster f = cs ! (p div clusterBytes v)"
  shows "wr_ok D v (f\<lparr>curPosition := of_nat (p + n)\<rparr>) cs"
proof -
  have u: "unat (of_nat (p + n) :: u32) = p + n" using p(2) by (intro unat_of_nat_small) simp
  have "p + n \<le> 512 * (length cs * bpc v)" using block_bounds(4) [OF p(1)] n(2) block_bounds(2) [OF p(1)] by linarith
  moreover have "(of_nat (p + n) :: u32) \<noteq> 0" using u n(1) by (auto simp: word_unat_eq_iff)
  ultimately show ?thesis
    using assms(1,2) c u same_block [OF n, of v] by (simp add: wr_ok_def)
qed

lemma no_clash_step:
  assumes g: "geom lim v" and cs: "\<forall>c \<in> set cs. data_cluster v c" "distinct cs"
    and p: "p < 512 * (length cs * bpc v)" and n: "p mod 512 + n \<le> 512" "0 < n"
    and v: "vol s = v" "vol s' = v" and nc: "no_clash s cs p"
    and d: "cacheDirty s' \<Longrightarrow> (n \<noteq> 512 \<and> cacheBlockNumber s' = file_block v cs (p div 512)) \<or>
      (n = 512 \<and> cacheDirty s \<and> cacheBlockNumber s' = cacheBlockNumber s)"
  shows "no_clash s' cs (p + n)"
  unfolding no_clash_def v
proof (intro impI allI)
  fix k assume dirty: "cacheDirty s'" and k: "k < length cs * bpc v" "p + n \<le> 512 * k"
  show "cacheBlockNumber s' \<noteq> file_block v cs k"
  proof (cases "n = 512")
    case True
    then show ?thesis using d [OF dirty] nc k v by (auto simp: no_clash_def)
  next
    case False
    have "p div 512 \<noteq> k" using k(2) n(2) block_bounds(2) [OF p] by linarith
    then show ?thesis
      using d [OF dirty] False file_block_inj [OF g cs block_bounds(1) [OF p] k(1)] by auto
  qed
qed

lemma store_extends:
  assumes e: "extends good disk lim s s1 cs cs1" and ok: "cache_ok good disk lim s2"
    and v: "env s2 = env s1" and g: "geom lim (vol s)" and k: "k < length cs1 * bpc (vol s)"
    and cs: "\<forall>c \<in> set cs1. data_cluster (vol s) c"
    and D: "view disk s2 = (view disk s1)(file_block (vol s) cs1 k := X)"
  shows "extends good disk lim s s2 cs cs1"
proof -
  have nf: "\<not> fat_region (vol s) (file_block (vol s) cs1 k)" by (rule file_block_valid(3) [OF g cs k])
  have "file_block (vol s) cs1 k \<in> chain_blocks (vol s) cs1" using k by (simp add: chain_blocks_def)
  then show ?thesis
    using e ok v fat_entry_outside [OF g nf] D env_imp_env_geo [OF v]
    by (auto simp: extends_def env_def)
qed

context block_device
begin

lemma writeRound:
  assumes ok: "cache_ok good disk lim s" and g: "geom lim (vol s)" and st: "start_ok (vol s)"
    and w: "wr_ok (view disk s) (vol s) f cs" and nc: "no_clash s cs p" and p: "p = unat (curPosition f)"
    and t: "0 < unat toW" "unat toW \<le> length src" and r: "room (view disk s) (vol s) f cs (unat toW)"
  obtains n f2 s2 cs2 where
    "writeLoop ops src toW f s = writeLoop ops (drop (unat n) src) (toW - n) f2 s2"
    and "0 < unat n" and "unat n \<le> unat toW"
    and "stored good disk lim s s2 f f2 cs cs2 p (take (unat n) src)"
proof -
  let ?v = "vol s" and ?cb = "clusterBytes (vol s)"
  have need: "0 < nfree (view disk s) ?v" if "p = 512 * (length cs * bpc ?v)"
  proof (rule ccontr)
    assume "\<not> 0 < nfree (view disk s) ?v"
    then have "p + unat toW \<le> ?cb * length cs" using r p by (simp add: room_def)
    then show False using t(1) that by (simp add: clusterBytes_bpc ac_simps)
  qed
  obtain f1 s1 cs1 fc fl where
    l: "(if blockOfCluster ?v (curPosition f) = 0 \<and> blockOffset f = 0 then writeLocate ops f s
      else (NextRound, f, s)) = (NextRound, f1, s1)"
      "f1 = f\<lparr>curCluster := cs1 ! (p div ?cb), firstCluster := fc, flags := fl\<rparr>"
      "fl = flags f \<and> fc = firstCluster f \<or> fl = flags f OR F_FILE_DIR_DIRTY" "p < 512 * (length cs1 * bpc ?v)"
      "file_chain (view disk s1) ?v f1 cs1" "extends good disk lim s s1 cs cs1" "no_clash s1 cs1 p"
      "nfree (view disk s) ?v + length cs = nfree (view disk s1) ?v + length cs1"
      "\<And>k. \<not> fat_region ?v k \<Longrightarrow> view disk s1 k = view disk s k"
    by (rule writeLocate_step [OF ok g st w nc p need], assumption, rule that)
  have ok1: "cache_ok good disk lim s1" by (rule extendsD(1) [OF l(6)])
  obtain z where v1: "vol s1 = ?v\<lparr>allocSearchStart := z\<rparr>"
    using env_geo_vol [OF extendsD(2) [OF l(6)]] .
  have g1: "geom lim (vol s1)" using g by (simp add: v1)
  note dc = file_chain_clusters [OF l(5)] and di = file_chain_distinct [OF l(5)]
  let ?k = "p div 512" and ?n = "chunkSize toW (blockOffset f)"
  let ?b = "file_block ?v cs1 ?k"
  note bb = block_bounds [OF l(4)]
  have off: "unat (blockOffset f) = p mod 512" using blockOffset_nat p by simp
  have n: "unat ?n = min (unat toW) (512 - p mod 512)" using chunkSize_nat [of "blockOffset f" toW] off by simp
  have n0: "0 < unat ?n" "unat ?n \<le> unat toW" "p mod 512 + unat ?n \<le> 512" "unat ?n \<le> length src"
    using n t bb(3) by auto
  have blk: "clusterStartBlock ?v (curCluster f1) + ucast (blockOfCluster ?v (curPosition f)) = ?b"
    using cluster_block_of [OF g, of f1 cs1 p] l(2) p by simp
  have bv: "unat ?b < lim" "?b \<noteq> 0" "\<not> fat_region (vol s1) ?b"
    using file_block_valid [OF g dc bb(1)] by (simp_all add: v1)
  have b512: "unat (blockOffset f) + unat ?n \<le> 512" using off n0(3) by simp
  have clash: "\<not> (cacheDirty s1 \<and> cacheBlockNumber s1 = ?b)" if "?n = 512"
  proof -
    have "p mod 512 = 0" using that n0(3) by simp
    then have "p \<le> 512 * ?k" by auto
    then show ?thesis using l(7) bb(1) by (auto simp: no_clash_def v1)
  qed
  obtain s2 X where c: "writeChunk ops f1 ?b (blockOffset f) ?n src s1 = (True, s2)"
      "cache_ok good disk lim s2" "env s2 = env s1" "view disk s2 = (view disk s1)(?b := X)" "length X = 512"
      "take (unat (blockOffset f) + unat ?n) X = take (unat (blockOffset f)) (view disk s1 ?b) @ take (unat ?n) src"
      "blockOffset f \<noteq> 0 \<or> curPosition f1 < fileSize f1 \<Longrightarrow>
        drop (unat (blockOffset f) + unat ?n) X = drop (unat (blockOffset f) + unat ?n) (view disk s1 ?b)"
      "cacheDirty s2 \<Longrightarrow> (?n \<noteq> 512 \<and> cacheBlockNumber s2 = ?b) \<or>
        (?n = 512 \<and> cacheDirty s1 \<and> cacheBlockNumber s2 = cacheBlockNumber s1)"
    by (rule writeChunk_spec [where f = f1, OF ok1 g1 bv b512 n0(4) clash], assumption, rule that)
  have v2: "vol s2 = ?v\<lparr>allocSearchStart := z\<rparr>" using c(3) v1 by (simp add: env_def)
  let ?f2 = "f1\<lparr>curPosition := of_nat (p + unat ?n)\<rparr>"
  have pos: "curPosition f1 + ucast ?n = of_nat (p + unat ?n)"
    using l(2) p by (simp add: word_ucast_of_nat unat_bound(2))
  have run: "writeLoop ops src toW f s = writeLoop ops (drop (unat ?n) src) (toW - ?n) ?f2 s2"
    using t(1) l(1) c(1) pos blk v1 by (subst writeLoop.simps) (simp add: Let_def unat_gt_0 word_neq_0_conv)
  have nfb: "\<not> fat_region ?v ?b" using bv(3) by (simp add: v1)
  note outside = file_chain_outside [OF g nfb, of "view disk s1" X, folded c(4)]
  have len1: "\<And>b. length (view disk s1 b) = 512" using view_length [OF ok1] .
  let ?R = "chain_bytes (view disk s) ?v cs" and ?R1 = "chain_bytes (view disk s1) ?v cs1"
  have R2: "chain_bytes (view disk s2) ?v cs1 = splice ?R1 (512 * ?k) X"
    unfolding c(4) by (rule chain_bytes_store [OF len1 g dc di bb(1) c(5)])
  have lR: "length ?R = 512 * (length cs * bpc ?v)" "length ?R1 = 512 * (length cs1 * bpc ?v)"
    using length_chain_bytes view_length [OF ok] len1 by auto
  have "\<exists>rest. ?R1 = ?R @ rest"
  proof -
    obtain new where new: "cs1 = cs @ new" using extendsD(4) [OF l(6)] by blast
    have dcs: "\<forall>c \<in> set cs. data_cluster ?v c" using dc new by auto
    show ?thesis unfolding new by (rule chain_bytes_prefix) (rule l(9) [OF file_block_valid(3) [OF g dcs]])
  qed
  then obtain rest where R1: "?R1 = ?R @ rest" by blast
  have ple: "p \<le> length ?R" using w p lR by (simp add: wr_ok_def)
  have sz: "unat (fileSize f) \<le> length ?R" using r lR by (simp add: room_def)
  have slice_b: "slice (512 * ?k) 512 ?R1 = view disk s1 ?b"
    using blocks_bytes_slice [of "view disk s1" ?k "length cs1 * bpc ?v" 0 512 "file_block ?v cs1", OF len1 bb(1)]
      len1 by (simp add: chain_bytes_def)
  have kR: "512 * ?k + 512 \<le> length ?R1" using bb(4) lR by simp
  have pk: "512 * ?k + p mod 512 = p" using bb(2) .
  have tk: "take (p + unat ?n) (chain_bytes (view disk s2) ?v cs1) = take p ?R @ take (unat ?n) src"
    using splice_take [OF kR c(5) n0(3), of "take (unat ?n) src"] c(6) off slice_b R2 R1 ple
    unfolding pk by simp
  have dp: "drop (p + unat ?n) (take (unat (fileSize f)) (chain_bytes (view disk s2) ?v cs1)) =
      drop (p + unat ?n) (take (unat (fileSize f)) ?R)"
  proof (cases "blockOffset f \<noteq> 0 \<or> curPosition f < fileSize f")
    case True
    then have "drop (p + unat ?n) (chain_bytes (view disk s2) ?v cs1) = drop (p + unat ?n) ?R1"
      using splice_drop [OF kR c(5) n0(3)] c(7) l(2) off slice_b R2 unfolding pk by simp
    then show ?thesis using R1 sz by (simp add: drop_take)
  next
    case False
    then have "unat (fileSize f) \<le> p" using p by (simp add: word_le_nat_alt not_less)
    then show ?thesis by simp
  qed
  have w2: "wr_ok (view disk s2) ?v ?f2 cs1"
  proof (rule wr_ok_advance [OF _ _ n0(1,3) l(4)])
    show "ftype f1 = NORMAL" using w l(2) by (simp add: wr_ok_def)
    show "file_chain (view disk s2) ?v f1 cs1" using l(5) outside(1) by simp
    show "p + unat ?n < 2 ^ 32" using r p n0(2) by (simp add: room_def)
    show "curCluster f1 = cs1 ! (p div ?cb)" using l(2) by simp
  qed
  have nc2: "no_clash s2 cs1 (p + unat ?n)"
  proof (rule no_clash_step [where s = s1 and lim = lim and v = "vol s1"])
    show "vol s2 = vol s1" by (simp add: v1 v2)
    show "cacheDirty s2 \<Longrightarrow> (unat ?n \<noteq> 512 \<and> cacheBlockNumber s2 = file_block (vol s1) cs1 (p div 512)) \<or>
      (unat ?n = 512 \<and> cacheDirty s1 \<and> cacheBlockNumber s2 = cacheBlockNumber s1)"
      using c(8) by (auto simp: v1 word_unat_eq_iff)
  qed (use g dc di l(4,7) n0 v1 in simp_all)
  have ex: "extends good disk lim s s2 cs cs1"
    by (rule store_extends [OF l(6) c(2,3) g bb(1) dc c(4)])
  have ln: "length (take (unat ?n) src) = unat ?n" using n0(4) by simp
  have "stored good disk lim s s2 f ?f2 cs cs1 p (take (unat ?n) src)"
    unfolding stored_def ln
    using ex w2 nc2 l(3,8) outside(3) tk dp l(2) by auto
  then show ?thesis using run n0(1,2) by (rule that [rotated -1])
qed

end

section \<open>The loop\<close>

lemma stored_refl:
  assumes "cache_ok good disk lim s" and "start_ok (vol s)" and "wr_ok (view disk s) (vol s) f cs"
    and "no_clash s cs p" and "p = unat (curPosition f)"
  shows "stored good disk lim s s f f cs cs p []"
proof -
  have "f = f\<lparr>curCluster := curCluster f, firstCluster := firstCluster f, flags := flags f,
      curPosition := of_nat p\<rparr>" using assms(5) by simp
  then have "\<exists>c fc fl. f = f\<lparr>curCluster := c, firstCluster := fc, flags := fl, curPosition := of_nat p\<rparr> \<and>
        (fl = flags f \<and> fc = firstCluster f \<or> fl = flags f OR F_FILE_DIR_DIRTY)" by blast
  then show ?thesis
    using assms extends_refl [OF quiet_refl [OF assms(1)] assms(2)] by (simp add: stored_def)
qed

lemma stored_trans:
  assumes g: "geom lim (vol s)" and 1: "stored good disk lim s s1 f f1 cs cs1 p d1"
    and 2: "stored good disk lim s1 s2 f1 f2 cs1 cs2 (p + length d1) d2"
  shows "stored good disk lim s s2 f f2 cs cs2 p (d1 @ d2)"
proof -
  have e: "extends good disk lim s s1 cs cs1" "extends good disk lim s1 s2 cs1 cs2"
    using 1 2 by (simp_all add: stored_def)
  obtain a where v1: "vol s1 = vol s\<lparr>allocSearchStart := a\<rparr>"
    using env_geo_vol [OF extendsD(2) [OF e(1)]] .
  have "file_chain (view disk s1) (vol s) f1 cs1" using 1 by (simp add: stored_def wr_ok_def)
  then have nz: "c \<in> set cs1 \<Longrightarrow> fat_entry (view disk s1) (vol s1) c \<noteq> 0" for c
    using file_chain_nonzero [OF g] by (simp add: v1)
  obtain c fc fl where f1: "f1 = f\<lparr>curCluster := c, firstCluster := fc, flags := fl,
      curPosition := of_nat (p + length d1)\<rparr>" "fl = flags f \<and> fc = firstCluster f \<or> fl = flags f OR F_FILE_DIR_DIRTY"
    using 1 by (auto simp: stored_def)
  obtain c' fc' fl' where f2: "f2 = f1\<lparr>curCluster := c', firstCluster := fc', flags := fl',
      curPosition := of_nat (p + length d1 + length d2)\<rparr>" "fl' = flags f1 \<and> fc' = firstCluster f1 \<or> fl' = flags f1 OR F_FILE_DIR_DIRTY"
    using 2 by (auto simp: stored_def)
  have "fl' = flags f \<and> fc' = firstCluster f \<or> fl' = flags f OR F_FILE_DIR_DIRTY" using f1 f2 by (auto simp: or.assoc)
  then have f: "\<exists>c fc fl. f2 = f\<lparr>curCluster := c, firstCluster := fc, flags := fl,
      curPosition := of_nat (p + length (d1 @ d2))\<rparr> \<and> (fl = flags f \<and> fc = firstCluster f \<or> fl = flags f OR F_FILE_DIR_DIRTY)"
    using f1 f2 by (auto simp: add.assoc)
  let ?R = "\<lambda>s cs. chain_bytes (view disk s) (vol s1) cs" and ?z = "unat (fileSize f)"
  have t: "take (p + length (d1 @ d2)) (?R s2 cs2) = take p (?R s cs) @ d1 @ d2"
    using 1 2 by (simp add: stored_def v1 add.assoc)
  have "drop (p + length d1) (take ?z (?R s1 cs1)) = drop (p + length d1) (take ?z (?R s cs))"
    using 1 by (simp add: stored_def v1)
  then have "drop (length d2) (drop (p + length d1) (take ?z (?R s1 cs1))) =
      drop (length d2) (drop (p + length d1) (take ?z (?R s cs)))" by simp
  then have "drop (p + length d1 + length d2) (take ?z (?R s1 cs1)) =
      drop (p + length d1 + length d2) (take ?z (?R s cs))" by (simp add: ac_simps)
  moreover have "drop (p + length d1 + length d2) (take ?z (?R s2 cs2)) =
      drop (p + length d1 + length d2) (take ?z (?R s1 cs1))"
    using 2 f1(1) by (simp add: stored_def)
  ultimately have d: "drop (p + length (d1 @ d2)) (take ?z (?R s2 cs2)) =
      drop (p + length (d1 @ d2)) (take ?z (?R s cs))" by (simp add: add.assoc)
  have nf: "nfree (view disk s) (vol s) = nfree (view disk s) (vol s1)"
      "nfree (view disk s1) (vol s) = nfree (view disk s1) (vol s1)"
      "nfree (view disk s2) (vol s) = nfree (view disk s2) (vol s1)"
    by (simp_all add: nfree_def v1)
  have w: "wr_ok (view disk s2) (vol s) f2 cs2 = wr_ok (view disk s2) (vol s1) f2 cs2"
    by (simp add: wr_ok_def v1)
  show ?thesis
    unfolding stored_def
    using extends_trans [OF e nz] 1 2 f t d w nf by (simp add: stored_def v1 add.assoc)
qed

context block_device
begin

lemma writeLoop_spec:
  assumes "cache_ok good disk lim s" and "geom lim (vol s)" and "start_ok (vol s)"
    and "wr_ok (view disk s) (vol s) f cs" and "no_clash s cs (unat (curPosition f))"
    and "unat toW \<le> length src" and "room (view disk s) (vol s) f cs (unat toW)"
  shows "\<exists>f' s' cs'. writeLoop ops src toW f s = (NextRound, f', s') \<and>
    stored good disk lim s s' f f' cs cs' (unat (curPosition f)) (take (unat toW) src)"
  using assms
proof (induction "unat toW" arbitrary: toW src f s cs rule: less_induct)
  case less
  let ?p = "unat (curPosition f)"
  show ?case
  proof (cases "unat toW = 0")
    case True
    then have "toW = 0" by (simp add: word_unat_eq_iff)
    then show ?thesis
      using stored_refl [OF less.prems(1,3,4,5) refl] by (subst writeLoop.simps) auto
  next
    case False
    then have t: "0 < unat toW" by simp
    obtain n f1 s1 cs1 where
      st: "writeLoop ops src toW f s = writeLoop ops (drop (unat n) src) (toW - n) f1 s1"
        "0 < unat n" "unat n \<le> unat toW" "stored good disk lim s s1 f f1 cs cs1 ?p (take (unat n) src)"
      by (rule writeRound [OF less.prems(1,2,3,4,5) refl t less.prems(6,7)], rule that)
    have ln: "length (take (unat n) src) = unat n" using st(3) less.prems(6) by simp
    have e: "extends good disk lim s s1 cs cs1" using st(4) by (simp add: stored_def)
    obtain a where v1: "vol s1 = vol s\<lparr>allocSearchStart := a\<rparr>"
      using env_geo_vol [OF extendsD(2) [OF e]] .
    have un: "unat (toW - n) = unat toW - unat n" using st(3) by (rule unat_sub_small)
    obtain c fc fl where f1: "f1 = f\<lparr>curCluster := c, firstCluster := fc, flags := fl,
        curPosition := of_nat (?p + unat n)\<rparr>"
      using st(4) [unfolded stored_def ln] by blast
    have "?p + unat n < 2 ^ 32" using less.prems(7) st(3) by (simp add: room_def)
    then have "unat (of_nat (?p + unat n) :: u32) = ?p + unat n" by (intro unat_of_nat_small) simp
    moreover have "curPosition f1 = of_nat (?p + unat n)" unfolding f1 by simp
    ultimately have pos: "unat (curPosition f1) = ?p + unat n" by (simp only:)
    have nf: "nfree (view disk s) (vol s) + length cs = nfree (view disk s1) (vol s) + length cs1"
      using st(4) by (simp add: stored_def)
    have len: "length cs \<le> length cs1" using extendsD(4) [OF e] by auto
    have "512 * (length cs * bpc (vol s)) \<le> 512 * (length cs1 * bpc (vol s))" using len by simp
    with less.prems(7) have sz: "unat (fileSize f) \<le> 512 * (length cs1 * bpc (vol s))"
      unfolding room_def by (blast intro: order_trans)
    have nf': "length cs1 + nfree (view disk s1) (vol s\<lparr>allocSearchStart := a\<rparr>) =
        length cs + nfree (view disk s) (vol s)"
      using nf by (simp add: nfree_def)
    have room1: "room (view disk s1) (vol s1) f1 cs1 (unat (toW - n))"
      using less.prems(7) nf' sz st(3) pos un f1 by (simp add: room_def v1 add.assoc)
    have w1: "wr_ok (view disk s1) (vol s1) f1 cs1" "no_clash s1 cs1 (unat (curPosition f1))"
      using st(4) [unfolded stored_def ln] pos by (simp_all add: wr_ok_def v1)
    have m: "unat (toW - n) < unat toW" "unat (toW - n) \<le> length (drop (unat n) src)"
        "geom lim (vol s1)"
      using un st(2,3) less.prems(2,6) by (simp_all add: v1)
    obtain f' s' cs' where r: "writeLoop ops (drop (unat n) src) (toW - n) f1 s1 = (NextRound, f', s')"
        "stored good disk lim s1 s' f1 f' cs1 cs' (?p + unat n) (take (unat toW - unat n) (drop (unat n) src))"
      using less.hyps [OF m(1) extendsD(1) [OF e] m(3) extendsD(3) [OF e] w1 m(2) room1]
      unfolding pos un by blast
    have "take (unat toW) src = take (unat n) src @ take (unat toW - unat n) (drop (unat n) src)"
      using st(3) by (metis le_add_diff_inverse take_add)
    then show ?thesis
      using st(1) r stored_trans [OF less.prems(2) st(4), unfolded ln, OF r(2)] by auto
  qed
qed

end

section \<open>write\<close>

lemma stored_contents:
  assumes st: "stored good disk lim s s' f f' cs cs' p data" and g: "geom lim (vol s)"
    and f: "file_ok (view disk s) (vol s) f cs" "ftype f = NORMAL" and p: "p = unat (curPosition f)"
    and small: "p + length data < 2 ^ 32" and len: "\<And>b. length (view disk s b) = 512"
    and sz: "unat z = max (unat (fileSize f)) (p + length data)"
  shows "file_ok (view disk s') (vol s') (f'\<lparr>fileSize := z\<rparr>) cs'"
    and "contents (view disk s') (vol s') (f'\<lparr>fileSize := z\<rparr>) cs' =
      splice (contents (view disk s) (vol s) f cs) p data"
proof -
  let ?v = "vol s" and ?R = "chain_bytes (view disk s) (vol s) cs"
  let ?R' = "chain_bytes (view disk s') (vol s) cs'"
  have e: "extends good disk lim s s' cs cs'" and w: "wr_ok (view disk s') ?v f' cs'"
    using st by (simp_all add: stored_def)
  obtain a where v': "vol s' = ?v\<lparr>allocSearchStart := a\<rparr>"
    using env_geo_vol [OF extendsD(2) [OF e]] .
  have nf: "ftype f' = NORMAL" using w by (simp add: wr_ok_def)
  have pos: "unat (curPosition f') = p + length data"
  proof -
    have "curPosition f' = of_nat (p + length data)" using st unfolding stored_def by fastforce
    moreover have "unat (of_nat (p + length data) :: u32) = p + length data"
      using small by (intro unat_of_nat_small) simp
    ultimately show ?thesis by (simp only:)
  qed
  have "length cs \<le> length cs'" using extendsD(4) [OF e] by auto
  then have "512 * (length cs * bpc ?v) \<le> 512 * (length cs' * bpc ?v)" by simp
  moreover have "unat (fileSize f) \<le> 512 * (length cs * bpc ?v)"
    using f by (simp add: file_ok_def nblocks_def)
  moreover have "p + length data \<le> 512 * (length cs' * bpc ?v)"
    using w pos by (simp add: wr_ok_def)
  ultimately have le: "unat z \<le> 512 * (length cs' * bpc ?v)" unfolding sz by linarith
  show "file_ok (view disk s') (vol s') (f'\<lparr>fileSize := z\<rparr>) cs'"
    using w nf le sz pos
    by (auto simp: file_ok_def v' isOpen_normal nblocks_def wr_ok_def pos_ok_def word_le_nat_alt)
  have psz: "p \<le> unat (fileSize f)" using f p by (simp add: file_ok_def pos_ok_def word_le_nat_alt)
  let ?C = "contents (view disk s) ?v f cs"
  have C: "?C = take (unat (fileSize f)) ?R" using f(2) by (simp add: contents_def raw_bytes_chain)
  have t: "take (p + length data) ?R' = take p ?R @ data"
    and d: "drop (p + length data) (take (unat (fileSize f)) ?R') = drop (p + length data) ?C"
    using st by (simp_all add: stored_def C)
  have lC: "length ?C = unat (fileSize f)"
    using length_contents [of "view disk s", OF len f(1)] .
  have "take (unat z) ?R' = splice ?C p data"
  proof (cases "p + length data \<le> unat (fileSize f)")
    case True
    then have "take (unat z) ?R' =
        take (p + length data) ?R' @ drop (p + length data) (take (unat (fileSize f)) ?R')"
      using append_take_drop_id [of "p + length data" "take (unat (fileSize f)) ?R'"] sz
      by (simp add: min_absorb1 max_absorb1)
    then show ?thesis using t d psz by (simp add: splice_def C min_absorb1)
  next
    case False
    then have "unat z = p + length data" using sz by simp
    then show ?thesis using t False psz lC by (simp add: splice_def C min_absorb1)
  qed
  then show "contents (view disk s') (vol s') (f'\<lparr>fileSize := z\<rparr>) cs' = splice ?C p data"
    using nf by (simp add: contents_def raw_bytes_chain v')
qed

lemma or_dirty [simp]:
  "((x :: u8) OR 0x80) AND 0x08 = x AND 0x08" "((x :: u8) OR 0x80) AND 0x02 = x AND 0x02"
  "((x :: u8) OR 0x80) AND 0x01 = x AND 0x01" "((x :: u8) OR 0x80) AND 0x04 = x AND 0x04"
  by (simp_all add: bit.conj_disj_distrib2)

lemma file_ok_flags: "file_ok D v (f\<lparr>flags := x\<rparr>) cs = file_ok D v f cs"
  by (simp add: file_ok_def pos_ok_def nblocks_def)

text \<open>The file after the write: only these fields differ.\<close>

definition grown :: "sdfile \<Rightarrow> sdfile \<Rightarrow> bool" where
  "grown f f' \<longleftrightarrow> f' = f\<lparr>curCluster := curCluster f', firstCluster := firstCluster f', flags := flags f',
     curPosition := curPosition f', fileSize := fileSize f'\<rparr> \<and>
     (flags f' = flags f \<and> firstCluster f' = firstCluster f \<and> fileSize f' = fileSize f \<or>
      flags f' = flags f OR F_FILE_DIR_DIRTY)"

context block_device
begin

lemma write_spec:
  assumes ok: "cache_ok good disk lim s" and g: "geom lim (vol s)" and st: "start_ok (vol s)"
    and f: "file_ok (view disk s) (vol s) f cs" "ftype f = NORMAL"
    and fl: "flags f AND O_WRITE \<noteq> 0" "flags f AND O_SYNC = 0"
      "flags f AND O_APPEND = 0 \<or> curPosition f = fileSize f"
    and nc: "no_clash s cs (unat (curPosition f))"
    and n: "unat nbyte = length data"
    and small: "unat (curPosition f) + length data < 2 ^ 32"
    and room: "unat (curPosition f) + length data \<le> clusterBytes (vol s) * (length cs + nfree (view disk s) (vol s))"
  obtains f' s' cs' where "writeBytes ops data nbyte f s = (ucast nbyte, f', s')"
    and "extends good disk lim s s' cs cs'" and "file_ok (view disk s') (vol s') f' cs'"
    and "contents (view disk s') (vol s') f' cs' =
      splice (contents (view disk s) (vol s) f cs) (unat (curPosition f)) data"
    and "unat (curPosition f') = unat (curPosition f) + length data"
    and "unat (fileSize f') = max (unat (fileSize f)) (unat (curPosition f) + length data)"
    and "grown f f'" and "no_clash s' cs' (unat (curPosition f'))"
    and "nfree (view disk s) (vol s) + length cs = nfree (view disk s') (vol s) + length cs'"
proof -
  let ?p = "unat (curPosition f)"
  have "pos_ok (vol s) f cs" "file_chain (view disk s) (vol s) f cs"
    and sz: "unat (fileSize f) \<le> 512 * (length cs * bpc (vol s))"
    using f by (simp_all add: file_ok_def nblocks_def)
  then have w: "wr_ok (view disk s) (vol s) f cs"
    using f(2) by (auto simp: wr_ok_def pos_ok_def word_le_nat_alt)
  have r: "room (view disk s) (vol s) f cs (unat nbyte)"
    using small room sz n by (simp add: room_def)
  obtain f1 s' cs' where l: "writeLoop ops data nbyte f s = (NextRound, f1, s')"
      "stored good disk lim s s' f f1 cs cs' ?p data"
    using writeLoop_spec [OF ok g st w nc _ r, of data] n by auto
  obtain c fc fl where f1: "f1 = f\<lparr>curCluster := c, firstCluster := fc, flags := fl,
        curPosition := of_nat (?p + length data)\<rparr>" "fl = flags f \<and> fc = firstCluster f \<or> fl = flags f OR F_FILE_DIR_DIRTY"
    using l(2) by (auto simp: stored_def)
  have pos: "unat (curPosition f1) = ?p + length data"
  proof -
    have "curPosition f1 = of_nat (?p + length data)" unfolding f1(1) by simp
    moreover have "unat (of_nat (?p + length data) :: u32) = ?p + length data"
      using small by (intro unat_of_nat_small) simp
    ultimately show ?thesis by (simp only:)
  qed
  have fz: "fileSize f1 = fileSize f" "ftype f1 = NORMAL" using f1 f(2) by simp_all
  let ?f = "if curPosition f1 > fileSize f1
      then f1\<lparr>fileSize := curPosition f1, flags := flags f1 OR F_FILE_DIR_DIRTY\<rparr>
      else if dateTime s' \<noteq> None \<and> nbyte \<noteq> 0 then f1\<lparr>flags := flags f1 OR F_FILE_DIR_DIRTY\<rparr> else f1"
  let ?size = "if curPosition f1 > fileSize f1 then curPosition f1 else fileSize f1"
  have size: "unat ?size = max (unat (fileSize f)) (?p + length data)"
    using pos fz by (auto simp: word_less_nat_alt)
  have "\<exists>x. ?f = f1\<lparr>fileSize := ?size, flags := x\<rparr> \<and> (x = flags f1 \<and> ?size = fileSize f1 \<or> x = flags f1 OR F_FILE_DIR_DIRTY)"
    by (intro exI [of _ "flags ?f"]) auto
  then obtain x where x: "?f = f1\<lparr>fileSize := ?size, flags := x\<rparr>" "x = flags f1 \<and> ?size = fileSize f1 \<or> x = flags f1 OR F_FILE_DIR_DIRTY"
    by blast
  note sc = stored_contents [OF l(2) g f refl small view_length [OF ok] size]
  have sy: "flags ?f AND O_SYNC = 0" unfolding x(1) using x(2) f1 fl(2) by auto
  show ?thesis
  proof (rule that [of ?f s' cs'])
    show "writeBytes ops data nbyte f s = (ucast nbyte, ?f, s')"
      using f(2) fl l(1) sy by (auto simp: writeBytes_def isFile_def Let_def)
    show "extends good disk lim s s' cs cs'" "nfree (view disk s) (vol s) + length cs = nfree (view disk s') (vol s) + length cs'"
      using l(2) by (simp_all add: stored_def)
    show "file_ok (view disk s') (vol s') ?f cs'"
      unfolding x(1) file_ok_flags by (rule sc(1))
    show "contents (view disk s') (vol s') ?f cs' = splice (contents (view disk s) (vol s) f cs) ?p data"
      unfolding x(1) using sc(2) by simp
    show "unat (curPosition ?f) = ?p + length data" unfolding x(1) using pos by simp
    show "unat (fileSize ?f) = max (unat (fileSize f)) (?p + length data)" unfolding x(1) using size by simp
    show "grown f ?f" unfolding x(1) using f1 x(2) by (auto simp: grown_def or.assoc)
    show "no_clash s' cs' (unat (curPosition ?f))" unfolding x(1) using l(2) pos by (simp add: stored_def)
  qed
qed

end

section \<open>Other files\<close>

lemma file_chain_cong:
  assumes "file_chain D v h ds" and "\<And>c. c \<in> set ds \<Longrightarrow> fat_entry E v c = fat_entry D v c"
  shows "file_chain E v h ds"
  using assms chain_cong [of "fat_entry D v" "isEOC v" ds "fat_entry E v"]
  by (auto simp: file_chain_def fat_chain_def split: if_splits)

lemma extends_disjoint:
  assumes e: "extends good disk lim s s' cs cs'" and g: "geom lim (vol s)"
    and h: "file_chain (view disk s) (vol s) h ds" and d: "set ds \<inter> set cs = {}"
  shows "set ds \<inter> set cs' = {}"
proof -
  obtain new where new: "cs' = cs @ new" "\<forall>c \<in> set new. free_cluster (view disk s) (vol s) c"
    using e by (auto simp: extends_def)
  have "c \<notin> set new" if "c \<in> set ds" for c
    using new(2) file_chain_nonzero [OF g h that] by (auto simp: free_cluster_def)
  then show ?thesis using new(1) d by auto
qed

lemma extends_other:
  assumes e: "extends good disk lim s s' cs cs'" and g: "geom lim (vol s)"
    and cs': "\<forall>c \<in> set cs'. data_cluster (vol s) c"
    and h: "file_ok (view disk s) (vol s) h ds" "ftype h \<noteq> ROOT16" and d: "set ds \<inter> set cs = {}"
  shows "file_ok (view disk s') (vol s') h ds"
    and "contents (view disk s') (vol s') h ds = contents (view disk s) (vol s) h ds"
proof -
  obtain a where v': "vol s' = vol s\<lparr>allocSearchStart := a\<rparr>"
    using env_geo_vol [OF extendsD(2) [OF e]] .
  have fc: "file_chain (view disk s) (vol s) h ds" using h(1) by (simp add: file_ok_def)
  note dj = extends_disjoint [OF e g fc d]
  note dc = file_chain_clusters [OF fc]
  have "file_chain (view disk s') (vol s) h ds"
  proof (rule file_chain_cong [OF fc])
    show "fat_entry (view disk s') (vol s) c = fat_entry (view disk s) (vol s) c" if "c \<in> set ds" for c
      using extendsD(5) [OF e data_cluster_in_fat, of c] dc dj that by blast
  qed
  then show "file_ok (view disk s') (vol s') h ds" using h(1) by (simp add: file_ok_def v' nblocks_def pos_ok_def)
  have "view disk s' (file_block (vol s) ds k) = view disk s (file_block (vol s) ds k)"
    if k: "k < length ds * bpc (vol s)" for k
  proof (rule extendsD(6) [OF e file_block_valid(3) [OF g dc k]])
    show "file_block (vol s) ds k \<notin> chain_blocks (vol s) cs'"
      using file_block_disjoint [OF g dc cs' dj k] by (auto simp: chain_blocks_def)
  qed
  then have "chain_bytes (view disk s') (vol s) ds = chain_bytes (view disk s) (vol s) ds"
    unfolding chain_bytes_def by (intro blocks_bytes_cong) simp
  then show "contents (view disk s') (vol s') h ds = contents (view disk s) (vol s) h ds"
    using h(2) by (simp add: contents_def raw_bytes_chain v')
qed

section \<open>A full volume\<close>

context block_device
begin

lemma writeLocate_full:
  assumes ok: "cache_ok good disk lim s" and g: "geom lim (vol s)" and st: "start_ok (vol s)"
    and w: "wr_ok (view disk s) (vol s) f cs" and p: "unat (curPosition f) = 512 * (length cs * bpc (vol s))"
    and full: "nfree (view disk s) (vol s) = 0"
  obtains s' where "writeLocate ops f s = (WriteErrorReturn, f, s')" and "quiet good disk lim s s'"
proof -
  let ?v = "vol s" and ?D = "view disk s"
  have fc: "file_chain ?D ?v f cs" and nr: "ftype f \<noteq> ROOT16" using w by (auto simp: wr_ok_def)
  have fz: "firstCluster f = 0 \<longleftrightarrow> cs = []"
    using fc nr chain_not_Nil by (auto simp: file_chain_def split: if_splits)
  note dc = file_chain_clusters [OF fc]
  have cb: "unat (curPosition f) = length cs * clusterBytes ?v" using p by (simp add: clusterBytes_bpc)
  have "finite {c. free_cluster ?D ?v c}" by simp
  then have none: "\<nexists>x. free_cluster ?D ?v x" using full by (auto simp: nfree_def)
  have add: "\<exists>s'. addCluster ops f s1 = (False, f, s') \<and> quiet good disk lim s s'"
    if q: "quiet good disk lim s s1" and c: "curCluster f \<noteq> 0 \<Longrightarrow> curCluster f \<in> set cs" for s1
  proof -
    note qd = quietD [OF q]
    have "curCluster f \<noteq> 0 \<Longrightarrow> data_cluster ?v (curCluster f) \<and> fat_entry ?D ?v (curCluster f) \<noteq> 0"
      using c dc file_chain_nonzero [OF g fc] by blast
    then obtain s' where "allocContiguous ops 1 (curCluster f) s1 = (None, s')" "quiet good disk lim s1 s'"
      using alloc_none [of s1 "curCluster f"] qd g st none by auto
    then show ?thesis using quiet_trans [OF q] by (auto simp: addCluster_def)
  qed
  show ?thesis
  proof (cases "cs = []")
    case True
    then have c: "curCluster f = 0" using w p by (simp add: wr_ok_def unat_eq_0)
    then obtain s' where "addCluster ops f s = (False, f, s')" "quiet good disk lim s s'"
      using add [OF quiet_refl [OF ok]] by blast
    then show ?thesis using True fz c by (intro that [of s']) (simp_all add: writeLocate_def)
  next
    case ne: False
    then have p0: "0 < unat (curPosition f)" using cb by simp
    have "(unat (curPosition f) - 1) div clusterBytes ?v = length cs - 1"
      using pred_div [OF clusterBytes_pos [of ?v] p0] cb by simp
    then have last: "curCluster f = last cs"
      using w p0 ne by (auto simp: wr_ok_def last_conv_nth unat_gt_0)
    then have c: "curCluster f \<in> set cs" using ne by simp
    have c0: "curCluster f \<noteq> 0" using c dc data_cluster_guard(3) [OF g] by blast
    have ch: "fat_chain ?D ?v cs" using fc nr ne by (auto simp: file_chain_def split: if_splits)
    have "in_fat ?v (curCluster f)" using c dc by (auto intro: data_cluster_in_fat)
    then obtain s1 where s1: "fatGet ops (curCluster f) s = (Some (fat_entry ?D ?v (curCluster f)), s1)"
        "quiet good disk lim s s1"
      using fatGet_spec [OF ok g] by blast
    have eoc: "isEOC ?v (fat_entry ?D ?v (curCluster f))"
      using ch chain_last [of "fat_entry ?D ?v" "isEOC ?v" cs] by (simp add: last fat_chain_def)
    obtain s' where "addCluster ops f s1 = (False, f, s')" "quiet good disk lim s s'"
      using add [OF s1(2) c] by blast
    then show ?thesis
      using c0 s1 eoc quietD(4) [OF s1(2)] by (intro that [of s']) (simp_all add: writeLocate_def)
  qed
qed

lemma write_full:
  assumes ok: "cache_ok good disk lim s" and g: "geom lim (vol s)" and st: "start_ok (vol s)"
    and f: "file_ok (view disk s) (vol s) f cs" "ftype f = NORMAL"
    and fl: "flags f AND O_WRITE \<noteq> 0" "flags f AND O_APPEND = 0 \<or> curPosition f = fileSize f"
    and p: "unat (curPosition f) = 512 * (length cs * bpc (vol s))"
    and full: "nfree (view disk s) (vol s) = 0" and n: "nbyte \<noteq> 0"
  obtains s' where "writeBytes ops data nbyte f s = (0, setWriteError f, s')" and "quiet good disk lim s s'"
proof -
  have w: "wr_ok (view disk s) (vol s) f cs"
    using f p by (auto simp: file_ok_def wr_ok_def pos_ok_def)
  obtain s' where s': "writeLocate ops f s = (WriteErrorReturn, f, s')" "quiet good disk lim s s'"
    by (rule writeLocate_full [OF ok g st w p full], rule that)
  have "unat (curPosition f) = length cs * clusterBytes (vol s)" using p by (simp add: clusterBytes_bpc)
  then have "blockOfCluster (vol s) (curPosition f) = 0 \<and> blockOffset f = 0"
    using boundary [OF g, of f] by simp
  then have "writeLoop ops data nbyte f s = (WriteErrorReturn, f, s')"
    using n s'(1) by (subst writeLoop.simps) (simp add: Let_def word_neq_0_conv)
  then have "writeBytes ops data nbyte f s = (0, setWriteError f, s')"
    using f(2) fl by (auto simp: writeBytes_def isFile_def)
  then show ?thesis using s'(2) by (rule that)
qed

end

end
