(* ===== verification/FileSync.thy ===== *)
theory FileSync
  imports FileStore
begin

text \<open>
  What \<open>sync\<close> leaves on the card: the cached block is written, and the directory entry of the
  file holds its size and its first cluster.  The invariant \<open>recorded\<close> says that the entry is
  right whenever the file's dirty flag is clear; a write keeps it.
\<close>

section \<open>The directory entry of a file\<close>

definition entry :: "(u32 \<Rightarrow> u8 list) \<Rightarrow> sdfile \<Rightarrow> dir_t" where
  "entry D f = dir_at (D (dirBlock f)) (unat (dirIndex f))"

definition entry_cluster :: "dir_t \<Rightarrow> u32" where
  "entry_cluster d = push_bit 16 (ucast (firstClusterHigh d)) OR ucast (firstClusterLow d)"

definition recorded :: "(u32 \<Rightarrow> u8 list) \<Rightarrow> sdfile \<Rightarrow> bool" where
  "recorded D f \<longleftrightarrow>
     flags f AND F_FILE_DIR_DIRTY \<noteq> 0 \<or>
     dir_fileSize (entry D f) = fileSize f \<and> entry_cluster (entry D f) = firstCluster f"

text \<open>
  The block of the entry is on the card, and neither in a table nor in a cluster that the
  file has or may get: it is in a root directory, or in a cluster of another chain.
\<close>

definition dir_slot :: "nat \<Rightarrow> (u32 \<Rightarrow> u8 list) \<Rightarrow> sdvolume \<Rightarrow> sdfile \<Rightarrow> u32 list \<Rightarrow> bool" where
  "dir_slot lim D v f cs \<longleftrightarrow>
     unat (dirBlock f) < lim \<and> dirBlock f \<noteq> 0 \<and> \<not> fat_region v (dirBlock f) \<and> dirIndex f < 16 \<and>
     (\<forall>c. c \<in> set cs \<or> free_cluster D v c \<longrightarrow> dirBlock f \<notin> chain_blocks v [c])"

text \<open>The entry with the size and the cluster of the file, and some time stamps.\<close>

definition stamped :: "sdfile \<Rightarrow> dir_t \<Rightarrow> dir_t \<Rightarrow> bool" where
  "stamped f d d' \<longleftrightarrow>
     (\<exists>wdate wtime adate.
        d' = d\<lparr>dir_fileSize := fileSize f, firstClusterLow := ucast (firstCluster f AND 0xFFFF),
               firstClusterHigh := ucast (drop_bit 16 (firstCluster f)),
               lastWriteDate := wdate, lastWriteTime := wtime, lastAccessDate := adate\<rparr>)"

lemma stamped_plain:
  "stamped f d (d\<lparr>dir_fileSize := fileSize f, firstClusterLow := ucast (firstCluster f AND 0xFFFF),
     firstClusterHigh := ucast (drop_bit 16 (firstCluster f))\<rparr>)"
  unfolding stamped_def
  by (intro exI [of _ "lastWriteDate d"] exI [of _ "lastWriteTime d"] exI [of _ "lastAccessDate d"])
    (cases d, simp)

lemma split_cluster:
  "push_bit 16 (ucast (ucast (drop_bit 16 c) :: u16)) OR ucast (ucast (c AND 0xFFFF) :: u16) = (c :: u32)"
proof -
  have m: "(0xFFFF :: u32) = mask 16" by (simp add: mask_eq_exp_minus_1)
  show ?thesis unfolding m
    by (rule bit_word_eqI) (auto simp: bit_simps)
qed

lemma stampedD:
  assumes "stamped f d d'"
  shows "dir_fileSize d' = fileSize f" and "entry_cluster d' = firstCluster f" and "dname d' = dname d"
    and "attributes d' = attributes d"
  using assms split_cluster by (auto simp: stamped_def entry_cluster_def)

lemma clear_dirty:
  fixes x :: u8
  shows "x AND NOT F_FILE_DIR_DIRTY AND F_FILE_DIR_DIRTY = 0"
    and "x AND F_FILE_DIR_DIRTY = 0 \<Longrightarrow> x AND NOT F_FILE_DIR_DIRTY = x"
proof -
  show "x AND NOT F_FILE_DIR_DIRTY AND F_FILE_DIR_DIRTY = 0" by (simp add: and.assoc)
  assume "x AND F_FILE_DIR_DIRTY = 0"
  moreover have "x = (x AND F_FILE_DIR_DIRTY) OR (x AND NOT F_FILE_DIR_DIRTY)"
    by (simp flip: bit.conj_disj_distrib)
  ultimately show "x AND NOT F_FILE_DIR_DIRTY = x" by simp
qed

section \<open>sync\<close>

lemma dateCalls_cache [simp]:
  "view disk (s\<lparr>dateCalls := n\<rparr>) = view disk s"
  "cache_ok good disk lim (s\<lparr>dateCalls := n\<rparr>) = cache_ok good disk lim s"
  by (auto simp: view_def cache_ok_def fun_eq_iff)

lemma mirror_outside:
  assumes "cache_ok good disk lim s" and "\<not> fat_region (vol s) (cacheBlockNumber s)"
  shows "cacheMirrorBlock s = 0"
proof (rule ccontr)
  assume "cacheMirrorBlock s \<noteq> 0"
  with assms(1) have "unat (fatStartBlock (vol s)) \<le> unat (cacheBlockNumber s)"
      "unat (cacheBlockNumber s) < unat (fatStartBlock (vol s)) + unat (blocksPerFat (vol s))"
      "fatCount (vol s) > 1" by (auto simp: cache_ok_def)
  moreover have "unat (blocksPerFat (vol s)) \<le> unat (fatCount (vol s)) * unat (blocksPerFat (vol s))"
    using calculation(3) by (cases "unat (fatCount (vol s))") (auto simp: word_less_nat_alt)
  ultimately have "fat_region (vol s) (cacheBlockNumber s)" unfolding fat_region_def by linarith
  with assms(2) show False by simp
qed

context block_device
begin

lemma sync_spec:
  assumes ok: "cache_ok good disk lim s" and f: "ftype f = NORMAL"
    and sl: "dir_slot lim (view disk s) (vol s) f cs" and r: "recorded (view disk s) f"
  obtains s' d where "sync ops f s = (True, f\<lparr>flags := flags f AND NOT F_FILE_DIR_DIRTY\<rparr>, s')"
    and "cache_ok good disk lim s'" and "\<not> cacheDirty s'" and "vol s' = vol s"
    and "view disk s' = (view disk s)(dirBlock f := put_dir (view disk s (dirBlock f)) (unat (dirIndex f)) d)"
    and "dir_fileSize d = fileSize f" and "entry_cluster d = firstCluster f"
    and "dname d = dname (entry (view disk s) f)" and "attributes d = attributes (entry (view disk s) f)"
proof (cases "flags f AND F_FILE_DIR_DIRTY = 0")
  case True
  obtain s' where s': "cacheFlush ops s = (True, s')" "quiet good disk lim s s'" "\<not> cacheDirty s'"
    by (rule cacheFlush_spec [OF ok], rule that)
  let ?b = "view disk s (dirBlock f)"
  have "put_dir ?b (unat (dirIndex f)) (entry (view disk s) f) = ?b"
    unfolding entry_def
    by (rule put_dir_dir_at) (use sl view_length [OF ok] in \<open>simp add: dir_slot_def word_less_nat_alt\<close>)
  then show ?thesis
    using True s' f r quietD [OF s'(2)] clear_dirty(2) [OF True]
    by (intro that [of s' "entry (view disk s) f"]) (auto simp: sync_def isOpen_def recorded_def)
next
  case False
  let ?i = "unat (dirIndex f)" and ?b = "view disk s (dirBlock f)"
  have i: "32 * ?i + 32 \<le> 512" using sl by (simp add: dir_slot_def word_less_nat_alt)
  have lim: "unat (dirBlock f) < lim" "dirBlock f \<noteq> 0" "\<not> fat_region (vol s) (dirBlock f)"
    using sl by (simp_all add: dir_slot_def)
  obtain s1 where s1: "cacheRawBlock ops (dirBlock f) CACHE_FOR_WRITE s = (True, s1)"
      "quiet good disk lim s s1" "cacheBlockNumber s1 = dirBlock f" "cacheBuffer s1 = ?b" "cacheDirty s1"
    by (rule cacheRawBlock_spec [where a = CACHE_FOR_WRITE, OF ok lim(1,2)], rule that) (simp_all add: CACHE_FOR_WRITE_def)
  note q = quietD [OF s1(2)]
  have m: "cacheMirrorBlock s1 = 0"
    using mirror_outside [OF q(1)] s1(3) lim(3) q(4) by simp
  let ?d = "(cachedDir s1 (dirIndex f))\<lparr>dir_fileSize := fileSize f,
      firstClusterLow := ucast (firstCluster f AND 0xFFFF),
      firstClusterHigh := ucast (drop_bit 16 (firstCluster f))\<rparr>"
  obtain d n where d: "(case dateTime s1 of None \<Rightarrow> (?d, s1)
        | Some cb \<Rightarrow> (case callDateTime cb s1 of ((date, time), s) \<Rightarrow>
            (?d\<lparr>lastWriteDate := date, lastWriteTime := time, lastAccessDate := date\<rparr>, s))) =
      (d, s1\<lparr>dateCalls := n\<rparr>)" "stamped f (cachedDir s1 (dirIndex f)) d"
  proof (cases "dateTime s1")
    case None
    then show ?thesis
      by (intro that [of ?d "dateCalls s1"]) (simp_all add: stamped_plain)
  next
    case (Some cb)
    obtain date time where "cb (dateCalls s1) = (date, time)" by force
    then show ?thesis using Some
      by (intro that [of "?d\<lparr>lastWriteDate := date, lastWriteTime := time, lastAccessDate := date\<rparr>"
            "dateCalls s1 + 1"]) (auto simp: callDateTime_def stamped_def)
  qed
  have e: "cachedDir s1 (dirIndex f) = entry (view disk s) f"
    using s1(4) by (simp add: cachedDir_def entry_def)
  note st = stampedD [OF d(2) [unfolded e]]
  have ln: "length (dname d) = 11"
    using st(3) i view_length [OF ok] by (simp add: entry_def)
  let ?buf = "put_dir ?b ?i d"
  let ?s1 = "s1\<lparr>dateCalls := n\<rparr>"
  have lb: "length ?buf = 512" using ln i view_length [OF ok] by simp
  have store: "storeDir (dirIndex f) d ?s1 = ?s1\<lparr>cacheBuffer := ?buf, cacheDirty := True\<rparr>"
    using s1(4,5) by (simp add: storeDir_def)
  have c: "cache_ok good disk lim ?s1" "cacheMirrorBlock ?s1 = 0" "unat (cacheBlockNumber ?s1) < lim"
      "cacheBlockNumber ?s1 \<noteq> 0"
    using q(1) m s1(3) lim by simp_all
  note mod = cache_modify [OF c lb]
  obtain s' where s': "cacheFlush ops (storeDir (dirIndex f) d ?s1) = (True, s')"
      "quiet good disk lim (storeDir (dirIndex f) d ?s1) s'" "\<not> cacheDirty s'"
    by (rule cacheFlush_spec [OF mod(1) [folded store]], rule that)
  note q' = quietD [OF s'(2)]
  have nd: "\<not> isDir f" using f by (simp add: isDir_def word_le_nat_alt)
  show ?thesis
  proof (rule that [of s' d])
    show "sync ops f s = (True, f\<lparr>flags := flags f AND NOT F_FILE_DIR_DIRTY\<rparr>, s')"
      using False f s1(1) d(1) s'(1) by (simp add: sync_def isOpen_def cacheDirEntry_def nd Let_def)
    show "view disk s' = (view disk s)(dirBlock f := ?buf)"
      using q'(2) mod(2) s1(3) q(2) unfolding store by simp
    show "vol s' = vol s" using q'(4) q(4) by (simp add: store)
  qed (use q'(1) s'(3) st in auto)
qed

end

section \<open>A write keeps the entry right\<close>

lemma chain_blocks_elem: "b \<in> chain_blocks v cs \<longleftrightarrow> (\<exists>c \<in> set cs. b \<in> chain_blocks v [c])"
proof
  assume "b \<in> chain_blocks v cs"
  then obtain k where k: "k < length cs * bpc v" "b = file_block v cs k" by (auto simp: chain_blocks_def)
  note i = block_index [OF k(1)]
  have "b = file_block v [cs ! (k div bpc v)] (k mod bpc v)"
    using k(2) i by (simp add: file_block_def)
  then have "b \<in> chain_blocks v [cs ! (k div bpc v)]" using i by (auto simp: chain_blocks_def)
  then show "\<exists>c \<in> set cs. b \<in> chain_blocks v [c]" using i nth_mem by blast
next
  assume "\<exists>c \<in> set cs. b \<in> chain_blocks v [c]"
  then obtain i k where i: "i < length cs" "k < bpc v" "b = file_block v [cs ! i] k"
    by (auto simp: chain_blocks_def in_set_conv_nth)
  have "b = file_block v cs (i * bpc v + k)" using i(2,3) by (simp add: file_block_def)
  moreover have "i * bpc v + k < length cs * bpc v"
  proof -
    have "i * bpc v + k < Suc i * bpc v" using i(2) by simp
    also have "\<dots> \<le> length cs * bpc v" using i(1) by (intro mult_le_mono1) simp
    finally show ?thesis .
  qed
  ultimately show "b \<in> chain_blocks v cs" by (auto simp: chain_blocks_def)
qed

lemma chain_blocks_alloc [simp]: "chain_blocks (v\<lparr>allocSearchStart := a\<rparr>) cs = chain_blocks v cs"
  by (simp add: chain_blocks_def)

lemma dir_slotD:
  assumes "dir_slot lim D v f cs"
  shows "unat (dirBlock f) < lim" and "dirBlock f \<noteq> 0" and "\<not> fat_region v (dirBlock f)"
    and "dirBlock f \<notin> chain_blocks v cs"
  using assms chain_blocks_elem [of "dirBlock f" v cs] by (auto simp: dir_slot_def)

lemma grown_slot:
  assumes "grown f f'"
  shows "dirBlock f' = dirBlock f" and "dirIndex f' = dirIndex f" and "ftype f' = ftype f"
proof -
  have e: "f' = f\<lparr>curCluster := curCluster f', firstCluster := firstCluster f', flags := flags f',
      curPosition := curPosition f', fileSize := fileSize f'\<rparr>" using assms unfolding grown_def by blast
  show "dirBlock f' = dirBlock f" and "dirIndex f' = dirIndex f" and "ftype f' = ftype f"
    by (subst e, simp)+
qed

lemma extends_entry:
  assumes e: "extends good disk lim s s' cs cs'" and sl: "dir_slot lim (view disk s) (vol s) f cs"
    and gr: "grown f f'" and r: "recorded (view disk s) f"
  shows "dir_slot lim (view disk s') (vol s') f' cs'" and "recorded (view disk s') f'"
    and "entry (view disk s') f' = entry (view disk s) f"
proof -
  obtain a where v': "vol s' = vol s\<lparr>allocSearchStart := a\<rparr>"
    using env_geo_vol [OF extendsD(2) [OF e]] .
  obtain new where new: "cs' = cs @ new" "\<forall>c \<in> set new. free_cluster (view disk s) (vol s) c"
    using e by (auto simp: extends_def)
  note d = grown_slot(1,2) [OF gr]
  have out: "dirBlock f \<notin> chain_blocks (vol s) cs'"
    using sl new chain_blocks_elem [of "dirBlock f" "vol s" cs'] by (auto simp: dir_slot_def)
  have view: "view disk s' (dirBlock f) = view disk s (dirBlock f)"
    by (rule extendsD(6) [OF e dir_slotD(3) [OF sl] out])
  then show en: "entry (view disk s') f' = entry (view disk s) f" by (simp add: entry_def d)
  show "recorded (view disk s') f'"
    using gr r en by (auto simp: recorded_def grown_def)
  have "dirBlock f \<notin> chain_blocks (vol s) [c]"
    if c: "c \<in> set cs' \<or> free_cluster (view disk s') (vol s) c" for c
  proof (cases "c \<in> set cs'")
    case True
    then show ?thesis using out chain_blocks_elem [of "dirBlock f" "vol s" cs'] by blast
  next
    case False
    with c have "free_cluster (view disk s) (vol s) c"
      using extendsD(5) [OF e data_cluster_in_fat, of c] by (auto simp: free_cluster_def)
    then show ?thesis using sl by (auto simp: dir_slot_def)
  qed
  then show "dir_slot lim (view disk s') (vol s') f' cs'"
    using sl d by (auto simp: dir_slot_def v')
qed

section \<open>Opening the file again\<close>

lemma contents_outside:
  assumes "b \<notin> chain_blocks v cs" and "ftype f \<noteq> ROOT16"
  shows "contents (D(b := X)) v f cs = contents D v f cs"
proof -
  have "chain_bytes (D(b := X)) v cs = chain_bytes D v cs"
    unfolding chain_bytes_def using assms(1) by (intro blocks_bytes_cong) (auto simp: chain_blocks_def)
  then show ?thesis using assms(2) by (simp add: contents_def raw_bytes_chain)
qed

text \<open>The object that open builds for a file's entry, at its start.\<close>

lemma openCachedEntry_file:
  assumes "DIR_IS_FILE (cachedDir s i)"
  shows "openCachedEntry ops i O_READ f s = Some (True,
    f\<lparr>dirIndex := i, dirBlock := cacheBlockNumber s, firstCluster := entry_cluster (cachedDir s i),
      fileSize := dir_fileSize (cachedDir s i), ftype := NORMAL, flags := O_READ,
      curCluster := 0, curPosition := 0\<rparr>, s)"
  using assms by (simp add: openCachedEntry_def Let_def entry_cluster_def)

text \<open>The state after a power cycle: the card, and the volume mounted as before.\<close>

definition remounted :: "'c fs \<Rightarrow> 'c fs" where
  "remounted s = (fs_new (card s))\<lparr>vol := vol s\<rparr>"

context block_device
begin

lemma remounted_cache:
  assumes "good (card s)"
  shows "cache_ok good disk lim (remounted s)" and "view disk (remounted s) = disk (card s)"
  using assms lim_bound by (auto simp: cache_ok_def remounted_def fs_new_def view_def fun_eq_iff)

lemma reopen_spec:
  assumes ok: "cache_ok good disk lim s" and d: "\<not> cacheDirty s" and f: "file_ok (view disk s) (vol s) f cs"
    and nf: "ftype f = NORMAL" and sl: "dir_slot lim (view disk s) (vol s) f cs"
    and e: "DIR_IS_FILE (entry (view disk s) f)" "dir_fileSize (entry (view disk s) f) = fileSize f"
      "entry_cluster (entry (view disk s) f) = firstCluster f"
  obtains s1 g where "cacheRawBlock ops (dirBlock f) CACHE_FOR_READ (remounted s) = (True, s1)"
    and "openCachedEntry ops (dirIndex f) O_READ sdfile_new s1 = Some (True, g, s1)"
    and "cache_ok good disk lim s1" and "view disk s1 = view disk s" and "vol s1 = vol s"
    and "file_ok (view disk s1) (vol s1) g cs"
    and "contents (view disk s1) (vol s1) g cs = contents (view disk s) (vol s) f cs"
    and "flags g = O_READ" and "curPosition g = 0" and "fileSize g = fileSize f"
proof -
  have "good (card s)" using ok by (simp add: cache_ok_def)
  note rm = remounted_cache [OF this]
  have v: "view disk (remounted s) = view disk s" using rm(2) view_clean [OF d] by simp
  obtain s1 where s1: "cacheRawBlock ops (dirBlock f) CACHE_FOR_READ (remounted s) = (True, s1)"
      "quiet good disk lim (remounted s) s1" "cacheBlockNumber s1 = dirBlock f"
      "cacheBuffer s1 = view disk (remounted s) (dirBlock f)"
    by (rule cacheRawBlock_spec [where a = CACHE_FOR_READ, OF rm(1) dir_slotD(1) [OF sl]])
      (use dir_slotD(2) [OF sl] that in simp_all)
  note q = quietD [OF s1(2)]
  have c: "cachedDir s1 (dirIndex f) = entry (view disk s) f"
    using s1(4) v by (simp add: cachedDir_def entry_def)
  let ?g = "sdfile_new\<lparr>dirIndex := dirIndex f, dirBlock := cacheBlockNumber s1,
      firstCluster := firstCluster f, fileSize := fileSize f, ftype := NORMAL, flags := O_READ,
      curCluster := 0, curPosition := 0\<rparr>"
  have vol: "vol s1 = vol s" using q(4) by (simp add: remounted_def)
  show ?thesis
  proof (rule that [OF s1(1) _ q(1)])
    show "openCachedEntry ops (dirIndex f) O_READ sdfile_new s1 = Some (True, ?g, s1)"
      using openCachedEntry_file [of s1 "dirIndex f" ops sdfile_new] e by (simp add: c)
    show "view disk s1 = view disk s" using q(2) v by simp
    show "vol s1 = vol s" by (rule vol)
    show "file_ok (view disk s1) (vol s1) ?g cs"
      using f nf by (auto simp: file_ok_def isOpen_def pos_ok_def nblocks_def file_chain_def q(2) v vol)
    show "contents (view disk s1) (vol s1) ?g cs = contents (view disk s) (vol s) f cs"
      using nf by (simp add: contents_def raw_bytes_chain q(2) v vol)
  qed simp_all
qed

lemma sync_file:
  assumes ok: "cache_ok good disk lim s" and g: "geom lim (vol s)" and f: "file_ok (view disk s) (vol s) f cs"
    and nf: "ftype f = NORMAL" and sl: "dir_slot lim (view disk s) (vol s) f cs"
    and r: "recorded (view disk s) f"
  obtains s' f' where "sync ops f s = (True, f', s')" and "f' = f\<lparr>flags := flags f'\<rparr>"
    and "cache_ok good disk lim s'" and "\<not> cacheDirty s'" and "vol s' = vol s"
    and "file_ok (view disk s') (vol s') f' cs"
    and "contents (view disk s') (vol s') f' cs = contents (view disk s) (vol s) f cs"
    and "dir_slot lim (view disk s') (vol s') f' cs"
    and "dir_fileSize (entry (view disk s') f') = fileSize f'"
    and "entry_cluster (entry (view disk s') f') = firstCluster f'"
    and "attributes (entry (view disk s') f') = attributes (entry (view disk s) f)"
    and "dname (entry (view disk s') f') = dname (entry (view disk s) f)"
    and "\<And>b. b \<noteq> dirBlock f \<Longrightarrow> view disk s' b = view disk s b"
proof -
  obtain s' d where a: "sync ops f s = (True, f\<lparr>flags := flags f AND NOT F_FILE_DIR_DIRTY\<rparr>, s')"
      "cache_ok good disk lim s'" "\<not> cacheDirty s'" "vol s' = vol s"
      "view disk s' = (view disk s)(dirBlock f := put_dir (view disk s (dirBlock f)) (unat (dirIndex f)) d)"
      "dir_fileSize d = fileSize f" "entry_cluster d = firstCluster f"
      "dname d = dname (entry (view disk s) f)" "attributes d = attributes (entry (view disk s) f)"
    by (rule sync_spec [OF ok nf sl r], rule that)
  let ?f = "f\<lparr>flags := flags f AND NOT F_FILE_DIR_DIRTY\<rparr>"
  note slD = dir_slotD [OF sl]
  note out = file_chain_outside [OF g slD(3), of "view disk s", folded a(5)]
  have i: "32 * unat (dirIndex f) + 32 \<le> 512" using sl by (simp add: dir_slot_def word_less_nat_alt)
  have ln: "length (dname d) = 11" using a(8) i view_length [OF ok] by (simp add: entry_def)
  have e: "entry (view disk s') ?f = d"
    unfolding entry_def a(5) using dir_at_put_dir_same [OF ln] i view_length [OF ok] by simp
  show ?thesis
  proof (rule that [of ?f s'])
    show "sync ops f s = (True, ?f, s')" by (rule a(1))
    show "file_ok (view disk s') (vol s') ?f cs"
      using f out(1) [of _ f cs] unfolding file_ok_flags by (simp add: file_ok_def a(4,5))
    show "contents (view disk s') (vol s') ?f cs = contents (view disk s) (vol s) f cs"
      using contents_outside [OF slD(4), of f] nf by (simp add: a(4,5))
    show "dir_slot lim (view disk s') (vol s') ?f cs"
      using sl out(2) by (simp add: dir_slot_def a(4,5))
  qed (use a e in simp_all)
qed

end

end
