(* ===== verification/FileTruncate.thy ===== *)
theory FileTruncate
  imports FileSync
begin

text \<open>
  What \<open>truncate\<close> and \<open>removeFile\<close> leave: the clusters that the file keeps form its chain, the
  others are free, and the bytes are the first ones of the old contents.
\<close>

section \<open>Cutting a chain\<close>

lemma chain_cut:
  assumes "chain F e (as @ bs)" and "as \<noteq> []" and "\<And>y. y \<in> set as \<Longrightarrow> y \<noteq> last as \<Longrightarrow> G y = F y" and "e (G (last as))"
  shows "chain G e as"
  using assms
proof (induction as)
  case (Cons a as)
  show ?case
  proof (cases "as = []")
    case False
    have d: "a \<notin> set as" using chain_distinct [OF Cons.prems(1)] by simp
    then have "a \<noteq> last as" using last_in_set [OF False] by auto
    then have "G a = F a" using Cons.prems(3) [of a] False by simp
    moreover have "chain F e (as @ bs)" "F a = hd as" "\<not> e (hd as)"
      using Cons.prems(1) False by (auto simp: chain_Cons)
    moreover have "chain G e as"
      using Cons.IH [OF calculation(2) False] Cons.prems(3,4) False by auto
    ultimately show ?thesis using False by (simp add: chain_Cons)
  qed (use Cons.prems(4) in simp)
qed simp

text \<open>The table when all but the first \<open>k\<close> clusters of a chain have been freed.\<close>

definition cut_table :: "sdvolume \<Rightarrow> (u32 \<Rightarrow> u32) \<Rightarrow> u32 list \<Rightarrow> nat \<Rightarrow> u32 \<Rightarrow> u32" where
  "cut_table v F cs k y =
     (if y \<in> set (drop k cs) then 0
      else if 0 < k \<and> k < length cs \<and> y = cs ! (k - 1) then fat_trunc v 0x0FFFFFFF
      else F y)"

lemma cut_table_chain:
  assumes "geom lim v" and "fat_chain D v cs" and "0 < k" and "k \<le> length cs"
    and "\<And>y. in_fat v y \<Longrightarrow> fat_entry E v y = cut_table v (fat_entry D v) cs k y"
  shows "fat_chain E v (take k cs)"
proof -
  have dc: "\<forall>c \<in> set cs. data_cluster v c" and ch: "chain (fat_entry D v) (isEOC v) cs" and di: "distinct cs"
    using assms(2) fat_chain_distinct by (auto simp: fat_chain_def)
  have ne: "take k cs \<noteq> []" using assms(3,4) by auto
  have la: "last (take k cs) = cs ! (k - 1)" using assms(3,4) ne by (simp add: last_conv_nth min_def)
  have e: "fat_entry E v y = (if k < length cs \<and> y = cs ! (k - 1) then fat_trunc v 0x0FFFFFFF else fat_entry D v y)"
    if "y \<in> set (take k cs)" for y
  proof -
    have "y \<notin> set (drop k cs)" using set_take_disj_set_drop_if_distinct [OF di, of k k] that by auto
    moreover have "in_fat v y" using dc that by (meson data_cluster_in_fat in_set_takeD)
    ultimately show ?thesis using assms(3,5) by (simp add: cut_table_def)
  qed
  have "isEOC v (fat_entry E v (last (take k cs)))"
  proof (cases "k < length cs")
    case True
    then show ?thesis using e [OF last_in_set [OF ne]] la assms(1) fat_trunc_EOC by (simp add: geom_def)
  next
    case False
    then show ?thesis using e [OF last_in_set [OF ne]] chain_last [OF ch] assms(4) by simp
  qed
  then have "chain (fat_entry E v) (isEOC v) (take k cs)"
    using chain_cut [of "fat_entry D v" "isEOC v" "take k cs" "drop k cs" "fat_entry E v"] ch ne e la by simp
  then show ?thesis using dc by (auto simp: fat_chain_def dest: in_set_takeD)
qed

lemma cut_table_free:
  assumes "geom lim v" and "fat_chain D v cs" and "k \<le> length cs"
    and "\<And>y. in_fat v y \<Longrightarrow> fat_entry E v y = cut_table v (fat_entry D v) cs k y"
  shows "free_cluster E v c \<longleftrightarrow> c \<in> set (drop k cs) \<or> free_cluster D v c"
proof (cases "data_cluster v c")
  case True
  have e: "fat_entry E v c = cut_table v (fat_entry D v) cs k c"
    using assms(4) [OF data_cluster_in_fat [OF True]] .
  have "isEOC v (fat_trunc v 0x0FFFFFFF)" using assms(1) fat_trunc_EOC by (simp add: geom_def)
  then have "fat_trunc v 0x0FFFFFFF \<noteq> 0" by (auto simp: isEOC_def split: if_splits)
  moreover have "fat_entry D v (cs ! (k - 1)) \<noteq> 0" if "k < length cs" "0 < k"
    using chain_entry_nonzero [OF assms(1,2)] that by simp
  ultimately show ?thesis using True e by (auto simp: free_cluster_def cut_table_def)
next
  case False
  then show ?thesis using assms(2) by (auto simp: free_cluster_def fat_chain_def dest: in_set_dropD)
qed

text \<open>The clusters that a file of \<open>len\<close> bytes keeps.\<close>

definition kept :: "sdvolume \<Rightarrow> nat \<Rightarrow> nat" where
  "kept v len = (if len = 0 then 0 else (len - 1) div clusterBytes v + 1)"

lemma kept_bounds:
  assumes "len \<le> 512 * (n * bpc v)"
  shows "kept v len \<le> n" and "len \<le> 512 * (kept v len * bpc v)"
proof -
  show "kept v len \<le> n"
  proof (cases "len = 0")
    case False
    then have "len - 1 < 512 * (n * bpc v)" using assms by simp
    from cluster_index_bound [OF this] False show ?thesis by (simp add: kept_def)
  qed (simp add: kept_def)
  show "len \<le> 512 * (kept v len * bpc v)"
  proof (cases "len = 0")
    case False
    have "len - 1 < ((len - 1) div clusterBytes v + 1) * clusterBytes v"
      using dividend_less_div_times [of "clusterBytes v" "len - 1"] by (simp add: clusterBytes_bpc)
    then have "len \<le> ((len - 1) div clusterBytes v + 1) * clusterBytes v" using False by linarith
    then show ?thesis using False by (simp add: kept_def clusterBytes_bpc algebra_simps)
  qed simp
qed

text \<open>The object after the cut, before it is synchronised.\<close>

definition cut_object :: "u32 \<Rightarrow> sdfile \<Rightarrow> sdfile" where
  "cut_object len f =
     (if len = 0 then f\<lparr>firstCluster := 0\<rparr> else f)\<lparr>fileSize := len, flags := flags f OR F_FILE_DIR_DIRTY\<rparr>"

lemma cut_object_fields [simp]:
  "fileSize (cut_object len f) = len" "ftype (cut_object len f) = ftype f"
  "curPosition (cut_object len f) = curPosition f" "curCluster (cut_object len f) = curCluster f"
  "dirBlock (cut_object len f) = dirBlock f" "dirIndex (cut_object len f) = dirIndex f"
  "firstCluster (cut_object len f) = (if len = 0 then 0 else firstCluster f)"
  by (simp_all add: cut_object_def)

lemma cut_object_ok:
  assumes g: "geom lim v" and f: "file_ok D v f cs" and nf: "ftype f = NORMAL" and len: "len \<le> fileSize f" "fileSize f \<noteq> 0"
    and mv: "moved v cs (unat len) f f1"
    and e: "\<And>y. in_fat v y \<Longrightarrow> fat_entry E v y = cut_table v (fat_entry D v) cs (kept v (unat len)) y"
    and b: "\<And>b. \<not> fat_region v b \<Longrightarrow> E b = D b" and L: "\<And>b. length (D b) = 512" and L': "\<And>b. length (E b) = 512"
  shows "file_ok E v (cut_object len f1) (take (kept v (unat len)) cs)"
    and "contents E v (cut_object len f1) (take (kept v (unat len)) cs) = take (unat len) (contents D v f cs)"
proof -
  let ?k = "kept v (unat len)"
  have size: "unat (fileSize f) \<le> 512 * (length cs * bpc v)" using f nf by (simp add: file_ok_def nblocks_def)
  have "unat len \<le> unat (fileSize f)" using len(1) by (simp add: word_le_nat_alt)
  then have lb: "unat len \<le> 512 * (length cs * bpc v)" using size by simp
  note k = kept_bounds [OF lb]
  have fc: "fat_chain D v cs" "hd cs = firstCluster f" "firstCluster f \<noteq> 0"
    using f nf size len(2) by (auto simp: file_ok_def file_chain_def word_neq_0_iff_unat split: if_splits)
  have f1: "ftype f1 = NORMAL" "firstCluster f1 = firstCluster f" "unat (curPosition f1) = unat len"
      "curPosition f1 \<le> fileSize f1" "pos_ok v f1 cs"
    using mv nf by (auto simp: moved_def pos_ok_def)
  have chain: "file_chain E v (cut_object len f1) (take ?k cs)"
  proof (cases "len = 0")
    case True
    then show ?thesis using f1 by (simp add: file_chain_def kept_def)
  next
    case False
    then have kp: "0 < ?k" by (simp add: kept_def word_neq_0_iff_unat)
    have "fat_chain E v (take ?k cs)" by (rule cut_table_chain [OF g fc(1) kp k(1) e])
    then show ?thesis using False f1 fc kp by (simp add: file_chain_def)
  qed
  have pos: "pos_ok v (cut_object len f1) (take ?k cs)"
  proof (cases "len = 0")
    case True
    moreover have "curPosition f1 = len" using f1(3) by (simp only: word_unat_eq_iff)
    ultimately show ?thesis using f1 by (simp add: pos_ok_def)
  next
    case False
    then have "curPosition f1 = len" "unat len \<noteq> 0" using f1(3) by (simp_all add: word_unat_eq_iff)
    then show ?thesis using f1 by (auto simp: pos_ok_def kept_def)
  qed
  show "file_ok E v (cut_object len f1) (take ?k cs)"
    using chain pos k f1(1) by (simp add: file_ok_def isOpen_def nblocks_def)
  have dc: "\<forall>c \<in> set (take ?k cs). data_cluster v c" using fc(1) by (auto simp: fat_chain_def dest: in_set_takeD)
  have "E (file_block v (take ?k cs) j) = D (file_block v (take ?k cs) j)" if "j < length (take ?k cs) * bpc v" for j
    using file_block_valid(3) [OF g dc that] b by simp
  then obtain rest where "chain_bytes D v (take ?k cs @ drop ?k cs) = chain_bytes E v (take ?k cs) @ rest"
    using chain_bytes_prefix [of "take ?k cs" v D E "drop ?k cs"] by auto
  then have split: "chain_bytes D v cs = chain_bytes E v (take ?k cs) @ rest" by simp
  have "length (chain_bytes E v (take ?k cs)) = 512 * (?k * bpc v)"
    using length_chain_bytes [of E v "take ?k cs"] L' k(1) by (simp add: min_def)
  then show "contents E v (cut_object len f1) (take ?k cs) = take (unat len) (contents D v f cs)"
    using nf f1(1) k(2) \<open>unat len \<le> unat (fileSize f)\<close>
    by (simp add: contents_def raw_bytes_chain split min_def)
qed

lemma start_ok_2: "start_ok (v\<lparr>allocSearchStart := 2\<rparr>)"
  by (simp add: start_ok_def)

context block_device
begin

lemma truncate_links:
  assumes ok: "cache_ok good disk lim s" and g: "geom lim (vol s)" and st: "start_ok (vol s)"
    and ch: "fat_chain (view disk s) (vol s) cs" and k: "0 < k" "k \<le> length cs"
  obtains s' where "(case fatGet ops (cs ! (k - 1)) s of
        (None, s) \<Rightarrow> Some (False, f, s)
      | (Some toFree, s) \<Rightarrow>
          if \<not> isEOC (vol s) toFree then do {
            (ok, s) \<leftarrow> freeChain ops toFree s;
            Some (case seqOk (ok, s) (fatPutEOC ops (cs ! (k - 1))) of (ok, s) \<Rightarrow> (ok, f, s)) }
          else Some (True, f, s)) = Some (True, f, s')"
    and "fat_updated good disk lim s s' (cut_table (vol s) (fat_entry (view disk s) (vol s)) cs k)"
    and "start_ok (vol s')"
proof -
  let ?c = "cs ! (k - 1)" and ?F = "fat_entry (view disk s) (vol s)"
  have cc: "?c \<in> set cs" "data_cluster (vol s) ?c" and ch': "chain ?F (isEOC (vol s)) cs" and di: "distinct cs"
    using ch k fat_chain_distinct [OF ch] by (auto simp: fat_chain_def)
  obtain s1 where s1: "fatGet ops ?c s = (Some (?F ?c), s1)" "quiet good disk lim s s1"
    by (rule fatGet_spec [OF ok g data_cluster_in_fat [OF cc(2)]], rule that)
  note q = quietD [OF s1(2)]
  show ?thesis
  proof (cases "k = length cs")
    case True
    then have "?c = last cs" using k by (cases cs) (auto simp: last_conv_nth)
    then have "isEOC (vol s1) (?F ?c)" using chain_last [OF ch'] q(4) by simp
    moreover have "cut_table (vol s) ?F cs k = ?F" using True by (auto simp: cut_table_def)
    ultimately show ?thesis
      using s1 quiet_fat_updated [OF s1(2)] st q(4) by (intro that [of s1]) simp_all
  next
    case False
    then have lt: "k < length cs" using k by simp
    have nx: "?F ?c = cs ! k" using chain_nth [OF ch', of "k - 1"] lt k by simp
    have dr: "drop k cs = cs ! k # drop (Suc k) cs" using Cons_nth_drop_Suc [OF lt] by simp
    have "chain ?F (isEOC (vol s)) (drop k cs)"
      using chain_append [of "drop k cs" ?F "isEOC (vol s)" "take k cs"] ch' lt by simp
    then have fc: "fat_chain (view disk s1) (vol s1) (cs ! k # drop (Suc k) cs)"
      unfolding dr [symmetric] using ch q(2,4) by (auto simp: fat_chain_def dest: in_set_dropD)
    have "\<not> isEOC (vol s) (cs ! k)"
      using chain_not_eoc [of ?F "isEOC (vol s)" "hd cs" "tl cs" "cs ! k"] ch' lt k
      by (cases cs) (auto simp: nth_Cons')
    then have ne: "\<not> isEOC (vol s1) (?F ?c)" using nx q(4) by simp
    obtain s2 where s2: "freeChain ops (cs ! k) s1 = Some (True, s2)" "vol s2 = vol s1\<lparr>allocSearchStart := 2\<rparr>"
        "fat_updated good disk lim s1 s2 (\<lambda>y. if y \<in> set (drop k cs) then 0 else fat_entry (view disk s1) (vol s1) y)"
      using freeChain_chain [OF q(1) _ fc] g q(4) dr by auto
    have u2: "fat_updated good disk lim s s2 (\<lambda>y. if y \<in> set (drop k cs) then 0 else ?F y)"
      using fat_updated_trans [OF quiet_fat_updated [OF s1(2)] s2(3)] unfolding q(2,4) .
    have g2: "geom lim (vol s2)" "data_cluster (vol s2) ?c" using g cc(2) q(4) s2(2) by simp_all
    obtain s3 where s3: "fatPut ops ?c 0x0FFFFFFF s2 = (True, s3)" "env s3 = env s2"
        "fat_updated good disk lim s2 s3 ((fat_entry (view disk s2) (vol s2))(?c := fat_trunc (vol s2) 0x0FFFFFFF))"
      by (rule fatPut_updates [OF fat_updatedD(1) [OF u2] g2], rule that)
    have v: "fat_trunc (vol s2) = fat_trunc (vol s)"
      using geo_volume(6) [OF fat_updatedD(2) [OF u2]] .
    have "take k cs ! (k - 1) = ?c" "k - 1 < length (take k cs)" using k by simp_all
    then have "?c \<in> set (take k cs)" by (metis nth_mem)
    then have nd: "?c \<notin> set (drop k cs)"
      using set_take_disj_set_drop_if_distinct [OF di, of k k] by auto
    have "fat_updated good disk lim s s3 (cut_table (vol s) ?F cs k)"
      by (rule fat_updated_cong [OF fat_updated_trans [OF u2 s3(3)]])
        (use fat_updatedD(3) [OF u2] k lt nd v in \<open>auto simp: cut_table_def\<close>)
    moreover have "start_ok (vol s3)" using env_vol [OF s3(2)] s2(2) start_ok_2 by simp
    ultimately show ?thesis
      using s1(1) ne nx s2(1) s3(1) by (intro that [of s3]) (simp_all add: fatPutEOC_def)
  qed
qed


lemma truncate_spec:
  assumes ok: "cache_ok good disk lim s" and g: "geom lim (vol s)" and st: "start_ok (vol s)"
    and f: "file_ok (view disk s) (vol s) f cs" and nf: "ftype f = NORMAL" and w: "flags f AND O_WRITE \<noteq> 0"
    and sl: "dir_slot lim (view disk s) (vol s) f cs"
    and len: "len \<le> fileSize f" "fileSize f \<noteq> 0"
  obtains f' s' where "truncate ops len f s = Some (True, f', s')"
    and "cache_ok good disk lim s'" and "\<exists>a. vol s' = vol s\<lparr>allocSearchStart := a\<rparr>" and "start_ok (vol s')"
    and "ftype f' = NORMAL" and "fileSize f' = len" and "curPosition f' = (if curPosition f > len then len else curPosition f)"
    and "dirBlock f' = dirBlock f" and "dirIndex f' = dirIndex f"
    and "file_ok (view disk s') (vol s') f' (take (kept (vol s) (unat len)) cs)"
    and "contents (view disk s') (vol s') f' (take (kept (vol s) (unat len)) cs) =
        take (unat len) (contents (view disk s) (vol s) f cs)"
    and "dir_slot lim (view disk s') (vol s') f' (take (kept (vol s) (unat len)) cs)"
    and "dir_fileSize (entry (view disk s') f') = len" and "entry_cluster (entry (view disk s') f') = firstCluster f'"
    and "\<And>y. in_fat (vol s) y \<Longrightarrow> fat_entry (view disk s') (vol s) y =
        cut_table (vol s) (fat_entry (view disk s) (vol s)) cs (kept (vol s) (unat len)) y"
    and "\<And>b. \<not> fat_region (vol s) b \<Longrightarrow> b \<noteq> dirBlock f \<Longrightarrow> view disk s' b = view disk s b"
proof -
  let ?k = "kept (vol s) (unat len)" and ?F = "fat_entry (view disk s) (vol s)"
  obtain f1 s1 where s1: "seekSet ops len f s = (True, f1, s1)" "quiet good disk lim s s1"
      "moved (vol s) cs (unat len) f f1"
    by (rule seekSet_spec [OF ok g f len(1)], rule that)
  note q = quietD [OF s1(2)]
  have f1: "firstCluster f1 = firstCluster f" "fileSize f1 = fileSize f" "ftype f1 = NORMAL" "flags f1 = flags f"
    using s1(3) nf by (auto simp: moved_def)
  have fc: "fat_chain (view disk s) (vol s) cs" "hd cs = firstCluster f" "cs \<noteq> []"
    using f nf len(2) by (auto simp: file_ok_def file_chain_def nblocks_def word_neq_0_iff_unat fat_chain_def split: if_splits)
  have size: "unat (fileSize f) \<le> 512 * (length cs * bpc (vol s))" using f nf by (simp add: file_ok_def nblocks_def)
  have k: "?k \<le> length cs" by (rule kept_bounds(1)) (use size len(1) in \<open>simp add: word_le_nat_alt\<close>)
  obtain s2 where s2: "(if len = 0 then do {
        (ok, s) \<leftarrow> freeChain ops (firstCluster f1) s1;
        Some (ok, if ok then f1\<lparr>firstCluster := 0\<rparr> else f1, s) }
      else
        case fatGet ops (curCluster f1) s1 of
          (None, s) \<Rightarrow> Some (False, f1, s)
        | (Some toFree, s) \<Rightarrow>
            if \<not> isEOC (vol s) toFree then do {
              (ok, s) \<leftarrow> freeChain ops toFree s;
              Some (case seqOk (ok, s) (fatPutEOC ops (curCluster f1)) of (ok, s) \<Rightarrow> (ok, f1, s)) }
            else Some (True, f1, s)) = Some (True, if len = 0 then f1\<lparr>firstCluster := 0\<rparr> else f1, s2)"
      "fat_updated good disk lim s1 s2 (cut_table (vol s1) (fat_entry (view disk s1) (vol s1)) cs ?k)"
      "start_ok (vol s2)"
  proof (cases "len = 0")
    case True
    have hc: "hd cs # tl cs = cs" using fc(3) by simp
    have fc1: "fat_chain (view disk s1) (vol s1) (hd cs # tl cs)" unfolding hc using fc(1) q(2,4) by simp
    obtain s2 where "freeChain ops (hd cs) s1 = Some (True, s2)" "vol s2 = vol s1\<lparr>allocSearchStart := 2\<rparr>"
        "fat_updated good disk lim s1 s2 (\<lambda>y. if y \<in> set (hd cs # tl cs) then 0 else fat_entry (view disk s1) (vol s1) y)"
      using freeChain_chain [OF q(1) _ fc1] g q(4) by auto
    moreover have "(\<lambda>y. if y \<in> set (hd cs # tl cs) then 0 else fat_entry (view disk s1) (vol s1) y) =
        cut_table (vol s1) (fat_entry (view disk s1) (vol s1)) cs ?k"
      using True fc(3) by (simp add: cut_table_def kept_def fun_eq_iff)
    ultimately show ?thesis
      using True fc(2) f1(1) start_ok_2 by (intro that [of s2]) simp_all
  next
    case False
    then have kp: "0 < ?k" by (simp add: kept_def word_neq_0_iff_unat)
    have "curPosition f1 = len" "pos_ok (vol s) f1 cs" using s1(3) by (auto simp: moved_def word_unat_eq_iff)
    then have cur: "curCluster f1 = cs ! (?k - 1)" using False f1(3) by (simp add: pos_ok_def kept_def word_neq_0_iff_unat)
    have pre: "geom lim (vol s1)" "start_ok (vol s1)" "fat_chain (view disk s1) (vol s1) cs"
      using q g st fc(1) by simp_all
    obtain s2 where s2: "(case fatGet ops (cs ! (?k - 1)) s1 of
          (None, s) \<Rightarrow> Some (False, f1, s)
        | (Some toFree, s) \<Rightarrow>
            if \<not> isEOC (vol s) toFree then do {
              (ok, s) \<leftarrow> freeChain ops toFree s;
              Some (case seqOk (ok, s) (fatPutEOC ops (cs ! (?k - 1))) of (ok, s) \<Rightarrow> (ok, f1, s)) }
            else Some (True, f1, s)) = Some (True, f1, s2)"
        "fat_updated good disk lim s1 s2 (cut_table (vol s1) (fat_entry (view disk s1) (vol s1)) cs ?k)"
        "start_ok (vol s2)"
      by (rule truncate_links [OF q(1) pre kp k, of f1], rule that)
    show ?thesis by (rule that [of s2]) (use False s2 in \<open>simp_all only: cur if_False\<close>)
  qed
  let ?cs = "take ?k cs" and ?f2 = "cut_object len f1"
  have u: "fat_updated good disk lim s s2 (cut_table (vol s) ?F cs ?k)"
    using fat_updated_trans [OF quiet_fat_updated [OF s1(2)] s2(2)] unfolding q(2,4) .
  note uD = fat_updatedD [OF u]
  obtain a where v2: "vol s2 = vol s\<lparr>allocSearchStart := a\<rparr>" by (rule env_geo_vol [OF uD(2)])
  have e2: "fat_entry (view disk s2) (vol s) y = cut_table (vol s) ?F cs ?k y" if "in_fat (vol s) y" for y
    using uD(3) [OF that] v2 by simp
  note c = cut_object_ok [OF g f nf len s1(3) e2 uD(4) view_length [OF ok] view_length [OF uD(1)]]
  have c2: "file_ok (view disk s2) (vol s2) ?f2 ?cs" "geom lim (vol s2)"
    using c(1) g by (simp_all add: v2)
  have f1d: "dirBlock f1 = dirBlock f" "dirIndex f1 = dirIndex f" "curPosition f1 = len"
    using s1(3) by (auto simp: moved_def word_unat_eq_iff)
  have sl2: "dir_slot lim (view disk s2) (vol s2) ?f2 ?cs"
    using sl cut_table_free [OF g fc(1) k e2]
    by (auto simp: dir_slot_def v2 f1d dest: in_set_takeD in_set_dropD)
  have rec: "recorded (view disk s2) ?f2" by (simp add: recorded_def cut_object_def)
  obtain s3 f3 where s3: "sync ops ?f2 s2 = (True, f3, s3)" "f3 = ?f2\<lparr>flags := flags f3\<rparr>"
      "cache_ok good disk lim s3" "vol s3 = vol s2" "file_ok (view disk s3) (vol s3) f3 ?cs"
      "contents (view disk s3) (vol s3) f3 ?cs = contents (view disk s2) (vol s2) ?f2 ?cs"
      "dir_slot lim (view disk s3) (vol s3) f3 ?cs"
      "dir_fileSize (entry (view disk s3) f3) = fileSize f3" "entry_cluster (entry (view disk s3) f3) = firstCluster f3"
      "\<And>b. b \<noteq> dirBlock ?f2 \<Longrightarrow> view disk s3 b = view disk s2 b"
    by (rule sync_file [OF uD(1) c2(2,1) _ sl2 rec], simp add: f1, rule that)
  have f3: "ftype f3 = NORMAL" "fileSize f3 = len" "dirBlock f3 = dirBlock f" "dirIndex f3 = dirIndex f"
    by (subst s3(2), simp add: f1 f1d)+
  have slD: "\<not> fat_region (vol s) (dirBlock f)" using sl by (simp add: dir_slot_def)
  have v3: "view disk s3 = (view disk s2)(dirBlock f := view disk s3 (dirBlock f))"
    using s3(10) f1d by auto
  let ?p = "if curPosition f > len then len else curPosition f"
  have p: "?p \<le> fileSize f3" using f3 by (auto simp: not_less)
  have g3: "geom lim (vol s3)" using c2(2) s3(4) by simp
  obtain f4 s4 where s4: "seekSet ops ?p f3 s3 = (True, f4, s4)" "quiet good disk lim s3 s4" "moved (vol s3) ?cs (unat ?p) f3 f4"
    by (rule seekSet_spec [OF s3(3) g3 s3(5) p], rule that)
  note q4 = quietD [OF s4(2)]
  have f4: "ftype f4 = NORMAL" "fileSize f4 = len" "dirBlock f4 = dirBlock f" "dirIndex f4 = dirIndex f"
      "firstCluster f4 = firstCluster f3" "curPosition f4 = ?p"
    using s4(3) f3 by (auto simp: moved_def word_unat_eq_iff)
  have e4: "entry D f4 = entry D f3" for D using f4 f3 by (simp add: entry_def)
  show ?thesis
  proof (rule that [of f4 s4])
    have guard: "(\<not> isFile f \<or> flags f AND O_WRITE = 0) = False" "(len > fileSize f) = False" "(fileSize f = 0) = False"
      using nf w len by (simp_all add: isFile_def not_less)
    have "truncate ops len f s =
        (let f = (if len = 0 then f1\<lparr>firstCluster := 0\<rparr> else f1);
             f = f\<lparr>fileSize := len, flags := flags f OR F_FILE_DIR_DIRTY\<rparr>
         in case sync ops f s2 of
              (False, f, s) \<Rightarrow> Some (False, f, s)
            | (True, f, s) \<Rightarrow> Some (seekSet ops ?p f s))"
      by (simp only: truncate_def guard if_False Let_def s1(1) prod.case bool.case s2(1) Option.bind.simps simp_thms)
    moreover have "(if len = 0 then f1\<lparr>firstCluster := 0\<rparr> else f1)\<lparr>fileSize := len,
        flags := flags (if len = 0 then f1\<lparr>firstCluster := 0\<rparr> else f1) OR F_FILE_DIR_DIRTY\<rparr> = ?f2"
      by (simp add: cut_object_def)
    ultimately show "truncate ops len f s = Some (True, f4, s4)"
      by (simp only: Let_def s3(1) s4(1) prod.case bool.case)
    show "file_ok (view disk s4) (vol s4) f4 ?cs"
      using moved_file_ok [OF s4(3) s3(5)] q4(2,4) by simp
    show "contents (view disk s4) (vol s4) f4 ?cs = take (unat len) (contents (view disk s) (vol s) f cs)"
      using moved_contents [OF s4(3)] s3(6) c(2) q4(2,4) by (simp add: v2)
    show "dir_slot lim (view disk s4) (vol s4) f4 ?cs"
      using s3(7) f3 f4 q4(2,4) by (simp add: dir_slot_def)
    show "dir_fileSize (entry (view disk s4) f4) = len" "entry_cluster (entry (view disk s4) f4) = firstCluster f4"
      using s3(8,9) f3 f4 q4(2) by (simp_all add: e4)
    show "\<exists>a. vol s4 = vol s\<lparr>allocSearchStart := a\<rparr>" "start_ok (vol s4)"
      using q4(4) s3(4) v2 s2(3) by auto
    show "fat_entry (view disk s4) (vol s) y = cut_table (vol s) ?F cs ?k y" if "in_fat (vol s) y" for y
      using fat_entry_outside [OF g slD that] e2 [OF that] q4(2) by (subst q4(2), subst v3) simp
    show "view disk s4 b = view disk s b" if "\<not> fat_region (vol s) b" "b \<noteq> dirBlock f" for b
      using s3(10) [of b] uD(4) [OF that(1)] that(2) f1d q4(2) by simp
  qed (use q4(1) f4 in simp_all)
qed


text \<open>Changing an entry in the cached block and flushing it.\<close>

lemma store_entry:
  assumes ok: "cache_ok good disk lim s" and b: "unat b < lim" "b \<noteq> 0" "\<not> fat_region (vol s) b" and i: "i < 16"
  obtains s1 where "cacheRawBlock ops b CACHE_FOR_WRITE s = (True, s1)" and "cachedDir s1 i = dir_at (view disk s b) (unat i)"
    and "\<And>d. length (dname d) = 11 \<Longrightarrow> \<exists>s'. cacheFlush ops (storeDir i d s1) = (True, s') \<and>
        cache_ok good disk lim s' \<and> \<not> cacheDirty s' \<and> vol s' = vol s \<and>
        view disk s' = (view disk s)(b := put_dir (view disk s b) (unat i) d)"
proof -
  let ?b = "view disk s b"
  have i': "32 * unat i + 32 \<le> 512" using i by (simp add: word_less_nat_alt)
  obtain s1 where s1: "cacheRawBlock ops b CACHE_FOR_WRITE s = (True, s1)"
      "quiet good disk lim s s1" "cacheBlockNumber s1 = b" "cacheBuffer s1 = ?b" "cacheDirty s1"
    by (rule cacheRawBlock_spec [where a = CACHE_FOR_WRITE, OF ok b(1,2)], rule that) (simp_all add: CACHE_FOR_WRITE_def)
  note q = quietD [OF s1(2)]
  have m: "cacheMirrorBlock s1 = 0" using mirror_outside [OF q(1)] s1(3) b(3) q(4) by simp
  show ?thesis
  proof (rule that [of s1])
    show "cacheRawBlock ops b CACHE_FOR_WRITE s = (True, s1)" by (rule s1(1))
    show "cachedDir s1 i = dir_at ?b (unat i)" using s1(4) by (simp add: cachedDir_def)
    fix d :: dir_t
    assume ln: "length (dname d) = 11"
    let ?buf = "put_dir ?b (unat i) d"
    have lb: "length ?buf = 512" using ln i' view_length [OF ok] by simp
    have store: "storeDir i d s1 = s1\<lparr>cacheBuffer := ?buf, cacheDirty := True\<rparr>"
      using s1(4,5) by (simp add: storeDir_def)
    have c: "unat (cacheBlockNumber s1) < lim" "cacheBlockNumber s1 \<noteq> 0" using s1(3) b by simp_all
    note mod = cache_modify [OF q(1) m c lb]
    obtain s' where s': "cacheFlush ops (storeDir i d s1) = (True, s')"
        "quiet good disk lim (storeDir i d s1) s'" "\<not> cacheDirty s'"
      by (rule cacheFlush_spec [OF mod(1) [folded store]], rule that)
    note q' = quietD [OF s'(2)]
    have "view disk s' = (view disk s)(b := ?buf)" using q'(2) mod(2) s1(3) q(2) unfolding store by simp
    moreover have "vol s' = vol s" using q'(4) q(4) by (simp add: store)
    ultimately show "\<exists>s'. cacheFlush ops (storeDir i d s1) = (True, s') \<and> cache_ok good disk lim s' \<and>
        \<not> cacheDirty s' \<and> vol s' = vol s \<and> view disk s' = (view disk s)(b := ?buf)"
      using s' q'(1) by blast
  qed
qed

lemma remove_spec:
  assumes ok: "cache_ok good disk lim s" and g: "geom lim (vol s)" and st: "start_ok (vol s)"
    and f: "file_ok (view disk s) (vol s) f cs" and nf: "ftype f = NORMAL" and w: "flags f AND O_WRITE \<noteq> 0"
    and sl: "dir_slot lim (view disk s) (vol s) f cs" and ne: "fileSize f \<noteq> 0"
  obtains f' s' where "removeFile ops f s = Some (True, f', s')" and "ftype f' = CLOSED"
    and "cache_ok good disk lim s'" and "\<not> cacheDirty s'" and "\<exists>a. vol s' = vol s\<lparr>allocSearchStart := a\<rparr>"
    and "start_ok (vol s')" and "dname (entry (view disk s') f) ! 0 = DIR_NAME_DELETED"
    and "\<And>y. in_fat (vol s) y \<Longrightarrow> fat_entry (view disk s') (vol s) y =
        (if y \<in> set cs then 0 else fat_entry (view disk s) (vol s) y)"
    and "\<And>b. \<not> fat_region (vol s) b \<Longrightarrow> b \<noteq> dirBlock f \<Longrightarrow> view disk s' b = view disk s b"
proof -
  have k0: "kept (vol s) (unat (0 :: u32)) = 0" by (simp add: kept_def)
  obtain f1 s1 where t: "truncate ops 0 f s = Some (True, f1, s1)" "cache_ok good disk lim s1"
      "\<exists>a. vol s1 = vol s\<lparr>allocSearchStart := a\<rparr>" "start_ok (vol s1)" "ftype f1 = NORMAL"
      "dirBlock f1 = dirBlock f" "dirIndex f1 = dirIndex f"
      "\<And>y. in_fat (vol s) y \<Longrightarrow> fat_entry (view disk s1) (vol s) y =
        cut_table (vol s) (fat_entry (view disk s) (vol s)) cs (kept (vol s) (unat (0 :: u32))) y"
      "\<And>b. \<not> fat_region (vol s) b \<Longrightarrow> b \<noteq> dirBlock f \<Longrightarrow> view disk s1 b = view disk s b"
    by (rule truncate_spec [OF ok g st f nf w sl word_zero_le ne], rule that)
  obtain a where v1: "vol s1 = vol s\<lparr>allocSearchStart := a\<rparr>" using t(3) by blast
  have d: "unat (dirBlock f) < lim" "dirBlock f \<noteq> 0" "\<not> fat_region (vol s1) (dirBlock f)" "dirIndex f < 16"
    using sl by (simp_all add: dir_slot_def v1)
  have i: "32 * unat (dirIndex f) + 32 \<le> 512" using d(4) by (simp add: word_less_nat_alt)
  obtain s2 where s2: "cacheRawBlock ops (dirBlock f) CACHE_FOR_WRITE s1 = (True, s2)"
      "cachedDir s2 (dirIndex f) = dir_at (view disk s1 (dirBlock f)) (unat (dirIndex f))"
      "\<And>d. length (dname d) = 11 \<Longrightarrow> \<exists>s'. cacheFlush ops (storeDir (dirIndex f) d s2) = (True, s') \<and>
        cache_ok good disk lim s' \<and> \<not> cacheDirty s' \<and> vol s' = vol s1 \<and>
        view disk s' = (view disk s1)(dirBlock f := put_dir (view disk s1 (dirBlock f)) (unat (dirIndex f)) d)"
    by (rule store_entry [OF t(2) d], rule that)
  define e where "e = cachedDir s2 (dirIndex f)"
  let ?e = "e\<lparr>dname := (dname e)[0 := DIR_NAME_DELETED]\<rparr>"
  have ln: "length (dname e) = 11" using s2(2) i view_length [OF t(2)] by (simp add: e_def)
  obtain s3 where s3: "cacheFlush ops (storeDir (dirIndex f) ?e s2) = (True, s3)"
      "cache_ok good disk lim s3" "\<not> cacheDirty s3" "vol s3 = vol s1"
      "view disk s3 = (view disk s1)(dirBlock f := put_dir (view disk s1 (dirBlock f)) (unat (dirIndex f)) ?e)"
    using s2(3) [of ?e] ln by auto
  have slD: "\<not> fat_region (vol s) (dirBlock f)" using sl by (simp add: dir_slot_def)
  show ?thesis
  proof (rule that [of "f1\<lparr>ftype := CLOSED\<rparr>" s3])
    show "removeFile ops f s = Some (True, f1\<lparr>ftype := CLOSED\<rparr>, s3)"
      using t(1) s2(1) s3(1) t(6,7) by (simp add: removeFile_def cacheDirEntry_def e_def Let_def)
    have "entry (view disk s3) f = ?e"
      unfolding entry_def s3(5) using dir_at_put_dir_same [of ?e] ln i view_length [OF t(2)] by simp
    then show "dname (entry (view disk s3) f) ! 0 = DIR_NAME_DELETED" using ln by simp
    show "fat_entry (view disk s3) (vol s) y = (if y \<in> set cs then 0 else fat_entry (view disk s) (vol s) y)"
      if "in_fat (vol s) y" for y
      unfolding s3(5) fat_entry_outside [OF g slD that] t(8) [OF that] k0 by (simp add: cut_table_def)
    show "view disk s3 b = view disk s b" if "\<not> fat_region (vol s) b" "b \<noteq> dirBlock f" for b
      using t(9) [OF that] that(2) by (simp add: s3(5))
  qed (use s3 t v1 in auto)
qed

end

end
