(* ===== verification/SpiBus.thy ===== *)
theory SpiBus
  imports SdPrelude
begin

text \<open>
  The data transfers of the ESP8266 SPI library (SPI/SPI.cpp).  The peripheral has a
  64 byte buffer of sixteen 32 bit registers, \<open>SPI1W0\<close> being the first; a transfer
  sends the first \<open>bits / 8\<close> bytes of it and puts the bytes received in their place.
  The hardware is the parameter \<open>wire\<close>: what one byte exchange does (with the reply),
  what \<open>millis()\<close> returns, and what the chip select pin does.  The busy flag is set only
  while the hardware runs, so the loops that poll it have no counterpart; bytes go
  out most significant bit first, as the SD driver sets it.
\<close>

record 'd wire =
  exchange :: "u8 \<Rightarrow> 'd \<Rightarrow> u8 \<times> 'd"
  millis :: "'d \<Rightarrow> u32 \<times> 'd"
  digitalWrite :: "u8 \<Rightarrow> bool \<Rightarrow> 'd \<Rightarrow> 'd"

record 'd spi =
  fifo :: "u8 list"
  dataBits :: u16
  dev :: 'd

definition spi_new :: "'d \<Rightarrow> 'd spi" where
  "spi_new d = \<lparr> fifo = replicate 64 0, dataBits = 8, dev = d \<rparr>"

section \<open>One hardware transfer\<close>

text \<open>Exchanging a run of bytes, one after another.\<close>

fun exchanges :: "'d wire \<Rightarrow> u8 list \<Rightarrow> 'd \<Rightarrow> u8 list \<times> 'd" where
  "exchanges w [] d = ([], d)"
| "exchanges w (b # bs) d =
     (case exchange w b d of (r, d) \<Rightarrow>
        case exchanges w bs d of (rs, d) \<Rightarrow> (r # rs, d))"

definition spiRun :: "'d wire \<Rightarrow> 'd spi \<Rightarrow> 'd spi" where
  "spiRun w p =
     (case exchanges w (take (unat (dataBits p) div 8) (fifo p)) (dev p) of (rs, d) \<Rightarrow>
        p\<lparr>fifo := splice (fifo p) 0 rs, dev := d\<rparr>)"

definition setDataBits :: "u16 \<Rightarrow> 'd spi \<Rightarrow> 'd spi" where
  "setDataBits bits p = p\<lparr>dataBits := bits\<rparr>"

text \<open>Storing a 32 bit value in the register \<open>SPI1W0\<close>.\<close>

definition setW0 :: "u32 \<Rightarrow> 'd spi \<Rightarrow> 'd spi" where
  "setW0 x p = p\<lparr>fifo := put32 (fifo p) 0 x\<rparr>"

section \<open>The library\<close>

definition spi_transfer :: "'d wire \<Rightarrow> u8 \<Rightarrow> 'd spi \<Rightarrow> u8 \<times> 'd spi" where
  "spi_transfer w data p =
     (let p = setDataBits 8 p; p = setW0 (ucast data) p; p = spiRun w p
      in (ucast (get32 (fifo p) 0 AND 0xFF), p))"

definition spi_transfer16 :: "'d wire \<Rightarrow> u16 \<Rightarrow> 'd spi \<Rightarrow> u16 \<times> 'd spi" where
  "spi_transfer16 w data p =
     (case spi_transfer w (ucast (drop_bit 8 data)) p of (msb, p) \<Rightarrow>
        case spi_transfer w (ucast data) p of (lsb, p) \<Rightarrow>
          (ucast lsb OR push_bit 8 (ucast msb), p))"

definition spi_write :: "'d wire \<Rightarrow> u8 \<Rightarrow> 'd spi \<Rightarrow> 'd spi" where
  "spi_write w data p = spiRun w (setW0 (ucast data) (setDataBits 8 p))"

definition spi_write16 :: "'d wire \<Rightarrow> u16 \<Rightarrow> bool \<Rightarrow> 'd spi \<Rightarrow> 'd spi" where
  "spi_write16 w data msb p =
     (let p = setDataBits 16 p;
          p = (if msb then setW0 (drop_bit 8 (ucast data) OR push_bit 8 (ucast data)) p
               else setW0 (ucast data) p)
      in spiRun w p)"

definition spi_write32 :: "'d wire \<Rightarrow> u32 \<Rightarrow> bool \<Rightarrow> 'd spi \<Rightarrow> 'd spi" where
  "spi_write32 w data msb p =
     (let p = setDataBits 32 p;
          b = (\<lambda>i. ucast (ucast (drop_bit (8 * i) data) :: u8) :: u32);
          data = (if msb
                  then b 3 OR push_bit 8 (b 2) OR push_bit 16 (b 1) OR push_bit 24 (b 0)
                  else data)
      in spiRun w (setW0 data p))"

text \<open>
  At most 64 bytes through the buffer.  The copy goes by words, so up to three bytes
  after the data may be copied as well; they are not sent.
\<close>

definition spi_writeBytes1 :: "'d wire \<Rightarrow> u8 list \<Rightarrow> nat \<Rightarrow> 'd spi \<Rightarrow> 'd spi" where
  "spi_writeBytes1 w data sz p =
     (let p = setDataBits (of_nat (sz * 8)) p;
          dataSize = (sz + 3) div 4
      in spiRun w (p\<lparr>fifo := splice (fifo p) 0 (take (4 * dataSize) data)\<rparr>))"

function spi_writeBytes :: "'d wire \<Rightarrow> u8 list \<Rightarrow> nat \<Rightarrow> 'd spi \<Rightarrow> 'd spi" where
  "spi_writeBytes w data sz p =
     (if sz = 0 then p
      else if sz > 64
      then spi_writeBytes w (drop 64 data) (sz - 64) (spi_writeBytes1 w data 64 p)
      else spi_writeBytes1 w data sz p)"
  by pat_completeness auto
termination by (relation "measure (\<lambda>(w, data, sz, p). sz)") auto

text \<open>\<open>out\<close> may be null (\<open>None\<close>), which sends 0xFF; the bytes received are returned.\<close>

definition spi_transferBytes1 ::
  "'d wire \<Rightarrow> u8 list option \<Rightarrow> nat \<Rightarrow> 'd spi \<Rightarrow> u8 list \<times> 'd spi" where
  "spi_transferBytes1 w out sz p =
     (let p = setDataBits (of_nat (sz * 8)) p;
          dataSize = (sz + 3) div 4;
          fill = (case out of Some data \<Rightarrow> take (4 * dataSize) data
                  | None \<Rightarrow> replicate (4 * dataSize) 0xFF);
          p = spiRun w (p\<lparr>fifo := splice (fifo p) 0 fill\<rparr>)
      in (take sz (fifo p), p))"

function spi_transferBytes ::
  "'d wire \<Rightarrow> u8 list option \<Rightarrow> nat \<Rightarrow> 'd spi \<Rightarrow> u8 list \<times> 'd spi" where
  "spi_transferBytes w out sz p =
     (if sz = 0 then ([], p)
      else if sz > 64 then
        case spi_transferBytes1 w out 64 p of (bs, p) \<Rightarrow>
          case spi_transferBytes w (map_option (drop 64) out) (sz - 64) p of (cs, p) \<Rightarrow>
            (bs @ cs, p)
      else spi_transferBytes1 w out sz p)"
  by pat_completeness auto
termination by (relation "measure (\<lambda>(w, out, sz, p). sz)") auto

declare spi_writeBytes.simps [simp del] spi_transferBytes.simps [simp del]

section \<open>The buffered transfers equal a byte by byte exchange\<close>

lemma exchanges_length: "exchanges w bs d = (rs, d') \<Longrightarrow> length rs = length bs"
  by (induction bs arbitrary: d rs) (auto split: prod.splits)

lemma exchanges_append:
  "exchanges w (as @ bs) d =
     (case exchanges w as d of (rs, d) \<Rightarrow>
        case exchanges w bs d of (ss, d) \<Rightarrow> (rs @ ss, d))"
  by (induction as arbitrary: d) (auto split: prod.splits)

text \<open>The effect on the device, and the well-formedness of the buffer.\<close>

definition spi_ok :: "'d spi \<Rightarrow> bool" where
  "spi_ok p \<longleftrightarrow> length (fifo p) = 64"

definition spi_sent :: "'d spi \<Rightarrow> 'd spi \<Rightarrow> 'd \<Rightarrow> bool" where
  "spi_sent p p' d \<longleftrightarrow> spi_ok p' \<and> dev p' = d"

lemma spiRun_sent:
  assumes "spi_ok p" and "unat (dataBits p) div 8 \<le> 64"
    and "exchanges w (take (unat (dataBits p) div 8) (fifo p)) (dev p) = (rs, d)"
  shows "spi_sent p (spiRun w p) d" and "take (length rs) (fifo (spiRun w p)) = rs"
proof -
  have l: "length rs = unat (dataBits p) div 8"
    using exchanges_length [OF assms(3)] assms(1,2) by (simp add: spi_ok_def)
  then show "spi_sent p (spiRun w p) d"
    using assms by (simp add: spiRun_def spi_sent_def spi_ok_def)
  show "take (length rs) (fifo (spiRun w p)) = rs"
    using assms(3) by (simp add: spiRun_def splice_def)
qed

lemma take_splice: "n \<le> length data \<Longrightarrow> take n (splice buf 0 data) = take n data"
  by (simp add: splice_def)

lemma dataBits_bytes: "n \<le> 64 \<Longrightarrow> unat ((of_nat n :: u16) * 8) div 8 = n"
proof -
  assume "n \<le> 64"
  moreover have "unat (of_nat (n * 8) :: u16) = n * 8 mod 65536"
    by (subst unat_of_nat) (simp add: take_bit_eq_mod)
  ultimately show ?thesis by simp
qed

lemma spi_writeBytes1_sent:
  assumes "spi_ok p" and "sz \<le> 64" and "length data = sz"
    and "exchanges w data (dev p) = (rs, d)"
  shows "spi_sent p (spi_writeBytes1 w data sz p) d"
proof -
  let ?p = "setDataBits (of_nat (sz * 8)) p"
  let ?q = "?p\<lparr>fifo := splice (fifo ?p) 0 (take (4 * ((sz + 3) div 4)) data)\<rparr>"
  have "take (unat (dataBits ?q) div 8) (fifo ?q) = data"
    using assms(2,3) dataBits_bytes [OF assms(2)]
    by (simp add: setDataBits_def splice_def)
  moreover have "spi_ok ?q"
    using assms(1-3) by (simp add: spi_ok_def setDataBits_def)
  ultimately show ?thesis
    using spiRun_sent(1) [of ?q w rs d] assms(2,4) dataBits_bytes [OF assms(2)]
    by (simp add: spi_writeBytes1_def setDataBits_def spi_sent_def)
qed

lemma spi_writeBytes_sent:
  assumes "spi_ok p" and "length data = sz" and "exchanges w data (dev p) = (rs, d)"
  shows "spi_sent p (spi_writeBytes w data sz p) d"
  using assms
proof (induction w data sz p arbitrary: rs rule: spi_writeBytes.induct)
  case (1 w data sz p)
  consider "sz = 0" | "sz \<noteq> 0" "sz \<le> 64" | "sz > 64" by linarith
  then show ?case
  proof cases
    case 1
    with "1.prems" show ?thesis
      by (subst spi_writeBytes.simps) (auto simp: spi_sent_def)
  next
    case 2
    with "1.prems" spi_writeBytes1_sent [of p sz data w rs d] show ?thesis
      by (subst spi_writeBytes.simps) simp
  next
    case 3
    obtain r1 d1 where e1: "exchanges w (take 64 data) (dev p) = (r1, d1)" by fastforce
    obtain r2 d2 where e2: "exchanges w (drop 64 data) d1 = (r2, d2)" by fastforce
    have "exchanges w (take 64 data @ drop 64 data) (dev p) = (r1 @ r2, d2)"
      unfolding exchanges_append using e1 e2 by simp
    with "1.prems"(3) have d2: "d2 = d" by simp
    have eq: "spi_writeBytes1 w data 64 p = spi_writeBytes1 w (take 64 data) 64 p"
      by (simp add: spi_writeBytes1_def)
    have s1: "spi_sent p (spi_writeBytes1 w data 64 p) d1"
      unfolding eq using "1.prems"(1,2) 3 by (intro spi_writeBytes1_sent [OF _ _ _ e1]) simp_all
    have "spi_sent (spi_writeBytes1 w data 64 p)
        (spi_writeBytes w (drop 64 data) (sz - 64) (spi_writeBytes1 w data 64 p)) d"
      using "1.IH" [of r2] 3 s1 e2 d2 "1.prems"(2) by (simp add: spi_sent_def)
    with 3 show ?thesis by (subst spi_writeBytes.simps) (simp add: spi_sent_def)
  qed
qed

lemma spi_transferBytes1_sent:
  assumes "spi_ok p" and "sz \<le> 64"
    and "exchanges w (replicate sz 0xFF) (dev p) = (rs, d)"
  shows "fst (spi_transferBytes1 w None sz p) = rs"
    and "spi_sent p (snd (spi_transferBytes1 w None sz p)) d"
proof -
  let ?p = "setDataBits (of_nat (sz * 8)) p"
  let ?q = "?p\<lparr>fifo := splice (fifo ?p) 0 (replicate (4 * ((sz + 3) div 4)) 0xFF)\<rparr>"
  have szs: "sz \<le> 4 * ((sz + 3) div 4)" "4 * ((sz + 3) div 4) \<le> 64" using assms(2) by auto
  have tk: "take (unat (dataBits ?q) div 8) (fifo ?q) = replicate sz 0xFF"
    using szs dataBits_bytes [OF assms(2)]
    by (simp add: setDataBits_def splice_def min_absorb1)
  have ok: "spi_ok ?q"
    using assms(1) szs by (simp add: spi_ok_def setDataBits_def)
  have b: "unat (dataBits ?q) div 8 \<le> 64"
    using dataBits_bytes [OF assms(2)] assms(2) by (simp add: setDataBits_def)
  have e: "exchanges w (take (unat (dataBits ?q) div 8) (fifo ?q)) (dev ?q) = (rs, d)"
    using assms(3) tk by (simp add: setDataBits_def)
  have l: "length rs = sz" using exchanges_length [OF assms(3)] by simp
  show "fst (spi_transferBytes1 w None sz p) = rs"
    using spiRun_sent(2) [OF ok b e] l by (simp add: spi_transferBytes1_def Let_def)
  show "spi_sent p (snd (spi_transferBytes1 w None sz p)) d"
    using spiRun_sent(1) [OF ok b e] by (simp add: spi_transferBytes1_def spi_sent_def Let_def)
qed


lemma spi_transferBytes_sent:
  assumes "spi_ok p" and "exchanges w (replicate sz 0xFF) (dev p) = (rs, d)"
  shows "fst (spi_transferBytes w None sz p) = rs"
    and "spi_sent p (snd (spi_transferBytes w None sz p)) d"
proof -
  have "fst (spi_transferBytes w out sz p) = rs \<and>
      spi_sent p (snd (spi_transferBytes w out sz p)) d" if "out = None" for out
    using assms that
  proof (induction w out sz p arbitrary: rs rule: spi_transferBytes.induct)
    case (1 w out sz p)
    note out = "1.prems"(3)
    consider "sz = 0" | "sz \<noteq> 0" "sz \<le> 64" | "sz > 64" by linarith
    then show ?case
    proof cases
      case 1
      with "1.prems" show ?thesis
        by (subst (1 2) spi_transferBytes.simps) (auto simp: spi_sent_def)
    next
      case 2
      with "1.prems" spi_transferBytes1_sent [of p sz w rs d] show ?thesis
        by (subst (1 2) spi_transferBytes.simps) simp
    next
      case 3
      obtain r1 d1 where e1: "exchanges w (replicate 64 0xFF) (dev p) = (r1, d1)" by fastforce
      obtain r2 d2 where e2: "exchanges w (replicate (sz - 64) 0xFF) d1 = (r2, d2)" by fastforce
      have "replicate sz (0xFF :: u8) = replicate 64 0xFF @ replicate (sz - 64) 0xFF"
        using 3 by (simp flip: replicate_add)
      with "1.prems"(2) exchanges_append [of w "replicate 64 0xFF" "replicate (sz - 64) 0xFF" "dev p"]
      have rs: "rs = r1 @ r2" "d2 = d" using e1 e2 by auto
      obtain p1 where p1: "spi_transferBytes1 w None 64 p = (r1, p1)" "spi_ok p1" "dev p1 = d1"
        using spi_transferBytes1_sent [OF "1.prems"(1) _ e1]
        by (cases "spi_transferBytes1 w None 64 p") (auto simp: spi_sent_def)
      have "fst (spi_transferBytes w None (sz - 64) p1) = r2 \<and>
          spi_sent p1 (snd (spi_transferBytes w None (sz - 64) p1)) d"
        using "1.IH" [of r1 p1 r2] 3 p1 e2 rs out by simp
      then show ?thesis
        using 3 p1 rs out
        by (subst (1 2) spi_transferBytes.simps) (auto simp: spi_sent_def split: prod.splits)
    qed
  qed
  then show "fst (spi_transferBytes w None sz p) = rs"
    and "spi_sent p (snd (spi_transferBytes w None sz p)) d" by simp_all
qed

section \<open>Single words go out most significant byte first\<close>

lemma ucast_up_down: "(ucast (ucast (b :: u8) :: u32) :: u8) = b"
  by (rule bit_word_eqI) (auto simp: bit_simps)

lemma setW0_take:
  assumes "spi_ok p"
  shows "take 1 (fifo (setW0 x p)) = [ucast x]"
    and "take 2 (fifo (setW0 x p)) = [ucast x, ucast (drop_bit 8 x)]"
    and "take 4 (fifo (setW0 x p)) =
      [ucast x, ucast (drop_bit 8 x), ucast (drop_bit 16 x), ucast (drop_bit 24 x)]"
proof -
  have b1: "(ucast (ucast (x :: u32) :: u16) :: u8) = ucast x"
    and b2: "(ucast (drop_bit 8 (ucast x :: u16)) :: u8) = ucast (drop_bit 8 x)"
    and b3: "(ucast (ucast (drop_bit 16 x) :: u16) :: u8) = ucast (drop_bit 16 x)"
    and b4: "(ucast (drop_bit 8 (ucast (drop_bit 16 x) :: u16)) :: u8) = ucast (drop_bit 24 x)"
    by (rule bit_word_eqI, simp add: bit_simps)+
  have "4 \<le> length (fifo p)" using assms by (simp add: spi_ok_def)
  then obtain a b c d r where "fifo p = a # b # c # d # r"
    by (auto simp: numeral_eq_Suc Suc_le_length_iff)
  then show "take 1 (fifo (setW0 x p)) = [ucast x]"
    and "take 2 (fifo (setW0 x p)) = [ucast x, ucast (drop_bit 8 x)]"
    and "take 4 (fifo (setW0 x p)) =
      [ucast x, ucast (drop_bit 8 x), ucast (drop_bit 16 x), ucast (drop_bit 24 x)]"
    by (simp_all add: setW0_def put32_def put16_def b1 b2 b3 b4)
qed

lemma spi_ok_setW0 [simp]: "spi_ok (setW0 x p) = spi_ok p"
  by (simp add: spi_ok_def setW0_def)

lemma spi_ok_setDataBits [simp]: "spi_ok (setDataBits n p) = spi_ok p"
  by (simp add: spi_ok_def setDataBits_def)

lemma setW0_simps [simp]:
  "dataBits (setW0 x p) = dataBits p" "dev (setW0 x p) = dev p"
  "dataBits (setDataBits n p) = n" "dev (setDataBits n p) = dev p"
  by (simp_all add: setW0_def setDataBits_def)

lemma spi_write_sent:
  assumes "spi_ok p" and "exchange w b (dev p) = (r, d)"
  shows "spi_sent p (spi_write w b p) d"
  using spiRun_sent(1) [of "setW0 (ucast b) (setDataBits 8 p)" w "[r]" d] assms
    setW0_take(1) [of "setDataBits 8 p" "ucast b"]
  by (simp add: spi_write_def spi_sent_def ucast_up_down)

lemma spi_transfer_sent:
  assumes "spi_ok p" and "exchange w b (dev p) = (r, d)"
  shows "fst (spi_transfer w b p) = r" and "spi_sent p (snd (spi_transfer w b p)) d"
proof -
  let ?p = "setW0 (ucast b) (setDataBits 8 p)"
  have e: "exchanges w (take (unat (dataBits ?p) div 8) (fifo ?p)) (dev ?p) = ([r], d)"
    using setW0_take(1) [of "setDataBits 8 p" "ucast b"] assms by (simp add: ucast_up_down)
  have s: "spi_sent ?p (spiRun w ?p) d" "take 1 (fifo (spiRun w ?p)) = [r]"
    using spiRun_sent [of ?p w "[r]" d] e assms(1) by simp_all
  then show "spi_sent p (snd (spi_transfer w b p)) d"
    by (simp add: spi_transfer_def spi_sent_def Let_def)
  have "fifo (spiRun w ?p) ! 0 = r"
    using s(2) by (cases "fifo (spiRun w ?p)") auto
  then have "ucast (get32 (fifo (spiRun w ?p)) 0 AND 0xFF) = r"
    by (intro bit_word_eqI) (auto simp: get32_def get16_def and_mask_take_bit bit_simps)
  then show "fst (spi_transfer w b p) = r"
    by (simp add: spi_transfer_def Let_def)
qed

lemma spi_write16_sent:
  assumes "spi_ok p" and "exchanges w [ucast (drop_bit 8 x), ucast x] (dev p) = (rs, d)"
  shows "spi_sent p (spi_write16 w x True p) d"
proof -
  let ?y = "drop_bit 8 (ucast x) OR push_bit 8 (ucast x) :: u32"
  have "(ucast ?y :: u8) = ucast (drop_bit 8 x)" "(ucast (drop_bit 8 ?y) :: u8) = ucast x"
    by (rule bit_word_eqI, auto simp: bit_simps dest: bit_imp_le_length)+
  then show ?thesis
    using spiRun_sent(1) [of "setW0 ?y (setDataBits 16 p)" w rs d] assms
      setW0_take(2) [of "setDataBits 16 p" ?y]
    by (simp add: spi_write16_def spi_sent_def)
qed

definition be32 :: "u32 \<Rightarrow> u8 list" where
  "be32 x = [ucast (drop_bit 24 x), ucast (drop_bit 16 x), ucast (drop_bit 8 x), ucast x]"

lemma spi_write32_sent:
  assumes "spi_ok p" and "exchanges w (be32 x) (dev p) = (rs, d)"
  shows "spi_sent p (spi_write32 w x True p) d"
proof -
  let ?b = "\<lambda>i. ucast (ucast (drop_bit (8 * i) x) :: u8) :: u32"
  let ?y = "?b 3 OR push_bit 8 (?b 2) OR push_bit 16 (?b 1) OR push_bit 24 (?b 0)"
  have "(ucast ?y :: u8) = ucast (drop_bit 24 x)"
    "(ucast (drop_bit 8 ?y) :: u8) = ucast (drop_bit 16 x)"
    "(ucast (drop_bit 16 ?y) :: u8) = ucast (drop_bit 8 x)"
    "(ucast (drop_bit 24 ?y) :: u8) = ucast x"
    by (rule bit_word_eqI, auto simp: bit_simps dest: bit_imp_le_length)+
  then show ?thesis
    using spiRun_sent(1) [of "setW0 ?y (setDataBits 32 p)" w rs d] assms
      setW0_take(3) [of "setDataBits 32 p" ?y]
    by (simp add: spi_write32_def spi_sent_def be32_def)
qed

end
