(* ===== verification/Sd2Card.thy ===== *)
theory Sd2Card
  imports SpiBus BlockDevice
begin

text \<open>
  The SD card driver, class Sd2Card of SD/src/utility/Sd2Card.h, Sd2Card.cpp and
  SdInfo.h, in its ESP8266 build (\<open>USE_SPI_LIB\<close> and \<open>ESP8266\<close> defined).  The state is the
  object, the static \<open>chip_select_asserted\<close>, and the SPI bus.  The polling loops are
  bounded by \<open>millis()\<close> alone, so a method that polls is partial: \<open>None\<close> when the
  clock never lets the loop end.  Clock rate settings and \<open>optimistic_yield\<close> have no
  effect on the values and are left out.
\<close>

section \<open>State and constants\<close>

record 'd sd2card =
  spi :: "'d spi"
  chip_select_asserted :: bool
  curBlock :: u32
  chipSelectPin :: u8
  errorCode :: u8
  inBlock :: bool
  curOffset :: u16
  partialRead :: u8
  status :: u8
  ctype :: u8

definition sd2card_new :: "'d \<Rightarrow> 'd sd2card" where
  "sd2card_new d =
     \<lparr> spi = spi_new d, chip_select_asserted = False, curBlock = 0, chipSelectPin = 0,
       errorCode = 0, inBlock = False, curOffset = 0, partialRead = 0, status = 0, ctype = 0 \<rparr>"

definition SD_INIT_TIMEOUT :: u16 where [simp]: "SD_INIT_TIMEOUT = 2000"
definition SD_ERASE_TIMEOUT :: u16 where [simp]: "SD_ERASE_TIMEOUT = 10000"
definition SD_READ_TIMEOUT :: u16 where [simp]: "SD_READ_TIMEOUT = 300"
definition SD_WRITE_TIMEOUT :: u16 where [simp]: "SD_WRITE_TIMEOUT = 600"

definition SD_CARD_ERROR_CMD0 :: u8 where [simp]: "SD_CARD_ERROR_CMD0 = 0x1"
definition SD_CARD_ERROR_CMD8 :: u8 where [simp]: "SD_CARD_ERROR_CMD8 = 0x2"
definition SD_CARD_ERROR_CMD17 :: u8 where [simp]: "SD_CARD_ERROR_CMD17 = 0x3"
definition SD_CARD_ERROR_CMD24 :: u8 where [simp]: "SD_CARD_ERROR_CMD24 = 0x4"
definition SD_CARD_ERROR_CMD25 :: u8 where [simp]: "SD_CARD_ERROR_CMD25 = 0x5"
definition SD_CARD_ERROR_CMD58 :: u8 where [simp]: "SD_CARD_ERROR_CMD58 = 0x6"
definition SD_CARD_ERROR_ACMD23 :: u8 where [simp]: "SD_CARD_ERROR_ACMD23 = 0x7"
definition SD_CARD_ERROR_ACMD41 :: u8 where [simp]: "SD_CARD_ERROR_ACMD41 = 0x8"
definition SD_CARD_ERROR_BAD_CSD :: u8 where [simp]: "SD_CARD_ERROR_BAD_CSD = 0x9"
definition SD_CARD_ERROR_ERASE :: u8 where [simp]: "SD_CARD_ERROR_ERASE = 0xA"
definition SD_CARD_ERROR_ERASE_SINGLE_BLOCK :: u8 where
  [simp]: "SD_CARD_ERROR_ERASE_SINGLE_BLOCK = 0xB"
definition SD_CARD_ERROR_ERASE_TIMEOUT :: u8 where [simp]: "SD_CARD_ERROR_ERASE_TIMEOUT = 0xC"
definition SD_CARD_ERROR_READ :: u8 where [simp]: "SD_CARD_ERROR_READ = 0xD"
definition SD_CARD_ERROR_READ_REG :: u8 where [simp]: "SD_CARD_ERROR_READ_REG = 0xE"
definition SD_CARD_ERROR_READ_TIMEOUT :: u8 where [simp]: "SD_CARD_ERROR_READ_TIMEOUT = 0xF"
definition SD_CARD_ERROR_STOP_TRAN :: u8 where [simp]: "SD_CARD_ERROR_STOP_TRAN = 0x10"
definition SD_CARD_ERROR_WRITE :: u8 where [simp]: "SD_CARD_ERROR_WRITE = 0x11"
definition SD_CARD_ERROR_WRITE_BLOCK_ZERO :: u8 where
  [simp]: "SD_CARD_ERROR_WRITE_BLOCK_ZERO = 0x12"
definition SD_CARD_ERROR_WRITE_MULTIPLE :: u8 where [simp]: "SD_CARD_ERROR_WRITE_MULTIPLE = 0x13"
definition SD_CARD_ERROR_WRITE_PROGRAMMING :: u8 where
  [simp]: "SD_CARD_ERROR_WRITE_PROGRAMMING = 0x14"
definition SD_CARD_ERROR_WRITE_TIMEOUT :: u8 where [simp]: "SD_CARD_ERROR_WRITE_TIMEOUT = 0x15"

definition SD_CARD_TYPE_SD1 :: u8 where [simp]: "SD_CARD_TYPE_SD1 = 1"
definition SD_CARD_TYPE_SD2 :: u8 where [simp]: "SD_CARD_TYPE_SD2 = 2"
definition SD_CARD_TYPE_SDHC :: u8 where [simp]: "SD_CARD_TYPE_SDHC = 3"

definition CMD0 :: u8 where [simp]: "CMD0 = 0x00"
definition CMD8 :: u8 where [simp]: "CMD8 = 0x08"
definition CMD9 :: u8 where [simp]: "CMD9 = 0x09"
definition CMD10 :: u8 where [simp]: "CMD10 = 0x0A"
definition CMD13 :: u8 where [simp]: "CMD13 = 0x0D"
definition CMD17 :: u8 where [simp]: "CMD17 = 0x11"
definition CMD24 :: u8 where [simp]: "CMD24 = 0x18"
definition CMD25 :: u8 where [simp]: "CMD25 = 0x19"
definition CMD32 :: u8 where [simp]: "CMD32 = 0x20"
definition CMD33 :: u8 where [simp]: "CMD33 = 0x21"
definition CMD38 :: u8 where [simp]: "CMD38 = 0x26"
definition CMD55 :: u8 where [simp]: "CMD55 = 0x37"
definition CMD58 :: u8 where [simp]: "CMD58 = 0x3A"
definition ACMD23 :: u8 where [simp]: "ACMD23 = 0x17"
definition ACMD41 :: u8 where [simp]: "ACMD41 = 0x29"
definition R1_READY_STATE :: u8 where [simp]: "R1_READY_STATE = 0x00"
definition R1_IDLE_STATE :: u8 where [simp]: "R1_IDLE_STATE = 0x01"
definition R1_ILLEGAL_COMMAND :: u8 where [simp]: "R1_ILLEGAL_COMMAND = 0x04"
definition DATA_START_BLOCK :: u8 where [simp]: "DATA_START_BLOCK = 0xFE"
definition STOP_TRAN_TOKEN :: u8 where [simp]: "STOP_TRAN_TOKEN = 0xFD"
definition WRITE_MULTIPLE_TOKEN :: u8 where [simp]: "WRITE_MULTIPLE_TOKEN = 0xFC"
definition DATA_RES_MASK :: u8 where [simp]: "DATA_RES_MASK = 0x1F"
definition DATA_RES_ACCEPTED :: u8 where [simp]: "DATA_RES_ACCEPTED = 0x05"

section \<open>The bus\<close>

definition spiSend :: "'d wire \<Rightarrow> u8 \<Rightarrow> 'd sd2card \<Rightarrow> 'd sd2card" where
  "spiSend w b c = c\<lparr>spi := spi_write w b (spi c)\<rparr>"

definition spiRec :: "'d wire \<Rightarrow> 'd sd2card \<Rightarrow> u8 \<times> 'd sd2card" where
  "spiRec w c = (case spi_transfer w 0xFF (spi c) of (b, p) \<Rightarrow> (b, c\<lparr>spi := p\<rparr>))"

text \<open>\<open>SPI.transferBytes(NULL, dst, n)\<close>, \<open>dst\<close> null or not.\<close>

definition spiRecBytes :: "'d wire \<Rightarrow> nat \<Rightarrow> 'd sd2card \<Rightarrow> u8 list \<times> 'd sd2card" where
  "spiRecBytes w n c = (case spi_transferBytes w None n (spi c) of (bs, p) \<Rightarrow> (bs, c\<lparr>spi := p\<rparr>))"

text \<open>\<open>(uint16_t)millis()\<close>\<close>

definition millis16 :: "'d wire \<Rightarrow> 'd sd2card \<Rightarrow> u16 \<times> 'd sd2card" where
  "millis16 w c =
     (case millis w (dev (spi c)) of (t, d) \<Rightarrow> (ucast t, c\<lparr>spi := (spi c)\<lparr>dev := d\<rparr>\<rparr>))"

definition selectPin :: "'d wire \<Rightarrow> bool \<Rightarrow> 'd sd2card \<Rightarrow> 'd sd2card" where
  "selectPin w level c =
     c\<lparr>spi := (spi c)\<lparr>dev := digitalWrite w (chipSelectPin c) level (dev (spi c))\<rparr>\<rparr>"

definition chipSelectHigh :: "'d wire \<Rightarrow> 'd sd2card \<Rightarrow> 'd sd2card" where
  "chipSelectHigh w c =
     (let c = selectPin w True c
      in if chip_select_asserted c then c\<lparr>chip_select_asserted := False\<rparr> else c)"

definition chipSelectLow :: "'d wire \<Rightarrow> 'd sd2card \<Rightarrow> 'd sd2card" where
  "chipSelectLow w c =
     (let c = (if \<not> chip_select_asserted c then c\<lparr>chip_select_asserted := True\<rparr> else c)
      in selectPin w False c)"

definition error :: "u8 \<Rightarrow> 'd sd2card \<Rightarrow> 'd sd2card" where
  "error code c = c\<lparr>errorCode := code\<rparr>"

definition fail :: "'d wire \<Rightarrow> 'd sd2card \<Rightarrow> bool \<times> 'd sd2card" where
  "fail w c = (False, chipSelectHigh w c)"

section \<open>Waiting\<close>

text \<open>
  The times are \<open>uint16_t\<close>, but their difference is computed as a signed \<open>int\<close>:
  \<open>((uint16_t)millis() - t0) < timeoutMillis\<close>.
\<close>

definition elapsed :: "u16 \<Rightarrow> u16 \<Rightarrow> int" where
  "elapsed t t0 = int (unat t) - int (unat t0)"

partial_function (option) notBusyLoop ::
  "'d wire \<Rightarrow> u16 \<Rightarrow> u16 \<Rightarrow> 'd sd2card \<Rightarrow> (bool \<times> 'd sd2card) option" where
  "notBusyLoop w t0 timeout c =
     (case spiRec w c of (b, c) \<Rightarrow>
        if b = 0xFF then Some (True, c)
        else
          case millis16 w c of (t, c) \<Rightarrow>
            if elapsed t t0 < int (unat timeout) then notBusyLoop w t0 timeout c
            else Some (False, c))"

definition waitNotBusy :: "'d wire \<Rightarrow> u16 \<Rightarrow> 'd sd2card \<Rightarrow> (bool \<times> 'd sd2card) option" where
  "waitNotBusy w timeout c = (case millis16 w c of (t0, c) \<Rightarrow> notBusyLoop w t0 timeout c)"

partial_function (option) startLoop ::
  "'d wire \<Rightarrow> u16 \<Rightarrow> 'd sd2card \<Rightarrow> (bool \<times> 'd sd2card) option" where
  "startLoop w t0 c =
     (case spiRec w c of (b, c) \<Rightarrow>
        let c = c\<lparr>status := b\<rparr> in
        if b = 0xFF then
          case millis16 w c of (t, c) \<Rightarrow>
            if elapsed t t0 > int (unat SD_READ_TIMEOUT)
            then Some (fail w (error SD_CARD_ERROR_READ_TIMEOUT c))
            else startLoop w t0 c
        else if b \<noteq> DATA_START_BLOCK then Some (fail w (error SD_CARD_ERROR_READ c))
        else Some (True, c))"

definition waitStartBlock :: "'d wire \<Rightarrow> 'd sd2card \<Rightarrow> (bool \<times> 'd sd2card) option" where
  "waitStartBlock w c = (case millis16 w c of (t0, c) \<Rightarrow> startLoop w t0 c)"

section \<open>Commands\<close>

definition readEnd :: "'d wire \<Rightarrow> 'd sd2card \<Rightarrow> 'd sd2card" where
  "readEnd w c =
     (if inBlock c then
        case spiRecBytes w (unat (514 - ucast (curOffset c) :: u32)) c of (bs, c) \<Rightarrow>
          (chipSelectHigh w c)\<lparr>inBlock := False\<rparr>
      else c)"

text \<open>\<open>for (uint8_t i = 0; ((status_ = spiRec()) & 0x80) && i != 0xFF; i++);\<close>\<close>

function responseLoop :: "'d wire \<Rightarrow> u8 \<Rightarrow> 'd sd2card \<Rightarrow> 'd sd2card" where
  "responseLoop w i c =
     (case spiRec w c of (b, c) \<Rightarrow>
        let c = c\<lparr>status := b\<rparr>
        in if b AND 0x80 \<noteq> 0 \<and> i \<noteq> 0xFF then responseLoop w (i + 1) c else c)"
  by pat_completeness auto
termination
proof (relation "measure (\<lambda>(w, i, c). 255 - unat i)", goal_cases)
  case 1
  show ?case by simp
next
  case (2 w i c b c1 c2)
  then have "unat i \<noteq> 255" by (auto simp: word_unat_eq_iff)
  moreover have "unat i < 256" using unsigned_less [of i] by simp
  ultimately have "unat i + 1 < 2 ^ LENGTH(8)" by simp
  from unat_Suc_small [OF this] this show ?case by simp
qed

declare responseLoop.simps [simp del]

definition cardCommand :: "'d wire \<Rightarrow> u8 \<Rightarrow> u32 \<Rightarrow> 'd sd2card \<Rightarrow> (u8 \<times> 'd sd2card) option" where
  "cardCommand w cmd arg c =
     (let c = chipSelectLow w (readEnd w c) in do {
        (ok, c) \<leftarrow> waitNotBusy w 300 c;
        let c = spiSend w (cmd OR 0x40) c;
            c = c\<lparr>spi := spi_write32 w arg True (spi c)\<rparr>;
            crc = (if cmd = CMD8 then 0x87 else if cmd = CMD0 then 0x95 else 0xFF);
            c = spiSend w crc c;
            c = responseLoop w 0 c
        in Some (status c, c) })"

definition cardAcmd :: "'d wire \<Rightarrow> u8 \<Rightarrow> u32 \<Rightarrow> 'd sd2card \<Rightarrow> (u8 \<times> 'd sd2card) option" where
  "cardAcmd w cmd arg c = do {
     (r, c) \<leftarrow> cardCommand w CMD55 0 c;
     cardCommand w cmd arg c }"

section \<open>Reading\<close>

definition readData ::
  "'d wire \<Rightarrow> u32 \<Rightarrow> u16 \<Rightarrow> u16 \<Rightarrow> 'd sd2card \<Rightarrow> (u8 list option \<times> 'd sd2card) option" where
  "readData w block offset count c =
     (if count = 0 then Some (Some [], c)
      else if unat count + unat offset > 512 then Some (None, chipSelectHigh w c)
      else do {
        (ok, c) \<leftarrow>
          (if \<not> inBlock c \<or> block \<noteq> curBlock c \<or> offset < curOffset c then
             let c = c\<lparr>curBlock := block\<rparr>;
                 addr = (if ctype c \<noteq> SD_CARD_TYPE_SDHC then push_bit 9 block else block)
             in do {
               (r, c) \<leftarrow> cardCommand w CMD17 addr c;
               if r \<noteq> 0 then Some (False, error SD_CARD_ERROR_CMD17 c)
               else do {
                 (ok, c) \<leftarrow> waitStartBlock w c;
                 Some (ok, if ok then c\<lparr>curOffset := 0, inBlock := True\<rparr> else c) } }
           else Some (True, c));
        if \<not> ok then Some (None, chipSelectHigh w c)
        else
          case spiRecBytes w (unat (curOffset c)) c of (skipped, c) \<Rightarrow>
          case spiRecBytes w (unat count) c of (dst, c) \<Rightarrow>
            let c = c\<lparr>curOffset := curOffset c + count\<rparr>;
                c = (if partialRead c = 0 \<or> curOffset c \<ge> 512 then readEnd w c else c)
            in Some (Some dst, c) })"

definition readBlock :: "'d wire \<Rightarrow> u32 \<Rightarrow> 'd sd2card \<Rightarrow> (u8 list option \<times> 'd sd2card) option" where
  "readBlock w block c = readData w block 0 512 c"

definition partialBlockRead :: "'d wire \<Rightarrow> u8 \<Rightarrow> 'd sd2card \<Rightarrow> 'd sd2card" where
  "partialBlockRead w val c = (readEnd w c)\<lparr>partialRead := val\<rparr>"

definition readRegister :: "'d wire \<Rightarrow> u8 \<Rightarrow> 'd sd2card \<Rightarrow> (u8 list option \<times> 'd sd2card) option" where
  "readRegister w cmd c = do {
     (r, c) \<leftarrow> cardCommand w cmd 0 c;
     if r \<noteq> 0 then Some (None, chipSelectHigh w (error SD_CARD_ERROR_READ_REG c))
     else do {
       (ok, c) \<leftarrow> waitStartBlock w c;
       if \<not> ok then Some (None, chipSelectHigh w c)
       else
         case spiRecBytes w 16 c of (bs, c) \<Rightarrow>
         case spiRec w c of (crc1, c) \<Rightarrow>
         case spiRec w c of (crc2, c) \<Rightarrow> Some (Some bs, chipSelectHigh w c) } }"

definition readCSD :: "'d wire \<Rightarrow> 'd sd2card \<Rightarrow> (u8 list option \<times> 'd sd2card) option" where
  "readCSD w c = readRegister w CMD9 c"

definition readCID :: "'d wire \<Rightarrow> 'd sd2card \<Rightarrow> (u8 list option \<times> 'd sd2card) option" where
  "readCID w c = readRegister w CMD10 c"

section \<open>The card's registers\<close>

text \<open>The fields of csd_t that the driver uses, in the layouts of version 1 and 2.\<close>

definition csd_ver :: "u8 list \<Rightarrow> u8" where "csd_ver csd = drop_bit 6 (csd ! 0)"
definition v1_read_bl_len :: "u8 list \<Rightarrow> u8" where "v1_read_bl_len csd = csd ! 5 AND 0xF"
definition v1_c_size_high :: "u8 list \<Rightarrow> u8" where "v1_c_size_high csd = csd ! 6 AND 0x3"
definition v1_c_size_mid :: "u8 list \<Rightarrow> u8" where "v1_c_size_mid csd = csd ! 7"
definition v1_c_size_low :: "u8 list \<Rightarrow> u8" where "v1_c_size_low csd = drop_bit 6 (csd ! 8)"
definition v1_c_size_mult_high :: "u8 list \<Rightarrow> u8" where "v1_c_size_mult_high csd = csd ! 9 AND 0x3"
definition v1_c_size_mult_low :: "u8 list \<Rightarrow> u8" where
  "v1_c_size_mult_low csd = drop_bit 7 (csd ! 10)"
definition v1_erase_blk_en :: "u8 list \<Rightarrow> u8" where
  "v1_erase_blk_en csd = drop_bit 6 (csd ! 10) AND 1"
definition v2_c_size_high :: "u8 list \<Rightarrow> u8" where "v2_c_size_high csd = drop_bit 2 (csd ! 7)"
definition v2_c_size_mid :: "u8 list \<Rightarrow> u8" where "v2_c_size_mid csd = csd ! 8"
definition v2_c_size_low :: "u8 list \<Rightarrow> u8" where "v2_c_size_low csd = csd ! 9"

text \<open>The number of blocks by the register, \<open>None\<close> for an unknown version.\<close>

definition csdSize :: "u8 list \<Rightarrow> u32 option" where
  "csdSize csd =
     (if csd_ver csd = 0 then
        let c_size = push_bit 10 (ucast (v1_c_size_high csd)) OR push_bit 2 (ucast (v1_c_size_mid csd))
                     OR ucast (v1_c_size_low csd) :: u16;
            c_size_mult = push_bit 1 (v1_c_size_mult_high csd) OR v1_c_size_mult_low csd
        in Some (push_bit (unat c_size_mult + unat (v1_read_bl_len csd) - 7) (ucast c_size + 1))
      else if csd_ver csd = 1 then
        let c_size = push_bit 16 (ucast (v2_c_size_high csd)) OR push_bit 8 (ucast (v2_c_size_mid csd))
                     OR ucast (v2_c_size_low csd) :: u32
        in Some (push_bit 10 (c_size + 1))
      else None)"

definition cardSize :: "'d wire \<Rightarrow> 'd sd2card \<Rightarrow> (u32 \<times> 'd sd2card) option" where
  "cardSize w c = do {
     (r, c) \<leftarrow> readCSD w c;
     Some (case r of
             None \<Rightarrow> (0, c)
           | Some csd \<Rightarrow>
               case csdSize csd of
                 None \<Rightarrow> (0, error SD_CARD_ERROR_BAD_CSD c)
               | Some n \<Rightarrow> (n, c)) }"

definition eraseSingleBlockEnable :: "'d wire \<Rightarrow> 'd sd2card \<Rightarrow> (bool \<times> 'd sd2card) option" where
  "eraseSingleBlockEnable w c = do {
     (r, c) \<leftarrow> readCSD w c;
     Some (case r of None \<Rightarrow> False | Some csd \<Rightarrow> v1_erase_blk_en csd \<noteq> 0, c) }"

section \<open>Writing\<close>

definition writeDataToken ::
  "'d wire \<Rightarrow> u8 \<Rightarrow> u8 list \<Rightarrow> 'd sd2card \<Rightarrow> bool \<times> 'd sd2card" where
  "writeDataToken w token src c =
     (let c = spiSend w token c;
          c = c\<lparr>spi := spi_writeBytes w src 512 (spi c)\<rparr>;
          c = c\<lparr>spi := spi_write16 w 0xFFFF True (spi c)\<rparr>
      in case spiRec w c of (b, c) \<Rightarrow>
           let c = c\<lparr>status := b\<rparr>
           in if b AND DATA_RES_MASK \<noteq> DATA_RES_ACCEPTED
              then fail w (error SD_CARD_ERROR_WRITE c) else (True, c))"

definition writeBlock :: "'d wire \<Rightarrow> u32 \<Rightarrow> u8 list \<Rightarrow> 'd sd2card \<Rightarrow> (bool \<times> 'd sd2card) option" where
  "writeBlock w blockNumber src c =
     (if blockNumber = 0 then Some (fail w (error SD_CARD_ERROR_WRITE_BLOCK_ZERO c))
      else
        let addr = (if ctype c \<noteq> SD_CARD_TYPE_SDHC then push_bit 9 blockNumber else blockNumber) in do {
          (r, c) \<leftarrow> cardCommand w CMD24 addr c;
          if r \<noteq> 0 then Some (fail w (error SD_CARD_ERROR_CMD24 c))
          else
            case writeDataToken w DATA_START_BLOCK src c of (ok, c) \<Rightarrow>
            if \<not> ok then Some (fail w c)
            else do {
              (ok, c) \<leftarrow> waitNotBusy w SD_WRITE_TIMEOUT c;
              if \<not> ok then Some (fail w (error SD_CARD_ERROR_WRITE_TIMEOUT c))
              else do {
                (r, c) \<leftarrow> cardCommand w CMD13 0 c;
                (case (if r \<noteq> 0 then (r, c) else spiRec w c) of (r, c) \<Rightarrow>
                   if r \<noteq> 0 then Some (fail w (error SD_CARD_ERROR_WRITE_PROGRAMMING c))
                   else Some (True, chipSelectHigh w c)) } } })"

definition writeStart :: "'d wire \<Rightarrow> u32 \<Rightarrow> u32 \<Rightarrow> 'd sd2card \<Rightarrow> (bool \<times> 'd sd2card) option" where
  "writeStart w blockNumber eraseCount c =
     (if blockNumber = 0 then Some (fail w (error SD_CARD_ERROR_WRITE_BLOCK_ZERO c))
      else do {
        (r, c) \<leftarrow> cardAcmd w ACMD23 eraseCount c;
        if r \<noteq> 0 then Some (fail w (error SD_CARD_ERROR_ACMD23 c))
        else
          let addr = (if ctype c \<noteq> SD_CARD_TYPE_SDHC then push_bit 9 blockNumber else blockNumber)
          in do {
            (r, c) \<leftarrow> cardCommand w CMD25 addr c;
            if r \<noteq> 0 then Some (fail w (error SD_CARD_ERROR_CMD25 c)) else Some (True, c) } })"

text \<open>\<open>writeData(src)\<close>, one block of a multiple block write.\<close>

definition writeData :: "'d wire \<Rightarrow> u8 list \<Rightarrow> 'd sd2card \<Rightarrow> (bool \<times> 'd sd2card) option" where
  "writeData w src c = do {
     (ok, c) \<leftarrow> waitNotBusy w SD_WRITE_TIMEOUT c;
     Some (if \<not> ok then fail w (error SD_CARD_ERROR_WRITE_MULTIPLE c)
           else writeDataToken w WRITE_MULTIPLE_TOKEN src c) }"

definition writeStop :: "'d wire \<Rightarrow> 'd sd2card \<Rightarrow> (bool \<times> 'd sd2card) option" where
  "writeStop w c = do {
     (ok, c) \<leftarrow> waitNotBusy w SD_WRITE_TIMEOUT c;
     if \<not> ok then Some (fail w (error SD_CARD_ERROR_STOP_TRAN c))
     else do {
       (ok, c) \<leftarrow> waitNotBusy w SD_WRITE_TIMEOUT (spiSend w STOP_TRAN_TOKEN c);
       if \<not> ok then Some (fail w (error SD_CARD_ERROR_STOP_TRAN c))
       else Some (True, chipSelectHigh w c) } }"

text \<open>The three commands of an erase, in the order of the \<open>||\<close>.\<close>

definition eraseCommands ::
  "'d wire \<Rightarrow> u32 \<Rightarrow> u32 \<Rightarrow> 'd sd2card \<Rightarrow> (bool \<times> 'd sd2card) option" where
  "eraseCommands w firstBlock lastBlock c = do {
     (r, c) \<leftarrow> cardCommand w CMD32 firstBlock c;
     if r \<noteq> 0 then Some (False, c)
     else do {
       (r, c) \<leftarrow> cardCommand w CMD33 lastBlock c;
       if r \<noteq> 0 then Some (False, c)
       else do {
         (r, c) \<leftarrow> cardCommand w CMD38 0 c;
         Some (r = 0, c) } } }"

definition erase :: "'d wire \<Rightarrow> u32 \<Rightarrow> u32 \<Rightarrow> 'd sd2card \<Rightarrow> (bool \<times> 'd sd2card) option" where
  "erase w firstBlock lastBlock c = do {
     (ok, c) \<leftarrow> eraseSingleBlockEnable w c;
     if \<not> ok then Some (fail w (error SD_CARD_ERROR_ERASE_SINGLE_BLOCK c))
     else
       let sh = (\<lambda>b. if ctype c \<noteq> SD_CARD_TYPE_SDHC then push_bit 9 b else b) in do {
         (ok, c) \<leftarrow> eraseCommands w (sh firstBlock) (sh lastBlock) c;
         if \<not> ok then Some (fail w (error SD_CARD_ERROR_ERASE c))
         else do {
           (ok, c) \<leftarrow> waitNotBusy w SD_ERASE_TIMEOUT c;
           if \<not> ok then Some (fail w (error SD_CARD_ERROR_ERASE_TIMEOUT c))
           else Some (True, chipSelectHigh w c) } } }"

section \<open>Initialisation\<close>

text \<open>Here the time difference is cast back to \<open>uint16_t\<close> before the comparison.\<close>

partial_function (option) idleLoop ::
  "'d wire \<Rightarrow> u16 \<Rightarrow> 'd sd2card \<Rightarrow> (bool \<times> 'd sd2card) option" where
  "idleLoop w t0 c = do {
     (r, c) \<leftarrow> cardCommand w CMD0 0 c;
     let c = c\<lparr>status := r\<rparr> in
     if r \<noteq> R1_IDLE_STATE then
       case millis16 w c of (t, c) \<Rightarrow>
         if t - t0 > SD_INIT_TIMEOUT then Some (fail w (error SD_CARD_ERROR_CMD0 c))
         else idleLoop w t0 c
     else Some (True, c) }"

partial_function (option) readyLoop ::
  "'d wire \<Rightarrow> u16 \<Rightarrow> u32 \<Rightarrow> 'd sd2card \<Rightarrow> (bool \<times> 'd sd2card) option" where
  "readyLoop w t0 arg c = do {
     (r, c) \<leftarrow> cardAcmd w ACMD41 arg c;
     let c = c\<lparr>status := r\<rparr> in
     if r \<noteq> R1_READY_STATE then
       case millis16 w c of (t, c) \<Rightarrow>
         if t - t0 > SD_INIT_TIMEOUT then Some (fail w (error SD_CARD_ERROR_ACMD41 c))
         else readyLoop w t0 arg c
     else Some (True, c) }"

fun sendDummies :: "'d wire \<Rightarrow> nat \<Rightarrow> 'd sd2card \<Rightarrow> 'd sd2card" where
  "sendDummies w 0 c = c"
| "sendDummies w (Suc n) c = sendDummies w n (spiSend w 0xFF c)"

fun discard :: "'d wire \<Rightarrow> nat \<Rightarrow> 'd sd2card \<Rightarrow> 'd sd2card" where
  "discard w 0 c = c"
| "discard w (Suc n) c = discard w n (snd (spiRec w c))"

text \<open>CMD8 tells version 2 cards from version 1.\<close>

definition checkVersion :: "'d wire \<Rightarrow> 'd sd2card \<Rightarrow> (bool \<times> 'd sd2card) option" where
  "checkVersion w c = do {
     (r, c) \<leftarrow> cardCommand w CMD8 0x1AA c;
     if r AND R1_ILLEGAL_COMMAND \<noteq> 0 then Some (True, c\<lparr>ctype := SD_CARD_TYPE_SD1\<rparr>)
     else
       case spiRec w (discard w 3 c) of (b, c) \<Rightarrow>
         let c = c\<lparr>status := b\<rparr>
         in if b \<noteq> 0xAA then Some (fail w (error SD_CARD_ERROR_CMD8 c))
            else Some (True, c\<lparr>ctype := SD_CARD_TYPE_SD2\<rparr>) }"

definition checkHighCapacity :: "'d wire \<Rightarrow> 'd sd2card \<Rightarrow> (bool \<times> 'd sd2card) option" where
  "checkHighCapacity w c =
     (if ctype c = SD_CARD_TYPE_SD2 then do {
        (r, c) \<leftarrow> cardCommand w CMD58 0 c;
        if r \<noteq> 0 then Some (fail w (error SD_CARD_ERROR_CMD58 c))
        else
          case spiRec w c of (b, c) \<Rightarrow>
            let c = (if b AND 0xC0 = 0xC0 then c\<lparr>ctype := SD_CARD_TYPE_SDHC\<rparr> else c)
            in Some (True, discard w 3 c) }
      else Some (True, c))"

definition init :: "'d wire \<Rightarrow> u8 \<Rightarrow> 'd sd2card \<Rightarrow> (bool \<times> 'd sd2card) option" where
  "init w pin c =
     (let c = c\<lparr>errorCode := 0, inBlock := False, partialRead := 0, ctype := 0,
                chipSelectPin := pin\<rparr>
      in case millis16 w c of (t0, c) \<Rightarrow>
           let c = chipSelectLow w (sendDummies w 10 (selectPin w True c)) in do {
             (ok, c) \<leftarrow> idleLoop w t0 c;
             if \<not> ok then Some (False, c)
             else do {
               (ok, c) \<leftarrow> checkVersion w c;
               if \<not> ok then Some (False, c)
               else do {
                 (ok, c) \<leftarrow> readyLoop w t0
                   (if ctype c = SD_CARD_TYPE_SD2 then 0x40000000 else 0) c;
                 if \<not> ok then Some (False, c)
                 else do {
                   (ok, c) \<leftarrow> checkHighCapacity w c;
                   Some (if ok then (True, chipSelectHigh w c) else (False, c)) } } } })"

section \<open>The driver as a block device\<close>

text \<open>
  What SdVolume and SdFile call.  The interface is total; a call that never returns
  is given the result of a failure.  The contract below excludes it.
\<close>

definition returned :: "'a \<Rightarrow> 'd sd2card \<Rightarrow> ('a \<times> 'd sd2card) option \<Rightarrow> 'a \<times> 'd sd2card" where
  "returned a c r = (case r of None \<Rightarrow> (a, c) | Some r \<Rightarrow> r)"

definition sd_ops :: "'d wire \<Rightarrow> 'd sd2card card_ops" where
  "sd_ops w =
     \<lparr> card_readBlock = \<lambda>b c. returned None c (readBlock w b c),
       card_readData = \<lambda>b off n c. returned None c (readData w b off n c),
       card_writeBlock = \<lambda>b d c. returned False c (writeBlock w b d c) \<rparr>"

end
