(* ===== verification/SdDriver.thy ===== *)
theory SdDriver
  imports Sd2Card
begin

text \<open>
  The SD card driver against the SPI protocol of an SD card.  The card is not part of
  the sources: what the driver relies on is the locale \<open>sd_bus\<close>, the data transfer part of
  the protocol in the SD specification (commands CMD13, CMD17, CMD24, their responses,
  tokens and the busy signal, with any latency the driver's time limits allow).  Under
  it readBlock, readData and writeBlock are a block device, so all that is proved of
  the file system holds on top of this driver.
\<close>

section \<open>One bus operation of the driver\<close>

text \<open>
  The new driver state differs in the bus, the status byte and the chip select flag
  only, and the device is now \<open>d\<close>.
\<close>

definition on_bus :: "'d sd2card \<Rightarrow> 'd sd2card \<Rightarrow> 'd \<Rightarrow> bool" where
  "on_bus c c' d \<longleftrightarrow> spi_ok (spi c') \<and> dev (spi c') = d \<and>
     c' = c\<lparr>spi := spi c', status := status c', chip_select_asserted := chip_select_asserted c'\<rparr>"

lemma on_busD:
  assumes "on_bus c c' d"
  shows "spi_ok (spi c')" and "dev (spi c') = d" and "inBlock c' = inBlock c"
    and "partialRead c' = partialRead c" and "ctype c' = ctype c" and "curOffset c' = curOffset c"
    and "curBlock c' = curBlock c" and "chipSelectPin c' = chipSelectPin c"
    and "errorCode c' = errorCode c"
proof -
  have e: "c' = c\<lparr>spi := spi c', status := status c', chip_select_asserted := chip_select_asserted c'\<rparr>"
    using assms by (simp add: on_bus_def)
  show "inBlock c' = inBlock c" "partialRead c' = partialRead c" "ctype c' = ctype c"
    "curOffset c' = curOffset c" "curBlock c' = curBlock c" "chipSelectPin c' = chipSelectPin c"
    "errorCode c' = errorCode c"
    by (subst e, simp)+
qed (use assms in \<open>simp_all add: on_bus_def\<close>)

lemma on_bus_trans: "on_bus c c1 d1 \<Longrightarrow> on_bus c1 c2 d2 \<Longrightarrow> on_bus c c2 d2"
  by (cases c, cases c1, cases c2) (auto simp: on_bus_def)

lemma on_bus_refl: "spi_ok (spi c) \<Longrightarrow> on_bus c c (dev (spi c))"
  by (simp add: on_bus_def)

lemma on_bus_status: "on_bus c c' d \<Longrightarrow> on_bus c (c'\<lparr>status := b\<rparr>) d"
  by (cases c, cases c') (auto simp: on_bus_def)

lemma on_bus_spi: "spi_sent p p' d \<Longrightarrow> spi c = p \<Longrightarrow> on_bus c (c\<lparr>spi := p'\<rparr>) d"
  by (simp add: on_bus_def spi_sent_def)

lemma spiRec_bus:
  assumes "spi_ok (spi c)" and "exchange w 0xFF (dev (spi c)) = (r, d)"
  obtains c' where "spiRec w c = (r, c')" and "on_bus c c' d"
proof (cases "spi_transfer w 0xFF (spi c)")
  case (Pair a p)
  then show ?thesis
    using spi_transfer_sent [OF assms] that [of "c\<lparr>spi := p\<rparr>"] on_bus_spi [of "spi c" p d c] by (auto simp: spiRec_def)
qed

lemma spiSend_bus:
  "spi_ok (spi c) \<Longrightarrow> exchange w b (dev (spi c)) = (r, d) \<Longrightarrow> on_bus c (spiSend w b c) d"
  unfolding spiSend_def by (rule on_bus_spi [OF spi_write_sent]) auto

lemma spiRecBytes_bus:
  assumes "spi_ok (spi c)" and "exchanges w (replicate n 0xFF) (dev (spi c)) = (rs, d)"
  obtains c' where "spiRecBytes w n c = (rs, c')" and "on_bus c c' d"
proof (cases "spi_transferBytes w None n (spi c)")
  case (Pair a p)
  then show ?thesis
    using spi_transferBytes_sent [OF assms] that [of "c\<lparr>spi := p\<rparr>"] on_bus_spi [of "spi c" p d c] by (auto simp: spiRecBytes_def)
qed

lemma write32_bus:
  "spi_ok (spi c) \<Longrightarrow> exchanges w (be32 x) (dev (spi c)) = (rs, d) \<Longrightarrow>
    on_bus c (c\<lparr>spi := spi_write32 w x True (spi c)\<rparr>) d"
  by (rule on_bus_spi [OF spi_write32_sent]) auto

lemma write16_bus:
  "spi_ok (spi c) \<Longrightarrow> exchanges w [ucast (drop_bit 8 x), ucast x] (dev (spi c)) = (rs, d) \<Longrightarrow>
    on_bus c (c\<lparr>spi := spi_write16 w x True (spi c)\<rparr>) d"
  by (rule on_bus_spi [OF spi_write16_sent]) auto

lemma writeBytes_bus:
  "spi_ok (spi c) \<Longrightarrow> length src = n \<Longrightarrow> exchanges w src (dev (spi c)) = (rs, d) \<Longrightarrow>
    on_bus c (c\<lparr>spi := spi_writeBytes w src n (spi c)\<rparr>) d"
  by (rule on_bus_spi [OF spi_writeBytes_sent]) auto

lemma chipSelectHigh_bus:
  "spi_ok (spi c) \<Longrightarrow> on_bus c (chipSelectHigh w c) (digitalWrite w (chipSelectPin c) True (dev (spi c)))"
  by (cases c) (auto simp: Let_def on_bus_def chipSelectHigh_def selectPin_def spi_ok_def)

lemma chipSelectLow_bus:
  "spi_ok (spi c) \<Longrightarrow> on_bus c (chipSelectLow w c) (digitalWrite w (chipSelectPin c) False (dev (spi c)))"
  by (cases c) (auto simp: Let_def on_bus_def chipSelectLow_def selectPin_def spi_ok_def)

section \<open>Polling\<close>

text \<open>
  \<open>n\<close> replies that the driver waits through, each at a time that is not too late, and
  then \<open>r\<close>.
\<close>

fun polled ::
  "'d wire \<Rightarrow> (u8 \<Rightarrow> bool) \<Rightarrow> (u16 \<Rightarrow> bool) \<Rightarrow> nat \<Rightarrow> 'd \<Rightarrow> u8 \<Rightarrow> 'd \<Rightarrow> bool" where
  "polled w waiting early 0 d r d' \<longleftrightarrow> exchange w 0xFF d = (r, d') \<and> \<not> waiting r"
| "polled w waiting early (Suc n) d r d' \<longleftrightarrow>
     (\<exists>b d1. exchange w 0xFF d = (b, d1) \<and> waiting b \<and> early (ucast (fst (millis w d1))) \<and>
       polled w waiting early n d1 r d')"

text \<open>The response loop does not look at the clock.\<close>

definition responds :: "'d wire \<Rightarrow> nat \<Rightarrow> 'd \<Rightarrow> u8 \<Rightarrow> 'd \<Rightarrow> bool" where
  "responds w n d r d' \<longleftrightarrow> n \<le> 255 \<and> polled w (\<lambda>b. b AND 0x80 \<noteq> 0) (\<lambda>t. True) n d r d'"

lemma millis16_same:
  "snd (millis w (dev (spi c))) = dev (spi c) \<Longrightarrow>
    millis16 w c = (ucast (fst (millis w (dev (spi c)))), c)"
  by (cases "millis w (dev (spi c))") (simp add: millis16_def)

lemma notBusyLoop_polled:
  assumes clock: "\<And>d. snd (millis w d) = d" and "spi_ok (spi c)"
    and "polled w (\<lambda>b. b \<noteq> 0xFF) (\<lambda>t. elapsed t t0 < int (unat tmo)) n (dev (spi c)) r d"
  shows "\<exists>c'. notBusyLoop w t0 tmo c = Some (True, c') \<and> on_bus c c' d"
  using assms(2,3)
proof (induction n arbitrary: c)
  case 0
  then have r: "r = 0xFF" "exchange w 0xFF (dev (spi c)) = (r, d)" by auto
  obtain c' where "spiRec w c = (r, c')" "on_bus c c' d"
    by (rule spiRec_bus [OF "0.prems"(1) r(2)], rule that)
  then show ?case using r(1) by (subst notBusyLoop.simps) simp
next
  case (Suc n)
  then obtain b d1 where b: "exchange w 0xFF (dev (spi c)) = (b, d1)" "b \<noteq> 0xFF"
      "elapsed (ucast (fst (millis w d1))) t0 < int (unat tmo)"
      "polled w (\<lambda>b. b \<noteq> 0xFF) (\<lambda>t. elapsed t t0 < int (unat tmo)) n d1 r d"
    by auto
  obtain c1 where c1: "spiRec w c = (b, c1)" "on_bus c c1 d1"
    by (rule spiRec_bus [OF Suc.prems(1) b(1)], rule that)
  note o = on_busD [OF c1(2)]
  obtain c' where c': "notBusyLoop w t0 tmo c1 = Some (True, c')" "on_bus c1 c' d"
    using Suc.IH [OF o(1)] b(4) o(2) by auto
  have "notBusyLoop w t0 tmo c = notBusyLoop w t0 tmo c1"
    by (subst notBusyLoop.simps) (use c1(1) b(2,3) o(2) millis16_same [of w c1] clock in simp)
  then show ?case using c'(1) on_bus_trans [OF c1(2) c'(2)] by simp
qed

lemma startLoop_polled:
  assumes clock: "\<And>d. snd (millis w d) = d" and "spi_ok (spi c)"
    and "polled w (\<lambda>b. b = 0xFF) (\<lambda>t. elapsed t t0 \<le> 300) n (dev (spi c)) 0xFE d"
  shows "\<exists>c'. startLoop w t0 c = Some (True, c') \<and> on_bus c c' d"
  using assms(2,3)
proof (induction n arbitrary: c)
  case 0
  then have r: "exchange w 0xFF (dev (spi c)) = (0xFE, d)" by auto
  obtain c' where "spiRec w c = (0xFE, c')" "on_bus c c' d"
    by (rule spiRec_bus [OF "0.prems"(1) r], rule that)
  then show ?case by (subst startLoop.simps) (simp add: Let_def on_bus_status)
next
  case (Suc n)
  then obtain d1 where b: "exchange w 0xFF (dev (spi c)) = (0xFF, d1)"
      "elapsed (ucast (fst (millis w d1))) t0 \<le> 300"
      "polled w (\<lambda>b. b = 0xFF) (\<lambda>t. elapsed t t0 \<le> 300) n d1 0xFE d"
    by auto
  obtain c1 where c1: "spiRec w c = (0xFF, c1)" "on_bus c c1 d1"
    by (rule spiRec_bus [OF Suc.prems(1) b(1)], rule that)
  let ?c1 = "c1\<lparr>status := 0xFF\<rparr>"
  have ob: "on_bus c ?c1 d1" by (rule on_bus_status [OF c1(2)])
  note o = on_busD [OF ob]
  obtain c' where c': "startLoop w t0 ?c1 = Some (True, c')" "on_bus ?c1 c' d"
    using Suc.IH [OF o(1)] b(3) o(2) by auto
  have "startLoop w t0 c = startLoop w t0 ?c1"
    by (subst startLoop.simps) (use c1(1) b(2) o(2) millis16_same [of w ?c1] clock in \<open>simp add: Let_def\<close>)
  then show ?case using c'(1) on_bus_trans [OF ob c'(2)] by simp
qed

lemma responseLoop_polled:
  assumes "spi_ok (spi c)" and "unat i + n \<le> 255"
    and "polled w (\<lambda>b. b AND 0x80 \<noteq> 0) (\<lambda>t. True) n (dev (spi c)) r d"
  shows "on_bus c (responseLoop w i c) d \<and> status (responseLoop w i c) = r"
  using assms
proof (induction n arbitrary: c i)
  case 0
  then have r: "exchange w 0xFF (dev (spi c)) = (r, d)" "r AND 0x80 = 0" by auto
  obtain c' where "spiRec w c = (r, c')" "on_bus c c' d"
    by (rule spiRec_bus [OF "0.prems"(1) r(1)], rule that)
  then show ?case using r(2) by (subst (1 2) responseLoop.simps) (simp add: Let_def on_bus_status)
next
  case (Suc n)
  then obtain b d1 where b: "exchange w 0xFF (dev (spi c)) = (b, d1)" "b AND 0x80 \<noteq> 0"
      "polled w (\<lambda>b. b AND 0x80 \<noteq> 0) (\<lambda>t. True) n d1 r d"
    by auto
  obtain c1 where c1: "spiRec w c = (b, c1)" "on_bus c c1 d1"
    by (rule spiRec_bus [OF Suc.prems(1) b(1)], rule that)
  let ?c1 = "c1\<lparr>status := b\<rparr>"
  have ob: "on_bus c ?c1 d1" by (rule on_bus_status [OF c1(2)])
  note o = on_busD [OF ob]
  have i: "i \<noteq> 0xFF" "unat (i + 1) = unat i + 1"
    using Suc.prems(2) unat_Suc_small [of i] by auto
  have "on_bus ?c1 (responseLoop w (i + 1) ?c1) d \<and> status (responseLoop w (i + 1) ?c1) = r"
    using Suc.IH [OF o(1), of "i + 1"] b(3) o(2) i(2) Suc.prems(2) by simp
  moreover have "responseLoop w i c = responseLoop w (i + 1) ?c1"
    using c1(1) b(2) i(1) by (subst responseLoop.simps) (simp add: Let_def)
  ultimately show ?case using on_bus_trans [OF ob] by simp
qed

section \<open>The card's side of the protocol\<close>

text \<open>The six bytes of a command: index, argument, checksum (which SPI mode ignores).\<close>

definition command :: "u8 \<Rightarrow> u32 \<Rightarrow> u8 list" where
  "command cmd arg = [cmd OR 0x40] @ be32 arg @ [0xFF]"

text \<open>High capacity cards are addressed by blocks, the others by bytes.\<close>

definition block_addr :: "bool \<Rightarrow> u32 \<Rightarrow> u32" where
  "block_addr hc b = (if hc then b else push_bit 9 b)"

text \<open>
  \<open>ready d\<close>: between two commands, perhaps still busy with the last; \<open>free d\<close>: not busy;
  \<open>selected d\<close>: the chip select pin is low; \<open>mem d b\<close>: what block \<open>b\<close> holds.
\<close>

locale sd_bus =
  fixes w :: "'d wire" and hc :: bool and pin :: u8
    and ready :: "'d \<Rightarrow> bool" and free :: "'d \<Rightarrow> bool" and selected :: "'d \<Rightarrow> bool"
    and mem :: "'d \<Rightarrow> u32 \<Rightarrow> u8 list" and lim :: nat
  assumes lim_le: "lim < 2 ^ 32" and lim_std: "\<not> hc \<Longrightarrow> lim \<le> 2 ^ 23"
    and clock: "snd (millis w d) = d"
    and mem_length: "ready d \<Longrightarrow> length (mem d b) = 512"
    and free_ready: "free d \<Longrightarrow> ready d"
    and select_law: "ready d \<Longrightarrow>
      ready (digitalWrite w pin v d) \<and> mem (digitalWrite w pin v d) = mem d"
    and select_low: "ready d \<Longrightarrow> selected (digitalWrite w pin False d)"
    and idle_law: "ready d \<Longrightarrow> selected d \<Longrightarrow>
      \<exists>n d'. polled w (\<lambda>b. b \<noteq> 0xFF) (\<lambda>t. elapsed t (ucast (fst (millis w d))) < 300) n d 0xFF d' \<and>
        free d' \<and> selected d' \<and> mem d' = mem d"
    and read_law: "free d \<Longrightarrow> selected d \<Longrightarrow> unat b < lim \<Longrightarrow>
      \<exists>rs n m d1 d2 d3 d4 crc. exchanges w (command 0x11 (block_addr hc b)) d = (rs, d1) \<and>
        responds w n d1 0 d2 \<and>
        polled w (\<lambda>b. b = 0xFF) (\<lambda>t. elapsed t (ucast (fst (millis w d2))) \<le> 300) m d2 0xFE d3 \<and>
        exchanges w (replicate 514 0xFF) d3 = (mem d b @ crc, d4) \<and> ready d4 \<and> mem d4 = mem d"
    and write_law: "free d \<Longrightarrow> selected d \<Longrightarrow> unat b < lim \<Longrightarrow> length data = 512 \<Longrightarrow>
      \<exists>rs n d1 d2 rs' d3 r d4. exchanges w (command 0x18 (block_addr hc b)) d = (rs, d1) \<and>
        responds w n d1 0 d2 \<and> exchanges w (0xFE # data @ [0xFF, 0xFF]) d2 = (rs', d3) \<and>
        exchange w 0xFF d3 = (r, d4) \<and> r AND 0x1F = 0x05 \<and>
        ready d4 \<and> selected d4 \<and> mem d4 = (mem d)(b := data)"
    and status_law: "free d \<Longrightarrow> selected d \<Longrightarrow>
      \<exists>rs n d1 d2 d3. exchanges w (command 0x0D 0) d = (rs, d1) \<and> responds w n d1 0 d2 \<and>
        exchange w 0xFF d2 = (0, d3) \<and> ready d3 \<and> mem d3 = mem d"

text \<open>The driver states in which such a card is initialised and between two calls.\<close>

definition sd_good :: "bool \<Rightarrow> u8 \<Rightarrow> ('d \<Rightarrow> bool) \<Rightarrow> 'd sd2card \<Rightarrow> bool" where
  "sd_good hc pin ready c \<longleftrightarrow>
     spi_ok (spi c) \<and> ready (dev (spi c)) \<and> \<not> inBlock c \<and> partialRead c = 0 \<and>
     (ctype c = SD_CARD_TYPE_SDHC \<longleftrightarrow> hc) \<and> chipSelectPin c = pin"

definition sd_disk :: "('d \<Rightarrow> u32 \<Rightarrow> u8 list) \<Rightarrow> 'd sd2card \<Rightarrow> u32 \<Rightarrow> u8 list" where
  "sd_disk mem c = mem (dev (spi c))"

lemma exchanges_cons:
  assumes "exchanges w (b # bs) d = (rs, d')"
  obtains r d1 rs' where "exchange w b d = (r, d1)" and "exchanges w bs d1 = (rs', d')"
  using assms by (auto split: prod.splits)

lemma exchanges_app:
  assumes "exchanges w (as @ bs) d = (rs, d')"
  obtains r1 d1 r2 where "exchanges w as d = (r1, d1)" and "exchanges w bs d1 = (r2, d')"
    and "rs = r1 @ r2"
  using assms by (auto simp: exchanges_append split: prod.splits)

context sd_bus
begin

lemma waitNotBusy_ready:
  assumes "spi_ok (spi c)" and "ready (dev (spi c))" and "selected (dev (spi c))" and "300 \<le> tmo"
  obtains c' d where "waitNotBusy w tmo c = Some (True, c')" and "on_bus c c' d"
    and "free d" and "selected d" and "mem d = mem (dev (spi c))"
proof -
  let ?d = "dev (spi c)" and ?t0 = "ucast (fst (millis w (dev (spi c)))) :: u16"
  obtain n d where d: "polled w (\<lambda>b. b \<noteq> 0xFF) (\<lambda>t. elapsed t ?t0 < 300) n ?d 0xFF d"
      "free d" "selected d" "mem d = mem ?d"
    using idle_law [OF assms(2,3)] by blast
  have mono: "polled w P Q n d r d' \<Longrightarrow> (\<And>t. Q t \<Longrightarrow> Q' t) \<Longrightarrow> polled w P Q' n d r d'" for P Q Q' n d r d'
    by (induction n arbitrary: d) auto
  have "300 \<le> unat tmo" using assms(4) by (simp add: word_le_nat_alt)
  then have "300 \<le> int (unat tmo)" by linarith
  then have "polled w (\<lambda>b. b \<noteq> 0xFF) (\<lambda>t. elapsed t ?t0 < int (unat tmo)) n ?d 0xFF d"
    by (intro mono [OF d(1)]) simp
  then obtain c' where "notBusyLoop w ?t0 tmo c = Some (True, c')" "on_bus c c' d"
    using notBusyLoop_polled [OF clock assms(1)] by blast
  then show ?thesis
    using d(2-4) millis16_same [of w c] clock by (intro that [of c' d]) (simp_all add: waitNotBusy_def)
qed

lemma cardCommand_law:
  assumes c: "spi_ok (spi c)" "ready (dev (spi c))" "\<not> inBlock c" "chipSelectPin c = pin"
    and cmd: "cmd \<noteq> 0" "cmd \<noteq> 8"
    and P: "\<And>d. free d \<Longrightarrow> selected d \<Longrightarrow> mem d = mem (dev (spi c)) \<Longrightarrow>
      \<exists>rs n d1 d2. exchanges w (command cmd arg) d = (rs, d1) \<and> responds w n d1 r d2 \<and> P d2"
  obtains c' d where "cardCommand w cmd arg c = Some (r, c')" and "on_bus c c' d" and "P d"
proof -
  let ?c1 = "chipSelectLow w c"
  have o1: "on_bus c ?c1 (digitalWrite w pin False (dev (spi c)))"
    using chipSelectLow_bus [OF c(1), of w] c(4) by simp
  note d1 = on_busD(1,2) [OF o1]
  obtain c2 d2 where w2: "waitNotBusy w 300 ?c1 = Some (True, c2)" "on_bus ?c1 c2 d2"
      "free d2" "selected d2" "mem d2 = mem (dev (spi c))"
    by (rule waitNotBusy_ready [of ?c1 300])
      (use d1 select_law [OF c(2)] select_low [OF c(2)] in auto)
  note b2 = on_busD(1,2) [OF w2(2)]
  obtain rs n e1 e2 where x: "exchanges w (command cmd arg) d2 = (rs, e1)" "responds w n e1 r e2" "P e2"
    using P [OF w2(3-5)] by blast
  obtain r0 f1 rs1 where x1: "exchange w (cmd OR 0x40) d2 = (r0, f1)" "exchanges w (be32 arg @ [0xFF]) f1 = (rs1, e1)"
    using x(1) by (auto simp: command_def split: prod.splits)
  obtain r1 f2 r2 where x2: "exchanges w (be32 arg) f1 = (r1, f2)" "exchanges w [0xFF] f2 = (r2, e1)"
    using x1(2) by (elim exchanges_app)
  have x3: "exchange w 0xFF f2 = (hd r2, e1)" using x2(2) by (auto split: prod.splits)
  let ?c3 = "spiSend w (cmd OR 0x40) c2"
  have o3: "on_bus c2 ?c3 f1" using spiSend_bus [OF b2(1)] b2(2) x1(1) by simp
  note b3 = on_busD(1,2) [OF o3]
  let ?c4 = "?c3\<lparr>spi := spi_write32 w arg True (spi ?c3)\<rparr>"
  have o4: "on_bus ?c3 ?c4 f2" using write32_bus [OF b3(1)] b3(2) x2(1) by simp
  note b4 = on_busD(1,2) [OF o4]
  let ?c5 = "spiSend w 0xFF ?c4"
  have o5: "on_bus ?c4 ?c5 e1" using spiSend_bus [OF b4(1)] b4(2) x3 by simp
  note b5 = on_busD(1,2) [OF o5]
  let ?c6 = "responseLoop w 0 ?c5"
  have o6: "on_bus ?c5 ?c6 e2" "status ?c6 = r"
    using responseLoop_polled [OF b5(1), of 0 n w r e2] x(2) b5(2) by (auto simp: responds_def)
  have run: "cardCommand w cmd arg c = Some (r, ?c6)"
    using c(3) w2(1) cmd o6(2) by (simp add: cardCommand_def readEnd_def Let_def)
  have ob: "on_bus c ?c6 e2"
    by (rule on_bus_trans [OF on_bus_trans [OF on_bus_trans [OF on_bus_trans [OF on_bus_trans
          [OF o1 w2(2)] o3] o4] o5] o6(1)])
  show ?thesis by (rule that [OF run ob x(3)])
qed

lemma card_addr:
  "(if ctype c \<noteq> SD_CARD_TYPE_SDHC then push_bit 9 b else b) = block_addr (ctype c = SD_CARD_TYPE_SDHC) b"
  by (simp add: block_addr_def)

lemma readData_law:
  assumes c: "sd_good hc pin ready c" and b: "unat b < lim" and n: "count \<le> 512"
  obtains c' where "readData w b 0 count c = Some (Some (take (unat count) (sd_disk mem c b)), c')"
    and "sd_good hc pin ready c'" and "sd_disk mem c' = sd_disk mem c"
proof (cases "count = 0")
  case True
  then show ?thesis using c by (intro that [of c]) (simp_all add: readData_def)
next
  case False
  have n512: "unat count \<le> 512" using n by (simp add: word_le_nat_alt)
  have g: "spi_ok (spi c)" "ready (dev (spi c))" "\<not> inBlock c" "partialRead c = 0"
      "ctype c = SD_CARD_TYPE_SDHC \<longleftrightarrow> hc" "chipSelectPin c = pin"
    using c by (simp_all add: sd_good_def)
  let ?M = "mem (dev (spi c))" and ?c0 = "c\<lparr>curBlock := b\<rparr>"
  let ?P = "\<lambda>d2. \<exists>m d3 d4 crc.
        polled w (\<lambda>b. b = 0xFF) (\<lambda>t. elapsed t (ucast (fst (millis w d2))) \<le> 300) m d2 0xFE d3 \<and>
        exchanges w (replicate 514 0xFF) d3 = (?M b @ crc, d4) \<and> ready d4 \<and> mem d4 = ?M"
  have g0: "spi_ok (spi ?c0)" "ready (dev (spi ?c0))" "\<not> inBlock ?c0" "chipSelectPin ?c0 = pin"
    using g by simp_all
  have cl: "\<exists>rs n d1 d2. exchanges w (command 0x11 (block_addr hc b)) d = (rs, d1) \<and> responds w n d1 0 d2 \<and> ?P d2"
    if "free d" "selected d" "mem d = mem (dev (spi ?c0))" for d
    using read_law [OF that(1,2) b] that(3) by simp blast
  obtain c1 d where c1: "cardCommand w 0x11 (block_addr hc b) ?c0 = Some (0, c1)" "on_bus ?c0 c1 d" "?P d"
    by (rule cardCommand_law [OF g0 _ _ cl], simp, simp, assumption, assumption, assumption, rule that)
  note o1 = on_busD [OF c1(2)]
  obtain m d3 d4 crc where x: "polled w (\<lambda>b. b = 0xFF) (\<lambda>t. elapsed t (ucast (fst (millis w d))) \<le> 300) m d 0xFE d3"
      "exchanges w (replicate 514 0xFF) d3 = (?M b @ crc, d4)" "ready d4" "mem d4 = ?M"
    using c1(3) by blast
  have x1: "polled w (\<lambda>b. b = 0xFF) (\<lambda>t. elapsed t (ucast (fst (millis w (dev (spi c1))))) \<le> 300) m
      (dev (spi c1)) 0xFE d3" using x(1) o1(2) by simp
  obtain c2 where s2: "startLoop w (ucast (fst (millis w (dev (spi c1))))) c1 = Some (True, c2)" "on_bus c1 c2 d3"
    using startLoop_polled [OF clock o1(1) x1] by blast
  then have c2: "waitStartBlock w c1 = Some (True, c2)" "on_bus c1 c2 d3"
    using millis16_same [of w c1] clock by (simp_all add: waitStartBlock_def)
  note o2 = on_busD [OF on_bus_trans [OF c1(2) c2(2)]]
  let ?c2 = "c2\<lparr>curOffset := 0, inBlock := True\<rparr>"
  have split: "replicate 514 (0xFF :: u8) = replicate (unat count) 0xFF @ replicate (514 - unat count) 0xFF"
    using n512 by (simp flip: replicate_add)
  obtain r1 e1 r2 where y: "exchanges w (replicate (unat count) 0xFF) d3 = (r1, e1)"
      "exchanges w (replicate (514 - unat count) 0xFF) e1 = (r2, d4)" "?M b @ crc = r1 @ r2"
    using x(2) unfolding split by (elim exchanges_app)
  have l1: "length r1 = unat count" using exchanges_length [OF y(1)] by simp
  have "take (unat count) (?M b @ crc) = r1" using y(3) l1 by simp
  then have r1: "r1 = take (unat count) (?M b)" using mem_length [OF g(2)] n512 by simp
  have z0: "spiRecBytes w 0 ?c2 = ([], ?c2)"
    by (cases "c2") (simp add: spiRecBytes_def spi_transferBytes.simps)
  obtain c3 where c3: "spiRecBytes w (unat count) ?c2 = (r1, c3)" "on_bus ?c2 c3 e1"
    by (rule spiRecBytes_bus [of ?c2 w "unat count" r1 e1]) (use o2 y(1) that in auto)
  note o3 = on_busD [OF c3(2)]
  let ?c3 = "c3\<lparr>curOffset := count\<rparr>"
  have sub: "unat (514 - ucast count :: u32) = 514 - unat count"
    using n512 unat_sub_small [of "ucast count" "514 :: u32"] by (simp add: unat_ucast_up)
  obtain c4 where c4: "spiRecBytes w (514 - unat count) ?c3 = (r2, c4)" "on_bus ?c3 c4 d4"
    by (rule spiRecBytes_bus [of ?c3 w "514 - unat count" r2 d4]) (use o3 y(2) that in auto)
  note o4 = on_busD [OF c4(2)]
  let ?c5 = "(chipSelectHigh w c4)\<lparr>inBlock := False\<rparr>"
  have o5: "on_bus c4 (chipSelectHigh w c4) (digitalWrite w pin True d4)"
    using chipSelectHigh_bus [OF o4(1), of w] o4 o3 o2 g(6) by simp
  note o5 = on_busD [OF o5]
  have fin: "readEnd w ?c3 = ?c5"
    using c4(1) o3(3) sub by (simp add: readEnd_def)
  have "readData w b 0 count c = Some (Some r1, ?c5)"
    using False n c1(1) c2(1) c3(1) z0 fin g(3,5) o3 o2(4) g(4) n512
    unfolding readData_def card_addr by (simp add: Let_def)
  moreover have "sd_good hc pin ready ?c5" "sd_disk mem ?c5 = sd_disk mem c"
    using o5 o4 o3 o2 g select_law [OF x(3)] x(4) by (simp_all add: sd_good_def sd_disk_def)
  ultimately show ?thesis using r1 by (intro that [of ?c5]) (simp_all add: sd_disk_def)
qed

lemma writeDataToken_law:
  assumes c: "spi_ok (spi c)" and l: "length data = 512"
    and x: "exchanges w (token # data @ [0xFF, 0xFF]) (dev (spi c)) = (rs, d3)"
    and r: "exchange w 0xFF d3 = (r, d4)" "r AND 0x1F = 0x05"
  obtains c' where "writeDataToken w token data c = (True, c')" and "on_bus c c' d4"
proof -
  obtain r0 f1 rs1 where x1: "exchange w token (dev (spi c)) = (r0, f1)" "exchanges w (data @ [0xFF, 0xFF]) f1 = (rs1, d3)"
    using x by (auto split: prod.splits)
  obtain r1 f2 r2 where x2: "exchanges w data f1 = (r1, f2)" "exchanges w [0xFF, 0xFF] f2 = (r2, d3)"
    using x1(2) by (elim exchanges_app)
  let ?c1 = "spiSend w token c"
  have o1: "on_bus c ?c1 f1" using spiSend_bus [OF c] x1(1) by simp
  note b1 = on_busD(1,2) [OF o1]
  let ?c2 = "?c1\<lparr>spi := spi_writeBytes w data 512 (spi ?c1)\<rparr>"
  have o2: "on_bus ?c1 ?c2 f2" using writeBytes_bus [OF b1(1) l] b1(2) x2(1) by simp
  note b2 = on_busD(1,2) [OF o2]
  let ?c3 = "?c2\<lparr>spi := spi_write16 w 0xFFFF True (spi ?c2)\<rparr>"
  have ff: "[ucast (drop_bit 8 (0xFFFF :: u16)), ucast (0xFFFF :: u16)] = [0xFF, 0xFF :: u8]"
    by (simp add: word_unat_eq_iff unat_ucast_mod)
  have o3: "on_bus ?c2 ?c3 d3"
    using write16_bus [OF b2(1), of w "0xFFFF", unfolded ff b2(2), OF x2(2)] .
  note b3 = on_busD(1,2) [OF o3]
  obtain c4 where c4: "spiRec w ?c3 = (r, c4)" "on_bus ?c3 c4 d4"
    by (rule spiRec_bus [of ?c3 w r d4]) (use b3 r(1) that in auto)
  have ob: "on_bus c (c4\<lparr>status := r\<rparr>) d4"
    by (rule on_bus_status [OF on_bus_trans [OF on_bus_trans [OF on_bus_trans [OF o1 o2] o3] c4(2)]])
  have run: "writeDataToken w token data c = (True, c4\<lparr>status := r\<rparr>)"
    using c4(1) r(2) by (simp add: writeDataToken_def Let_def)
  show ?thesis by (rule that [OF run ob])
qed

lemma writeBlock_law:
  assumes c: "sd_good hc pin ready c" and b: "unat b < lim" "b \<noteq> 0" and l: "length data = 512"
  obtains c' where "writeBlock w b data c = Some (True, c')"
    and "sd_good hc pin ready c'" and "sd_disk mem c' = (sd_disk mem c)(b := data)"
proof -
  have g: "spi_ok (spi c)" "ready (dev (spi c))" "\<not> inBlock c" "chipSelectPin c = pin" "partialRead c = 0"
      "ctype c = SD_CARD_TYPE_SDHC \<longleftrightarrow> hc"
    using c by (simp_all add: sd_good_def)
  let ?M = "mem (dev (spi c))"
  let ?P = "\<lambda>d2. \<exists>rs d3 r d4. exchanges w (0xFE # data @ [0xFF, 0xFF]) d2 = (rs, d3) \<and>
        exchange w 0xFF d3 = (r, d4) \<and> r AND 0x1F = 0x05 \<and> ready d4 \<and> selected d4 \<and> mem d4 = ?M(b := data)"
  have cl: "\<exists>rs n d1 d2. exchanges w (command 0x18 (block_addr hc b)) d = (rs, d1) \<and> responds w n d1 0 d2 \<and> ?P d2"
    if "free d" "selected d" "mem d = ?M" for d
    using write_law [OF that(1,2) b(1) l] that(3) by simp
  obtain c1 d where c1: "cardCommand w 0x18 (block_addr hc b) c = Some (0, c1)" "on_bus c c1 d" "?P d"
    by (rule cardCommand_law [OF g(1-4) _ _ cl], simp, simp, assumption, assumption, assumption, rule that)
  note o1 = on_busD [OF c1(2)]
  obtain rs d3 r d4 where x: "exchanges w (0xFE # data @ [0xFF, 0xFF]) (dev (spi c1)) = (rs, d3)"
      "exchange w 0xFF d3 = (r, d4)" "r AND 0x1F = 0x05" "ready d4" "selected d4" "mem d4 = ?M(b := data)"
    using c1(3) o1(2) by auto
  obtain c2 where c2: "writeDataToken w 0xFE data c1 = (True, c2)" "on_bus c1 c2 d4"
    by (rule writeDataToken_law [OF o1(1) l x(1-3)], rule that)
  note o2 = on_busD [OF on_bus_trans [OF c1(2) c2(2)]]
  obtain c3 d5 where c3: "waitNotBusy w 600 c2 = Some (True, c3)" "on_bus c2 c3 d5"
      "free d5" "selected d5" "mem d5 = ?M(b := data)"
    by (rule waitNotBusy_ready [of c2 600]) (use o2 x(4-6) that in auto)
  note o3 = on_busD [OF on_bus_trans [OF on_bus_trans [OF c1(2) c2(2)] c3(2)]]
  have g3: "spi_ok (spi c3)" "ready (dev (spi c3))" "\<not> inBlock c3" "chipSelectPin c3 = pin"
    using o3 g free_ready [OF c3(3)] by simp_all
  let ?Q = "\<lambda>d2. \<exists>d3. exchange w 0xFF d2 = (0, d3) \<and> ready d3 \<and> mem d3 = ?M(b := data)"
  have st: "\<exists>rs n d1 d2. exchanges w (command 0x0D 0) d = (rs, d1) \<and> responds w n d1 0 d2 \<and> ?Q d2"
    if "free d" "selected d" "mem d = mem (dev (spi c3))" for d
    using status_law [OF that(1,2)] that(3) c3(5) o3(2) by simp
  obtain c4 d6 where c4: "cardCommand w 0x0D 0 c3 = Some (0, c4)" "on_bus c3 c4 d6" "?Q d6"
    by (rule cardCommand_law [OF g3 _ _ st], simp, simp, assumption, assumption, assumption, rule that)
  note o4 = on_busD(1,2) [OF c4(2)]
  obtain d7 where d7: "exchange w 0xFF (dev (spi c4)) = (0, d7)" "ready d7" "mem d7 = ?M(b := data)"
    using c4(3) o4(2) by auto
  obtain c5 where c5: "spiRec w c4 = (0, c5)" "on_bus c4 c5 d7"
    by (rule spiRec_bus [OF o4(1) d7(1)], rule that)
  have o5: "on_bus c c5 d7"
    by (rule on_bus_trans [OF on_bus_trans [OF on_bus_trans [OF on_bus_trans [OF c1(2) c2(2)] c3(2)] c4(2)] c5(2)])
  note b5 = on_busD [OF o5]
  have o6: "on_bus c (chipSelectHigh w c5) (digitalWrite w pin True d7)"
    using on_bus_trans [OF o5 chipSelectHigh_bus [OF b5(1), of w]] b5 g(4) by simp
  have "writeBlock w b data c = Some (True, chipSelectHigh w c5)"
    using b(2) c1(1) c2(1) c3(1) c4(1) c5(1) g(6)
    unfolding writeBlock_def card_addr by (simp add: Let_def)
  moreover have "sd_good hc pin ready (chipSelectHigh w c5)"
    using on_busD [OF o6] g select_law [OF d7(2)] by (simp add: sd_good_def)
  moreover have "sd_disk mem (chipSelectHigh w c5) = (sd_disk mem c)(b := data)"
    using on_busD(2) [OF o6] select_law [OF d7(2)] d7(3) by (simp add: sd_disk_def fun_eq_iff)
  ultimately show ?thesis by (rule that)
qed

end

section \<open>The driver is a block device\<close>

sublocale sd_bus \<subseteq> drv: block_device "sd_ops w" "sd_good hc pin ready" "sd_disk mem" lim
proof unfold_locales
  show "lim < 2 ^ 32" by (rule lim_le)
  show "sd_good hc pin ready c \<Longrightarrow> length (sd_disk mem c b) = 512" for c b
    by (simp add: sd_good_def sd_disk_def mem_length)
next
  fix c and b :: u32 assume "sd_good hc pin ready c" "unat b < lim"
  from readData_law [OF this, of 512] obtain c' where
    "readData w b 0 512 c = Some (Some (take (unat (512 :: u16)) (sd_disk mem c b)), c')"
    "sd_good hc pin ready c'" "sd_disk mem c' = sd_disk mem c" by auto
  moreover have "length (sd_disk mem c b) = 512"
    using \<open>sd_good hc pin ready c\<close> by (simp add: sd_good_def sd_disk_def mem_length)
  ultimately show "\<exists>c'. card_readBlock (sd_ops w) b c = (Some (sd_disk mem c b), c') \<and>
      sd_good hc pin ready c' \<and> sd_disk mem c' = sd_disk mem c"
    by (simp add: sd_ops_def readBlock_def returned_def)
next
  fix c and b :: u32 and n assume a: "sd_good hc pin ready c" "unat b < lim" "n \<le> (512 :: u16)"
  from readData_law [OF a] obtain c' where
    "readData w b 0 n c = Some (Some (take (unat n) (sd_disk mem c b)), c')"
    "sd_good hc pin ready c'" "sd_disk mem c' = sd_disk mem c" by blast
  then show "\<exists>c'. card_readData (sd_ops w) b 0 n c = (Some (take (unat n) (sd_disk mem c b)), c') \<and>
      sd_good hc pin ready c' \<and> sd_disk mem c' = sd_disk mem c"
    by (simp add: sd_ops_def returned_def)
next
  fix c and b :: u32 and d :: "u8 list" assume a: "sd_good hc pin ready c" "unat b < lim" "b \<noteq> 0" "length d = 512"
  from writeBlock_law [OF a] obtain c' where
    "writeBlock w b d c = Some (True, c')" "sd_good hc pin ready c'"
    "sd_disk mem c' = (sd_disk mem c)(b := d)" by blast
  then show "\<exists>c'. card_writeBlock (sd_ops w) b d c = (True, c') \<and>
      sd_good hc pin ready c' \<and> sd_disk mem c' = (sd_disk mem c)(b := d)"
    by (simp add: sd_ops_def returned_def)
qed

end
