(* ===== verification/SdSlave.thy ===== *)
theory SdSlave
  imports SdDriver
begin

text \<open>
  A card that keeps the protocol \<open>sd_bus\<close>: a high capacity card on the SPI bus as a state
  machine over single byte exchanges.  It is not part of the sources; it shows that
  the laws the driver relies on can be met, and gives the concrete states on which the
  properties of the file system are evaluated.
\<close>

record slave =
  sel :: bool
  inq :: "u8 list"
  outq :: "u8 list"
  wr :: "u32 option"
  store :: "u32 \<Rightarrow> u8 list"

text \<open>The argument of a command, most significant byte first.\<close>

definition command_arg :: "u8 list \<Rightarrow> u32" where
  "command_arg q = push_bit 24 (ucast (q ! 1)) OR push_bit 16 (ucast (q ! 2)) OR
     push_bit 8 (ucast (q ! 3)) OR ucast (q ! 4)"

text \<open>
  One byte of delay, the response 0, and for a read another byte of delay, the start
  token, the block and its checksum.
\<close>

definition slave_command :: "u8 list \<Rightarrow> slave \<Rightarrow> slave" where
  "slave_command q d =
     (if q ! 0 = 0x51 then
        d\<lparr>outq := [0xFF, 0x00, 0xFF, 0xFE] @ store d (command_arg q) @ [0x12, 0x34]\<rparr>
      else if q ! 0 = 0x58 then d\<lparr>outq := [0xFF, 0x00], wr := Some (command_arg q)\<rparr>
      else if q ! 0 = 0x4D then d\<lparr>outq := [0xFF, 0x00, 0x00]\<rparr>
      else d\<lparr>outq := [0xFF, 0x04]\<rparr>)"

text \<open>
  A data packet is stored when its last byte is in; the answer \<open>accepted\<close> is followed by
  two bytes of busy signal.
\<close>

definition slave_receive :: "u8 \<Rightarrow> slave \<Rightarrow> slave" where
  "slave_receive b d =
     (let q = inq d @ [b] in
      case wr d of
        Some a \<Rightarrow>
          if inq d = [] \<and> b \<noteq> 0xFE then d
          else if length q = 515 then
            d\<lparr>inq := [], wr := None, store := (store d)(a := slice 1 512 q), outq := [0xE5, 0, 0]\<rparr>
          else d\<lparr>inq := q\<rparr>
      | None \<Rightarrow>
          if inq d = [] \<and> b AND 0xC0 \<noteq> 0x40 then d
          else if length q = 6 then slave_command q (d\<lparr>inq := []\<rparr>)
          else d\<lparr>inq := q\<rparr>)"

definition slave_exchange :: "u8 \<Rightarrow> slave \<Rightarrow> u8 \<times> slave" where
  "slave_exchange b d =
     (if \<not> sel d then (0xFF, d)
      else case outq d of
             r # q \<Rightarrow> (r, d\<lparr>outq := q\<rparr>)
           | [] \<Rightarrow> (0xFF, slave_receive b d))"

text \<open>The bus; the chip select pin of the card is number 4, and no time passes.\<close>

definition slave_wire :: "slave wire" where
  "slave_wire =
     \<lparr> exchange = slave_exchange,
       millis = (\<lambda>d. (0, d)),
       digitalWrite = (\<lambda>p v d. if p = 4 then d\<lparr>sel := \<not> v\<rparr> else d) \<rparr>"

definition slave_ready :: "slave \<Rightarrow> bool" where
  "slave_ready d \<longleftrightarrow> inq d = [] \<and> wr d = None \<and> (\<exists>n. outq d = replicate n 0) \<and>
     (\<forall>b. length (store d b) = 512)"

definition slave_free :: "slave \<Rightarrow> bool" where
  "slave_free d \<longleftrightarrow> slave_ready d \<and> outq d = []"

section \<open>Sending and receiving\<close>

lemma exchange_wire [simp]: "exchange slave_wire = slave_exchange"
  and millis_wire [simp]: "millis slave_wire d = (0, d)"
  and select_wire [simp]: "digitalWrite slave_wire 4 v d = d\<lparr>sel := \<not> v\<rparr>"
  by (simp_all add: slave_wire_def)

lemma slave_send:
  "sel d \<Longrightarrow> outq d = q @ r \<Longrightarrow> length bs = length q \<Longrightarrow>
    exchanges slave_wire bs d = (q, d\<lparr>outq := r\<rparr>)"
proof (induction bs arbitrary: d q)
  case (Cons b bs)
  then obtain x q' where q: "q = x # q'" by (cases q) auto
  have "exchanges slave_wire bs (d\<lparr>outq := q' @ r\<rparr>) = (q', d\<lparr>outq := r\<rparr>)"
    using Cons.IH [of "d\<lparr>outq := q' @ r\<rparr>" q'] Cons.prems q by simp
  then show ?case using Cons.prems q by (simp add: slave_exchange_def)
qed simp

lemma slave_packet:
  "sel d \<Longrightarrow> outq d = [] \<Longrightarrow> wr d = Some a \<Longrightarrow> inq d \<noteq> [] \<Longrightarrow> length (inq d) + length bs < 515 \<Longrightarrow>
    exchanges slave_wire bs d = (replicate (length bs) 0xFF, d\<lparr>inq := inq d @ bs\<rparr>)"
proof (induction bs arbitrary: d)
  case (Cons b bs)
  have "slave_exchange b d = (0xFF, d\<lparr>inq := inq d @ [b]\<rparr>)"
    using Cons.prems by (simp add: slave_exchange_def slave_receive_def Let_def)
  then show ?case using Cons.IH [of "d\<lparr>inq := inq d @ [b]\<rparr>"] Cons.prems by simp
qed simp

lemma command_arg_be32: "command_arg (x # be32 a @ y) = a"
proof (rule bit_word_eqI)
  fix n assume "n < LENGTH(32)"
  then consider "n < 8" | "8 \<le> n" "n < 16" | "16 \<le> n" "n < 24" | "24 \<le> n" "n < 32" by auto linarith
  then show "bit (command_arg (x # be32 a @ y)) n = bit a n"
    by cases (auto simp: command_arg_def be32_def bit_simps less_diff_conv2)
qed

lemma slave_command_in:
  assumes "slave_free d" and "sel d" and c: "c AND 0xC0 = 0x40"
  shows "exchanges slave_wire (c # be32 a @ [0xFF]) d =
    (replicate 6 0xFF, slave_command (c # be32 a @ [0xFF]) d)"
proof -
  have d: "inq d = []" "wr d = None" "outq d = []" using assms(1) by (auto simp: slave_free_def slave_ready_def)
  have r: "replicate 6 (0xFF :: u8) = [0xFF, 0xFF, 0xFF, 0xFF, 0xFF, 0xFF]"
    by (simp add: numeral_eq_Suc)
  show ?thesis
    unfolding r using d assms(2,3)
    by (cases d) (simp add: be32_def slave_exchange_def slave_receive_def)
qed

lemma command_index [simp]: "command c a = (c OR 0x40) # be32 a @ [0xFF]"
  by (simp add: command_def)

text \<open>The answer to a command, as the driver's polling sees it.\<close>

lemma slave_reply: "sel d \<Longrightarrow> outq d = r # q \<Longrightarrow> slave_exchange b d = (r, d\<lparr>outq := q\<rparr>)"
  by (simp add: slave_exchange_def)

lemma slave_responds:
  assumes "sel d" and "outq d = 0xFF # 0 # q"
  shows "responds slave_wire 1 d 0 (d\<lparr>outq := q\<rparr>)"
  using assms slave_reply [of d] slave_reply [of "d\<lparr>outq := 0 # q\<rparr>"]
  by (auto simp: responds_def)

lemma slave_idle:
  "sel d \<Longrightarrow> outq d = replicate n 0 \<Longrightarrow> inq d = [] \<Longrightarrow> wr d = None \<Longrightarrow>
    polled slave_wire (\<lambda>b. b \<noteq> 0xFF) (\<lambda>t. elapsed t 0 < 300) n d 0xFF (d\<lparr>outq := []\<rparr>)"
proof (induction n arbitrary: d)
  case 0
  then show ?case by (cases d) (simp add: slave_exchange_def slave_receive_def)
next
  case (Suc n)
  have "slave_exchange 0xFF d = (0, d\<lparr>outq := replicate n 0\<rparr>)"
    using Suc.prems by (simp add: slave_reply)
  then show ?case
    using Suc.IH [of "d\<lparr>outq := replicate n 0\<rparr>"] Suc.prems by (simp add: elapsed_def)
qed

section \<open>The protocol\<close>

lemma slave_read:
  assumes f: "slave_free d" and s: "sel d"
  shows "\<exists>rs n m d1 d2 d3 d4 crc. exchanges slave_wire (command 0x11 b) d = (rs, d1) \<and>
        responds slave_wire n d1 0 d2 \<and>
        polled slave_wire (\<lambda>b. b = 0xFF) (\<lambda>t. elapsed t 0 \<le> 300) m d2 0xFE d3 \<and>
        exchanges slave_wire (replicate 514 0xFF) d3 = (store d b @ crc, d4) \<and>
        slave_ready d4 \<and> store d4 = store d"
proof -
  let ?q = "store d b @ [0x12, 0x34]"
  let ?d1 = "d\<lparr>outq := 0xFF # 0 # 0xFF # 0xFE # ?q\<rparr>" and ?d2 = "d\<lparr>outq := 0xFF # 0xFE # ?q\<rparr>"
  let ?d3 = "d\<lparr>outq := ?q\<rparr>" and ?d4 = "d\<lparr>outq := []\<rparr>"
  have "exchanges slave_wire (command 0x11 b) d = (replicate 6 0xFF, ?d1)"
    using slave_command_in [OF f s, of "0x51" b] by (simp add: slave_command_def command_arg_be32)
  moreover have "responds slave_wire 1 ?d1 0 ?d2" using slave_responds [of ?d1] s by simp
  moreover have "polled slave_wire (\<lambda>b. b = 0xFF) (\<lambda>t. elapsed t 0 \<le> 300) 1 ?d2 0xFE ?d3"
    using slave_reply [of ?d2] slave_reply [of "d\<lparr>outq := 0xFE # ?q\<rparr>"] s by (simp add: elapsed_def)
  moreover have "exchanges slave_wire (replicate 514 0xFF) ?d3 = (?q, ?d4)"
    using slave_send [of ?d3 ?q "[]" "replicate 514 0xFF"] s f
    by (simp add: slave_free_def slave_ready_def)
  moreover have "slave_ready ?d4" using f by (simp add: slave_free_def slave_ready_def)
  moreover have "store ?d4 = store d" by simp
  ultimately show ?thesis by blast
qed

lemma slave_write:
  assumes f: "slave_free d" and s: "sel d" and l: "length data = 512"
  shows "\<exists>rs n d1 d2 rs' d3 r d4. exchanges slave_wire (command 0x18 b) d = (rs, d1) \<and>
        responds slave_wire n d1 0 d2 \<and> exchanges slave_wire (0xFE # data @ [0xFF, 0xFF]) d2 = (rs', d3) \<and>
        exchange slave_wire 0xFF d3 = (r, d4) \<and> r AND 0x1F = 0x05 \<and>
        slave_ready d4 \<and> sel d4 \<and> store d4 = (store d)(b := data)"
proof -
  have d: "inq d = []" "wr d = None" "outq d = []" "\<forall>b. length (store d b) = 512"
    using f by (auto simp: slave_free_def slave_ready_def)
  let ?d1 = "d\<lparr>outq := [0xFF, 0], wr := Some b\<rparr>" and ?d2 = "d\<lparr>outq := [], wr := Some b\<rparr>"
  let ?d3 = "d\<lparr>outq := [0xE5, 0, 0], store := (store d)(b := data)\<rparr>"
  let ?d4 = "d\<lparr>outq := [0, 0], store := (store d)(b := data)\<rparr>"
  have "exchanges slave_wire (command 0x18 b) d = (replicate 6 0xFF, ?d1)"
    using slave_command_in [OF f s, of "0x58" b] by (simp add: slave_command_def command_arg_be32)
  moreover have "responds slave_wire 1 ?d1 0 ?d2"
    using slave_responds [of ?d1 "[]"] s by (cases d) simp
  moreover have "exchanges slave_wire (0xFE # data @ [0xFF, 0xFF]) ?d2 = (replicate 515 0xFF, ?d3)"
  proof -
    let ?e1 = "?d2\<lparr>inq := [0xFE]\<rparr>" and ?e2 = "?d2\<lparr>inq := 0xFE # data @ [0xFF]\<rparr>"
    have 1: "slave_exchange 0xFE ?d2 = (0xFF, ?e1)"
      using d s by (simp add: slave_exchange_def slave_receive_def Let_def)
    have 2: "exchanges slave_wire (data @ [0xFF]) ?e1 = (replicate 513 0xFF, ?e2)"
      using slave_packet [of ?e1 b "data @ [0xFF]"] s l by simp
    have "slice (Suc 0) 512 (0xFE # data @ [0xFF, 0xFF]) = data" using l by (simp add: slice_def)
    then have 3: "slave_exchange 0xFF ?e2 = (0xFF, ?d3)"
      using d s l by (cases d) (simp add: slave_exchange_def slave_receive_def Let_def)
    have 4: "data @ [0xFF, 0xFF] = (data @ [0xFF]) @ [0xFF :: u8]" by simp
    have 5: "replicate 513 (0xFF :: u8) @ [0xFF] = replicate 514 0xFF"
      using replicate_append_same [of 513 "0xFF :: u8"] by (simp add: numeral_eq_Suc)
    have "exchanges slave_wire (data @ [0xFF, 0xFF]) ?e1 = (replicate 514 0xFF, ?d3)"
      unfolding 4 exchanges_append [of slave_wire "data @ [0xFF]" "[0xFF]" ?e1]
      by (simp only: 2 5 prod.case exchanges.simps exchange_wire 3)
    then show ?thesis using 1 by (simp add: numeral_eq_Suc)
  qed
  moreover have "exchange slave_wire 0xFF ?d3 = (0xE5, ?d4)" using s by (simp add: slave_reply)
  moreover have "slave_ready ?d4" using d l by (auto simp: slave_ready_def intro!: exI [of _ "Suc (Suc 0)"])
  moreover have "sel ?d4" "store ?d4 = (store d)(b := data)" using s by simp_all
  moreover have "(0xE5 :: u8) AND 0x1F = 0x05" by simp
  ultimately show ?thesis by blast
qed

lemma slave_status:
  assumes f: "slave_free d" and s: "sel d"
  shows "\<exists>rs n d1 d2 d3. exchanges slave_wire (command 0x0D 0) d = (rs, d1) \<and> responds slave_wire n d1 0 d2 \<and>
        exchange slave_wire 0xFF d2 = (0, d3) \<and> slave_ready d3 \<and> store d3 = store d"
proof -
  let ?d1 = "d\<lparr>outq := [0xFF, 0, 0]\<rparr>" and ?d2 = "d\<lparr>outq := [0]\<rparr>" and ?d3 = "d\<lparr>outq := []\<rparr>"
  have "exchanges slave_wire (command 0x0D 0) d = (replicate 6 0xFF, ?d1)"
    using slave_command_in [OF f s, of "0x4D" 0] by (simp add: slave_command_def)
  moreover have "responds slave_wire 1 ?d1 0 ?d2" using slave_responds [of ?d1] s by simp
  moreover have "exchange slave_wire 0xFF ?d2 = (0, ?d3)" using s by (simp add: slave_reply)
  moreover have "slave_ready ?d3" "store ?d3 = store d" using f by (auto simp: slave_free_def slave_ready_def)
  ultimately show ?thesis by blast
qed

interpretation sim: sd_bus slave_wire True 4 slave_ready slave_free sel store 65536
proof unfold_locales
  fix d :: slave and b :: u32
  show "slave_ready d \<Longrightarrow> length (store d b) = 512" by (simp add: slave_ready_def)
next
  fix d :: slave
  assume "slave_ready d" "sel d"
  then obtain n where n: "outq d = replicate n 0" "inq d = []" "wr d = None" "\<forall>b. length (store d b) = 512"
    by (auto simp: slave_ready_def)
  show "\<exists>n d'. polled slave_wire (\<lambda>b. b \<noteq> 0xFF) (\<lambda>t. elapsed t (ucast (fst (millis slave_wire d))) < 300) n d 0xFF d' \<and>
        slave_free d' \<and> sel d' \<and> store d' = store d"
    using slave_idle [OF \<open>sel d\<close> n(1-3)] n \<open>sel d\<close>
    by (intro exI [of _ n] exI [of _ "d\<lparr>outq := []\<rparr>"]) (simp add: slave_free_def slave_ready_def)
next
  fix d :: slave and b :: u32
  assume "slave_free d" "sel d" "unat b < 65536"
  then show "\<exists>rs n m d1 d2 d3 d4 crc. exchanges slave_wire (command 0x11 (block_addr True b)) d = (rs, d1) \<and>
        responds slave_wire n d1 0 d2 \<and>
        polled slave_wire (\<lambda>b. b = 0xFF) (\<lambda>t. elapsed t (ucast (fst (millis slave_wire d2))) \<le> 300) m d2 0xFE d3 \<and>
        exchanges slave_wire (replicate 514 0xFF) d3 = (store d b @ crc, d4) \<and> slave_ready d4 \<and> store d4 = store d"
    using slave_read [of d b] by (simp add: block_addr_def del: command_index)
next
  fix d :: slave and b :: u32 and data :: "u8 list"
  assume "slave_free d" "sel d" "unat b < 65536" "length data = 512"
  then show "\<exists>rs n d1 d2 rs' d3 r d4. exchanges slave_wire (command 0x18 (block_addr True b)) d = (rs, d1) \<and>
        responds slave_wire n d1 0 d2 \<and> exchanges slave_wire (0xFE # data @ [0xFF, 0xFF]) d2 = (rs', d3) \<and>
        exchange slave_wire 0xFF d3 = (r, d4) \<and> r AND 0x1F = 0x05 \<and>
        slave_ready d4 \<and> sel d4 \<and> store d4 = (store d)(b := data)"
    using slave_write [of d data b] by (simp add: block_addr_def del: command_index exchanges.simps)
next
  fix d :: slave
  assume "slave_free d" "sel d"
  then show "\<exists>rs n d1 d2 d3. exchanges slave_wire (command 0x0D 0) d = (rs, d1) \<and> responds slave_wire n d1 0 d2 \<and>
        exchange slave_wire 0xFF d2 = (0, d3) \<and> slave_ready d3 \<and> store d3 = store d"
    by (rule slave_status)
qed (auto simp: slave_ready_def slave_free_def)

end
