(* ===== verification/SdExample.thy ===== *)
theory SdExample
  imports FileStore SdSlave
begin

text \<open>
  A small FAT16 volume on the simulated card of SdSlave: 5000 clusters of one block,
  two FATs, a root directory with two files.  The states of this theory are the
  concrete inputs at which the properties of the library are instantiated.
\<close>

section \<open>The card's blocks\<close>

definition ex_boot :: "u8 list" where
  "ex_boot = [0xEB, 0x3C, 0x90] @ replicate 8 0x20 @
     [0, 2, 1, 1, 0, 2, 0, 2, 0xD1, 0x13, 0xF8, 20, 0] @ replicate 486 0 @ [0x55, 0xAA]"

text \<open>Clusters 2 and 3 are a chain, 4 is one by itself, the others are free.\<close>

definition ex_fat :: "u8 list" where
  "ex_fat = [0xF8, 0xFF, 0xFF, 0xFF, 3, 0, 0xFF, 0xFF, 0xFF, 0xFF] @ replicate 502 0"

definition ex_root :: "u8 list" where
  "ex_root =
     [0x44, 0x41, 0x54, 0x41, 0x20, 0x20, 0x20, 0x20, 0x54, 0x58, 0x54, 0x20] @ replicate 14 0 @
     [2, 0, 0x58, 2, 0, 0] @
     [0x42, 0x20, 0x20, 0x20, 0x20, 0x20, 0x20, 0x20, 0x54, 0x58, 0x54, 0x20] @ replicate 14 0 @
     [4, 0, 0, 2, 0, 0] @ replicate 448 0"

definition ex_disk :: "u32 \<Rightarrow> u8 list" where
  "ex_disk b =
     (if b = 0 then ex_boot else if b = 1 \<or> b = 21 then ex_fat else if b = 41 then ex_root
      else if b = 73 then replicate 512 0x61 else if b = 74 then replicate 512 0x62
      else if b = 75 then replicate 512 0x63 else replicate 512 0)"

definition ex_vol :: sdvolume where
  "ex_vol =
     \<lparr> allocSearchStart = 2, blocksPerCluster = 1, blocksPerFat = 20, clusterCount = 5000,
       clusterSizeShift = 0, dataStartBlock = 73, fatCount = 2, fatStartBlock = 1, fatType = 16,
       rootDirEntryCount = 512, rootDirStart = 41 \<rparr>"

section \<open>The driver and the library on it\<close>

definition ex_slave :: slave where
  "ex_slave = \<lparr> sel = False, inq = [], outq = [], wr = None, store = ex_disk \<rparr>"

definition ex_card :: "slave sd2card" where
  "ex_card = (sd2card_new ex_slave)\<lparr>ctype := SD_CARD_TYPE_SDHC, chipSelectPin := 4\<rparr>"

definition ex_s :: "slave sd2card fs" where
  "ex_s = (fs_new ex_card)\<lparr>vol := ex_vol\<rparr>"

text \<open>The two files, opened for reading and writing.\<close>

definition ex_f :: sdfile where
  "ex_f = sdfile_new\<lparr>flags := O_READ OR O_WRITE, ftype := NORMAL, dirBlock := 41, fileSize := 600,
     firstCluster := 2\<rparr>"

definition ex_h :: sdfile where
  "ex_h = sdfile_new\<lparr>flags := O_READ OR O_WRITE, ftype := NORMAL, dirBlock := 41, dirIndex := 1,
     fileSize := 512, firstCluster := 4\<rparr>"

abbreviation ex_ops :: "slave sd2card card_ops" where "ex_ops \<equiv> sd_ops slave_wire"
abbreviation ex_good :: "slave sd2card \<Rightarrow> bool" where "ex_good \<equiv> sd_good True 4 slave_ready"
abbreviation ex_lim :: nat where "ex_lim \<equiv> 65536"

lemma ex_device: "block_device ex_ops ex_good (sd_disk store) ex_lim"
  by (rule sim.drv.block_device_axioms)

lemma ex_bus: "sd_bus slave_wire True 4 slave_ready slave_free sel store ex_lim"
  by (rule sim.sd_bus_axioms)

lemma ex_disk_length [simp]: "length (ex_disk b) = 512"
  by (simp add: ex_disk_def ex_boot_def ex_fat_def ex_root_def)

lemma ex_sd_disk [simp]: "sd_disk store (card ex_s) = ex_disk"
  by (simp add: sd_disk_def ex_s_def fs_new_def ex_card_def sd2card_new_def spi_new_def ex_slave_def)

lemma ex_card_good: "ex_good ex_card"
  by (simp add: sd_good_def ex_card_def sd2card_new_def spi_new_def spi_ok_def slave_ready_def ex_slave_def)

lemma ex_vol_s [simp]: "vol ex_s = ex_vol"
  by (simp add: ex_s_def)

lemma ex_geom: "geom ex_lim ex_vol"
  by (simp add: geom_def ex_vol_def epb_def eocMin_def)

lemma ex_start: "start_ok ex_vol"
  by (simp add: start_ok_def ex_vol_def)

lemma ex_cache: "cache_ok ex_good (sd_disk store) ex_lim ex_s"
  using ex_card_good by (simp add: cache_ok_def ex_s_def fs_new_def)

lemma ex_clean [simp]: "\<not> cacheDirty ex_s"
  by (simp add: ex_s_def fs_new_def)

lemma ex_view [simp]: "view (sd_disk store) ex_s = ex_disk"
  using view_clean [OF ex_clean] by simp

section \<open>Chains and files\<close>

lemma ex_entries [simp]:
  "fat_entry ex_disk ex_vol 2 = 3" "fat_entry ex_disk ex_vol 3 = 0xFFFF" "fat_entry ex_disk ex_vol 4 = 0xFFFF"
  "fat_entry ex_disk ex_vol 5 = 0"
  by (simp_all add: fat_entry_def ex_vol_def fatLba_def ex_disk_def ex_fat_def get16_def)

lemma ex_chains: "fat_chain ex_disk ex_vol [2, 3]" "fat_chain ex_disk ex_vol [4]"
  by (simp_all add: fat_chain_def isEOC_def data_cluster_def ex_vol_def)
    (simp_all add: ex_entries [unfolded ex_vol_def] )

lemma ex_free: "free_cluster ex_disk ex_vol 5"
  by (simp add: free_cluster_def data_cluster_def) (simp add: ex_vol_def)

lemma ex_nfree: "0 < nfree ex_disk ex_vol"
  using ex_free by (auto simp: nfree_def card_gt_0_iff)

lemma ex_files: "file_ok ex_disk ex_vol ex_f [2, 3]" "file_ok ex_disk ex_vol ex_h [4]"
  using ex_chains
  by (simp_all add: file_ok_def isOpen_def file_chain_def pos_ok_def nblocks_def bpc_def
      ex_f_def ex_h_def sdfile_new_def) (simp_all add: ex_vol_def)

lemma ex_contents:
  "contents ex_disk ex_vol ex_f [2, 3] = replicate 512 0x61 @ replicate 88 0x62"
  "contents ex_disk ex_vol ex_h [4] = replicate 512 0x63"
proof -
  have u: "[0..<2] = [0, 1 :: nat]" by (simp add: upt_rec)
  have b: "file_block ex_vol [2, 3] 0 = 73" "file_block ex_vol [2, 3] 1 = 74" "file_block ex_vol [4] 0 = 75"
    by (simp_all add: file_block_def clusterStartBlock_def ex_vol_def bpc_def)
  have "bpc ex_vol = 1" by (simp add: bpc_def ex_vol_def)
  then have "raw_bytes ex_disk ex_vol ex_f [2, 3] = replicate 512 0x61 @ replicate 512 0x62"
    and "raw_bytes ex_disk ex_vol ex_h [4] = replicate 512 0x63"
    using b by (simp_all add: raw_bytes_chain chain_bytes_def blocks_bytes_def ex_f_def ex_h_def sdfile_new_def u ex_disk_def)
  then show "contents ex_disk ex_vol ex_f [2, 3] = replicate 512 0x61 @ replicate 88 0x62"
    and "contents ex_disk ex_vol ex_h [4] = replicate 512 0x63"
    by (simp_all add: contents_def ex_f_def ex_h_def sdfile_new_def)
qed

end
