(* ===== verification/FileProps.thy ===== *)
theory FileProps
  imports SdExample
begin

text \<open>
  The properties of reading, writing and seeking in a file, each with its instance on the
  volume of SdExample.
\<close>

definition mounted ::
  "'c card_ops \<Rightarrow> ('c \<Rightarrow> bool) \<Rightarrow> ('c \<Rightarrow> u32 \<Rightarrow> u8 list) \<Rightarrow> nat \<Rightarrow> 'c fs \<Rightarrow> bool" where
  "mounted ops good disk lim s \<longleftrightarrow>
     block_device ops good disk lim \<and> cache_ok good disk lim s \<and> geom lim (vol s) \<and> start_ok (vol s)"

lemma mountedD:
  assumes "mounted ops good disk lim s"
  shows "block_device ops good disk lim" and "cache_ok good disk lim s" and "geom lim (vol s)"
    and "start_ok (vol s)"
  using assms by (simp_all add: mounted_def)

lemma ex_mounted: "mounted ex_ops ex_good (sd_disk store) ex_lim ex_s"
  by (simp add: mounted_def ex_device ex_cache ex_geom ex_start)

text \<open>
  A file ready to be written \<open>n\<close> bytes: open for writing, not synchronous, at its end when
  it appends, with room for the bytes in its chain and the free clusters, and no
  unwritten block of it in the cache that the write would overtake.
\<close>

definition writable ::
  "('c \<Rightarrow> u32 \<Rightarrow> u8 list) \<Rightarrow> 'c fs \<Rightarrow> sdfile \<Rightarrow> u32 list \<Rightarrow> nat \<Rightarrow> bool" where
  "writable disk s f cs n \<longleftrightarrow>
     file_ok (view disk s) (vol s) f cs \<and> ftype f = NORMAL \<and>
     flags f AND O_WRITE \<noteq> 0 \<and> flags f AND O_SYNC = 0 \<and>
     (flags f AND O_APPEND = 0 \<or> curPosition f = fileSize f) \<and>
     no_clash s cs (unat (curPosition f)) \<and> unat (curPosition f) + n < 2 ^ 32 \<and>
     unat (curPosition f) + n \<le> clusterBytes (vol s) * (length cs + nfree (view disk s) (vol s))"

lemma writableD:
  assumes "writable disk s f cs n"
  shows "file_ok (view disk s) (vol s) f cs" and "ftype f = NORMAL"
    and "flags f AND O_WRITE \<noteq> 0" and "flags f AND O_SYNC = 0"
    and "flags f AND O_APPEND = 0 \<or> curPosition f = fileSize f"
    and "no_clash s cs (unat (curPosition f))" and "unat (curPosition f) + n < 2 ^ 32"
    and "unat (curPosition f) + n \<le> clusterBytes (vol s) * (length cs + nfree (view disk s) (vol s))"
  using assms unfolding writable_def by blast+

lemma ex_writable: "n \<le> 1024 \<Longrightarrow> writable (sd_disk store) ex_s ex_f [2, 3] n"
  using ex_files(1) by (simp add: writable_def no_clash_clean ex_f_def sdfile_new_def clusterBytes_def
      trans_le_add1) (simp add: ex_vol_def)

lemma ex_writable3: "writable (sd_disk store) ex_s ex_f [2, 3] (length [1, 2, 3 :: u8])"
  by (rule ex_writable) simp

text \<open>What a write of \<open>data\<close> leaves behind; every property of write starts from here.\<close>

lemma write_outcome:
  assumes m: "mounted ops good disk lim s" and w: "writable disk s f cs (length data)"
    and n: "unat nbyte = length data"
  obtains f' s' cs' where "writeBytes ops data nbyte f s = (ucast nbyte, f', s')"
    and "mounted ops good disk lim s'" and "extends good disk lim s s' cs cs'"
    and "file_ok (view disk s') (vol s') f' cs'"
    and "contents (view disk s') (vol s') f' cs' =
      splice (contents (view disk s) (vol s) f cs) (unat (curPosition f)) data"
    and "unat (curPosition f') = unat (curPosition f) + length data"
    and "unat (fileSize f') = max (unat (fileSize f)) (unat (curPosition f) + length data)"
    and "grown f f'" and "no_clash s' cs' (unat (curPosition f'))"
    and "nfree (view disk s) (vol s) + length cs = nfree (view disk s') (vol s) + length cs'"
proof -
  note w' = writableD [OF w]
  obtain f' s' cs' where a: "writeBytes ops data nbyte f s = (ucast nbyte, f', s')"
      "extends good disk lim s s' cs cs'" "file_ok (view disk s') (vol s') f' cs'"
      "contents (view disk s') (vol s') f' cs' =
      splice (contents (view disk s) (vol s) f cs) (unat (curPosition f)) data"
      "unat (curPosition f') = unat (curPosition f) + length data"
      "unat (fileSize f') = max (unat (fileSize f)) (unat (curPosition f) + length data)"
      "grown f f'" "no_clash s' cs' (unat (curPosition f'))"
      "nfree (view disk s) (vol s) + length cs = nfree (view disk s') (vol s) + length cs'"
    by (rule block_device.write_spec [OF mountedD [OF m] w'(1-6) n w'(7,8)], rule that)
  obtain z where v': "vol s' = vol s\<lparr>allocSearchStart := z\<rparr>"
    using env_geo_vol [OF extendsD(2) [OF a(2)]] .
  have "mounted ops good disk lim s'"
    using m extendsD(1,3) [OF a(2)] by (simp add: mounted_def v')
  then show ?thesis by (rule that [OF a(1) _ a(2-9)])
qed

section \<open>Writing\<close>



text \<open>
  C5. A write to one file changes no other: a file whose chain shares no cluster with the
  one written is as well formed after as before, with the same contents, and the two
  chains are still disjoint although the written one may have grown.
\<close>

lemma write_keeps_other_files:
  assumes "mounted ops good disk lim s" and "writable disk s f cs (length data)"
    and "unat nbyte = length data"
    and "file_ok (view disk s) (vol s) h ds" and "ftype h \<noteq> ROOT16" and "set ds \<inter> set cs = {}"
  shows "\<exists>f' s' cs'. writeBytes ops data nbyte f s = (ucast nbyte, f', s') \<and>
    file_ok (view disk s') (vol s') f' cs' \<and> set ds \<inter> set cs' = {} \<and>
    file_ok (view disk s') (vol s') h ds \<and>
    contents (view disk s') (vol s') h ds = contents (view disk s) (vol s) h ds"
proof -
  obtain f' s' cs' where a: "writeBytes ops data nbyte f s = (ucast nbyte, f', s')"
      "mounted ops good disk lim s'" "extends good disk lim s s' cs cs'"
      "file_ok (view disk s') (vol s') f' cs'"
    by (rule write_outcome [OF assms(1-3)], rule that)
  note g = mountedD(3) [OF assms(1)]
  obtain z where v': "vol s' = vol s\<lparr>allocSearchStart := z\<rparr>"
    using env_geo_vol [OF extendsD(2) [OF a(3)]] .
  have fc: "file_chain (view disk s) (vol s) h ds" "file_chain (view disk s') (vol s') f' cs'"
    using assms(4) a(4) by (simp_all add: file_ok_def)
  have dc: "\<forall>c \<in> set cs'. data_cluster (vol s) c"
    using file_chain_clusters [OF fc(2)] by (simp add: v')
  show ?thesis
    using a(1,4) extends_disjoint [OF a(3) g fc(1) assms(6)]
      extends_other [OF a(3) g dc assms(4-6)] by blast
qed

lemma write_keeps_other_files_witness:
  "\<exists>f' s' cs'. writeBytes ex_ops [1, 2, 3] 3 ex_f ex_s = (3, f', s') \<and>
    contents (view (sd_disk store) s') (vol s') ex_h [4] = contents ex_disk ex_vol ex_h [4]"
  using write_keeps_other_files [OF ex_mounted ex_writable3, of 3 ex_h "[4]"] ex_files
  by (auto simp: ex_h_def sdfile_new_def)





section \<open>Seeking\<close>

text \<open>
  seekSet to a position within the file succeeds by walking the chain, from the start
  or from the current cluster; it moves the position, keeps the file well formed and
  changes nothing else.
\<close>

lemma seek_moves_position:
  assumes "mounted ops good disk lim s" and "file_ok (view disk s) (vol s) f cs" and "pos \<le> fileSize f"
  shows "\<exists>c s'. seekSet ops pos f s = (True, f\<lparr>curCluster := c, curPosition := pos\<rparr>, s') \<and>
    file_ok (view disk s') (vol s') (f\<lparr>curCluster := c, curPosition := pos\<rparr>) cs \<and>
    view disk s' = view disk s \<and> mounted ops good disk lim s'"
proof -
  obtain f' s' where b: "seekSet ops pos f s = (True, f', s')" "quiet good disk lim s s'"
      "moved (vol s) cs (unat pos) f f'"
    by (rule block_device.seekSet_spec [OF mountedD(1-3) [OF assms(1)] assms(2,3)], rule that)
  note q = quietD [OF b(2)]
  obtain c where "f' = f\<lparr>curCluster := c, curPosition := pos\<rparr>" using b(3) by (auto simp: moved_def)
  then show ?thesis
    using b(1) q moved_file_ok [OF b(3) assms(2)] assms(1) by (auto simp: mounted_def)
qed

lemma seek_moves_position_witness:
  "\<exists>c s'. seekSet ex_ops 550 ex_f ex_s = (True, ex_f\<lparr>curCluster := c, curPosition := 550\<rparr>, s')"
  using seek_moves_position [OF ex_mounted, of ex_f "[2, 3]" 550] ex_files by (auto simp: ex_f_def sdfile_new_def)

section \<open>Reading\<close>




end
