(* ===== verification/SyncProps.thy ===== *)
theory SyncProps
  imports FileProps FileSync
begin

text \<open>
  The properties of \<open>sync\<close>, and of a file that is written, synchronised and opened again
  after a power cycle, over the driver and the bus.
\<close>

section \<open>The entry of the example file\<close>

lemma dir_slot_root:
  assumes "geom lim v" and "unat (dirBlock f) < unat (dataStartBlock v)" and "\<not> fat_region v (dirBlock f)"
    and "dirBlock f \<noteq> 0" and "dirIndex f < 16" and "\<forall>c \<in> set cs. data_cluster v c"
  shows "dir_slot lim D v f cs"
proof -
  have "dirBlock f \<notin> chain_blocks v [c]" if "data_cluster v c" for c
  proof
    assume "dirBlock f \<in> chain_blocks v [c]"
    then obtain k where k: "k < bpc v" "dirBlock f = clusterStartBlock v c + of_nat k"
      by (auto simp: chain_blocks_def file_block_def)
    show False using cluster_block_nat(3) [OF assms(1) that k(1)] assms(2) by (simp add: k(2))
  qed
  then show ?thesis
    using assms geom_regions(2) [OF assms(1)] by (auto simp: dir_slot_def free_cluster_def)
qed

lemma ex_slot: "dir_slot ex_lim ex_disk ex_vol ex_f [2, 3]"
  by (rule dir_slot_root [OF ex_geom])
    (simp_all add: ex_f_def sdfile_new_def ex_vol_def fat_region_def data_cluster_def)



section \<open>Synchronising\<close>

text \<open>
  C13. After sync the card itself, and not only the cache, holds the file: on its blocks
  the chain and the contents are those that the file had, and its directory entry has its
  size and first cluster under the same name; no other block than that of the entry
  differs from what the cache showed before.
\<close>

lemma sync_makes_file_durable:
  assumes "mounted ops good disk lim s" and "file_ok (view disk s) (vol s) f cs" and "ftype f = NORMAL"
    and "dir_slot lim (view disk s) (vol s) f cs" and "recorded (view disk s) f"
  shows "\<exists>f' s'. sync ops f s = (True, f', s') \<and>
    file_ok (disk (card s')) (vol s') f' cs \<and>
    contents (disk (card s')) (vol s') f' cs = contents (view disk s) (vol s) f cs \<and>
    dir_fileSize (entry (disk (card s')) f') = fileSize f \<and>
    entry_cluster (entry (disk (card s')) f') = firstCluster f \<and>
    dname (entry (disk (card s')) f') = dname (entry (view disk s) f) \<and>
    (\<forall>b. b \<noteq> dirBlock f \<longrightarrow> disk (card s') b = view disk s b)"
proof -
  obtain s' f' where a: "sync ops f s = (True, f', s')" "f' = f\<lparr>flags := flags f'\<rparr>"
      "cache_ok good disk lim s'" "\<not> cacheDirty s'" "vol s' = vol s"
      "file_ok (view disk s') (vol s') f' cs"
      "contents (view disk s') (vol s') f' cs = contents (view disk s) (vol s) f cs"
      "dir_slot lim (view disk s') (vol s') f' cs"
      "dir_fileSize (entry (view disk s') f') = fileSize f'"
      "entry_cluster (entry (view disk s') f') = firstCluster f'"
      "attributes (entry (view disk s') f') = attributes (entry (view disk s) f)"
      "dname (entry (view disk s') f') = dname (entry (view disk s) f)"
      "\<And>b. b \<noteq> dirBlock f \<Longrightarrow> view disk s' b = view disk s b"
    by (rule block_device.sync_file [OF mountedD(1-3) [OF assms(1)] assms(2-5)], rule that)
  have "fileSize f' = fileSize f" "firstCluster f' = firstCluster f"
    by (subst a(2), simp)+
  then show ?thesis using a view_clean [OF a(4), of disk] by auto
qed

lemma sync_makes_file_durable_witness:
  "\<exists>f' s'. sync ex_ops (ex_f\<lparr>flags := O_WRITE OR F_FILE_DIR_DIRTY, fileSize := 1024\<rparr>) ex_s = (True, f', s') \<and>
    dir_fileSize (entry (sd_disk store (card s')) f') = 1024"
proof -
  let ?f = "ex_f\<lparr>flags := O_WRITE OR F_FILE_DIR_DIRTY, fileSize := 1024\<rparr>"
  have "file_ok ex_disk ex_vol ?f [2, 3]"
    using ex_files(1) by (simp add: file_ok_def pos_ok_def isOpen_def nblocks_def bpc_def file_chain_def)
      (simp add: ex_f_def sdfile_new_def ex_vol_def)
  moreover have "dir_slot ex_lim ex_disk ex_vol ?f [2, 3]" using ex_slot by (simp add: dir_slot_def)
  moreover have "recorded ex_disk ?f" by (simp add: recorded_def)
  moreover have "ftype ?f = NORMAL" by (simp add: ex_f_def)
  ultimately show ?thesis
    using sync_makes_file_durable [OF ex_mounted, of ?f "[2, 3]"] by auto
qed

section \<open>A power cycle\<close>



end
