(* ===== verification/TruncateProps.thy ===== *)
theory TruncateProps
  imports FileTruncate SyncProps
begin

text \<open>The properties of cutting and removing files.\<close>



text \<open>
  remove deletes a file: its directory entry is marked deleted, every cluster of its
  chain is free, no other table entry and no other block changes, all of it is on the card,
  and the object is closed.
\<close>

theorem remove_frees_file:
  assumes "mounted ops good disk lim s" and "file_ok (view disk s) (vol s) f cs" and "ftype f = NORMAL"
    and "flags f AND O_WRITE \<noteq> 0" and "dir_slot lim (view disk s) (vol s) f cs" and "fileSize f \<noteq> 0"
  shows "\<exists>f' s'. removeFile ops f s = Some (True, f', s') \<and> mounted ops good disk lim s' \<and> ftype f' = CLOSED \<and>
    dname (entry (disk (card s')) f) ! 0 = DIR_NAME_DELETED \<and>
    (\<forall>y. in_fat (vol s) y \<longrightarrow> fat_entry (disk (card s')) (vol s) y =
       (if y \<in> set cs then 0 else fat_entry (view disk s) (vol s) y)) \<and>
    (\<forall>b. \<not> fat_region (vol s) b \<and> b \<noteq> dirBlock f \<longrightarrow> disk (card s') b = view disk s b)"
proof -
  note m = mountedD [OF assms(1)]
  obtain f' s' where r: "removeFile ops f s = Some (True, f', s')" "ftype f' = CLOSED"
      "cache_ok good disk lim s'" "\<not> cacheDirty s'" "\<exists>a. vol s' = vol s\<lparr>allocSearchStart := a\<rparr>"
      "start_ok (vol s')" "dname (entry (view disk s') f) ! 0 = DIR_NAME_DELETED"
      "\<And>y. in_fat (vol s) y \<Longrightarrow> fat_entry (view disk s') (vol s) y =
        (if y \<in> set cs then 0 else fat_entry (view disk s) (vol s) y)"
      "\<And>b. \<not> fat_region (vol s) b \<Longrightarrow> b \<noteq> dirBlock f \<Longrightarrow> view disk s' b = view disk s b"
    by (rule block_device.remove_spec [OF m(1-4) assms(2-6)], rule that)
  have "mounted ops good disk lim s'" using m r(3,5,6) by (auto simp: mounted_def)
  then show ?thesis using r(1,2,7-9) view_clean [OF r(4), of disk] by auto
qed

lemma remove_frees_file_witness:
  "\<exists>f' s'. removeFile ex_ops ex_f ex_s = Some (True, f', s') \<and>
    dname (entry (sd_disk store (card s')) ex_f) ! 0 = 0xE5 \<and>
    fat_entry (sd_disk store (card s')) ex_vol 2 = 0 \<and> fat_entry (sd_disk store (card s')) ex_vol 4 = 0xFFFF"
proof -
  have "flags ex_f AND O_WRITE \<noteq> 0" "ftype ex_f = NORMAL" "fileSize ex_f \<noteq> 0"
    by (simp_all add: ex_f_def sdfile_new_def)
  moreover have "in_fat ex_vol 2" "in_fat ex_vol 4" by (simp_all add: in_fat_def ex_vol_def)
  ultimately show ?thesis
    using remove_frees_file [OF ex_mounted, of ex_f "[2, 3]"] ex_files(1) ex_slot by auto
qed

end
