(* ===== verification/VolumeProps.thy ===== *)
theory VolumeProps
  imports FileProps
begin

text \<open>
  Mounting: \<open>init\<close> computes from the boot sector, with wrapping 32 bit arithmetic, the
  layout that the FAT specification gives in natural numbers, and the volume it makes
  satisfies the geometry that every other property relies on.
\<close>

section \<open>The layout of a formatted volume\<close>

text \<open>Sectors of one FAT, of the FAT16 root directory, of the whole volume; the first data sector.\<close>

definition fat_sectors :: "bpb_t \<Rightarrow> nat" where
  "fat_sectors b = (if sectorsPerFat16 b \<noteq> 0 then unat (sectorsPerFat16 b) else unat (sectorsPerFat32 b))"

definition root_sectors :: "bpb_t \<Rightarrow> nat" where
  "root_sectors b = (32 * unat (bpb_rootDirEntryCount b) + 511) div 512"

definition all_sectors :: "bpb_t \<Rightarrow> nat" where
  "all_sectors b = (if totalSectors16 b \<noteq> 0 then unat (totalSectors16 b) else unat (totalSectors32 b))"

definition data_sector :: "bpb_t \<Rightarrow> nat" where
  "data_sector b = unat (reservedSectorCount b) + unat (bpb_fatCount b) * fat_sectors b + root_sectors b"

definition clusters :: "bpb_t \<Rightarrow> nat" where
  "clusters b = (all_sectors b - data_sector b) div unat (sectorsPerCluster b)"

text \<open>A FAT16 or FAT32 volume that starts at a block and lies within the card.\<close>

definition layout_ok :: "nat \<Rightarrow> nat \<Rightarrow> bpb_t \<Rightarrow> bool" where
  "layout_ok start lim b \<longleftrightarrow>
     bytesPerSector b = 512 \<and> (\<exists>k \<le> 7. unat (sectorsPerCluster b) = 2 ^ k) \<and>
     reservedSectorCount b \<noteq> 0 \<and> bpb_fatCount b \<noteq> 0 \<and>
     data_sector b \<le> all_sectors b \<and> start + all_sectors b \<le> lim \<and> lim < 2 ^ 32 \<and>
     4085 \<le> clusters b \<and> clusters b \<le> 0x0FFFFFF0 \<and>
     clusters b + 2 \<le> (if clusters b < 65525 then 256 else 128) * fat_sectors b"

lemma unat_widen [simp]:
  "unat (ucast (x :: u16) :: u32) = unat x" "unat (ucast (y :: u8) :: u32) = unat y"
  by (simp_all add: unat_ucast_up)

lemma unat_two_power:
  assumes "k < 32"
  shows "unat ((2 :: u32) ^ k) = 2 ^ k"
proof -
  have "(2 :: nat) ^ k < 2 ^ LENGTH(32)" using assms by (intro power_strict_increasing) simp_all
  then have "unat (of_nat (2 ^ k) :: u32) = 2 ^ k" by (rule unat_of_nat_small)
  then show ?thesis by simp
qed

lemma shiftLoop_power:
  assumes "unat spc = 2 ^ k" and "k \<le> 7" and "unat sh \<le> k"
  shows "shiftLoop spc sh = (True, of_nat k)"
  using assms(3)
proof (induction "k - unat sh" arbitrary: sh)
  case 0
  then have k: "unat sh = k" by simp
  then have "sh = of_nat k" using assms(2) by (simp add: word_unat_eq_iff unat_of_nat_small)
  moreover have "(ucast spc :: u32) = push_bit (unat sh) 1"
    using assms(1,2) k power_increasing [of k 7 "2 :: nat"]
    by (simp add: word_unat_eq_iff unat_two_power)
  ultimately show ?case by (subst shiftLoop.simps) simp
next
  case (Suc n)
  then have lt: "unat sh < k" by simp
  have s: "unat (sh + 1) = unat sh + 1" using lt assms(2) by (simp add: unat_word_ariths)
  have p: "(2 :: nat) ^ unat sh < 2 ^ k" "(2 :: nat) ^ k \<le> 2 ^ 7"
    using lt assms(2) by (simp, intro power_increasing) auto
  then have "unat (ucast spc :: u32) \<noteq> unat (push_bit (unat sh) (1 :: u32))"
    using assms(1,2) lt by (simp add: unat_two_power)
  then have "(ucast spc :: u32) \<noteq> push_bit (unat sh) 1" by metis
  moreover have "\<not> sh > 7" using lt assms(2) by (simp add: word_less_nat_alt)
  moreover have "shiftLoop spc (sh + 1) = (True, of_nat k)"
    using Suc.hyps(1) [of "sh + 1"] Suc.hyps(2) s lt by simp
  ultimately show ?case by (subst shiftLoop.simps) simp
qed

lemma initGeometry_spec:
  assumes l: "layout_ok (unat st) lim b"
  obtains v' where "initGeometry st b v = (True, v')" and "geom lim v'"
    and "allocSearchStart v' = allocSearchStart v" and "unat (clusterCount v') = clusters b"
    and "fatType v' = (if clusters b < 65525 then 16 else 32)"
    and "unat (dataStartBlock v') = unat st + data_sector b"
proof -
  define fat :: u32 where "fat = (if sectorsPerFat16 b \<noteq> 0 then ucast (sectorsPerFat16 b) else sectorsPerFat32 b)"
  define fs :: u32 where "fs = (st + ucast (reservedSectorCount b))"
  define rd :: u32 where "rd = (fs + ucast (bpb_fatCount b) * fat)"
  define rs :: u32 where "rs = ((32 * ucast (bpb_rootDirEntryCount b) + 511) div 512)"
  define ds :: u32 where "ds = (rd + rs)"
  define tot :: u32 where "tot = (if totalSectors16 b \<noteq> 0 then ucast (totalSectors16 b) else totalSectors32 b)"
  obtain k where k: "k \<le> 7" "unat (sectorsPerCluster b) = 2 ^ k" using l by (auto simp: layout_ok_def)
  have sh: "shiftLoop (sectorsPerCluster b) 0 = (True, of_nat k)" by (rule shiftLoop_power [OF k(2,1)]) simp
  have uk: "unat (of_nat k :: u8) = k" using k(1) by (simp add: unat_of_nat_small)
  have lm: "unat st + all_sectors b \<le> lim" "lim < 2 ^ 32" "data_sector b \<le> all_sectors b"
    using l by (simp_all add: layout_ok_def)
  have ufat: "unat fat = fat_sectors b" by (simp add: fat_sectors_def fat_def)
  have utot: "unat tot = all_sectors b" by (simp add: all_sectors_def tot_def)
  have urs: "unat rs = root_sectors b"
  proof -
    have "unat (bpb_rootDirEntryCount b) < 65536" using unat_bound(2) [of "bpb_rootDirEntryCount b"] by simp
    then show ?thesis by (simp add: root_sectors_def rs_def unat_div unat_word_ariths)
  qed
  have small: "unat st + unat (reservedSectorCount b) + unat (bpb_fatCount b) * fat_sectors b + root_sectors b < 2 ^ 32"
    using lm by (simp add: data_sector_def)
  have ufs: "unat fs = unat st + unat (reservedSectorCount b)"
    using small by (simp add: fs_def unat_word_ariths)
  have mul: "unat (ucast (bpb_fatCount b) * fat) = unat (bpb_fatCount b) * fat_sectors b"
    using small ufat by (simp add: unat_word_ariths(2))
  have urd: "unat rd = unat fs + unat (bpb_fatCount b) * fat_sectors b"
    using small ufs mul by (simp add: rd_def unat_word_ariths(1) del: unat_plus_if')
  have uds: "unat ds = unat st + data_sector b"
    using small ufs urd urs by (simp add: ds_def unat_word_ariths(1) data_sector_def del: unat_plus_if')
  have "unat (ds - st) = data_sector b"
    using uds unat_sub_small [of st ds] by (simp add: word_le_nat_alt)
  then have cl: "unat (tot - (ds - st)) = all_sectors b - data_sector b"
    using utot lm(3) unat_sub_small [of "ds - st" tot] by (simp add: word_le_nat_alt)
  define cc where "cc = drop_bit (unat (of_nat k :: u8)) (tot - (ds - st))"
  have ucc: "unat cc = clusters b"
    unfolding cc_def unat_drop_bit_div cl uk clusters_def k(2) ..
  let ?v = "v\<lparr>fatCount := bpb_fatCount b, blocksPerCluster := sectorsPerCluster b,
      clusterSizeShift := of_nat k, blocksPerFat := fat, fatStartBlock := fs,
      rootDirEntryCount := bpb_rootDirEntryCount b, rootDirStart := rd, dataStartBlock := ds,
      clusterCount := cc\<rparr>"
  let ?v' = "if cc < 65525 then ?v\<lparr>fatType := 16\<rparr> else ?v\<lparr>rootDirStart := fat32RootCluster b, fatType := 32\<rparr>"
  have c12: "\<not> cc < 4085" "cc < 65525 \<longleftrightarrow> clusters b < 65525"
    using l by (simp_all add: layout_ok_def word_less_nat_alt ucc)
  have run: "initGeometry st b v = (True, ?v')"
    using sh c12(1) by (simp add: initGeometry_def Let_def cc_def tot_def ds_def rs_def rd_def fs_def fat_def)
  have part: "clusters b * 2 ^ k \<le> all_sectors b - data_sector b"
    unfolding clusters_def k(2) by simp
  then have en: "unat st + data_sector b + clusters b * 2 ^ k \<le> lim" using lm by linarith
  have pos: "0 < unat (reservedSectorCount b)" "0 < unat (bpb_fatCount b)"
    using l by (simp_all add: layout_ok_def unat_gt_0)
  show ?thesis
  proof (rule that [OF run])
    show "geom lim ?v'"
      using l k uk ucc c12(2) pos ufs urd uds ufat urs en lm(2)
      by (simp add: geom_def layout_ok_def epb_def eocMin_def data_sector_def root_sectors_def
          split: if_splits)
  qed (use ucc uds c12(2) in \<open>simp_all\<close>)
qed

section \<open>Mounting\<close>

text \<open>Where the volume starts: at partition one, or in block zero when there is none.\<close>

definition boot_start :: "(u32 \<Rightarrow> u8 list) \<Rightarrow> u32" where
  "boot_start D =
     (let p = part (mbr_of_block (D 0)) ! 0 in
      if boot p AND 0x7F \<noteq> 0 \<or> totalSectors p < 100 \<or> firstSector p = 0 then 0 else firstSector p)"

definition boot_params :: "(u32 \<Rightarrow> u8 list) \<Rightarrow> bpb_t" where
  "boot_params D = bpb (fbs_of_block (D (boot_start D)))"

lemma cacheRawBlock_clean:
  assumes "cacheRawBlock ops b CACHE_FOR_READ s = (True, s')" and "\<not> cacheDirty s"
  shows "\<not> cacheDirty s'"
  using assms by (auto simp: cacheRawBlock_def cacheFlush_def seqOk_def split: if_splits option.splits prod.splits)

context block_device
begin

lemma load_block:
  assumes "cache_ok good disk lim s" and "\<not> cacheDirty s" and "unat b < lim"
  obtains s' where "cacheRawBlock ops b CACHE_FOR_READ s = (True, s')" and "quiet good disk lim s s'"
    and "\<not> cacheDirty s'" and "cacheBuffer s' = view disk s b"
proof -
  obtain s' where s': "cacheRawBlock ops b CACHE_FOR_READ s = (True, s')" "quiet good disk lim s s'"
      "cacheBuffer s' = view disk s b"
    by (rule cacheRawBlock_spec [where a = CACHE_FOR_READ, OF assms(1,3)]) (use that in simp_all)
  then show ?thesis using cacheRawBlock_clean [OF s'(1) assms(2)] by (intro that)
qed

lemma initBoot_spec:
  assumes ok: "cache_ok good disk lim s" "\<not> cacheDirty s" and st: "unat st < lim"
    and l: "layout_ok (unat st) lim (bpb (fbs_of_block (view disk s st)))" (is "layout_ok _ _ ?b")
  obtains s' where
    "seqOk (cacheRawBlock ops st CACHE_FOR_READ s) (\<lambda>s.
       let b = bpb (fbs_of_block (cacheBuffer s)) in
       if bytesPerSector b \<noteq> 512 \<or> bpb_fatCount b = 0 \<or> reservedSectorCount b = 0 \<or> sectorsPerCluster b = 0
       then (False, s)
       else case initGeometry st b (vol s) of (ok, v) \<Rightarrow> (ok, s\<lparr>vol := v\<rparr>)) = (True, s')"
    and "cache_ok good disk lim s'" and "view disk s' = view disk s" and "geom lim (vol s')"
    and "allocSearchStart (vol s') = allocSearchStart (vol s)" and "unat (clusterCount (vol s')) = clusters ?b"
    and "fatType (vol s') = (if clusters ?b < 65525 then 16 else 32)"
    and "unat (dataStartBlock (vol s')) = unat st + data_sector ?b"
proof -
  obtain s1 where s1: "cacheRawBlock ops st CACHE_FOR_READ s = (True, s1)" "quiet good disk lim s s1"
      "\<not> cacheDirty s1" "cacheBuffer s1 = view disk s st"
    by (rule load_block [OF ok st], rule that)
  note q = quietD [OF s1(2)]
  obtain v' where v': "initGeometry st ?b (vol s1) = (True, v')" "geom lim v'"
      "allocSearchStart v' = allocSearchStart (vol s1)" "unat (clusterCount v') = clusters ?b"
      "fatType v' = (if clusters ?b < 65525 then 16 else 32)"
      "unat (dataStartBlock v') = unat st + data_sector ?b"
    by (rule initGeometry_spec [OF l], rule that)
  have "bytesPerSector ?b = 512" "bpb_fatCount ?b \<noteq> 0" "reservedSectorCount ?b \<noteq> 0" "sectorsPerCluster ?b \<noteq> 0"
    using l by (auto simp: layout_ok_def)
  moreover have "cache_ok good disk lim (s1\<lparr>vol := v'\<rparr>)"
    using q(1) s1(3) by (auto simp: cache_ok_def)
  ultimately show ?thesis
    using s1 v' q by (intro that [of "s1\<lparr>vol := v'\<rparr>"]) (simp_all add: Let_def)
qed

lemma initVolume_mounts:
  assumes "cache_ok good disk lim s" and "\<not> cacheDirty s"
    and "allocSearchStart (vol s) = 2" and "unat (boot_start (view disk s)) < lim"
    and "layout_ok (unat (boot_start (view disk s))) lim (boot_params (view disk s))"
  shows "\<exists>s'. initVolume ops s = (True, s') \<and> mounted ops good disk lim s' \<and> view disk s' = view disk s \<and>
    unat (clusterCount (vol s')) = clusters (boot_params (view disk s)) \<and>
    fatType (vol s') = (if clusters (boot_params (view disk s)) < 65525 then 16 else 32) \<and>
    unat (dataStartBlock (vol s')) =
      unat (boot_start (view disk s)) + data_sector (boot_params (view disk s))"
proof -
  let ?D = "view disk s" and ?st = "boot_start (view disk s)"
  let ?p = "part (mbr_of_block (?D 0)) ! 0"
  have lim0: "unat (0 :: u32) < lim" using assms(4) by simp
  obtain s1 where s1: "cacheRawBlock ops 0 CACHE_FOR_READ s = (True, s1)" "quiet good disk lim s s1"
      "\<not> cacheDirty s1" "cacheBuffer s1 = ?D 0"
    by (rule load_block [OF assms(1,2) lim0], rule that)
  note q = quietD [OF s1(2)]
  have l: "layout_ok (unat ?st) lim (bpb (fbs_of_block (view disk s1 ?st)))"
    using assms(5) q(2) by (simp add: boot_params_def)
  obtain s' where b: "seqOk (cacheRawBlock ops ?st CACHE_FOR_READ s1) (\<lambda>s.
       let b = bpb (fbs_of_block (cacheBuffer s)) in
       if bytesPerSector b \<noteq> 512 \<or> bpb_fatCount b = 0 \<or> reservedSectorCount b = 0 \<or> sectorsPerCluster b = 0
       then (False, s)
       else case initGeometry ?st b (vol s) of (ok, v) \<Rightarrow> (ok, s\<lparr>vol := v\<rparr>)) = (True, s')"
      "cache_ok good disk lim s'" "view disk s' = view disk s" "geom lim (vol s')"
      "allocSearchStart (vol s') = allocSearchStart (vol s1)"
      "unat (clusterCount (vol s')) = clusters (boot_params ?D)"
      "fatType (vol s') = (if clusters (boot_params ?D) < 65525 then 16 else 32)"
      "unat (dataStartBlock (vol s')) = unat ?st + data_sector (boot_params ?D)"
    by (rule initBoot_spec [OF q(1) s1(3) assms(4) l], unfold q(2) boot_params_def [symmetric], rule that)
  have "initVolume ops s = (True, s')"
  proof (cases "boot ?p AND 0x7F \<noteq> 0 \<or> totalSectors ?p < 100 \<or> firstSector ?p = 0")
    case True
    then have "initPart ops 1 s = (False, s1)" using s1(1,4) by (simp add: initPart_def Let_def)
    moreover have z: "?st = 0" using True by (simp add: boot_start_def Let_def)
    have "initPart ops 0 s1 = (True, s')" using b(1) unfolding z by (simp add: initPart_def)
    ultimately show ?thesis by (simp add: initVolume_def)
  next
    case False
    then have z: "?st = firstSector ?p" by (simp add: boot_start_def Let_def)
    have "initPart ops 1 s = (True, s')" using False s1(1,4) b(1) unfolding z by (simp add: initPart_def)
    then show ?thesis by (simp add: initVolume_def)
  qed
  moreover have "start_ok (vol s')"
    using b(5) q(4) assms(3) by (simp add: start_ok_def)
  ultimately show ?thesis using b q(2) block_device_axioms by (simp add: mounted_def)
qed

end

text \<open>
  C16. Mounting a formatted card: from the volume of partition one, or from block zero when
  there is no such partition, init computes the cluster count, the FAT type and the
  start of the data that the layout has in natural numbers, and leaves a state in which
  all the other properties hold, with the card unchanged.
\<close>

lemma init_mounts_formatted_card:
  assumes "block_device ops good disk lim" and "cache_ok good disk lim s" and "\<not> cacheDirty s"
    and "allocSearchStart (vol s) = 2" and "unat (boot_start (view disk s)) < lim"
    and "layout_ok (unat (boot_start (view disk s))) lim (boot_params (view disk s))"
  shows "\<exists>s'. initVolume ops s = (True, s') \<and> mounted ops good disk lim s' \<and> view disk s' = view disk s \<and>
    unat (clusterCount (vol s')) = clusters (boot_params (view disk s)) \<and>
    fatType (vol s') = (if clusters (boot_params (view disk s)) < 65525 then 16 else 32) \<and>
    unat (dataStartBlock (vol s')) =
      unat (boot_start (view disk s)) + data_sector (boot_params (view disk s))"
  by (rule block_device.initVolume_mounts [OF assms])

lemma init_mounts_formatted_card_witness:
  "\<exists>s'. initVolume ex_ops (fs_new ex_card) = (True, s') \<and> unat (clusterCount (vol s')) = 5000 \<and>
    fatType (vol s') = 16 \<and> unat (dataStartBlock (vol s')) = 73"
proof -
  have v: "view (sd_disk store) (fs_new ex_card) = ex_disk"
    using ex_sd_disk by (simp add: view_clean fs_new_def ex_s_def)
  have p: "boot_start ex_disk = 0"
    by (simp add: boot_start_def ex_disk_def ex_boot_def mbr_of_block_def part_of_bytes_def get32_def get16_def
        slice_def nth_append Let_def)
  have b: "bytesPerSector (boot_params ex_disk) = 512" "sectorsPerCluster (boot_params ex_disk) = 1"
      "reservedSectorCount (boot_params ex_disk) = 1" "bpb_fatCount (boot_params ex_disk) = 2"
      "bpb_rootDirEntryCount (boot_params ex_disk) = 512" "totalSectors16 (boot_params ex_disk) = 5073"
      "sectorsPerFat16 (boot_params ex_disk) = 20"
    by (simp_all add: boot_params_def p ex_disk_def ex_boot_def fbs_of_block_def bpb_of_bytes_def get16_def
        slice_def nth_append)
  have d: "data_sector (boot_params ex_disk) = 73" "clusters (boot_params ex_disk) = 5000"
      "all_sectors (boot_params ex_disk) = 5073" "fat_sectors (boot_params ex_disk) = 20"
    using b by (simp_all add: data_sector_def clusters_def all_sectors_def fat_sectors_def root_sectors_def)
  have "layout_ok 0 ex_lim (boot_params ex_disk)"
    using b d by (auto simp: layout_ok_def intro: exI [of _ 0])
  moreover have "cache_ok ex_good (sd_disk store) ex_lim (fs_new ex_card)"
    using ex_card_good by (simp add: cache_ok_def fs_new_def)
  ultimately show ?thesis
    using init_mounts_formatted_card [OF ex_device, of "fs_new ex_card"] v p d
    by (simp add: fs_new_def sdvolume_new_def) blast
qed

end
