(* ===== verification/TableProps.thy ===== *)
theory TableProps
  imports FileProps
begin

text \<open>
  The properties of the block cache, the File Allocation Table, allocation and cluster
  chains, each with its instance on the volume of SdExample.
\<close>

section \<open>The cache\<close>

definition ex_dirty :: "slave sd2card fs" where
  "ex_dirty = ex_s\<lparr>cacheBlockNumber := 1, cacheBuffer := replicate 512 7, cacheDirty := True,
     cacheMirrorBlock := 21\<rparr>"

lemma ex_dirty_cache: "cache_ok ex_good (sd_disk store) ex_lim ex_dirty"
  using ex_card_good by (simp add: cache_ok_def ex_dirty_def ex_s_def fs_new_def ex_vol_def)

text \<open>
  After cacheFlush the card itself holds what the library sees: the cached block has been
  written to its place, and to its mirror in the second FAT, and nothing else.
\<close>

lemma flush_makes_card_current:
  assumes "block_device ops good disk lim" and "cache_ok good disk lim s"
  shows "\<exists>s'. cacheFlush ops s = (True, s') \<and> disk (card s') = view disk s \<and>
    \<not> cacheDirty s' \<and> cacheMirrorBlock s' = 0 \<and> cache_ok good disk lim s'"
proof -
  obtain s' where s': "cacheFlush ops s = (True, s')" "quiet good disk lim s s'" "\<not> cacheDirty s'"
    by (rule block_device.cacheFlush_spec [OF assms], rule that)
  note q = quietD [OF s'(2)]
  show ?thesis using s'(1,3) q view_clean [OF s'(3), of disk] by (auto simp: cache_ok_def)
qed

lemma flush_makes_card_current_witness:
  "\<exists>s'. cacheFlush ex_ops ex_dirty = (True, s') \<and> sd_disk store (card s') 1 = replicate 512 7 \<and>
    sd_disk store (card s') 21 = replicate 512 7 \<and> sd_disk store (card s') 41 = ex_root"
  using flush_makes_card_current [OF ex_device ex_dirty_cache]
  by (auto simp: view_def ex_dirty_def ex_disk_def)

section \<open>The table\<close>

text \<open>
  fatPut and fatGet agree with a table as a function: after fatPut the entry read back
  is the value, cut to the width of the FAT, every other entry is unchanged, the card is
  written nowhere but in the FATs, and both copies of the FAT receive the same block.
\<close>

lemma fatPut_then_fatGet:
  assumes "mounted ops good disk lim s" and "data_cluster (vol s) c" and "in_fat (vol s) d"
  shows "\<exists>s1 s2. fatPut ops c x s = (True, s1) \<and>
    fatGet ops d s1 = (Some (if d = c then fat_trunc (vol s) x else fat_entry (view disk s) (vol s) d), s2) \<and>
    (1 < fatCount (vol s) \<longrightarrow>
      view disk s1 (fatLba (vol s) c + blocksPerFat (vol s)) = view disk s1 (fatLba (vol s) c)) \<and>
    (\<forall>b. \<not> fat_region (vol s) b \<longrightarrow> view disk s1 b = view disk s b)"
proof -
  note dev = mountedD(1) [OF assms(1)] and ok = mountedD(2) [OF assms(1)] and g = mountedD(3) [OF assms(1)]
  note cf = data_cluster_in_fat [OF assms(2)]
  obtain s1 where s1: "fatPut ops c x s = (True, s1)" "cache_ok good disk lim s1"
      "view disk s1 = fat_store (view disk s) (vol s) c x" "env s1 = env s"
    by (rule block_device.fatPut_spec [OF dev ok g assms(2), of x], rule that)
  have v: "vol s1 = vol s" by (rule env_vol [OF s1(4)])
  obtain s2 where s2: "fatGet ops d s1 = (Some (fat_entry (view disk s1) (vol s1) d), s2)"
    by (rule block_device.fatGet_spec [OF dev s1(2), of d], simp add: v g, simp add: v assms(3), rule that)
  have e: "fat_entry (view disk s1) (vol s) d =
      (if d = c then fat_trunc (vol s) x else fat_entry (view disk s) (vol s) d)"
    unfolding s1(3) by (rule fat_entry_fat_store [OF g])
      (use block_device.view_length [OF dev ok] assms(3) cf in auto)
  have "view disk s1 (fatLba (vol s) c + blocksPerFat (vol s)) = view disk s1 (fatLba (vol s) c)"
    if "1 < fatCount (vol s)"
    using that unfolding s1(3) by (simp add: fat_store_def Let_def)
  moreover have "view disk s1 b = view disk s b" if "\<not> fat_region (vol s) b" for b
    unfolding s1(3) using fat_store_outside [OF g cf that] .
  ultimately show ?thesis using s1(1) s2 e v by auto
qed

lemma fatPut_then_fatGet_witness:
  "\<exists>s1 s2. fatPut ex_ops 5 0x12345 ex_s = (True, s1) \<and> fatGet ex_ops 5 s1 = (Some 0x2345, s2)"
proof -
  have "data_cluster (vol ex_s) 5" "in_fat (vol ex_s) 5"
    by (simp_all add: data_cluster_def in_fat_def) (simp_all add: ex_vol_def)
  from fatPut_then_fatGet [OF ex_mounted this, of "0x12345"] show ?thesis
    by (auto simp: fat_trunc_def ex_vol_def)
qed

section \<open>Allocation\<close>

text \<open>
  C31. allocContiguous, when it hands out a first cluster, has found as many free clusters in
  a row as were asked for, has linked each to the next and marked the last as the end, and
  has hung them behind the current cluster; no other entry and no block outside the FATs
  has changed.  When it fails it has changed nothing.
\<close>

lemma allocContiguous_links_free_run:
  assumes "mounted ops good disk lim s"
    and "cur = 0 \<or> data_cluster (vol s) cur \<and> fat_entry (view disk s) (vol s) cur \<noteq> 0"
    and "allocContiguous ops count cur s = (r, s')"
  shows "case r of
      None \<Rightarrow> view disk s' = view disk s \<and> vol s' = vol s
    | Some b \<Rightarrow> \<exists>e. free_run (fat_entry (view disk s) (vol s)) (vol s) count b e \<and>
        (\<forall>y. in_fat (vol s) y \<longrightarrow> fat_entry (view disk s') (vol s) y =
           alloc_table (fat_entry (view disk s) (vol s)) (vol s) cur b e y) \<and>
        (\<forall>k. \<not> fat_region (vol s) k \<longrightarrow> view disk s' k = view disk s k)"
proof -
  note st = mountedD(4) [OF assms(1), unfolded start_ok_def]
  have st1: "2 \<le> unat (allocSearchStart (vol s))" and st2: "unat (allocSearchStart (vol s)) \<le> unat (clusterCount (vol s)) + 2"
    using st by blast+
  show ?thesis
  proof (rule disjE [OF block_device.allocContiguous_spec [OF mountedD(1-3) [OF assms(1)] st1 st2, of cur count]])
    show "data_cluster (vol s) cur \<and> fat_entry (view disk s) (vol s) cur \<noteq> 0" if "cur \<noteq> 0"
      using assms(2) that by blast
  qed (use assms(3) in \<open>auto simp: fat_updated_def dest: quietD\<close>)
qed

lemma allocContiguous_links_free_run_witness:
  "case allocContiguous ex_ops 3 0 ex_s of (r, s') \<Rightarrow>
     (case r of
        None \<Rightarrow> view (sd_disk store) s' = ex_disk \<and> vol s' = ex_vol
      | Some b \<Rightarrow> \<exists>e. free_run (fat_entry ex_disk ex_vol) ex_vol 3 b e \<and>
          (\<forall>y. in_fat ex_vol y \<longrightarrow> fat_entry (view (sd_disk store) s') ex_vol y =
             alloc_table (fat_entry ex_disk ex_vol) ex_vol 0 b e y) \<and>
          (\<forall>k. \<not> fat_region ex_vol k \<longrightarrow> view (sd_disk store) s' k = ex_disk k))"
proof (cases "allocContiguous ex_ops 3 0 ex_s")
  case (Pair r s')
  show ?thesis
    using allocContiguous_links_free_run [OF ex_mounted _ Pair, unfolded ex_view ex_vol_s] Pair by simp
qed

text \<open>
  A single cluster is refused only when there is none: the search goes round the whole
  volume from wherever it starts.
\<close>

lemma alloc_one_fails_only_when_full:
  assumes "mounted ops good disk lim s"
    and "cur = 0 \<or> data_cluster (vol s) cur \<and> fat_entry (view disk s) (vol s) cur \<noteq> 0"
  shows "fst (allocContiguous ops 1 cur s) = None \<longleftrightarrow>
    (\<nexists>c. data_cluster (vol s) c \<and> fat_entry (view disk s) (vol s) c = 0)"
proof (cases "\<exists>x. free_cluster (view disk s) (vol s) x")
  case True
  then obtain x where x: "free_cluster (view disk s) (vol s) x" by blast
  obtain b s' where "allocContiguous ops 1 cur s = (Some b, s')"
    by (rule block_device.alloc_one [OF mountedD [OF assms(1)] _ x, of cur], use assms(2) in blast, rule that)
  then show ?thesis using True by (auto simp: free_cluster_def)
next
  case False
  then show ?thesis
    using block_device.alloc_none [OF mountedD [OF assms(1)] _ False, of cur] assms(2) by (auto simp: free_cluster_def)
qed

lemma alloc_one_fails_only_when_full_witness: "fst (allocContiguous ex_ops 1 3 ex_s) \<noteq> None"
proof -
  have "data_cluster ex_vol 3" by (simp add: data_cluster_def ex_vol_def)
  then show ?thesis
    using alloc_one_fails_only_when_full [OF ex_mounted, of 3] ex_free by (auto simp: free_cluster_def)
qed

section \<open>Chains\<close>

text \<open>
  freeChain on a chain ends, frees exactly the clusters of the chain, leaves every other
  entry and every block outside the FATs alone, and lets the next search start from the
  beginning.
\<close>

lemma freeChain_frees_exactly:
  assumes "mounted ops good disk lim s" and "fat_chain (view disk s) (vol s) (c # cs)"
  shows "\<exists>s'. freeChain ops c s = Some (True, s') \<and> vol s' = vol s\<lparr>allocSearchStart := 2\<rparr> \<and>
    (\<forall>y. in_fat (vol s) y \<longrightarrow> fat_entry (view disk s') (vol s) y =
       (if y \<in> set (c # cs) then 0 else fat_entry (view disk s) (vol s) y)) \<and>
    (\<forall>k. \<not> fat_region (vol s) k \<longrightarrow> view disk s' k = view disk s k)"
  using block_device.freeChain_chain [OF mountedD(1-3) [OF assms(1)] assms(2)]
  unfolding fat_updated_def by blast

lemma freeChain_frees_exactly_witness:
  "\<exists>s'. freeChain ex_ops 2 ex_s = Some (True, s') \<and> fat_entry (view (sd_disk store) s') ex_vol 3 = 0 \<and>
    fat_entry (view (sd_disk store) s') ex_vol 4 = 0xFFFF"
proof -
  have "fat_chain (view (sd_disk store) ex_s) (vol ex_s) (2 # [3])" using ex_chains by simp
  from freeChain_frees_exactly [OF ex_mounted this] obtain s' where
    a: "freeChain ex_ops 2 ex_s = Some (True, s')"
      "\<forall>y. in_fat ex_vol y \<longrightarrow> fat_entry (view (sd_disk store) s') ex_vol y =
       (if y \<in> set [2, 3] then 0 else fat_entry ex_disk ex_vol y)"
    unfolding ex_view ex_vol_s by blast
  have "in_fat ex_vol 3" "in_fat ex_vol 4" by (simp_all add: in_fat_def ex_vol_def)
  with a show ?thesis by auto
qed

text \<open>
  C34. freeChain ends on every table, corrupt ones included: it zeroes an entry in each round,
  so a cycle of clusters comes to a free entry and the loop stops.
\<close>

lemma freeChain_always_returns:
  assumes "block_device ops good disk lim" and "cache_ok good disk lim s" and "geom lim (vol s)"
  shows "freeChain ops c s \<noteq> None"
  using block_device.freeLoop_returns [OF assms(1), of "s\<lparr>vol := vol s\<lparr>allocSearchStart := 2\<rparr>\<rparr>" c] assms(2,3)
  by (auto simp: freeChain_def)

lemma freeChain_always_returns_witness: "freeChain ex_ops 4242 ex_s \<noteq> None"
  using freeChain_always_returns [OF ex_device ex_cache, of 4242] ex_geom by simp

text \<open>
  chainSize of a chain is the number of its clusters times the bytes of a cluster (in 32
  bits); the table is only read.
\<close>

lemma chainSize_counts_clusters:
  assumes "mounted ops good disk lim s" and "fat_chain (view disk s) (vol s) (c # cs)"
  shows "\<exists>s'. chainSize ops c s =
      Some (Some (of_nat (length (c # cs)) * push_bit (unat (clusterSizeShift (vol s))) 512), s') \<and>
    view disk s' = view disk s \<and> mounted ops good disk lim s'"
proof -
  obtain s' where s': "chainSize ops c s =
      Some (Some (of_nat (length (c # cs)) * push_bit (unat (clusterSizeShift (vol s))) 512), s')"
      "quiet good disk lim s s'"
    by (rule block_device.chainSize_chain [OF mountedD(1-3) [OF assms(1)] assms(2)], rule that)
  then show ?thesis using quietD [OF s'(2)] assms(1) by (auto simp: mounted_def)
qed

lemma chainSize_counts_clusters_witness: "\<exists>s'. chainSize ex_ops 2 ex_s = Some (Some 1024, s')"
proof -
  have "fat_chain (view (sd_disk store) ex_s) (vol ex_s) (2 # [3])" using ex_chains by simp
  from chainSize_counts_clusters [OF ex_mounted this] show ?thesis by (auto simp: ex_vol_def)
qed

text \<open>
  On a cyclic table chainSize never ends: if every cluster of a set has its successor in
  the set, the loop that starts in the set does not return.
\<close>

lemma chainSize_hangs_on_cycle:
  assumes "mounted ops good disk lim s" and "c \<in> S"
    and "\<forall>x \<in> S. in_fat (vol s) x \<and> fat_entry (view disk s) (vol s) x \<in> S"
  shows "chainSize ops c s = None"
  using block_device.chainLoop_cycle [OF mountedD(1-3) [OF assms(1)] _ assms(2), of 0] assms(3)
  by (simp add: chainSize_def)

text \<open>Cluster 2 of the example linked to itself, in the dirty cache.\<close>

definition ex_loop :: "slave sd2card fs" where
  "ex_loop = ex_s\<lparr>cacheBlockNumber := 1, cacheBuffer := put16 ex_fat 4 2, cacheDirty := True\<rparr>"

lemma chainSize_hangs_on_cycle_witness: "chainSize ex_ops 2 ex_loop = None"
proof -
  have "cache_ok ex_good (sd_disk store) ex_lim ex_loop"
    using ex_card_good by (simp add: cache_ok_def ex_loop_def ex_s_def fs_new_def ex_vol_def put16_def ex_fat_def)
  then have m: "mounted ex_ops ex_good (sd_disk store) ex_lim ex_loop"
    using ex_geom ex_start by (simp add: mounted_def ex_device ex_loop_def)
  have "view (sd_disk store) ex_loop 1 = put16 ex_fat 4 2" by (simp add: view_def ex_loop_def)
  then have "fat_entry (view (sd_disk store) ex_loop) ex_vol 2 = 2" "in_fat ex_vol 2"
    by (simp_all add: fat_entry_def in_fat_def fatLba_def ex_vol_def put16_def ex_fat_def get16_def)
  then show ?thesis using chainSize_hangs_on_cycle [OF m, of 2 "{2}"] by (simp add: ex_loop_def)
qed

section \<open>A dirty block overtaken by a direct write\<close>

text \<open>
  A full block written past the cache while the same block is dirty in the cache:
  the write succeeds and the block number of the cache is reset, but not its dirty flag, so
  on a card that refuses block 0xFFFFFFFF every later flush fails and leaves the cache dirty.
\<close>

lemma overtaken_dirty_block_sticks:
  assumes "cacheDirty s" and "cacheBlockNumber s = b" and "length src = 512"
    and "card_writeBlock ops b src (card s) = (True, c)"
    and "\<forall>d c. fst (card_writeBlock ops 0xFFFFFFFF d c) = False"
  shows "\<exists>s1. writeChunk ops f b 0 512 src s = (True, s1) \<and>
    fst (cacheFlush ops s1) = False \<and> cacheDirty (snd (cacheFlush ops s1))"
proof -
  let ?s1 = "s\<lparr>cacheBlockNumber := 0xFFFFFFFF, card := c\<rparr>"
  have "writeChunk ops f b 0 512 src s = (True, ?s1)"
    using assms by (simp add: writeChunk_def Let_def)
  moreover have "fst (card_writeBlock ops 0xFFFFFFFF (cacheBuffer s) c) = False" using assms(5) by blast
  ultimately show ?thesis using assms(1) by (auto simp: cacheFlush_def Let_def split: prod.splits)
qed

text \<open>The least card: it stores nothing and refuses the block number that the cache is left with.\<close>

definition ex_null :: "unit card_ops" where
  "ex_null = \<lparr> card_readBlock = (\<lambda>b c. (None, c)), card_readData = (\<lambda>b off n c. (None, c)),
     card_writeBlock = (\<lambda>b d c. (b \<noteq> 0xFFFFFFFF, c)) \<rparr>"

lemma overtaken_dirty_block_sticks_witness:
  "\<exists>s1. writeChunk ex_null ex_f 73 0 512 (replicate 512 1)
      ((fs_new ())\<lparr>cacheBlockNumber := 73, cacheDirty := True\<rparr>) = (True, s1) \<and>
    fst (cacheFlush ex_null s1) = False"
  using overtaken_dirty_block_sticks [of "(fs_new ())\<lparr>cacheBlockNumber := 73, cacheDirty := True\<rparr>" 73
    "replicate 512 1" ex_null "()" ex_f] by (auto simp: ex_null_def fs_new_def)

end
