(* ===== verification/DriverProps.thy ===== *)
theory DriverProps
  imports SdExample
begin

text \<open>
  The properties of the SPI transfers and of the SD card driver.
\<close>

section \<open>SPI transfers\<close>

text \<open>
  writeBytes sends a byte string of any length, cut into runs of at most 64 bytes
  through the hardware buffer, exactly as sending its bytes one by one would: the device
  ends up in the same state.
\<close>

lemma spi_writeBytes_sends_bytes:
  assumes "spi_ok p" and "length data = n"
  shows "dev (spi_writeBytes w data n p) = snd (exchanges w data (dev p)) \<and> spi_ok (spi_writeBytes w data n p)"
proof -
  obtain rs d where "exchanges w data (dev p) = (rs, d)" by fastforce
  then show ?thesis using spi_writeBytes_sent [OF assms] by (simp add: spi_sent_def)
qed

lemma spi_writeBytes_sends_bytes_witness:
  "dev (spi_writeBytes slave_wire (replicate 100 1) 100 (spi_new ex_slave)) =
    snd (exchanges slave_wire (replicate 100 1) ex_slave)"
  using spi_writeBytes_sends_bytes [of "spi_new ex_slave" "replicate 100 1" 100 slave_wire]
  by (simp add: spi_ok_def spi_new_def)

text \<open>
  transferBytes without data to send returns the replies to as many bytes 0xFF, one for
  each byte asked for, whatever the length, and leaves the device as those exchanges do.
\<close>

lemma spi_transferBytes_returns_replies:
  assumes "spi_ok p"
  shows "fst (spi_transferBytes w None n p) = fst (exchanges w (replicate n 0xFF) (dev p)) \<and>
    dev (snd (spi_transferBytes w None n p)) = snd (exchanges w (replicate n 0xFF) (dev p))"
proof -
  obtain rs d where "exchanges w (replicate n 0xFF) (dev p) = (rs, d)" by fastforce
  then show ?thesis using spi_transferBytes_sent [OF assms] by (simp add: spi_sent_def)
qed

lemma spi_transferBytes_returns_replies_witness:
  "fst (spi_transferBytes slave_wire None 70 (spi_new ex_slave)) = fst (exchanges slave_wire (replicate 70 0xFF) ex_slave)"
  using spi_transferBytes_returns_replies [of "spi_new ex_slave" slave_wire 70] by (simp add: spi_ok_def spi_new_def)

section \<open>The card driver\<close>

text \<open>
  C7. On a card that keeps the protocol, writeBlock succeeds and readBlock of the same block
  then returns the data, while every other block keeps its contents: over any latencies
  of the card within the time limits, and through the chunked SPI transfers.
\<close>

lemma driver_reads_what_it_wrote:
  assumes "sd_bus w hc pin ready free selected mem lim" and "sd_good hc pin ready c"
    and "unat b < lim" and "b \<noteq> 0" and "length data = 512"
  shows "\<exists>c1 c2. writeBlock w b data c = Some (True, c1) \<and> readBlock w b c1 = Some (Some data, c2) \<and>
    sd_disk mem c2 = (sd_disk mem c)(b := data) \<and> sd_good hc pin ready c2"
proof -
  obtain c1 where c1: "writeBlock w b data c = Some (True, c1)" "sd_good hc pin ready c1"
      "sd_disk mem c1 = (sd_disk mem c)(b := data)"
    by (rule sd_bus.writeBlock_law [OF assms], rule that)
  obtain c2 where "readData w b 0 512 c1 = Some (Some (take (unat (512 :: u16)) (sd_disk mem c1 b)), c2)"
      "sd_good hc pin ready c2" "sd_disk mem c2 = sd_disk mem c1"
    by (rule sd_bus.readData_law [OF assms(1) c1(2) assms(3), of 512], simp, rule that)
  then show ?thesis using c1 assms(5) by (simp add: readBlock_def)
qed

lemma driver_reads_what_it_wrote_witness:
  "\<exists>c1 c2. writeBlock slave_wire 100 (replicate 512 9) ex_card = Some (True, c1) \<and>
    readBlock slave_wire 100 c1 = Some (Some (replicate 512 9), c2)"
  using driver_reads_what_it_wrote [OF ex_bus ex_card_good, of 100 "replicate 512 9"] by auto

text \<open>
  C40. The time limit of waitNotBusy can be lost.  The times are 16 bits wide but their
  difference is not: when the wait begins within the last \<open>timeout\<close> milliseconds before the
  16 bit clock wraps, no later time is ever too late, and on a card that stays busy the
  call does not return.
\<close>

lemma waitNotBusy_hangs_before_wrap:
  assumes "spi_ok (spi c)" and "\<forall>d. fst (exchange w 0xFF d) \<noteq> 0xFF"
    and "millis16 w c = (t0, c1)" and "65536 \<le> unat t0 + unat timeout"
  shows "waitNotBusy w timeout c = None"
proof (rule ccontr)
  assume "waitNotBusy w timeout c \<noteq> None"
  then obtain r where ret: "notBusyLoop w t0 timeout c1 = Some r"
    using assms(3) by (auto simp: waitNotBusy_def)
  have "w = w \<longrightarrow> spi_ok (spi c1) \<longrightarrow> t0 = t0 \<longrightarrow> timeout = timeout \<longrightarrow> False"
  proof (rule notBusyLoop.raw_induct [where P = "\<lambda>w' t tm c r. w' = w \<longrightarrow> spi_ok (spi c) \<longrightarrow> t = t0 \<longrightarrow> tm = timeout \<longrightarrow> False",
        OF _ ret])
    fix f and w' :: "'a wire" and t tm and c :: "'a sd2card" and r
    assume IH: "\<And>w' t tm c r. f w' t tm c = Some r \<Longrightarrow> w' = w \<longrightarrow> spi_ok (spi c) \<longrightarrow> t = t0 \<longrightarrow> tm = timeout \<longrightarrow> False"
      and step: "(case spiRec w' c of (b, c) \<Rightarrow>
        if b = 0xFF then Some (True, c)
        else case millis16 w' c of (t', c) \<Rightarrow>
            if elapsed t' t < int (unat tm) then f w' t tm c else Some (False, c)) = Some r"
    show "w' = w \<longrightarrow> spi_ok (spi c) \<longrightarrow> t = t0 \<longrightarrow> tm = timeout \<longrightarrow> False"
    proof (intro impI)
      assume e: "w' = w" "spi_ok (spi c)" "t = t0" "tm = timeout"
      obtain b d where x: "exchange w 0xFF (dev (spi c)) = (b, d)" by fastforce
      obtain c' where c': "spiRec w c = (b, c')" "on_bus c c' d" by (rule spiRec_bus [OF e(2) x], rule that)
      have b: "b \<noteq> 0xFF" using assms(2) x by (metis fst_conv)
      obtain t' c'' where m: "millis16 w c' = (t', c'')" by fastforce
      then have ok: "spi_ok (spi c'')"
        using on_busD(1) [OF c'(2)] by (auto simp: millis16_def spi_ok_def split: prod.splits)
      have "elapsed t' t0 < int (unat timeout)"
        using assms(4) unat_bound(2) [of t'] unfolding elapsed_def by linarith
      then have "f w t0 timeout c'' = Some r" using step e c'(1) b m by simp
      from IH [OF this] ok show False by simp
    qed
  qed
  moreover have "spi_ok (spi c1)"
    using assms(1,3) by (auto simp: millis16_def spi_ok_def split: prod.splits)
  ultimately show False by simp
qed

text \<open>A card that is always busy, at 65.3 seconds.\<close>

definition ex_busy :: "unit wire" where
  "ex_busy = \<lparr> exchange = (\<lambda>b d. (0, d)), millis = (\<lambda>d. (65300, d)), digitalWrite = (\<lambda>p v d. d) \<rparr>"

lemma waitNotBusy_hangs_before_wrap_witness: "waitNotBusy ex_busy 300 (sd2card_new ()) = None"
  using waitNotBusy_hangs_before_wrap [of "sd2card_new ()" ex_busy 65300 "sd2card_new ()" 300]
  by (simp add: sd2card_new_def spi_new_def spi_ok_def ex_busy_def millis16_def)

end
