(* ===== verification/SdPath.thy ===== *)
theory SdPath
  imports SdFile
begin

text \<open>
  The friendly layer: paths and the SDClass object of SD/src/SD.cpp and SD.h, and the
  File objects of SD/src/File.cpp.  A path is the list of its characters; the
  character at its length is the NUL.  SDClass keeps one SdFile, the root directory,
  next to the card and the volume, which are in the state of the volume.
\<close>

definition FILE_READ :: u8 where [simp]: "FILE_READ = O_READ"
definition FILE_WRITE :: u8 where [simp]: "FILE_WRITE = O_READ OR O_WRITE OR O_CREAT"
definition MAX_COMPONENT_LEN :: nat where [simp]: "MAX_COMPONENT_LEN = 12"

section \<open>Path components\<close>

definition charAt :: "u8 list \<Rightarrow> nat \<Rightarrow> u8" where
  "charAt path i = (if i < length path then path ! i else 0)"

text \<open>The loop that copies a component; the first argument is \<open>MAX_COMPONENT_LEN - bufferOffset\<close>.\<close>

fun componentLoop :: "nat \<Rightarrow> u8 list \<Rightarrow> nat \<Rightarrow> u8 list \<times> nat" where
  "componentLoop 0 path offset = ([], offset)"
| "componentLoop (Suc k) path offset =
     (if charAt path offset \<noteq> 0x2F \<and> charAt path offset \<noteq> 0 then
        case componentLoop k path (offset + 1) of (buffer, e) \<Rightarrow> (charAt path offset # buffer, e)
      else ([], offset))"

definition getNextPathComponent :: "u8 list \<Rightarrow> nat \<Rightarrow> bool \<times> nat \<times> u8 list" where
  "getNextPathComponent path offset =
     (let offset = (if charAt path offset = 0x2F then offset + 1 else offset) in
      case componentLoop MAX_COMPONENT_LEN path offset of (buffer, offset) \<Rightarrow>
        let offset = (if charAt path offset = 0x2F then offset + 1 else offset)
        in (charAt path offset \<noteq> 0, offset, buffer))"

section \<open>Walking a path\<close>

text \<open>
  walkPath switches between three SdFile objects through pointers: the caller's
  directory and two of its own.  The pointers are handles into a small store.
\<close>

datatype handle = ParentDir | Subfile1 | Subfile2

type_synonym handles = "handle \<Rightarrow> sdfile"

type_synonym 'c callback = "sdfile \<Rightarrow> u8 list \<Rightarrow> bool \<Rightarrow> 'c fs \<Rightarrow> (bool \<times> sdfile \<times> 'c fs) option"

text \<open>\<open>if (p_parent != &parentDir) (*p_parent).close();\<close> with the result ignored.\<close>

definition closeOwn :: "'c card_ops \<Rightarrow> handle \<Rightarrow> handles \<Rightarrow> 'c fs \<Rightarrow> handles \<times> 'c fs" where
  "closeOwn ops p_parent H s =
     (if p_parent \<noteq> ParentDir then
        case close ops (H p_parent) s of (ok, f, s) \<Rightarrow> (H(p_parent := f), s)
      else (H, s))"

partial_function (option) walkLoop ::
  "'c card_ops \<Rightarrow> u8 list \<Rightarrow> 'c callback \<Rightarrow> nat \<Rightarrow> handle \<Rightarrow> handle \<Rightarrow> handles \<Rightarrow> 'c fs
   \<Rightarrow> (bool \<times> handles \<times> 'c fs) option" where
  "walkLoop ops filepath callback offset p_parent p_child H s =
     (case getNextPathComponent filepath offset of (moreComponents, offset, buffer) \<Rightarrow> do {
        (shouldContinue, d, s) \<leftarrow> callback (H p_parent) buffer (\<not> moreComponents) s;
        let H = H(p_parent := d) in
        if \<not> shouldContinue then
          (case closeOwn ops p_parent H s of (H, s) \<Rightarrow> Some (False, H, s))
        else if \<not> moreComponents then
          (case closeOwn ops p_parent H s of (H, s) \<Rightarrow> Some (True, H, s))
        else do {
          (exists, c, d, s) \<leftarrow> openName ops buffer O_READ (H p_child) (H p_parent) s;
          (case closeOwn ops p_parent (H(p_child := c, p_parent := d)) s of (H, s) \<Rightarrow>
             if exists then
               let p_parent = (if p_parent = ParentDir then Subfile2 else p_parent)
               in walkLoop ops filepath callback offset p_child p_parent H s
             else Some (False, H, s)) } })"

definition walkPath ::
  "'c card_ops \<Rightarrow> u8 list \<Rightarrow> 'c callback \<Rightarrow> sdfile \<Rightarrow> 'c fs \<Rightarrow> (bool \<times> sdfile \<times> 'c fs) option" where
  "walkPath ops filepath callback parentDir s = do {
     (r, H, s) \<leftarrow> walkLoop ops filepath callback 0 ParentDir Subfile1
                    ((\<lambda>_. sdfile_new)(ParentDir := parentDir)) s;
     Some (r, H ParentDir, s) }"

definition callback_pathExists :: "'c card_ops \<Rightarrow> 'c callback" where
  "callback_pathExists ops parentDir filePathComponent isLastComponent s = do {
     (exists, child, parentDir, s) \<leftarrow>
       openName ops filePathComponent O_READ sdfile_new parentDir s;
     Some (exists, parentDir,
           if exists then (case close ops child s of (ok, child, s) \<Rightarrow> s) else s) }"

definition callback_makeDirPath :: "'c card_ops \<Rightarrow> 'c callback" where
  "callback_makeDirPath ops parentDir filePathComponent isLastComponent s = do {
     (result, parentDir, s) \<leftarrow>
       callback_pathExists ops parentDir filePathComponent isLastComponent s;
     if \<not> result then do {
       (result, child, parentDir, s) \<leftarrow> makeDir ops filePathComponent sdfile_new parentDir s;
       Some (result, parentDir, s) }
     else Some (result, parentDir, s) }"

definition callback_remove :: "'c card_ops \<Rightarrow> 'c callback" where
  "callback_remove ops parentDir filePathComponent isLastComponent s =
     (if isLastComponent then removeName ops filePathComponent parentDir s
      else Some (True, parentDir, s))"

definition callback_rmdir :: "'c card_ops \<Rightarrow> 'c callback" where
  "callback_rmdir ops parentDir filePathComponent isLastComponent s =
     (if isLastComponent then do {
        (ok, f, parentDir, s) \<leftarrow> openName ops filePathComponent O_READ sdfile_new parentDir s;
        if \<not> ok then Some (False, parentDir, s)
        else do {
          (ok, f, s) \<leftarrow> rmDir ops f s;
          Some (ok, parentDir, s) } }
      else Some (True, parentDir, s))"

section \<open>File objects\<close>

record file_obj =
  fname :: "u8 list"
  sdf :: "sdfile option"
  fileWriteError :: bool

definition File_empty :: file_obj where
  "File_empty = \<lparr> fname = [], sdf = None, fileWriteError = False \<rparr>"

text \<open>
  The constructor from an SdFile; \<open>mem\<close> says that the allocation of the copy succeeds
  (when it fails the name is not set either).
\<close>

definition File_new :: "bool \<Rightarrow> sdfile \<Rightarrow> u8 list \<Rightarrow> file_obj" where
  "File_new mem f n =
     (if mem then \<lparr> fname = take 12 n, sdf = Some f, fileWriteError = False \<rparr> else File_empty)"

definition File_isDirectory :: "file_obj \<Rightarrow> bool" where
  "File_isDirectory F = (case sdf F of None \<Rightarrow> False | Some f \<Rightarrow> isDir f)"

definition File_write :: "'c card_ops \<Rightarrow> u8 list \<Rightarrow> u32 \<Rightarrow> file_obj \<Rightarrow> 'c fs \<Rightarrow> u32 \<times> file_obj \<times> 'c fs" where
  "File_write ops buf n F s =
     (case sdf F of
        None \<Rightarrow> (0, F\<lparr>fileWriteError := True\<rparr>, s)
      | Some f \<Rightarrow>
          case writeBytes ops buf (ucast n) (f\<lparr>writeError := False\<rparr>) s of (t, f, s) \<Rightarrow>
            let F = F\<lparr>sdf := Some f\<rparr> in
            if writeError f then (0, F\<lparr>fileWriteError := True\<rparr>, s) else (t, F, s))"

definition File_writeByte :: "'c card_ops \<Rightarrow> u8 \<Rightarrow> file_obj \<Rightarrow> 'c fs \<Rightarrow> u32 \<times> file_obj \<times> 'c fs" where
  "File_writeByte ops val F s = File_write ops [val] 1 F s"

text \<open>The \<open>int\<close> results are 32 bit; \<open>scast\<close> widens the \<open>int16_t\<close> of SdFile::read.\<close>

definition File_readByte :: "'c card_ops \<Rightarrow> file_obj \<Rightarrow> 'c fs \<Rightarrow> u32 \<times> file_obj \<times> 'c fs" where
  "File_readByte ops F s =
     (case sdf F of
        None \<Rightarrow> (-1, F, s)
      | Some f \<Rightarrow> case readByte ops f s of (r, f, s) \<Rightarrow> (scast r, F\<lparr>sdf := Some f\<rparr>, s))"

definition File_peek :: "'c card_ops \<Rightarrow> file_obj \<Rightarrow> 'c fs \<Rightarrow> u32 \<times> file_obj \<times> 'c fs" where
  "File_peek ops F s =
     (case sdf F of
        None \<Rightarrow> (0, F, s)
      | Some f \<Rightarrow>
          case readByte ops f s of (c, f, s) \<Rightarrow>
            case (if (scast c :: u32) \<noteq> -1 then seekCur ops (-1) f s else (True, f, s)) of
              (ok, f, s) \<Rightarrow> (scast c, F\<lparr>sdf := Some f\<rparr>, s))"

definition File_read ::
  "'c card_ops \<Rightarrow> u16 \<Rightarrow> file_obj \<Rightarrow> 'c fs \<Rightarrow> u32 \<times> u8 list \<times> file_obj \<times> 'c fs" where
  "File_read ops nbyte F s =
     (case sdf F of
        None \<Rightarrow> (0, [], F, s)
      | Some f \<Rightarrow>
          case read ops nbyte f s of (r, bs, f, s) \<Rightarrow> (scast r, bs, F\<lparr>sdf := Some f\<rparr>, s))"

definition File_position :: "file_obj \<Rightarrow> u32" where
  "File_position F = (case sdf F of None \<Rightarrow> -1 | Some f \<Rightarrow> curPosition f)"

definition File_size :: "file_obj \<Rightarrow> u32" where
  "File_size F = (case sdf F of None \<Rightarrow> 0 | Some f \<Rightarrow> fileSize f)"

definition File_available :: "file_obj \<Rightarrow> u32" where
  "File_available F = (case sdf F of None \<Rightarrow> 0 | Some f \<Rightarrow> File_size F - File_position F)"

definition File_flush :: "'c card_ops \<Rightarrow> file_obj \<Rightarrow> 'c fs \<Rightarrow> file_obj \<times> 'c fs" where
  "File_flush ops F s =
     (case sdf F of
        None \<Rightarrow> (F, s)
      | Some f \<Rightarrow> case sync ops f s of (ok, f, s) \<Rightarrow> (F\<lparr>sdf := Some f\<rparr>, s))"

definition File_seek :: "'c card_ops \<Rightarrow> u32 \<Rightarrow> file_obj \<Rightarrow> 'c fs \<Rightarrow> bool \<times> file_obj \<times> 'c fs" where
  "File_seek ops pos F s =
     (case sdf F of
        None \<Rightarrow> (False, F, s)
      | Some f \<Rightarrow> case seekSet ops pos f s of (ok, f, s) \<Rightarrow> (ok, F\<lparr>sdf := Some f\<rparr>, s))"

definition File_close :: "'c card_ops \<Rightarrow> file_obj \<Rightarrow> 'c fs \<Rightarrow> file_obj \<times> 'c fs" where
  "File_close ops F s =
     (case sdf F of
        None \<Rightarrow> (F, s)
      | Some f \<Rightarrow> case close ops f s of (ok, f, s) \<Rightarrow> (F\<lparr>sdf := None\<rparr>, s))"

definition File_bool :: "file_obj \<Rightarrow> bool" where
  "File_bool F = (case sdf F of None \<Rightarrow> False | Some f \<Rightarrow> isOpen f)"

definition File_rewindDirectory :: "file_obj \<Rightarrow> file_obj" where
  "File_rewindDirectory F =
     (if File_isDirectory F then F\<lparr>sdf := map_option rewind (sdf F)\<rparr> else F)"

text \<open>openNextFile dereferences \<open>_file\<close> without a check: on an empty File it has no result.\<close>

partial_function (option) nextFileLoop ::
  "'c card_ops \<Rightarrow> bool \<Rightarrow> u8 \<Rightarrow> sdfile \<Rightarrow> 'c fs \<Rightarrow> (file_obj \<times> sdfile \<times> 'c fs) option" where
  "nextFileLoop ops mem mode this s = do {
     (r, bs, this, s) \<leftarrow> readDir ops this s;
     if sint r > 0 then
       let p = dir_of_bytes bs in
       if dname p ! 0 = DIR_NAME_FREE then Some (File_empty, this, s)
       else if dname p ! 0 = DIR_NAME_DELETED \<or> dname p ! 0 = 0x2E then nextFileLoop ops mem mode this s
       else if \<not> DIR_IS_FILE_OR_SUBDIR p then nextFileLoop ops mem mode this s
       else do {
         (ok, f, this, s) \<leftarrow> openName ops (dirName p) mode sdfile_new this s;
         Some (if ok then File_new mem f (dirName p) else File_empty, this, s) }
     else Some (File_empty, this, s) }"

definition File_openNextFile ::
  "'c card_ops \<Rightarrow> bool \<Rightarrow> u8 \<Rightarrow> file_obj \<Rightarrow> 'c fs \<Rightarrow> (file_obj \<times> file_obj \<times> 'c fs) option" where
  "File_openNextFile ops mem mode F s =
     (case sdf F of
        None \<Rightarrow> None
      | Some this \<Rightarrow> do {
          (G, this, s) \<leftarrow> nextFileLoop ops mem mode this s;
          Some (G, F\<lparr>sdf := Some this\<rparr>, s) })"

section \<open>SDClass\<close>

text \<open>
  getParentDir: \<open>parent\<close> and \<open>subdir\<close> are the objects behind the two pointers.  When a
  directory cannot be opened the index is not set (\<open>None\<close>).
\<close>

partial_function (option) parentLoop ::
  "'c card_ops \<Rightarrow> u8 list \<Rightarrow> nat \<Rightarrow> sdfile \<Rightarrow> sdfile \<Rightarrow> 'c fs
   \<Rightarrow> (sdfile \<times> nat option \<times> 'c fs) option" where
  "parentLoop ops filepath index parent subdir s =
     (if 0x2F \<in> set filepath then
        if filepath ! 0 = 0x2F then parentLoop ops (drop 1 filepath) (index + 1) parent subdir s
        else
          let idx = unat (of_nat (length (takeWhile (\<lambda>c. c \<noteq> 0x2F) filepath)) :: u8);
              idx = (if idx > 12 then 12 else idx);
              subdirname = take idx filepath
          in case close ops subdir s of (ok, subdir, s) \<Rightarrow> do {
               (ok, subdir, parent, s) \<leftarrow> openName ops subdirname O_READ subdir parent s;
               if \<not> ok then Some (sdfile_new, None, s)
               else
                 (case close ops parent s of (ok, parent, s) \<Rightarrow>
                    parentLoop ops (drop idx filepath) (index + idx) subdir parent s) }
      else Some (parent, Some index, s))"

definition getParentDir ::
  "'c card_ops \<Rightarrow> u8 list \<Rightarrow> sdfile \<Rightarrow> 'c fs \<Rightarrow> (sdfile \<times> nat option \<times> 'c fs) option" where
  "getParentDir ops filepath root s = parentLoop ops filepath 0 root sdfile_new s"

text \<open>
  \<open>SDClass::open\<close>.  When getParentDir leaves \<open>pathidx\<close> unset, \<open>filepath + pathidx\<close>
  points anywhere: \<open>stray\<close> is the text found there.
\<close>

definition sdOpen ::
  "'c card_ops \<Rightarrow> u8 list \<Rightarrow> bool \<Rightarrow> u8 list \<Rightarrow> u8 \<Rightarrow> sdfile \<Rightarrow> 'c fs
   \<Rightarrow> (file_obj \<times> sdfile \<times> 'c fs) option" where
  "sdOpen ops stray mem filepath mode root s = do {
     (parentdir, pathidx, s) \<leftarrow> getParentDir ops filepath root s;
     let filepath = (case pathidx of None \<Rightarrow> stray | Some i \<Rightarrow> drop i filepath) in
     if filepath = [] then Some (File_new mem parentdir [0x2F], root, s)
     else if \<not> isOpen parentdir then Some (File_empty, root, s)
     else do {
       (ok, f, root, s) \<leftarrow>
         (if isRoot parentdir then openName ops filepath mode sdfile_new root s
          else do {
            (ok, f, parentdir, s) \<leftarrow> openName ops filepath mode sdfile_new parentdir s;
            Some (ok, f, root,
                  if ok then (case close ops parentdir s of (c, d, s) \<Rightarrow> s) else s) });
       if \<not> ok then Some (File_empty, root, s)
       else
         (case (if mode AND (O_APPEND OR O_WRITE) \<noteq> 0 then seekSet ops (fileSize f) f s
                else (True, f, s)) of
            (b, f, s) \<Rightarrow> Some (File_new mem f filepath, root, s)) } }"

definition sdExists :: "'c card_ops \<Rightarrow> u8 list \<Rightarrow> sdfile \<Rightarrow> 'c fs \<Rightarrow> (bool \<times> sdfile \<times> 'c fs) option" where
  "sdExists ops filepath root s = walkPath ops filepath (callback_pathExists ops) root s"

definition sdMkdir :: "'c card_ops \<Rightarrow> u8 list \<Rightarrow> sdfile \<Rightarrow> 'c fs \<Rightarrow> (bool \<times> sdfile \<times> 'c fs) option" where
  "sdMkdir ops filepath root s = walkPath ops filepath (callback_makeDirPath ops) root s"

definition sdRmdir :: "'c card_ops \<Rightarrow> u8 list \<Rightarrow> sdfile \<Rightarrow> 'c fs \<Rightarrow> (bool \<times> sdfile \<times> 'c fs) option" where
  "sdRmdir ops filepath root s = walkPath ops filepath (callback_rmdir ops) root s"

definition sdRemove :: "'c card_ops \<Rightarrow> u8 list \<Rightarrow> sdfile \<Rightarrow> 'c fs \<Rightarrow> (bool \<times> sdfile \<times> 'c fs) option" where
  "sdRemove ops filepath root s = walkPath ops filepath (callback_remove ops) root s"

text \<open>\<open>begin\<close>; the card's own initialisation is the argument \<open>init\<close>.\<close>

definition sdBegin ::
  "'c card_ops \<Rightarrow> ('c \<Rightarrow> bool \<times> 'c) \<Rightarrow> sdfile \<Rightarrow> 'c fs \<Rightarrow> (bool \<times> sdfile \<times> 'c fs) option" where
  "sdBegin ops init root s =
     (case init (card s) of (ok, c) \<Rightarrow>
        let s = s\<lparr>card := c\<rparr> in
        if \<not> ok then Some (False, root, s)
        else
          (case initVolume ops s of (ok, s) \<Rightarrow>
             if \<not> ok then Some (False, root, s) else openRoot ops root s))"

text \<open>Volume figures; the C division is undefined for a divisor of zero.\<close>

definition totalClusters :: "'c fs \<Rightarrow> u32" where "totalClusters s = clusterCount (vol s)"
definition blockSize :: u32 where [simp]: "blockSize = 0x200"

definition totalBlocks :: "'c fs \<Rightarrow> u32" where
  "totalBlocks s = totalClusters s div ucast (blocksPerCluster (vol s))"

definition clusterSize :: "'c fs \<Rightarrow> u32" where
  "clusterSize s = ucast (blocksPerCluster (vol s)) * blockSize"

definition sdSize :: "'c fs \<Rightarrow> u32" where "sdSize s = clusterSize s * totalClusters s"

end
