(* ===== verification/NameProps.thy ===== *)
theory NameProps
  imports SdPath SdExample
begin

text \<open>
  The properties of short names, directory entries, packed dates and times, and paths.
\<close>

section \<open>Short names\<close>

text \<open>
  make83Name accepts exactly the strings that are a base of one to eight characters, or
  such a base, a dot and an extension of at most three, all from the printable ASCII
  characters other than the blank and the dot; the result is the two parts in upper case,
  padded with blanks to eleven characters.
\<close>

lemma make83Name_accepts_short_names:
  "make83Name str = Some nm \<longleftrightarrow>
    (\<exists>base ext. joined str base ext \<and> parts83 base ext \<and>
      nm = pad 8 (map toUpper83 base) @ pad 3 (map toUpper83 ext))"
  using make83Name_Some [of str nm] make83Name_joined [of str] by (auto simp: field83_def)

text \<open>
  The printable form of the name field that make83Name builds is accepted again and
  gives the same field: dirName and make83Name are inverse on the names on the card.
\<close>

lemma dirName_make83Name_inverse:
  assumes "make83Name str = Some nm" and "dname d = nm"
  shows "make83Name (dirName d) = Some nm"
proof -
  obtain base ext where "parts83 base ext" "nm = field83 base ext"
    using make83Name_Some [OF assms(1)] by blast
  then show ?thesis using make83Name_dirName assms(2) by (simp add: dirName_def)
qed

lemma dirName_make83Name_inverse_witness:
  "make83Name (dirName ((dir_of_bytes (replicate 32 0))\<lparr>dname :=
     [0x41, 0x20, 0x20, 0x20, 0x20, 0x20, 0x20, 0x20, 0x42, 0x20, 0x20]\<rparr>)) =
   Some [0x41, 0x20, 0x20, 0x20, 0x20, 0x20, 0x20, 0x20, 0x42, 0x20, 0x20]"
proof -
  have "make83Name [0x61, 0x2E, 0x62] = Some [0x41, 0x20, 0x20, 0x20, 0x20, 0x20, 0x20, 0x20, 0x42, 0x20, 0x20]"
    by code_simp
  from dirName_make83Name_inverse [OF this] show ?thesis by simp
qed

section \<open>Directory entries\<close>

text \<open>
  The 32 bytes of a directory entry are a faithful encoding of its fields: reading the
  bytes of an entry gives the entry back, and every 32 bytes are the bytes of the entry
  they are read as; storing an entry in a directory block changes no other entry.
\<close>

lemma directory_entry_roundtrip:
  assumes "length (dname d) = 11" and "length buf = 512" and "i < 16" and "j < 16"
  shows "dir_of_bytes (bytes_of_dir d) = d \<and>
    dir_at (put_dir buf i d) j = (if j = i then d else dir_at buf j)"
  using assms dir_of_bytes_of_dir dir_at_put_dir_same [of d i buf] dir_at_put_dir_other [of d i buf j]
  by auto

lemma directory_entry_roundtrip_witness:
  "dir_at (put_dir ex_root 1 (dir_at ex_root 0)) 1 = dir_at ex_root 0"
  using directory_entry_roundtrip [of "dir_at ex_root 0" ex_root 1 1] by (simp add: ex_root_def)

section \<open>Dates and times\<close>

text \<open>
  The packed date gives back its year, month and day, for the years 1980 to 2107 that
  the format can hold.
\<close>

lemma fat_date_fields_roundtrip:
  assumes "1980 \<le> unat year" and "unat year \<le> 2107" and "unat month < 16" and "unat day < 32"
  shows "FAT_YEAR (FAT_DATE year month day) = year \<and> FAT_MONTH (FAT_DATE year month day) = month \<and>
    FAT_DAY (FAT_DATE year month day) = day"
  using FAT_DATE_fields [OF assms] by simp

lemma fat_date_fields_roundtrip_witness: "FAT_YEAR (FAT_DATE 2016 2 29) = 2016"
  using fat_date_fields_roundtrip [of 2016 2 29] by simp

text \<open>
  The packed time gives back its hour and minute, and its second rounded down to an
  even number.
\<close>

lemma fat_time_fields_roundtrip:
  assumes "unat hour < 32" and "unat minute < 64" and "unat second < 64"
  shows "FAT_HOUR (FAT_TIME hour minute second) = hour \<and> FAT_MINUTE (FAT_TIME hour minute second) = minute \<and>
    FAT_SECOND (FAT_TIME hour minute second) = second AND NOT 1"
  using FAT_TIME_fields [OF assms] by simp

lemma fat_time_fields_roundtrip_witness: "FAT_SECOND (FAT_TIME 23 59 59) = 58"
  using fat_time_fields_roundtrip [of 23 59 59] by simp

section \<open>Paths\<close>

lemma charAt_append: "charAt (xs @ ys) (length xs + i) = charAt ys i"
  by (simp add: charAt_def nth_append)

lemma componentLoop_stops:
  assumes "0x2F \<notin> set nm" and "0 \<notin> set nm" and "length nm \<le> k"
    and "length nm = k \<or> charAt rest 0 = 0x2F \<or> charAt rest 0 = 0"
  shows "componentLoop k (pre @ nm @ rest) (length pre) = (nm, length pre + length nm)"
  using assms
proof (induction nm arbitrary: k pre)
  case Nil
  then show ?case using charAt_append [of pre rest 0] by (cases k) auto
next
  case (Cons c nm)
  then obtain k' where k: "k = Suc k'" by (cases k) auto
  have "charAt (pre @ (c # nm) @ rest) (length pre) = c"
    using charAt_append [of pre "(c # nm) @ rest" 0] by (simp add: charAt_def)
  moreover have "componentLoop k' ((pre @ [c]) @ nm @ rest) (length (pre @ [c])) =
      (nm, length (pre @ [c]) + length nm)"
    using Cons.prems k by (intro Cons.IH) auto
  ultimately show ?case using Cons.prems k by simp
qed

text \<open>
  getNextPathComponent, at a component of at most twelve characters, with or without
  a separator before it, copies exactly that component, moves the offset behind the
  separator that follows, and reports whether anything comes after.
\<close>

lemma path_component_step:
  assumes "0x2F \<notin> set nm" and "0 \<notin> set nm" and "0 \<notin> set rest" and "nm \<noteq> []" and "length nm \<le> 12"
    and "sep = [] \<or> sep = [0x2F]" and "trail = [] \<and> rest = [] \<or> trail = [0x2F]"
  shows "getNextPathComponent (pre @ sep @ nm @ trail @ rest) (length pre) =
    (rest \<noteq> [], length (pre @ sep @ nm @ trail), nm)"
proof -
  let ?path = "pre @ sep @ nm @ trail @ rest" and ?pre = "pre @ sep"
  obtain c cs where nm: "nm = c # cs" using assms(4) by (cases nm) auto
  have "(if charAt ?path (length pre) = 0x2F then length pre + 1 else length pre) = length ?pre"
    using charAt_append [of pre "sep @ nm @ trail @ rest" 0] assms(1,6) nm by (auto simp: charAt_def)
  moreover have "componentLoop 12 (?pre @ nm @ trail @ rest) (length ?pre) = (nm, length ?pre + length nm)"
    using assms by (intro componentLoop_stops) (auto simp: charAt_def)
  moreover have "charAt ?path (length ?pre + length nm) = charAt (trail @ rest) 0"
    using charAt_append [of "?pre @ nm" "trail @ rest" 0] by (simp add: add.assoc)
  moreover have "charAt ?path (length ?pre + length nm + 1) = charAt (trail @ rest) 1"
    using charAt_append [of "?pre @ nm" "trail @ rest" 1] by (simp add: add.assoc)
  ultimately show ?thesis
    using assms(3,7) by (cases rest) (auto simp: getNextPathComponent_def Let_def charAt_def)
qed

lemma path_component_step_witness:
  "getNextPathComponent [0x2F, 0x66, 0x6F, 0x2F, 0x62] 0 = (True, 4, [0x66, 0x6F])"
  using path_component_step [of "[0x66, 0x6F]" "[0x62]" "[0x2F]" "[0x2F]" "[]"] by simp

section \<open>The SD object\<close>

text \<open>
  begin succeeds once at most: with the root directory open it returns false, whatever
  the card and the volume do, because openRoot refuses an open file.
\<close>

lemma second_begin_fails:
  assumes "isOpen root"
  shows "\<exists>s'. sdBegin ops card_init root s = Some (False, root, s')"
  using assms by (auto simp: sdBegin_def openRoot_def Let_def split: prod.splits)

lemma second_begin_fails_witness:
  "\<exists>s'. sdBegin ex_ops (\<lambda>c. (True, c)) (sdfile_new\<lparr>ftype := ROOT16\<rparr>) ex_s = Some (False, sdfile_new\<lparr>ftype := ROOT16\<rparr>, s')"
  by (rule second_begin_fails) (simp add: isOpen_def)

text \<open>
  Opening a file below a directory that cannot be opened gives a File that is false,
  although the path index is then uninitialised: whatever text the stray pointer reads.
\<close>

lemma open_below_missing_directory:
  assumes "getParentDir ops filepath root s = Some (d, None, s')"
  shows "\<exists>F. sdOpen ops stray mem filepath mode root s = Some (F, root, s') \<and> \<not> File_bool F"
proof -
  have nf: "fst (snd r) = None \<longrightarrow> fst r = sdfile_new" if "parentLoop ops fp n p q t = Some r" for fp n p q t r
  proof (rule parentLoop.raw_induct [where P = "\<lambda>ops fp n p q t r. fst (snd r) = None \<longrightarrow> fst r = sdfile_new",
        OF _ that])
  qed (auto split: if_splits prod.splits bind_splits simp: Let_def)
  have "d = sdfile_new" using nf assms unfolding getParentDir_def by fastforce
  then show ?thesis
    using assms by (auto simp: sdOpen_def File_bool_def File_new_def File_empty_def isOpen_def sdfile_new_def)
qed

lemma open_below_missing_directory_witness:
  "\<exists>F. sdOpen ex_ops [0x41] True [0x20, 0x2F, 0x79] 1 (sdfile_new\<lparr>ftype := ROOT16\<rparr>) ex_s =
      Some (F, sdfile_new\<lparr>ftype := ROOT16\<rparr>, ex_s) \<and> \<not> File_bool F"
proof (rule open_below_missing_directory)
  have n: "make83Name [0x20] = None" by code_simp
  have o: "\<not> isOpen sdfile_new" by (simp add: isOpen_def sdfile_new_def)
  have c: "close ex_ops sdfile_new ex_s = (False, sdfile_new, ex_s)"
    by (simp add: close_def sync_def isOpen_def sdfile_new_def)
  show "getParentDir ex_ops [0x20, 0x2F, 0x79] (sdfile_new\<lparr>ftype := ROOT16\<rparr>) ex_s = Some (sdfile_new, None, ex_s)"
    unfolding getParentDir_def
    by (subst parentLoop.simps) (simp add: c openName_def n o)
qed

end
