(* ===== verification/W5100.thy ===== *)
theory W5100
  imports SdPrelude
begin

text \<open>
  The driver of the WIZnet W5100 chip (Ethernet/src/utility/w5100.cpp, w5100.h), as it is
  compiled for the ESP8266.  The SPI object, the select pin and the clock of the core are the
  parameter \<open>ehw\<close>, whose operations act on an outside world of an arbitrary type.  A
  function with a polling loop returns an option: \<open>None\<close> is a loop that does not end, or an
  access outside one of the arrays of base addresses, which is undefined in C++.
\<close>

section \<open>The interface to the core\<close>

record 'h ehw =
  e_begin :: "'h \<Rightarrow> 'h"
  e_initSS :: "'h \<Rightarrow> 'h"
  e_setSS :: "'h \<Rightarrow> 'h"
  e_resetSS :: "'h \<Rightarrow> 'h"
  e_beginTransaction :: "'h \<Rightarrow> 'h"
  e_endTransaction :: "'h \<Rightarrow> 'h"
  e_transfer :: "u8 \<Rightarrow> 'h \<Rightarrow> u8 \<times> 'h"
  e_millis :: "'h \<Rightarrow> u32 \<times> 'h"
  e_delay :: "u32 \<Rightarrow> 'h \<Rightarrow> 'h"
  e_yield :: "'h \<Rightarrow> 'h"
  e_random :: "u32 \<Rightarrow> u32 \<Rightarrow> 'h \<Rightarrow> u32 \<times> 'h"
  e_INADDR_NONE :: "u8 list"

text \<open>
  The variables the library shares: the base addresses of the sockets' buffers, the port
  counter of socket.cpp, the ports the servers listen on, the port counter of the clients,
  and the address of the name server.
\<close>

record 'h eth =
  SBASE :: "u16 list"
  RBASE :: "u16 list"
  local_port :: u16
  server_port :: "u16 list"
  srcport :: u16
  dnsServerAddress :: "u8 list"
  bus :: 'h

definition onbus :: "('h \<Rightarrow> 'h) \<Rightarrow> 'h eth \<Rightarrow> 'h eth" where
  "onbus f e = e\<lparr>bus := f (bus e)\<rparr>"

definition frombus :: "('h \<Rightarrow> 'a \<times> 'h) \<Rightarrow> 'h eth \<Rightarrow> 'a \<times> 'h eth" where
  "frombus f e = (case f (bus e) of (r, h) \<Rightarrow> (r, e\<lparr>bus := h\<rparr>))"

definition trybus :: "('h \<Rightarrow> ('a \<times> 'h) option) \<Rightarrow> 'h eth \<Rightarrow> ('a \<times> 'h eth) option" where
  "trybus f e = do { (r, h) \<leftarrow> f (bus e); Some (r, e\<lparr>bus := h\<rparr>) }"

section \<open>Constants\<close>

definition MAX_SOCK_NUM :: u8 where [simp]: "MAX_SOCK_NUM = 4"
definition TXBUF_BASE :: u16 where [simp]: "TXBUF_BASE = 0x4000"
definition RXBUF_BASE :: u16 where [simp]: "RXBUF_BASE = 0x6000"
definition CH_BASE :: u16 where [simp]: "CH_BASE = 0x0400"
definition CH_SIZE :: u16 where [simp]: "CH_SIZE = 0x0100"
definition RST :: nat where [simp]: "RST = 7"
definition SMASK :: u16 where [simp]: "SMASK = 0x07FF"
definition RMASK :: u16 where [simp]: "RMASK = 0x07FF"
definition SSIZE :: u16 where [simp]: "SSIZE = 2048"
definition RSIZE :: u16 where [simp]: "RSIZE = 2048"

definition SnMR_CLOSE :: u8 where [simp]: "SnMR_CLOSE = 0x00"
definition SnMR_TCP :: u8 where [simp]: "SnMR_TCP = 0x01"
definition SnMR_UDP :: u8 where [simp]: "SnMR_UDP = 0x02"
definition SnMR_IPRAW :: u8 where [simp]: "SnMR_IPRAW = 0x03"
definition SnMR_MACRAW :: u8 where [simp]: "SnMR_MACRAW = 0x04"
definition SnMR_PPPOE :: u8 where [simp]: "SnMR_PPPOE = 0x05"
definition SnMR_ND :: u8 where [simp]: "SnMR_ND = 0x20"
definition SnMR_MULTI :: u8 where [simp]: "SnMR_MULTI = 0x80"

datatype SockCMD = Sock_OPEN | Sock_LISTEN | Sock_CONNECT | Sock_DISCON | Sock_CLOSE | Sock_SEND |
  Sock_SEND_MAC | Sock_SEND_KEEP | Sock_RECV

definition cmd_code :: "SockCMD \<Rightarrow> u8" where
  "cmd_code c =
     (case c of Sock_OPEN \<Rightarrow> 0x01 | Sock_LISTEN \<Rightarrow> 0x02 | Sock_CONNECT \<Rightarrow> 0x04 | Sock_DISCON \<Rightarrow> 0x08 |
        Sock_CLOSE \<Rightarrow> 0x10 | Sock_SEND \<Rightarrow> 0x20 | Sock_SEND_MAC \<Rightarrow> 0x21 | Sock_SEND_KEEP \<Rightarrow> 0x22 |
        Sock_RECV \<Rightarrow> 0x40)"

definition SnIR_SEND_OK :: u8 where [simp]: "SnIR_SEND_OK = 0x10"
definition SnIR_TIMEOUT :: u8 where [simp]: "SnIR_TIMEOUT = 0x08"

definition SnSR_CLOSED :: u8 where [simp]: "SnSR_CLOSED = 0x00"
definition SnSR_INIT :: u8 where [simp]: "SnSR_INIT = 0x13"
definition SnSR_LISTEN :: u8 where [simp]: "SnSR_LISTEN = 0x14"
definition SnSR_ESTABLISHED :: u8 where [simp]: "SnSR_ESTABLISHED = 0x17"
definition SnSR_FIN_WAIT :: u8 where [simp]: "SnSR_FIN_WAIT = 0x18"
definition SnSR_CLOSE_WAIT :: u8 where [simp]: "SnSR_CLOSE_WAIT = 0x1C"
definition SnSR_UDP :: u8 where [simp]: "SnSR_UDP = 0x22"

text \<open>The common registers and the registers of a socket, by their addresses.\<close>

definition MR :: u16 where [simp]: "MR = 0x0000"
definition GAR :: u16 where [simp]: "GAR = 0x0001"
definition SUBR :: u16 where [simp]: "SUBR = 0x0005"
definition SHAR :: u16 where [simp]: "SHAR = 0x0009"
definition SIPR :: u16 where [simp]: "SIPR = 0x000F"
definition RTR :: u16 where [simp]: "RTR = 0x0017"
definition RCR :: u16 where [simp]: "RCR = 0x0019"
definition RMSR :: u16 where [simp]: "RMSR = 0x001A"
definition TMSR :: u16 where [simp]: "TMSR = 0x001B"

definition SnMR :: u16 where [simp]: "SnMR = 0x0000"
definition SnCR :: u16 where [simp]: "SnCR = 0x0001"
definition SnIR :: u16 where [simp]: "SnIR = 0x0002"
definition SnSR :: u16 where [simp]: "SnSR = 0x0003"
definition SnPORT :: u16 where [simp]: "SnPORT = 0x0004"
definition SnDIPR :: u16 where [simp]: "SnDIPR = 0x000C"
definition SnDPORT :: u16 where [simp]: "SnDPORT = 0x0010"
definition SnTX_FSR :: u16 where [simp]: "SnTX_FSR = 0x0020"
definition SnTX_WR :: u16 where [simp]: "SnTX_WR = 0x0024"
definition SnRX_RSR :: u16 where [simp]: "SnRX_RSR = 0x0026"
definition SnRX_RD :: u16 where [simp]: "SnRX_RD = 0x0028"
definition SnRX_WR :: u16 where [simp]: "SnRX_WR = 0x002A"

section \<open>Reading and writing the chip\<close>

text \<open>One byte: the opcode, the address with its high byte first, and the byte.\<close>

definition chip_write :: "'h ehw \<Rightarrow> u16 \<Rightarrow> u8 \<Rightarrow> 'h \<Rightarrow> 'h" where
  "chip_write hw a d h =
     (let h = e_setSS hw h;
          h = snd (e_transfer hw 0xF0 h);
          h = snd (e_transfer hw (ucast (drop_bit 8 a)) h);
          h = snd (e_transfer hw (ucast (a AND 0xFF)) h);
          h = snd (e_transfer hw d h)
      in e_resetSS hw h)"

definition chip_read :: "'h ehw \<Rightarrow> u16 \<Rightarrow> 'h \<Rightarrow> u8 \<times> 'h" where
  "chip_read hw a h =
     (let h = e_setSS hw h;
          h = snd (e_transfer hw 0x0F h);
          h = snd (e_transfer hw (ucast (drop_bit 8 a)) h);
          h = snd (e_transfer hw (ucast (a AND 0xFF)) h);
          (d, h) = e_transfer hw 0 h
      in (d, e_resetSS hw h))"

text \<open>A run of bytes; the address is a \<open>uint16_t\<close> and wraps.\<close>

fun chip_writes :: "'h ehw \<Rightarrow> u16 \<Rightarrow> u8 list \<Rightarrow> 'h \<Rightarrow> 'h" where
  "chip_writes hw a [] h = h"
| "chip_writes hw a (b # bs) h = chip_writes hw (a + 1) bs (chip_write hw a b h)"

fun chip_reads :: "'h ehw \<Rightarrow> u16 \<Rightarrow> nat \<Rightarrow> 'h \<Rightarrow> u8 list \<times> 'h" where
  "chip_reads hw a 0 h = ([], h)"
| "chip_reads hw a (Suc n) h =
     (case chip_read hw a h of (b, h) \<Rightarrow>
        case chip_reads hw (a + 1) n h of (bs, h) \<Rightarrow> (b # bs, h))"

section \<open>Registers\<close>

definition write16 :: "'h ehw \<Rightarrow> u16 \<Rightarrow> u16 \<Rightarrow> 'h \<Rightarrow> 'h" where
  "write16 hw a v h =
     chip_write hw (a + 1) (ucast (v AND 0xFF)) (chip_write hw a (ucast (drop_bit 8 v)) h)"

definition read16 :: "'h ehw \<Rightarrow> u16 \<Rightarrow> 'h \<Rightarrow> u16 \<times> 'h" where
  "read16 hw a h =
     (case chip_read hw a h of (hi, h) \<Rightarrow>
        case chip_read hw (a + 1) h of (lo, h) \<Rightarrow> (push_bit 8 (ucast hi) + ucast lo, h))"

definition snAddr :: "u8 \<Rightarrow> u16 \<Rightarrow> u16" where
  "snAddr s a = CH_BASE + ucast s * CH_SIZE + a"

definition readSn :: "'h ehw \<Rightarrow> u16 \<Rightarrow> u8 \<Rightarrow> 'h \<Rightarrow> u8 \<times> 'h" where
  "readSn hw a s h = chip_read hw (snAddr s a) h"

definition writeSn :: "'h ehw \<Rightarrow> u16 \<Rightarrow> u8 \<Rightarrow> u8 \<Rightarrow> 'h \<Rightarrow> 'h" where
  "writeSn hw a s d h = chip_write hw (snAddr s a) d h"

definition readSnN :: "'h ehw \<Rightarrow> u16 \<Rightarrow> u8 \<Rightarrow> nat \<Rightarrow> 'h \<Rightarrow> u8 list \<times> 'h" where
  "readSnN hw a s n h = chip_reads hw (snAddr s a) n h"

definition writeSnN :: "'h ehw \<Rightarrow> u16 \<Rightarrow> u8 \<Rightarrow> u8 list \<Rightarrow> 'h \<Rightarrow> 'h" where
  "writeSnN hw a s bs h = chip_writes hw (snAddr s a) bs h"

definition readSn16 :: "'h ehw \<Rightarrow> u16 \<Rightarrow> u8 \<Rightarrow> 'h \<Rightarrow> u16 \<times> 'h" where
  "readSn16 hw a s h =
     (case readSn hw a s h of (res, h) \<Rightarrow>
        case readSn hw (a + 1) s h of (res2, h) \<Rightarrow>
          (push_bit 8 (ucast res) OR (ucast res2 AND 0xFF), h))"

definition writeSn16 :: "'h ehw \<Rightarrow> u16 \<Rightarrow> u8 \<Rightarrow> u16 \<Rightarrow> 'h \<Rightarrow> 'h" where
  "writeSn16 hw a s v h =
     writeSn hw (a + 1) s (ucast (v AND 0xFF)) (writeSn hw a s (ucast (drop_bit 8 v)) h)"

text \<open>The addresses of the network: four bytes, or six.\<close>

definition setGatewayIp :: "'h ehw \<Rightarrow> u8 list \<Rightarrow> 'h \<Rightarrow> 'h" where
  "setGatewayIp hw ip h = chip_writes hw GAR (take 4 ip) h"
definition getGatewayIp :: "'h ehw \<Rightarrow> 'h \<Rightarrow> u8 list \<times> 'h" where
  "getGatewayIp hw h = chip_reads hw GAR 4 h"
definition setSubnetMask :: "'h ehw \<Rightarrow> u8 list \<Rightarrow> 'h \<Rightarrow> 'h" where
  "setSubnetMask hw ip h = chip_writes hw SUBR (take 4 ip) h"
definition getSubnetMask :: "'h ehw \<Rightarrow> 'h \<Rightarrow> u8 list \<times> 'h" where
  "getSubnetMask hw h = chip_reads hw SUBR 4 h"
definition setMACAddress :: "'h ehw \<Rightarrow> u8 list \<Rightarrow> 'h \<Rightarrow> 'h" where
  "setMACAddress hw mac h = chip_writes hw SHAR (take 6 mac) h"
definition getMACAddress :: "'h ehw \<Rightarrow> 'h \<Rightarrow> u8 list \<times> 'h" where
  "getMACAddress hw h = chip_reads hw SHAR 6 h"
definition setIPAddress :: "'h ehw \<Rightarrow> u8 list \<Rightarrow> 'h \<Rightarrow> 'h" where
  "setIPAddress hw ip h = chip_writes hw SIPR (take 4 ip) h"
definition getIPAddress :: "'h ehw \<Rightarrow> 'h \<Rightarrow> u8 list \<times> 'h" where
  "getIPAddress hw h = chip_reads hw SIPR 4 h"
definition setRetransmissionTime :: "'h ehw \<Rightarrow> u16 \<Rightarrow> 'h \<Rightarrow> 'h" where
  "setRetransmissionTime hw t h = write16 hw RTR t h"
definition setRetransmissionCount :: "'h ehw \<Rightarrow> u8 \<Rightarrow> 'h \<Rightarrow> 'h" where
  "setRetransmissionCount hw n h = chip_write hw RCR n h"

section \<open>Commands and sizes\<close>

partial_function (option) waitCR :: "'h ehw \<Rightarrow> u8 \<Rightarrow> 'h \<Rightarrow> 'h option" where
  "waitCR hw s h = (case readSn hw SnCR s h of (c, h) \<Rightarrow> if c \<noteq> 0 then waitCR hw s h else Some h)"

definition execCmdSn :: "'h ehw \<Rightarrow> u8 \<Rightarrow> SockCMD \<Rightarrow> 'h \<Rightarrow> 'h option" where
  "execCmdSn hw s c h = waitCR hw s (writeSn hw SnCR s (cmd_code c) h)"

text \<open>A size register is read until two readings agree; zero needs one reading.\<close>

partial_function (option) stableSize :: "'h ehw \<Rightarrow> u16 \<Rightarrow> u8 \<Rightarrow> u16 \<Rightarrow> 'h \<Rightarrow> (u16 \<times> 'h) option" where
  "stableSize hw r s val h =
     (case readSn16 hw r s h of (val1, h) \<Rightarrow>
        case (if val1 \<noteq> 0 then readSn16 hw r s h else (val, h)) of (val, h) \<Rightarrow>
          if val \<noteq> val1 then stableSize hw r s val h else Some (val, h))"

definition getTXFreeSize :: "'h ehw \<Rightarrow> u8 \<Rightarrow> 'h \<Rightarrow> (u16 \<times> 'h) option" where
  "getTXFreeSize hw s h = stableSize hw SnTX_FSR s 0 h"

definition getRXReceivedSize :: "'h ehw \<Rightarrow> u8 \<Rightarrow> 'h \<Rightarrow> (u16 \<times> 'h) option" where
  "getRXReceivedSize hw s h = stableSize hw SnRX_RSR s 0 h"

section \<open>The circular buffers\<close>

definition txBase :: "u8 \<Rightarrow> 'h eth \<Rightarrow> u16 option" where
  "txBase s e = (if unat s < length (SBASE e) then Some (SBASE e ! unat s) else None)"

definition rxBase :: "u8 \<Rightarrow> 'h eth \<Rightarrow> u16 option" where
  "rxBase s e = (if unat s < length (RBASE e) then Some (RBASE e ! unat s) else None)"

text \<open>Copying more bytes than there are at \<open>data\<close> is undefined.\<close>

definition send_data_processing_offset ::
  "'h ehw \<Rightarrow> u8 \<Rightarrow> u16 \<Rightarrow> u8 list \<Rightarrow> u16 \<Rightarrow> 'h eth \<Rightarrow> 'h eth option" where
  "send_data_processing_offset hw s data_offset data len e = do {
     let (ptr, e) = frombus (readSn16 hw SnTX_WR s) e;
     let ptr = ptr + data_offset;
     let offset = ptr AND SMASK;
     base \<leftarrow> txBase s e;
     let dstAddr = offset + base;
     data \<leftarrow> (if unat len \<le> length data then Some (take (unat len) data) else None);
     let e = (if unat offset + unat len > unat SSIZE
              then
                let size1 = SSIZE - offset;
                    e = onbus (chip_writes hw dstAddr (take (unat size1) data)) e
                in onbus (chip_writes hw base (drop (unat size1) data)) e
              else onbus (chip_writes hw dstAddr data) e);
     let ptr = ptr + len;
     Some (onbus (writeSn16 hw SnTX_WR s ptr) e) }"

definition send_data_processing :: "'h ehw \<Rightarrow> u8 \<Rightarrow> u8 list \<Rightarrow> u16 \<Rightarrow> 'h eth \<Rightarrow> 'h eth option" where
  "send_data_processing hw s data len e = send_data_processing_offset hw s 0 data len e"

definition read_data :: "'h ehw \<Rightarrow> u8 \<Rightarrow> u16 \<Rightarrow> u16 \<Rightarrow> 'h eth \<Rightarrow> (u8 list \<times> 'h eth) option" where
  "read_data hw s src len e = do {
     let src_mask = src AND RMASK;
     base \<leftarrow> rxBase s e;
     let src_ptr = base + src_mask;
     (if unat src_mask + unat len > unat RSIZE
      then
        let size1 = RSIZE - src_mask;
            (bs, e) = frombus (chip_reads hw src_ptr (unat size1)) e;
            (cs, e) = frombus (chip_reads hw base (unat (len - size1))) e
        in Some (bs @ cs, e)
      else Some (frombus (chip_reads hw src_ptr (unat len)) e)) }"

definition recv_data_processing ::
  "'h ehw \<Rightarrow> u8 \<Rightarrow> u16 \<Rightarrow> bool \<Rightarrow> 'h eth \<Rightarrow> (u8 list \<times> 'h eth) option" where
  "recv_data_processing hw s len peek e = do {
     let (ptr, e) = frombus (readSn16 hw SnRX_RD s) e;
     (data, e) \<leftarrow> read_data hw s ptr len e;
     Some (data, if \<not> peek then onbus (writeSn16 hw SnRX_RD s (ptr + len)) e else e) }"

definition w5100_init :: "'h ehw \<Rightarrow> 'h eth \<Rightarrow> 'h eth" where
  "w5100_init hw e =
     (let h = e_delay hw 300 (bus e);
          h = e_initSS hw (e_begin hw h);
          h = e_beginTransaction hw h;
          h = chip_write hw MR (push_bit RST 1) h;
          h = chip_write hw TMSR 0x55 h;
          h = chip_write hw RMSR 0x55 h;
          h = e_endTransaction hw h
      in e\<lparr>bus := h, SBASE := map (\<lambda>i. TXBUF_BASE + SSIZE * of_nat i) [0..<unat MAX_SOCK_NUM],
           RBASE := map (\<lambda>i. RXBUF_BASE + RSIZE * of_nat i) [0..<unat MAX_SOCK_NUM]\<rparr>)"

end
