(* ===== verification/EthSocket.thy ===== *)
theory EthSocket
  imports W5100
begin

text \<open>
  The socket layer of the Ethernet library (Ethernet/src/utility/socket.cpp).  A socket is
  its number.  Results that the code passes through pointers are returned.  \<open>None\<close> is a
  loop that does not end or an access outside the arrays of base addresses, as below.
\<close>

definition beginT :: "'h ehw \<Rightarrow> 'h eth \<Rightarrow> 'h eth" where
  "beginT hw e = onbus (e_beginTransaction hw) e"

definition endT :: "'h ehw \<Rightarrow> 'h eth \<Rightarrow> 'h eth" where
  "endT hw e = onbus (e_endTransaction hw) e"

definition execCmd :: "'h ehw \<Rightarrow> u8 \<Rightarrow> SockCMD \<Rightarrow> 'h eth \<Rightarrow> 'h eth option" where
  "execCmd hw s c e = do { h \<leftarrow> execCmdSn hw s c (bus e); Some (e\<lparr>bus := h\<rparr>) }"

section \<open>Opening and closing\<close>

definition sock_close :: "'h ehw \<Rightarrow> u8 \<Rightarrow> 'h eth \<Rightarrow> 'h eth option" where
  "sock_close hw s e = do {
     e \<leftarrow> execCmd hw s Sock_CLOSE (beginT hw e);
     Some (endT hw (onbus (writeSn hw SnIR s 0xFF) e)) }"

definition sock_socket :: "'h ehw \<Rightarrow> u8 \<Rightarrow> u8 \<Rightarrow> u16 \<Rightarrow> u8 \<Rightarrow> 'h eth \<Rightarrow> (u8 \<times> 'h eth) option" where
  "sock_socket hw s protocol port flag e =
     (if protocol = SnMR_TCP \<or> protocol = SnMR_UDP \<or> protocol = SnMR_IPRAW \<or>
         protocol = SnMR_MACRAW \<or> protocol = SnMR_PPPOE
      then do {
        e \<leftarrow> sock_close hw s e;
        let e = onbus (writeSn hw SnMR s (protocol OR flag)) (beginT hw e);
        let e = (if port \<noteq> 0 then onbus (writeSn16 hw SnPORT s port) e
                 else let e = e\<lparr>local_port := local_port e + 1\<rparr>
                      in onbus (writeSn16 hw SnPORT s (local_port e)) e);
        e \<leftarrow> execCmd hw s Sock_OPEN e;
        Some (1, endT hw e) }
      else Some (0, e))"

definition socketStatus :: "'h ehw \<Rightarrow> u8 \<Rightarrow> 'h eth \<Rightarrow> u8 \<times> 'h eth" where
  "socketStatus hw s e = (case frombus (readSn hw SnSR s) (beginT hw e) of (status, e) \<Rightarrow> (status, endT hw e))"

definition sock_listen :: "'h ehw \<Rightarrow> u8 \<Rightarrow> 'h eth \<Rightarrow> (u8 \<times> 'h eth) option" where
  "sock_listen hw s e =
     (case frombus (readSn hw SnSR s) (beginT hw e) of (status, e) \<Rightarrow>
        if status \<noteq> SnSR_INIT then Some (0, endT hw e)
        else do { e \<leftarrow> execCmd hw s Sock_LISTEN e; Some (1, endT hw e) })"

definition zero_ip :: "u8 list \<Rightarrow> bool" where
  "zero_ip addr \<longleftrightarrow> addr ! 0 = 0x00 \<and> addr ! 1 = 0x00 \<and> addr ! 2 = 0x00 \<and> addr ! 3 = 0x00"

definition sock_connect :: "'h ehw \<Rightarrow> u8 \<Rightarrow> u8 list \<Rightarrow> u16 \<Rightarrow> 'h eth \<Rightarrow> (u8 \<times> 'h eth) option" where
  "sock_connect hw s addr port e =
     (if addr ! 0 = 0xFF \<and> addr ! 1 = 0xFF \<and> addr ! 2 = 0xFF \<and> addr ! 3 = 0xFF \<or>
         zero_ip addr \<or> port = 0
      then Some (0, e)
      else do {
        let e = onbus (writeSnN hw SnDIPR s (take 4 addr)) (beginT hw e);
        let e = onbus (writeSn16 hw SnDPORT s port) e;
        e \<leftarrow> execCmd hw s Sock_CONNECT e;
        Some (1, endT hw e) })"

definition sock_disconnect :: "'h ehw \<Rightarrow> u8 \<Rightarrow> 'h eth \<Rightarrow> 'h eth option" where
  "sock_disconnect hw s e = do {
     e \<leftarrow> execCmd hw s Sock_DISCON (beginT hw e);
     Some (endT hw e) }"

section \<open>Sending over a connection\<close>

text \<open>Waiting for room: the number of bytes to send, 0 when the connection is not up.\<close>

partial_function (option) sendWait :: "'h ehw \<Rightarrow> u8 \<Rightarrow> u16 \<Rightarrow> 'h eth \<Rightarrow> (u16 \<times> 'h eth) option" where
  "sendWait hw s ret e =
     Option.bind (trybus (getTXFreeSize hw s) (beginT hw e)) (\<lambda>(freesize, e).
       case frombus (readSn hw SnSR s) e of (status, e) \<Rightarrow>
         let e = endT hw e in
         if status \<noteq> SnSR_ESTABLISHED \<and> status \<noteq> SnSR_CLOSE_WAIT then Some (0, e)
         else
           let e = onbus (e_yield hw) e in
           if freesize < ret then sendWait hw s ret e else Some (ret, e))"

text \<open>Waiting for the data to be sent, within a transaction; false when the socket was closed.\<close>

partial_function (option) sendDone :: "'h ehw \<Rightarrow> u8 \<Rightarrow> 'h eth \<Rightarrow> (bool \<times> 'h eth) option" where
  "sendDone hw s e =
     (case frombus (readSn hw SnIR s) e of (ir, e) \<Rightarrow>
        if ir AND SnIR_SEND_OK = SnIR_SEND_OK then Some (True, e)
        else
          case frombus (readSn hw SnSR s) e of (status, e) \<Rightarrow>
            if status = SnSR_CLOSED then Some (False, e)
            else sendDone hw s (beginT hw (onbus (e_yield hw) (endT hw e))))"

definition sock_send :: "'h ehw \<Rightarrow> u8 \<Rightarrow> u8 list \<Rightarrow> u16 \<Rightarrow> 'h eth \<Rightarrow> (u16 \<times> 'h eth) option" where
  "sock_send hw s buf len e = do {
     let ret = (if len > SSIZE then SSIZE else len);
     (ret, e) \<leftarrow> sendWait hw s ret e;
     e \<leftarrow> send_data_processing hw s buf ret (beginT hw e);
     e \<leftarrow> execCmd hw s Sock_SEND e;
     (ok, e) \<leftarrow> sendDone hw s e;
     if \<not> ok then do { e \<leftarrow> sock_close hw s (endT hw e); Some (0, e) }
     else Some (ret, endT hw (onbus (writeSn hw SnIR s SnIR_SEND_OK) e)) }"

section \<open>Receiving\<close>

text \<open>
  \<open>recv\<close> works with \<open>int16_t\<close>: the size of the data and the length asked for are read as
  signed.  The result is the value returned and the bytes stored.
\<close>

definition recv :: "'h ehw \<Rightarrow> u8 \<Rightarrow> u16 \<Rightarrow> 'h eth \<Rightarrow> (int \<times> u8 list \<times> 'h eth) option" where
  "recv hw s len e = do {
     (ret, e) \<leftarrow> trybus (getRXReceivedSize hw s) (beginT hw e);
     let (ret, e) =
       (if ret = 0
        then
          case frombus (readSn hw SnSR s) e of (status, e) \<Rightarrow>
            if status = SnSR_LISTEN \<or> status = SnSR_CLOSED \<or> status = SnSR_CLOSE_WAIT
            then (0, e) else (- 1, e)
        else if sint ret > sint len then (len, e)
        else (ret, e));
     (if sint ret > 0
      then do {
        (data, e) \<leftarrow> recv_data_processing hw s ret False e;
        e \<leftarrow> execCmd hw s Sock_RECV e;
        Some (sint ret, data, endT hw e) }
      else Some (sint ret, [], endT hw e)) }"

definition recvAvailable :: "'h ehw \<Rightarrow> u8 \<Rightarrow> 'h eth \<Rightarrow> (int \<times> 'h eth) option" where
  "recvAvailable hw s e = do {
     (ret, e) \<leftarrow> trybus (getRXReceivedSize hw s) (beginT hw e);
     Some (sint ret, endT hw e) }"

definition sock_peek :: "'h ehw \<Rightarrow> u8 \<Rightarrow> 'h eth \<Rightarrow> (u8 \<times> 'h eth) option" where
  "sock_peek hw s e = do {
     (data, e) \<leftarrow> recv_data_processing hw s 1 True (beginT hw e);
     Some (data ! 0, endT hw e) }"

definition sock_flush :: "u8 \<Rightarrow> 'h eth \<Rightarrow> 'h eth" where
  "sock_flush s e = e"

section \<open>Datagrams and raw packets\<close>

text \<open>Waiting for a datagram to be sent, within a transaction; false on a timeout.\<close>

partial_function (option) udpSent :: "'h ehw \<Rightarrow> u8 \<Rightarrow> 'h eth \<Rightarrow> (bool \<times> 'h eth) option" where
  "udpSent hw s e =
     (case frombus (readSn hw SnIR s) e of (ir, e) \<Rightarrow>
        if ir AND SnIR_SEND_OK = SnIR_SEND_OK then Some (True, e)
        else
          case frombus (readSn hw SnIR s) e of (ir, e) \<Rightarrow>
            if ir AND SnIR_TIMEOUT \<noteq> 0 then Some (False, e)
            else udpSent hw s (beginT hw (onbus (e_yield hw) (endT hw e))))"

definition sendto :: "'h ehw \<Rightarrow> u8 \<Rightarrow> u8 list \<Rightarrow> u16 \<Rightarrow> u8 list \<Rightarrow> u16 \<Rightarrow> 'h eth \<Rightarrow> (u16 \<times> 'h eth) option" where
  "sendto hw s buf len addr port e =
     (let ret = (if len > SSIZE then SSIZE else len) in
      if zero_ip addr \<or> port = 0 \<or> ret = 0 then Some (0, e)
      else do {
        let e = onbus (writeSnN hw SnDIPR s (take 4 addr)) (beginT hw e);
        let e = onbus (writeSn16 hw SnDPORT s port) e;
        e \<leftarrow> send_data_processing hw s buf ret e;
        e \<leftarrow> execCmd hw s Sock_SEND e;
        (ok, e) \<leftarrow> udpSent hw s e;
        (if ok then Some (ret, endT hw (onbus (writeSn hw SnIR s SnIR_SEND_OK) e))
         else Some (0, endT hw (onbus (writeSn hw SnIR s (SnIR_SEND_OK OR SnIR_TIMEOUT)) e))) })"

definition be16 :: "u8 \<Rightarrow> u8 \<Rightarrow> u16" where
  "be16 hi lo = push_bit 8 (ucast hi) + ucast lo"

text \<open>The length, the data, the address and the port; the length asked for is only tested for 0.\<close>

definition recvfrom ::
  "'h ehw \<Rightarrow> u8 \<Rightarrow> u16 \<Rightarrow> u8 list \<Rightarrow> u16 \<Rightarrow> 'h eth \<Rightarrow> (u16 \<times> u8 list \<times> u8 list \<times> u16 \<times> 'h eth) option" where
  "recvfrom hw s len addr port e =
     (if len > 0 then do {
        let (ptr, e) = frombus (readSn16 hw SnRX_RD s) (beginT hw e);
        let (mode, e) = frombus (readSn hw SnMR s) e;
        let mode = mode AND 0x07;
        (data_len, data, addr, port, e) \<leftarrow>
          (if mode = SnMR_UDP then do {
             (head, e) \<leftarrow> read_data hw s ptr 8 e;
             let ptr = ptr + 8;
             let data_len = be16 (head ! 6) (head ! 7);
             (data, e) \<leftarrow> read_data hw s ptr data_len e;
             let e = onbus (writeSn16 hw SnRX_RD s (ptr + data_len)) e;
             Some (data_len, data, take 4 head, be16 (head ! 4) (head ! 5), e) }
           else if mode = SnMR_IPRAW then do {
             (head, e) \<leftarrow> read_data hw s ptr 6 e;
             let ptr = ptr + 6;
             let data_len = be16 (head ! 4) (head ! 5);
             (data, e) \<leftarrow> read_data hw s ptr data_len e;
             let e = onbus (writeSn16 hw SnRX_RD s (ptr + data_len)) e;
             Some (data_len, data, take 4 head, port, e) }
           else if mode = SnMR_MACRAW then do {
             (head, e) \<leftarrow> read_data hw s ptr 2 e;
             let ptr = ptr + 2;
             let data_len = be16 (head ! 0) (head ! 1) - 2;
             (data, e) \<leftarrow> read_data hw s ptr data_len e;
             let e = onbus (writeSn16 hw SnRX_RD s (ptr + data_len)) e;
             Some (data_len, data, addr, port, e) }
           else Some (0, [], addr, port, e));
        e \<leftarrow> execCmd hw s Sock_RECV e;
        Some (data_len, data, addr, port, endT hw e) }
      else Some (0, [], addr, port, e))"

definition igmpsend :: "'h ehw \<Rightarrow> u8 \<Rightarrow> u8 list \<Rightarrow> u16 \<Rightarrow> 'h eth \<Rightarrow> (u16 \<times> 'h eth) option" where
  "igmpsend hw s buf len e =
     (let ret = (if len > SSIZE then SSIZE else len) in
      if ret = 0 then Some (0, e)
      else do {
        e \<leftarrow> send_data_processing hw s buf ret (beginT hw e);
        e \<leftarrow> execCmd hw s Sock_SEND e;
        (ok, e) \<leftarrow> udpSent hw s e;
        (if ok then Some (ret, endT hw (onbus (writeSn hw SnIR s SnIR_SEND_OK) e))
         else do { e \<leftarrow> sock_close hw s (endT hw e); Some (0, e) }) })"

text \<open>A datagram built up piece by piece.\<close>

definition bufferData :: "'h ehw \<Rightarrow> u8 \<Rightarrow> u16 \<Rightarrow> u8 list \<Rightarrow> u16 \<Rightarrow> 'h eth \<Rightarrow> (u16 \<times> 'h eth) option" where
  "bufferData hw s offset buf len e = do {
     (free, e) \<leftarrow> trybus (getTXFreeSize hw s) (beginT hw e);
     (ret, e) \<leftarrow> (if len > free then trybus (getTXFreeSize hw s) e else Some (len, e));
     e \<leftarrow> send_data_processing_offset hw s offset buf ret e;
     Some (ret, endT hw e) }"

definition startUDP :: "'h ehw \<Rightarrow> u8 \<Rightarrow> u8 list \<Rightarrow> u16 \<Rightarrow> 'h eth \<Rightarrow> int \<times> 'h eth" where
  "startUDP hw s addr port e =
     (if zero_ip addr \<or> port = 0 then (0, e)
      else
        let e = onbus (writeSnN hw SnDIPR s (take 4 addr)) (beginT hw e);
            e = onbus (writeSn16 hw SnDPORT s port) e
        in (1, endT hw e))"

definition sendUDP :: "'h ehw \<Rightarrow> u8 \<Rightarrow> 'h eth \<Rightarrow> (int \<times> 'h eth) option" where
  "sendUDP hw s e = do {
     e \<leftarrow> execCmd hw s Sock_SEND (beginT hw e);
     (ok, e) \<leftarrow> udpSent hw s e;
     (if ok then Some (1, endT hw (onbus (writeSn hw SnIR s SnIR_SEND_OK) e))
      else Some (0, endT hw (onbus (writeSn hw SnIR s (SnIR_SEND_OK OR SnIR_TIMEOUT)) e))) }"

end
