(* ===== verification/EthUdp.thy ===== *)
theory EthUdp
  imports EthSocket
begin

text \<open>
  Datagrams (Ethernet/src/EthernetUdp.cpp, EthernetUdp.h).  An \<open>EthernetUDP\<close> object keeps its
  socket (\<open>MAX_SOCK_NUM\<close> when it has none), what it knows of the datagram being read, and the
  offset into the one being written.  A datagram lies in the chip's receive buffer behind a
  header of eight bytes, which \<open>parsePacket\<close> reads with the function meant for TCP.
\<close>

record eudp =
  u_sock :: u8
  u_port :: u16
  u_remoteIP :: "u8 list"
  u_remotePort :: u16
  u_offset :: u16
  u_remaining :: u16

text \<open>The constructor sets \<open>_sock\<close> only; the address is an \<open>IPAddress\<close>, 0.0.0.0 when new.\<close>

definition eudp_new :: eudp where
  "eudp_new =
     \<lparr> u_sock = MAX_SOCK_NUM, u_port = 0, u_remoteIP = [0, 0, 0, 0], u_remotePort = 0,
       u_offset = 0, u_remaining = 0 \<rparr>"

text \<open>The first of the sockets whose status is one of those given.\<close>

fun findSocket :: "'h ehw \<Rightarrow> u8 list \<Rightarrow> u8 list \<Rightarrow> 'h eth \<Rightarrow> u8 \<times> 'h eth" where
  "findSocket hw free [] e = (MAX_SOCK_NUM, e)"
| "findSocket hw free (i # is) e =
     (case socketStatus hw i e of (s, e) \<Rightarrow>
        if s \<in> set free then (i, e) else findSocket hw free is e)"

definition allSockets :: "u8 list" where
  "allSockets = map of_nat [0..<unat MAX_SOCK_NUM]"

definition eudp_begin :: "'h ehw \<Rightarrow> u16 \<Rightarrow> eudp \<Rightarrow> 'h eth \<Rightarrow> (u8 \<times> eudp \<times> 'h eth) option" where
  "eudp_begin hw port u e =
     (if u_sock u \<noteq> MAX_SOCK_NUM then Some (0, u, e)
      else
        case findSocket hw [SnSR_CLOSED, SnSR_FIN_WAIT] allSockets e of (i, e) \<Rightarrow>
          let u = u\<lparr>u_sock := i\<rparr> in
          if u_sock u = MAX_SOCK_NUM then Some (0, u, e)
          else do {
            let u = u\<lparr>u_port := port, u_remaining := 0\<rparr>;
            (_, e) \<leftarrow> sock_socket hw (u_sock u) SnMR_UDP (u_port u) 0 e;
            Some (1, u, e) })"

definition eudp_available :: "eudp \<Rightarrow> u16" where
  "eudp_available u = u_remaining u"

definition eudp_stop :: "'h ehw \<Rightarrow> eudp \<Rightarrow> 'h eth \<Rightarrow> (eudp \<times> 'h eth) option" where
  "eudp_stop hw u e =
     (if u_sock u = MAX_SOCK_NUM then Some (u, e)
      else do {
        e \<leftarrow> sock_close hw (u_sock u) e;
        let e = e\<lparr>server_port := (server_port e)[unat (u_sock u) := 0]\<rparr>;
        Some (u\<lparr>u_sock := MAX_SOCK_NUM\<rparr>, e) })"

section \<open>Sending\<close>

definition eudp_beginPacket :: "'h ehw \<Rightarrow> u8 list \<Rightarrow> u16 \<Rightarrow> eudp \<Rightarrow> 'h eth \<Rightarrow> int \<times> eudp \<times> 'h eth" where
  "eudp_beginPacket hw ip port u e =
     (let u = u\<lparr>u_offset := 0\<rparr>
      in case startUDP hw (u_sock u) ip port e of (r, e) \<Rightarrow> (r, u, e))"

definition eudp_endPacket :: "'h ehw \<Rightarrow> eudp \<Rightarrow> 'h eth \<Rightarrow> (int \<times> 'h eth) option" where
  "eudp_endPacket hw u e = sendUDP hw (u_sock u) e"

text \<open>\<open>bufferData\<close> takes a \<open>uint16_t\<close>, so the size of the buffer is cut to 16 bits.\<close>

definition eudp_write :: "'h ehw \<Rightarrow> u8 list \<Rightarrow> eudp \<Rightarrow> 'h eth \<Rightarrow> (u16 \<times> eudp \<times> 'h eth) option" where
  "eudp_write hw bs u e = do {
     (n, e) \<leftarrow> bufferData hw (u_sock u) (u_offset u) bs (of_nat (length bs)) e;
     Some (n, u\<lparr>u_offset := u_offset u + n\<rparr>, e) }"

definition eudp_write1 :: "'h ehw \<Rightarrow> u8 \<Rightarrow> eudp \<Rightarrow> 'h eth \<Rightarrow> (u16 \<times> eudp \<times> 'h eth) option" where
  "eudp_write1 hw b u e = eudp_write hw [b] u e"

section \<open>Receiving\<close>

definition eudp_read :: "'h ehw \<Rightarrow> eudp \<Rightarrow> 'h eth \<Rightarrow> (int \<times> eudp \<times> 'h eth) option" where
  "eudp_read hw u e =
     (if u_remaining u > 0 then do {
        (got, bs, e) \<leftarrow> recv hw (u_sock u) 1 e;
        (if got > 0 then Some (uint (bs ! 0), u\<lparr>u_remaining := u_remaining u - 1\<rparr>, e)
         else Some (- 1, u, e)) }
      else Some (- 1, u, e))"

text \<open>The value returned and the bytes stored; the length is a \<open>size_t\<close>.\<close>

definition eudp_readN :: "'h ehw \<Rightarrow> u32 \<Rightarrow> eudp \<Rightarrow> 'h eth \<Rightarrow> (int \<times> u8 list \<times> eudp \<times> 'h eth) option" where
  "eudp_readN hw len u e =
     (if u_remaining u > 0 then do {
        (got, bs, e) \<leftarrow> (if unat (u_remaining u) \<le> unat len then recv hw (u_sock u) (u_remaining u) e
                         else recv hw (u_sock u) (ucast len) e);
        (if got > 0 then Some (got, bs, u\<lparr>u_remaining := u_remaining u - word_of_int got\<rparr>, e)
         else Some (- 1, [], u, e)) }
      else Some (- 1, [], u, e))"

definition eudp_peek :: "'h ehw \<Rightarrow> eudp \<Rightarrow> 'h eth \<Rightarrow> (int \<times> 'h eth) option" where
  "eudp_peek hw u e =
     (if u_remaining u = 0 then Some (- 1, e)
      else do { (b, e) \<leftarrow> sock_peek hw (u_sock u) e; Some (uint b, e) })"

partial_function (option) eudp_flush :: "'h ehw \<Rightarrow> eudp \<Rightarrow> 'h eth \<Rightarrow> (eudp \<times> 'h eth) option" where
  "eudp_flush hw u e =
     (if u_remaining u \<noteq> 0
      then Option.bind (eudp_read hw u e) (\<lambda>(_, u, e). eudp_flush hw u e)
      else Some (u, e))"

text \<open>When fewer than the eight bytes of the header arrive, the code uses bytes it has not set.\<close>

definition eudp_parsePacket :: "'h ehw \<Rightarrow> eudp \<Rightarrow> 'h eth \<Rightarrow> (int \<times> eudp \<times> 'h eth) option" where
  "eudp_parsePacket hw u e = do {
     (u, e) \<leftarrow> eudp_flush hw u e;
     (n, e) \<leftarrow> recvAvailable hw (u_sock u) e;
     (if n > 0 then do {
        (ret, tmpBuf, e) \<leftarrow> recv hw (u_sock u) 8 e;
        (if ret > 0 then
           if length tmpBuf < 8 then None
           else
             let u = u\<lparr>u_remoteIP := take 4 tmpBuf, u_remotePort := be16 (tmpBuf ! 4) (tmpBuf ! 5),
                       u_remaining := be16 (tmpBuf ! 6) (tmpBuf ! 7)\<rparr>
             in Some (uint (u_remaining u), u, e)
         else Some (ret, u, e)) }
      else Some (0, u, e)) }"

end
