(* ===== verification/DnsClient.thy ===== *)
theory DnsClient
  imports EthUdp
begin

text \<open>
  The name resolver of the Ethernet library (Ethernet/src/Dns.cpp).  A name is the list of
  its characters without the closing zero; \<open>char\<close> is unsigned, as it is on the ESP8266.
  Integers are copied to and from packets in memory order, which is little-endian.
  \<open>None\<close> is, besides a loop that does not end, the use of a variable that was not set and
  the overflow of an \<open>int\<close>, which are undefined in C++.
\<close>

record dnsc =
  iDNSServer :: "u8 list"
  iRequestId :: u16
  iUdp :: eudp

definition dnsc_new :: dnsc where
  "dnsc_new = \<lparr> iDNSServer = [0, 0, 0, 0], iRequestId = 0, iUdp = eudp_new \<rparr>"

definition dnsc_begin :: "u8 list \<Rightarrow> dnsc \<Rightarrow> dnsc" where
  "dnsc_begin server d = d\<lparr>iDNSServer := server, iRequestId := 0\<rparr>"

definition DNS_HEADER_SIZE :: u16 where [simp]: "DNS_HEADER_SIZE = 12"
definition TTL_SIZE :: nat where [simp]: "TTL_SIZE = 4"
definition DNS_PORT :: u16 where [simp]: "DNS_PORT = 53"
definition QUERY_FLAG :: u16 where [simp]: "QUERY_FLAG = 0"
definition OPCODE_STANDARD_QUERY :: u16 where [simp]: "OPCODE_STANDARD_QUERY = 0"
definition RECURSION_DESIRED_FLAG :: u16 where [simp]: "RECURSION_DESIRED_FLAG = 0x0100"
definition RESPONSE_FLAG :: u16 where [simp]: "RESPONSE_FLAG = 0x8000"
definition QUERY_RESPONSE_MASK :: u16 where [simp]: "QUERY_RESPONSE_MASK = 0x8000"
definition TRUNCATION_FLAG :: u16 where [simp]: "TRUNCATION_FLAG = 0x0200"
definition RESP_MASK :: u16 where [simp]: "RESP_MASK = 15"
definition TYPE_A :: u16 where [simp]: "TYPE_A = 1"
definition CLASS_IN :: u16 where [simp]: "CLASS_IN = 1"
definition LABEL_COMPRESSION_MASK :: u8 where [simp]: "LABEL_COMPRESSION_MASK = 0xC0"
definition SUCCESS :: int where [simp]: "SUCCESS = 1"
definition TIMED_OUT :: int where [simp]: "TIMED_OUT = - 1"
definition INVALID_SERVER :: int where [simp]: "INVALID_SERVER = - 2"
definition TRUNCATED :: int where [simp]: "TRUNCATED = - 3"
definition INVALID_RESPONSE :: int where [simp]: "INVALID_RESPONSE = - 4"

definition htons :: "u16 \<Rightarrow> u16" where
  "htons x = push_bit 8 x AND 0xFF00 OR drop_bit 8 x AND 0x00FF"

definition get_le16 :: "u8 list \<Rightarrow> u16" where
  "get_le16 bs = ucast (bs ! 0) OR push_bit 8 (ucast (bs ! 1))"

section \<open>Numeric addresses\<close>

definition int_range :: "int \<Rightarrow> bool" where
  "int_range v \<longleftrightarrow> - (2 ^ 31) \<le> v \<and> v < 2 ^ 31"

text \<open>
  The loop over the characters, up to four dots: whether no segment was too large, the
  number of the last segment, its value, and the address.
\<close>

fun atonLoop :: "u8 list \<Rightarrow> nat \<Rightarrow> int \<Rightarrow> u8 list \<Rightarrow> (bool \<times> nat \<times> int \<times> u8 list) option" where
  "atonLoop [] segment value res = Some (True, segment, value, res)"
| "atonLoop (c # cs) segment value res =
     (if \<not> segment < 4 then Some (True, segment, value, res)
      else if c = 0x2E then
        if value > 255 then Some (False, segment, value, res)
        else atonLoop cs (segment + 1) 0 (res[segment := word_of_int value])
      else
        let tens = value * 10; value = tens + (uint c - 0x30) in
        if int_range tens \<and> int_range value then atonLoop cs segment value res else None)"

definition inet_aton :: "u8 list \<Rightarrow> u8 list \<Rightarrow> (int \<times> u8 list) option" where
  "inet_aton s res =
     (let p = dropWhile (\<lambda>c. c = 0x2E \<or> c \<ge> 0x30 \<or> c \<le> 0x39) s in
      if p = [] then do {
        (ok, segment, value, res) \<leftarrow> atonLoop s 0 0 res;
        if \<not> ok then Some (0, res)
        else if value > 255 \<or> segment > 3 then Some (0, res)
        else Some (1, res[segment := word_of_int value]) }
      else Some (0, res))"

section \<open>The request\<close>

definition dnsc_write :: "'h ehw \<Rightarrow> u8 list \<Rightarrow> dnsc \<Rightarrow> 'h eth \<Rightarrow> (dnsc \<times> 'h eth) option" where
  "dnsc_write hw bs d e = do {
     (_, u, e) \<leftarrow> eudp_write hw bs (iUdp d) e;
     Some (d\<lparr>iUdp := u\<rparr>, e) }"

text \<open>The labels of the name, empty ones left out; the loop stops at the end of the name.\<close>

function labelLoop :: "'h ehw \<Rightarrow> u8 list \<Rightarrow> dnsc \<Rightarrow> 'h eth \<Rightarrow> (dnsc \<times> 'h eth) option" where
  "labelLoop hw start d e = do {
     let label = takeWhile (\<lambda>c. c \<noteq> 0x2E) start;
     (d, e) \<leftarrow> (if length label > 0 then do {
                  (d, e) \<leftarrow> dnsc_write hw [of_nat (length label)] d e;
                  dnsc_write hw label d e }
                else Some (d, e));
     (case drop (length label) start of
        [] \<Rightarrow> Some (d, e)
      | _ # start \<Rightarrow> labelLoop hw start d e) }"
  by pat_completeness auto
termination
  by (relation "measure (\<lambda>(_, start, _, _). length start)")
    (auto dest: arg_cong [where f = length])

declare labelLoop.simps [simp del]

definition BuildRequest :: "'h ehw \<Rightarrow> u8 list \<Rightarrow> dnsc \<Rightarrow> 'h eth \<Rightarrow> (u16 \<times> dnsc \<times> 'h eth) option" where
  "BuildRequest hw name d e = do {
     let (now, e) = frombus (e_millis hw) e;
     let d = d\<lparr>iRequestId := ucast now\<rparr>;
     (d, e) \<leftarrow> dnsc_write hw (le16 (iRequestId d)) d e;
     (d, e) \<leftarrow> dnsc_write hw (le16 (htons (QUERY_FLAG OR OPCODE_STANDARD_QUERY OR RECURSION_DESIRED_FLAG))) d e;
     (d, e) \<leftarrow> dnsc_write hw (le16 (htons 1)) d e;
     (d, e) \<leftarrow> dnsc_write hw (le16 0) d e;
     (d, e) \<leftarrow> dnsc_write hw (le16 0) d e;
     (d, e) \<leftarrow> dnsc_write hw (le16 0) d e;
     (d, e) \<leftarrow> (if name \<noteq> [] then labelLoop hw name d e else Some (d, e));
     (d, e) \<leftarrow> dnsc_write hw [0] d e;
     (d, e) \<leftarrow> dnsc_write hw (le16 (htons TYPE_A)) d e;
     (d, e) \<leftarrow> dnsc_write hw (le16 (htons CLASS_IN)) d e;
     Some (1, d, e) }"

section \<open>The response\<close>

text \<open>Waiting for a packet: whether one came in time.\<close>

partial_function (option) awaitPacket ::
  "'h ehw \<Rightarrow> u32 \<Rightarrow> u32 \<Rightarrow> eudp \<Rightarrow> 'h eth \<Rightarrow> (bool \<times> eudp \<times> 'h eth) option" where
  "awaitPacket hw timeout startTime u e =
     Option.bind (eudp_parsePacket hw u e) (\<lambda>(n, u, e).
       if n \<le> 0 then
         case frombus (e_millis hw) e of (now, e) \<Rightarrow>
           if now - startTime > timeout then Some (False, u, e)
           else awaitPacket hw timeout startTime u (onbus (e_delay hw 50) e)
       else Some (True, u, e))"

fun skipReads :: "'h ehw \<Rightarrow> nat \<Rightarrow> eudp \<Rightarrow> 'h eth \<Rightarrow> (eudp \<times> 'h eth) option" where
  "skipReads hw 0 u e = Some (u, e)"
| "skipReads hw (Suc n) u e = do { (_, u, e) \<leftarrow> eudp_read hw u e; skipReads hw n u e }"

text \<open>
  Reading the length of a label.  When nothing can be read the variable keeps its value,
  which is not set at first.
\<close>

definition readLen :: "'h ehw \<Rightarrow> u8 option \<Rightarrow> eudp \<Rightarrow> 'h eth \<Rightarrow> (u8 \<times> eudp \<times> 'h eth) option" where
  "readLen hw len u e = do {
     (_, bs, u, e) \<leftarrow> eudp_readN hw 1 u e;
     l \<leftarrow> (if bs = [] then len else Some (bs ! 0));
     Some (l, u, e) }"

text \<open>The loop \<open>while (len--)\<close> leaves 255 in \<open>len\<close>, so the loop around it goes on.\<close>

partial_function (option) skipQName ::
  "'h ehw \<Rightarrow> u8 option \<Rightarrow> eudp \<Rightarrow> 'h eth \<Rightarrow> (eudp \<times> 'h eth) option" where
  "skipQName hw len u e =
     Option.bind (readLen hw len u e) (\<lambda>(l, u, e).
       if l > 0
       then Option.bind (skipReads hw (unat l) u e) (\<lambda>(u, e). skipQName hw (Some 255) u e)
       else Some (u, e))"

fun skipQuestions :: "'h ehw \<Rightarrow> nat \<Rightarrow> eudp \<Rightarrow> 'h eth \<Rightarrow> (eudp \<times> 'h eth) option" where
  "skipQuestions hw 0 u e = Some (u, e)"
| "skipQuestions hw (Suc n) u e = do {
     (u, e) \<leftarrow> skipQName hw None u e;
     (u, e) \<leftarrow> skipReads hw 4 u e;
     skipQuestions hw n u e }"

partial_function (option) skipAName ::
  "'h ehw \<Rightarrow> u8 option \<Rightarrow> eudp \<Rightarrow> 'h eth \<Rightarrow> (eudp \<times> 'h eth) option" where
  "skipAName hw len u e =
     Option.bind (readLen hw len u e) (\<lambda>(l, u, e).
       if l AND LABEL_COMPRESSION_MASK = 0
       then
         (if l > 0
          then Option.bind (skipReads hw (unat l) u e) (\<lambda>(u, e). skipAName hw (Some 255) u e)
          else Some (u, e))
       else skipReads hw 1 u e)"

text \<open>Reading a 16 bit variable; \<open>old\<close> is its contents before, when it has any.\<close>

definition readInto16 :: "'h ehw \<Rightarrow> u8 list \<Rightarrow> eudp \<Rightarrow> 'h eth \<Rightarrow> (u16 \<times> eudp \<times> 'h eth) option" where
  "readInto16 hw old u e = do {
     (_, bs, u, e) \<leftarrow> eudp_readN hw 2 u e;
     let bs = bs @ drop (length bs) old;
     if length bs < 2 then None else Some (get_le16 bs, u, e) }"

text \<open>The loop over the answers: the value returned, and the address.\<close>

fun answerLoop ::
  "'h ehw \<Rightarrow> nat \<Rightarrow> u16 \<Rightarrow> u8 list \<Rightarrow> eudp \<Rightarrow> 'h eth \<Rightarrow> (u16 \<times> u8 list \<times> eudp \<times> 'h eth) option" where
  "answerLoop hw 0 header_flags addr u e = do {
     (u, e) \<leftarrow> eudp_flush hw u e;
     Some (- 10, addr, u, e) }"
| "answerLoop hw (Suc n) header_flags addr u e = do {
     (u, e) \<leftarrow> skipAName hw None u e;
     (answerType, u, e) \<leftarrow> readInto16 hw [] u e;
     (answerClass, u, e) \<leftarrow> readInto16 hw [] u e;
     (u, e) \<leftarrow> skipReads hw TTL_SIZE u e;
     (header_flags, u, e) \<leftarrow> readInto16 hw (le16 header_flags) u e;
     (if htons answerType = TYPE_A \<and> htons answerClass = CLASS_IN then
        if htons header_flags \<noteq> 4 then do {
          (u, e) \<leftarrow> eudp_flush hw u e;
          Some (- 9, addr, u, e) }
        else do {
          (_, bs, u, e) \<leftarrow> eudp_readN hw 4 u e;
          Some (word_of_int SUCCESS, bs @ drop (length bs) addr, u, e) }
      else do {
        (u, e) \<leftarrow> skipReads hw (unat (htons header_flags)) u e;
        answerLoop hw n header_flags addr u e }) }"

text \<open>The result is a \<open>uint16_t\<close>, so the negative codes wrap around.\<close>

definition ProcessResponse ::
  "'h ehw \<Rightarrow> u16 \<Rightarrow> u8 list \<Rightarrow> dnsc \<Rightarrow> 'h eth \<Rightarrow> (u16 \<times> u8 list \<times> dnsc \<times> 'h eth) option" where
  "ProcessResponse hw aTimeout addr d e = do {
     let (startTime, e) = frombus (e_millis hw) e;
     (came, u, e) \<leftarrow> awaitPacket hw (ucast aTimeout) startTime (iUdp d) e;
     let ret = (\<lambda>(code, addr, u, e). (code, addr, d\<lparr>iUdp := u\<rparr>, e));
     (if \<not> came then Some (ret (word_of_int TIMED_OUT, addr, u, e))
      else if iDNSServer d \<noteq> u_remoteIP u \<or> u_remotePort u \<noteq> DNS_PORT
      then Some (ret (word_of_int INVALID_SERVER, addr, u, e))
      else if eudp_available u < DNS_HEADER_SIZE
      then Some (ret (word_of_int TRUNCATED, addr, u, e))
      else do {
        (_, header, u, e) \<leftarrow> eudp_readN hw (ucast DNS_HEADER_SIZE) u e;
        if length header < unat DNS_HEADER_SIZE then None else do {
        let header_flags = htons (get_le16 (drop 2 header));
        (if iRequestId d \<noteq> get_le16 header \<or> header_flags AND QUERY_RESPONSE_MASK \<noteq> RESPONSE_FLAG
         then do {
           (u, e) \<leftarrow> eudp_flush hw u e;
           Some (ret (word_of_int INVALID_RESPONSE, addr, u, e)) }
         else if header_flags AND TRUNCATION_FLAG \<noteq> 0 \<or> header_flags AND RESP_MASK \<noteq> 0
         then do {
           (u, e) \<leftarrow> eudp_flush hw u e;
           Some (ret (- 5, addr, u, e)) }
         else do {
           let answerCount = htons (get_le16 (drop 6 header));
           (if answerCount = 0
            then do {
              (u, e) \<leftarrow> eudp_flush hw u e;
              Some (ret (- 6, addr, u, e)) }
            else do {
              (u, e) \<leftarrow> skipQuestions hw (unat (htons (get_le16 (drop 4 header)))) u e;
              res \<leftarrow> answerLoop hw (unat answerCount) header_flags addr u e;
              Some (ret res) }) }) } }) }"

section \<open>Resolving a name\<close>

text \<open>The loop that waits for the response, at most three times.\<close>

fun dnsResponseLoop ::
  "'h ehw \<Rightarrow> nat \<Rightarrow> int \<Rightarrow> u8 list \<Rightarrow> dnsc \<Rightarrow> 'h eth \<Rightarrow> (int \<times> u8 list \<times> dnsc \<times> 'h eth) option" where
  "dnsResponseLoop hw 0 ret addr d e = Some (ret, addr, d, e)"
| "dnsResponseLoop hw (Suc n) ret addr d e =
     (if ret = TIMED_OUT
      then do {
        (r, addr, d, e) \<leftarrow> ProcessResponse hw 5000 addr d e;
        dnsResponseLoop hw n (uint r) addr d e }
      else Some (ret, addr, d, e))"

definition getHostByName ::
  "'h ehw \<Rightarrow> u8 list \<Rightarrow> u8 list \<Rightarrow> dnsc \<Rightarrow> 'h eth \<Rightarrow> (int \<times> u8 list \<times> dnsc \<times> 'h eth) option" where
  "getHostByName hw host addr d e = do {
     (numeric, addr) \<leftarrow> inet_aton host addr;
     (if numeric \<noteq> 0 then Some (1, addr, d, e)
      else if iDNSServer d = e_INADDR_NONE hw then Some (INVALID_SERVER, addr, d, e)
      else do {
        let (now, e) = frombus (e_millis hw) e;
        (opened, u, e) \<leftarrow> eudp_begin hw (1024 + (ucast now AND 0xF)) (iUdp d) e;
        let d = d\<lparr>iUdp := u\<rparr>;
        (if opened = 1 then do {
           let (ret, u, e) = eudp_beginPacket hw (iDNSServer d) DNS_PORT (iUdp d) e;
           let d = d\<lparr>iUdp := u\<rparr>;
           (ret, addr, d, e) \<leftarrow>
             (if ret \<noteq> 0 then do {
                (r, d, e) \<leftarrow> BuildRequest hw host d e;
                (if r \<noteq> 0 then do {
                   (ret, e) \<leftarrow> eudp_endPacket hw (iUdp d) e;
                   (if ret \<noteq> 0 then dnsResponseLoop hw 3 TIMED_OUT addr d e
                    else Some (ret, addr, d, e)) }
                 else Some (uint r, addr, d, e)) }
              else Some (ret, addr, d, e));
           (u, e) \<leftarrow> eudp_stop hw (iUdp d) e;
           Some (ret, addr, d\<lparr>iUdp := u\<rparr>, e) }
         else Some (0, addr, d, e)) }) }"

text \<open>\<open>EthernetUDP::beginPacket\<close> with a host name.\<close>

definition eudp_beginPacket_host ::
  "'h ehw \<Rightarrow> u8 list \<Rightarrow> u16 \<Rightarrow> eudp \<Rightarrow> 'h eth \<Rightarrow> (int \<times> eudp \<times> 'h eth) option" where
  "eudp_beginPacket_host hw host port u e = do {
     (ret, addr, _, e) \<leftarrow> getHostByName hw host [0, 0, 0, 0] (dnsc_begin (dnsServerAddress e) dnsc_new) e;
     Some (if ret = 1 then eudp_beginPacket hw addr port u e else (ret, u, e)) }"

end
