(* ===== verification/EthClient.thy ===== *)
theory EthClient
  imports DnsClient
begin

text \<open>
  TCP connections (Ethernet/src/EthernetClient.cpp, EthernetServer.cpp).  A client is the
  number of its socket, with the error flag it inherits from \<open>Print\<close>; a server is its port.
\<close>

section \<open>Clients\<close>

record eclient =
  c_sock :: u8
  c_writeError :: bool

definition eclient_new :: eclient where
  "eclient_new = \<lparr> c_sock = MAX_SOCK_NUM, c_writeError = False \<rparr>"

definition eclient_of :: "u8 \<Rightarrow> eclient" where
  "eclient_of sock = \<lparr> c_sock = sock, c_writeError = False \<rparr>"

definition eclient_status :: "'h ehw \<Rightarrow> eclient \<Rightarrow> 'h eth \<Rightarrow> u8 \<times> 'h eth" where
  "eclient_status hw c e =
     (if c_sock c = MAX_SOCK_NUM then (SnSR_CLOSED, e) else socketStatus hw (c_sock c) e)"

text \<open>The loop that waits for the connection: whether it was established.\<close>

partial_function (option) awaitEstablished :: "'h ehw \<Rightarrow> eclient \<Rightarrow> 'h eth \<Rightarrow> (bool \<times> 'h eth) option" where
  "awaitEstablished hw c e =
     (case eclient_status hw c e of (s, e) \<Rightarrow>
        if s = SnSR_ESTABLISHED then Some (True, e)
        else
          case eclient_status hw c (onbus (e_delay hw 1) e) of (s, e) \<Rightarrow>
            if s = SnSR_CLOSED then Some (False, e) else awaitEstablished hw c e)"

definition eclient_connect ::
  "'h ehw \<Rightarrow> u8 list \<Rightarrow> u16 \<Rightarrow> eclient \<Rightarrow> 'h eth \<Rightarrow> (int \<times> eclient \<times> 'h eth) option" where
  "eclient_connect hw ip port c e =
     (if c_sock c \<noteq> MAX_SOCK_NUM then Some (0, c, e)
      else
        case findSocket hw [SnSR_CLOSED, SnSR_FIN_WAIT, SnSR_CLOSE_WAIT] allSockets e of (i, e) \<Rightarrow>
          let c = c\<lparr>c_sock := i\<rparr> in
          if c_sock c = MAX_SOCK_NUM then Some (0, c, e)
          else do {
            let e = e\<lparr>srcport := srcport e + 1\<rparr>;
            let e = (if srcport e = 0 then e\<lparr>srcport := 49152\<rparr> else e);
            (_, e) \<leftarrow> sock_socket hw (c_sock c) SnMR_TCP (srcport e) 0 e;
            (r, e) \<leftarrow> sock_connect hw (c_sock c) ip port e;
            (if r = 0 then Some (0, c\<lparr>c_sock := MAX_SOCK_NUM\<rparr>, e)
             else do {
               (up, e) \<leftarrow> awaitEstablished hw c e;
               (if up then Some (1, c, e) else Some (0, c\<lparr>c_sock := MAX_SOCK_NUM\<rparr>, e)) }) })"

definition eclient_connect_host ::
  "'h ehw \<Rightarrow> u8 list \<Rightarrow> u16 \<Rightarrow> eclient \<Rightarrow> 'h eth \<Rightarrow> (int \<times> eclient \<times> 'h eth) option" where
  "eclient_connect_host hw host port c e = do {
     (ret, addr, _, e) \<leftarrow> getHostByName hw host [0, 0, 0, 0] (dnsc_begin (dnsServerAddress e) dnsc_new) e;
     (if ret = 1 then eclient_connect hw addr port c e else Some (ret, c, e)) }"

text \<open>The size is a \<open>size_t\<close>; \<open>send\<close> takes its low 16 bits.\<close>

definition eclient_write ::
  "'h ehw \<Rightarrow> u8 list \<Rightarrow> u32 \<Rightarrow> eclient \<Rightarrow> 'h eth \<Rightarrow> (u32 \<times> eclient \<times> 'h eth) option" where
  "eclient_write hw buf sz c e =
     (if c_sock c = MAX_SOCK_NUM then Some (0, c\<lparr>c_writeError := True\<rparr>, e)
      else do {
        (n, e) \<leftarrow> sock_send hw (c_sock c) buf (ucast sz) e;
        (if n = 0 then Some (0, c\<lparr>c_writeError := True\<rparr>, e) else Some (sz, c, e)) })"

definition eclient_write1 :: "'h ehw \<Rightarrow> u8 \<Rightarrow> eclient \<Rightarrow> 'h eth \<Rightarrow> (u32 \<times> eclient \<times> 'h eth) option" where
  "eclient_write1 hw b c e = eclient_write hw [b] 1 c e"

definition eclient_available :: "'h ehw \<Rightarrow> eclient \<Rightarrow> 'h eth \<Rightarrow> (int \<times> 'h eth) option" where
  "eclient_available hw c e =
     (if c_sock c \<noteq> MAX_SOCK_NUM then recvAvailable hw (c_sock c) e else Some (0, e))"

definition eclient_read :: "'h ehw \<Rightarrow> eclient \<Rightarrow> 'h eth \<Rightarrow> (int \<times> 'h eth) option" where
  "eclient_read hw c e = do {
     (n, bs, e) \<leftarrow> recv hw (c_sock c) 1 e;
     Some (if n > 0 then uint (bs ! 0) else - 1, e) }"

definition eclient_readN :: "'h ehw \<Rightarrow> u32 \<Rightarrow> eclient \<Rightarrow> 'h eth \<Rightarrow> (int \<times> u8 list \<times> 'h eth) option" where
  "eclient_readN hw sz c e = recv hw (c_sock c) (ucast sz) e"

definition eclient_peek :: "'h ehw \<Rightarrow> eclient \<Rightarrow> 'h eth \<Rightarrow> (int \<times> 'h eth) option" where
  "eclient_peek hw c e = do {
     (n, e) \<leftarrow> eclient_available hw c e;
     (if n = 0 then Some (- 1, e)
      else do { (b, e) \<leftarrow> sock_peek hw (c_sock c) e; Some (uint b, e) }) }"

definition eclient_flush :: "eclient \<Rightarrow> 'h eth \<Rightarrow> 'h eth" where
  "eclient_flush c e = sock_flush (c_sock c) e"

text \<open>Waiting up to a second for the connection to close: the last status read.\<close>

partial_function (option) awaitClosed :: "'h ehw \<Rightarrow> eclient \<Rightarrow> u32 \<Rightarrow> 'h eth \<Rightarrow> (u8 \<times> 'h eth) option" where
  "awaitClosed hw c start e =
     (case eclient_status hw c e of (s, e) \<Rightarrow>
        if s = SnSR_CLOSED then Some (s, e)
        else
          case frombus (e_millis hw) (onbus (e_delay hw 1) e) of (now, e) \<Rightarrow>
            if now - start < 1000 then awaitClosed hw c start e else Some (s, e))"

definition eclient_stop :: "'h ehw \<Rightarrow> eclient \<Rightarrow> 'h eth \<Rightarrow> (eclient \<times> 'h eth) option" where
  "eclient_stop hw c e =
     (if c_sock c = MAX_SOCK_NUM then Some (c, e)
      else do {
        e \<leftarrow> sock_disconnect hw (c_sock c) e;
        let (start, e) = frombus (e_millis hw) e;
        (s, e) \<leftarrow> awaitClosed hw c start e;
        e \<leftarrow> (if s \<noteq> SnSR_CLOSED then sock_close hw (c_sock c) e else Some e);
        Some (c\<lparr>c_sock := MAX_SOCK_NUM\<rparr>,
              e\<lparr>server_port := (server_port e)[unat (c_sock c) := 0]\<rparr>) })"

definition eclient_connected :: "'h ehw \<Rightarrow> eclient \<Rightarrow> 'h eth \<Rightarrow> (bool \<times> 'h eth) option" where
  "eclient_connected hw c e =
     (if c_sock c = MAX_SOCK_NUM then Some (False, e)
      else
        case eclient_status hw c e of (s, e) \<Rightarrow>
          if s = SnSR_LISTEN \<or> s = SnSR_CLOSED \<or> s = SnSR_FIN_WAIT then Some (False, e)
          else if s = SnSR_CLOSE_WAIT
          then do { (n, e) \<leftarrow> eclient_available hw c e; Some (n \<noteq> 0, e) }
          else Some (True, e))"

definition eclient_bool :: "eclient \<Rightarrow> bool" where
  "eclient_bool c \<longleftrightarrow> c_sock c \<noteq> MAX_SOCK_NUM"

definition eclient_eq :: "eclient \<Rightarrow> eclient \<Rightarrow> bool" where
  "eclient_eq c d \<longleftrightarrow> c_sock c = c_sock d \<and> c_sock c \<noteq> MAX_SOCK_NUM \<and> c_sock d \<noteq> MAX_SOCK_NUM"

section \<open>Servers\<close>

text \<open>The loop of \<open>begin\<close> over the sockets: the first closed one listens.\<close>

fun listenLoop :: "'h ehw \<Rightarrow> u16 \<Rightarrow> u8 list \<Rightarrow> 'h eth \<Rightarrow> 'h eth option" where
  "listenLoop hw port [] e = Some e"
| "listenLoop hw port (s # ss) e =
     (case eclient_status hw (eclient_of s) e of (st, e) \<Rightarrow>
        if st = SnSR_CLOSED
        then do {
          (_, e) \<leftarrow> sock_socket hw s SnMR_TCP port 0 e;
          (_, e) \<leftarrow> sock_listen hw s e;
          Some (e\<lparr>server_port := (server_port e)[unat s := port]\<rparr>) }
        else listenLoop hw port ss e)"

definition eserver_begin :: "'h ehw \<Rightarrow> u16 \<Rightarrow> 'h eth \<Rightarrow> 'h eth option" where
  "eserver_begin hw port e = listenLoop hw port allSockets e"

text \<open>The loop of \<open>accept\<close>: whether one of the server's sockets listens; the finished ones are stopped.\<close>

fun acceptLoop :: "'h ehw \<Rightarrow> u16 \<Rightarrow> bool \<Rightarrow> u8 list \<Rightarrow> 'h eth \<Rightarrow> (bool \<times> 'h eth) option" where
  "acceptLoop hw port listening [] e = Some (listening, e)"
| "acceptLoop hw port listening (s # ss) e =
     (if server_port e ! unat s = port
      then
        case eclient_status hw (eclient_of s) e of (st, e) \<Rightarrow>
          if st = SnSR_LISTEN then acceptLoop hw port True ss e
          else
            case eclient_status hw (eclient_of s) e of (st, e) \<Rightarrow>
              if st = SnSR_CLOSE_WAIT
              then do {
                (n, e) \<leftarrow> eclient_available hw (eclient_of s) e;
                (if n = 0 then do {
                   (_, e) \<leftarrow> eclient_stop hw (eclient_of s) e;
                   acceptLoop hw port listening ss e }
                 else acceptLoop hw port listening ss e) }
              else acceptLoop hw port listening ss e
      else acceptLoop hw port listening ss e)"

definition eserver_accept :: "'h ehw \<Rightarrow> u16 \<Rightarrow> 'h eth \<Rightarrow> 'h eth option" where
  "eserver_accept hw port e = do {
     (listening, e) \<leftarrow> acceptLoop hw port False allSockets e;
     (if \<not> listening then eserver_begin hw port e else Some e) }"

fun availableLoop :: "'h ehw \<Rightarrow> u16 \<Rightarrow> u8 list \<Rightarrow> 'h eth \<Rightarrow> (eclient \<times> 'h eth) option" where
  "availableLoop hw port [] e = Some (eclient_of MAX_SOCK_NUM, e)"
| "availableLoop hw port (s # ss) e =
     (if server_port e ! unat s = port
      then
        case eclient_status hw (eclient_of s) e of (st, e) \<Rightarrow>
          if st = SnSR_ESTABLISHED \<or> st = SnSR_CLOSE_WAIT
          then do {
            (n, e) \<leftarrow> eclient_available hw (eclient_of s) e;
            (if n \<noteq> 0 then Some (eclient_of s, e) else availableLoop hw port ss e) }
          else availableLoop hw port ss e
      else availableLoop hw port ss e)"

definition eserver_available :: "'h ehw \<Rightarrow> u16 \<Rightarrow> 'h eth \<Rightarrow> (eclient \<times> 'h eth) option" where
  "eserver_available hw port e = do {
     e \<leftarrow> eserver_accept hw port e;
     availableLoop hw port allSockets e }"

fun serverWriteLoop :: "'h ehw \<Rightarrow> u16 \<Rightarrow> u8 list \<Rightarrow> u32 \<Rightarrow> u32 \<Rightarrow> u8 list \<Rightarrow> 'h eth \<Rightarrow> (u32 \<times> 'h eth) option" where
  "serverWriteLoop hw port buf sz n [] e = Some (n, e)"
| "serverWriteLoop hw port buf sz n (s # ss) e =
     (if server_port e ! unat s = port
      then
        case eclient_status hw (eclient_of s) e of (st, e) \<Rightarrow>
          if st = SnSR_ESTABLISHED
          then do {
            (m, _, e) \<leftarrow> eclient_write hw buf sz (eclient_of s) e;
            serverWriteLoop hw port buf sz (n + m) ss e }
          else serverWriteLoop hw port buf sz n ss e
      else serverWriteLoop hw port buf sz n ss e)"

definition eserver_write :: "'h ehw \<Rightarrow> u16 \<Rightarrow> u8 list \<Rightarrow> u32 \<Rightarrow> 'h eth \<Rightarrow> (u32 \<times> 'h eth) option" where
  "eserver_write hw port buf sz e = do {
     e \<leftarrow> eserver_accept hw port e;
     serverWriteLoop hw port buf sz 0 allSockets e }"

definition eserver_write1 :: "'h ehw \<Rightarrow> u16 \<Rightarrow> u8 \<Rightarrow> 'h eth \<Rightarrow> (u32 \<times> 'h eth) option" where
  "eserver_write1 hw port b e = eserver_write hw port [b] 1 e"

end
