(* ===== verification/EthChip.thy ===== *)
theory EthChip
  imports EthSocket
begin

text \<open>
  What the driver relies on of the chip (W5100 data sheet): its registers and buffers are a
  memory of bytes; a write to an interrupt register clears the bits written, a write to a
  command register executes the command and reads back as 0 when it is done; RECV makes the
  received size the distance from the read pointer to the write pointer.  The laws describe a
  chip on which nothing arrives meanwhile.  Over them the driver's block transfers are
  computed: the circular buffers of a socket, and what \<open>recv\<close> takes from one.
\<close>

definition mem16 :: "(u16 \<Rightarrow> u8) \<Rightarrow> u16 \<Rightarrow> u16" where
  "mem16 m a = push_bit 8 (ucast (m a)) OR ucast (m (a + 1))"

definition special :: "u16 \<Rightarrow> bool" where
  "special a \<longleftrightarrow> (\<exists>s < 4. a = snAddr s SnCR \<or> a = snAddr s SnIR)"

locale w5100 =
  fixes hw :: "'h ehw" and mem :: "'h \<Rightarrow> u16 \<Rightarrow> u8"
    and exec :: "u8 \<Rightarrow> u8 \<Rightarrow> (u16 \<Rightarrow> u8) \<Rightarrow> u16 \<Rightarrow> u8"
  assumes read_law: "fst (chip_read hw a h) = mem h a" "mem (snd (chip_read hw a h)) = mem h"
    and write_plain: "\<not> special a \<Longrightarrow> mem (chip_write hw a d h) = (mem h)(a := d)"
    and write_ir: "s < 4 \<Longrightarrow> mem (chip_write hw (snAddr s SnIR) d h) =
                     (mem h)(snAddr s SnIR := mem h (snAddr s SnIR) AND NOT d)"
    and write_cr: "s < 4 \<Longrightarrow> mem (chip_write hw (snAddr s SnCR) d h) = exec s d (mem h)"
    and exec_done: "s < 4 \<Longrightarrow> exec s d m (snAddr s SnCR) = 0"
    and exec_recv: "s < 4 \<Longrightarrow> mem16 (exec s 0x40 m) (snAddr s SnRX_RSR) =
                      mem16 m (snAddr s SnRX_WR) - mem16 m (snAddr s SnRX_RD)"
      "s < 4 \<Longrightarrow> a \<notin> {snAddr s SnCR, snAddr s SnRX_RSR, snAddr s SnRX_RSR + 1} \<Longrightarrow> exec s 0x40 m a = m a"
    and exec_send: "s < 4 \<Longrightarrow> exec s 0x20 m (snAddr s SnIR) AND SnIR_SEND_OK = SnIR_SEND_OK"
      "s < 4 \<Longrightarrow> 0x4000 \<le> a \<Longrightarrow> exec s 0x20 m a = m a"
    and quiet: "mem (e_yield hw h) = mem h" "mem (e_delay hw t h) = mem h"
      "mem (snd (e_millis hw h)) = mem h" "mem (e_beginTransaction hw h) = mem h"
      "mem (e_endTransaction hw h) = mem h"

section \<open>Addresses\<close>

lemma unat_snAddr:
  assumes "s < 4" and "unat r < 256"
  shows "unat (snAddr s r) = 1024 + 256 * unat s + unat r"
proof -
  have s: "unat s < 4" using assms(1) by (simp add: word_less_nat_alt)
  have "unat (ucast s * 0x100 :: u16) = unat s * 256"
    using s by (simp add: unat_word_ariths unat_ucast_up)
  then show ?thesis using s assms(2) by (simp add: snAddr_def unat_word_ariths)
qed

lemma snAddr_Suc: "snAddr s r + 1 = snAddr s (r + 1)"
  by (simp add: snAddr_def)

lemma snAddr_eq_iff:
  assumes "s < 4" "t < 4" "unat q < 256" "unat r < 256"
  shows "snAddr s q = snAddr t r \<longleftrightarrow> s = t \<and> q = r"
proof
  assume "snAddr s q = snAddr t r"
  then have "1024 + 256 * unat s + unat q = 1024 + 256 * unat t + unat r"
    using assms by (metis unat_snAddr)
  then have "256 * unat s + unat q = 256 * unat t + unat r" by simp
  then have "(unat s * 256 + unat q) div 256 = (unat t * 256 + unat r) div 256"
      "(unat s * 256 + unat q) mod 256 = (unat t * 256 + unat r) mod 256" by (simp_all add: mult.commute)
  then show "s = t \<and> q = r" using assms(3, 4) by (simp add: word_unat_eq_iff)
qed simp

lemma snAddr_less: "s < 4 \<Longrightarrow> unat r < 256 \<Longrightarrow> unat (snAddr s r) < 2048"
  by (simp add: unat_snAddr word_less_nat_alt)

lemma special_less: "special a \<Longrightarrow> unat a < 2048"
  by (auto simp: special_def snAddr_less)

lemma special_snAddr:
  "s < 4 \<Longrightarrow> unat r < 256 \<Longrightarrow> special (snAddr s r) \<longleftrightarrow> r = SnCR \<or> r = SnIR"
  by (auto simp: special_def snAddr_eq_iff)

lemma mask11: "(x :: u16) AND 0x7FF = take_bit 11 x"
  by (simp add: take_bit_eq_mask mask_eq_exp_minus_1)

lemma unat_mask11: "unat ((x :: u16) AND 0x7FF) = unat x mod 2048"
  by (simp add: mask11 unat_take_bit_mod)

lemma or_and_byte: "ucast (b :: u8) AND (0xFF :: u16) = ucast b"
proof -
  have "ucast b AND (0xFF :: u16) = take_bit 8 (ucast b)"
    by (simp add: take_bit_eq_mask mask_eq_exp_minus_1)
  also have "\<dots> = ucast b"
    using unat_bound(3) [of b] by (simp add: word_unat_eq_iff unat_take_bit_mod unat_ucast_up)
  finally show ?thesis .
qed

text \<open>The address of the \<open>i\<close>th byte behind \<open>p\<close> in the circular buffer at \<open>base\<close>.\<close>

definition ringAddr :: "u16 \<Rightarrow> u16 \<Rightarrow> nat \<Rightarrow> u16" where
  "ringAddr base p i = base + ((p + of_nat i) AND 0x7FF)"

lemma unat_ring_offset: "unat ((p + of_nat i :: u16) AND 0x7FF) = (unat (p AND 0x7FF) + i) mod 2048"
proof -
  have "(unat p + i) mod 65536 mod 2048 = (unat p + i) mod 2048" by (rule mod_mod_cancel) simp
  then show ?thesis
    by (simp add: unat_mask11 unat_word_ariths unat_of_nat take_bit_eq_mod mod_simps)
qed

lemma unat_ringAddr:
  assumes "unat base + 2048 \<le> 65536"
  shows "unat (ringAddr base p i) = unat base + (unat (p AND 0x7FF) + i) mod 2048"
proof -
  have "(unat (p AND 0x7FF) + i) mod 2048 < 2048" by simp
  then show ?thesis using assms
    unfolding ringAddr_def by (subst unat_add_small) (simp_all add: unat_ring_offset)
qed

lemma ringAddr_eq:
  assumes "unat base + 2048 \<le> 65536" and "unat a = unat base + (unat (p AND 0x7FF) + i) mod 2048"
  shows "a = ringAddr base p i"
  using assms by (simp add: word_unat_eq_iff unat_ringAddr)

lemma mod_add_inj:
  fixes c i j n :: nat
  assumes "(c + i) mod n = (c + j) mod n" and "c < n" "i < n" "j < n"
  shows "i = j"
  using assms by (auto simp: mod_if split: if_splits)

lemma ringAddr_inj:
  assumes "unat base + 2048 \<le> 65536" and "ringAddr base p i = ringAddr base p j" and "i < 2048" "j < 2048"
  shows "i = j"
proof (rule mod_add_inj)
  show "(unat (p AND 0x7FF) + i) mod 2048 = (unat (p AND 0x7FF) + j) mod 2048"
    using assms(1, 2) by (metis unat_ringAddr add_left_cancel)
qed (use assms in \<open>simp_all add: unat_mask11\<close>)

section \<open>The buffers of a socket\<close>

definition txWindow :: "u8 \<Rightarrow> u16" where
  "txWindow s = TXBUF_BASE + SSIZE * ucast s"

definition rxWindow :: "u8 \<Rightarrow> u16" where
  "rxWindow s = RXBUF_BASE + RSIZE * ucast s"

text \<open>The base addresses that \<open>init\<close> stores.\<close>

definition canonical :: "'h eth \<Rightarrow> bool" where
  "canonical e \<longleftrightarrow> SBASE e = [0x4000, 0x4800, 0x5000, 0x5800] \<and> RBASE e = [0x6000, 0x6800, 0x7000, 0x7800]"

lemma init_canonical: "canonical (w5100_init hw e)"
  by (simp add: canonical_def w5100_init_def Let_def upt_rec)

lemma less4_cases: "s < 4 \<Longrightarrow> s = 0 \<or> s = 1 \<or> s = 2 \<or> s = (3 :: u8)"
  by (auto simp: word_less_nat_alt word_unat_eq_iff)

lemma canonical_bases:
  assumes "canonical e" and "s < 4"
  shows "txBase s e = Some (txWindow s)" "rxBase s e = Some (rxWindow s)"
  using less4_cases [OF assms(2)] assms(1)
  by (auto simp: canonical_def txBase_def rxBase_def txWindow_def rxWindow_def)

lemma unat_windows:
  assumes "s < 4"
  shows "unat (txWindow s) = 0x4000 + 2048 * unat s" "unat (rxWindow s) = 0x6000 + 2048 * unat s"
  using less4_cases [OF assms] by (auto simp: txWindow_def rxWindow_def)

lemma canonical_bus [simp]: "canonical (e\<lparr>bus := h\<rparr>) = canonical e"
  by (simp add: canonical_def)

text \<open>What is received and not yet read.\<close>

definition pending :: "u8 \<Rightarrow> (u16 \<Rightarrow> u8) \<Rightarrow> u8 list" where
  "pending s m =
     map (\<lambda>i. m (ringAddr (rxWindow s) (mem16 m (snAddr s SnRX_RD)) i))
       [0..<unat (mem16 m (snAddr s SnRX_RSR))]"

definition rx_ok :: "u8 \<Rightarrow> (u16 \<Rightarrow> u8) \<Rightarrow> bool" where
  "rx_ok s m \<longleftrightarrow> unat (mem16 m (snAddr s SnRX_RSR)) \<le> 2048 \<and>
     mem16 m (snAddr s SnRX_RSR) = mem16 m (snAddr s SnRX_WR) - mem16 m (snAddr s SnRX_RD)"

lemma pending_length: "length (pending s m) = unat (mem16 m (snAddr s SnRX_RSR))"
  by (simp add: pending_def)

lemma rx_ok_size: "rx_ok s m \<Longrightarrow> unat (mem16 m (snAddr s SnRX_RSR)) \<le> 2048"
  unfolding rx_ok_def by (rule conjunct1)

text \<open>The memory after the read pointer of a socket has been moved, and RECV executed.\<close>

definition movedRD :: "u8 \<Rightarrow> u16 \<Rightarrow> (u16 \<Rightarrow> u8) \<Rightarrow> u16 \<Rightarrow> u8" where
  "movedRD s v m = m(snAddr s SnRX_RD := ucast (drop_bit 8 v), snAddr s (SnRX_RD + 1) := ucast (v AND 0xFF))"

definition movedWR :: "u8 \<Rightarrow> u16 \<Rightarrow> (u16 \<Rightarrow> u8) \<Rightarrow> u16 \<Rightarrow> u8" where
  "movedWR s v m = m(snAddr s SnTX_WR := ucast (drop_bit 8 v), snAddr s (SnTX_WR + 1) := ucast (v AND 0xFF))"

text \<open>The state of the receiving side: what is pending on each socket.\<close>

definition pend :: "('h \<Rightarrow> u16 \<Rightarrow> u8) \<Rightarrow> u8 \<Rightarrow> 'h eth \<Rightarrow> u8 list" where
  "pend mem s e = pending s (mem (bus e))"

definition rx_inv :: "('h \<Rightarrow> u16 \<Rightarrow> u8) \<Rightarrow> 'h eth \<Rightarrow> bool" where
  "rx_inv mem e \<longleftrightarrow> canonical e \<and> (\<forall>s < 4. rx_ok s (mem (bus e)))"

definition rx_same :: "('h \<Rightarrow> u16 \<Rightarrow> u8) \<Rightarrow> 'h eth \<Rightarrow> 'h eth \<Rightarrow> bool" where
  "rx_same mem e e' \<longleftrightarrow> (\<exists>h. e' = e\<lparr>bus := h\<rparr> \<and> mem h = mem (bus e))"

text \<open>The copy into the circular buffer, which is cut at its end.\<close>

definition ringCopy :: "'h ehw \<Rightarrow> u16 \<Rightarrow> u16 \<Rightarrow> u8 list \<Rightarrow> 'h \<Rightarrow> 'h" where
  "ringCopy hw base off data h =
     (if unat off + length data > 2048
      then chip_writes hw base (drop (2048 - unat off) data) (chip_writes hw (off + base) (take (2048 - unat off) data) h)
      else chip_writes hw (off + base) data h)"

section \<open>The driver over such a chip\<close>

context w5100
begin

lemma mem_chip_read [simp]: "mem (snd (chip_read hw a h)) = mem h"
  by (rule read_law)

lemma chip_read_eq: "chip_read hw a h = (mem h a, snd (chip_read hw a h))"
  using read_law(1) [of a h] by (cases "chip_read hw a h") simp

lemma mem_readSn [simp]: "mem (snd (readSn hw r s h)) = mem h"
  by (simp add: readSn_def)

lemma readSn_eq: "readSn hw r s h = (mem h (snAddr s r), snd (readSn hw r s h))"
  unfolding readSn_def by (rule chip_read_eq)

lemma readSn16_val: "fst (readSn16 hw r s h) = mem16 (mem h) (snAddr s r)"
  unfolding readSn16_def
  by (subst readSn_eq, simp, subst readSn_eq) (simp add: mem16_def snAddr_Suc or_and_byte)

lemma mem_readSn16 [simp]: "mem (snd (readSn16 hw r s h)) = mem h"
  unfolding readSn16_def
  by (subst readSn_eq, simp, subst readSn_eq) simp

lemma frombus_readSn: "frombus (readSn hw r s) e = (mem (bus e) (snAddr s r), e\<lparr>bus := snd (readSn hw r s (bus e))\<rparr>)"
  unfolding frombus_def by (subst readSn_eq) simp

lemma frombus_readSn16:
  "frombus (readSn16 hw r s) e = (mem16 (mem (bus e)) (snAddr s r), e\<lparr>bus := snd (readSn16 hw r s (bus e))\<rparr>)"
  unfolding frombus_def by (simp add: readSn16_val [symmetric] split: prod.splits)

lemma mem_chip_reads [simp]: "mem (snd (chip_reads hw a n h)) = mem h"
  by (induction n arbitrary: a h) (auto simp: split: prod.splits, metis mem_chip_read snd_conv)

lemma chip_reads_val: "fst (chip_reads hw a n h) = map (\<lambda>i. mem h (a + of_nat i)) [0..<n]"
proof (induction n arbitrary: a h)
  case (Suc n)
  have "fst (chip_reads hw a (Suc n) h) = mem h a # fst (chip_reads hw (a + 1) n (snd (chip_read hw a h)))"
    by (simp add: split_beta read_law(1))
  also have "\<dots> = map (\<lambda>i. mem h (a + of_nat i)) (0 # map Suc [0..<n])"
    using Suc.IH [of "a + 1" "snd (chip_read hw a h)"] by (simp add: o_def add.assoc)
  finally show ?case by (simp only: upt_conv_Cons [OF zero_less_Suc] map_Suc_upt)
qed simp

lemma frombus_chip_reads:
  "frombus (chip_reads hw a n) e =
     (map (\<lambda>i. mem (bus e) (a + of_nat i)) [0..<n], e\<lparr>bus := snd (chip_reads hw a n (bus e))\<rparr>)"
  unfolding frombus_def by (simp add: chip_reads_val [symmetric] split: prod.splits)

lemma mem_writeSn:
  "s < 4 \<Longrightarrow> unat r < 256 \<Longrightarrow> r \<noteq> SnCR \<Longrightarrow> r \<noteq> SnIR \<Longrightarrow>
     mem (writeSn hw r s d h) = (mem h)(snAddr s r := d)"
  by (simp add: writeSn_def write_plain special_snAddr)

lemma mem_chip_writes:
  assumes "2048 \<le> unat a" and "unat a + length bs \<le> 65536"
  shows "mem (chip_writes hw a bs h) x =
     (if unat a \<le> unat x \<and> unat x < unat a + length bs then bs ! (unat x - unat a) else mem h x)"
  using assms
proof (induction bs arbitrary: a h)
  case (Cons b bs)
  have sp: "\<not> special a" using Cons.prems(1) special_less [of a] by auto
  show ?case
  proof (cases "bs = []")
    case True
    then show ?thesis using sp by (auto simp: write_plain word_unat_eq_iff)
  next
    case False
    then have a1: "unat (a + 1) = unat a + 1"
      using Cons.prems(2) by (intro unat_Suc_small) (cases bs, auto)
    show ?thesis
      using Cons.IH [of "a + 1" "chip_write hw a b h"] Cons.prems
      by (auto simp: a1 write_plain [OF sp] word_unat_eq_iff nth_Cons' Suc_le_eq)
  qed
qed auto

section \<open>Waiting\<close>

lemma waitCR_done: "mem h (snAddr s SnCR) = 0 \<Longrightarrow> waitCR hw s h = Some (snd (readSn hw SnCR s h))"
  by (subst waitCR.simps, subst readSn_eq) simp

lemma execCmd_done:
  assumes "s < 4"
  shows "\<exists>h. execCmd hw s c e = Some (e\<lparr>bus := h\<rparr>) \<and> mem h = exec s (cmd_code c) (mem (bus e))"
proof -
  let ?h = "writeSn hw SnCR s (cmd_code c) (bus e)"
  have m: "mem ?h = exec s (cmd_code c) (mem (bus e))"
    using assms by (simp only: writeSn_def write_cr)
  then have "waitCR hw s ?h = Some (snd (readSn hw SnCR s ?h))"
    using assms by (intro waitCR_done) (simp only: exec_done)
  then show ?thesis using m
    by (intro exI [of _ "snd (readSn hw SnCR s ?h)"]) (simp add: execCmd_def execCmdSn_def)
qed

lemma stableSize_done:
  "\<exists>h'. stableSize hw r s 0 h = Some (mem16 (mem h) (snAddr s r), h') \<and> mem h' = mem h"
proof -
  define n where "n = mem16 (mem h) (snAddr s r)"
  define h1 where "h1 = snd (readSn16 hw r s h)"
  define h2 where "h2 = snd (readSn16 hw r s h1)"
  have r1: "readSn16 hw r s h = (n, h1)"
    by (simp add: n_def h1_def readSn16_val [symmetric])
  have "mem h1 = mem h" unfolding h1_def by (rule mem_readSn16)
  then have r2: "readSn16 hw r s h1 = (n, h2)" and m2: "mem h2 = mem h"
    by (simp_all add: n_def h2_def prod_eq_iff readSn16_val)
  have "stableSize hw r s 0 h = Some (n, if n \<noteq> 0 then h2 else h1)"
    by (subst stableSize.simps) (simp add: r1 r2)
  then show ?thesis using \<open>mem h1 = mem h\<close> m2 n_def by auto
qed

lemma getRXReceivedSize_done:
  "\<exists>h'. getRXReceivedSize hw s h = Some (mem16 (mem h) (snAddr s SnRX_RSR), h') \<and> mem h' = mem h"
  unfolding getRXReceivedSize_def by (rule stableSize_done)

lemma beginT_bus [simp]: "mem (bus (beginT hw e)) = mem (bus e)" "mem (bus (endT hw e)) = mem (bus e)"
  by (simp_all add: beginT_def endT_def onbus_def quiet)


section \<open>The circular buffers\<close>

lemma map_upt_append:
  assumes "\<And>j. j < n \<Longrightarrow> g j = f (m + j)"
  shows "map f [0..<m] @ map g [0..<n] = map f [0..<m + n]"
  by (rule nth_equalityI) (auto simp: nth_append assms)

lemma read_data_ring:
  assumes "canonical e" and "s < 4" and "unat len \<le> 2048"
  shows "\<exists>h. read_data hw s src len e =
      Some (map (\<lambda>i. mem (bus e) (ringAddr (rxWindow s) src i)) [0..<unat len], e\<lparr>bus := h\<rparr>) \<and>
    mem h = mem (bus e)"
proof -
  let ?b = "rxWindow s" and ?off = "src AND 0x7FF"
  have o: "unat ?off < 2048" by (simp add: unat_mask11)
  have bound: "unat ?b + 2048 \<le> 65536"
    using assms(2) by (simp add: unat_windows word_less_nat_alt)
  have base: "rxBase s e = Some ?b" by (rule canonical_bases(2) [OF assms(1, 2)])
  have at: "?b + ?off + of_nat i = ringAddr ?b src i" if "unat ?off + i < 2048" for i
  proof (rule ringAddr_eq [OF bound])
    have "unat (of_nat i :: u16) = i" using that by (intro unat_of_nat_small) simp
    moreover have "unat (?b + ?off) = unat ?b + unat ?off" using bound o by (intro unat_add_small) simp
    ultimately show "unat (?b + ?off + of_nat i) = unat ?b + (unat ?off + i) mod 2048"
      using that bound by (subst unat_add_small) simp_all
  qed
  show ?thesis
  proof (cases "unat ?off + unat len > 2048")
    case False
    then have "map (\<lambda>i. mem (bus e) (?b + ?off + of_nat i)) [0..<unat len] =
        map (\<lambda>i. mem (bus e) (ringAddr ?b src i)) [0..<unat len]"
      by (simp add: at)
    then show ?thesis
      using False by (simp add: read_data_def Let_def base frombus_chip_reads)
        (intro exI [of _ "snd (chip_reads hw (?b + ?off) (unat len) (bus e))"], simp)
  next
    case True
    define n1 where "n1 = 2048 - unat ?off"
    define n2 where "n2 = unat len - n1"
    have n1: "unat (2048 - ?off) = n1" using o by (simp add: n1_def unat_sub_small)
    have n2: "unat (len - (2048 - ?off)) = n2"
      using True o by (subst unat_sub_small) (simp_all add: n1 n2_def, simp add: n1_def)
    have wrap: "?b + of_nat j = ringAddr ?b src (n1 + j)" if "j < n2" for j
    proof (rule ringAddr_eq [OF bound])
      have j: "j < 2048" using that assms(3) by (simp add: n2_def)
      have eq: "unat ?off + (n1 + j) = j + 2048" using o by (simp add: n1_def)
      have "(unat ?off + (n1 + j)) mod 2048 = j" unfolding eq using j by simp
      then show "unat (?b + of_nat j) = unat ?b + (unat ?off + (n1 + j)) mod 2048"
        using bound j by (subst unat_add_small) (simp_all add: unat_of_nat_small)
    qed
    have "map (\<lambda>i. mem (bus e) (?b + ?off + of_nat i)) [0..<n1] =
        map (\<lambda>i. mem (bus e) (ringAddr ?b src i)) [0..<n1]"
      by (auto simp: n1_def intro!: at [THEN arg_cong])
    moreover have "map (\<lambda>i. mem (bus e) (ringAddr ?b src i)) [0..<n1] @
          map (\<lambda>j. mem (bus e) (?b + of_nat j)) [0..<n2] =
        map (\<lambda>i. mem (bus e) (ringAddr ?b src i)) [0..<unat len]"
    proof -
      have "n1 + n2 = unat len" using True by (simp add: n1_def n2_def)
      then show ?thesis by (subst map_upt_append) (simp_all add: wrap)
    qed
    ultimately have "map (\<lambda>i. mem (bus e) (?b + ?off + of_nat i)) [0..<n1] @
          map (\<lambda>j. mem (bus e) (?b + of_nat j)) [0..<n2] =
        map (\<lambda>i. mem (bus e) (ringAddr ?b src i)) [0..<unat len]" by metis
    then show ?thesis
      using True
      by (intro exI [of _ "snd (chip_reads hw ?b n2 (snd (chip_reads hw (?b + ?off) n1 (bus e))))"])
        (simp add: read_data_def Let_def base frombus_chip_reads n1 n2)
  qed
qed

section \<open>Receiving\<close>

lemma mem_writeRD: "s < 4 \<Longrightarrow> mem (writeSn16 hw SnRX_RD s v h) = movedRD s v (mem h)"
  by (simp add: writeSn16_def movedRD_def mem_writeSn)

lemma mem16_movedRD:
  assumes "s < 4"
  shows "mem16 (movedRD s v m) (snAddr s SnRX_RD) = v"
  using assms join16_split [of v] by (simp add: mem16_def movedRD_def snAddr_Suc snAddr_eq_iff low_byte or.commute)

lemma movedRD_other:
  "s < 4 \<Longrightarrow> a \<noteq> snAddr s SnRX_RD \<Longrightarrow> a \<noteq> snAddr s (SnRX_RD + 1) \<Longrightarrow> movedRD s v m a = m a"
  by (simp add: movedRD_def)

text \<open>\<open>n\<close> bytes of a socket are taken; for the others nothing changes.\<close>

lemma taken_same:
  assumes s: "s < 4" and n: "unat n \<le> unat (mem16 m (snAddr s SnRX_RSR))" and ok: "rx_ok s m"
    and m': "m' = exec s 0x40 (movedRD s (mem16 m (snAddr s SnRX_RD) + n) m)"
  shows "pending s m' = drop (unat n) (pending s m)" and "rx_ok s m'"
proof -
  let ?rd = "mem16 m (snAddr s SnRX_RD)" and ?rsr = "mem16 m (snAddr s SnRX_RSR)"
  let ?m2 = "movedRD s (?rd + n) m"
  have keep: "m' (snAddr s r) = ?m2 (snAddr s r)"
    if "unat r < 256" "r \<noteq> SnCR" "r \<noteq> SnRX_RSR" "r \<noteq> SnRX_RSR + 1" for r
    using that s unfolding m' by (subst exec_recv(2)) (simp_all add: snAddr_eq_iff snAddr_Suc)
  have rd': "mem16 m' (snAddr s SnRX_RD) = ?rd + n"
    using mem16_movedRD [OF s, of "?rd + n" m] keep [of SnRX_RD] keep [of "SnRX_RD + 1"]
    by (simp add: mem16_def snAddr_Suc)
  have wr2: "mem16 ?m2 (snAddr s SnRX_WR) = mem16 m (snAddr s SnRX_WR)"
    using s by (simp add: mem16_def snAddr_Suc movedRD_def snAddr_eq_iff)
  have wr': "mem16 m' (snAddr s SnRX_WR) = mem16 m (snAddr s SnRX_WR)"
    using keep [of SnRX_WR] keep [of "SnRX_WR + 1"] wr2 by (simp add: mem16_def snAddr_Suc)
  have rsr': "mem16 m' (snAddr s SnRX_RSR) = ?rsr - n"
    unfolding m' exec_recv(1) [OF s] wr2 mem16_movedRD [OF s] using ok by (simp add: rx_ok_def)
  have size': "unat (?rsr - n) = unat ?rsr - unat n" using n by (rule unat_sub_small)
  have ring: "m' (ringAddr (rxWindow s) p i) = m (ringAddr (rxWindow s) p i)" for p i
  proof -
    have b: "unat (rxWindow s) + 2048 \<le> 65536" "0x6000 \<le> unat (rxWindow s)"
      using s by (simp_all add: unat_windows word_less_nat_alt)
    then have "0x6000 \<le> unat (ringAddr (rxWindow s) p i)" by (simp add: unat_ringAddr)
    then have "ringAddr (rxWindow s) p i \<noteq> snAddr s r" if "unat r < 256" for r
      using that s snAddr_less [OF s that] by auto
    then show ?thesis using s unfolding m' by (subst exec_recv(2)) (simp_all add: snAddr_Suc movedRD_other)
  qed
  note regs = rsr' [simplified] rd' [simplified] wr' [simplified] size' [simplified]
  show "pending s m' = drop (unat n) (pending s m)"
  proof (rule nth_equalityI)
    show "length (pending s m') = length (drop (unat n) (pending s m))"
      by (simp add: pending_length regs)
  next
    fix i assume "i < length (pending s m')"
    then have i: "i < unat ?rsr - unat n" by (simp add: pending_length regs)
    then have i2: "unat n + i < unat ?rsr" using n by simp
    have "ringAddr (rxWindow s) (?rd + n) i = ringAddr (rxWindow s) ?rd (unat n + i)"
      by (simp add: ringAddr_def add.assoc)
    then show "pending s m' ! i = drop (unat n) (pending s m) ! i"
      using i i2 [simplified] by (simp add: pending_def regs ring)
  qed
  have "unat ?rsr - unat n \<le> 2048" using rx_ok_size [OF ok] by (rule le_trans [OF diff_le_self])
  moreover have "?rsr - n = mem16 m (snAddr s SnRX_WR) - (?rd + n)"
    using ok unfolding rx_ok_def by (metis diff_diff_eq)
  ultimately show "rx_ok s m'" unfolding rx_ok_def rsr' rd' wr' size' by blast
qed

lemma taken_other:
  assumes s: "s < 4" and t: "t < 4" "t \<noteq> s" and m': "m' = exec s 0x40 (movedRD s v m)"
  shows "pending t m' = pending t m" and "rx_ok t m' = rx_ok t m"
proof -
  have keep: "m' (snAddr t r) = m (snAddr t r)" if "unat r < 256" for r
    using that s t unfolding m' by (subst exec_recv(2)) (auto simp: snAddr_eq_iff snAddr_Suc movedRD_def)
  have ring: "m' (ringAddr (rxWindow t) p i) = m (ringAddr (rxWindow t) p i)" for p i
  proof -
    have "0x6000 \<le> unat (ringAddr (rxWindow t) p i)"
      using t(1) by (subst unat_ringAddr) (simp_all add: unat_windows word_less_nat_alt)
    then have "ringAddr (rxWindow t) p i \<noteq> snAddr s r" if "unat r < 256" for r
      using that s snAddr_less [OF s that] by auto
    then show ?thesis using s unfolding m' by (subst exec_recv(2)) (simp_all add: snAddr_Suc movedRD_other)
  qed
  have regs: "mem16 m' (snAddr t r) = mem16 m (snAddr t r)" if "unat r < 255" for r
    using keep [of r] keep [of "r + 1"] that by (simp add: mem16_def snAddr_Suc unat_Suc_small)
  show "pending t m' = pending t m" by (simp add: pending_def regs ring)
  show "rx_ok t m' = rx_ok t m" by (simp add: rx_ok_def regs)
qed


lemma rx_sameI: "mem h = mem (bus e) \<Longrightarrow> rx_same mem e (e\<lparr>bus := h\<rparr>)"
  by (auto simp: rx_same_def)

lemma rx_sameD:
  assumes "rx_same mem e e'"
  shows "rx_inv mem e' = rx_inv mem e" and "pend mem s e' = pend mem s e"
  using assms by (auto simp: rx_same_def rx_inv_def pend_def)

lemma pend_bound: "rx_inv mem e \<Longrightarrow> s < 4 \<Longrightarrow> length (pend mem s e) \<le> 2048"
  unfolding rx_inv_def pend_def pending_length by (blast intro: rx_ok_size)

lemma recv_data_processing_ring:
  assumes "canonical e" and "s < 4" and "unat n \<le> unat (mem16 (mem (bus e)) (snAddr s SnRX_RSR))"
    and "rx_ok s (mem (bus e))"
  shows "\<exists>h. recv_data_processing hw s n False e =
      Some (take (unat n) (pend mem s e), e\<lparr>bus := h\<rparr>) \<and>
    mem h = movedRD s (mem16 (mem (bus e)) (snAddr s SnRX_RD) + n) (mem (bus e))"
proof -
  let ?rd = "mem16 (mem (bus e)) (snAddr s SnRX_RD)"
  define e1 where "e1 = e\<lparr>bus := snd (readSn16 hw SnRX_RD s (bus e))\<rparr>"
  have rd: "frombus (readSn16 hw SnRX_RD s) e = (?rd, e1)"
    unfolding e1_def by (rule frombus_readSn16)
  have m1: "mem (bus e1) = mem (bus e)" "canonical e1"
    using assms(1) by (simp_all add: e1_def del: SnRX_RD_def)
  have "unat n \<le> 2048" by (rule le_trans [OF assms(3) rx_ok_size [OF assms(4)]])
  then obtain h where h: "read_data hw s ?rd n e1 =
      Some (map (\<lambda>i. mem (bus e1) (ringAddr (rxWindow s) ?rd i)) [0..<unat n], e1\<lparr>bus := h\<rparr>)"
      "mem h = mem (bus e1)"
    using read_data_ring [OF m1(2) assms(2)] by blast
  have "map (\<lambda>i. mem (bus e1) (ringAddr (rxWindow s) ?rd i)) [0..<unat n] = take (unat n) (pend mem s e)"
    using assms(3) by (simp add: m1 pend_def pending_def take_map)
  then show ?thesis
    using h m1 assms(2)
    by (intro exI [of _ "writeSn16 hw SnRX_RD s (?rd + n) h"])
      (simp add: recv_data_processing_def rd Let_def onbus_def e1_def mem_writeRD del: SnRX_RD_def)
qed


lemma trybus_RSR:
  "\<exists>h. trybus (getRXReceivedSize hw s) e = Some (mem16 (mem (bus e)) (snAddr s SnRX_RSR), e\<lparr>bus := h\<rparr>) \<and>
     mem h = mem (bus e)"
  using getRXReceivedSize_done [of s "bus e"] by (auto simp: trybus_def)

lemma beginT_same: "\<exists>h. beginT hw e = e\<lparr>bus := h\<rparr> \<and> mem h = mem (bus e)"
  by (auto simp: beginT_def onbus_def quiet)

lemma sint_small: "unat (w :: u16) < 32768 \<Longrightarrow> sint w = int (unat w)"
proof -
  assume "unat w < 32768"
  moreover have "uint w = int (unat w)" by simp
  ultimately have "uint w < 32768" by linarith
  then have "signed_take_bit 15 (uint w) = uint w" 
    by (intro signed_take_bit_int_eq_self) (auto intro: order_trans [OF _ uint_ge_0])
  then show ?thesis by (simp add: sint_uint)
qed

lemma recvAvailable_law:
  assumes "rx_inv mem e" and "s < 4"
  shows "\<exists>e'. recvAvailable hw s e = Some (int (length (pend mem s e)), e') \<and> rx_same mem e e'"
proof -
  obtain h where h: "trybus (getRXReceivedSize hw s) (beginT hw e) =
      Some (mem16 (mem (bus e)) (snAddr s SnRX_RSR), (beginT hw e)\<lparr>bus := h\<rparr>)" "mem h = mem (bus e)"
    using trybus_RSR [of s "beginT hw e"] by auto
  have "length (pend mem s e) \<le> 2048" using assms by (rule pend_bound)
  then have "sint (mem16 (mem (bus e)) (snAddr s SnRX_RSR)) = int (length (pend mem s e))"
    unfolding pend_def pending_length by (intro sint_small) simp
  moreover have "rx_same mem e (endT hw ((beginT hw e)\<lparr>bus := h\<rparr>))"
    using rx_sameI [of "e_endTransaction hw h" e] by (simp add: endT_def beginT_def onbus_def quiet h(2))
  ultimately show ?thesis by (simp add: recvAvailable_def h(1))
qed

theorem recv_some:
  assumes inv: "rx_inv mem e" and s: "s < 4" and p: "pend mem s e \<noteq> []" and len: "0 < unat len" "unat len < 32768"
  shows "\<exists>e'. recv hw s len e =
      Some (int (min (unat len) (length (pend mem s e))), take (unat len) (pend mem s e), e') \<and>
    rx_inv mem e' \<and> pend mem s e' = drop (unat len) (pend mem s e) \<and> (\<forall>t < 4. t \<noteq> s \<longrightarrow> pend mem t e' = pend mem t e)"
proof -
  let ?m = "mem (bus e)"
  let ?rsr = "mem16 ?m (snAddr s SnRX_RSR)"
  have plen: "length (pend mem s e) = unat ?rsr" unfolding pend_def by (rule pending_length)
  have small: "unat ?rsr \<le> 2048" using pend_bound [OF inv s] plen by simp
  define n where "n = (if sint ?rsr > sint len then len else ?rsr)"
  have sints: "sint ?rsr = int (unat ?rsr)" "sint len = int (unat len)"
    using small len by (simp_all add: sint_small)
  have n: "unat n = min (unat len) (length (pend mem s e))"
  proof (cases "sint ?rsr > sint len")
    case True
    then have "unat len < unat ?rsr" unfolding sints by (simp only: of_nat_less_iff)
    then show ?thesis using True by (simp add: n_def plen del: SnRX_RSR_def)
  next
    case False
    then have "\<not> unat len < unat ?rsr" unfolding sints by (simp only: of_nat_less_iff simp_thms)
    then show ?thesis using False by (simp add: n_def plen del: SnRX_RSR_def)
  qed
  have n0: "0 < unat n" using p len n by simp
  have sn: "sint n = int (unat n)" using n len by (intro sint_small) simp
  obtain h where h: "trybus (getRXReceivedSize hw s) (beginT hw e) = Some (?rsr, (beginT hw e)\<lparr>bus := h\<rparr>)"
      "mem h = ?m"
    using trybus_RSR [of s "beginT hw e"] by auto
  obtain hb where hb: "beginT hw e = e\<lparr>bus := hb\<rparr>" using beginT_same by blast
  define e1 where "e1 = e\<lparr>bus := h\<rparr>"
  have e1: "canonical e1" "rx_ok s (mem (bus e1))" "pend mem s e1 = pend mem s e" "mem (bus e1) = ?m"
    using inv s h(2) by (simp_all add: e1_def rx_inv_def pend_def)
  obtain h2 where h2: "recv_data_processing hw s n False e1 = Some (take (unat n) (pend mem s e), e1\<lparr>bus := h2\<rparr>)"
      "mem h2 = movedRD s (mem16 ?m (snAddr s SnRX_RD) + n) ?m"
    using recv_data_processing_ring [OF e1(1) s _ e1(2), of n] n plen unfolding e1(3, 4) by auto
  obtain h3 where h3: "execCmd hw s Sock_RECV (e1\<lparr>bus := h2\<rparr>) = Some (e1\<lparr>bus := h3\<rparr>)"
      "mem h3 = exec s 0x40 (mem h2)"
    using execCmd_done [OF s, of Sock_RECV "e1\<lparr>bus := h2\<rparr>"] by (auto simp: cmd_code_def)
  define e' where "e' = endT hw (e1\<lparr>bus := h3\<rparr>)"
  have m': "mem (bus e') = exec s 0x40 (movedRD s (mem16 ?m (snAddr s SnRX_RD) + n) ?m)"
    by (simp add: e'_def h3(2) h2(2))
  have rsr: "?rsr \<noteq> 0" using p plen by auto
  have pick: "(if ?rsr = 0 then x else if sint ?rsr > sint len then (len, y) else (?rsr, y)) = (n, y)"
    for x and y :: "'h eth" using rsr by (simp add: n_def)
  have pos: "sint n > 0" unfolding sn of_nat_0_less_iff by (rule n0)
  have e1b: "(beginT hw e)\<lparr>bus := h\<rparr> = e1" by (simp add: hb e1_def)
  have "recv hw s len e = Some (sint n, take (unat n) (pend mem s e), e')"
    by (simp only: recv_def h(1) bind.bind_lunit split_conv Let_def pick pos if_True e1b h2(1) h3(1) e'_def)
  moreover have "take (unat n) (pend mem s e) = take (unat len) (pend mem s e)" by (simp add: n min_def)
  moreover have "rx_inv mem e'"
  proof -
    have "canonical e'" using e1(1) by (simp add: e'_def endT_def onbus_def)
    moreover have "rx_ok t (mem (bus e'))" if "t < 4" for t
      using taken_same(2) [OF s _ _ m'] taken_other(2) [OF s that _ m'] inv s that n plen
      by (cases "t = s") (auto simp: rx_inv_def)
    ultimately show ?thesis by (simp add: rx_inv_def)
  qed
  moreover have "pend mem s e' = drop (unat len) (pend mem s e)"
    using taken_same(1) [OF s _ _ m'] inv s n plen by (auto simp: rx_inv_def pend_def min_def)
  moreover have "\<forall>t < 4. t \<noteq> s \<longrightarrow> pend mem t e' = pend mem t e"
    using taken_other(1) [OF s _ _ m'] by (simp add: pend_def)
  ultimately show ?thesis unfolding sn n by auto
qed


text \<open>Nothing is pending: the result is 0 or -1, and nothing changes.\<close>

theorem recv_none:
  assumes "pend mem s e = []"
  shows "\<exists>r e'. recv hw s len e = Some (r, [], e') \<and> (r = 0 \<or> r = - 1) \<and> rx_same mem e e'"
proof -
  obtain h where h: "trybus (getRXReceivedSize hw s) (beginT hw e) =
      Some (mem16 (mem (bus e)) (snAddr s SnRX_RSR), (beginT hw e)\<lparr>bus := h\<rparr>)" "mem h = mem (bus e)"
    using trybus_RSR [of s "beginT hw e"] by auto
  obtain hb where hb: "beginT hw e = e\<lparr>bus := hb\<rparr>" using beginT_same by blast
  have z: "mem16 (mem (bus e)) (snAddr s SnRX_RSR) = 0"
    using assms unfolding pend_def by (simp add: pending_def word_unat_eq_iff)
  define e1 where "e1 = e\<lparr>bus := snd (readSn hw SnSR s h)\<rparr>"
  define r where "r = (let st = mem h (snAddr s SnSR) in
    if st = SnSR_LISTEN \<or> st = SnSR_CLOSED \<or> st = SnSR_CLOSE_WAIT then 0 else - 1 :: int)"
  have rd: "frombus (readSn hw SnSR s) ((beginT hw e)\<lparr>bus := h\<rparr>) = (mem h (snAddr s SnSR), e1)"
    unfolding frombus_readSn by (simp add: hb e1_def)
  have pick: "(if st = SnSR_LISTEN \<or> st = SnSR_CLOSED \<or> st = SnSR_CLOSE_WAIT then (0 :: u16, e1) else (- 1, e1)) =
      (if st = SnSR_LISTEN \<or> st = SnSR_CLOSED \<or> st = SnSR_CLOSE_WAIT then 0 else - 1, e1)" for st
    by simp
  have "recv hw s len e = Some (r, [], endT hw e1)"
    unfolding recv_def h(1) bind.bind_lunit split_conv Let_def z
    by (simp only: simp_thms if_True rd split_conv pick) (simp add: r_def Let_def)
  moreover have "rx_same mem e (endT hw e1)"
    using rx_sameI [of "e_endTransaction hw (snd (readSn hw SnSR s h))" e]
    by (simp add: e1_def endT_def onbus_def quiet h(2))
  moreover have "r = 0 \<or> r = - 1" by (simp add: r_def Let_def)
  ultimately show ?thesis by blast
qed

section \<open>Sending\<close>

lemma mem_ringCopy:
  assumes b: "unat base + 2048 \<le> 65536" "2048 \<le> unat base" and len: "length data \<le> 2048" and off: "unat off < 2048"
  shows "mem (ringCopy hw base off data h) x =
     (let k = unat x - unat base in
      if unat base \<le> unat x \<and> unat off \<le> k \<and> k < 2048 \<and> k < unat off + length data then data ! (k - unat off)
      else if unat base \<le> unat x \<and> k + 2048 < unat off + length data then data ! (k + 2048 - unat off)
      else mem h x)"
proof -
  have start: "unat (off + base) = unat base + unat off"
    using b off by (subst unat_add_small) simp_all
  have len1: "length (take (2048 - unat off) data) \<le> 2048 - unat off" by simp
  have w1: "mem (chip_writes hw (off + base) bs g) x =
      (if unat base + unat off \<le> unat x \<and> unat x < unat base + unat off + length bs
       then bs ! (unat x - (unat base + unat off)) else mem g x)" if "length bs \<le> 2048 - unat off" for bs g
    using that b off by (subst mem_chip_writes) (simp_all add: start)
  have w2: "mem (chip_writes hw base bs g) x =
      (if unat base \<le> unat x \<and> unat x < unat base + length bs then bs ! (unat x - unat base) else mem g x)"
    if "length bs \<le> 2048" for bs g
    using that b by (subst mem_chip_writes) simp_all
  show ?thesis
  proof (cases "unat off + length data > 2048")
    case True
    then have len1': "length (take (2048 - unat off) data) = 2048 - unat off" by simp
    from True have "mem (ringCopy hw base off data h) x =
        (if unat base \<le> unat x \<and> unat x < unat base + (length data - (2048 - unat off))
         then drop (2048 - unat off) data ! (unat x - unat base)
         else if unat base + unat off \<le> unat x \<and> unat x < unat base + unat off + (2048 - unat off)
         then take (2048 - unat off) data ! (unat x - (unat base + unat off)) else mem h x)"
      using len by (simp add: ringCopy_def w1 [OF len1] w2 len1' del: length_take)
    then show ?thesis using True len off by (auto simp: Let_def add.commute)
  next
    case False
    then have "mem (ringCopy hw base off data h) x =
        (if unat base + unat off \<le> unat x \<and> unat x < unat base + unat off + length data
         then data ! (unat x - (unat base + unat off)) else mem h x)"
      by (simp add: ringCopy_def w1)
    then show ?thesis using False off by (auto simp: Let_def)
  qed
qed

lemma ringCopy_ring:
  assumes "unat base + 2048 \<le> 65536" "2048 \<le> unat base" and "length data \<le> 2048" and "i < length data"
  shows "mem (ringCopy hw base (p AND 0x7FF) data h) (ringAddr base p i) = data ! i"
proof -
  have off: "unat (p AND 0x7FF) < 2048" by (simp add: unat_mask11)
  have i: "i < 2048" using assms(3, 4) by simp
  show ?thesis
  proof (cases "unat (p AND 0x7FF) + i < 2048")
    case True
    then show ?thesis using assms off by (simp add: mem_ringCopy unat_ringAddr Let_def)
  next
    case False
    define j where "j = unat (p AND 0x7FF) + i - 2048"
    have "(unat (p AND 0x7FF) + i) mod 2048 = j" using False i off by (simp add: j_def mod_if)
    then have "unat (ringAddr base p i) = unat base + j" by (simp only: unat_ringAddr [OF assms(1)])
    moreover have "j < unat (p AND 0x7FF)" "j + 2048 - unat (p AND 0x7FF) = i"
      using False i off by (simp_all add: j_def)
    moreover have "j + 2048 < unat (p AND 0x7FF) + length data" using False assms(4) by (simp add: j_def)
    ultimately show ?thesis using assms(1-3) off by (simp add: mem_ringCopy Let_def)
  qed
qed

lemma ringCopy_frame:
  assumes "unat base + 2048 \<le> 65536" "2048 \<le> unat base" and "length data \<le> 2048"
    and "\<And>i. i < length data \<Longrightarrow> a \<noteq> ringAddr base p i"
  shows "mem (ringCopy hw base (p AND 0x7FF) data h) a = mem h a"
proof -
  let ?off = "p AND 0x7FF" and ?k = "unat a - unat base"
  have off: "unat ?off < 2048" by (simp add: unat_mask11)
  have no: "unat a \<noteq> unat base + (unat ?off + i) mod 2048" if "i < length data" for i
    using assms(4) [OF that] ringAddr_eq [OF assms(1)] by blast
  have 1: "\<not> (unat base \<le> unat a \<and> unat ?off \<le> ?k \<and> ?k < 2048 \<and> ?k < unat ?off + length data)"
  proof
    assume r: "unat base \<le> unat a \<and> unat ?off \<le> ?k \<and> ?k < 2048 \<and> ?k < unat ?off + length data"
    define j where "j = ?k - unat ?off"
    have "unat a = unat base + (unat ?off + j)" "j < length data" "unat ?off + j < 2048"
      using r by (simp_all add: j_def, linarith+)
    then show False using no [of j] by simp
  qed
  have 2: "\<not> (unat base \<le> unat a \<and> ?k + 2048 < unat ?off + length data)"
  proof
    assume r: "unat base \<le> unat a \<and> ?k + 2048 < unat ?off + length data"
    then obtain k where k: "unat a = unat base + k" using le_Suc_ex by blast
    define j where "j = k + 2048 - unat ?off"
    have k2: "k + 2048 < unat ?off + length data" using r k by simp
    have j: "unat ?off + j = k + 2048" "k < 2048" "j < length data"
      using k2 off assms(3) unfolding j_def by linarith+
    have "(unat ?off + j) mod 2048 = k" unfolding j(1) using j(2) by simp
    then show False using no [OF j(3)] k by simp
  qed
  show ?thesis
    by (simp only: mem_ringCopy [OF assms(1-3) off] Let_def 1 2 if_False)
qed


lemma mem_writeWR: "s < 4 \<Longrightarrow> mem (writeSn16 hw SnTX_WR s v h) = movedWR s v (mem h)"
  by (simp add: writeSn16_def movedWR_def mem_writeSn)

lemma mem16_movedWR: "s < 4 \<Longrightarrow> mem16 (movedWR s v m) (snAddr s SnTX_WR) = v"
  using join16_split [of v] by (simp add: mem16_def movedWR_def snAddr_Suc snAddr_eq_iff low_byte or.commute)

text \<open>The bytes are stored behind the write pointer, within the buffer of the socket, and the pointer moves.\<close>

theorem send_data_ring:
  assumes e: "canonical e" and s: "s < 4" and len: "unat len \<le> 2048" "unat len \<le> length data"
    and p: "p = mem16 (mem (bus e)) (snAddr s SnTX_WR) + data_offset"
  shows "\<exists>h. send_data_processing_offset hw s data_offset data len e = Some (e\<lparr>bus := h\<rparr>) \<and>
    mem h = movedWR s (p + len) (mem (ringCopy hw (txWindow s) (p AND 0x7FF) (take (unat len) data)
                                       (snd (readSn16 hw SnTX_WR s (bus e)))))"
proof -
  define h1 where "h1 = snd (readSn16 hw SnTX_WR s (bus e))"
  define e1 where "e1 = e\<lparr>bus := h1\<rparr>"
  let ?off = "p AND 0x7FF" and ?d = "take (unat len) data"
  have rd: "frombus (readSn16 hw SnTX_WR s) e = (mem16 (mem (bus e)) (snAddr s SnTX_WR), e1)"
    unfolding e1_def h1_def by (rule frombus_readSn16)
  have base: "txBase s e1 = Some (txWindow s)" by (rule canonical_bases(1) [OF _ s]) (simp add: e e1_def)
  have d: "length ?d = unat len" using len(2) by simp
  have off: "unat (2048 - ?off) = 2048 - unat ?off"
    by (subst unat_sub_small) (simp_all add: unat_mask11 less_imp_le)
  have "send_data_processing_offset hw s data_offset data len e =
      Some (onbus (writeSn16 hw SnTX_WR s (p + len)) (onbus (ringCopy hw (txWindow s) ?off ?d) e1))"
    unfolding send_data_processing_offset_def rd
    by (simp add: Let_def base len(2) p [symmetric] onbus_def ringCopy_def d off del: SnTX_WR_def)
  then show ?thesis
    by (intro exI [of _ "writeSn16 hw SnTX_WR s (p + len) (ringCopy hw (txWindow s) ?off ?d h1)"])
      (simp add: onbus_def e1_def mem_writeWR s h1_def del: SnTX_WR_def)
qed


lemma tx_bounds:
  assumes "s < 4"
  shows "unat (txWindow s) + 2048 \<le> 65536" and "2048 \<le> unat (txWindow s)"
  using assms by (simp_all add: unat_windows word_less_nat_alt)

lemma tx_above: "s < 4 \<Longrightarrow> 0x4000 \<le> ringAddr (txWindow s) p i"
  by (simp add: word_le_nat_alt unat_ringAddr tx_bounds) (simp add: unat_windows)

lemma movedWR_ring: "s < 4 \<Longrightarrow> movedWR s v m (ringAddr (txWindow s) p i) = m (ringAddr (txWindow s) p i)"
proof -
  assume s: "s < 4"
  have "ringAddr (txWindow s) p i \<noteq> snAddr s r" if "unat r < 256" for r
    using tx_above [OF s, of p i] snAddr_less [OF s that] by (auto simp: word_le_nat_alt)
  then show ?thesis by (simp add: movedWR_def)
qed

text \<open>Sending over an established connection with room for the data: they are sent at once.\<close>

theorem send_established:
  assumes e: "canonical e" and s: "s < 4" and buf: "unat len \<le> length buf"
    and sr: "mem (bus e) (snAddr s SnSR) = SnSR_ESTABLISHED"
    and n: "n = (if len > SSIZE then SSIZE else len)"
    and room: "n \<le> mem16 (mem (bus e)) (snAddr s SnTX_FSR)"
  shows "\<exists>h. sock_send hw s buf len e = Some (n, e\<lparr>bus := h\<rparr>) \<and>
    (\<forall>i < unat n. mem h (ringAddr (txWindow s) (mem16 (mem (bus e)) (snAddr s SnTX_WR)) i) = buf ! i)"
proof -
  let ?m = "mem (bus e)"
  let ?p = "mem16 ?m (snAddr s SnTX_WR)" and ?d = "take (unat n) buf"
  obtain hb where hb: "beginT hw e = e\<lparr>bus := hb\<rparr>" "mem hb = ?m" using beginT_same by blast
  obtain h1 where h1: "getTXFreeSize hw s hb = Some (mem16 ?m (snAddr s SnTX_FSR), h1)" "mem h1 = ?m"
    using stableSize_done [of SnTX_FSR s hb] hb(2) by (auto simp: getTXFreeSize_def)
  define h2 where "h2 = e_yield hw (e_endTransaction hw (snd (readSn hw SnSR s h1)))"
  have h2: "mem h2 = ?m" by (simp add: h2_def quiet h1(2))
  have wait: "sendWait hw s n e = Some (n, e\<lparr>bus := h2\<rparr>)"
    using leD [OF room] sr by (subst sendWait.simps)
      (simp add: trybus_def hb h1 frombus_readSn endT_def onbus_def h2_def Let_def)
  obtain h3 where h3: "beginT hw (e\<lparr>bus := h2\<rparr>) = e\<lparr>bus := h3\<rparr>" "mem h3 = ?m"
    using beginT_same [of "e\<lparr>bus := h2\<rparr>"] h2 by auto
  have n1: "unat n \<le> 2048" "unat n \<le> length buf"
    using n buf by (auto simp: word_less_nat_alt split: if_splits)
  obtain h4 where h4: "send_data_processing hw s buf n (e\<lparr>bus := h3\<rparr>) = Some (e\<lparr>bus := h4\<rparr>)"
      "mem h4 = movedWR s (?p + n) (mem (ringCopy hw (txWindow s) (?p AND 0x7FF) ?d (snd (readSn16 hw SnTX_WR s h3))))"
    using send_data_ring [of "e\<lparr>bus := h3\<rparr>" s n buf ?p 0] e s n1 h3(2) by (auto simp: send_data_processing_def)
  obtain h5 where h5: "execCmd hw s Sock_SEND (e\<lparr>bus := h4\<rparr>) = Some (e\<lparr>bus := h5\<rparr>)"
      "mem h5 = exec s 0x20 (mem h4)"
    using execCmd_done [OF s, of Sock_SEND "e\<lparr>bus := h4\<rparr>"] by (auto simp: cmd_code_def)
  define h6 where "h6 = snd (readSn hw SnIR s h5)"
  have "mem h5 (snAddr s SnIR) AND SnIR_SEND_OK = SnIR_SEND_OK" unfolding h5(2) by (rule exec_send(1) [OF s])
  then have sent: "sendDone hw s (e\<lparr>bus := h5\<rparr>) = Some (True, e\<lparr>bus := h6\<rparr>)"
    by (subst sendDone.simps) (simp add: frombus_readSn h6_def)
  define h7 where "h7 = e_endTransaction hw (writeSn hw SnIR s SnIR_SEND_OK h6)"
  have m7: "mem h7 = (mem h5)(snAddr s SnIR := mem h5 (snAddr s SnIR) AND NOT SnIR_SEND_OK)"
    unfolding h7_def quiet writeSn_def write_ir [OF s] by (simp add: h6_def)
  have "sock_send hw s buf len e = Some (n, e\<lparr>bus := h7\<rparr>)"
    unfolding sock_send_def n [symmetric] Let_def wait
    by (simp add: h3 h4(1) h5(1) sent endT_def onbus_def h7_def)
  moreover have "mem h7 (ringAddr (txWindow s) ?p i) = buf ! i" if i: "i < unat n" for i
  proof -
    let ?a = "ringAddr (txWindow s) ?p i"
    have "?a \<noteq> snAddr s SnIR"
      using tx_above [OF s, of ?p i] snAddr_less [OF s, of SnIR] by (auto simp: word_le_nat_alt)
    then have "mem h7 ?a = mem h4 ?a"
      unfolding m7 by (simp add: h5(2) exec_send(2) [OF s tx_above [OF s]])
    also have "\<dots> = ?d ! i"
      unfolding h4(2) movedWR_ring [OF s] using n1 i by (intro ringCopy_ring [OF tx_bounds [OF s]]) simp_all
    also have "\<dots> = buf ! i" using i by simp
    finally show ?thesis .
  qed
  ultimately show ?thesis by blast
qed

end

end
