(* ===== verification/EthStream.thy ===== *)
theory EthStream
  imports EthUdp EthChip
begin

text \<open>
  What the clients of the socket layer see of a socket: a queue of bytes, from which \<open>recv\<close>
  takes.  The chip of \<open>EthChip\<close> provides it; over it the operations of \<open>EthernetUDP\<close> are
  computed on the datagrams in the queue.
\<close>

section \<open>The interface\<close>

locale rxstream =
  fixes hw :: "'h ehw" and ok :: "'h eth \<Rightarrow> bool" and inq :: "u8 \<Rightarrow> 'h eth \<Rightarrow> u8 list"
  assumes recv_law: "ok e \<Longrightarrow> s < 4 \<Longrightarrow> inq s e \<noteq> [] \<Longrightarrow> 0 < unat len \<Longrightarrow> unat len < 32768 \<Longrightarrow>
      \<exists>e'. recv hw s len e = Some (int (min (unat len) (length (inq s e))), take (unat len) (inq s e), e') \<and>
        ok e' \<and> inq s e' = drop (unat len) (inq s e)"
    and none_law: "ok e \<Longrightarrow> inq s e = [] \<Longrightarrow>
      \<exists>r e'. recv hw s len e = Some (r, [], e') \<and> r \<le> 0 \<and> ok e' \<and> inq s e' = []"
    and avail_law: "ok e \<Longrightarrow> s < 4 \<Longrightarrow>
      \<exists>e'. recvAvailable hw s e = Some (int (length (inq s e)), e') \<and> ok e' \<and> inq s e' = inq s e"
    and size_law: "ok e \<Longrightarrow> s < 4 \<Longrightarrow> length (inq s e) \<le> 2048"
    and millis_law: "\<exists>now h. e_millis hw (bus e) = (now, h) \<and> ok (e\<lparr>bus := h\<rparr>) = ok e \<and>
      inq s (e\<lparr>bus := h\<rparr>) = inq s e"

sublocale w5100 \<subseteq> stream: rxstream hw "rx_inv mem" "pend mem"
proof
  fix e :: "'h eth" and s len :: u8 and n :: u16
  show "rx_inv mem e \<Longrightarrow> s < 4 \<Longrightarrow> pend mem s e \<noteq> [] \<Longrightarrow> 0 < unat n \<Longrightarrow> unat n < 32768 \<Longrightarrow>
      \<exists>e'. recv hw s n e = Some (int (min (unat n) (length (pend mem s e))), take (unat n) (pend mem s e), e') \<and>
        rx_inv mem e' \<and> pend mem s e' = drop (unat n) (pend mem s e)"
    using recv_some [of e s n] by blast
  show "rx_inv mem e \<Longrightarrow> pend mem s e = [] \<Longrightarrow>
      \<exists>r e'. recv hw s n e = Some (r, [], e') \<and> r \<le> 0 \<and> rx_inv mem e' \<and> pend mem s e' = []"
    using recv_none [of s e n] rx_sameD by fastforce
  show "rx_inv mem e \<Longrightarrow> s < 4 \<Longrightarrow>
      \<exists>e'. recvAvailable hw s e = Some (int (length (pend mem s e)), e') \<and> rx_inv mem e' \<and> pend mem s e' = pend mem s e"
    using recvAvailable_law [of e s] rx_sameD by metis
  show "rx_inv mem e \<Longrightarrow> s < 4 \<Longrightarrow> length (pend mem s e) \<le> 2048" by (rule pend_bound)
  have "mem (snd (e_millis hw (bus e))) = mem (bus e)" by (rule quiet)
  then show "\<exists>now h. e_millis hw (bus e) = (now, h) \<and> rx_inv mem (e\<lparr>bus := h\<rparr>) = rx_inv mem e \<and>
      pend mem s (e\<lparr>bus := h\<rparr>) = pend mem s e"
    by (cases "e_millis hw (bus e)") (auto simp: rx_inv_def pend_def)
qed

context w5100
begin

lemma rx_stream: "rxstream hw (rx_inv mem) (pend mem)"
  by unfold_locales

end

section \<open>Datagrams\<close>

text \<open>
  The object has a socket; \<open>bs\<close> is what is left of the datagram being read and \<open>rest\<close> what
  lies in the buffer behind it.
\<close>

definition udp_at ::
  "('h eth \<Rightarrow> bool) \<Rightarrow> (u8 \<Rightarrow> 'h eth \<Rightarrow> u8 list) \<Rightarrow> eudp \<Rightarrow> u8 list \<Rightarrow> u8 list \<Rightarrow> 'h eth \<Rightarrow> bool" where
  "udp_at ok inq u bs rest e \<longleftrightarrow>
     ok e \<and> u_sock u < 4 \<and> unat (u_remaining u) = length bs \<and> inq (u_sock u) e = bs @ rest"

definition advance :: "nat \<Rightarrow> eudp \<Rightarrow> eudp" where
  "advance n u = u\<lparr>u_remaining := u_remaining u - of_nat n\<rparr>"

text \<open>A datagram as it lies in the buffer: the address and port it came from, its length, the data.\<close>

definition udp_packet :: "u8 list \<Rightarrow> u16 \<Rightarrow> u8 list \<Rightarrow> u8 list" where
  "udp_packet ip port data =
     ip @ [ucast (drop_bit 8 port), ucast port,
           ucast (drop_bit 8 (of_nat (length data) :: u16)), ucast (of_nat (length data) :: u16)] @ data"

lemma advance_sel [simp]:
  "u_sock (advance n u) = u_sock u" "u_remoteIP (advance n u) = u_remoteIP u"
  "u_remotePort (advance n u) = u_remotePort u" "u_port (advance n u) = u_port u"
  "u_offset (advance n u) = u_offset u"
  by (simp_all add: advance_def)

lemma advance_advance [simp]: "advance n (advance m u) = advance (m + n) u"
  by (simp add: advance_def)

lemma advance_0 [simp]: "advance 0 u = u"
  by (simp add: advance_def)

lemma be16_bytes: "be16 (ucast (drop_bit 8 v)) (ucast v) = v"
proof -
  have "push_bit 8 (ucast (ucast (drop_bit 8 v) :: u8)) + ucast (ucast v :: u8) =
      push_bit 8 (ucast (ucast (drop_bit 8 v) :: u8)) OR (ucast (ucast v :: u8) :: u16)"
    by (rule disjunctive_add) (auto simp: bit_simps)
  then show ?thesis using join16_split [of v] by (simp add: be16_def or.commute)
qed

context rxstream
begin

lemma read_some:
  assumes at: "udp_at ok inq u bs rest e" and bs: "bs \<noteq> []" and n: "0 < n" "n < 32768"
  shows "\<exists>e'. eudp_readN hw (of_nat n) u e =
      Some (int (min n (length bs)), take n bs, advance (min n (length bs)) u, e') \<and>
    udp_at ok inq (advance (min n (length bs)) u) (drop n bs) rest e'"
proof -
  have u: "ok e" "u_sock u < 4" "unat (u_remaining u) = length bs" "inq (u_sock u) e = bs @ rest"
    using at by (auto simp: udp_at_def)
  have len: "length bs \<le> 2048" using size_law [OF u(1, 2)] u(4) by simp
  have n32: "unat (of_nat n :: u32) = n" using n(2) by (intro unat_of_nat_small) simp
  define k where "k = min n (length bs)"
  define m where "m = (if length bs \<le> n then u_remaining u else ucast (of_nat n :: u32))"
  have m: "unat m = k"
    using n(2) n32 u(3) by (simp add: m_def k_def unat_ucast_mod)
  have k: "0 < k" "k < 32768" "k \<le> length bs" using bs n len by (simp_all add: k_def)
  obtain e' where e': "recv hw (u_sock u) m e = Some (int k, take k bs, e')" "ok e'"
      "inq (u_sock u) e' = drop k bs @ rest"
    using recv_law [of e "u_sock u" m] u bs k by (auto simp: m)
  have rem: "u_remaining u > 0" using bs u(3) by (simp add: word_neq_0_iff_unat word_gt_0)
  have "eudp_readN hw (of_nat n) u e = Some (int k, take k bs, advance k u, e')"
    using e'(1) rem k(1) by (simp add: eudp_readN_def n32 u(3) m_def [symmetric] advance_def if_distrib [symmetric])
      (auto simp: m_def u(3) split: if_splits)
  moreover have "unat (u_remaining u - of_nat k) = length bs - k"
    using k len u(3) by (subst unat_sub_small) (simp_all add: unat_of_nat_small)
  then have "udp_at ok inq (advance k u) (drop k bs) rest e'"
    using e' u by (simp add: udp_at_def advance_def)
  moreover have "take k bs = take n bs" "drop k bs = drop n bs" by (simp_all add: k_def min_def)
  ultimately show ?thesis unfolding k_def [symmetric] by auto
qed

lemma read_byte:
  assumes at: "udp_at ok inq u (b # bs) rest e"
  shows "\<exists>e'. eudp_read hw u e = Some (uint b, advance 1 u, e') \<and> udp_at ok inq (advance 1 u) bs rest e'"
proof -
  have u: "ok e" "u_sock u < 4" "unat (u_remaining u) = Suc (length bs)" "inq (u_sock u) e = b # bs @ rest"
    using at by (auto simp: udp_at_def)
  obtain e' where e': "recv hw (u_sock u) 1 e = Some (1, [b], e')" "ok e'" "inq (u_sock u) e' = bs @ rest"
    using recv_law [of e "u_sock u" 1] u by auto
  have rem: "u_remaining u > 0" using u(3) by (simp add: word_neq_0_iff_unat word_gt_0)
  have "unat (u_remaining u - 1) = length bs" using u(3) by (subst unat_sub_small) simp_all
  then show ?thesis using e' rem u(2) by (simp add: eudp_read_def advance_def udp_at_def)
qed

lemma read_end:
  assumes "udp_at ok inq u [] rest e"
  shows "eudp_read hw u e = Some (- 1, u, e)" and "eudp_readN hw n u e = Some (- 1, [], u, e)"
proof -
  have "u_remaining u = 0" using assms by (simp add: udp_at_def word_unat_eq_iff)
  then show "eudp_read hw u e = Some (- 1, u, e)" "eudp_readN hw n u e = Some (- 1, [], u, e)"
    by (simp_all add: eudp_read_def eudp_readN_def)
qed

lemma flush_rest:
  assumes "udp_at ok inq u bs rest e"
  shows "\<exists>e'. eudp_flush hw u e = Some (advance (length bs) u, e') \<and>
    udp_at ok inq (advance (length bs) u) [] rest e'"
  using assms
proof (induction bs arbitrary: u e)
  case Nil
  then have "u_remaining u = 0" by (simp add: udp_at_def word_unat_eq_iff)
  then show ?case using Nil by (subst eudp_flush.simps) simp
next
  case (Cons b bs)
  obtain e1 where e1: "eudp_read hw u e = Some (uint b, advance 1 u, e1)" "udp_at ok inq (advance 1 u) bs rest e1"
    using read_byte [OF Cons.prems] by blast
  have "u_remaining u \<noteq> 0" using Cons.prems by (auto simp: udp_at_def)
  then have "eudp_flush hw u e = eudp_flush hw (advance 1 u) e1"
    using e1(1) by (subst eudp_flush.simps) simp
  then show ?case using Cons.IH [OF e1(2)] by simp
qed


lemma parse_next:
  assumes at: "udp_at ok inq u bs (udp_packet ip port data @ rest) e" and ip: "length ip = 4"
  shows "\<exists>e'. eudp_parsePacket hw u e = Some (int (length data),
      u\<lparr>u_remoteIP := ip, u_remotePort := port, u_remaining := of_nat (length data)\<rparr>, e') \<and>
    udp_at ok inq (u\<lparr>u_remoteIP := ip, u_remotePort := port, u_remaining := of_nat (length data)\<rparr>) data rest e'"
proof -
  let ?p = "udp_packet ip port data @ rest" and ?u1 = "advance (length bs) u"
  obtain e1 where e1: "eudp_flush hw u e = Some (?u1, e1)" "udp_at ok inq ?u1 [] ?p e1"
    using flush_rest [OF at] by blast
  have u: "ok e1" "u_sock u < 4" "inq (u_sock u) e1 = ?p" using e1(2) by (auto simp: udp_at_def)
  obtain n e2 where e2: "recvAvailable hw (u_sock u) e1 = Some (n, e2)" "ok e2"
      "inq (u_sock u) e2 = ?p" and n0: "n > 0"
    using avail_law [of e1 "u_sock u"] u by (fastforce simp: udp_packet_def)
  have len: "length data < 65536" using size_law [OF e2(2) u(2)] e2(3) by (simp add: udp_packet_def)
  have p: "length ?p = 8 + length (data @ rest)" "drop 8 ?p = data @ rest" "?p \<noteq> []"
    using ip by (simp_all add: udp_packet_def)
  obtain e3 where e3: "recv hw (u_sock u) 8 e2 = Some (8, take 8 ?p, e3)" "ok e3"
      "inq (u_sock u) e3 = data @ rest"
    using recv_law [of e2 "u_sock u" 8] e2(2) u(2) p unfolding e2(3) by auto
  obtain i0 i1 i2 i3 where i: "ip = [i0, i1, i2, i3]"
    using ip by (auto simp: length_Suc_conv numeral_eq_Suc)
  have n: "int (length data) = uint (of_nat (length data) :: u16)"
    using len by (simp add: unsigned_of_nat take_bit_nat_eq_self)
  have "eudp_parsePacket hw u e = Some (int (length data),
      u\<lparr>u_remoteIP := ip, u_remotePort := port, u_remaining := of_nat (length data)\<rparr>, e3)"
    using e1(1) e2(1) e3(1) i n0
    by (simp add: eudp_parsePacket_def udp_packet_def be16_bytes advance_def n Let_def)
  moreover have "unat (of_nat (length data) :: u16) = length data" using len by (intro unat_of_nat_small) simp
  ultimately show ?thesis using e3 u by (auto simp: udp_at_def)
qed

lemma parse_empty:
  assumes at: "udp_at ok inq u bs [] e"
  shows "\<exists>e'. eudp_parsePacket hw u e = Some (0, advance (length bs) u, e') \<and>
    udp_at ok inq (advance (length bs) u) [] [] e'"
proof -
  obtain e1 where e1: "eudp_flush hw u e = Some (advance (length bs) u, e1)"
      "udp_at ok inq (advance (length bs) u) [] [] e1"
    using flush_rest [OF at] by blast
  then obtain e2 where "recvAvailable hw (u_sock u) e1 = Some (0, e2)" "ok e2" "inq (u_sock u) e2 = []"
    using avail_law [of e1 "u_sock u"] by (auto simp: udp_at_def)
  then show ?thesis using e1 by (auto simp: eudp_parsePacket_def udp_at_def)
qed

end

end
