(* ===== verification/EthSim.thy ===== *)
theory EthSim
  imports EthChip
begin

text \<open>
  A chip that keeps the laws of \<open>w5100\<close>: a machine that takes the four bytes of a frame, reads
  or writes its memory, and carries out the commands whose effect on the memory the driver
  relies on.  The driver's lemmas are interpreted on it; it supplies the concrete inputs.
\<close>

record sim =
  sim_frame :: "u8 list"
  sim_mem :: "u16 \<Rightarrow> u8"
  sim_clock :: u32

definition sim_exec :: "u8 \<Rightarrow> u8 \<Rightarrow> (u16 \<Rightarrow> u8) \<Rightarrow> u16 \<Rightarrow> u8" where
  "sim_exec s c m =
     (let m1 = m(snAddr s SnCR := 0);
          n = mem16 m (snAddr s SnRX_WR) - mem16 m (snAddr s SnRX_RD)
      in if c = 0x40 then m1(snAddr s SnRX_RSR := ucast (drop_bit 8 n), snAddr s (SnRX_RSR + 1) := ucast n)
         else if c = 0x20 then m1(snAddr s SnIR := m (snAddr s SnIR) OR SnIR_SEND_OK)
         else m1)"

definition sim_store :: "u16 \<Rightarrow> u8 \<Rightarrow> (u16 \<Rightarrow> u8) \<Rightarrow> u16 \<Rightarrow> u8" where
  "sim_store a d m =
     (case filter (\<lambda>s. a = snAddr s SnCR) [0, 1, 2, 3] of
        s # _ \<Rightarrow> sim_exec s d m
      | [] \<Rightarrow> if a \<in> {snAddr 0 SnIR, snAddr 1 SnIR, snAddr 2 SnIR, snAddr 3 SnIR}
              then m(a := m a AND NOT d) else m(a := d))"

definition sim_addr :: "u8 list \<Rightarrow> u16" where
  "sim_addr bs = push_bit 8 (ucast (bs ! 1)) OR ucast (bs ! 2)"

definition sim_transfer :: "u8 \<Rightarrow> sim \<Rightarrow> u8 \<times> sim" where
  "sim_transfer b h =
     (let bs = sim_frame h @ [b]; h = h\<lparr>sim_frame := bs\<rparr> in
      if length bs = 4 \<and> bs ! 0 = 0x0F then (sim_mem h (sim_addr bs), h)
      else if length bs = 4 \<and> bs ! 0 = 0xF0 then (3, h\<lparr>sim_mem := sim_store (sim_addr bs) b (sim_mem h)\<rparr>)
      else (of_nat (length (sim_frame h)), h))"

text \<open>The clock advances by a millisecond each time it is read.\<close>

definition sim_hw :: "sim ehw" where
  "sim_hw =
     \<lparr> e_begin = id, e_initSS = id, e_setSS = (\<lambda>h. h\<lparr>sim_frame := []\<rparr>), e_resetSS = (\<lambda>h. h\<lparr>sim_frame := []\<rparr>),
       e_beginTransaction = id, e_endTransaction = id, e_transfer = sim_transfer,
       e_millis = (\<lambda>h. (sim_clock h, h\<lparr>sim_clock := sim_clock h + 1\<rparr>)),
       e_delay = (\<lambda>t h. h\<lparr>sim_clock := sim_clock h + t\<rparr>), e_yield = id,
       e_random = (\<lambda>a b h. (a, h)), e_INADDR_NONE = [0, 0, 0, 0] \<rparr>"

lemma sim_addr_bytes: "sim_addr [b, ucast (drop_bit 8 a), ucast (a AND 0xFF), d] = a"
  using join16_split [of a] by (simp add: sim_addr_def low_byte or.commute)

lemma sim_addr_bytes3: "sim_addr [b, ucast (drop_bit 8 a), ucast (a AND 0xFF)] = a"
  using join16_split [of a] by (simp add: sim_addr_def low_byte or.commute)

lemma sim_read: "chip_read sim_hw a h = (sim_mem h a, h\<lparr>sim_frame := []\<rparr>)"
  by (simp add: chip_read_def sim_hw_def sim_transfer_def Let_def sim_addr_bytes)

lemma sim_write: "chip_write sim_hw a d h = h\<lparr>sim_frame := [], sim_mem := sim_store a d (sim_mem h)\<rparr>"
  by (simp add: chip_write_def sim_hw_def sim_transfer_def Let_def sim_addr_bytes)

lemma sim_store_plain:
  assumes "\<not> special a"
  shows "sim_store a d m = m(a := d)"
proof -
  have "filter (\<lambda>s. a = snAddr s SnCR) [0, 1, 2, 3] = []"
    using assms by (auto simp: special_def word_less_nat_alt simp del: SnCR_def SnIR_def)
  moreover have "a \<notin> {snAddr 0 SnIR, snAddr 1 SnIR, snAddr 2 SnIR, snAddr 3 SnIR}"
    using assms by (auto simp: special_def word_less_nat_alt simp del: SnCR_def SnIR_def)
  ultimately show ?thesis by (simp only: sim_store_def list.case if_False)
qed

lemma sim_store_ir: "s < 4 \<Longrightarrow> sim_store (snAddr s SnIR) d m = m(snAddr s SnIR := m (snAddr s SnIR) AND NOT d)"
  by (auto simp: sim_store_def snAddr_eq_iff dest: less4_cases)

lemma sim_store_cr: "s < 4 \<Longrightarrow> sim_store (snAddr s SnCR) d m = sim_exec s d m"
  by (auto simp: sim_store_def snAddr_eq_iff dest: less4_cases)

lemma sim_quiet:
  "sim_mem (e_yield sim_hw h) = sim_mem h" "sim_mem (e_delay sim_hw t h) = sim_mem h"
  "sim_mem (snd (e_millis sim_hw h)) = sim_mem h" "sim_mem (e_beginTransaction sim_hw h) = sim_mem h"
  "sim_mem (e_endTransaction sim_hw h) = sim_mem h"
  by (simp_all add: sim_hw_def)

lemma sim_exec_done: "s < 4 \<Longrightarrow> sim_exec s d m (snAddr s SnCR) = 0"
  by (simp add: sim_exec_def Let_def snAddr_eq_iff snAddr_Suc)

interpretation chip: w5100 sim_hw sim_mem sim_exec
proof
  fix s :: u8 and m and a :: u16
  assume s: "s < 4"
  show "mem16 (sim_exec s 0x40 m) (snAddr s SnRX_RSR) =
      mem16 m (snAddr s SnRX_WR) - mem16 m (snAddr s SnRX_RD)"
    using s join16_split [of "mem16 m (snAddr s SnRX_WR) - mem16 m (snAddr s SnRX_RD)"]
    by (simp add: sim_exec_def Let_def mem16_def snAddr_Suc snAddr_eq_iff or.commute)
  show "a \<notin> {snAddr s SnCR, snAddr s SnRX_RSR, snAddr s SnRX_RSR + 1} \<Longrightarrow> sim_exec s 0x40 m a = m a"
    by (simp add: sim_exec_def Let_def snAddr_Suc)
  have "(x OR 0x10) AND 0x10 = (0x10 :: u8)" for x by (rule bit_word_eqI) (auto simp: bit_simps)
  then show "sim_exec s 0x20 m (snAddr s SnIR) AND SnIR_SEND_OK = SnIR_SEND_OK"
    using s by (simp add: sim_exec_def Let_def snAddr_eq_iff)
  assume "0x4000 \<le> a"
  then have "a \<noteq> snAddr s r" if "unat r < 256" for r
    using snAddr_less [OF s that] by (auto simp: word_le_nat_alt)
  then show "sim_exec s 0x20 m a = m a" by (simp add: sim_exec_def Let_def)
qed (simp_all add: sim_read sim_write sim_store_plain sim_quiet sim_store_ir [simplified]
      sim_store_cr [simplified] sim_exec_done [simplified])

section \<open>A chip that has received bytes on a socket\<close>

definition sim_load :: "u8 \<Rightarrow> u8 list \<Rightarrow> u16 \<Rightarrow> u8" where
  "sim_load s bs a =
     (let n = of_nat (length bs) :: u16; k = unat a - unat (rxWindow s) in
      if unat (rxWindow s) \<le> unat a \<and> k < length bs then bs ! k
      else if a = snAddr s SnRX_RSR \<or> a = snAddr s SnRX_WR then ucast (drop_bit 8 n)
      else if a = snAddr s (SnRX_RSR + 1) \<or> a = snAddr s (SnRX_WR + 1) then ucast n
      else 0)"

definition sim_eth :: "u8 \<Rightarrow> u8 list \<Rightarrow> sim eth" where
  "sim_eth s bs =
     \<lparr> SBASE = [0x4000, 0x4800, 0x5000, 0x5800], RBASE = [0x6000, 0x6800, 0x7000, 0x7800],
       local_port = 0, server_port = [0, 0, 0, 0], srcport = 49152, dnsServerAddress = [0, 0, 0, 0],
       bus = \<lparr>sim_frame = [], sim_mem = sim_load s bs, sim_clock = 1\<rparr> \<rparr>"

lemma sim_load_reg:
  assumes "s < 4" "t < 4" "unat r < 256"
  shows "sim_load s bs (snAddr t r) =
     (if t = s \<and> (r = SnRX_RSR \<or> r = SnRX_WR) then ucast (drop_bit 8 (of_nat (length bs) :: u16))
      else if t = s \<and> (r = SnRX_RSR + 1 \<or> r = SnRX_WR + 1) then ucast (of_nat (length bs) :: u16)
      else 0)"
proof -
  have "\<not> unat (rxWindow s) \<le> unat (snAddr t r)"
    using snAddr_less [OF assms(2, 3)] by (simp add: unat_windows assms(1))
  then show ?thesis using assms by (auto simp: sim_load_def Let_def snAddr_eq_iff)
qed

lemma sim_load_mem16:
  assumes "s < 4" "t < 4"
  shows "mem16 (sim_load s bs) (snAddr t SnRX_RSR) = (if t = s then of_nat (length bs) else 0)"
    "mem16 (sim_load s bs) (snAddr t SnRX_WR) = (if t = s then of_nat (length bs) else 0)"
    "mem16 (sim_load s bs) (snAddr t SnRX_RD) = 0"
  using assms join16_split [of "of_nat (length bs)"]
  by (simp_all add: mem16_def snAddr_Suc sim_load_reg or.commute)

lemma sim_eth_pend:
  assumes "s < 4" and "length bs \<le> 2048"
  shows "rx_inv sim_mem (sim_eth s bs)" and "pend sim_mem s (sim_eth s bs) = bs"
proof -
  have n: "unat (of_nat (length bs) :: u16) = length bs" using assms(2) by (intro unat_of_nat_small) simp
  have "rx_ok t (sim_load s bs)" if "t < 4" for t
    unfolding rx_ok_def sim_load_mem16 [OF assms(1) that] using n assms(2) by simp
  then show "rx_inv sim_mem (sim_eth s bs)" by (simp add: rx_inv_def canonical_def sim_eth_def)
  have "pending s (sim_load s bs) = bs"
  proof (rule nth_equalityI)
    show "length (pending s (sim_load s bs)) = length bs"
      unfolding pending_length sim_load_mem16 [OF assms(1, 1)] using n by simp
  next
    fix i assume "i < length (pending s (sim_load s bs))"
    then have i: "i < length bs"
      unfolding pending_length sim_load_mem16 [OF assms(1, 1)] using n by simp
    have "unat (rxWindow s) + 2048 \<le> 65536" using assms(1) by (simp add: unat_windows word_less_nat_alt)
    then have "unat (ringAddr (rxWindow s) 0 i) = unat (rxWindow s) + i"
      using i assms(2) by (simp add: unat_ringAddr)
    then show "pending s (sim_load s bs) ! i = bs ! i"
      using i n by (simp add: pending_def sim_load_mem16 [OF assms(1, 1), simplified] sim_load_def Let_def)
  qed
  then show "pend sim_mem s (sim_eth s bs) = bs" by (simp add: pend_def sim_eth_def)
qed

end
