(* ===== verification/EthProps.thy ===== *)
theory EthProps
  imports EthClient EthStream EthSim
begin

text \<open>
  Properties of the socket layer and of the classes over it: what \<open>recv\<close> returns, how the
  circular buffers are used, which datagram is read next, and what a client is told it has
  sent.  Some hold for every chip, others for one that keeps the laws of \<open>w5100\<close>.
\<close>

section \<open>The results of recv, on any chip\<close>

lemma length_chip_reads: "length (fst (chip_reads hw a n h)) = n"
  by (induction n arbitrary: a h) (auto simp: split_beta)

lemma length_read_data:
  assumes "read_data hw s src len e = Some (bs, e')"
  shows "length bs = unat len"
proof (cases "unat (src AND 0x7FF) + unat len > 2048")
  case False
  then show ?thesis
    using assms by (auto simp: read_data_def Let_def frombus_def length_chip_reads [symmetric]
        split: Option.bind_splits prod.splits if_splits)
      (metis fst_conv length_chip_reads)
next
  case True
  have o: "unat (src AND 0x7FF) < 2048" by (simp add: unat_mask11)
  then have n1: "unat (2048 - (src AND 0x7FF)) = 2048 - unat (src AND 0x7FF)"
    by (subst unat_sub_small) simp_all
  then have "unat (len - (2048 - (src AND 0x7FF))) = unat len - (2048 - unat (src AND 0x7FF))"
    using True by (subst unat_sub_small) simp_all
  then have "unat (2048 - (src AND 0x7FF)) + unat (len - (2048 - (src AND 0x7FF))) = unat len"
    using n1 True o by simp
  moreover obtain base h where "rxBase s e = Some base" "bs =
      fst (chip_reads hw (base + (src AND 0x7FF)) (unat (2048 - (src AND 0x7FF))) (bus e)) @
      fst (chip_reads hw base (unat (len - (2048 - (src AND 0x7FF)))) h)"
    using assms True by (fastforce simp: read_data_def Let_def frombus_def split_beta
        split: Option.bind_splits if_splits)
  ultimately show ?thesis by (simp add: length_chip_reads)
qed

lemma nat_sint:
  assumes "0 \<le> sint (w :: u16)"
  shows "nat (sint w) = unat w"
proof -
  have "sint w < 2 ^ 16" using sint_less [of w] by simp
  then have "take_bit 16 (sint w) = sint w" using assms by (intro take_bit_int_eq_self)
  moreover have "uint w = take_bit 16 (sint w)" using uint_sint [of w] by simp
  ultimately have "uint w = sint w" by (rule trans [rotated])
  then show ?thesis by (metis unat_eq_nat_uint)
qed

text \<open>
  C32. On any chip, \<open>recv\<close> stores exactly as many bytes as the positive number it returns, which
  is at most the length asked for, and none when it returns 0 or less; what it returns lies in
  the range of an \<open>int16_t\<close>.
\<close>

theorem recv_result:
  assumes "recv hw s len e = Some (r, bs, e')"
  shows "length bs = nat r \<and> (0 < r \<longrightarrow> r \<le> sint len) \<and> - 32768 \<le> r \<and> r < 32768"
proof -
  obtain rsr e1 where rsr: "trybus (getRXReceivedSize hw s) (beginT hw e) = Some (rsr, e1)"
    using assms by (auto simp: recv_def split: Option.bind_splits)
  define picked where "picked =
    (if rsr = 0
     then case frombus (readSn hw SnSR s) e1 of (status, e) \<Rightarrow>
       if status = SnSR_LISTEN \<or> status = SnSR_CLOSED \<or> status = SnSR_CLOSE_WAIT then (0, e) else (- 1, e)
     else if sint rsr > sint len then (len, e1) else (rsr, e1))"
  obtain ret e2 where pe: "picked = (ret, e2)" by fastforce
  have body: "(if sint ret > 0
      then do {
        (data, e) \<leftarrow> recv_data_processing hw s ret False e2;
        e \<leftarrow> execCmd hw s Sock_RECV e;
        Some (sint ret, data, endT hw e) }
      else Some (sint ret, [], endT hw e2)) = Some (r, bs, e')"
    using assms unfolding recv_def rsr Option.bind.bind_lunit split_conv Let_def picked_def [symmetric] pe
    by simp
  have range: "- 32768 \<le> sint ret \<and> sint ret < 32768"
    using sint_greater_eq [of ret] sint_less [of ret] by simp
  have le: "0 < sint ret \<longrightarrow> sint ret \<le> sint len"
    using pe by (auto simp: picked_def split: if_splits prod.splits)
  show ?thesis
  proof (cases "sint ret > 0")
    case False
    then show ?thesis using body range by auto
  next
    case True
    then obtain e3 where "recv_data_processing hw s ret False e2 = Some (bs, e3)" and r: "r = sint ret"
      using body by (auto split: Option.bind_splits)
    then obtain ptr e4 e5 where "read_data hw s ptr ret e4 = Some (bs, e5)"
      by (auto simp: recv_data_processing_def split: Option.bind_splits prod.splits)
    then have "length bs = unat ret" by (rule length_read_data)
    moreover have "nat (sint ret) = unat ret" using True by (intro nat_sint) simp
    ultimately show ?thesis using True le range r by simp
  qed
qed

theorem recv_result_witness:
  "\<exists>e'. recv sim_hw 1 2 (sim_eth 1 [7, 8, 9]) = Some (2, [7, 8], e') \<and>
    length [7, 8 :: u8] = nat 2 \<and> (2 :: int) \<le> sint (2 :: u16)"
proof -
  obtain e' where e': "recv sim_hw 1 2 (sim_eth 1 [7, 8, 9]) = Some (2, [7, 8], e')"
    using chip.recv_some [OF sim_eth_pend(1), of 1 "[7, 8, 9]" 1 2] sim_eth_pend(2) [of 1 "[7, 8, 9]"]
    by (auto simp: word_less_nat_alt)
  from recv_result [OF this] show ?thesis using e' by simp
qed

section \<open>The buffers of the sockets\<close>

text \<open>
  C25. What \<open>recv\<close> takes: on a chip that keeps the laws, a socket is a queue of bytes, and
  \<open>recv\<close> returns its first bytes, as many as are there up to the length asked for, leaves the rest,
  and does not touch the queues of the other sockets.
\<close>

theorem recv_takes_pending:
  assumes "w5100 hw mem exec" and "rx_inv mem e" and "s < 4"
    and "pend mem s e \<noteq> []" and "0 < unat len" "unat len < 32768"
  shows "\<exists>e'. recv hw s len e =
      Some (int (min (unat len) (length (pend mem s e))), take (unat len) (pend mem s e), e') \<and>
    rx_inv mem e' \<and> pend mem s e' = drop (unat len) (pend mem s e) \<and>
    (\<forall>t < 4. t \<noteq> s \<longrightarrow> pend mem t e' = pend mem t e)"
  by (rule w5100.recv_some [OF assms])

theorem recv_takes_pending_witness:
  "\<exists>e'. recv sim_hw 3 2 (sim_eth 3 [5, 6, 7]) = Some (2, [5, 6], e') \<and> pend sim_mem 3 e' = [7]"
  using recv_takes_pending [OF chip.w5100_axioms sim_eth_pend(1), of 3 "[5, 6, 7]" 3 2]
    sim_eth_pend(2) [of 3 "[5, 6, 7]"]
  by (auto simp: word_less_nat_alt)



section \<open>Datagrams\<close>

text \<open>
  C10. \<open>parsePacket\<close> moves to the next datagram: whatever is left unread of the one before is
  discarded, the address, the port and the length are those of the header that follows, and
  exactly the data of this datagram are then there to be read, before the ones behind it.
\<close>

theorem parsePacket_next_datagram:
  assumes "w5100 hw mem exec"
    and "udp_at (rx_inv mem) (pend mem) u unread (udp_packet ip port data @ rest) e" and "length ip = 4"
  shows "\<exists>e'. eudp_parsePacket hw u e = Some (int (length data),
      u\<lparr>u_remoteIP := ip, u_remotePort := port, u_remaining := of_nat (length data)\<rparr>, e') \<and>
    udp_at (rx_inv mem) (pend mem)
      (u\<lparr>u_remoteIP := ip, u_remotePort := port, u_remaining := of_nat (length data)\<rparr>) data rest e'"
  by (rule rxstream.parse_next [OF w5100.rx_stream [OF assms(1)] assms(2, 3)])

definition sim_udp :: "u16 \<Rightarrow> eudp" where
  "sim_udp n = eudp_new\<lparr>u_sock := 0, u_remaining := n\<rparr>"

theorem parsePacket_next_datagram_witness:
  "\<exists>u e'. eudp_parsePacket sim_hw (sim_udp 2) (sim_eth 0 ([1, 2] @ udp_packet [10, 0, 0, 1] 53 [3, 4, 5])) =
     Some (3, u, e') \<and> u_remotePort u = 53"
proof -
  let ?q = "[1, 2] @ udp_packet [10, 0, 0, 1] 53 [3, 4, 5]"
  have "udp_at (rx_inv sim_mem) (pend sim_mem) (sim_udp 2) [1, 2] (udp_packet [10, 0, 0, 1] 53 [3, 4, 5] @ [])
      (sim_eth 0 ?q)"
    using sim_eth_pend [of 0 ?q] by (simp add: udp_at_def sim_udp_def eudp_new_def udp_packet_def)
  from parsePacket_next_datagram [OF chip.w5100_axioms this] show ?thesis by auto
qed

section \<open>What a client has sent\<close>

text \<open>
  \<open>EthernetClient::write\<close> says more than it has done: over an established connection with room
  for a full buffer, writing more than 2048 bytes sends the first 2048 and no others, and the
  result is the number of bytes asked for.
\<close>

theorem client_write_overstates:
  assumes "w5100 hw mem exec" and "canonical e" and c: "c_sock c < 4"
    and buf: "2048 < length buf" "length buf < 65536"
    and sr: "mem (bus e) (snAddr (c_sock c) SnSR) = SnSR_ESTABLISHED"
    and room: "mem16 (mem (bus e)) (snAddr (c_sock c) SnTX_FSR) = 2048"
  shows "\<exists>h. sock_send hw (c_sock c) buf (of_nat (length buf)) e = Some (2048, e\<lparr>bus := h\<rparr>) \<and>
    eclient_write hw buf (of_nat (length buf)) c e = Some (of_nat (length buf), c, e\<lparr>bus := h\<rparr>)"
proof -
  let ?len = "of_nat (length buf) :: u16"
  have len: "unat ?len = length buf" using buf by (intro unat_of_nat_small) simp
  have n: "2048 = (if ?len > SSIZE then SSIZE else ?len)" using buf(1) len by (simp add: word_less_nat_alt)
  obtain h where h: "sock_send hw (c_sock c) buf ?len e = Some (2048, e\<lparr>bus := h\<rparr>)"
    using w5100.send_established [OF assms(1, 2) c _ sr n] len room by auto
  have "ucast (of_nat (length buf) :: u32) = ?len"
    using buf(2) by (simp add: word_unat_eq_iff unat_ucast_mod len) (simp add: unat_of_nat_small)
  moreover have "c_sock c \<noteq> MAX_SOCK_NUM" using c by auto
  ultimately show ?thesis using h by (intro exI [of _ h]) (simp add: eclient_write_def)
qed

text \<open>A chip with an established connection and an empty transmit buffer on socket 0.\<close>

definition sim_up :: "sim eth" where
  "sim_up = (sim_eth 0 [])\<lparr>bus := \<lparr>sim_frame = [],
     sim_mem = (sim_load 0 [])(snAddr 0 SnSR := SnSR_ESTABLISHED, snAddr 0 SnTX_FSR := 8), sim_clock = 1\<rparr>\<rparr>"

theorem client_write_overstates_witness:
  "\<exists>e'. eclient_write sim_hw (replicate 3000 0) 3000 (eclient_of 0) sim_up = Some (3000, eclient_of 0, e')"
proof -
  have e: "canonical sim_up" by (simp add: sim_up_def sim_eth_def canonical_def)
  have sr: "sim_mem (bus sim_up) (snAddr (c_sock (eclient_of 0)) SnSR) = SnSR_ESTABLISHED"
    by (simp add: sim_up_def eclient_of_def snAddr_eq_iff)
  have fsr: "mem16 (sim_mem (bus sim_up)) (snAddr (c_sock (eclient_of 0)) SnTX_FSR) = 2048"
    by (simp add: sim_up_def eclient_of_def mem16_def snAddr_Suc snAddr_eq_iff sim_load_reg word_less_nat_alt)
  from client_write_overstates [OF chip.w5100_axioms e _ _ _ sr fsr, of "replicate 3000 0"]
  show ?thesis by (auto simp: eclient_of_def word_less_nat_alt)
qed

end
