(* ===== verification/DhcpClient.thy ===== *)
theory DhcpClient
  imports DnsClient
begin

text \<open>
  The DHCP client of the Ethernet library (Ethernet/src/Dhcp.cpp, Dhcp.h) and the class
  \<open>EthernetClass\<close> that uses it (Ethernet/src/Ethernet.cpp).  \<open>long\<close> has 32 bits; values of a
  signed type are words read with \<open>sint\<close>, and their overflow wraps, as the code relies on.
\<close>

section \<open>State\<close>

datatype dhcp_state = STATE_DHCP_START | STATE_DHCP_DISCOVER | STATE_DHCP_REQUEST |
  STATE_DHCP_LEASED | STATE_DHCP_REREQUEST | STATE_DHCP_RELEASE

record dhcp =
  d_initialTransactionId :: u32
  d_transactionId :: u32
  d_macAddr :: "u8 list"
  d_localIp :: "u8 list"
  d_subnetMask :: "u8 list"
  d_gatewayIp :: "u8 list"
  d_serverIp :: "u8 list"
  d_dnsServerIp :: "u8 list"
  d_leaseTime :: u32
  d_T1 :: u32
  d_T2 :: u32
  d_renewInSec :: u32
  d_rebindInSec :: u32
  d_lastCheck :: u32
  d_timeout :: u32
  d_responseTimeout :: u32
  d_secTimeout :: u32
  d_state :: dhcp_state
  d_udp :: eudp

text \<open>A static object: everything is zero.\<close>

definition dhcp_new :: dhcp where
  "dhcp_new =
     \<lparr> d_initialTransactionId = 0, d_transactionId = 0, d_macAddr = replicate 6 0,
       d_localIp = replicate 4 0, d_subnetMask = replicate 4 0, d_gatewayIp = replicate 4 0,
       d_serverIp = replicate 4 0, d_dnsServerIp = replicate 4 0, d_leaseTime = 0, d_T1 = 0, d_T2 = 0,
       d_renewInSec = 0, d_rebindInSec = 0, d_lastCheck = 0, d_timeout = 0, d_responseTimeout = 0,
       d_secTimeout = 0, d_state = STATE_DHCP_START, d_udp = eudp_new \<rparr>"

definition DHCP_FLAGSBROADCAST :: u16 where [simp]: "DHCP_FLAGSBROADCAST = 0x8000"
definition DHCP_SERVER_PORT :: u16 where [simp]: "DHCP_SERVER_PORT = 67"
definition DHCP_CLIENT_PORT :: u16 where [simp]: "DHCP_CLIENT_PORT = 68"
definition DHCP_BOOTREQUEST :: u8 where [simp]: "DHCP_BOOTREQUEST = 1"
definition DHCP_BOOTREPLY :: u8 where [simp]: "DHCP_BOOTREPLY = 2"
definition DHCP_DISCOVER :: u8 where [simp]: "DHCP_DISCOVER = 1"
definition DHCP_OFFER :: u8 where [simp]: "DHCP_OFFER = 2"
definition DHCP_REQUEST :: u8 where [simp]: "DHCP_REQUEST = 3"
definition DHCP_ACK :: u8 where [simp]: "DHCP_ACK = 5"
definition DHCP_NAK :: u8 where [simp]: "DHCP_NAK = 6"
definition DHCP_HTYPE10MB :: u8 where [simp]: "DHCP_HTYPE10MB = 1"
definition DHCP_HLENETHERNET :: u8 where [simp]: "DHCP_HLENETHERNET = 6"
definition DHCP_HOPS :: u8 where [simp]: "DHCP_HOPS = 0"
definition MAGIC_COOKIE :: u32 where [simp]: "MAGIC_COOKIE = 0x63825363"
definition DEFAULT_LEASE :: u32 where [simp]: "DEFAULT_LEASE = 900"
definition DHCP_CHECK_NONE :: int where [simp]: "DHCP_CHECK_NONE = 0"
definition DHCP_CHECK_RENEW_FAIL :: int where [simp]: "DHCP_CHECK_RENEW_FAIL = 1"
definition DHCP_CHECK_RENEW_OK :: int where [simp]: "DHCP_CHECK_RENEW_OK = 2"
definition DHCP_CHECK_REBIND_FAIL :: int where [simp]: "DHCP_CHECK_REBIND_FAIL = 3"
definition DHCP_CHECK_REBIND_OK :: int where [simp]: "DHCP_CHECK_REBIND_OK = 4"

text \<open>The name of the host, WIZnet.\<close>

definition HOST_NAME :: "u8 list" where [simp]: "HOST_NAME = [0x57, 0x49, 0x5A, 0x6E, 0x65, 0x74]"

text \<open>The option codes.\<close>

definition padOption :: u8 where [simp]: "padOption = 0"
definition opt_subnetMask :: u8 where [simp]: "opt_subnetMask = 1"
definition routersOnSubnet :: u8 where [simp]: "routersOnSubnet = 3"
definition opt_dns :: u8 where [simp]: "opt_dns = 6"
definition hostName :: u8 where [simp]: "hostName = 12"
definition opt_domainName :: u8 where [simp]: "opt_domainName = 15"
definition dhcpRequestedIPaddr :: u8 where [simp]: "dhcpRequestedIPaddr = 50"
definition dhcpIPaddrLeaseTime :: u8 where [simp]: "dhcpIPaddrLeaseTime = 51"
definition dhcpMessageType :: u8 where [simp]: "dhcpMessageType = 53"
definition dhcpServerIdentifier :: u8 where [simp]: "dhcpServerIdentifier = 54"
definition dhcpParamRequest :: u8 where [simp]: "dhcpParamRequest = 55"
definition dhcpT1value :: u8 where [simp]: "dhcpT1value = 58"
definition dhcpT2value :: u8 where [simp]: "dhcpT2value = 59"
definition dhcpClientIdentifier :: u8 where [simp]: "dhcpClientIdentifier = 61"
definition endOption :: u8 where [simp]: "endOption = 255"

text \<open>The size of \<open>RIP_MSG_FIXED\<close>, and the fields that are used, by their place in it.\<close>

definition RIP_MSG_FIXED_size :: nat where [simp]: "RIP_MSG_FIXED_size = 34"
definition fixedMsg_op :: "u8 list \<Rightarrow> u8" where "fixedMsg_op m = m ! 0"
definition fixedMsg_xid :: "u8 list \<Rightarrow> u32" where "fixedMsg_xid m = get32 m 4"
definition fixedMsg_yiaddr :: "u8 list \<Rightarrow> u8 list" where "fixedMsg_yiaddr m = slice 16 4 m"
definition fixedMsg_chaddr :: "u8 list \<Rightarrow> u8 list" where "fixedMsg_chaddr m = slice 28 6 m"

definition htonl :: "u32 \<Rightarrow> u32" where
  "htonl x =
     push_bit 24 x AND 0xFF000000 OR push_bit 8 x AND 0x00FF0000 OR
     drop_bit 8 x AND 0x0000FF00 OR drop_bit 24 x AND 0x000000FF"

definition reset_DHCP_lease :: "dhcp \<Rightarrow> dhcp" where
  "reset_DHCP_lease d =
     d\<lparr>d_localIp := replicate 4 0, d_subnetMask := replicate 4 0, d_gatewayIp := replicate 4 0,
       d_serverIp := replicate 4 0, d_dnsServerIp := replicate 4 0\<rparr>"

section \<open>Sending a message\<close>

text \<open>Two hexadecimal digits of a byte, at \<open>off\<close> in a buffer.\<close>

function printLoop :: "u8 list \<Rightarrow> nat \<Rightarrow> u8 \<Rightarrow> u8 list" where
  "printLoop buf i n =
     (let m = n; n = n div 16; c = m - 16 * n;
          buf = buf[i := if c < 10 then c + 0x30 else c + 0x41 - 10]
      in if n \<noteq> 0 then printLoop buf (i - 1) n else buf)"
  by pat_completeness auto
termination
  by (relation "measure (\<lambda>(buf, i, n). unat n)") (auto simp: unat_div unat_gt_0 intro!: div_less_dividend)

declare printLoop.simps [simp del]

definition printByte :: "u8 list \<Rightarrow> nat \<Rightarrow> u8 \<Rightarrow> u8 list" where
  "printByte buf off n = printLoop (buf[off := 0x30]) (off + 1) n"

definition dhcp_write :: "'h ehw \<Rightarrow> u8 list \<Rightarrow> dhcp \<Rightarrow> 'h eth \<Rightarrow> (dhcp \<times> 'h eth) option" where
  "dhcp_write hw bs d e = do {
     (_, u, e) \<leftarrow> eudp_write hw bs (d_udp d) e;
     Some (d\<lparr>d_udp := u\<rparr>, e) }"

fun dhcp_writes :: "'h ehw \<Rightarrow> u8 list list \<Rightarrow> dhcp \<Rightarrow> 'h eth \<Rightarrow> (dhcp \<times> 'h eth) option" where
  "dhcp_writes hw [] d e = Some (d, e)"
| "dhcp_writes hw (bs # bss) d e = do { (d, e) \<leftarrow> dhcp_write hw bs d e; dhcp_writes hw bss d e }"

definition send_DHCP_MESSAGE :: "'h ehw \<Rightarrow> u8 \<Rightarrow> u16 \<Rightarrow> dhcp \<Rightarrow> 'h eth \<Rightarrow> (dhcp \<times> 'h eth) option" where
  "send_DHCP_MESSAGE hw messageType secondsElapsed d e =
     (let buffer = replicate 32 0;
          (r, u, e) = eudp_beginPacket hw [255, 255, 255, 255] DHCP_SERVER_PORT (d_udp d) e;
          d = d\<lparr>d_udp := u\<rparr>
      in if r = - 1 then Some (d, e)
      else do {
        let buffer = buffer[0 := DHCP_BOOTREQUEST, 1 := DHCP_HTYPE10MB, 2 := DHCP_HLENETHERNET, 3 := DHCP_HOPS];
        let buffer = splice buffer 4 (le32 (htonl (d_transactionId d)));
        let buffer = buffer[8 := ucast (drop_bit 8 (secondsElapsed AND 0xff00)),
                            9 := ucast (secondsElapsed AND 0x00ff)];
        let buffer = splice buffer 10 (le16 (htons DHCP_FLAGSBROADCAST));
        (d, e) \<leftarrow> dhcp_write hw (take 28 buffer) d e;
        let buffer = splice (replicate 32 0) 0 (d_macAddr d);
        (d, e) \<leftarrow> dhcp_write hw (take 16 buffer) d e;
        let buffer = replicate 32 0;
        (d, e) \<leftarrow> dhcp_writes hw (replicate 6 (take 32 buffer)) d e;
        let buffer = buffer[0 := ucast (drop_bit 24 MAGIC_COOKIE AND 0xFF),
                            1 := ucast (drop_bit 16 MAGIC_COOKIE AND 0xFF),
                            2 := ucast (drop_bit 8 MAGIC_COOKIE AND 0xFF),
                            3 := ucast (MAGIC_COOKIE AND 0xFF),
                            4 := dhcpMessageType, 5 := 0x01, 6 := messageType,
                            7 := dhcpClientIdentifier, 8 := 0x07, 9 := 0x01];
        let buffer = splice buffer 10 (d_macAddr d);
        let buffer = buffer[16 := hostName, 17 := of_nat (length HOST_NAME) + 6];
        let buffer = splice buffer 18 (HOST_NAME @ [0]);
        let buffer = printByte buffer 24 (d_macAddr d ! 3);
        let buffer = printByte buffer 26 (d_macAddr d ! 4);
        let buffer = printByte buffer 28 (d_macAddr d ! 5);
        (d, e) \<leftarrow> dhcp_write hw (take 30 buffer) d e;
        (buffer, d, e) \<leftarrow>
          (if messageType = DHCP_REQUEST then do {
             let buffer = buffer[0 := dhcpRequestedIPaddr, 1 := 0x04, 2 := d_localIp d ! 0,
                                 3 := d_localIp d ! 1, 4 := d_localIp d ! 2, 5 := d_localIp d ! 3,
                                 6 := dhcpServerIdentifier, 7 := 0x04, 8 := d_serverIp d ! 0,
                                 9 := d_serverIp d ! 1, 10 := d_serverIp d ! 2, 11 := d_serverIp d ! 3];
             (d, e) \<leftarrow> dhcp_write hw (take 12 buffer) d e;
             Some (buffer, d, e) }
           else Some (buffer, d, e));
        let buffer = buffer[0 := dhcpParamRequest, 1 := 0x06, 2 := opt_subnetMask, 3 := routersOnSubnet,
                            4 := opt_dns, 5 := opt_domainName, 6 := dhcpT1value, 7 := dhcpT2value,
                            8 := endOption];
        (d, e) \<leftarrow> dhcp_write hw (take 9 buffer) d e;
        (_, e) \<leftarrow> eudp_endPacket hw (d_udp d) e;
        Some (d, e) })"

section \<open>Reading a response\<close>

definition dhcp_read :: "'h ehw \<Rightarrow> dhcp \<Rightarrow> 'h eth \<Rightarrow> (int \<times> dhcp \<times> 'h eth) option" where
  "dhcp_read hw d e = do { (b, u, e) \<leftarrow> eudp_read hw (d_udp d) e; Some (b, d\<lparr>d_udp := u\<rparr>, e) }"

definition dhcp_skip :: "'h ehw \<Rightarrow> nat \<Rightarrow> dhcp \<Rightarrow> 'h eth \<Rightarrow> (dhcp \<times> 'h eth) option" where
  "dhcp_skip hw n d e = do { (u, e) \<leftarrow> skipReads hw n (d_udp d) e; Some (d\<lparr>d_udp := u\<rparr>, e) }"

text \<open>Reading into four bytes that hold \<open>old\<close>; what cannot be read is left.\<close>

definition dhcp_read4 :: "'h ehw \<Rightarrow> u8 list \<Rightarrow> dhcp \<Rightarrow> 'h eth \<Rightarrow> (u8 list \<times> dhcp \<times> 'h eth) option" where
  "dhcp_read4 hw old d e = do {
     (_, bs, u, e) \<leftarrow> eudp_readN hw 4 (d_udp d) e;
     Some (bs @ drop (length bs) old, d\<lparr>d_udp := u\<rparr>, e) }"

text \<open>One option: the message type known so far may change, and so may the object.\<close>

definition dhcp_option ::
  "'h ehw \<Rightarrow> int \<Rightarrow> u8 \<Rightarrow> dhcp \<Rightarrow> 'h eth \<Rightarrow> (u8 \<times> dhcp \<times> 'h eth) option" where
  "dhcp_option hw code type d e =
     (if code = uint endOption then Some (type, d, e)
      else if code = uint padOption then Some (type, d, e)
      else do {
        (b, d, e) \<leftarrow> dhcp_read hw d e;
        let opt_len = (word_of_int b :: u8);
        (if code = uint dhcpMessageType then do {
           (b, d, e) \<leftarrow> dhcp_read hw d e;
           Some (word_of_int b, d, e) }
         else if code = uint opt_subnetMask then do {
           (m, d, e) \<leftarrow> dhcp_read4 hw (d_subnetMask d) d e;
           Some (type, d\<lparr>d_subnetMask := m\<rparr>, e) }
         else if code = uint routersOnSubnet then do {
           (ip, d, e) \<leftarrow> dhcp_read4 hw (d_gatewayIp d) d e;
           (d, e) \<leftarrow> dhcp_skip hw (unat opt_len - 4) (d\<lparr>d_gatewayIp := ip\<rparr>) e;
           Some (type, d, e) }
         else if code = uint opt_dns then do {
           (ip, d, e) \<leftarrow> dhcp_read4 hw (d_dnsServerIp d) d e;
           (d, e) \<leftarrow> dhcp_skip hw (unat opt_len - 4) (d\<lparr>d_dnsServerIp := ip\<rparr>) e;
           Some (type, d, e) }
         else if code = uint dhcpServerIdentifier then
           if zero_ip (d_serverIp d) \<or> d_serverIp d = u_remoteIP (d_udp d) then do {
             (ip, d, e) \<leftarrow> dhcp_read4 hw (d_serverIp d) d e;
             Some (type, d\<lparr>d_serverIp := ip\<rparr>, e) }
           else do {
             (d, e) \<leftarrow> dhcp_skip hw (unat opt_len) d e;
             Some (type, d, e) }
         else if code = uint dhcpT1value then do {
           (v, d, e) \<leftarrow> dhcp_read4 hw (le32 (d_T1 d)) d e;
           Some (type, d\<lparr>d_T1 := htonl (get32 v 0)\<rparr>, e) }
         else if code = uint dhcpT2value then do {
           (v, d, e) \<leftarrow> dhcp_read4 hw (le32 (d_T2 d)) d e;
           Some (type, d\<lparr>d_T2 := htonl (get32 v 0)\<rparr>, e) }
         else if code = uint dhcpIPaddrLeaseTime then do {
           (v, d, e) \<leftarrow> dhcp_read4 hw (le32 (d_leaseTime d)) d e;
           let lease = htonl (get32 v 0);
           Some (type, d\<lparr>d_leaseTime := lease, d_renewInSec := lease\<rparr>, e) }
         else do {
           (d, e) \<leftarrow> dhcp_skip hw (unat opt_len) d e;
           Some (type, d, e) }) })"

text \<open>The loop over the options; the end option does not end it.\<close>

partial_function (option) optionLoop ::
  "'h ehw \<Rightarrow> u8 \<Rightarrow> dhcp \<Rightarrow> 'h eth \<Rightarrow> (u8 \<times> dhcp \<times> 'h eth) option" where
  "optionLoop hw type d e =
     (if eudp_available (d_udp d) > 0
      then Option.bind (dhcp_read hw d e) (\<lambda>(code, d, e).
             Option.bind (dhcp_option hw code type d e) (\<lambda>(type, d, e). optionLoop hw type d e))
      else Some (type, d, e))"

text \<open>
  The type of the message, 255 when none came, and the transaction it belongs to (which is
  used only with a message type, and then it has been set).
\<close>

definition parseDHCPResponse ::
  "'h ehw \<Rightarrow> u32 \<Rightarrow> dhcp \<Rightarrow> 'h eth \<Rightarrow> (u8 \<times> u32 \<times> dhcp \<times> 'h eth) option" where
  "parseDHCPResponse hw responseTimeout d e = do {
     let (startTime, e) = frombus (e_millis hw) e;
     (came, u, e) \<leftarrow> awaitPacket hw responseTimeout startTime (d_udp d) e;
     let d = d\<lparr>d_udp := u\<rparr>;
     if \<not> came then Some (255, 0, d, e)
     else do {
       (_, fixedMsg, u, e) \<leftarrow> eudp_readN hw (of_nat RIP_MSG_FIXED_size) (d_udp d) e;
       let d = d\<lparr>d_udp := u\<rparr>;
       if length fixedMsg < RIP_MSG_FIXED_size then None
       else if fixedMsg_op fixedMsg = DHCP_BOOTREPLY \<and> u_remotePort (d_udp d) = DHCP_SERVER_PORT
       then do {
         let transactionId = htonl (fixedMsg_xid fixedMsg);
         if fixedMsg_chaddr fixedMsg \<noteq> d_macAddr d \<or> transactionId < d_initialTransactionId d \<or>
            transactionId > d_transactionId d
         then do {
           (u, e) \<leftarrow> eudp_flush hw (d_udp d) e;
           Some (0, transactionId, d\<lparr>d_udp := u\<rparr>, e) }
         else do {
           let d = d\<lparr>d_localIp := fixedMsg_yiaddr fixedMsg\<rparr>;
           (d, e) \<leftarrow> dhcp_skip hw (240 - RIP_MSG_FIXED_size) d e;
           (type, d, e) \<leftarrow> optionLoop hw 0 d e;
           (u, e) \<leftarrow> eudp_flush hw (d_udp d) e;
           Some (type, transactionId, d\<lparr>d_udp := u\<rparr>, e) } }
       else do {
         (u, e) \<leftarrow> eudp_flush hw (d_udp d) e;
         Some (0, 0, d\<lparr>d_udp := u\<rparr>, e) } } }"

section \<open>Getting a lease\<close>

definition elapsedSec :: "'h ehw \<Rightarrow> u32 \<Rightarrow> 'h eth \<Rightarrow> u16 \<times> 'h eth" where
  "elapsedSec hw startTime e =
     (case frombus (e_millis hw) e of (now, e) \<Rightarrow> (ucast ((now - startTime) div 1000), e))"

definition dhcp_leased :: "dhcp \<Rightarrow> dhcp" where
  "dhcp_leased d =
     (let d = d\<lparr>d_state := STATE_DHCP_LEASED\<rparr>;
          d = (if d_leaseTime d = 0 then d\<lparr>d_leaseTime := DEFAULT_LEASE\<rparr> else d);
          d = (if d_T1 d = 0 then d\<lparr>d_T1 := drop_bit 1 (d_leaseTime d)\<rparr> else d);
          d = (if d_T2 d = 0 then d\<lparr>d_T2 := push_bit 1 (d_T1 d)\<rparr> else d)
      in d\<lparr>d_renewInSec := d_T1 d, d_rebindInSec := d_T2 d\<rparr>)"

text \<open>
  One round of the loop of \<open>request_DHCP_lease\<close>, up to the test of the time: the message type
  and the result, which the loop keeps from round to round.
\<close>

definition lease_step ::
  "'h ehw \<Rightarrow> u32 \<Rightarrow> u8 \<Rightarrow> int \<Rightarrow> dhcp \<Rightarrow> 'h eth \<Rightarrow> (u8 \<times> int \<times> dhcp \<times> 'h eth) option" where
  "lease_step hw startTime messageType result d e = do {
     (messageType, result, d, e) \<leftarrow>
       (case d_state d of
          STATE_DHCP_START \<Rightarrow> do {
            let d = d\<lparr>d_transactionId := d_transactionId d + 1\<rparr>;
            let (sec, e) = elapsedSec hw startTime e;
            (d, e) \<leftarrow> send_DHCP_MESSAGE hw DHCP_DISCOVER sec d e;
            Some (messageType, result, d\<lparr>d_state := STATE_DHCP_DISCOVER\<rparr>, e) }
        | STATE_DHCP_REREQUEST \<Rightarrow> do {
            let d = d\<lparr>d_transactionId := d_transactionId d + 1\<rparr>;
            let (sec, e) = elapsedSec hw startTime e;
            (d, e) \<leftarrow> send_DHCP_MESSAGE hw DHCP_REQUEST sec d e;
            Some (messageType, result, d\<lparr>d_state := STATE_DHCP_REQUEST\<rparr>, e) }
        | STATE_DHCP_DISCOVER \<Rightarrow> do {
            (messageType, respId, d, e) \<leftarrow> parseDHCPResponse hw (d_responseTimeout d) d e;
            (if messageType = DHCP_OFFER then do {
               let d = d\<lparr>d_transactionId := respId\<rparr>;
               let (sec, e) = elapsedSec hw startTime e;
               (d, e) \<leftarrow> send_DHCP_MESSAGE hw DHCP_REQUEST sec d e;
               Some (messageType, result, d\<lparr>d_state := STATE_DHCP_REQUEST\<rparr>, e) }
             else Some (messageType, result, d, e)) }
        | STATE_DHCP_REQUEST \<Rightarrow> do {
            (messageType, respId, d, e) \<leftarrow> parseDHCPResponse hw (d_responseTimeout d) d e;
            (if messageType = DHCP_ACK then Some (messageType, 1, dhcp_leased d, e)
             else if messageType = DHCP_NAK then Some (messageType, result, d\<lparr>d_state := STATE_DHCP_START\<rparr>, e)
             else Some (messageType, result, d, e)) }
        | _ \<Rightarrow> Some (messageType, result, d, e));
     (if messageType = 255 then Some (0, result, d\<lparr>d_state := STATE_DHCP_START\<rparr>, e)
      else Some (messageType, result, d, e)) }"

partial_function (option) leaseLoop ::
  "'h ehw \<Rightarrow> u32 \<Rightarrow> u8 \<Rightarrow> int \<Rightarrow> dhcp \<Rightarrow> 'h eth \<Rightarrow> (int \<times> dhcp \<times> 'h eth) option" where
  "leaseLoop hw startTime messageType result d e =
     (if d_state d \<noteq> STATE_DHCP_LEASED
      then Option.bind (lease_step hw startTime messageType result d e) (\<lambda>(messageType, result, d, e).
             if result \<noteq> 1 then
               case frombus (e_millis hw) e of (now, e) \<Rightarrow>
                 if now - startTime > d_timeout d then Some (result, d, e)
                 else leaseLoop hw startTime messageType result d e
             else leaseLoop hw startTime messageType result d e)
      else Some (result, d, e))"

definition presend_DHCP :: "dhcp \<Rightarrow> dhcp" where
  "presend_DHCP d = d"

definition request_DHCP_lease :: "'h ehw \<Rightarrow> dhcp \<Rightarrow> 'h eth \<Rightarrow> (int \<times> dhcp \<times> 'h eth) option" where
  "request_DHCP_lease hw d e = do {
     let (xid, e) = frombus (e_random hw 1 2000) e;
     let d = d\<lparr>d_transactionId := xid\<rparr>;
     let d = d\<lparr>d_initialTransactionId := d_transactionId d\<rparr>;
     (u, e) \<leftarrow> eudp_stop hw (d_udp d) e;
     (ok, u, e) \<leftarrow> eudp_begin hw DHCP_CLIENT_PORT u e;
     let d = d\<lparr>d_udp := u\<rparr>;
     (if ok = 0 then Some (0, d, e)
      else do {
        let d = presend_DHCP d;
        let (startTime, e) = frombus (e_millis hw) e;
        (result, d, e) \<leftarrow> leaseLoop hw startTime 0 0 d e;
        (u, e) \<leftarrow> eudp_stop hw (d_udp d) e;
        let d = d\<lparr>d_udp := u\<rparr>;
        Some (result, d\<lparr>d_transactionId := d_transactionId d + 1\<rparr>, e) }) }"

definition beginWithDHCP ::
  "'h ehw \<Rightarrow> u8 list \<Rightarrow> u32 \<Rightarrow> u32 \<Rightarrow> dhcp \<Rightarrow> 'h eth \<Rightarrow> (int \<times> dhcp \<times> 'h eth) option" where
  "beginWithDHCP hw mac timeout responseTimeout d e =
     (let d = d\<lparr>d_leaseTime := 0, d_T1 := 0, d_T2 := 0, d_lastCheck := 0, d_timeout := timeout,
                d_responseTimeout := responseTimeout, d_macAddr := replicate 6 0\<rparr>;
          d = reset_DHCP_lease d;
          d = d\<lparr>d_macAddr := take 6 mac, d_state := STATE_DHCP_START\<rparr>
      in request_DHCP_lease hw d e)"

section \<open>Keeping the lease\<close>

definition countdown :: "u32 \<Rightarrow> u32 \<Rightarrow> u32" where
  "countdown sec factor = (if sint sec < sint (factor * 2) then 0 else sec - factor)"

text \<open>The counters after the time that has passed.\<close>

definition lease_timers :: "u32 \<Rightarrow> dhcp \<Rightarrow> dhcp" where
  "lease_timers now d =
     (let factor = now - d_secTimeout d in
      if sint factor \<ge> 0 then
        let d = d\<lparr>d_secTimeout := now + 1000 - factor mod 1000\<rparr>;
            factor = factor div 1000 + 1
        in d\<lparr>d_renewInSec := countdown (d_renewInSec d) factor,
             d_rebindInSec := countdown (d_rebindInSec d) factor\<rparr>
      else d)"

definition checkLease :: "'h ehw \<Rightarrow> dhcp \<Rightarrow> 'h eth \<Rightarrow> (int \<times> dhcp \<times> 'h eth) option" where
  "checkLease hw d e = do {
     let (now, e) = frombus (e_millis hw) e;
     let rc = DHCP_CHECK_NONE;
     (rc, d, e) \<leftarrow>
       (if d_lastCheck d \<noteq> 0 then do {
          let d = lease_timers now d;
          (rc, d, e) \<leftarrow>
            (if d_state d = STATE_DHCP_LEASED \<and> sint (d_renewInSec d) \<le> 0 then do {
               (r, d, e) \<leftarrow> request_DHCP_lease hw (d\<lparr>d_state := STATE_DHCP_REREQUEST\<rparr>) e;
               Some (1 + r, d, e) }
             else Some (rc, d, e));
          (if (d_state d = STATE_DHCP_LEASED \<or> d_state d = STATE_DHCP_START) \<and> sint (d_rebindInSec d) \<le> 0
           then do {
             let d = reset_DHCP_lease (d\<lparr>d_state := STATE_DHCP_START\<rparr>);
             (r, d, e) \<leftarrow> request_DHCP_lease hw d e;
             Some (3 + r, d, e) }
           else Some (rc, d, e)) }
        else Some (rc, d\<lparr>d_secTimeout := now + 1000\<rparr>, e));
     Some (rc, d\<lparr>d_lastCheck := now\<rparr>, e) }"

definition dhcp_getLocalIp :: "dhcp \<Rightarrow> u8 list" where "dhcp_getLocalIp d = d_localIp d"
definition dhcp_getSubnetMask :: "dhcp \<Rightarrow> u8 list" where "dhcp_getSubnetMask d = d_subnetMask d"
definition dhcp_getGatewayIp :: "dhcp \<Rightarrow> u8 list" where "dhcp_getGatewayIp d = d_gatewayIp d"
definition dhcp_getDhcpServerIp :: "dhcp \<Rightarrow> u8 list" where "dhcp_getDhcpServerIp d = d_serverIp d"
definition dhcp_getDnsServerIp :: "dhcp \<Rightarrow> u8 list" where "dhcp_getDnsServerIp d = d_dnsServerIp d"

section \<open>The class Ethernet\<close>

text \<open>
  The DHCP client the class uses, if any.  Starting with DHCP uses the same static object
  every time, which is the second part of the state.
\<close>

record 'h ethernet =
  en_uses_dhcp :: bool
  en_s_dhcp :: dhcp
  en_eth :: "'h eth"

definition set_network :: "'h ehw \<Rightarrow> dhcp \<Rightarrow> 'h eth \<Rightarrow> 'h eth" where
  "set_network hw d e =
     (let e = beginT hw e;
          e = onbus (setIPAddress hw (dhcp_getLocalIp d)) e;
          e = onbus (setGatewayIp hw (dhcp_getGatewayIp d)) e;
          e = onbus (setSubnetMask hw (dhcp_getSubnetMask d)) e;
          e = endT hw e
      in e\<lparr>dnsServerAddress := dhcp_getDnsServerIp d\<rparr>)"

definition ethernet_begin :: "'h ehw \<Rightarrow> u8 list \<Rightarrow> 'h ethernet \<Rightarrow> (int \<times> 'h ethernet) option" where
  "ethernet_begin hw mac n = do {
     let e = beginT hw (w5100_init hw (en_eth n));
     let e = onbus (setMACAddress hw mac) e;
     let e = endT hw (onbus (setIPAddress hw [0, 0, 0, 0]) e);
     (ret, d, e) \<leftarrow> beginWithDHCP hw mac 60000 4000 (en_s_dhcp n) e;
     let e = (if ret = 1 then set_network hw d e else e);
     Some (ret, \<lparr>en_uses_dhcp = True, en_s_dhcp = d, en_eth = e\<rparr>) }"

definition ethernet_begin5 ::
  "'h ehw \<Rightarrow> u8 list \<Rightarrow> u8 list \<Rightarrow> u8 list \<Rightarrow> u8 list \<Rightarrow> u8 list \<Rightarrow> 'h ethernet \<Rightarrow> 'h ethernet" where
  "ethernet_begin5 hw mac local_ip dns_server gateway subnet n =
     (let e = beginT hw (w5100_init hw (en_eth n));
          e = onbus (setMACAddress hw mac) e;
          e = onbus (setIPAddress hw local_ip) e;
          e = onbus (setGatewayIp hw gateway) e;
          e = onbus (setSubnetMask hw subnet) e;
          e = endT hw e
      in n\<lparr>en_eth := e\<lparr>dnsServerAddress := dns_server\<rparr>\<rparr>)"

definition ethernet_begin4 where
  "ethernet_begin4 hw mac local_ip dns_server gateway n =
     ethernet_begin5 hw mac local_ip dns_server gateway [255, 255, 255, 0] n"

definition ethernet_begin3 where
  "ethernet_begin3 hw mac local_ip dns_server n =
     ethernet_begin4 hw mac local_ip dns_server (local_ip[3 := 1]) n"

definition ethernet_begin2 where
  "ethernet_begin2 hw mac local_ip n = ethernet_begin3 hw mac local_ip (local_ip[3 := 1]) n"

definition ethernet_maintain :: "'h ehw \<Rightarrow> 'h ethernet \<Rightarrow> (int \<times> 'h ethernet) option" where
  "ethernet_maintain hw n =
     (if en_uses_dhcp n then do {
        (rc, d, e) \<leftarrow> checkLease hw (en_s_dhcp n) (en_eth n);
        let e = (if rc = DHCP_CHECK_RENEW_OK \<or> rc = DHCP_CHECK_REBIND_OK then set_network hw d e else e);
        Some (rc, n\<lparr>en_s_dhcp := d, en_eth := e\<rparr>) }
      else Some (DHCP_CHECK_NONE, n))"

definition localIP :: "'h ehw \<Rightarrow> 'h eth \<Rightarrow> u8 list \<times> 'h eth" where
  "localIP hw e = (case frombus (getIPAddress hw) (beginT hw e) of (ip, e) \<Rightarrow> (ip, endT hw e))"

definition subnetMask :: "'h ehw \<Rightarrow> 'h eth \<Rightarrow> u8 list \<times> 'h eth" where
  "subnetMask hw e = (case frombus (getSubnetMask hw) (beginT hw e) of (ip, e) \<Rightarrow> (ip, endT hw e))"

definition gatewayIP :: "'h ehw \<Rightarrow> 'h eth \<Rightarrow> u8 list \<times> 'h eth" where
  "gatewayIP hw e = (case frombus (getGatewayIp hw) (beginT hw e) of (ip, e) \<Rightarrow> (ip, endT hw e))"

definition dnsServerIP :: "'h eth \<Rightarrow> u8 list" where
  "dnsServerIP e = dnsServerAddress e"

end
