(* ===== verification/DnsClientProps.thy ===== *)
theory DnsClientProps
  imports DnsClient EthStream EthSim
begin

text \<open>
  What the resolver of \<open>DnsClient\<close> does: which strings it takes for addresses, the request it
  writes, the answer it finds in a response, and how often it waits for one.
\<close>

section \<open>Numeric addresses\<close>

lemma digit_char:
  assumes "k < 10"
  shows "uint (0x30 + of_nat k :: u8) - 0x30 = int k" and "(0x30 + of_nat k :: u8) \<noteq> 0x2E"
proof -
  have "unat (of_nat k :: u8) = k" using assms by (intro unat_of_nat_small) simp
  then have u: "unat (0x30 + of_nat k :: u8) = 48 + k" using assms by (subst unat_add_small) simp_all
  have "uint (0x30 + of_nat k :: u8) = int (unat (0x30 + of_nat k :: u8))" by simp
  then show "uint (0x30 + of_nat k :: u8) - 0x30 = int k" unfolding u by simp
  show "(0x30 + of_nat k :: u8) \<noteq> 0x2E"
  proof
    assume "(0x30 + of_nat k :: u8) = 0x2E"
    then have "unat (0x30 + of_nat k :: u8) = unat (0x2E :: u8)" by (rule arg_cong)
    then show False unfolding u by simp
  qed
qed

lemma atonLoop_digit:
  assumes "k < 10" and "seg < 4" and "0 \<le> v" "v < 100000000"
  shows "atonLoop ((0x30 + of_nat k) # cs) seg v res = atonLoop cs seg (v * 10 + int k) res"
  using assms digit_char [OF assms(1)] by (simp add: Let_def int_range_def)

lemma atonLoop_decimal:
  "n < 1000 \<Longrightarrow> seg < 4 \<Longrightarrow> atonLoop (decimal n @ cs) seg 0 res = atonLoop cs seg (int n) res"
proof (induction n arbitrary: cs rule: decimal.induct)
  case (1 n)
  show ?case
  proof (cases "n < 10")
    case True
    have "atonLoop ((0x30 + of_nat n) # cs) seg 0 res = atonLoop cs seg (0 * 10 + int n) res"
      by (rule atonLoop_digit) (use True 1 in simp_all)
    then show ?thesis using True by (simp add: decimal.simps [of n] del: atonLoop.simps)
  next
    case False
    have "atonLoop (decimal n @ cs) seg 0 res =
        atonLoop (decimal (n div 10) @ (0x30 + of_nat (n mod 10)) # cs) seg 0 res"
      using False by (simp add: decimal.simps [of n] del: atonLoop.simps)
    also have "\<dots> = atonLoop ((0x30 + of_nat (n mod 10)) # cs) seg (int (n div 10)) res"
      using 1 False by simp
    also have "\<dots> = atonLoop cs seg (int (n div 10) * 10 + int (n mod 10)) res"
      by (rule atonLoop_digit) (use 1 in simp_all)
    also have "int (n div 10) * 10 + int (n mod 10) = int n"
      by (metis div_mult_mod_eq of_nat_add of_nat_mult of_nat_numeral)
    finally show ?thesis .
  qed
qed

lemma chars_accepted: "dropWhile (\<lambda>c. c = 0x2E \<or> c \<ge> 0x30 \<or> c \<le> (0x39 :: u8)) s = []"
  by (auto simp: dropWhile_eq_Nil_conv word_le_nat_alt)

lemma word_of_int_byte: "word_of_int (int (unat (b :: u8))) = b"
  by simp

text \<open>
  \<open>inet_aton\<close> reads back the address that a dotted decimal string denotes: writing any four
  bytes in decimal, with dots between them, and parsing the result gives 1 and these bytes.
\<close>

theorem inet_aton_dotted:
  assumes "length ip = 4" and "length res = 4"
  shows "inet_aton (dotted_quad ip) res = Some (1, ip)"
proof -
  obtain a b c d where ip: "ip = [a, b, c, d]" using assms(1) by (auto simp: length_Suc_conv numeral_eq_Suc)
  obtain r0 r1 r2 r3 where res: "res = [r0, r1, r2, r3]" using assms(2) by (auto simp: length_Suc_conv numeral_eq_Suc)
  have b: "unat x < 1000" "\<not> int (unat x) > 255" for x :: u8 using unat_bound(3) [of x] by linarith+
  have dot: "seg < 4 \<Longrightarrow> atonLoop (0x2E # cs) seg (int (unat x)) r =
      atonLoop cs (seg + 1) 0 (r[seg := x])" for cs seg r and x :: u8
    using b(2) [of x] by simp
  have last: "atonLoop (decimal (unat d)) 3 0 r = Some (True, 3, int (unat d), r)" for r
    using atonLoop_decimal [OF b(1), of 3 d "[]" r] by simp
  have "atonLoop (dotted_quad ip) 0 0 res = Some (True, 3, int (unat d), [a, b, c, r3])"
    by (simp only: dotted_quad_def ip res append_assoc append_Cons append_Nil list.map nth_Cons_0
        atonLoop_decimal [OF b(1)] zero_less_numeral dot)
      (simp add: atonLoop_decimal b numeral_2_eq_2 last [unfolded numeral_3_eq_3] numeral_3_eq_3 del: atonLoop.simps)
  then show ?thesis using b(2) [of d] by (simp add: inet_aton_def chars_accepted ip)
qed

theorem inet_aton_dotted_witness: "inet_aton (dotted_quad [192, 168, 1, 177]) [0, 0, 0, 0] = Some (1, [192, 168, 1, 177])"
  by (rule inet_aton_dotted) simp_all

text \<open>
  The test of the characters accepts every string, so that a name whose labels are single
  letters is taken for an address, and no server is asked.
\<close>

lemma inet_aton_name: "inet_aton [0x61] [0, 0, 0, 0] = Some (1, [49, 0, 0, 0])"
  by code_simp

section \<open>The request\<close>

fun dnsc_writes :: "'h ehw \<Rightarrow> u8 list list \<Rightarrow> dnsc \<Rightarrow> 'h eth \<Rightarrow> (dnsc \<times> 'h eth) option" where
  "dnsc_writes hw [] d e = Some (d, e)"
| "dnsc_writes hw (bs # bss) d e = do { (d, e) \<leftarrow> dnsc_write hw bs d e; dnsc_writes hw bss d e }"

lemma dnsc_writes_append:
  "dnsc_writes hw (as @ bs) d e = do { (d, e) \<leftarrow> dnsc_writes hw as d e; dnsc_writes hw bs d e }"
  by (induction as arbitrary: d e) (auto split: Option.bind_split)

text \<open>The labels of a name: the parts between the dots that are not empty.\<close>

fun split_dots :: "u8 list \<Rightarrow> u8 list list" where
  "split_dots [] = [[]]"
| "split_dots (c # cs) =
     (if c = 0x2E then [] # split_dots cs
      else (c # hd (split_dots cs)) # tl (split_dots cs))"

definition name_labels :: "u8 list \<Rightarrow> u8 list list" where
  "name_labels name = filter (\<lambda>l. l \<noteq> []) (split_dots name)"

text \<open>A standard query with recursion, for the address of a name.\<close>

definition dns_request :: "u16 \<Rightarrow> u8 list \<Rightarrow> u8 list" where
  "dns_request rid name =
     [ucast rid, ucast (drop_bit 8 rid), 1, 0, 0, 1, 0, 0, 0, 0, 0, 0] @
     concat (map (\<lambda>l. of_nat (length l) # l) (name_labels name)) @ [0, 0, 1, 0, 1]"

lemma split_dots_step:
  "split_dots s =
     (case drop (length (takeWhile (\<lambda>c. c \<noteq> 0x2E) s)) s of
        [] \<Rightarrow> [takeWhile (\<lambda>c. c \<noteq> 0x2E) s]
      | _ # r \<Rightarrow> takeWhile (\<lambda>c. c \<noteq> 0x2E) s # split_dots r)"
  by (induction s) (auto split: list.splits)

lemma labelLoop_writes:
  "labelLoop hw start d e =
     dnsc_writes hw (concat (map (\<lambda>l. [[of_nat (length l)], l]) (name_labels start))) d e"
proof (induction "length start" arbitrary: start d e rule: less_induct)
  case less
  let ?l = "takeWhile (\<lambda>c. c \<noteq> 0x2E) start"
  show ?case
  proof (cases "drop (length ?l) start")
    case Nil
    then have "split_dots start = [?l]" by (subst split_dots_step) simp
    then show ?thesis
      using Nil by (subst labelLoop.simps) (auto simp: Let_def name_labels_def split: Option.bind_split)
  next
    case (Cons c r)
    then have "length (drop (length ?l) start) = Suc (length r)" by (simp only: length_Cons)
    then have "length r < length start" unfolding length_drop by linarith
    note IH = less [OF this]
    have "split_dots start = ?l # split_dots r" by (subst split_dots_step) (simp add: Cons)
    then show ?thesis
      using Cons by (subst labelLoop.simps) (auto simp: Let_def name_labels_def IH split: Option.bind_split)
  qed
qed

text \<open>
  C27. \<open>BuildRequest\<close> hands to the datagram, piece by piece, exactly the bytes of a standard query
  with one question, whose labels are the non-empty parts of the name between its dots.
\<close>

theorem build_request_bytes:
  "\<exists>chunks. concat chunks = dns_request (ucast (fst (e_millis hw (bus e)))) name \<and>
     BuildRequest hw name d e =
       map_option (\<lambda>(d, e). (1, d, e))
         (dnsc_writes hw chunks (d\<lparr>iRequestId := ucast (fst (e_millis hw (bus e)))\<rparr>)
            (e\<lparr>bus := snd (e_millis hw (bus e))\<rparr>))"
proof -
  obtain now h where now: "e_millis hw (bus e) = (now, h)" by fastforce
  let ?id = "ucast now :: u16"
  define labels where "labels = concat (map (\<lambda>l. [[of_nat (length l)], l]) (name_labels name))"
  define chunks where "chunks = [le16 ?id, le16 (htons 0x100), le16 (htons 1), le16 0, le16 0, le16 0] @
    labels @ [[0], le16 (htons 1), le16 (htons 1)]"
  have net: "le16 (htons 0x100) = [1, 0]" "le16 (htons 1) = [0, 1]" "le16 0 = [0, 0]"
    by code_simp+
  have "concat (concat (map (\<lambda>l. [[of_nat (length l)], l]) ls)) =
      concat (map (\<lambda>l. of_nat (length l) # l) ls)" for ls :: "u8 list list" by (induction ls) simp_all
  then have "concat labels = concat (map (\<lambda>l. of_nat (length l) # l) (name_labels name))"
    unfolding labels_def .
  then have "concat chunks = dns_request ?id name"
    by (simp add: chunks_def dns_request_def net) (simp add: le16_def)
  moreover have "labelLoop hw name d e = dnsc_writes hw labels d e" for d e
    by (simp add: labelLoop_writes labels_def)
  then have body: "(if name \<noteq> [] then labelLoop hw name d e else Some (d, e)) = dnsc_writes hw labels d e" for d e
    by (auto simp: labels_def name_labels_def)
  have "BuildRequest hw name d e =
      map_option (\<lambda>(d, e). (1, d, e)) (dnsc_writes hw chunks (d\<lparr>iRequestId := ?id\<rparr>) (e\<lparr>bus := h\<rparr>))"
    by (simp add: BuildRequest_def frombus_def now Let_def chunks_def dnsc_writes_append body net
        map_option_bind split_beta o_def split: Option.bind_split)
  ultimately show ?thesis by (intro exI [of _ chunks]) (simp add: now)
qed

section \<open>Waiting for the response\<close>

text \<open>
  The response is awaited once, whatever \<open>ProcessResponse\<close> returns: its codes arrive as
  numbers from 0 to 65535, so that none of them is \<open>TIMED_OUT\<close>, and the three tries that the
  loop is written for never happen.
\<close>

theorem response_awaited_once:
  "dnsResponseLoop hw 3 TIMED_OUT addr d e =
     map_option (\<lambda>(r, addr, d, e). (uint r, addr, d, e)) (ProcessResponse hw 5000 addr d e)"
proof -
  have code: "uint r \<noteq> - 1" for r :: u16 using uint_ge_0 [of r] by linarith
  have once: "dnsResponseLoop hw n (uint r) addr d e = Some (uint r, addr, d, e)" for n addr d e and r :: u16
    by (cases n) (simp_all add: code)
  have "dnsResponseLoop hw 3 TIMED_OUT addr d e =
      Option.bind (ProcessResponse hw 5000 addr d e) (\<lambda>(r, addr, d, e). dnsResponseLoop hw 2 (uint r) addr d e)"
    unfolding numeral_3_eq_3 numeral_2_eq_2 by (subst dnsResponseLoop.simps) (simp only: refl if_True)
  then show ?thesis
    by (cases "ProcessResponse hw 5000 addr d e") (auto simp: once simp del: dnsResponseLoop.simps)
qed

section \<open>Reading a response\<close>

text \<open>A name in a message: labels, closed by a zero or by a pointer to the rest of the name.\<close>

definition dns_name :: "u8 list list \<Rightarrow> (u8 \<times> u8) option \<Rightarrow> u8 list" where
  "dns_name labels ptr =
     concat (map (\<lambda>l. of_nat (length l) # l) labels) @
     (case ptr of None \<Rightarrow> [0] | Some (p, q) \<Rightarrow> [p, q])"

definition name_ok :: "u8 list list \<Rightarrow> (u8 \<times> u8) option \<Rightarrow> bool" where
  "name_ok labels ptr \<longleftrightarrow>
     (\<forall>l \<in> set labels. 0 < length l \<and> length l < 64) \<and>
     (case ptr of None \<Rightarrow> True | Some (p, q) \<Rightarrow> p AND LABEL_COMPRESSION_MASK \<noteq> 0)"

definition be_bytes :: "u16 \<Rightarrow> u8 list" where
  "be_bytes v = [ucast (drop_bit 8 v), ucast v]"

record dns_rr =
  rr_labels :: "u8 list list"
  rr_ptr :: "(u8 \<times> u8) option"
  rr_type :: u16
  rr_class :: u16
  rr_ttl :: "u8 list"
  rr_data :: "u8 list"

definition rr_bytes :: "dns_rr \<Rightarrow> u8 list" where
  "rr_bytes r =
     dns_name (rr_labels r) (rr_ptr r) @ be_bytes (rr_type r) @ be_bytes (rr_class r) @ rr_ttl r @
     be_bytes (of_nat (length (rr_data r))) @ rr_data r"

definition rr_ok :: "dns_rr \<Rightarrow> bool" where
  "rr_ok r \<longleftrightarrow> name_ok (rr_labels r) (rr_ptr r) \<and> length (rr_ttl r) = 4 \<and> length (rr_data r) < 65536"

definition is_address :: "dns_rr \<Rightarrow> bool" where
  "is_address r \<longleftrightarrow> rr_type r = TYPE_A \<and> rr_class r = CLASS_IN"

definition question_bytes :: "u8 list list \<times> u8 list \<Rightarrow> u8 list" where
  "question_bytes q = dns_name (fst q) None @ snd q"

definition question_ok :: "u8 list list \<times> u8 list \<Rightarrow> bool" where
  "question_ok q \<longleftrightarrow> name_ok (fst q) None \<and> length (snd q) = 4"

definition dns_message ::
  "u16 \<Rightarrow> u16 \<Rightarrow> (u8 list list \<times> u8 list) list \<Rightarrow> dns_rr list \<Rightarrow> u8 list \<Rightarrow> u8 list" where
  "dns_message rid flags qs answers tail =
     le16 rid @ be_bytes flags @ be_bytes (of_nat (length qs)) @ be_bytes (of_nat (length answers)) @
     [0, 0, 0, 0] @ concat (map question_bytes qs) @ concat (map rr_bytes answers) @ tail"

lemma ucast16_byte: "ucast (ucast (v :: u16) :: u8) = v AND (0xFF :: u16)"
proof -
  have "v AND 0xFF = take_bit 8 v" by (simp add: take_bit_eq_mask mask_eq_exp_minus_1)
  then show ?thesis by (simp add: word_unat_eq_iff unat_ucast_up unat_ucast_mod unat_take_bit_mod)
qed

lemma get_le16_le16: "get_le16 (le16 v) = v"
  using join16_split [of v] by (simp add: get_le16_def le16_def)

lemma net16: "htons (get_le16 (hi # lo # bs)) = be16 hi lo"
proof -
  have m: "(0xFF00 :: u16) = push_bit 8 (mask 8)" "(0x00FF :: u16) = mask 8"
    by (simp_all add: mask_eq_exp_minus_1)
  have "be16 hi lo = push_bit 8 (ucast hi) OR ucast lo"
    unfolding be16_def by (rule disjunctive_add) (auto simp: bit_simps dest: bit_imp_le_length)
  moreover have "htons (get_le16 (hi # lo # bs)) = push_bit 8 (ucast hi) OR ucast lo"
    unfolding htons_def get_le16_def m
    by (rule bit_word_eqI) (auto simp: bit_simps dest: bit_imp_le_length)
  ultimately show ?thesis by simp
qed

lemma net16_bytes: "htons (get_le16 (be_bytes v @ bs)) = v"
  by (simp add: be_bytes_def net16 be16_bytes)

context rxstream
begin

lemma skip_reads:
  assumes "udp_at ok inq u (as @ bs) rest e"
  shows "\<exists>e'. skipReads hw (length as) u e = Some (advance (length as) u, e') \<and>
    udp_at ok inq (advance (length as) u) bs rest e'"
  using assms
proof (induction as arbitrary: u e)
  case (Cons a as)
  obtain e1 where e1: "eudp_read hw u e = Some (uint a, advance 1 u, e1)"
      "udp_at ok inq (advance 1 u) (as @ bs) rest e1"
    using read_byte [of u a "as @ bs"] Cons.prems by auto
  show ?case using Cons.IH [OF e1(2)] e1(1) by auto
qed auto

lemma read_len:
  assumes "udp_at ok inq u (l # bs) rest e"
  shows "\<exists>e'. readLen hw len u e = Some (l, advance 1 u, e') \<and> udp_at ok inq (advance 1 u) bs rest e'"
  using read_some [OF assms, of 1] by (auto simp: readLen_def min_def)

lemma len_byte:
  assumes "0 < length (l :: u8 list)" and "length l < 64"
  shows "unat (of_nat (length l) :: u8) = length l" and "(of_nat (length l) :: u8) > 0"
    and "(of_nat (length l) :: u8) AND LABEL_COMPRESSION_MASK = 0"
proof -
  show u: "unat (of_nat (length l) :: u8) = length l" using assms(2) by (intro unat_of_nat_small) simp
  show "(of_nat (length l) :: u8) > 0" using u assms(1) by (simp add: word_less_nat_alt)
  have m: "(0xC0 :: u8) = push_bit 6 (mask 2)" by (simp add: mask_eq_exp_minus_1)
  have "\<not> bit (of_nat (length l) :: u8) k" if "6 \<le> k" for k
    using bit_small [of "of_nat (length l) :: u8" 6 k] u assms(2) that by simp
  then show "(of_nat (length l) :: u8) AND LABEL_COMPRESSION_MASK = 0"
    unfolding LABEL_COMPRESSION_MASK_def m by (intro bit_word_eqI) (auto simp: bit_simps)
qed

lemma skip_qname:
  assumes "udp_at ok inq u (dns_name labels None @ bs) rest e" and "name_ok labels None"
  shows "\<exists>e'. skipQName hw len u e = Some (advance (length (dns_name labels None)) u, e') \<and>
    udp_at ok inq (advance (length (dns_name labels None)) u) bs rest e'"
  using assms
proof (induction labels arbitrary: u e len)
  case Nil
  then have "udp_at ok inq u (0 # bs) rest e" by (simp add: dns_name_def)
  then obtain e' where "readLen hw len u e = Some (0, advance 1 u, e')" "udp_at ok inq (advance 1 u) bs rest e'"
    using read_len by blast
  then show ?case by (subst skipQName.simps) (simp add: dns_name_def)
next
  case (Cons l labels)
  let ?n = "of_nat (length l) :: u8" and ?tail = "dns_name labels None @ bs"
  have l: "0 < length l" "length l < 64" "name_ok labels None" using Cons.prems(2) by (auto simp: name_ok_def)
  have "udp_at ok inq u (?n # l @ ?tail) rest e" using Cons.prems(1) by (simp add: dns_name_def)
  then obtain e1 where e1: "readLen hw len u e = Some (?n, advance 1 u, e1)"
      "udp_at ok inq (advance 1 u) (l @ ?tail) rest e1" using read_len by blast
  obtain e2 where e2: "skipReads hw (length l) (advance 1 u) e1 = Some (advance (1 + length l) u, e2)"
      "udp_at ok inq (advance (1 + length l) u) ?tail rest e2"
    using skip_reads [OF e1(2)] by auto
  have "skipQName hw len u e = skipQName hw (Some 255) (advance (1 + length l) u) e2"
    using e1(1) e2(1) len_byte [OF l(1, 2)] by (subst skipQName.simps) simp
  then show ?case using Cons.IH [OF e2(2) l(3), of "Some 255"] by (simp add: dns_name_def add.assoc)
qed

lemma skip_aname:
  assumes "udp_at ok inq u (dns_name labels ptr @ bs) rest e" and "name_ok labels ptr"
  shows "\<exists>e'. skipAName hw len u e = Some (advance (length (dns_name labels ptr)) u, e') \<and>
    udp_at ok inq (advance (length (dns_name labels ptr)) u) bs rest e'"
  using assms
proof (induction labels arbitrary: u e len)
  case Nil
  show ?case
  proof (cases ptr)
    case None
    then have "udp_at ok inq u (0 # bs) rest e" using Nil by (simp add: dns_name_def)
    then obtain e' where "readLen hw len u e = Some (0, advance 1 u, e')" "udp_at ok inq (advance 1 u) bs rest e'"
      using read_len by blast
    then show ?thesis using None by (subst skipAName.simps) (simp add: dns_name_def)
  next
    case (Some pq)
    obtain p q where pq: "pq = (p, q)" by fastforce
    then have p: "p AND 0xC0 \<noteq> 0" using Nil.prems(2) Some by (simp add: name_ok_def)
    have "udp_at ok inq u (p # q # bs) rest e" using Nil Some pq by (simp add: dns_name_def)
    then obtain e1 where e1: "readLen hw len u e = Some (p, advance 1 u, e1)"
        "udp_at ok inq (advance 1 u) (q # bs) rest e1"
      using read_len by blast
    have "udp_at ok inq (advance 1 u) ([q] @ bs) rest e1" using e1(2) by simp
    from skip_reads [OF this]
    obtain e2 where "skipReads hw 1 (advance 1 u) e1 = Some (advance 2 u, e2)" "udp_at ok inq (advance 2 u) bs rest e2"
      by (auto simp: numeral_2_eq_2)
    then show ?thesis
      using e1(1) Some pq p by (subst skipAName.simps) (simp add: dns_name_def numeral_2_eq_2)
  qed
next
  case (Cons l labels)
  let ?n = "of_nat (length l) :: u8" and ?tail = "dns_name labels ptr @ bs"
  have l: "0 < length l" "length l < 64" "name_ok labels ptr" using Cons.prems(2) by (auto simp: name_ok_def)
  have "udp_at ok inq u (?n # l @ ?tail) rest e" using Cons.prems(1) by (simp add: dns_name_def)
  then obtain e1 where e1: "readLen hw len u e = Some (?n, advance 1 u, e1)"
      "udp_at ok inq (advance 1 u) (l @ ?tail) rest e1" using read_len by blast
  obtain e2 where e2: "skipReads hw (length l) (advance 1 u) e1 = Some (advance (1 + length l) u, e2)"
      "udp_at ok inq (advance (1 + length l) u) ?tail rest e2"
    using skip_reads [OF e1(2)] by auto
  have "skipAName hw len u e = skipAName hw (Some 255) (advance (1 + length l) u) e2"
    using e1(1) e2(1) len_byte [OF l(1, 2)] by (subst skipAName.simps) simp
  then show ?case using Cons.IH [OF e2(2) l(3), of "Some 255"] by (simp add: dns_name_def add.assoc)
qed

lemma skip_questions:
  assumes "udp_at ok inq u (concat (map question_bytes qs) @ bs) rest e" and "\<forall>q \<in> set qs. question_ok q"
  shows "\<exists>u' e'. skipQuestions hw (length qs) u e = Some (u', e') \<and> udp_at ok inq u' bs rest e'"
  using assms
proof (induction qs arbitrary: u e)
  case (Cons q qs)
  let ?tail = "concat (map question_bytes qs) @ bs"
  have q: "name_ok (fst q) None" "length (snd q) = 4" using Cons.prems(2) by (auto simp: question_ok_def)
  have at: "udp_at ok inq u (dns_name (fst q) None @ snd q @ ?tail) rest e"
    using Cons.prems(1) by (simp add: question_bytes_def [of q])
  obtain u1 e1 where e1: "skipQName hw None u e = Some (u1, e1)" "udp_at ok inq u1 (snd q @ ?tail) rest e1"
    using skip_qname [OF at q(1), of None] by blast
  obtain u2 e2 where e2: "skipReads hw 4 u1 e1 = Some (u2, e2)" "udp_at ok inq u2 ?tail rest e2"
    using skip_reads [OF e1(2)] unfolding q(2) by blast
  show ?case using Cons.IH [OF e2(2)] Cons.prems(2) e1(1) e2(1) by auto
qed auto

lemma read_into16:
  assumes "udp_at ok inq u (be_bytes v @ bs) rest e"
  shows "\<exists>u' e' w. readInto16 hw old u e = Some (w, u', e') \<and> htons w = v \<and> udp_at ok inq u' bs rest e'"
proof -
  have u: "udp_at ok inq u (ucast (drop_bit 8 v) # ucast v # bs) rest e" using assms by (simp add: be_bytes_def)
  have v: "htons (get_le16 [ucast (drop_bit 8 v), ucast v]) = v" using net16_bytes [of v "[]"] by (simp add: be_bytes_def)
  obtain u' e' where r: "eudp_readN hw 2 u e = Some (2, [ucast (drop_bit 8 v), ucast v], u', e')"
      "udp_at ok inq u' bs rest e'"
    using read_some [OF u, of 2] by auto
  have "readInto16 hw old u e = Some (get_le16 [ucast (drop_bit 8 v), ucast v], u', e')"
    by (simp add: readInto16_def r(1) get_le16_def)
  then show ?thesis using v r(2) by blast
qed


lemma answers_read:
  assumes "udp_at ok inq u (concat (map rr_bytes pre) @ rr_bytes a @ bs) rest e"
    and "\<forall>r \<in> set pre. rr_ok r \<and> \<not> is_address r" and "rr_ok a" "is_address a" "length (rr_data a) = 4"
  shows "\<exists>u' e'. answerLoop hw (Suc (length pre + n)) flags addr u e = Some (1, rr_data a @ drop 4 addr, u', e')"
  using assms(1, 2)
proof (induction pre arbitrary: u e flags)
  case Nil
  note a = assms(3-5)
  have "udp_at ok inq u (dns_name (rr_labels a) (rr_ptr a) @ be_bytes (rr_type a) @ be_bytes (rr_class a) @
      rr_ttl a @ be_bytes 4 @ rr_data a @ bs) rest e" using Nil.prems(1) a(3) by (simp add: rr_bytes_def)
  then obtain u1 e1 where 1: "skipAName hw None u e = Some (u1, e1)"
      "udp_at ok inq u1 (be_bytes (rr_type a) @ be_bytes (rr_class a) @ rr_ttl a @ be_bytes 4 @ rr_data a @ bs) rest e1"
    using skip_aname a(1) unfolding rr_ok_def by blast
  obtain t u2 e2 where 2: "readInto16 hw [] u1 e1 = Some (t, u2, e2)" "htons t = rr_type a"
      "udp_at ok inq u2 (be_bytes (rr_class a) @ rr_ttl a @ be_bytes 4 @ rr_data a @ bs) rest e2"
    using read_into16 [OF 1(2)] by blast
  obtain c u3 e3 where 3: "readInto16 hw [] u2 e2 = Some (c, u3, e3)" "htons c = rr_class a"
      "udp_at ok inq u3 (rr_ttl a @ be_bytes 4 @ rr_data a @ bs) rest e3"
    using read_into16 [OF 2(3)] by blast
  obtain u4 e4 where 4: "skipReads hw 4 u3 e3 = Some (u4, e4)" "udp_at ok inq u4 (be_bytes 4 @ rr_data a @ bs) rest e4"
    using skip_reads [OF 3(3)] a(1) unfolding rr_ok_def by metis
  obtain l u5 e5 where 5: "readInto16 hw (le16 flags) u4 e4 = Some (l, u5, e5)" "htons l = 4"
      "udp_at ok inq u5 (rr_data a @ bs) rest e5"
    using read_into16 [OF 4(2)] by blast
  have "rr_data a @ bs \<noteq> []" using a(3) by auto
  then obtain u6 e6 where 6: "eudp_readN hw 4 u5 e5 = Some (4, rr_data a, u6, e6)"
    using read_some [OF 5(3), of 4] a(3) by auto
  show ?case
    using 1(1) 2(1, 2) 3(1, 2) 4(1) 5(1, 2) 6 a(2, 3) by (simp add: is_address_def)
next
  case (Cons r pre)
  have r: "rr_ok r" "\<not> is_address r" using Cons.prems(2) by auto
  let ?tail = "concat (map rr_bytes pre) @ rr_bytes a @ bs"
  let ?len = "of_nat (length (rr_data r)) :: u16"
  have "udp_at ok inq u (dns_name (rr_labels r) (rr_ptr r) @ be_bytes (rr_type r) @ be_bytes (rr_class r) @
      rr_ttl r @ be_bytes ?len @ rr_data r @ ?tail) rest e" using Cons.prems(1) by (simp add: rr_bytes_def [of r])
  then obtain u1 e1 where 1: "skipAName hw None u e = Some (u1, e1)"
      "udp_at ok inq u1 (be_bytes (rr_type r) @ be_bytes (rr_class r) @ rr_ttl r @ be_bytes ?len @ rr_data r @ ?tail) rest e1"
    using skip_aname r(1) unfolding rr_ok_def by blast
  obtain t u2 e2 where 2: "readInto16 hw [] u1 e1 = Some (t, u2, e2)" "htons t = rr_type r"
      "udp_at ok inq u2 (be_bytes (rr_class r) @ rr_ttl r @ be_bytes ?len @ rr_data r @ ?tail) rest e2"
    using read_into16 [OF 1(2)] by blast
  obtain c u3 e3 where 3: "readInto16 hw [] u2 e2 = Some (c, u3, e3)" "htons c = rr_class r"
      "udp_at ok inq u3 (rr_ttl r @ be_bytes ?len @ rr_data r @ ?tail) rest e3"
    using read_into16 [OF 2(3)] by blast
  obtain u4 e4 where 4: "skipReads hw 4 u3 e3 = Some (u4, e4)" "udp_at ok inq u4 (be_bytes ?len @ rr_data r @ ?tail) rest e4"
    using skip_reads [OF 3(3)] r(1) unfolding rr_ok_def by metis
  obtain l u5 e5 where 5: "readInto16 hw (le16 flags) u4 e4 = Some (l, u5, e5)" "htons l = ?len"
      "udp_at ok inq u5 (rr_data r @ ?tail) rest e5"
    using read_into16 [OF 4(2)] by blast
  have "unat ?len = length (rr_data r)" using r(1) by (intro unat_of_nat_small) (simp add: rr_ok_def)
  then obtain u6 e6 where 6: "skipReads hw (unat ?len) u5 e5 = Some (u6, e6)" "udp_at ok inq u6 ?tail rest e6"
    using skip_reads [OF 5(3)] by metis
  have "answerLoop hw (Suc (length (r # pre) + n)) flags addr u e = answerLoop hw (Suc (length pre + n)) l addr u6 e6"
    using 1(1) 2(1, 2) 3(1, 2) 4(1) 5(1, 2) 6(1) r(2) by (subst answerLoop.simps) (auto simp: is_address_def simp del: answerLoop.simps)
  then show ?case using Cons.IH [OF 6(2)] Cons.prems(2) by simp
qed

theorem response_address:
  assumes "udp_at ok inq (iUdp d) bs (udp_packet (iDNSServer d) DNS_PORT
        (dns_message (iRequestId d) flags qs (pre @ a # post) tail) @ rest) e"
    and srv: "length (iDNSServer d) = 4" and addr: "length addr = 4"
    and flags: "flags AND QUERY_RESPONSE_MASK = RESPONSE_FLAG" "flags AND TRUNCATION_FLAG = 0" "flags AND RESP_MASK = 0"
    and qs: "\<forall>q \<in> set qs. question_ok q" "length qs < 65536"
    and pre: "\<forall>r \<in> set pre. rr_ok r \<and> \<not> is_address r"
    and a: "rr_ok a" "is_address a" "length (rr_data a) = 4" and n: "length (pre @ a # post) < 65536"
  shows "\<exists>d' e'. ProcessResponse hw aTimeout addr d e = Some (1, rr_data a, d', e')"
proof -
  let ?msg = "dns_message (iRequestId d) flags qs (pre @ a # post) tail"
  let ?an = "of_nat (length (pre @ a # post)) :: u16" and ?qn = "of_nat (length qs) :: u16"
  let ?u1 = "(iUdp d)\<lparr>u_remoteIP := iDNSServer d, u_remotePort := DNS_PORT, u_remaining := of_nat (length ?msg)\<rparr>"
  let ?body = "concat (map question_bytes qs) @ concat (map rr_bytes pre) @ rr_bytes a @ concat (map rr_bytes post) @ tail"
  obtain now h where now: "e_millis hw (bus e) = (now, h)"
      "udp_at ok inq (iUdp d) bs (udp_packet (iDNSServer d) DNS_PORT ?msg @ rest) (e\<lparr>bus := h\<rparr>)"
    using millis_law [of e "u_sock (iUdp d)"] assms(1) unfolding udp_at_def by metis
  obtain e1 where e1: "eudp_parsePacket hw (iUdp d) (e\<lparr>bus := h\<rparr>) = Some (int (length ?msg), ?u1, e1)"
      "udp_at ok inq ?u1 ?msg rest e1"
    using parse_next [OF now(2) srv] by blast
  have pos: "0 < int (length ?msg)" by (simp add: dns_message_def le16_def)
  have await: "awaitPacket hw t now (iUdp d) (e\<lparr>bus := h\<rparr>) = Some (True, ?u1, e1)" for t
    using e1(1) pos by (subst awaitPacket.simps) simp
  define hdr where "hdr = le16 (iRequestId d) @ be_bytes flags @ be_bytes ?qn @ be_bytes ?an @ [0, 0, 0, 0]"
  have hdr12: "length hdr = 12" by (simp add: hdr_def le16_def be_bytes_def)
  have msg: "?msg = hdr @ ?body" by (simp add: hdr_def dns_message_def)
  then have at: "udp_at ok inq ?u1 (hdr @ ?body) rest e1" using e1(2) by (simp only:)
  have avail: "\<not> eudp_available ?u1 < DNS_HEADER_SIZE"
    using at hdr12 by (simp add: udp_at_def eudp_available_def word_less_nat_alt)
  have "hdr @ ?body \<noteq> []" using hdr12 by auto
  then obtain u2 e2 where u2: "eudp_readN hw 12 ?u1 e1 = Some (12, hdr, u2, e2)" "udp_at ok inq u2 ?body rest e2"
    using read_some [OF at, of 12] hdr12 by auto
  have fields: "get_le16 hdr = iRequestId d" "htons (get_le16 (drop 2 hdr)) = flags"
      "htons (get_le16 (drop 4 hdr)) = ?qn" "htons (get_le16 (drop 6 hdr)) = ?an"
    using get_le16_le16 [of "iRequestId d"]
    by (simp_all add: hdr_def be_bytes_def le16_def net16 be16_bytes) (simp add: get_le16_def)
  have an: "unat ?an = Suc (length pre + length post)" "unat ?qn = length qs"
    using n qs(2) by (subst unat_of_nat_small; simp)+
  obtain u3 e3 where u3: "skipQuestions hw (unat ?qn) u2 e2 = Some (u3, e3)"
      "udp_at ok inq u3 (concat (map rr_bytes pre) @ rr_bytes a @ concat (map rr_bytes post) @ tail) rest e3"
    using skip_questions [OF u2(2) qs(1)] unfolding an by blast
  obtain u4 e4 where u4: "answerLoop hw (unat ?an) flags addr u3 e3 = Some (1, rr_data a, u4, e4)"
    using answers_read [OF u3(2) pre a, of "length post" flags addr] addr unfolding an by auto
  have "?an \<noteq> 0" using an(1) by auto
  then show ?thesis
    using await avail u2(1) u3(1) u4 flags hdr12
    by (simp add: ProcessResponse_def frombus_def now(1) fields Let_def)
qed

end

text \<open>
  C9. A well-formed response from the server that was asked gives its first address: behind any
  number of questions and of records that are no addresses, whose names may be compressed,
  \<open>ProcessResponse\<close> finds the first address record, returns SUCCESS and stores its four bytes.
  The chip is one that keeps the laws of the data sheet while nothing else arrives.
\<close>

theorem response_gives_address:
  assumes "w5100 hw mem exec"
    and "udp_at (rx_inv mem) (pend mem) (iUdp d) unread (udp_packet (iDNSServer d) DNS_PORT
        (dns_message (iRequestId d) flags qs (pre @ a # post) tail) @ rest) e"
    and "length (iDNSServer d) = 4" and "length addr = 4"
    and "flags AND QUERY_RESPONSE_MASK = RESPONSE_FLAG" "flags AND TRUNCATION_FLAG = 0" "flags AND RESP_MASK = 0"
    and "\<forall>q \<in> set qs. question_ok q" "length qs < 65536" "\<forall>r \<in> set pre. rr_ok r \<and> \<not> is_address r"
    and "rr_ok a" "is_address a" "length (rr_data a) = 4" "length (pre @ a # post) < 65536"
  shows "\<exists>d' e'. ProcessResponse hw aTimeout addr d e = Some (1, rr_data a, d', e')"
  by (rule rxstream.response_address [OF w5100.rx_stream [OF assms(1)] assms(2-14)])

text \<open>A response with one question, an alias, and an address whose name is a pointer.\<close>

definition sim_dns :: dnsc where
  "sim_dns = \<lparr> iDNSServer = [8, 8, 8, 8], iRequestId = 0x1234, iUdp = eudp_new\<lparr>u_sock := 0\<rparr> \<rparr>"

definition sim_alias :: dns_rr where
  "sim_alias = \<lparr> rr_labels = [], rr_ptr = Some (0xC0, 12), rr_type = 5, rr_class = 1,
     rr_ttl = [0, 0, 1, 0], rr_data = [1, 0x62, 0] \<rparr>"

definition sim_answer :: dns_rr where
  "sim_answer = \<lparr> rr_labels = [[0x62]], rr_ptr = None, rr_type = 1, rr_class = 1,
     rr_ttl = [0, 0, 1, 0], rr_data = [93, 184, 216, 34] \<rparr>"

definition sim_response :: "u8 list" where
  "sim_response = udp_packet [8, 8, 8, 8] 53
     (dns_message 0x1234 0x8180 [([[0x61, 0x61]], [0, 1, 0, 1])] [sim_alias, sim_answer] [])"

lemma sim_response_length: "length sim_response \<le> 2048"
  by (simp add: sim_response_def udp_packet_def dns_message_def question_bytes_def dns_name_def rr_bytes_def
      sim_alias_def sim_answer_def le16_def be_bytes_def)

theorem response_gives_address_witness:
  "\<exists>d' e'. ProcessResponse sim_hw 5000 [0, 0, 0, 0] sim_dns (sim_eth 0 sim_response) =
     Some (1, [93, 184, 216, 34], d', e')"
proof -
  have "udp_at (rx_inv sim_mem) (pend sim_mem) (iUdp sim_dns) [] (udp_packet (iDNSServer sim_dns) DNS_PORT
      (dns_message (iRequestId sim_dns) 0x8180 [([[0x61, 0x61]], [0, 1, 0, 1])] ([sim_alias] @ sim_answer # []) []) @ [])
      (sim_eth 0 sim_response)"
    using sim_eth_pend [of 0, OF _ sim_response_length]
    by (simp add: udp_at_def sim_dns_def eudp_new_def sim_response_def)
  from response_gives_address [OF chip.w5100_axioms this, of "[0, 0, 0, 0]" 5000]
  show ?thesis
    by (simp add: sim_dns_def question_ok_def name_ok_def rr_ok_def is_address_def sim_alias_def sim_answer_def)
qed

end
