(* ===== verification/DhcpProps.thy ===== *)
theory DhcpProps
  imports DhcpClient DnsClientProps
begin

text \<open>
  What the DHCP client of \<open>DhcpClient\<close> does: what the outcome of a request says of its state, how
  the timers run, when a lease is never renewed, which bytes a message has, and what is taken
  from a reply.
\<close>

section \<open>What the parts leave alone\<close>

lemma dhcp_read_state: "dhcp_read hw d e = Some (b, d', e') \<Longrightarrow> d_state d' = d_state d"
  by (auto simp: dhcp_read_def split: Option.bind_splits)

lemma dhcp_read4_state: "dhcp_read4 hw old d e = Some (bs, d', e') \<Longrightarrow> d_state d' = d_state d"
  by (auto simp: dhcp_read4_def split: Option.bind_splits)

lemma dhcp_skip_state: "dhcp_skip hw n d e = Some (d', e') \<Longrightarrow> d_state d' = d_state d"
  by (auto simp: dhcp_skip_def split: Option.bind_splits)

lemmas dhcp_reading_state = dhcp_read_state dhcp_read4_state dhcp_skip_state

lemma dhcp_option_state: "dhcp_option hw code type d e = Some (type', d', e') \<Longrightarrow> d_state d' = d_state d"
  unfolding dhcp_option_def Let_def
  by (auto split: if_splits Option.bind_splits dest!: dhcp_reading_state)

lemma optionLoop_state: "optionLoop hw type d e = Some (type', d', e') \<Longrightarrow> d_state d' = d_state d"
proof (drule optionLoop.raw_induct [where P = "\<lambda>hw type d e r. d_state (fst (snd r)) = d_state d", rotated])
  fix loop hw type d e r
  assume IH: "\<And>hw type d e y. loop hw type d e = Some y \<Longrightarrow> d_state (fst (snd y)) = d_state d"
    and r: "(if 0 < eudp_available (d_udp d)
        then dhcp_read hw d e \<bind> (\<lambda>(code, d, e).
          dhcp_option hw code type d e \<bind> (\<lambda>(type, d, e). loop hw type d e))
        else Some (type, d, e)) = Some r"
  show "d_state (fst (snd r)) = d_state d"
    using r by (auto split: if_splits Option.bind_splits dest!: IH dhcp_read_state dhcp_option_state)
qed simp

lemma parse_state: "parseDHCPResponse hw t d e = Some (type, xid, d', e') \<Longrightarrow> d_state d' = d_state d"
  unfolding parseDHCPResponse_def Let_def
  by (auto split: if_splits Option.bind_splits prod.splits dest!: dhcp_skip_state optionLoop_state)

section \<open>The outcome of a request\<close>

text \<open>The state while there is a lease: its time is known, and the counters start from T1 and T2.\<close>

definition leased :: "dhcp \<Rightarrow> bool" where
  "leased d \<longleftrightarrow> d_state d = STATE_DHCP_LEASED \<and> d_leaseTime d \<noteq> 0 \<and>
     d_renewInSec d = d_T1 d \<and> d_rebindInSec d = d_T2 d"

definition outcome :: "int \<Rightarrow> dhcp \<Rightarrow> bool" where
  "outcome result d \<longleftrightarrow>
     result = 1 \<and> leased d \<or> result = 0 \<and> d_state d \<noteq> STATE_DHCP_LEASED"

lemma dhcp_leased_leased: "leased (dhcp_leased d)"
  by (simp add: leased_def dhcp_leased_def Let_def)

lemma lease_step_outcome:
  assumes "lease_step hw startTime messageType result d e = Some (m', r', d', e')"
    and "result = 0" and "d_state d \<noteq> STATE_DHCP_LEASED"
  shows "outcome r' d'"
proof -
  have ack: "DHCP_ACK \<noteq> 255" by simp
  show ?thesis
    using assms unfolding lease_step_def Let_def
    by (auto simp: outcome_def dhcp_leased_leased split: dhcp_state.splits if_splits Option.bind_splits prod.splits
        dest: parse_state)
qed

lemma leaseLoop_outcome:
  "leaseLoop hw startTime m result d e = Some (r, d', e') \<Longrightarrow> outcome result d \<Longrightarrow> outcome r d'"
proof (drule leaseLoop.raw_induct [where P = "\<lambda>hw st m result d e r. outcome result d \<longrightarrow> outcome (fst r) (fst (snd r))", rotated])
  fix loop hw startTime m result d e r
  assume IH: "\<And>hw startTime m result d e y. loop hw startTime m result d e = Some y \<Longrightarrow>
      outcome result d \<longrightarrow> outcome (fst y) (fst (snd y))"
    and r: "(if d_state d \<noteq> STATE_DHCP_LEASED
        then lease_step hw startTime m result d e \<bind> (\<lambda>(m, result, d, e).
          if result \<noteq> 1 then
            case frombus (e_millis hw) e of (now, e) \<Rightarrow>
              if d_timeout d < now - startTime then Some (result, d, e) else loop hw startTime m result d e
          else loop hw startTime m result d e)
        else Some (result, d, e)) = Some r"
  show "outcome result d \<longrightarrow> outcome (fst r) (fst (snd r))"
  proof
    assume o: "outcome result d"
    show "outcome (fst r) (fst (snd r))"
    proof (cases "d_state d = STATE_DHCP_LEASED")
      case True
      then show ?thesis using r o by auto
    next
      case False
      then have "result = 0" using o by (auto simp: outcome_def leased_def)
      then have step: "lease_step hw startTime m result d e = Some (m1, r1, d1, e1) \<Longrightarrow> outcome r1 d1"
        for m1 r1 d1 e1
        using False by (blast intro: lease_step_outcome)
      then show ?thesis
        using r False by (auto split: if_splits Option.bind_splits prod.splits dest: IH step)
    qed
  qed
qed simp

text \<open>
  C28. A request ends in one of two ways: it returns 1, and then there is a lease, its time is not
  zero and the counters for renewing and rebinding start from T1 and T2; or it returns 0, and
  then there is none.  A request is made only when there is no lease.
\<close>

theorem request_outcome:
  assumes "request_DHCP_lease hw d e = Some (r, d', e')" and "d_state d \<noteq> STATE_DHCP_LEASED"
  shows "outcome r d'"
proof -
  have start: "outcome 0 d1" if "d_state d1 = d_state d" for d1
    using that assms(2) by (simp add: outcome_def)
  show ?thesis
    using assms unfolding request_DHCP_lease_def Let_def
    by (auto simp: presend_DHCP_def outcome_def leased_def split: if_splits Option.bind_splits prod.splits
        dest!: leaseLoop_outcome [OF _ start, unfolded outcome_def leased_def])
qed

section \<open>A lease that is never renewed\<close>

lemma timers_state: "d_state (lease_timers now d) = d_state d" "d_udp (lease_timers now d) = d_udp d"
  "d_lastCheck (lease_timers now d) = d_lastCheck d"
  by (simp_all add: lease_timers_def Let_def)

definition unsettled :: "dhcp \<Rightarrow> bool" where
  "unsettled d \<longleftrightarrow> d_state d \<in> {STATE_DHCP_DISCOVER, STATE_DHCP_REQUEST, STATE_DHCP_REREQUEST}"

lemma checkLease_unsettled:
  assumes "unsettled d"
  shows "\<exists>d' e'. checkLease hw d e = Some (DHCP_CHECK_NONE, d', e') \<and> d_state d' = d_state d"
  using assms
  by (auto simp: checkLease_def unsettled_def timers_state Let_def split: prod.splits)

fun checkLeases :: "'h ehw \<Rightarrow> nat \<Rightarrow> dhcp \<Rightarrow> 'h eth \<Rightarrow> (int list \<times> dhcp \<times> 'h eth) option" where
  "checkLeases hw 0 d e = Some ([], d, e)"
| "checkLeases hw (Suc n) d e = do {
     (rc, d, e) \<leftarrow> checkLease hw d e;
     (rcs, d, e) \<leftarrow> checkLeases hw n d e;
     Some (rc # rcs, d, e) }"

lemma checkLeases_unsettled:
  "unsettled d \<Longrightarrow> \<exists>d' e'. checkLeases hw n d e = Some (replicate n DHCP_CHECK_NONE, d', e') \<and> d_state d' = d_state d"
proof (induction n arbitrary: d e)
  case (Suc n)
  obtain d1 e1 where 1: "checkLease hw d e = Some (DHCP_CHECK_NONE, d1, e1)" "d_state d1 = d_state d"
    using checkLease_unsettled [OF Suc.prems] by blast
  then have "unsettled d1" using Suc.prems by (simp add: unsettled_def)
  from Suc.IH [OF this, of e1] show ?case using 1 by auto
qed simp

text \<open>
  C33. A renewal for which no socket is free is lost for good: when the time to renew has come and
  all four sockets are in use, \<open>checkLease\<close> reports that renewing failed, and every later call,
  however many there are and however late, does nothing and reports nothing, since the state
  stays REREQUEST, which \<open>checkLease\<close> acts on in no way.
\<close>

theorem renewal_lost:
  assumes d: "d_state d = STATE_DHCP_LEASED" "d_lastCheck d \<noteq> 0" "u_sock (d_udp d) = MAX_SOCK_NUM"
    and now: "frombus (e_millis hw) e = (now, e1)" "sint (d_renewInSec (lease_timers now d)) \<le> 0"
    and xid: "frombus (e_random hw 1 2000) e1 = (xid, e2)"
    and busy: "findSocket hw [SnSR_CLOSED, SnSR_FIN_WAIT] allSockets e2 = (MAX_SOCK_NUM, e3)"
  shows "\<exists>d1 d2 e4. checkLease hw d e = Some (DHCP_CHECK_RENEW_FAIL, d1, e3) \<and>
    d_state d1 = STATE_DHCP_REREQUEST \<and>
    checkLeases hw n d1 e3 = Some (replicate n DHCP_CHECK_NONE, d2, e4) \<and> d_state d2 = STATE_DHCP_REREQUEST"
proof -
  have udp: "u_sock (d_udp (lease_timers now d)) = 4" using d(3) by (simp add: timers_state)
  obtain d1 where d1: "checkLease hw d e = Some (DHCP_CHECK_RENEW_FAIL, d1, e3)" "d_state d1 = STATE_DHCP_REREQUEST"
    using assms udp
    by (simp add: checkLease_def request_DHCP_lease_def eudp_stop_def eudp_begin_def timers_state Let_def)
  then have "unsettled d1" by (simp add: unsettled_def)
  from checkLeases_unsettled [OF this, of hw n e3] show ?thesis using d1 by auto
qed

text \<open>A chip all of whose sockets have a connection.\<close>

definition sim_busy :: "sim eth" where
  "sim_busy = (sim_eth 0 [])\<lparr>bus := \<lparr>sim_frame = [], sim_mem = (\<lambda>_. SnSR_ESTABLISHED), sim_clock = 1\<rparr>\<rparr>"

lemma sim_status: "socketStatus sim_hw s e = (sim_mem (bus e) (snAddr s SnSR), e\<lparr>bus := (bus e)\<lparr>sim_frame := []\<rparr>\<rparr>)"
  by (simp add: socketStatus_def beginT_def endT_def onbus_def frombus_def readSn_def sim_read)
    (simp add: sim_hw_def)

lemma sim_busy_find:
  "sim_mem (bus e) = (\<lambda>_. SnSR_ESTABLISHED) \<Longrightarrow>
     findSocket sim_hw [SnSR_CLOSED, SnSR_FIN_WAIT] ss e =
       (MAX_SOCK_NUM, if ss = [] then e else e\<lparr>bus := (bus e)\<lparr>sim_frame := []\<rparr>\<rparr>)"
  by (induction ss arbitrary: e) (auto simp: sim_status)

theorem request_outcome_witness:
  "\<exists>d' e'. request_DHCP_lease sim_hw dhcp_new sim_busy = Some (0, d', e') \<and> outcome 0 d'"
proof -
  have "frombus (e_random sim_hw 1 2000) sim_busy = (1, sim_busy)"
    by (simp add: frombus_def sim_hw_def)
  then obtain d' e' where r: "request_DHCP_lease sim_hw dhcp_new sim_busy = Some (0, d', e')"
    using sim_busy_find [of sim_busy allSockets]
    by (simp add: request_DHCP_lease_def eudp_stop_def eudp_begin_def dhcp_new_def eudp_new_def sim_busy_def
        del: findSocket.simps)
  from request_outcome [OF this] show ?thesis using r by (auto simp: dhcp_new_def)
qed

theorem renewal_lost_witness:
  "\<exists>d1 e1. checkLease sim_hw (dhcp_new\<lparr>d_state := STATE_DHCP_LEASED, d_lastCheck := 1\<rparr>) sim_busy =
     Some (DHCP_CHECK_RENEW_FAIL, d1, e1) \<and> d_state d1 = STATE_DHCP_REREQUEST"
proof -
  let ?d = "dhcp_new\<lparr>d_state := STATE_DHCP_LEASED, d_lastCheck := 1\<rparr>"
  define e1 where "e1 = snd (frombus (e_millis sim_hw) sim_busy)"
  have now: "frombus (e_millis sim_hw) sim_busy = (1, e1)"
    by (simp add: e1_def frombus_def sim_hw_def sim_busy_def)
  have xid: "frombus (e_random sim_hw 1 2000) e1 = (1, e1)" by (simp add: frombus_def sim_hw_def)
  have "sim_mem (bus e1) = (\<lambda>_. SnSR_ESTABLISHED)"
    by (simp add: e1_def frombus_def sim_hw_def sim_busy_def)
  then obtain e3 where busy: "findSocket sim_hw [SnSR_CLOSED, SnSR_FIN_WAIT] allSockets e1 = (MAX_SOCK_NUM, e3)"
    by (simp only: sim_busy_find)
  have t: "sint (d_renewInSec (lease_timers 1 ?d)) \<le> 0"
    by (simp add: lease_timers_def dhcp_new_def countdown_def Let_def)
  from renewal_lost [OF _ _ _ now t xid busy, of 0] show ?thesis
    by (auto simp: dhcp_new_def eudp_new_def)
qed

section \<open>The timers\<close>





section \<open>The bytes of a message\<close>

definition hex_digit :: "u8 \<Rightarrow> u8" where
  "hex_digit k = (if k < 10 then k + 0x30 else k + 0x37)"

definition hex :: "u8 \<Rightarrow> u8 list" where
  "hex b = [hex_digit (b div 16), hex_digit (b mod 16)]"

text \<open>A DISCOVER or REQUEST message: the fixed part, the cookie and the options.\<close>

definition dhcp_message :: "u8 \<Rightarrow> u32 \<Rightarrow> u16 \<Rightarrow> u8 list \<Rightarrow> u8 list \<Rightarrow> u8 list \<Rightarrow> u8 list" where
  "dhcp_message type xid secs mac ip server =
     [1, 1, 6, 0] @ be32_bytes xid @ be_bytes secs @ [0x80, 0] @ replicate 16 0 @
     mac @ replicate 10 0 @ replicate 192 0 @ [0x63, 0x82, 0x53, 0x63] @
     [53, 1, type] @ [61, 7, 1] @ mac @
     [12, 12] @ [0x57, 0x49, 0x5A, 0x6E, 0x65, 0x74] @ hex (mac ! 3) @ hex (mac ! 4) @ hex (mac ! 5) @
     (if type = DHCP_REQUEST then [50, 4] @ ip @ [54, 4] @ server else []) @
     [55, 6, 1, 3, 6, 15, 58, 59, 255]"

lemma unat_byte_div: "unat ((b :: u8) div 16) < 16"
  using unat_bound(3) [of b] by (simp add: unat_div)

lemma byte_mod: "(b :: u8) - 16 * (b div 16) = b mod 16"
  by (metis minus_mult_div_eq_mod)

lemma printByte_hex: "printByte buf off b = buf[off := hex_digit (b div 16), off + 1 := hex_digit (b mod 16)]"
proof -
  have last: "printLoop buf i n = buf[i := hex_digit n]" if "unat n < 16" for buf i n
  proof -
    have "n div 16 = 0" using that by (simp add: word_unat_eq_iff unat_div)
    then show ?thesis by (subst printLoop.simps) (simp add: Let_def hex_digit_def add.commute)
  qed
  have dig: "(if c < 10 then c + 0x30 else c + 0x41 - 10) = hex_digit c" for c
    by (simp add: hex_digit_def)
  show ?thesis
  proof (cases "b div 16 = 0")
    case True
    then have "unat b < 16" by (simp add: word_unat_eq_iff unat_div div_eq_0_iff)
    moreover have "b mod 16 = b" using True byte_mod [of b] by simp
    ultimately show ?thesis
      using True by (simp add: printByte_def last) (simp add: hex_digit_def)
  next
    case False
    then have "printByte buf off b = printLoop (buf[off := 0x30, off + 1 := hex_digit (b mod 16)]) off (b div 16)"
      unfolding printByte_def by (subst printLoop.simps) (simp add: Let_def dig byte_mod)
    also have "\<dots> = buf[off := hex_digit (b div 16), off + 1 := hex_digit (b mod 16)]"
      by (simp add: last unat_byte_div) (metis list_update_overwrite list_update_swap n_not_Suc_n)
    finally show ?thesis .
  qed
qed

lemma htonl_bytes_le: "le32 (htonl x) = be32_bytes x"
proof -
  have m: "(0xFF000000 :: u32) = push_bit 24 (mask 8)" "(0x00FF0000 :: u32) = push_bit 16 (mask 8)"
      "(0x0000FF00 :: u32) = push_bit 8 (mask 8)" "(0x000000FF :: u32) = mask 8"
    by (simp_all add: mask_eq_exp_minus_1)
  have "ucast (ucast (htonl x) :: u16) = (ucast (drop_bit 24 x) :: u8)"
      "ucast (drop_bit 8 (ucast (htonl x) :: u16)) = (ucast (drop_bit 16 x) :: u8)"
      "ucast (ucast (drop_bit 16 (htonl x)) :: u16) = (ucast (drop_bit 8 x) :: u8)"
      "ucast (drop_bit 8 (ucast (drop_bit 16 (htonl x)) :: u16)) = (ucast x :: u8)"
    unfolding htonl_def m by (rule bit_word_eqI; auto simp: bit_simps dest: bit_imp_le_length)+
  then show ?thesis by (simp add: le32_def le16_def be32_bytes_def)
qed

lemma secs_bytes: "ucast (drop_bit 8 ((s :: u16) AND 0xff00)) = (ucast (drop_bit 8 s) :: u8)"
    "ucast (s AND 0x00ff) = (ucast s :: u8)"
proof -
  have m: "(0xff00 :: u16) = push_bit 8 (mask 8)" by (simp add: mask_eq_exp_minus_1)
  show "ucast (drop_bit 8 (s AND 0xff00)) = (ucast (drop_bit 8 s) :: u8)"
    unfolding m by (rule bit_word_eqI) (auto simp: bit_simps dest: bit_imp_le_length)
  show "ucast (s AND 0x00ff) = (ucast s :: u8)" using low_byte [of s] by simp
qed

lemma header_buffer:
  "take 28 (splice ((splice ((replicate 32 0)[0 := 1, 1 := 1, 2 := 6, 3 := 0]) 4 (be32_bytes x))[8 := a, 9 := b]) 10 [0x80, 0]) =
     [1, 1, 6, 0] @ be32_bytes x @ [a, b] @ [0x80, 0] @ replicate 16 0"
  by (simp add: splice_def be32_bytes_def eval_nat_numeral)

lemma mac_buffer:
  assumes "length mac = 6"
  shows "take 16 (splice (replicate 32 0) 0 mac) = mac @ replicate 10 0"
  using assms by (simp add: splice_def eval_nat_numeral)

lemma option_buffer:
  assumes "length mac = 6"
  shows "printByte (printByte (printByte (splice ((splice ((replicate 32 0)[0 := c0, 1 := c1, 2 := c2, 3 := c3, 4 := 53,
        5 := 1, 6 := t, 7 := 61, 8 := 7, 9 := 1]) 10 mac)[16 := 12, 17 := k]) 18 ([0x57, 0x49, 0x5A, 0x6E, 0x65, 0x74] @ [0])) 24 (mac ! 3)) 26 (mac ! 4)) 28 (mac ! 5) =
     [c0, c1, c2, c3, 53, 1, t, 61, 7, 1] @ mac @ [12, k] @ [0x57, 0x49, 0x5A, 0x6E, 0x65, 0x74] @
     hex (mac ! 3) @ hex (mac ! 4) @ hex (mac ! 5) @ [0, 0]"
proof -
  obtain m0 m1 m2 m3 m4 m5 where "mac = [m0, m1, m2, m3, m4, m5]"
    using assms by (auto simp: length_Suc_conv numeral_eq_Suc)
  then show ?thesis
    by (simp add: printByte_hex splice_def hex_def eval_nat_numeral)
qed

text \<open>The pieces in which a message is written.\<close>

definition dhcp_chunks :: "u8 \<Rightarrow> u32 \<Rightarrow> u16 \<Rightarrow> u8 list \<Rightarrow> u8 list \<Rightarrow> u8 list \<Rightarrow> u8 list list" where
  "dhcp_chunks type xid secs mac ip server =
     [[1, 1, 6, 0] @ be32_bytes xid @ be_bytes secs @ [0x80, 0] @ replicate 16 0, mac @ replicate 10 0] @
     replicate 6 (replicate 32 0) @
     [[0x63, 0x82, 0x53, 0x63, 53, 1, type, 61, 7, 1] @ mac @ [12, 12] @ [0x57, 0x49, 0x5A, 0x6E, 0x65, 0x74] @
        hex (mac ! 3) @ hex (mac ! 4) @ hex (mac ! 5)] @
     (if type = DHCP_REQUEST then [[50, 4] @ ip @ [54, 4] @ server] else []) @
     [[55, 6, 1, 3, 6, 15, 58, 59, 255]]"

lemma concat_dhcp_chunks: "concat (dhcp_chunks type xid secs mac ip server) = dhcp_message type xid secs mac ip server"
  by (simp add: dhcp_chunks_def dhcp_message_def eval_nat_numeral)

lemma dhcp_write_fields:
  "dhcp_write hw bs d e = Some (d', e') \<Longrightarrow>
     d_macAddr d' = d_macAddr d \<and> d_localIp d' = d_localIp d \<and> d_serverIp d' = d_serverIp d"
  by (auto simp: dhcp_write_def split: Option.bind_splits)

lemma dhcp_writes_fields:
  "dhcp_writes hw bss d e = Some (d', e') \<Longrightarrow>
     d_macAddr d' = d_macAddr d \<and> d_localIp d' = d_localIp d \<and> d_serverIp d' = d_serverIp d"
  by (induction bss arbitrary: d e) (auto split: Option.bind_splits dest!: dhcp_write_fields)

lemma bind_step:
  "(\<And>d e. x = Some (d, e) \<Longrightarrow> f d e = g d e) \<Longrightarrow> Option.bind x (\<lambda>(d, e). f d e) = Option.bind x (\<lambda>(d, e). g d e)"
  by (cases x) auto

lemma split_bind:
  "(\<lambda>y. Option.bind (case y of (d, e) \<Rightarrow> Some (c, d, e)) f) = (\<lambda>(d, e). f (c, d, e))"
  by (simp add: fun_eq_iff)

lemma dhcp_write_fields_pair:
  "dhcp_write hw bs d e = Some de \<Longrightarrow>
     d_macAddr (fst de) = d_macAddr d \<and> d_localIp (fst de) = d_localIp d \<and> d_serverIp (fst de) = d_serverIp d"
  using dhcp_write_fields [of hw bs d e "fst de" "snd de"] by simp

lemma dhcp_writes_append:
  "dhcp_writes hw (as @ bs) d e = do { (d, e) \<leftarrow> dhcp_writes hw as d e; dhcp_writes hw bs d e }"
  by (induction as arbitrary: d e) (auto split: Option.bind_split)

lemma first12:
  assumes "12 \<le> length bs"
  shows "take 12 (bs[0 := a0, 1 := a1, 2 := a2, 3 := a3, 4 := a4, 5 := a5, 6 := a6, 7 := a7, 8 := a8, 9 := a9,
      10 := a10, 11 := a11]) = [a0, a1, a2, a3, a4, a5, a6, a7, a8, a9, a10, a11 :: u8]"
  using assms by (clarsimp simp: numeral_eq_Suc Suc_le_length_iff)

lemma first9:
  assumes "9 \<le> length bs"
  shows "take 9 (bs[0 := a0, 1 := a1, 2 := a2, 3 := a3, 4 := a4, 5 := a5, 6 := a6, 7 := a7, 8 := a8]) =
      [a0, a1, a2, a3, a4, a5, a6, a7, a8 :: u8]"
  using assms by (clarsimp simp: numeral_eq_Suc Suc_le_length_iff)

lemma four_bytes: "length bs = 4 \<Longrightarrow> [bs ! 0, bs ! 1, bs ! 2, bs ! 3] = bs"
  by (auto simp: length_Suc_conv numeral_eq_Suc)

text \<open>
  C19. A message is the one the protocol asks for, byte by byte: whatever the transaction, the time
  and the addresses are, the pieces that \<open>send_DHCP_MESSAGE\<close> writes between beginning the
  datagram for port 67 of the broadcast address and ending it make up the fixed part, the cookie
  and the options, with the requested address and the server only in a REQUEST.
\<close>

theorem message_bytes:
  assumes "length (d_macAddr d) = 6" and "length (d_localIp d) = 4" and "length (d_serverIp d) = 4"
    and begin_: "eudp_beginPacket hw [255, 255, 255, 255] DHCP_SERVER_PORT (d_udp d) e = (r, u, e1)"
  shows "\<exists>chunks. concat chunks = dhcp_message type (d_transactionId d) secs (d_macAddr d) (d_localIp d) (d_serverIp d) \<and>
    send_DHCP_MESSAGE hw type secs d e = do {
      (d, e) \<leftarrow> dhcp_writes hw chunks (d\<lparr>d_udp := u\<rparr>) e1;
      (_, e) \<leftarrow> eudp_endPacket hw (d_udp d) e;
      Some (d, e) }"
proof -
  let ?mac = "d_macAddr d" and ?ip = "d_localIp d" and ?srv = "d_serverIp d" and ?xid = "d_transactionId d"
  have r: "r = 1" using begin_ by (auto simp: eudp_beginPacket_def startUDP_def zero_ip_def Let_def split: prod.splits)
  define opt where "opt = [0x63, 0x82, 0x53, 0x63, 53, 1, type, 61, 7, 1] @ ?mac @ [12, 12] @
    [0x57, 0x49, 0x5A, 0x6E, 0x65, 0x74] @ hex (?mac ! 3) @ hex (?mac ! 4) @ hex (?mac ! 5 :: u8)"
  have opt: "length opt = 30" using assms(1) by (simp add: opt_def hex_def)
  define d1 where "d1 = d\<lparr>d_udp := u\<rparr>"
  define c1 where "c1 = [1, 1, 6, 0] @ be32_bytes ?xid @ be_bytes secs @ [0x80, 0] @ replicate 16 (0 :: u8)"
  define c2 where "c2 = ?mac @ replicate 10 (0 :: u8)"
  define c9 where "c9 = [55, 6, 1, 3, 6, 15, 58, 59, 255 :: u8]"
  define req where "req = [50, 4] @ ?ip @ [54, 4] @ ?srv"
  have chunks: "dhcp_chunks type ?xid secs ?mac ?ip ?srv =
      c1 # c2 # replicate 6 (replicate 32 0) @ opt # (if type = DHCP_REQUEST then [req] else []) @ [c9]"
    by (simp add: dhcp_chunks_def c1_def c2_def c9_def req_def opt_def)
  have "send_DHCP_MESSAGE hw type secs d e = do {
      (d, e) \<leftarrow> dhcp_write hw c1 d1 e1;
      (d, e) \<leftarrow> dhcp_write hw c2 d e;
      (d, e) \<leftarrow> dhcp_writes hw (replicate 6 (replicate 32 0)) d e;
      (d, e) \<leftarrow> dhcp_write hw (opt) d e;
      (d, e) \<leftarrow> (if type = DHCP_REQUEST then dhcp_write hw req d e else Some (d, e));
      (d, e) \<leftarrow> dhcp_write hw c9 d e;
      (_, e) \<leftarrow> eudp_endPacket hw (d_udp d) e;
      Some (d, e) }"
  proof -
    have k: "of_nat (length [0x57, 0x49, 0x5A, 0x6E, 0x65, 0x74 :: u8]) + 6 = (12 :: u8)" by simp
    have b1: "take 28 (splice ((splice ((replicate 32 0)[0 := DHCP_BOOTREQUEST, 1 := DHCP_HTYPE10MB,
          2 := DHCP_HLENETHERNET, 3 := DHCP_HOPS]) 4 (le32 (htonl ?xid)))
        [8 := ucast (drop_bit 8 (secs AND 0xff00)), 9 := ucast (secs AND 0x00ff)]) 10 (le16 (htons DHCP_FLAGSBROADCAST))) = c1"
    proof -
      have "le16 (htons 0x8000) = [0x80, 0]" by code_simp
      then show ?thesis
        using header_buffer [of ?xid "ucast (drop_bit 8 secs)" "ucast secs"]
        by (simp only: htonl_bytes_le secs_bytes DHCP_BOOTREQUEST_def DHCP_HTYPE10MB_def DHCP_HLENETHERNET_def
            DHCP_HOPS_def DHCP_FLAGSBROADCAST_def c1_def be_bytes_def)
    qed
    have b3: "printByte (printByte (printByte (splice ((splice ((replicate 32 0)[0 := ucast (drop_bit 24 MAGIC_COOKIE AND 0xFF),
          1 := ucast (drop_bit 16 MAGIC_COOKIE AND 0xFF), 2 := ucast (drop_bit 8 MAGIC_COOKIE AND 0xFF),
          3 := ucast (MAGIC_COOKIE AND 0xFF), 4 := dhcpMessageType, 5 := 0x01, 6 := type, 7 := dhcpClientIdentifier,
          8 := 0x07, 9 := 0x01]) 10 ?mac)[16 := hostName, 17 := of_nat (length HOST_NAME) + 6]) 18 (HOST_NAME @ [0]))
        24 (?mac ! 3)) 26 (?mac ! 4)) 28 (?mac ! 5) = opt @ [0, 0]"
    proof -
      have "ucast (drop_bit 24 MAGIC_COOKIE AND 0xFF) = (0x63 :: u8)" "ucast (drop_bit 16 MAGIC_COOKIE AND 0xFF) = (0x82 :: u8)"
          "ucast (drop_bit 8 MAGIC_COOKIE AND 0xFF) = (0x53 :: u8)" "ucast (MAGIC_COOKIE AND 0xFF) = (0x63 :: u8)"
        by code_simp+
      then show ?thesis
        using option_buffer [OF assms(1), of "0x63" "0x82" "0x53" "0x63" type 12]
        by (simp only: k dhcpMessageType_def dhcpClientIdentifier_def hostName_def HOST_NAME_def opt_def
            append_assoc append_Cons append_Nil)
    qed
    have t30: "take 30 (opt @ [0, 0]) = opt" "take 32 (replicate 32 0) = replicate 32 (0 :: u8)" using opt by simp_all
    have b2: "take 16 (splice (replicate 32 0) 0 ?mac) = c2"
      unfolding c2_def by (rule mac_buffer [OF assms(1)])
    have b4: "take 12 ((opt @ [0, 0])[0 := dhcpRequestedIPaddr, 1 := 0x04, 2 := ?ip ! 0, 3 := ?ip ! 1, 4 := ?ip ! 2,
        5 := ?ip ! 3, 6 := dhcpServerIdentifier, 7 := 0x04, 8 := ?srv ! 0, 9 := ?srv ! 1, 10 := ?srv ! 2, 11 := ?srv ! 3]) = req"
      using four_bytes [OF assms(2)] four_bytes [OF assms(3)] opt
      by (subst first12) (simp_all add: req_def)
    have b9: "take 9 (buf[0 := dhcpParamRequest, 1 := 0x06, 2 := opt_subnetMask, 3 := routersOnSubnet,
        4 := opt_dns, 5 := opt_domainName, 6 := dhcpT1value, 7 := dhcpT2value, 8 := endOption]) = c9"
      if "9 \<le> length buf" for buf
      using that by (subst first9) (simp_all add: c9_def)
    have d1: "d_transactionId d1 = ?xid" "d_macAddr d1 = ?mac" "d_localIp d1 = ?ip" "d_serverIp d1 = ?srv"
      by (simp_all add: d1_def)
    show ?thesis
      unfolding send_DHCP_MESSAGE_def begin_ Let_def split_conv
      apply (simp only: r dhcp.simps d1_def [symmetric] simp_thms one_neq_neg_one if_False)
      apply (simp only: d1 b1)
      apply (rule bind_step, drule dhcp_write_fields, elim conjE)
      apply (simp only: d1 b2)
      apply (rule bind_step, drule dhcp_write_fields, elim conjE)
      apply (simp only: d1 t30)
      apply (rule bind_step, drule dhcp_writes_fields, elim conjE)
      apply (simp only: d1 b3 t30)
      apply (rule bind_step, drule dhcp_write_fields, elim conjE)
      apply (simp only: d1 b4)
      apply (cases "type = DHCP_REQUEST")
       apply (simp only: simp_thms if_True Option.bind_assoc split_bind)
       apply (rule bind_step)
       apply (simp add: b9 [simplified] opt)
      apply (simp only: simp_thms if_False Option.bind_lunit split_conv)
      apply (simp add: b9 [simplified] opt)
      done
  qed
  moreover have "concat (dhcp_chunks type ?xid secs ?mac ?ip ?srv) = dhcp_message type ?xid secs ?mac ?ip ?srv"
    by (rule concat_dhcp_chunks)
  ultimately show ?thesis
    by (intro exI [of _ "dhcp_chunks type ?xid secs ?mac ?ip ?srv"])
      (auto simp: chunks dhcp_writes_append d1_def split: Option.bind_split)
qed

theorem message_bytes_witness:
  "\<exists>chunks u e1. eudp_beginPacket sim_hw [255, 255, 255, 255] DHCP_SERVER_PORT eudp_new (sim_eth 0 []) = (1, u, e1) \<and>
    concat chunks = dhcp_message DHCP_DISCOVER 7 2 [0xDE, 0xAD, 0xBE, 0xEF, 0xFE, 0xED] [0, 0, 0, 0] [0, 0, 0, 0] \<and>
    length (concat chunks) = 275 \<and>
    send_DHCP_MESSAGE sim_hw DHCP_DISCOVER 2 (dhcp_new\<lparr>d_transactionId := 7,
        d_macAddr := [0xDE, 0xAD, 0xBE, 0xEF, 0xFE, 0xED]\<rparr>) (sim_eth 0 []) = do {
      (d, e) \<leftarrow> dhcp_writes sim_hw chunks (dhcp_new\<lparr>d_transactionId := 7,
        d_macAddr := [0xDE, 0xAD, 0xBE, 0xEF, 0xFE, 0xED], d_udp := u\<rparr>) e1;
      (_, e) \<leftarrow> eudp_endPacket sim_hw (d_udp d) e;
      Some (d, e) }"
proof -
  let ?mac = "[0xDE, 0xAD, 0xBE, 0xEF, 0xFE, 0xED] :: u8 list"
  let ?d = "dhcp_new\<lparr>d_transactionId := 7, d_macAddr := ?mac\<rparr>"
  obtain r u e1 where b: "eudp_beginPacket sim_hw [255, 255, 255, 255] DHCP_SERVER_PORT (d_udp ?d) (sim_eth 0 []) = (r, u, e1)"
    by (rule prod_cases3)
  then have r: "r = 1" by (auto simp: eudp_beginPacket_def startUDP_def zero_ip_def Let_def split: prod.splits)
  have "length (dhcp_message DHCP_DISCOVER 7 2 ?mac [0, 0, 0, 0] [0, 0, 0, 0]) = 275"
    by (simp add: dhcp_message_def be32_bytes_def be_bytes_def hex_def)
  then show ?thesis
    using message_bytes [OF _ _ _ b, of DHCP_DISCOVER 2] b
    by (auto simp: dhcp_new_def r eval_nat_numeral simp del: DHCP_DISCOVER_def)
qed

end
