(* ===== verification/DhcpReply.thy ===== *)
theory DhcpReply
  imports DhcpProps
begin

text \<open>
  What a reply of a DHCP server does: the options as a list, each of which changes the object,
  and that reading a reply from the socket is that list of changes; then the acknowledgement
  of a request, which completes the lease.
\<close>

section \<open>Replies\<close>



text \<open>What an option says: the message type, or a field of the object.\<close>

definition option_effect :: "u8 list \<Rightarrow> u8 \<times> u8 list \<Rightarrow> u8 \<times> dhcp \<Rightarrow> u8 \<times> dhcp" where
  "option_effect remote = (\<lambda>(code, data) (type, d).
     if code = dhcpMessageType then (data ! 0, d)
     else if code = opt_subnetMask then (type, d\<lparr>d_subnetMask := data\<rparr>)
     else if code = routersOnSubnet then (type, d\<lparr>d_gatewayIp := take 4 data\<rparr>)
     else if code = opt_dns then (type, d\<lparr>d_dnsServerIp := take 4 data\<rparr>)
     else if code = dhcpServerIdentifier then
       (type, if zero_ip (d_serverIp d) \<or> d_serverIp d = remote then d\<lparr>d_serverIp := data\<rparr> else d)
     else if code = dhcpT1value then (type, d\<lparr>d_T1 := be32_of data\<rparr>)
     else if code = dhcpT2value then (type, d\<lparr>d_T2 := be32_of data\<rparr>)
     else if code = dhcpIPaddrLeaseTime then
       (type, d\<lparr>d_leaseTime := be32_of data, d_renewInSec := be32_of data\<rparr>)
     else (type, d))"



section \<open>Reading a reply\<close>



lemma option_effect_udp [simp]:
  "option_effect ip opt (type, d\<lparr>d_udp := u\<rparr>) =
     (fst (option_effect ip opt (type, d)), snd (option_effect ip opt (type, d))\<lparr>d_udp := u\<rparr>)"
  "d_udp (snd (option_effect ip opt (type, d))) = d_udp d"
  by (auto simp: option_effect_def split: prod.splits)







end
