(* ===== verification/Sha1.thy ===== *)
theory Sha1
  imports SdPrelude
begin

text \<open>
  The SHA-1 hash (Hash/src/sha1/sha1.c, Hash/src/Hash.cpp), on the little-endian ESP8266.  The
  eighty rounds, which the code has unrolled, are a fold over their numbers.  \<open>None\<close> is an access
  outside the data or the buffer of the context, or a loop that does not end.
\<close>

section \<open>The rounds\<close>

definition rol :: "u32 \<Rightarrow> nat \<Rightarrow> u32" where
  "rol v n = push_bit n v OR drop_bit (32 - n) v"

text \<open>The word of the block that a round uses; the first sixteen are put in byte order.\<close>

definition blk0 :: "nat \<Rightarrow> u32 list \<Rightarrow> u32 \<times> u32 list" where
  "blk0 i l =
     (let x = rol (l ! i) 24 AND 0xFF00FF00 OR rol (l ! i) 8 AND 0x00FF00FF in (x, l[i := x]))"

definition blk :: "nat \<Rightarrow> u32 list \<Rightarrow> u32 \<times> u32 list" where
  "blk i l =
     (let x = rol (l ! ((i + 13) mod 16) XOR l ! ((i + 8) mod 16) XOR l ! ((i + 2) mod 16) XOR l ! (i mod 16)) 1
      in (x, l[i mod 16 := x]))"

text \<open>The new values of \<open>z\<close> and \<open>w\<close>; \<open>m\<close> is the word of the block.\<close>

definition R01 :: "u32 \<Rightarrow> u32 \<Rightarrow> u32 \<Rightarrow> u32 \<Rightarrow> u32 \<Rightarrow> u32 \<Rightarrow> u32 \<times> u32" where
  "R01 v w x y z m = (z + (((w AND (x XOR y)) XOR y) + m + 0x5A827999 + rol v 5), rol w 30)"

definition R2 :: "u32 \<Rightarrow> u32 \<Rightarrow> u32 \<Rightarrow> u32 \<Rightarrow> u32 \<Rightarrow> u32 \<Rightarrow> u32 \<times> u32" where
  "R2 v w x y z m = (z + ((w XOR x XOR y) + m + 0x6ED9EBA1 + rol v 5), rol w 30)"

definition R3 :: "u32 \<Rightarrow> u32 \<Rightarrow> u32 \<Rightarrow> u32 \<Rightarrow> u32 \<Rightarrow> u32 \<Rightarrow> u32 \<times> u32" where
  "R3 v w x y z m = (z + ((((w OR x) AND y) OR (w AND x)) + m + 0x8F1BBCDC + rol v 5), rol w 30)"

definition R4 :: "u32 \<Rightarrow> u32 \<Rightarrow> u32 \<Rightarrow> u32 \<Rightarrow> u32 \<Rightarrow> u32 \<Rightarrow> u32 \<times> u32" where
  "R4 v w x y z m = (z + ((w XOR x XOR y) + m + 0xCA62C1D6 + rol v 5), rol w 30)"

text \<open>
  Round \<open>i\<close> on the working variables \<open>a\<close> to \<open>e\<close> and the block: the variables take the roles of
  the parameters of the macro shifted by one place from round to round.
\<close>

definition sha1_round :: "nat \<Rightarrow> u32 list \<times> u32 list \<Rightarrow> u32 list \<times> u32 list" where
  "sha1_round i = (\<lambda>(r, l).
     let p = (\<lambda>k. (k + 4 * i) mod 5);
         (m, l) = (if i < 16 then blk0 i l else blk i l);
         R = (if i < 20 then R01 else if i < 40 then R2 else if i < 60 then R3 else R4);
         (z, w) = R (r ! p 0) (r ! p 1) (r ! p 2) (r ! p 3) (r ! p 4) m
     in (r[p 4 := z, p 1 := w], l))"

definition SHA1Transform :: "u32 list \<Rightarrow> u8 list \<Rightarrow> u32 list" where
  "SHA1Transform state buffer =
     (let l = map (\<lambda>i. get32 buffer (4 * i)) [0..<16];
          (r, l) = fold sha1_round [0..<80] (state, l)
      in map2 (+) state r)"

section \<open>The context\<close>

record sha1_ctx =
  s_state :: "u32 list"
  s_count :: "u32 list"
  s_buffer :: "u8 list"

text \<open>The buffer is not initialised; \<open>old\<close> is what lies there.\<close>

definition SHA1Init :: "u8 list \<Rightarrow> sha1_ctx" where
  "SHA1Init old =
     \<lparr> s_state = [0x67452301, 0xEFCDAB89, 0x98BADCFE, 0x10325476, 0xC3D2E1F0], s_count = [0, 0],
       s_buffer = old \<rparr>"

text \<open>The loop over the whole blocks of the data.\<close>

partial_function (option) updateLoop :: "u8 list \<Rightarrow> u32 \<Rightarrow> u32 \<Rightarrow> u32 list \<Rightarrow> (u32 \<times> u32 list) option" where
  "updateLoop data len i state =
     (if i + 63 < len then
        if unat i + 64 \<le> length data
        then updateLoop data len (i + 64) (SHA1Transform state (take 64 (drop (unat i) data)))
        else None
      else Some (i, state))"

definition copyRest :: "u8 list \<Rightarrow> u32 \<Rightarrow> u32 \<Rightarrow> u32 \<Rightarrow> sha1_ctx \<Rightarrow> sha1_ctx option" where
  "copyRest data len i j ctx =
     (if unat j + unat (len - i) \<le> 64 \<and> unat i + unat (len - i) \<le> length data
      then Some (ctx\<lparr>s_buffer := splice (s_buffer ctx) (unat j) (take (unat (len - i)) (drop (unat i) data))\<rparr>)
      else None)"

definition SHA1Update :: "sha1_ctx \<Rightarrow> u8 list \<Rightarrow> u32 \<Rightarrow> sha1_ctx option" where
  "SHA1Update ctx data len =
     (let j = s_count ctx ! 0;
          c0 = j + push_bit 3 len;
          c1 = s_count ctx ! 1 + (if c0 < j then 1 else 0) + drop_bit 29 len;
          ctx = ctx\<lparr>s_count := [c0, c1]\<rparr>;
          j = drop_bit 3 j AND 63
      in if j + len > 63 then
           let i = 64 - j in
           if unat i \<le> length data then
             let buffer = splice (s_buffer ctx) (unat j) (take (unat i) data);
                 state = SHA1Transform (s_state ctx) buffer
             in case updateLoop data len i state of
                  None \<Rightarrow> None
                | Some (i, state) \<Rightarrow> copyRest data len i 0 (ctx\<lparr>s_state := state, s_buffer := buffer\<rparr>)
           else None
         else copyRest data len 0 j ctx)"

partial_function (option) padLoop :: "sha1_ctx \<Rightarrow> sha1_ctx option" where
  "padLoop ctx =
     (if s_count ctx ! 0 AND 504 \<noteq> 448
      then Option.bind (SHA1Update ctx [0] 1) padLoop
      else Some ctx)"

definition SHA1Final :: "sha1_ctx \<Rightarrow> u8 list option" where
  "SHA1Final ctx = do {
     let finalcount = map (\<lambda>i. ucast (drop_bit ((3 - i mod 4) * 8) (s_count ctx ! (if i \<ge> 4 then 0 else 1)) AND 255)) [0..<8];
     ctx \<leftarrow> SHA1Update ctx [0x80] 1;
     ctx \<leftarrow> padLoop ctx;
     ctx \<leftarrow> SHA1Update ctx finalcount 8;
     Some (map (\<lambda>i. ucast (drop_bit ((3 - i mod 4) * 8) (s_state ctx ! (i div 4)) AND 255)) [0..<20]) }"

section \<open>The functions of the library\<close>

definition sha1 :: "u8 list \<Rightarrow> u8 list \<Rightarrow> u32 \<Rightarrow> u8 list option" where
  "sha1 old data len = do {
     let ctx = SHA1Init old;
     ctx \<leftarrow> SHA1Update ctx data len;
     SHA1Final ctx }"

text \<open>
  The hash as a string; \<open>toHex\<close> is the conversion of a number to a hexadecimal \<open>String\<close>.
\<close>

definition sha1_string :: "(u8 \<Rightarrow> u8 list) \<Rightarrow> u8 list \<Rightarrow> u8 list \<Rightarrow> u32 \<Rightarrow> u8 list option" where
  "sha1_string toHex old data len = do {
     hash \<leftarrow> sha1 old data len;
     Some (concat (map (\<lambda>i. let hex = toHex (hash ! i) in if length hex < 2 then 0x30 # hex else hex) [0..<20])) }"

end
