(* ===== verification/Sha1Props.thy ===== *)
theory Sha1Props
  imports Sha1
begin

text \<open>
  The hash function of the standard (FIPS 180-4), and that the code computes it: a round by round
  simulation of the transformation, the buffering of the data as a refinement of the list of
  whole blocks, and the padding.
\<close>

section \<open>The standard\<close>

fun schedule :: "(nat \<Rightarrow> u32) \<Rightarrow> nat \<Rightarrow> u32" where
  "schedule M t =
     (if t < 16 then M t
      else word_rotl 1 (schedule M (t - 3) XOR schedule M (t - 8) XOR schedule M (t - 14) XOR schedule M (t - 16)))"

declare schedule.simps [simp del]

definition fips_f :: "nat \<Rightarrow> u32 \<Rightarrow> u32 \<Rightarrow> u32 \<Rightarrow> u32" where
  "fips_f t x y z =
     (if t < 20 then (x AND y) XOR (NOT x AND z)
      else if t < 40 then x XOR y XOR z
      else if t < 60 then (x AND y) XOR (x AND z) XOR (y AND z)
      else x XOR y XOR z)"

definition fips_K :: "nat \<Rightarrow> u32" where
  "fips_K t =
     (if t < 20 then 0x5A827999 else if t < 40 then 0x6ED9EBA1 else if t < 60 then 0x8F1BBCDC else 0xCA62C1D6)"

definition fips_step :: "(nat \<Rightarrow> u32) \<Rightarrow> nat \<Rightarrow> u32 list \<Rightarrow> u32 list" where
  "fips_step W t r =
     [word_rotl 5 (r ! 0) + fips_f t (r ! 1) (r ! 2) (r ! 3) + r ! 4 + fips_K t + W t,
      r ! 0, word_rotl 30 (r ! 1), r ! 2, r ! 3]"

text \<open>The words of a block, most significant byte first.\<close>

definition be_words :: "u8 list \<Rightarrow> nat \<Rightarrow> u32" where
  "be_words block i = be32_of (slice (4 * i) 4 block)"

definition fips_compress :: "u8 list \<Rightarrow> u32 list \<Rightarrow> u32 list" where
  "fips_compress block H = map2 (+) H (fold (fips_step (schedule (be_words block))) [0..<80] H)"

function blocks64 :: "u8 list \<Rightarrow> u8 list list" where
  "blocks64 xs = (if length xs < 64 then [] else take 64 xs # blocks64 (drop 64 xs))"
  by pat_completeness auto
termination by (relation "measure length") auto

declare blocks64.simps [simp del]

definition be_bytes_of_nat :: "nat \<Rightarrow> nat \<Rightarrow> u8 list" where
  "be_bytes_of_nat k n = map (\<lambda>i. of_nat (n div 256 ^ (k - 1 - i))) [0..<k]"

definition fips_pad :: "u8 list \<Rightarrow> u8 list" where
  "fips_pad msg =
     msg @ [0x80] @ replicate ((119 - length msg mod 64) mod 64) 0 @ be_bytes_of_nat 8 (8 * length msg)"

definition fips_H0 :: "u32 list" where
  "fips_H0 = [0x67452301, 0xEFCDAB89, 0x98BADCFE, 0x10325476, 0xC3D2E1F0]"

definition fips_sha1 :: "u8 list \<Rightarrow> u8 list" where
  "fips_sha1 msg =
     concat (map be32_bytes (fold fips_compress (blocks64 (fips_pad msg)) fips_H0))"

section \<open>The transformation\<close>

lemma rol_rotl: 
  assumes "0 < n" "n < 32"
  shows "rol v n = word_rotl n v"
proof (rule bit_word_eqI)
  fix k assume k: "k < LENGTH(32)"
  show "bit (rol v n) k = bit (word_rotl n v) k"
  proof (cases "k < n")
    case True
    then have "(k + 32 - n) mod 32 = 32 + k - n" using assms k by simp
    then show ?thesis using True k assms by (auto simp: rol_def bit_simps)
  next
    case False
    then have "(k + 32 - n) mod 32 = k - n" using assms k by (simp add: mod_if)
    moreover have "\<not> bit v (32 + k - n)" using False by (auto dest: bit_imp_le_length)
    ultimately show ?thesis using False k assms by (auto simp: rol_def bit_simps)
  qed
qed

lemma ch_bits: "((x :: u32) AND (y XOR z)) XOR z = (x AND y) XOR (NOT x AND z)"
  by (rule bit_word_eqI) (auto simp: bit_simps)

lemma maj_bits: "((x OR y) AND z) OR (x AND y) = (x AND y) XOR (x AND z) XOR (y AND (z :: u32))"
  by (rule bit_word_eqI) (auto simp: bit_simps)

lemma get32_slice: "i + 3 < length bs \<Longrightarrow> get32 bs i = get32 (slice i 4 bs) 0"
  by (simp add: get32_def get16_def nth_slice)

lemma swap_word: "rol x 24 AND 0xFF00FF00 OR rol x 8 AND 0x00FF00FF = y \<Longrightarrow> le32 y = rev (le32 x)"
proof -
  have m: "(0xFF00FF00 :: u32) = push_bit 24 (mask 8) OR push_bit 8 (mask 8)"
      "(0x00FF00FF :: u32) = push_bit 16 (mask 8) OR mask 8"
    by (simp_all add: mask_eq_exp_minus_1)
  let ?y = "rol x 24 AND 0xFF00FF00 OR rol x 8 AND 0x00FF00FF"
  have "ucast (ucast ?y :: u16) = (ucast (drop_bit 24 x) :: u8)"
      "ucast (drop_bit 8 (ucast ?y :: u16)) = (ucast (drop_bit 16 x) :: u8)"
      "ucast (ucast (drop_bit 16 ?y) :: u16) = (ucast (drop_bit 8 x) :: u8)"
      "ucast (drop_bit 8 (ucast (drop_bit 16 ?y) :: u16)) = (ucast x :: u8)"
    unfolding rol_def m by (rule bit_word_eqI; auto simp: bit_simps dest: bit_imp_le_length)+
  then show "?y = y \<Longrightarrow> le32 y = rev (le32 x)"
    unfolding le32_rev be32_bytes_def by (auto simp: le32_def le16_def)
qed

lemma blk0_bytes:
  assumes "length bs = 64" and "i < 16" and "l ! i = get32 bs (4 * i)"
  shows "fst (blk0 i l) = be_words bs i"
proof -
  have "4 * i + 3 < length bs" using assms(1, 2) by linarith
  then have x: "l ! i = get32 (slice (4 * i) 4 bs) 0" unfolding assms(3) by (rule get32_slice)
  show ?thesis
    unfolding be_words_def
  proof (rule swapped_bytes [OF swap_word])
    show "rol (get32 (slice (4 * i) 4 bs) 0) 24 AND 0xFF00FF00 OR rol (get32 (slice (4 * i) 4 bs) 0) 8 AND 0x00FF00FF =
        fst (blk0 i l)"
      by (simp only: blk0_def Let_def fst_conv x)
    show "length (slice (4 * i) 4 bs) = 4" using assms(1, 2) by (intro length_slice_exact) linarith
  qed
qed

section \<open>The rounds\<close>

text \<open>
  After \<open>n\<close> rounds the working variables are those of the standard, shifted in their roles; the
  block holds the last sixteen words of the schedule, and at first what has not been used of the
  data.
\<close>

definition shifted :: "nat \<Rightarrow> u32 list \<Rightarrow> u32 list \<Rightarrow> bool" where
  "shifted n r s \<longleftrightarrow> length r = 5 \<and> length s = 5 \<and> (\<forall>k < 5. r ! ((k + 4 * n) mod 5) = s ! k)"

definition window :: "nat \<Rightarrow> u8 list \<Rightarrow> u32 list \<Rightarrow> bool" where
  "window n bs l \<longleftrightarrow> length l = 16 \<and>
     (\<forall>t < n. n \<le> t + 16 \<longrightarrow> l ! (t mod 16) = schedule (be_words bs) t) \<and>
     (\<forall>k < 16. n \<le> k \<longrightarrow> l ! k = get32 bs (4 * k))"

lemma window_blk0:
  assumes "window n bs l" and "length bs = 64" and "n < 16"
  shows "fst (blk0 n l) = schedule (be_words bs) n" and "window (Suc n) bs (snd (blk0 n l))"
proof -
  have v: "fst (blk0 n l) = schedule (be_words bs) n"
    using assms blk0_bytes [of bs n l] by (subst schedule.simps) (simp add: window_def)
  then show "fst (blk0 n l) = schedule (be_words bs) n" .
  have "snd (blk0 n l) = l[n := fst (blk0 n l)]" by (simp add: blk0_def Let_def)
  then show "window (Suc n) bs (snd (blk0 n l))"
    using assms v by (auto simp: window_def nth_list_update less_Suc_eq)
qed

lemma window_blk:
  assumes "window n bs l" and "16 \<le> n"
  shows "fst (blk n l) = schedule (be_words bs) n" and "window (Suc n) bs (snd (blk n l))"
proof -
  have i: "(n + 13) mod 16 = (n - 3) mod 16" "(n + 8) mod 16 = (n - 8) mod 16" "(n + 2) mod 16 = (n - 14) mod 16"
      "n mod 16 = (n - 16) mod 16"
  proof -
    have "n + 13 = (n - 3) + 16" "n + 8 = (n - 8) + 16" "n + 2 = (n - 14) + 16" "n = (n - 16) + 16"
      using assms(2) by simp_all
    then show "(n + 13) mod 16 = (n - 3) mod 16" "(n + 8) mod 16 = (n - 8) mod 16" "(n + 2) mod 16 = (n - 14) mod 16"
        "n mod 16 = (n - 16) mod 16"
      by (metis mod_add_self2)+
  qed
  have l: "l ! ((n - k) mod 16) = schedule (be_words bs) (n - k)" if "0 < k" "k \<le> 16" for k
    using assms that by (simp add: window_def)
  have v: "fst (blk n l) = schedule (be_words bs) n"
    using assms(2) unfolding blk_def Let_def fst_conv i
    by (subst schedule.simps) (simp add: l rol_rotl)
  then show "fst (blk n l) = schedule (be_words bs) n" .
  have "snd (blk n l) = l[n mod 16 := fst (blk n l)]" by (simp add: blk_def Let_def)
  moreover have "n mod 16 \<noteq> t mod 16" if t: "t < n" "Suc n \<le> t + 16" for t
  proof
    assume "n mod 16 = t mod 16"
    then have "16 dvd n - t" using t(1) mod_eq_dvd_iff_nat [of t n 16] by simp
    then show False using t by (auto dest: dvd_imp_le)
  qed
  ultimately show "window (Suc n) bs (snd (blk n l))"
    using assms unfolding window_def
    by (intro conjI allI impI) (simp_all add: v nth_list_update less_Suc_eq, (erule disjE, simp_all)+)
qed

lemma rotated_update:
  assumes "shifted n r s" and "z = s0" "w = s2"
  shows "shifted (Suc n) (r[(4 + 4 * n) mod 5 := z, (1 + 4 * n) mod 5 := w]) [s0, s ! 0, s2, s ! 2, s ! 3]"
proof -
  define q where "q = (4 * n) mod 5"
  have p1: "(k + 4 * n) mod 5 = (k + q) mod 5" for k
    by (simp add: q_def mod_add_right_eq)
  have "k + 4 * Suc n = k + 4 + 4 * n" for k by simp
  then have p2: "(k + 4 * Suc n) mod 5 = (k + 4 + q) mod 5" for k by (simp only: p1)
  have "length r = 5" using assms(1) by (simp add: shifted_def)
  then obtain r0 r1 r2 r3 r4 where r: "r = [r0, r1, r2, r3, r4]"
    by (auto simp: length_Suc_conv numeral_eq_Suc)
  have less5: "k < 5 \<longleftrightarrow> k = 0 \<or> k = 1 \<or> k = 2 \<or> k = 3 \<or> k = 4" for k :: nat by linarith
  have all5: "(\<forall>k < 5. P k) \<longleftrightarrow> P 0 \<and> P 1 \<and> P 2 \<and> P 3 \<and> P (4 :: nat)" for P
    unfolding less5 by blast
  have "q < 5" by (simp add: q_def)
  then consider "q = 0" | "q = 1" | "q = 2" | "q = 3" | "q = 4" by linarith
  then show ?thesis
    using assms unfolding shifted_def all5 p1 p2 r by cases simp_all
qed

lemma round_step:
  assumes r: "shifted n r s" and l: "window n bs l" and bs: "length bs = 64"
    and step: "sha1_round n (r, l) = (r', l')"
  shows "shifted (Suc n) r' (fips_step (schedule (be_words bs)) n s)" and "window (Suc n) bs l'"
proof -
  define m l1 where "m = fst (if n < 16 then blk0 n l else blk n l)" and "l1 = snd (if n < 16 then blk0 n l else blk n l)"
  have m: "m = schedule (be_words bs) n" "window (Suc n) bs l1"
    using window_blk0 [OF l bs] window_blk [OF l] by (auto simp: m_def l1_def)
  define R where "R = (if n < 20 then R01 else if n < 40 then R2 else if n < 60 then R3 else R4)"
  have s: "r ! ((k + 4 * n) mod 5) = s ! k" if "k < 5" for k using r that by (simp add: shifted_def)
  have z: "R (s ! 0) (s ! 1) (s ! 2) (s ! 3) (s ! 4) m =
      (word_rotl 5 (s ! 0) + fips_f n (s ! 1) (s ! 2) (s ! 3) + s ! 4 + fips_K n + m, word_rotl 30 (s ! 1))"
    by (simp add: R_def R01_def R2_def R3_def R4_def fips_f_def fips_K_def rol_rotl ch_bits maj_bits)
  have "sha1_round n (r, l) = (r[(4 + 4 * n) mod 5 := fst (R (s ! 0) (s ! 1) (s ! 2) (s ! 3) (s ! 4) m),
      (1 + 4 * n) mod 5 := snd (R (s ! 0) (s ! 1) (s ! 2) (s ! 3) (s ! 4) m)], l1)"
    using s [of 0] s [of 1] s [of 2] s [of 3] s [of 4]
    by (simp add: sha1_round_def Let_def split_beta m_def l1_def R_def)
  then have "r' = r[(4 + 4 * n) mod 5 := word_rotl 5 (s ! 0) + fips_f n (s ! 1) (s ! 2) (s ! 3) + s ! 4 + fips_K n + m,
      (1 + 4 * n) mod 5 := word_rotl 30 (s ! 1)]" "l' = l1"
    using step unfolding z by simp_all
  then show "shifted (Suc n) r' (fips_step (schedule (be_words bs)) n s)" "window (Suc n) bs l'"
    using rotated_update [OF r refl refl] m by (simp_all add: fips_step_def)
qed

lemma rounds:
  assumes "length bs = 64" and "length H = 5"
  shows "shifted n (fst (fold sha1_round [0..<n] (H, map (\<lambda>i. get32 bs (4 * i)) [0..<16])))
      (fold (fips_step (schedule (be_words bs))) [0..<n] H) \<and>
    window n bs (snd (fold sha1_round [0..<n] (H, map (\<lambda>i. get32 bs (4 * i)) [0..<16])))"
proof (induction n)
  case 0
  show ?case using assms(2) by (simp add: shifted_def window_def)
next
  case (Suc n)
  obtain r l where "fold sha1_round [0..<n] (H, map (\<lambda>i. get32 bs (4 * i)) [0..<16]) = (r, l)"
    by (rule prod.exhaust)
  moreover obtain r' l' where "sha1_round n (r, l) = (r', l')" by (rule prod.exhaust)
  ultimately show ?case
    using Suc.IH round_step [of n r "fold (fips_step (schedule (be_words bs))) [0..<n] H" bs l r' l'] assms(1) by simp
qed

theorem transform_is_compress:
  assumes "length bs = 64" and "length H = 5"
  shows "SHA1Transform H bs = fips_compress bs H"
proof -
  obtain r l where rl: "fold sha1_round [0..<80] (H, map (\<lambda>i. get32 bs (4 * i)) [0..<16]) = (r, l)"
    by (rule prod.exhaust)
  define s where "s = fold (fips_step (schedule (be_words bs))) [0..<80] H"
  have r: "length r = 5" "length s = 5" "\<forall>k < 5. r ! ((k + 4 * 80) mod 5) = s ! k"
    using rounds [OF assms, of 80] rl by (simp_all add: shifted_def s_def)
  have "r ! k = s ! k" if "k < 5" for k
  proof -
    have "(k + 4 * 80) mod 5 = k" using that by (simp add: mod_add_eq [symmetric])
    then show ?thesis using r(3) that by metis
  qed
  then have "r = s" using r by (intro nth_equalityI) simp_all
  then show ?thesis using rl by (simp add: SHA1Transform_def fips_compress_def s_def Let_def)
qed

section \<open>The buffer\<close>

lemma length_fips_compress: "length H = 5 \<Longrightarrow> length (fips_compress bs H) = 5"
proof -
  have "length (fold (fips_step W) ts s) = 5" if "length s = 5" for W ts and s :: "u32 list"
    using that by (induction ts arbitrary: s) (simp_all add: fips_step_def)
  then show "length H = 5 \<Longrightarrow> length (fips_compress bs H) = 5" by (simp add: fips_compress_def)
qed

lemma length_fold_compress: "length H = 5 \<Longrightarrow> length (fold fips_compress bss H) = 5"
  by (induction bss arbitrary: H) (simp_all add: length_fips_compress)

lemma blocks64_short: "length xs < 64 \<Longrightarrow> blocks64 xs = []"
  by (subst blocks64.simps) simp

lemma blocks64_step: "64 \<le> length xs \<Longrightarrow> blocks64 xs = take 64 xs # blocks64 (drop 64 xs)"
  by (subst blocks64.simps) simp

lemma blocks64_append: "length xs mod 64 = 0 \<Longrightarrow> blocks64 (xs @ ys) = blocks64 xs @ blocks64 ys"
proof (induction xs rule: blocks64.induct)
  case (1 xs)
  show ?case
  proof (cases "xs = []")
    case True
    then show ?thesis by (simp add: blocks64_short)
  next
    case False
    then have len: "64 \<le> length xs" using 1(2) by (metis length_0_conv mod_less not_less)
    then have "length (drop 64 xs) mod 64 = 0" using 1(2) by (simp add: mod_if)
    then show ?thesis using 1(1) len by (simp add: blocks64_step)
  qed
qed

definition whole :: "u8 list \<Rightarrow> u8 list" where "whole msg = take (64 * (length msg div 64)) msg"
definition left_over :: "u8 list \<Rightarrow> u8 list" where "left_over msg = drop (64 * (length msg div 64)) msg"

lemma whole_left: "whole msg @ left_over msg = msg" "length (whole msg) mod 64 = 0"
    "length (left_over msg) = length msg mod 64"
  by (simp_all add: whole_def left_over_def minus_mult_div_eq_mod)

lemma left_over_front: "length xs = 64 * k \<Longrightarrow> left_over (xs @ ys) = left_over ys"
  by (simp add: left_over_def div_mult_self3)

lemma left_over_append:
  "left_over (msg @ data) = left_over (left_over msg @ data)"
  "blocks64 (msg @ data) = blocks64 (whole msg) @ blocks64 (left_over msg @ data)"
proof -
  have "blocks64 (whole msg @ left_over msg @ data) = blocks64 (whole msg) @ blocks64 (left_over msg @ data)"
    using whole_left(2) by (rule blocks64_append)
  then show "blocks64 (msg @ data) = blocks64 (whole msg) @ blocks64 (left_over msg @ data)"
    unfolding append_assoc [symmetric] whole_left(1) .
  obtain k where k: "length (whole msg) = 64 * k" using whole_left(2) [of msg] by (auto elim: dvdE simp: mod_eq_0_iff_dvd)
  have "left_over (whole msg @ ys) = left_over ys" for ys using k by (rule left_over_front)
  then show "left_over (msg @ data) = left_over (left_over msg @ data)"
    using whole_left(1) by (metis append_assoc)
qed

lemma blocks64_whole: "blocks64 msg = blocks64 (whole msg)"
  using left_over_append(2) [of msg "[]"] whole_left(3) [of msg] by (simp add: blocks64_short)

text \<open>The context after the bytes \<open>msg\<close>.\<close>

definition ctx_at :: "u8 list \<Rightarrow> sha1_ctx \<Rightarrow> bool" where
  "ctx_at msg c \<longleftrightarrow>
     s_state c = fold fips_compress (blocks64 msg) fips_H0 \<and> length (s_buffer c) = 64 \<and>
     s_count c = [of_nat (8 * length msg), of_nat (8 * length msg div 2 ^ 32)] \<and>
     take (length msg mod 64) (s_buffer c) = left_over msg"

lemma updateLoop_blocks:
  assumes "i \<le> length data" and "length data + 64 < 2 ^ 32" and "length st = 5"
  shows "updateLoop data (of_nat (length data)) (of_nat i) st =
    Some (of_nat (i + 64 * ((length data - i) div 64)), fold fips_compress (blocks64 (drop i data)) st)"
  using assms(1, 3)
proof (induction "length data - i" arbitrary: i st rule: less_induct)
  case less
  have u: "unat (of_nat i :: u32) = i" "unat (of_nat (length data) :: u32) = length data"
      "unat (of_nat i + 63 :: u32) = i + 63"
    using assms(2) less.prems(1) by (simp_all add: unat_of_nat_small unat_word_ariths)
  show ?case
  proof (cases "i + 63 < length data")
    case True
    have "updateLoop data (of_nat (length data)) (of_nat i) st =
        updateLoop data (of_nat (length data)) (of_nat (i + 64)) (SHA1Transform st (take 64 (drop i data)))"
    proof -
      have "of_nat i + 63 < (of_nat (length data) :: u32)" using True by (simp only: word_less_nat_alt u)
      then show ?thesis using True u(1) by (subst updateLoop.simps) simp
    qed
    also have "SHA1Transform st (take 64 (drop i data)) = fips_compress (take 64 (drop i data)) st"
      using True less.prems by (intro transform_is_compress) simp_all
    also have "updateLoop data (of_nat (length data)) (of_nat (i + 64)) \<dots> =
        Some (of_nat (i + 64 + 64 * ((length data - (i + 64)) div 64)),
          fold fips_compress (blocks64 (drop (i + 64) data)) (fips_compress (take 64 (drop i data)) st))"
      using True less.prems by (intro less.hyps) (simp_all add: length_fips_compress)
    also have "i + 64 + 64 * ((length data - (i + 64)) div 64) = i + 64 * ((length data - i) div 64)"
    proof -
      have "length data - i = (length data - (i + 64)) + 64" using True by linarith
      then have "(length data - i) div 64 = Suc ((length data - (i + 64)) div 64)"
        by (metis div_add_self2 Suc_eq_plus1 zero_neq_numeral)
      then show ?thesis by (simp only: mult_Suc_right add.assoc)
    qed
    finally show ?thesis using True by (simp add: blocks64_step add.commute)
  next
    case False
    then have "\<not> of_nat i + 63 < (of_nat (length data) :: u32)" by (simp only: word_less_nat_alt u not_False_eq_True)
    moreover have "(length data - i) div 64 = 0" using False by simp
    ultimately show ?thesis using False by (subst updateLoop.simps) (simp add: blocks64_short)
  qed
qed

lemma carry_iff:
  assumes "x < W" and "y < (W :: nat)"
  shows "(x + y) div W = (if (x + y) mod W < x then 1 else 0)"
proof (cases "x + y < W")
  case False
  then have "(x + y) mod W = (x + y - W) mod W" by (intro le_mod_geq) simp
  also have "\<dots> = x + y - W" using assms by (intro mod_less) linarith
  finally have "(x + y) mod W < x" using assms(2) False by linarith
  moreover have "(x + y) div W = Suc ((x + y - W) div W)" using assms False by (intro le_div_geq) linarith+
  moreover have "(x + y - W) div W = 0" using assms by (intro div_less) linarith
  ultimately show ?thesis by simp
qed simp

text \<open>The two words of the count are the number of bits.\<close>

lemma count_add:
  assumes "n < 2 ^ 32"
  shows "of_nat (8 * m) + push_bit 3 (of_nat n) = (of_nat (8 * (m + n)) :: u32)" (is ?low)
    and "of_nat (8 * m div 2 ^ 32) + (if (of_nat (8 * (m + n)) :: u32) < of_nat (8 * m) then 1 else 0) +
      drop_bit 29 (of_nat n) = (of_nat (8 * (m + n) div 2 ^ 32) :: u32)" (is ?high)
proof -
  show ?low by (simp add: push_bit_eq_mult algebra_simps)
  have u: "unat (of_nat x :: u32) = x mod 2 ^ 32" for x :: nat
    by (simp add: unsigned_of_nat take_bit_eq_mod)
  have carry: "(8 * (m + n)) div 2 ^ 32 =
      8 * m div 2 ^ 32 + 8 * n div 2 ^ 32 + (if (8 * (m + n)) mod 2 ^ 32 < 8 * m mod 2 ^ 32 then 1 else (0 :: nat))"
  proof -
    define W a b where "W = (2 :: nat) ^ 32" and "a = 8 * m" and "b = 8 * n"
    have W: "0 < W" by (simp add: W_def)
    have ab: "8 * (m + n) = a + b" by (simp add: a_def b_def)
    have lt: "a mod W < W" "b mod W < W" using W by simp_all
    have "(a + b) div W = a div W + b div W + (a mod W + b mod W) div W" by (rule div_add1_eq)
    moreover have "(a + b) mod W = (a mod W + b mod W) mod W" by (simp add: mod_simps)
    moreover have "(a mod W + b mod W) div W = (if (a mod W + b mod W) mod W < a mod W then 1 else 0)"
      by (rule carry_iff [OF lt])
    ultimately show ?thesis unfolding ab W_def [symmetric] a_def [symmetric] b_def [symmetric] by simp
  qed
  have "drop_bit 29 (of_nat n) = (of_nat (8 * n div 2 ^ 32) :: u32)"
    using assms by (simp add: word_unat_eq_iff unat_drop_bit_eq drop_bit_eq_div u unat_div)
  then show ?high
    unfolding carry of_nat_add by (simp only: word_less_nat_alt u if_distrib [of of_nat] of_nat_1 semiring_1_class.of_nat_0 ac_simps)
qed

lemma count_index: "unat (drop_bit 3 (of_nat (8 * m) :: u32) AND 63) = m mod 64"
proof -
  have m: "(63 :: u32) = mask 6" by (simp add: mask_eq_exp_minus_1)
  define c where "c = (of_nat (8 * m) :: u32)"
  have c: "unat c = 8 * m mod 2 ^ 32"
    unfolding c_def by (simp only: unsigned_of_nat take_bit_eq_mod len_bit0 len_num1) simp
  have "unat (drop_bit 3 c AND 63) = unat c div 8 mod 64"
    unfolding m take_bit_eq_mask [symmetric]
    by (simp add: unsigned_take_bit_eq take_bit_eq_mod unat_drop_bit_eq drop_bit_eq_div unat_div unat_mod)
  then have "unat (drop_bit 3 (of_nat (8 * m) :: u32) AND 63) = (8 * m mod 2 ^ 32) div 8 mod 64"
    unfolding c unfolding c_def .
  also have "\<dots> = m mod 64"
  proof -
    have "8 * m mod 2 ^ 32 = 8 * (m mod 2 ^ 29)" using mult_mod_right [of 8 m "2 ^ 29 :: nat"] by simp
    then have "(8 * m mod 2 ^ 32) div 8 = m mod 2 ^ 29" by simp
    moreover have "m mod 2 ^ 29 mod 64 = m mod 64" by (rule mod_mod_cancel) simp
    ultimately show ?thesis by simp
  qed
  finally show ?thesis .
qed

lemma take_add_same: "take n b = t \<Longrightarrow> length t = n \<Longrightarrow> take n b @ xs = t @ xs"
  by simp

lemma update_ctx:
  assumes c: "ctx_at msg c" and n: "length data + 64 < 2 ^ 32"
  shows "\<exists>c'. SHA1Update c data (of_nat (length data)) = Some c' \<and> ctx_at (msg @ data) c'"
proof -
  define r n where "r = length msg mod 64" and "n = length data"
  define j :: u32 where "j = drop_bit 3 (of_nat (8 * length msg)) AND 63"
  define cnt where "cnt = [of_nat (8 * length (msg @ data)), of_nat (8 * length (msg @ data) div 2 ^ 32) :: u32]"
  define c1 where "c1 = c\<lparr>s_count := cnt\<rparr>"
  have st: "s_state c = fold fips_compress (blocks64 msg) fips_H0" "length (s_buffer c) = 64"
      "s_count c = [of_nat (8 * length msg), of_nat (8 * length msg div 2 ^ 32)]"
      "take r (s_buffer c) = left_over msg"
    using c by (simp_all only: ctx_at_def r_def)
  have st5: "length (s_state c) = 5" unfolding st by (rule length_fold_compress) (simp add: fips_H0_def)
  have j: "unat j = r" unfolding j_def r_def by (rule count_index)
  have r64: "r < 64" by (simp add: r_def)
  have n32: "n + 64 < 2 ^ 32" using assms(2) by (simp only: n_def)
  have un: "unat (of_nat n :: u32) = n" using n32 by (intro unat_of_nat_small) simp
  have jn: "unat (j + of_nat n) = r + n" using n32 r64 by (simp add: unat_word_ariths j un)
  have jn63: "j + of_nat n > 63 \<longleftrightarrow> r + n > 63" by (simp add: word_less_nat_alt jn)
  have cnt: "[s_count c ! 0 + push_bit 3 (of_nat n), s_count c ! 1 +
      (if s_count c ! 0 + push_bit 3 (of_nat n) < s_count c ! 0 then 1 else 0) + drop_bit 29 (of_nat n)] = cnt"
    using count_add [of n "length msg"] n32 unfolding st(3) cnt_def length_append n_def by simp
  have upd: "SHA1Update c data (of_nat n) =
      (if r + n > 63 then
         let i = 64 - j in
           if unat i \<le> length data then
             let buffer = splice (s_buffer c) r (take (unat i) data);
                 state = SHA1Transform (s_state c) buffer
             in case updateLoop data (of_nat n) i state of
                  None \<Rightarrow> None
                | Some (i, state) \<Rightarrow> copyRest data (of_nat n) i 0 (c1\<lparr>s_state := state, s_buffer := buffer\<rparr>)
           else None
       else copyRest data (of_nat n) 0 j c1)"
  proof -
    have "drop_bit 3 (s_count c ! 0) AND 63 = j" unfolding j_def st(3) by simp
    moreover have "s_state c1 = s_state c" "s_buffer c1 = s_buffer c" by (simp_all add: c1_def)
    ultimately show ?thesis
      by (simp only: SHA1Update_def Let_def jn63 cnt c1_def [symmetric] j)
  qed
  have nl: "length data = n" by (simp add: n_def)
  have left: "length (left_over msg) = r" by (simp add: whole_left(3) r_def)
  have total: "length (msg @ data) mod 64 = (r + n) mod 64" by (simp add: r_def n_def mod_simps)
  show ?thesis
  proof (cases "r + n > 63")
    case False
    define c' where "c' = c1\<lparr>s_buffer := splice (s_buffer c) r data\<rparr>"
    have "SHA1Update c data (of_nat n) = Some c'"
      using False unfolding upd by (simp add: copyRest_def j un c'_def c1_def nl)
    moreover have "ctx_at (msg @ data) c'"
    proof -
      have short: "length (left_over msg @ data) < 64" using False left by (simp add: n_def)
      have "left_over (left_over msg @ data) = left_over msg @ data" using short by (simp add: left_over_def)
      then have "left_over (msg @ data) = left_over msg @ data" using left_over_append(1) by metis
      moreover have "blocks64 (msg @ data) = blocks64 msg"
        using left_over_append(2) [of msg data] blocks64_short [OF short] blocks64_whole [of msg] by simp
      moreover have "take (r + n) (splice (s_buffer c) r data) = left_over msg @ data"
        using st(2, 4) r64 left by (simp add: splice_def n_def)
      moreover have "(r + n) mod 64 = r + n" using False by simp
      ultimately show ?thesis
        using st False unfolding ctx_at_def total by (simp add: c'_def c1_def cnt_def n_def)
    qed
    ultimately show ?thesis unfolding n_def by blast
  next
    case True
    define k where "k = 64 - r"
    define B where "B = left_over msg @ take k data"
    define i' where "i' = k + 64 * ((n - k) div 64)"
    define s1 where "s1 = fold fips_compress (blocks64 (drop k data)) (fips_compress B (s_state c))"
    have kn: "k \<le> n" using True r64 by (simp add: k_def)
    have ui: "unat (64 - j) = k" using r64 by (simp add: k_def unat_sub_small j)
    have uk: "unat (of_nat k :: u32) = k" by (intro unat_of_nat_small) (simp add: k_def)
    have i: "64 - j = of_nat k" by (simp only: word_unat_eq_iff ui uk)
    have lenB: "length B = 64" using left kn r64 by (simp add: B_def k_def n_def)
    have B: "splice (s_buffer c) r (take k data) = B"
      using st(2, 4) kn r64 by (simp add: splice_def B_def k_def n_def)
    have T: "SHA1Transform (s_state c) B = fips_compress B (s_state c)"
      using lenB st5 by (rule transform_is_compress)
    have i': "i' \<le> n" "n - i' = (n - k) mod 64" "i' = k + 64 * (length (drop k data) div 64)"
    proof -
      show "i' \<le> n" using kn times_div_less_eq_dividend [of 64 "n - k"] unfolding i'_def by linarith
      show "n - i' = (n - k) mod 64" unfolding i'_def by (simp add: minus_mult_div_eq_mod flip: diff_diff_left)
      show "i' = k + 64 * (length (drop k data) div 64)" by (simp add: i'_def n_def)
    qed
    have L: "updateLoop data (of_nat n) (of_nat k) (fips_compress B (s_state c)) = Some (of_nat i', s1)"
      using updateLoop_blocks [of k data "fips_compress B (s_state c)"] kn assms(2) st5
      unfolding n_def [symmetric] i'_def s1_def by (simp add: length_fips_compress)
    have ui': "unat (of_nat i' :: u32) = i'" "unat (of_nat n - of_nat i' :: u32) = n - i'"
      using i'(1) n32 by (simp_all add: unat_of_nat_small unat_sub_small un)
    have n64: "n - i' < 64" unfolding i'(2) by simp
    define c' where "c' = c1\<lparr>s_state := s1, s_buffer := splice B 0 (drop i' data)\<rparr>"
    have "SHA1Update c data (of_nat n) = Some c'"
      unfolding upd using True kn n64 i'(1)
      by (simp add: Let_def ui [unfolded i] B T L i copyRest_def ui' c'_def nl)
    moreover have "ctx_at (msg @ data) c'"
    proof -
      have split: "left_over msg @ data = B @ drop k data" by (simp add: B_def)
      have "blocks64 (B @ drop k data) = B # blocks64 (drop k data)"
        using lenB by (simp add: blocks64_step)
      then have "blocks64 (msg @ data) = blocks64 msg @ B # blocks64 (drop k data)"
        using left_over_append(2) [of msg data] blocks64_whole [of msg] by (simp only: split)
      then have state: "s1 = fold fips_compress (blocks64 (msg @ data)) fips_H0"
        unfolding s1_def st(1) by simp
      have "left_over (B @ drop k data) = left_over (drop k data)"
        using lenB left_over_front [of B 1] by simp
      then have lo: "left_over (msg @ data) = drop i' data"
        using left_over_append(1) [of msg data] unfolding split i'(3) by (simp add: left_over_def add.commute)
      have mod: "length (msg @ data) mod 64 = n - i'"
      proof -
        have "r + n = (n - k) + 64" using kn r64 by (simp add: k_def)
        then show ?thesis unfolding total i'(2) by (metis mod_add_self2)
      qed
      have "take (n - i') (splice B 0 (drop i' data)) = drop i' data"
        by (simp add: splice_def n_def)
      moreover have "length (splice B 0 (drop i' data)) = 64"
        using lenB n64 by (simp add: n_def)
      ultimately show ?thesis
        unfolding ctx_at_def mod lo by (simp add: c'_def state c1_def cnt_def)
    qed
    ultimately show ?thesis unfolding n_def by blast
  qed
qed

section \<open>Padding and the digest\<close>

lemma pad_test: "of_nat (8 * m) AND 504 = (448 :: u32) \<longleftrightarrow> m mod 64 = 56"
proof -
  define c where "c = (of_nat (8 * m) :: u32)"
  have c: "unat (drop_bit 3 c AND 63) = m mod 64" unfolding c_def by (rule count_index)
  have m: "(504 :: u32) = push_bit 3 (mask 6)" "(63 :: u32) = mask 6" "(448 :: u32) = push_bit 3 56"
    by (simp_all add: mask_eq_exp_minus_1)
  have eq: "c AND 504 = push_bit 3 (drop_bit 3 c AND 63)"
    unfolding m by (rule bit_word_eqI) (auto simp: bit_simps)
  have undo: "drop_bit 3 (push_bit 3 (y AND 63)) = (y AND 63 :: u32)" for y
    unfolding m by (rule bit_word_eqI) (auto simp: bit_simps)
  have "c AND 504 = 448 \<longleftrightarrow> drop_bit 3 c AND 63 = 56 AND 63"
  proof
    assume "c AND 504 = 448"
    then have "push_bit 3 (drop_bit 3 c AND 63) = (push_bit 3 (56 AND 63) :: u32)" unfolding eq by simp
    then show "drop_bit 3 c AND 63 = 56 AND 63" using undo by metis
  next
    assume "drop_bit 3 c AND 63 = 56 AND 63"
    then show "c AND 504 = 448" unfolding eq by simp
  qed
  also have "\<dots> \<longleftrightarrow> m mod 64 = 56" unfolding word_unat_eq_iff c by simp
  finally show ?thesis unfolding c_def .
qed

lemma zeros_left:
  assumes "r < 64" and "r \<noteq> (56 :: nat)"
  shows "(120 - r) mod 64 = Suc ((120 - (r + 1) mod 64) mod 64)"
proof -
  consider "r < 56" | "56 < r" "r < 63" | "r = 63" using assms by linarith
  then show ?thesis
  proof cases
    case 1
    then have "120 - r = (56 - r) + 64" "120 - (r + 1) = (55 - r) + 64" "(r + 1) mod 64 = r + 1" by simp_all
    moreover have "(56 - r) mod 64 = 56 - r" "(55 - r) mod 64 = 55 - r" by simp_all
    moreover have "56 - r = Suc (55 - r)" using 1 by linarith
    ultimately show ?thesis by (metis mod_add_self2)
  next
    case 2
    then have "(r + 1) mod 64 = r + 1" "(120 - r) mod 64 = 120 - r" "(120 - (r + 1)) mod 64 = 120 - (r + 1)"
      by simp_all
    moreover have "120 - r = Suc (120 - (r + 1))" using 2 by linarith
    ultimately show ?thesis by (simp only:)
  qed simp
qed

lemma padLoop_zeros:
  assumes "ctx_at msg c"
  shows "\<exists>c'. padLoop c = Some c' \<and> ctx_at (msg @ replicate ((120 - length msg mod 64) mod 64) 0) c'"
  using assms
proof (induction "(120 - length msg mod 64) mod 64" arbitrary: msg c rule: less_induct)
  case less
  have cnt: "s_count c ! 0 = of_nat (8 * length msg)" using less.prems by (simp add: ctx_at_def)
  have r: "length msg mod 64 < 64" by simp
  show ?case
  proof (cases "length msg mod 64 = 56")
    case True
    then show ?thesis using less.prems cnt pad_test [of "length msg"] by (subst padLoop.simps) simp
  next
    case False
    obtain c1 where c1: "SHA1Update c [0] 1 = Some c1" "ctx_at (msg @ [0]) c1"
      using update_ctx [OF less.prems, of "[0]"] by auto
    have "length (msg @ [0]) mod 64 = (length msg mod 64 + 1) mod 64" by (simp add: mod_simps)
    then have fewer: "(120 - length msg mod 64) mod 64 = Suc ((120 - length (msg @ [0]) mod 64) mod 64)"
      using zeros_left [OF r False] by (simp only:)
    have "padLoop c = padLoop c1"
      using False c1(1) cnt pad_test [of "length msg"] by (subst padLoop.simps) simp
    moreover have "(120 - length (msg @ [0]) mod 64) mod 64 < (120 - length msg mod 64) mod 64"
      using fewer by linarith
    from less.hyps [OF this c1(2)] obtain c2 where c2: "padLoop c1 = Some c2"
        "ctx_at ((msg @ [0]) @ replicate ((120 - length (msg @ [0]) mod 64) mod 64) 0) c2"
      by blast
    moreover have "(msg @ [0]) @ replicate k 0 = msg @ replicate (Suc k) (0 :: u8)" for k by simp
    ultimately show ?thesis unfolding fewer by metis
  qed
qed

lemma finalcount_bytes:
  assumes "s_count c = [of_nat (8 * m), of_nat (8 * m div 2 ^ 32)]"
  shows "map (\<lambda>i. ucast (drop_bit ((3 - i mod 4) * 8) (s_count c ! (if i \<ge> 4 then 0 else 1)) AND 255)) [0..<8] =
    be_bytes_of_nat 8 (8 * m)"
proof -
  have byte: "ucast (drop_bit k (of_nat x :: u32) AND 255) = (of_nat (x div 2 ^ k) :: u8)" if "k \<le> 24" for k x
  proof -
    have m: "(255 :: u32) = mask 8" by (simp add: mask_eq_exp_minus_1)
    have "take_bit 8 (drop_bit k (take_bit 32 x)) = take_bit 8 (drop_bit k x)"
      using that by (intro bit_eqI) (auto simp: bit_simps)
    then have "unat (ucast (take_bit 8 (drop_bit k (of_nat x :: u32))) :: u8) = unat (of_nat (x div 2 ^ k) :: u8)"
      unfolding drop_bit_eq_div [of k x, symmetric]
      by (simp add: unsigned_ucast_eq unsigned_take_bit_eq unsigned_of_nat unat_drop_bit_eq)
    then show ?thesis unfolding m take_bit_eq_mask [symmetric] word_unat_eq_iff .
  qed
  have "ucast (drop_bit ((3 - i mod 4) * 8) (s_count c ! (if i \<ge> 4 then 0 else 1)) AND 255) =
      (of_nat (8 * m div 256 ^ (8 - 1 - i)) :: u8)" if i: "i < 8" for i
  proof -
    have p: "256 ^ k = (2 :: nat) ^ (8 * k)" for k by (simp add: power_mult)
    show ?thesis
    proof (cases "4 \<le> i")
      case True
      define k where "k = i - 4"
      have k: "i = k + 4" "k < 4" using True i by (simp_all add: k_def)
      then have m: "(3 - i mod 4) * 8 = 8 * (3 - k)" "8 - 1 - i = 3 - k" by simp_all
      have "s_count c ! (if i \<ge> 4 then 0 else 1) = of_nat (8 * m)" using True assms by simp
      then show ?thesis unfolding m p by (simp only:) (rule byte, simp)
    next
      case False
      then have m: "(3 - i mod 4) * 8 = 8 * (3 - i)" "8 * (8 - 1 - i) = 32 + 8 * (3 - i)" by simp_all
      have "s_count c ! (if i \<ge> 4 then 0 else 1) = of_nat (8 * m div 2 ^ 32)" using False assms by simp
      moreover have "8 * m div 2 ^ (32 + 8 * (3 - i)) = 8 * m div 2 ^ 32 div 2 ^ (8 * (3 - i))"
        by (simp only: power_add div_mult2_eq)
      ultimately show ?thesis unfolding p m by (simp only:) (rule byte, simp)
    qed
  qed
  then show ?thesis unfolding be_bytes_of_nat_def by simp
qed

lemma length_padding: "length (fips_pad msg) mod 64 = 0"
proof -
  define r where "r = length msg mod 64"
  have r: "r < 64" by (simp add: r_def)
  have "length (fips_pad msg) = length msg + ((119 - r) mod 64 + 9)"
    by (simp add: fips_pad_def be_bytes_of_nat_def r_def)
  then have "length (fips_pad msg) mod 64 = (r + ((119 - r) mod 64 + 9)) mod 64" by (simp add: r_def mod_simps)
  also have "\<dots> = 0"
  proof (cases "r < 56")
    case True
    then have "119 - r = (55 - r) + 64" "(55 - r) mod 64 = 55 - r" by simp_all
    then have "(119 - r) mod 64 = 55 - r" by (metis mod_add_self2)
    then show ?thesis using True by simp
  next
    case False
    then have "(119 - r) mod 64 = 119 - r" by simp
    then show ?thesis using r by simp
  qed
  finally show ?thesis .
qed

lemma final_digest:
  assumes c: "ctx_at msg c"
  shows "SHA1Final c = Some (fips_sha1 msg)"
proof -
  define fc where "fc = be_bytes_of_nat 8 (8 * length msg)"
  have fc: "length fc = 8" by (simp add: fc_def be_bytes_of_nat_def)
  have count: "map (\<lambda>i. ucast (drop_bit ((3 - i mod 4) * 8) (s_count c ! (if i \<ge> 4 then 0 else 1)) AND 255)) [0..<8] = fc"
    using c unfolding fc_def by (intro finalcount_bytes) (simp add: ctx_at_def)
  obtain c1 where c1: "SHA1Update c [0x80] 1 = Some c1" "ctx_at (msg @ [0x80]) c1"
    using update_ctx [OF c, of "[0x80]"] by auto
  obtain c2 where c2: "padLoop c1 = Some c2"
      "ctx_at ((msg @ [0x80]) @ replicate ((120 - length (msg @ [0x80]) mod 64) mod 64) 0) c2"
    using padLoop_zeros [OF c1(2)] by blast
  obtain c3 where c3: "SHA1Update c2 fc 8 = Some c3"
      "ctx_at (((msg @ [0x80]) @ replicate ((120 - length (msg @ [0x80]) mod 64) mod 64) 0) @ fc) c3"
    using update_ctx [OF c2(2), of fc] fc by auto
  have zeros: "(120 - length (msg @ [0x80 :: u8]) mod 64) mod 64 = (119 - length msg mod 64) mod 64"
  proof -
    have "length (msg @ [0x80 :: u8]) mod 64 = (length msg mod 64 + 1) mod 64" by (simp add: mod_simps)
    moreover have "(120 - (r + 1) mod 64) mod 64 = (119 - r) mod 64" if "r < 64" for r :: nat
      using that by (cases "r = 63") (simp_all, presburger?)
    ultimately show ?thesis by simp
  qed
  have st: "s_state c3 = fold fips_compress (blocks64 (fips_pad msg)) fips_H0"
    using c3(2) unfolding zeros by (simp add: ctx_at_def fips_pad_def fc_def)
  have "length (s_state c3) = 5" unfolding st by (rule length_fold_compress) (simp add: fips_H0_def)
  then obtain h0 h1 h2 h3 h4 where h: "s_state c3 = [h0, h1, h2, h3, h4]"
    by (auto simp: length_Suc_conv numeral_eq_Suc)
  have low: "(ucast (x AND 255) :: u8) = ucast (x :: u32)" for x
  proof -
    have m: "(255 :: u32) = mask 8" by (simp add: mask_eq_exp_minus_1)
    show ?thesis unfolding m by (rule bit_word_eqI) (auto simp: bit_simps)
  qed
  have "map (\<lambda>i. ucast (drop_bit ((3 - i mod 4) * 8) (s_state c3 ! (i div 4)) AND 255)) [0..<20] =
      concat (map be32_bytes [h0, h1, h2, h3, h4])"
    unfolding h low by (simp add: upt_rec be32_bytes_def)
  then show ?thesis
    using c1(1) c2(1) c3(1) by (simp add: SHA1Final_def Let_def count fips_sha1_def st [symmetric] h)
qed

lemma init_ctx: "length old = 64 \<Longrightarrow> ctx_at [] (SHA1Init old)"
  by (simp add: ctx_at_def SHA1Init_def fips_H0_def blocks64_short left_over_def)

text \<open>
  C6. The hash is SHA-1: for every message of less than 2 to the power 32 minus 64 bytes, whatever lies in
  the context before, \<open>sha1\<close> returns, and its result is the digest that the standard
  (FIPS 180-4) defines: the message padded, cut into blocks, and the blocks compressed one
  after the other with the schedule and the 80 steps of the standard.
\<close>

theorem sha1_is_fips:
  assumes "length old = 64" and "length data + 64 < 2 ^ 32"
  shows "sha1 old data (of_nat (length data)) = Some (fips_sha1 data)"
proof -
  obtain c where "SHA1Update (SHA1Init old) data (of_nat (length data)) = Some c" "ctx_at data c"
    using update_ctx [OF init_ctx [OF assms(1)] assms(2)] by auto
  then show ?thesis using final_digest [of data c] by (simp add: sha1_def Let_def)
qed

theorem sha1_is_fips_witness:
  "sha1 (replicate 64 7) [0x61, 0x62, 0x63] 3 = Some (fips_sha1 [0x61, 0x62, 0x63])"
  using sha1_is_fips [of "replicate 64 7" "[0x61, 0x62, 0x63]"] by simp

fun update_all :: "u8 list list \<Rightarrow> sha1_ctx \<Rightarrow> sha1_ctx option" where
  "update_all [] c = Some c"
| "update_all (d # ds) c = do { c \<leftarrow> SHA1Update c d (of_nat (length d)); update_all ds c }"

lemma update_all_ctx:
  assumes "ctx_at msg c" and "\<forall>d \<in> set ds. length d + 64 < 2 ^ 32"
  shows "\<exists>c'. update_all ds c = Some c' \<and> ctx_at (msg @ concat ds) c'"
  using assms
proof (induction ds arbitrary: msg c)
  case (Cons d ds)
  have "length d + 64 < 2 ^ 32" "\<forall>d \<in> set ds. length d + 64 < 2 ^ 32" using Cons.prems(2) by simp_all
  then show ?case using update_ctx [OF Cons.prems(1)] Cons.IH [of "msg @ d"] by fastforce
qed simp

text \<open>
  C21. The pieces in which the data arrive do not matter: updating a fresh context with one piece
  after the other and finishing gives the digest of all of them together, for any number of
  pieces, each shorter than 2 to the power 32 minus 64, also when the number of bits exceeds 32 bits.
\<close>

theorem sha1_in_pieces:
  assumes "length old = 64" and "\<forall>d \<in> set ds. length d + 64 < 2 ^ 32"
  shows "Option.bind (update_all ds (SHA1Init old)) SHA1Final = Some (fips_sha1 (concat ds))"
  using update_all_ctx [OF init_ctx [OF assms(1)] assms(2)] final_digest by auto

theorem sha1_in_pieces_witness:
  "Option.bind (update_all [[0x61], [0x62, 0x63]] (SHA1Init (replicate 64 7))) SHA1Final =
     Some (fips_sha1 [0x61, 0x62, 0x63])"
  using sha1_in_pieces [of "replicate 64 7" "[[0x61], [0x62, 0x63]]"] by simp

end
