(* ===== verification/Zeroone.thy ===== *)
theory Zeroone
  imports SdPrelude
begin

text \<open>
  The motor controller library (ZerooneSupermodified_T3X_Wire.cpp, utility/zoProtocol.h,
  utility/zoString.h), for a Teensy 3.6.  The serial line, the two-wire bus and the clock are the
  parameter \<open>zo_hw\<close>.  The interrupt of the two-wire bus is served where a packet is polled for;
  \<open>z_pending\<close> says whether one is pending.  \<open>None\<close> is an access outside the data of a packet, a
  shift by too much, or a loop that does not end.
\<close>

type_synonym u64 = "64 word"

definition le64 :: "u64 \<Rightarrow> u8 list" where
  "le64 v = le32 (ucast v) @ le32 (ucast (drop_bit 32 v))"

definition get64 :: "u8 list \<Rightarrow> nat \<Rightarrow> u64" where
  "get64 bs i = ucast (get32 bs i) OR push_bit 32 (ucast (get32 bs (i + 4)))"

section \<open>Data\<close>

definition ZO_PROTOCOL_ERROR_ID :: u8 where [simp]: "ZO_PROTOCOL_ERROR_ID = 0xFA"
definition ZO_PROTOCOL_HEADER_0 :: u8 where [simp]: "ZO_PROTOCOL_HEADER_0 = 0x55"
definition ZO_PROTOCOL_HEADER_1 :: u8 where [simp]: "ZO_PROTOCOL_HEADER_1 = 0xAA"
definition ZO_PROTOCOL_DATA_SIZE :: nat where [simp]: "ZO_PROTOCOL_DATA_SIZE = 0x16"
definition ZO_PROTOCOL_COMMAND_RESPONSE_TIMEOUT_MS :: u32 where [simp]: "ZO_PROTOCOL_COMMAND_RESPONSE_TIMEOUT_MS = 200"
definition ZO_WARNING_NONE :: u8 where [simp]: "ZO_WARNING_NONE = 0"
definition ZO_WARNING_WIRE_PACKET_OVERWRITTEN :: u8 where [simp]: "ZO_WARNING_WIRE_PACKET_OVERWRITTEN = 100"
definition ZO_WARNING_WIRE_BUFFER_NOT_ENOUGH :: u8 where [simp]: "ZO_WARNING_WIRE_BUFFER_NOT_ENOUGH = 101"
definition ZO_WARNING_WIRE_NO_ACKNOIWLEDGE :: u8 where [simp]: "ZO_WARNING_WIRE_NO_ACKNOIWLEDGE = 102"
definition ZO_WARNING_WIRE_BUS_ERROR :: u8 where [simp]: "ZO_WARNING_WIRE_BUS_ERROR = 103"
definition ZO_WARNING_WRONG_LRC :: u8 where [simp]: "ZO_WARNING_WRONG_LRC = 104"
definition ZO_WARNING_RESPONSE_TIMEOUT :: u8 where [simp]: "ZO_WARNING_RESPONSE_TIMEOUT = 105"

record zo_packet =
  p_addressedNodeID :: u8
  p_ownNodeID :: u8
  p_commandID :: u8
  p_byteCount :: u8
  p_data :: "u8 list"
  p_lrc :: u8

datatype ZO_HW_TYPE = ZO_HW_SERIAL | ZO_HW_SERIAL1 | ZO_HW_SERIAL2 | ZO_HW_SERIAL3 | ZO_HW_WIRE

datatype ZO_PROTOCOL_UART_DECODER_STATE = WAIT_ON_HEADER_0 | WAIT_ON_HEADER_1 |
  WAIT_ON_ADDRESSED_NODE_ID | WAIT_ON_OWN_NODE_ID | WAIT_ON_COMMAND_ID | WAIT_ON_BYTECOUNT |
  WAIT_ON_DATA | WAIT_ON_LRC

text \<open>The outside world, and what lies in the memory of a packet that has not been set.\<close>

record 'h zo_hw =
  z_millis :: "'h \<Rightarrow> u32 \<times> 'h"
  z_delay :: "u32 \<Rightarrow> 'h \<Rightarrow> 'h"
  z_peek :: "'h \<Rightarrow> int \<times> 'h"
  z_read :: "'h \<Rightarrow> int \<times> 'h"
  z_write :: "u8 \<Rightarrow> 'h \<Rightarrow> 'h"
  z_flush :: "'h \<Rightarrow> 'h"
  z_transmitterEnable :: "int \<Rightarrow> 'h \<Rightarrow> 'h"
  z_wireBegin :: "u8 \<Rightarrow> 'h \<Rightarrow> 'h"
  z_beginTransmission :: "u8 \<Rightarrow> 'h \<Rightarrow> 'h"
  z_wireWrite :: "u8 list \<Rightarrow> 'h \<Rightarrow> 'h"
  z_endTransmission :: "'h \<Rightarrow> u8 \<times> 'h"
  z_readByte :: "'h \<Rightarrow> u8 \<times> 'h"
  z_pending :: "'h \<Rightarrow> bool \<times> 'h"
  z_stack :: "zo_packet"

text \<open>
  The variables of the class, all static: the node and the kind of hardware, the decoder with
  the counter of \<open>getPacketSerial\<close>, the packet the interrupt fills, the two flags and the
  warning, and the pin of the line driver.
\<close>

record 'h zo =
  z_localNodeID :: u8
  z_hw :: ZO_HW_TYPE
  z_decoder :: ZO_PROTOCOL_UART_DECODER_STATE
  z_byteCount :: u8
  z_buffered :: zo_packet
  z_i2cPacketReceived :: bool
  z_CommSuccess :: bool
  z_Warning :: u8
  z_rs485 :: int
  z_bus :: 'h

definition zo_new :: "'h zo_hw \<Rightarrow> ZO_HW_TYPE \<Rightarrow> int \<Rightarrow> 'h zo \<Rightarrow> 'h zo" where
  "zo_new hw hwType rs485ReDePin z =
     (let z = z\<lparr>z_CommSuccess := True, z_Warning := ZO_WARNING_NONE, z_localNodeID := 1, z_hw := hwType,
                z_rs485 := rs485ReDePin, z_decoder := WAIT_ON_HEADER_0, z_i2cPacketReceived := False\<rparr>
      in if hwType = ZO_HW_WIRE then z\<lparr>z_bus := z_wireBegin hw (z_localNodeID z) (z_bus z)\<rparr> else z)"

definition zo_new_type :: "'h zo_hw \<Rightarrow> ZO_HW_TYPE \<Rightarrow> 'h zo \<Rightarrow> 'h zo" where
  "zo_new_type hw hwType z = zo_new hw hwType (- 1) z"

definition zo_new_default :: "'h zo_hw \<Rightarrow> 'h zo \<Rightarrow> 'h zo" where
  "zo_new_default hw z = zo_new_type hw ZO_HW_SERIAL z"

definition getCommunicationSuccess :: "'h zo \<Rightarrow> bool \<times> 'h zo" where
  "getCommunicationSuccess z = (z_CommSuccess z, z\<lparr>z_CommSuccess := True\<rparr>)"

definition getWarning :: "'h zo \<Rightarrow> u8 \<times> 'h zo" where
  "getWarning z = (z_Warning z, z\<lparr>z_Warning := ZO_WARNING_NONE\<rparr>)"

definition zo_fail :: "u8 \<Rightarrow> 'h zo \<Rightarrow> 'h zo" where
  "zo_fail w z = z\<lparr>z_CommSuccess := False, z_Warning := w\<rparr>"

section \<open>Packets\<close>

definition calcLRC :: "zo_packet \<Rightarrow> u8" where
  "calcLRC p = foldl (XOR) (0 XOR p_commandID p XOR p_byteCount p) (take (unat (p_byteCount p)) (p_data p))"

definition putPacketWire :: "'h zo_hw \<Rightarrow> zo_packet \<Rightarrow> 'h zo \<Rightarrow> (bool \<times> 'h zo) option" where
  "putPacketWire hw p z =
     (if unat (p_byteCount p) > ZO_PROTOCOL_DATA_SIZE then None else
      let str = [p_addressedNodeID p, p_ownNodeID p, p_commandID p, p_byteCount p] @
                take (unat (p_byteCount p)) (p_data p) @ [p_lrc p];
          h = z_wireWrite hw str (z_beginTransmission hw (p_addressedNodeID p) (z_bus z));
          (i2cError, h) = z_endTransmission hw h;
          z = z\<lparr>z_bus := h\<rparr>
      in Some (
        if i2cError = 0 then (True, z)
        else if i2cError = 1 then (False, zo_fail ZO_WARNING_WIRE_BUFFER_NOT_ENOUGH z)
        else if i2cError = 2 \<or> i2cError = 3 then (False, zo_fail ZO_WARNING_WIRE_NO_ACKNOIWLEDGE z)
        else if i2cError = 4 then (False, zo_fail ZO_WARNING_WIRE_BUS_ERROR z)
        else (False, z)))"

fun readBytes :: "'h zo_hw \<Rightarrow> nat \<Rightarrow> 'h \<Rightarrow> u8 list \<times> 'h" where
  "readBytes hw 0 h = ([], h)"
| "readBytes hw (Suc n) h =
     (case z_readByte hw h of (b, h) \<Rightarrow> case readBytes hw n h of (bs, h) \<Rightarrow> (b # bs, h))"

definition wireRxHandler :: "'h zo_hw \<Rightarrow> 'h zo \<Rightarrow> 'h zo option" where
  "wireRxHandler hw z =
     (let z = (if z_i2cPacketReceived z then zo_fail ZO_WARNING_WIRE_PACKET_OVERWRITTEN z else z);
          (a, h) = z_readByte hw (z_bus z);
          (own, h) = z_readByte hw h;
          (cmd, h) = z_readByte hw h;
          (n, h) = z_readByte hw h
      in if unat n > ZO_PROTOCOL_DATA_SIZE then None else
         let (bs, h) = readBytes hw (unat n) h;
             (lrc, h) = z_readByte hw h
         in Some (z\<lparr>z_buffered := \<lparr> p_addressedNodeID = a, p_ownNodeID = own, p_commandID = cmd, p_byteCount = n,
                      p_data = bs @ drop (length bs) (p_data (z_buffered z)), p_lrc = lrc \<rparr>,
                    z_i2cPacketReceived := True, z_bus := h\<rparr>))"

definition getPacketWire :: "'h zo_hw \<Rightarrow> zo_packet \<Rightarrow> 'h zo \<Rightarrow> (bool \<times> zo_packet \<times> 'h zo) option" where
  "getPacketWire hw p z = do {
     let (irq, h) = z_pending hw (z_bus z);
     let z = z\<lparr>z_bus := h\<rparr>;
     z \<leftarrow> (if irq then wireRxHandler hw z else Some z);
     let b = z_buffered z;
     let n = unat (p_byteCount b);
     Some (if z_i2cPacketReceived z
           then (True, b\<lparr>p_data := take n (p_data b) @ drop n (p_data p)\<rparr>, z\<lparr>z_i2cPacketReceived := False\<rparr>)
           else (False, p, z)) }"

definition putPacketSerial :: "'h zo_hw \<Rightarrow> zo_packet \<Rightarrow> 'h zo \<Rightarrow> (bool \<times> 'h zo) option" where
  "putPacketSerial hw p z =
     (if unat (p_byteCount p) > ZO_PROTOCOL_DATA_SIZE then None else
      let h = z_bus z;
          h = (if z_rs485 z \<noteq> - 1 then z_delay hw 5 (z_transmitterEnable hw (z_rs485 z) (z_flush hw h)) else h);
          str = [ZO_PROTOCOL_HEADER_0, ZO_PROTOCOL_HEADER_1, p_addressedNodeID p, p_ownNodeID p, p_commandID p,
                 p_byteCount p] @ take (unat (p_byteCount p)) (p_data p) @ [p_lrc p]
      in Some (True, z\<lparr>z_bus := fold (z_write hw) str h\<rparr>))"

text \<open>One byte \<open>c\<close> through the decoder: whether it completes a packet.\<close>

definition decodeByte :: "u8 \<Rightarrow> zo_packet \<Rightarrow> 'h zo \<Rightarrow> (bool \<times> zo_packet \<times> 'h zo) option" where
  "decodeByte c p z =
     (case z_decoder z of
        WAIT_ON_HEADER_0 \<Rightarrow>
          Some (False, p, z\<lparr>z_decoder := if c = ZO_PROTOCOL_HEADER_0 then WAIT_ON_HEADER_1 else WAIT_ON_HEADER_0\<rparr>)
      | WAIT_ON_HEADER_1 \<Rightarrow>
          Some (False, p, z\<lparr>z_decoder := if c = ZO_PROTOCOL_HEADER_1 then WAIT_ON_ADDRESSED_NODE_ID else WAIT_ON_HEADER_0\<rparr>)
      | WAIT_ON_ADDRESSED_NODE_ID \<Rightarrow>
          Some (if c = z_localNodeID z
                then (False, p\<lparr>p_addressedNodeID := c\<rparr>, z\<lparr>z_decoder := WAIT_ON_OWN_NODE_ID\<rparr>)
                else (False, p, z\<lparr>z_decoder := WAIT_ON_HEADER_0\<rparr>))
      | WAIT_ON_OWN_NODE_ID \<Rightarrow> Some (False, p\<lparr>p_ownNodeID := c\<rparr>, z\<lparr>z_decoder := WAIT_ON_COMMAND_ID\<rparr>)
      | WAIT_ON_COMMAND_ID \<Rightarrow> Some (False, p\<lparr>p_commandID := c\<rparr>, z\<lparr>z_decoder := WAIT_ON_BYTECOUNT\<rparr>)
      | WAIT_ON_BYTECOUNT \<Rightarrow>
          Some (False, p\<lparr>p_byteCount := c\<rparr>,
            z\<lparr>z_byteCount := c, z_decoder := if c > 0 then WAIT_ON_DATA else WAIT_ON_LRC\<rparr>)
      | WAIT_ON_DATA \<Rightarrow>
          let i = uint (p_byteCount p) - uint (z_byteCount z) in
          if i < 0 \<or> int ZO_PROTOCOL_DATA_SIZE \<le> i then None
          else let n = z_byteCount z - 1 in
            Some (False, p\<lparr>p_data := (p_data p)[nat i := c]\<rparr>,
              z\<lparr>z_byteCount := n, z_decoder := if n = 0 then WAIT_ON_LRC else WAIT_ON_DATA\<rparr>)
      | WAIT_ON_LRC \<Rightarrow> Some (True, p\<lparr>p_lrc := c\<rparr>, z\<lparr>z_decoder := WAIT_ON_HEADER_0\<rparr>))"

definition getPacketSerial :: "'h zo_hw \<Rightarrow> zo_packet \<Rightarrow> 'h zo \<Rightarrow> (bool \<times> zo_packet \<times> 'h zo) option" where
  "getPacketSerial hw p z =
     (case z_peek hw (z_bus z) of (c, h) \<Rightarrow>
        if c = - 1 then Some (False, p, z\<lparr>z_bus := h\<rparr>)
        else case z_read hw h of (c, h) \<Rightarrow> decodeByte (word_of_int c) p (z\<lparr>z_bus := h\<rparr>))"

definition putPacket :: "'h zo_hw \<Rightarrow> zo_packet \<Rightarrow> 'h zo \<Rightarrow> (bool \<times> 'h zo) option" where
  "putPacket hw p z = (if z_hw z = ZO_HW_WIRE then putPacketWire hw p z else putPacketSerial hw p z)"

definition getPacket :: "'h zo_hw \<Rightarrow> zo_packet \<Rightarrow> 'h zo \<Rightarrow> (bool \<times> zo_packet \<times> 'h zo) option" where
  "getPacket hw p z = (if z_hw z = ZO_HW_WIRE then getPacketWire hw p z else getPacketSerial hw p z)"

text \<open>Waiting for a packet; a poll without one sets the flag again.\<close>

partial_function (option) responseWait ::
  "'h zo_hw \<Rightarrow> u32 \<Rightarrow> zo_packet \<Rightarrow> 'h zo \<Rightarrow> (zo_packet \<times> 'h zo) option" where
  "responseWait hw startMillis p z =
     Option.bind (getPacket hw p z) (\<lambda>(got, p, z).
       if \<not> got then
         case z_millis hw (z_bus z) of (now, h) \<Rightarrow>
           if now - startMillis > ZO_PROTOCOL_COMMAND_RESPONSE_TIMEOUT_MS
           then Some (p, zo_fail ZO_WARNING_RESPONSE_TIMEOUT (z\<lparr>z_bus := h\<rparr>))
           else responseWait hw startMillis p (z\<lparr>z_bus := h, z_CommSuccess := True\<rparr>)
       else Some (p, z))"

definition zo_getResponse :: "'h zo_hw \<Rightarrow> zo_packet \<Rightarrow> 'h zo \<Rightarrow> (bool \<times> zo_packet \<times> 'h zo) option" where
  "zo_getResponse hw p z = do {
     let (startMillis, h) = z_millis hw (z_bus z);
     (p, z) \<leftarrow> responseWait hw startMillis p (z\<lparr>z_bus := h\<rparr>);
     let z = (if z_CommSuccess z then
                let z = (if p_lrc p \<noteq> calcLRC p then zo_fail ZO_WARNING_WRONG_LRC z else z)
                in if p_commandID p = ZO_PROTOCOL_ERROR_ID then zo_fail (p_data p ! 0) z else z
              else z);
     Some (z_CommSuccess z, p, z) }"

section \<open>The commands\<close>

text \<open>
  The steps all commands share: a packet for a node with \<open>arg\<close> as its data and its checksum, or
  without data, when the checksum is the number of the command; sending it and waiting for the
  response; and reading a value from the response, with what is returned when there is none.
\<close>

definition argPacket :: "'h zo_hw \<Rightarrow> u8 \<Rightarrow> u8 \<Rightarrow> u8 list \<Rightarrow> zo_packet" where
  "argPacket hw nodeId command arg =
     (let p = (z_stack hw)\<lparr>p_addressedNodeID := nodeId, p_ownNodeID := 1, p_commandID := command,
                p_byteCount := of_nat (length arg), p_data := splice (p_data (z_stack hw)) 0 arg\<rparr>
      in p\<lparr>p_lrc := calcLRC p\<rparr>)"

definition plainPacket :: "'h zo_hw \<Rightarrow> u8 \<Rightarrow> u8 \<Rightarrow> zo_packet" where
  "plainPacket hw nodeId command =
     (z_stack hw)\<lparr>p_addressedNodeID := nodeId, p_ownNodeID := 1, p_commandID := command, p_byteCount := 0,
       p_lrc := command\<rparr>"

definition request :: "'h zo_hw \<Rightarrow> zo_packet \<Rightarrow> 'h zo \<Rightarrow> (bool \<times> bool \<times> zo_packet \<times> 'h zo) option" where
  "request hw p z = do {
     (sent, z) \<leftarrow> putPacket hw p z;
     if sent then do { (ok, p, z) \<leftarrow> zo_getResponse hw p z; Some (True, ok, p, z) }
     else Some (False, False, p, z) }"

definition zo_command :: "'h zo_hw \<Rightarrow> zo_packet \<Rightarrow> 'h zo \<Rightarrow> 'h zo option" where
  "zo_command hw p z = do { (_, _, _, z) \<leftarrow> request hw p z; Some z }"

definition zo_query :: "'h zo_hw \<Rightarrow> u8 \<Rightarrow> u8 \<Rightarrow> (zo_packet \<Rightarrow> 'a option) \<Rightarrow> 'a \<Rightarrow> 'h zo \<Rightarrow> ('a \<times> 'h zo) option" where
  "zo_query hw nodeId command value failed z = do {
     (_, ok, p, z) \<leftarrow> request hw (plainPacket hw nodeId command) z;
     v \<leftarrow> (if ok then value p else Some failed);
     Some (v, z) }"

definition value16 :: "zo_packet \<Rightarrow> u16 option" where "value16 p = Some (get16 (p_data p) 0)"
definition value32 :: "zo_packet \<Rightarrow> u32 option" where "value32 p = Some (get32 (p_data p) 0)"
definition value64 :: "zo_packet \<Rightarrow> u64 option" where "value64 p = Some (get64 (p_data p) 0)"

text \<open>A flag of the first byte; \<open>1 << dio\<close> is an \<open>int\<close> of 32 bits.\<close>

definition valueBit :: "u8 \<Rightarrow> zo_packet \<Rightarrow> bool option" where
  "valueBit dio p = (if unat dio < 31 then Some (bit (p_data p ! 0) (unat dio)) else None)"

definition bits3 :: "bool \<Rightarrow> bool \<Rightarrow> bool \<Rightarrow> u8" where
  "bits3 b1 b2 b3 = (if b1 then 0x01 else 0) OR (if b2 then 0x02 else 0) OR (if b3 then 0x04 else 0)"

definition setProfileAcceleration :: "'h zo_hw \<Rightarrow> u8 \<Rightarrow> u32 \<Rightarrow> 'h zo \<Rightarrow> 'h zo option" where
  "setProfileAcceleration hw nodeId accel z = zo_command hw (argPacket hw nodeId 0x03 (le32 accel)) z"

definition setProfileConstantVelocity :: "'h zo_hw \<Rightarrow> u8 \<Rightarrow> u32 \<Rightarrow> 'h zo \<Rightarrow> 'h zo option" where
  "setProfileConstantVelocity hw nodeId vel z = zo_command hw (argPacket hw nodeId 0x04 (le32 vel)) z"

definition setCurrentLimit :: "'h zo_hw \<Rightarrow> u8 \<Rightarrow> u16 \<Rightarrow> 'h zo \<Rightarrow> 'h zo option" where
  "setCurrentLimit hw nodeId current z = zo_command hw (argPacket hw nodeId 0x05 (le16 current)) z"

definition setDurationForCurrentLimit :: "'h zo_hw \<Rightarrow> u8 \<Rightarrow> u16 \<Rightarrow> 'h zo \<Rightarrow> 'h zo option" where
  "setDurationForCurrentLimit hw nodeId dur z = zo_command hw (argPacket hw nodeId 0x06 (le16 dur)) z"

definition setPIDgainP :: "'h zo_hw \<Rightarrow> u8 \<Rightarrow> u16 \<Rightarrow> 'h zo \<Rightarrow> 'h zo option" where
  "setPIDgainP hw nodeId current z = zo_command hw (argPacket hw nodeId 0x00 (le16 current)) z"

definition setPIDgainI :: "'h zo_hw \<Rightarrow> u8 \<Rightarrow> u16 \<Rightarrow> 'h zo \<Rightarrow> 'h zo option" where
  "setPIDgainI hw nodeId current z = zo_command hw (argPacket hw nodeId 0x01 (le16 current)) z"

definition setPIDgainD :: "'h zo_hw \<Rightarrow> u8 \<Rightarrow> u16 \<Rightarrow> 'h zo \<Rightarrow> 'h zo option" where
  "setPIDgainD hw nodeId current z = zo_command hw (argPacket hw nodeId 0x02 (le16 current)) z"

definition moveWithVelocity :: "'h zo_hw \<Rightarrow> u8 \<Rightarrow> u32 \<Rightarrow> 'h zo \<Rightarrow> 'h zo option" where
  "moveWithVelocity hw nodeId vel z = zo_command hw (argPacket hw nodeId 0x07 (le32 vel)) z"

definition moveToAbsolutePosition :: "'h zo_hw \<Rightarrow> u8 \<Rightarrow> u64 \<Rightarrow> 'h zo \<Rightarrow> 'h zo option" where
  "moveToAbsolutePosition hw nodeId pos z = zo_command hw (argPacket hw nodeId 0x08 (le64 pos)) z"

definition moveToRelativePosition :: "'h zo_hw \<Rightarrow> u8 \<Rightarrow> u64 \<Rightarrow> 'h zo \<Rightarrow> 'h zo option" where
  "moveToRelativePosition hw nodeId pos z = zo_command hw (argPacket hw nodeId 0x09 (le64 pos)) z"

definition profiledMoveWithVelocity :: "'h zo_hw \<Rightarrow> u8 \<Rightarrow> u32 \<Rightarrow> 'h zo \<Rightarrow> 'h zo option" where
  "profiledMoveWithVelocity hw nodeId vel z = zo_command hw (argPacket hw nodeId 0x0A (le32 vel)) z"

definition profiledMoveToAbsolutePosition :: "'h zo_hw \<Rightarrow> u8 \<Rightarrow> u64 \<Rightarrow> 'h zo \<Rightarrow> 'h zo option" where
  "profiledMoveToAbsolutePosition hw nodeId pos z = zo_command hw (argPacket hw nodeId 0x0B (le64 pos)) z"

definition profiledMoveToRelativePosition :: "'h zo_hw \<Rightarrow> u8 \<Rightarrow> u64 \<Rightarrow> 'h zo \<Rightarrow> 'h zo option" where
  "profiledMoveToRelativePosition hw nodeId pos z = zo_command hw (argPacket hw nodeId 0x0C (le64 pos)) z"

definition setVelocitySetpoint :: "'h zo_hw \<Rightarrow> u8 \<Rightarrow> u32 \<Rightarrow> 'h zo \<Rightarrow> 'h zo option" where
  "setVelocitySetpoint hw nodeId vel z = zo_command hw (argPacket hw nodeId 0x0D (le32 vel)) z"

definition setAbsolutePositionSetpoint :: "'h zo_hw \<Rightarrow> u8 \<Rightarrow> u64 \<Rightarrow> 'h zo \<Rightarrow> 'h zo option" where
  "setAbsolutePositionSetpoint hw nodeId pos z = zo_command hw (argPacket hw nodeId 0x0E (le64 pos)) z"

definition setRelativePositionSetpoint :: "'h zo_hw \<Rightarrow> u8 \<Rightarrow> u64 \<Rightarrow> 'h zo \<Rightarrow> 'h zo option" where
  "setRelativePositionSetpoint hw nodeId pos z = zo_command hw (argPacket hw nodeId 0x0F (le64 pos)) z"

definition setProfiledVelocitySetpoint :: "'h zo_hw \<Rightarrow> u8 \<Rightarrow> u32 \<Rightarrow> 'h zo \<Rightarrow> 'h zo option" where
  "setProfiledVelocitySetpoint hw nodeId vel z = zo_command hw (argPacket hw nodeId 0x10 (le32 vel)) z"

definition setProfiledAbsolutePositionSetpoint :: "'h zo_hw \<Rightarrow> u8 \<Rightarrow> u64 \<Rightarrow> 'h zo \<Rightarrow> 'h zo option" where
  "setProfiledAbsolutePositionSetpoint hw nodeId pos z = zo_command hw (argPacket hw nodeId 0x11 (le64 pos)) z"

definition setProfiledRelativePositionSetpoint :: "'h zo_hw \<Rightarrow> u8 \<Rightarrow> u64 \<Rightarrow> 'h zo \<Rightarrow> 'h zo option" where
  "setProfiledRelativePositionSetpoint hw nodeId pos z = zo_command hw (argPacket hw nodeId 0x12 (le64 pos)) z"

definition configureDigitalIOs :: "'h zo_hw \<Rightarrow> u8 \<Rightarrow> bool \<Rightarrow> bool \<Rightarrow> bool \<Rightarrow> 'h zo \<Rightarrow> 'h zo option" where
  "configureDigitalIOs hw nodeId b1 b2 b3 z = zo_command hw (argPacket hw nodeId 0x13 [bits3 b1 b2 b3]) z"

definition setDigitalOutputs :: "'h zo_hw \<Rightarrow> u8 \<Rightarrow> bool \<Rightarrow> bool \<Rightarrow> bool \<Rightarrow> 'h zo \<Rightarrow> 'h zo option" where
  "setDigitalOutputs hw nodeId b1 b2 b3 z = zo_command hw (argPacket hw nodeId 0x14 [bits3 b1 b2 b3]) z"

definition setNodeID :: "'h zo_hw \<Rightarrow> u8 \<Rightarrow> u8 \<Rightarrow> 'h zo \<Rightarrow> 'h zo option" where
  "setNodeID hw oldNodeId newNodeId z = zo_command hw (argPacket hw oldNodeId 0x15 [newNodeId]) z"

definition resetIncrementalPosition :: "'h zo_hw \<Rightarrow> u8 \<Rightarrow> 'h zo \<Rightarrow> 'h zo option" where
  "resetIncrementalPosition hw nodeId z = zo_command hw (plainPacket hw nodeId 0x18) z"

definition zo_start :: "'h zo_hw \<Rightarrow> u8 \<Rightarrow> 'h zo \<Rightarrow> 'h zo option" where
  "zo_start hw nodeId z = zo_command hw (plainPacket hw nodeId 0x19) z"

definition zo_halt :: "'h zo_hw \<Rightarrow> u8 \<Rightarrow> 'h zo \<Rightarrow> 'h zo option" where
  "zo_halt hw nodeId z = zo_command hw (plainPacket hw nodeId 0x1A) z"

definition zo_stop :: "'h zo_hw \<Rightarrow> u8 \<Rightarrow> 'h zo \<Rightarrow> 'h zo option" where
  "zo_stop hw nodeId z = zo_command hw (plainPacket hw nodeId 0x1B) z"

definition resetErrors :: "'h zo_hw \<Rightarrow> u8 \<Rightarrow> 'h zo \<Rightarrow> 'h zo option" where
  "resetErrors hw nodeId z = zo_command hw (plainPacket hw nodeId 0x1E) z"

definition getProfileAcceleration :: "'h zo_hw \<Rightarrow> u8 \<Rightarrow> 'h zo \<Rightarrow> (u32 \<times> 'h zo) option" where
  "getProfileAcceleration hw nodeId z = zo_query hw nodeId 0x67 value32 (- 1) z"

definition getProfileConstantVelocity :: "'h zo_hw \<Rightarrow> u8 \<Rightarrow> 'h zo \<Rightarrow> (u32 \<times> 'h zo) option" where
  "getProfileConstantVelocity hw nodeId z = zo_query hw nodeId 0x68 value32 (- 1) z"

definition getCurrentLimit :: "'h zo_hw \<Rightarrow> u8 \<Rightarrow> 'h zo \<Rightarrow> (u16 \<times> 'h zo) option" where
  "getCurrentLimit hw nodeId z = zo_query hw nodeId 0x69 value16 (- 1) z"

definition getCurrentLimitDuration :: "'h zo_hw \<Rightarrow> u8 \<Rightarrow> 'h zo \<Rightarrow> (u16 \<times> 'h zo) option" where
  "getCurrentLimitDuration hw nodeId z = zo_query hw nodeId 0x6A value16 (- 1) z"

definition getPIDgainP :: "'h zo_hw \<Rightarrow> u8 \<Rightarrow> 'h zo \<Rightarrow> (u16 \<times> 'h zo) option" where
  "getPIDgainP hw nodeId z = zo_query hw nodeId 0x64 value16 (- 1) z"

definition getPIDgainI :: "'h zo_hw \<Rightarrow> u8 \<Rightarrow> 'h zo \<Rightarrow> (u16 \<times> 'h zo) option" where
  "getPIDgainI hw nodeId z = zo_query hw nodeId 0x65 value16 (- 1) z"

definition getPIDgainD :: "'h zo_hw \<Rightarrow> u8 \<Rightarrow> 'h zo \<Rightarrow> (u16 \<times> 'h zo) option" where
  "getPIDgainD hw nodeId z = zo_query hw nodeId 0x66 value16 (- 1) z"

definition getDigitalIOConfiguration :: "'h zo_hw \<Rightarrow> u8 \<Rightarrow> u8 \<Rightarrow> 'h zo \<Rightarrow> (bool \<times> 'h zo) option" where
  "getDigitalIOConfiguration hw nodeId dio z = zo_query hw nodeId 0x6B (valueBit dio) True z"

definition getDigitalIn :: "'h zo_hw \<Rightarrow> u8 \<Rightarrow> u8 \<Rightarrow> 'h zo \<Rightarrow> (bool \<times> 'h zo) option" where
  "getDigitalIn hw nodeId din z = zo_query hw nodeId 0x6D (valueBit din) True z"

text \<open>The inputs are numbered from one.\<close>

definition valueAnalog :: "u8 \<Rightarrow> zo_packet \<Rightarrow> u16 option" where
  "valueAnalog ain p =
     (if 1 \<le> unat ain \<and> unat ain \<le> 11 then Some (get16 (p_data p) (unat ain * 2 - 2)) else None)"

definition getAnalogIn :: "'h zo_hw \<Rightarrow> u8 \<Rightarrow> u8 \<Rightarrow> 'h zo \<Rightarrow> (u16 \<times> 'h zo) option" where
  "getAnalogIn hw nodeId ain z = zo_query hw nodeId 0x6E (valueAnalog ain) (- 1) z"

definition getPosition :: "'h zo_hw \<Rightarrow> u8 \<Rightarrow> 'h zo \<Rightarrow> (u64 \<times> 'h zo) option" where
  "getPosition hw nodeId z = do {
     (sent, ok, p, z) \<leftarrow> request hw (plainPacket hw nodeId 0x6F) z;
     v \<leftarrow> (if ok then value64 p else Some (if sent then - 999 else - 333));
     Some (v, z) }"

definition getAbsolutePosition :: "'h zo_hw \<Rightarrow> u8 \<Rightarrow> 'h zo \<Rightarrow> (u16 \<times> 'h zo) option" where
  "getAbsolutePosition hw nodeId z = zo_query hw nodeId 0x70 value16 (- 1) z"

definition getVelocity :: "'h zo_hw \<Rightarrow> u8 \<Rightarrow> 'h zo \<Rightarrow> (u32 \<times> 'h zo) option" where
  "getVelocity hw nodeId z = zo_query hw nodeId 0x71 value32 (- 1) z"

definition getCurrent :: "'h zo_hw \<Rightarrow> u8 \<Rightarrow> 'h zo \<Rightarrow> (u16 \<times> 'h zo) option" where
  "getCurrent hw nodeId z = zo_query hw nodeId 0x72 value16 (- 1) z"

definition broadCastDoMove :: "'h zo_hw \<Rightarrow> 'h zo \<Rightarrow> 'h zo option" where
  "broadCastDoMove hw z = do { (_, z) \<leftarrow> putPacket hw (plainPacket hw 0 0xC8) z; Some z }"

definition broadcastStart :: "'h zo_hw \<Rightarrow> 'h zo \<Rightarrow> 'h zo option" where
  "broadcastStart hw z = do { (_, z) \<leftarrow> putPacket hw (plainPacket hw 0 0xC9) z; Some z }"

definition broadcastHalt :: "'h zo_hw \<Rightarrow> 'h zo \<Rightarrow> 'h zo option" where
  "broadcastHalt hw z = do { (_, z) \<leftarrow> putPacket hw (plainPacket hw 0 0xCA) z; Some z }"

definition broadcastStop :: "'h zo_hw \<Rightarrow> 'h zo \<Rightarrow> 'h zo option" where
  "broadcastStop hw z = do { (_, z) \<leftarrow> putPacket hw (plainPacket hw 0 0xCB) z; Some z }"

end
