(* ===== verification/ZerooneProps.thy ===== *)
theory ZerooneProps
  imports Zeroone
begin

text \<open>
  The serial protocol of the motor controller: the decoder finds a packet behind any noise, a
  query returns what the controller answered, and an answer with a wrong byte is refused.
\<close>

section \<open>The decoder\<close>

definition zo_frame :: "zo_packet \<Rightarrow> u8 list" where
  "zo_frame p = [0x55, 0xAA, p_addressedNodeID p, p_ownNodeID p, p_commandID p, p_byteCount p] @
     take (unat (p_byteCount p)) (p_data p) @ [p_lrc p]"

text \<open>Bytes through the decoder, up to the end of a packet.\<close>

fun decodeAll :: "u8 list \<Rightarrow> zo_packet \<Rightarrow> 'h zo \<Rightarrow> (bool \<times> zo_packet \<times> 'h zo) option" where
  "decodeAll [] p z = Some (False, p, z)"
| "decodeAll (c # cs) p z = do {
     (got, p, z) \<leftarrow> decodeByte c p z;
     if got then Some (True, p, z) else decodeAll cs p z }"

lemma decode_noise:
  assumes "z_decoder z = WAIT_ON_HEADER_0" and "0x55 \<notin> set g"
  shows "decodeAll (g @ bs) p z = decodeAll bs p z"
  using assms
proof (induction g)
  case (Cons c g)
  have "decodeByte c p z = Some (False, p, z)" using Cons.prems by (auto simp: decodeByte_def)
  then show ?case using Cons by simp
qed simp

lemma decode_data:
  assumes "z_decoder z = WAIT_ON_DATA" and "ds \<noteq> []" "unat (z_byteCount z) = length ds"
    and "unat (p_byteCount p) = k + length ds" "k + length ds \<le> 22" "length (p_data p) = 22"
  shows "decodeAll (ds @ bs) p z =
    decodeAll bs (p\<lparr>p_data := splice (p_data p) k ds\<rparr>) (z\<lparr>z_byteCount := 0, z_decoder := WAIT_ON_LRC\<rparr>)"
  using assms
proof (induction ds arbitrary: k p z)
  case (Cons d ds)
  have n1: "unat (z_byteCount z - 1) = length ds"
    using Cons.prems(3) by (subst unat_sub_small) simp_all
  have "int (unat (p_byteCount p)) - int (unat (z_byteCount z)) = int k"
    using Cons.prems(3, 4) by linarith
  then have i: "uint (p_byteCount p) - uint (z_byteCount z) = int k" by simp
  have z0: "z_byteCount z - 1 = 0 \<longleftrightarrow> ds = []" using n1 by (simp add: word_unat_eq_iff)
  have step: "decodeByte d p z = Some (False, p\<lparr>p_data := (p_data p)[k := d]\<rparr>,
      z\<lparr>z_byteCount := z_byteCount z - 1, z_decoder := if ds = [] then WAIT_ON_LRC else WAIT_ON_DATA\<rparr>)"
    using Cons.prems(1, 5) z0 by (simp add: decodeByte_def i Let_def)
  have splice: "splice ((p_data p)[k := d]) (Suc k) ds = splice (p_data p) k (d # ds)"
    using Cons.prems(5, 6) by (simp add: splice_def take_Suc_conv_app_nth drop_update_cancel)
  show ?case
  proof (cases "ds = []")
    case True
    then show ?thesis using step z0 splice by (simp add: SdPrelude.splice_nil)
  next
    case False
    then show ?thesis
      using Cons.IH [of "z\<lparr>z_byteCount := z_byteCount z - 1, z_decoder := WAIT_ON_DATA\<rparr>"
          "p\<lparr>p_data := (p_data p)[k := d]\<rparr>" "Suc k"] Cons.prems step n1 splice by simp
  qed
qed simp

text \<open>What has been received: the used part of the data, over what was there.\<close>

definition received :: "zo_packet \<Rightarrow> zo_packet \<Rightarrow> zo_packet" where
  "received q p = q\<lparr>p_data := take (unat (p_byteCount q)) (p_data q) @ drop (unat (p_byteCount q)) (p_data p)\<rparr>"

lemma decode_frame:
  assumes "z_decoder z = WAIT_ON_HEADER_0" and "p_addressedNodeID q = z_localNodeID z"
    and "unat (p_byteCount q) \<le> 22" "length (p_data q) = 22" "length (p_data p) = 22"
  shows "decodeAll (zo_frame q @ bs) p z =
    Some (True, received q p, z\<lparr>z_byteCount := 0, z_decoder := WAIT_ON_HEADER_0\<rparr>)"
proof -
  define n where "n = unat (p_byteCount q)"
  define p1 where "p1 = p\<lparr>p_addressedNodeID := p_addressedNodeID q, p_ownNodeID := p_ownNodeID q,
    p_commandID := p_commandID q, p_byteCount := p_byteCount q\<rparr>"
  have head: "decodeAll (zo_frame q @ bs) p z =
      decodeAll (take n (p_data q) @ p_lrc q # bs) p1
        (z\<lparr>z_byteCount := p_byteCount q, z_decoder := if p_byteCount q > 0 then WAIT_ON_DATA else WAIT_ON_LRC\<rparr>)"
    using assms(1, 2) by (simp add: zo_frame_def decodeByte_def p1_def n_def)
  show ?thesis
  proof (cases "p_byteCount q = 0")
    case True
    then show ?thesis unfolding head
      by (simp add: decodeByte_def n_def p1_def received_def)
  next
    case False
    then have n0: "0 < n" by (simp add: n_def word_unat_eq_iff)
    have ne: "p_data q \<noteq> []" using assms(4) by auto
    define p2 where "p2 = p1\<lparr>p_data := splice (p_data p1) 0 (take n (p_data q))\<rparr>"
    have data: "decodeAll (take n (p_data q) @ p_lrc q # bs) p1
        (z\<lparr>z_byteCount := p_byteCount q, z_decoder := WAIT_ON_DATA\<rparr>) =
      decodeAll (p_lrc q # bs) p2 (z\<lparr>z_byteCount := 0, z_decoder := WAIT_ON_LRC\<rparr>)"
      using decode_data [of "z\<lparr>z_byteCount := p_byteCount q, z_decoder := WAIT_ON_DATA\<rparr>" "take n (p_data q)" p1 0]
        assms n0 ne by (simp add: n_def p1_def p2_def)
    have pos: "p_byteCount q > 0" using False by (simp add: word_gt_0)
    have p2: "p2\<lparr>p_lrc := p_lrc q\<rparr> = received q p"
      using assms by (simp add: p2_def p1_def received_def splice_def n_def)
    have "decodeAll (zo_frame q @ bs) p z = decodeAll (p_lrc q # bs) p2 (z\<lparr>z_byteCount := 0, z_decoder := WAIT_ON_LRC\<rparr>)"
      unfolding head using pos data by simp
    also have "\<dots> = Some (True, p2\<lparr>p_lrc := p_lrc q\<rparr>, z\<lparr>z_byteCount := 0, z_decoder := WAIT_ON_HEADER_0\<rparr>)"
      by (simp add: decodeByte_def)
    finally show ?thesis unfolding p2 .
  qed
qed

text \<open>The decoder looks at neither the bus nor the flag.\<close>

lemma decodeByte_bus:
  "decodeByte c p (z\<lparr>z_bus := h\<rparr>) =
     map_option (\<lambda>(got, p, z). (got, p, z\<lparr>z_bus := h\<rparr>)) (decodeByte c p z)"
  by (simp add: decodeByte_def Let_def split: ZO_PROTOCOL_UART_DECODER_STATE.split)

lemma decodeByte_flag:
  "decodeByte c p (z\<lparr>z_CommSuccess := b\<rparr>) =
     map_option (\<lambda>(got, p, z). (got, p, z\<lparr>z_CommSuccess := b\<rparr>)) (decodeByte c p z)"
  by (simp add: decodeByte_def Let_def split: ZO_PROTOCOL_UART_DECODER_STATE.split)

lemma decodeAll_bus:
  "decodeAll bs p (z\<lparr>z_bus := h\<rparr>) =
     map_option (\<lambda>(got, p, z). (got, p, z\<lparr>z_bus := h\<rparr>)) (decodeAll bs p z)"
proof (induction bs arbitrary: p z)
  case (Cons b bs)
  then show ?case by (auto simp: decodeByte_bus split: Option.bind_splits)
qed simp

lemma decodeAll_flag:
  "decodeAll bs p (z\<lparr>z_CommSuccess := b\<rparr>) =
     map_option (\<lambda>(got, p, z). (got, p, z\<lparr>z_CommSuccess := b\<rparr>)) (decodeAll bs p z)"
proof (induction bs arbitrary: p z)
  case (Cons c bs)
  then show ?case by (auto simp: decodeByte_flag split: Option.bind_splits)
qed simp

lemma decodeByte_keeps:
  "decodeByte c p z = Some (got, p', z') \<Longrightarrow>
     z_bus z' = z_bus z \<and> z_CommSuccess z' = z_CommSuccess z \<and> z_hw z' = z_hw z"
  by (auto simp: decodeByte_def Let_def split: ZO_PROTOCOL_UART_DECODER_STATE.splits if_splits)

section \<open>The serial line\<close>

lemma elapsed_bound:
  assumes "start \<le> now" and "now - start \<le> 201"
  shows "ZO_PROTOCOL_COMMAND_RESPONSE_TIMEOUT_MS < of_nat now - of_nat start \<longleftrightarrow> 200 < now - start"
proof -
  have "(of_nat now :: u32) - of_nat start = of_nat (now - start)" using assms(1) by (simp add: of_nat_diff)
  then show ?thesis using assms(2) by (simp add: word_less_nat_alt unat_of_nat_small del: of_nat_diff)
qed

definition whole_frame :: "u8 list \<Rightarrow> bool" where
  "whole_frame bs \<longleftrightarrow> 7 \<le> length bs \<and> length bs = 7 + unat (bs ! 5)"

text \<open>How a response is judged: its checksum, then whether it reports an error.\<close>

definition judged :: "zo_packet \<Rightarrow> 'h zo \<Rightarrow> 'h zo" where
  "judged p z =
     (if p_commandID p = ZO_PROTOCOL_ERROR_ID then zo_fail (p_data p ! 0) z
      else if p_lrc p \<noteq> calcLRC p then zo_fail ZO_WARNING_WRONG_LRC z else z)"

text \<open>
  What the library relies on: bytes come out of a queue, a packet that has been written whole
  is answered, and the clock goes on by a millisecond when it is read.
\<close>

locale serial_line =
  fixes hw :: "'h zo_hw"
    and inq :: "'h \<Rightarrow> u8 list" and outq :: "'h \<Rightarrow> u8 list" and clock :: "'h \<Rightarrow> nat"
    and answer :: "'h \<Rightarrow> u8 list \<Rightarrow> u8 list"
  assumes peek_none: "inq h = [] \<Longrightarrow> z_peek hw h = (- 1, h)"
    and peek_byte: "inq h = c # cs \<Longrightarrow> z_peek hw h = (uint c, h)"
    and read_byte: "inq h = c # cs \<Longrightarrow>
      \<exists>h'. z_read hw h = (uint c, h') \<and> inq h' = cs \<and> clock h' = clock h"
    and millis: "\<exists>h'. z_millis hw h = (of_nat (clock h), h') \<and> inq h' = inq h \<and> clock h' = Suc (clock h)"
    and write_queue: "outq (z_write hw b h) = (if whole_frame (outq h @ [b]) then [] else outq h @ [b])"
    and write_answer: "inq (z_write hw b h) =
      inq h @ (if whole_frame (outq h @ [b]) then answer h (outq h @ [b]) else [])"
    and write_keeps: "answer (z_write hw b h) = answer h"
    and turn_keeps: "inq (z_delay hw d (z_transmitterEnable hw pin (z_flush hw h))) = inq h"
      "outq (z_delay hw d (z_transmitterEnable hw pin (z_flush hw h))) = outq h"
      "answer (z_delay hw d (z_transmitterEnable hw pin (z_flush hw h))) = answer h"
begin

lemma write_part:
  assumes "\<And>k. k < length bs \<Longrightarrow> \<not> whole_frame (outq h @ take (Suc k) bs)"
  shows "inq (fold (z_write hw) bs h) = inq h \<and> outq (fold (z_write hw) bs h) = outq h @ bs \<and>
         answer (fold (z_write hw) bs h) = answer h"
  using assms
proof (induction bs arbitrary: h)
  case (Cons b bs)
  have w: "\<not> whole_frame (outq h @ [b])" using Cons.prems [of 0] by simp
  have "\<not> whole_frame (outq (z_write hw b h) @ take (Suc k) bs)" if "k < length bs" for k
    using Cons.prems [of "Suc k"] that w by (simp add: write_queue)
  from Cons.IH [OF this] show ?case using w by (simp add: write_queue write_answer write_keeps)
qed simp

lemma write_frame:
  assumes "outq h = []" and "unat (p_byteCount p) \<le> 22" "length (p_data p) = 22"
  shows "inq (fold (z_write hw) (zo_frame p) h) = inq h @ answer h (zo_frame p) \<and>
         outq (fold (z_write hw) (zo_frame p) h) = []"
proof -
  define bs where "bs = butlast (zo_frame p)"
  have f: "zo_frame p = bs @ [p_lrc p]" by (simp add: bs_def zo_frame_def butlast_append)
  have l: "length bs = 6 + unat (p_byteCount p)" using assms by (simp add: bs_def zo_frame_def)
  have n: "bs ! 5 = p_byteCount p"
    by (simp add: bs_def zo_frame_def butlast_append nth_append eval_nat_numeral)
  have "\<not> whole_frame (outq h @ take (Suc k) bs)" if k: "k < length bs" for k
  proof
    assume w: "whole_frame (outq h @ take (Suc k) bs)"
    then have "6 < Suc k" using assms(1) k by (simp add: whole_frame_def)
    with w k show False using assms(1) l n by (simp add: whole_frame_def)
  qed
  note part = write_part [OF this]
  have "whole_frame (zo_frame p)" unfolding f using l n by (simp add: whole_frame_def nth_append)
  then show ?thesis using part assms(1) unfolding f
    by (simp add: write_answer write_queue)
qed

lemma send:
  assumes "z_hw z \<noteq> ZO_HW_WIRE" and "outq (z_bus z) = []" and "inq (z_bus z) = []"
    and "unat (p_byteCount p) \<le> 22" "length (p_data p) = 22"
  shows "\<exists>h. putPacket hw p z = Some (True, z\<lparr>z_bus := h\<rparr>) \<and> inq h = answer (z_bus z) (zo_frame p)"
proof -
  define h where "h = (if z_rs485 z \<noteq> - 1
    then z_delay hw 5 (z_transmitterEnable hw (z_rs485 z) (z_flush hw (z_bus z))) else z_bus z)"
  have h: "outq h = []" "inq h = []" "answer h = answer (z_bus z)"
    using assms(2, 3) by (simp_all add: h_def turn_keeps)
  have "putPacket hw p z = Some (True, z\<lparr>z_bus := fold (z_write hw) (zo_frame p) h\<rparr>)"
    using assms(1, 4) by (simp add: putPacket_def putPacketSerial_def zo_frame_def h_def)
  then show ?thesis using write_frame [OF h(1) assms(4, 5)] h by auto
qed

lemma poll_byte:
  assumes "z_hw z \<noteq> ZO_HW_WIRE" and "inq (z_bus z) = c # cs"
  shows "\<exists>h. getPacket hw p z = decodeByte c p (z\<lparr>z_bus := h\<rparr>) \<and> inq h = cs \<and> clock h = clock (z_bus z)"
proof -
  obtain h where h: "z_read hw (z_bus z) = (uint c, h)" "inq h = cs" "clock h = clock (z_bus z)"
    using read_byte [OF assms(2)] by auto
  have "uint c \<noteq> - 1" by (metis uint_ge_0 neg_0_le_iff_le not_one_le_zero)
  then show ?thesis using assms h peek_byte [OF assms(2)]
    by (intro exI [of _ h]) (simp add: getPacket_def getPacketSerial_def)
qed

text \<open>A packet that comes within the time limit ends the wait.\<close>

lemma wait_decodes:
  assumes "z_hw z \<noteq> ZO_HW_WIRE" and "z_CommSuccess z" and "inq (z_bus z) = bs @ rest"
    and "decodeAll bs p z = Some (True, p', z')"
    and "start \<le> clock (z_bus z)" "clock (z_bus z) + length bs \<le> start + 201"
  shows "\<exists>h. responseWait hw (of_nat start) p z = Some (p', z'\<lparr>z_bus := h\<rparr>)"
  using assms
proof (induction bs arbitrary: p z z')
  case (Cons c bs)
  obtain h where h: "getPacket hw p z = decodeByte c p (z\<lparr>z_bus := h\<rparr>)" "inq h = bs @ rest"
      "clock h = clock (z_bus z)"
    using poll_byte [of z c "bs @ rest"] Cons.prems by auto
  obtain got p1 z1 where d: "decodeByte c p z = Some (got, p1, z1)"
    using Cons.prems(4) by (auto simp: bind_eq_Some_conv)
  have g: "getPacket hw p z = Some (got, p1, z1\<lparr>z_bus := h\<rparr>)" using h d by (simp add: decodeByte_bus)
  show ?case
  proof (cases got)
    case True
    then have "p1 = p'" "z1 = z'" using Cons.prems(4) d by auto
    then show ?thesis using g True by (subst responseWait.simps) auto
  next
    case False
    have z1: "z_CommSuccess z1" "z_hw z1 \<noteq> ZO_HW_WIRE" using decodeByte_keeps [OF d] Cons.prems by auto
    have all: "decodeAll bs p1 z1 = Some (True, p', z')" using Cons.prems(4) d False by simp
    then have ne: "bs \<noteq> []" by auto
    obtain h2 where h2: "z_millis hw h = (of_nat (clock h), h2)" "inq h2 = inq h" "clock h2 = Suc (clock h)"
      using millis by blast
    have "clock h - start \<le> 200" using Cons.prems h ne by (cases bs) auto
    then have early: "\<not> ZO_PROTOCOL_COMMAND_RESPONSE_TIMEOUT_MS < of_nat (clock h) - of_nat start"
      using elapsed_bound [of start "clock h"] Cons.prems(5) h(3) by simp
    have z2: "z1\<lparr>z_bus := h2, z_CommSuccess := True\<rparr> = z1\<lparr>z_bus := h2\<rparr>" using z1 by simp
    have all2: "decodeAll bs p1 (z1\<lparr>z_bus := h2\<rparr>) = Some (True, p', z'\<lparr>z_bus := h2\<rparr>)"
      by (simp add: decodeAll_bus all)
    have bounds: "start \<le> clock h2" "clock h2 + length bs \<le> start + 201"
      using Cons.prems(5, 6) h(3) h2(3) by simp_all
    have "\<exists>h'. responseWait hw (of_nat start) p1 (z1\<lparr>z_bus := h2\<rparr>) = Some (p', z'\<lparr>z_bus := h'\<rparr>)"
      using Cons.IH [OF _ _ _ all2] bounds z1 h(2) h2(2) by simp
    then show ?thesis using g False h2 early z2 by (subst responseWait.simps) auto
  qed
qed simp

text \<open>No byte comes: the wait ends after the time limit.\<close>

lemma wait_silent:
  assumes "z_hw z \<noteq> ZO_HW_WIRE" and "inq (z_bus z) = []"
    and "start \<le> clock (z_bus z)" "clock (z_bus z) + k = start + 201"
  shows "\<exists>h. responseWait hw (of_nat start) p z = Some (p, zo_fail ZO_WARNING_RESPONSE_TIMEOUT (z\<lparr>z_bus := h\<rparr>))"
  using assms
proof (induction k arbitrary: z)
  case 0
  obtain h2 where h2: "z_millis hw (z_bus z) = (of_nat (clock (z_bus z)), h2)"
    using millis by blast
  have g: "getPacket hw p z = Some (False, p, z)" using 0 peek_none [of "z_bus z"]
    by (simp add: getPacket_def getPacketSerial_def)
  have "ZO_PROTOCOL_COMMAND_RESPONSE_TIMEOUT_MS < of_nat (clock (z_bus z)) - of_nat start"
    using elapsed_bound [of start "clock (z_bus z)"] 0 by linarith
  then show ?case using g h2 by (subst responseWait.simps) auto
next
  case (Suc k)
  obtain h2 where h2: "z_millis hw (z_bus z) = (of_nat (clock (z_bus z)), h2)" "inq h2 = inq (z_bus z)"
      "clock h2 = Suc (clock (z_bus z))"
    using millis by blast
  have g: "getPacket hw p z = Some (False, p, z)" using Suc.prems peek_none [of "z_bus z"]
    by (simp add: getPacket_def getPacketSerial_def)
  have early: "\<not> ZO_PROTOCOL_COMMAND_RESPONSE_TIMEOUT_MS < of_nat (clock (z_bus z)) - of_nat start"
    using elapsed_bound [of start "clock (z_bus z)"] Suc.prems by linarith
  show ?case using Suc.IH [of "z\<lparr>z_bus := h2, z_CommSuccess := True\<rparr>"] Suc.prems g h2 early
    by (subst responseWait.simps) (auto simp: zo_fail_def)
qed

text \<open>A request and its answer.\<close>

lemma request_answered:
  assumes "z_hw z \<noteq> ZO_HW_WIRE" and "z_decoder z = WAIT_ON_HEADER_0" and "z_CommSuccess z"
    and "outq (z_bus z) = []" and "inq (z_bus z) = []"
    and "unat (p_byteCount p) \<le> 22" "length (p_data p) = 22"
    and "answer (z_bus z) (zo_frame p) = g @ zo_frame q" and "0x55 \<notin> set g"
    and "length g + length (zo_frame q) \<le> 200"
    and "p_addressedNodeID q = z_localNodeID z" and "unat (p_byteCount q) \<le> 22" "length (p_data q) = 22"
  shows "\<exists>h. request hw p z = Some (True, p_lrc q = calcLRC q \<and> p_commandID q \<noteq> ZO_PROTOCOL_ERROR_ID,
    received q p, judged (received q p) (z\<lparr>z_byteCount := 0, z_bus := h\<rparr>))"
proof -
  obtain h0 where h0: "putPacket hw p z = Some (True, z\<lparr>z_bus := h0\<rparr>)" "inq h0 = g @ zo_frame q"
    using send [OF assms(1, 4, 5, 6, 7)] assms(8) by auto
  obtain h1 where h1: "z_millis hw h0 = (of_nat (clock h0), h1)" "inq h1 = inq h0" "clock h1 = Suc (clock h0)"
    using millis by blast
  have d: "decodeAll (g @ zo_frame q) p (z\<lparr>z_bus := h1\<rparr>) =
      Some (True, received q p, z\<lparr>z_bus := h1, z_byteCount := 0, z_decoder := WAIT_ON_HEADER_0\<rparr>)"
    using decode_frame [of "z\<lparr>z_bus := h1\<rparr>" q p "[]"] decode_noise [of "z\<lparr>z_bus := h1\<rparr>" g "zo_frame q" p]
      assms by simp
  obtain h2 where h2: "responseWait hw (of_nat (clock h0)) p (z\<lparr>z_bus := h1\<rparr>) =
      Some (received q p, z\<lparr>z_byteCount := 0, z_decoder := WAIT_ON_HEADER_0, z_bus := h2\<rparr>)"
    using wait_decodes [OF _ _ _ d, where start = "clock h0" and rest = "[]"] assms h0(2) h1 by auto
  have keep: "z\<lparr>z_byteCount := 0, z_decoder := WAIT_ON_HEADER_0, z_bus := h2\<rparr> = z\<lparr>z_byteCount := 0, z_bus := h2\<rparr>"
    using assms(2) by simp
  have "p_lrc (received q p) = p_lrc q" "p_commandID (received q p) = p_commandID q"
    "calcLRC (received q p) = calcLRC q"
    using assms(12, 13) by (simp_all add: received_def calcLRC_def)
  then show ?thesis using h0(1) h1(1) h2 assms(3) unfolding keep
    by (intro exI [of _ h2]) (simp add: request_def zo_getResponse_def judged_def zo_fail_def)
qed

lemma request_silent:
  assumes "z_hw z \<noteq> ZO_HW_WIRE" and "outq (z_bus z) = []" and "inq (z_bus z) = []"
    and "unat (p_byteCount p) \<le> 22" "length (p_data p) = 22" and "answer (z_bus z) (zo_frame p) = []"
  shows "\<exists>h. request hw p z = Some (True, False, p, zo_fail ZO_WARNING_RESPONSE_TIMEOUT (z\<lparr>z_bus := h\<rparr>))"
proof -
  obtain h0 where h0: "putPacket hw p z = Some (True, z\<lparr>z_bus := h0\<rparr>)" "inq h0 = []"
    using send [OF assms(1 - 5)] assms(6) by auto
  obtain h1 where h1: "z_millis hw h0 = (of_nat (clock h0), h1)" "inq h1 = inq h0" "clock h1 = Suc (clock h0)"
    using millis by blast
  obtain h2 where "responseWait hw (of_nat (clock h0)) p (z\<lparr>z_bus := h1\<rparr>) =
      Some (p, zo_fail ZO_WARNING_RESPONSE_TIMEOUT (z\<lparr>z_bus := h2\<rparr>))"
    using wait_silent [of "z\<lparr>z_bus := h1\<rparr>" "clock h0" 200 p] assms h0(2) h1 by auto
  then show ?thesis using h0(1) h1(1)
    by (intro exI [of _ h2]) (simp add: request_def zo_getResponse_def zo_fail_def)
qed

end

section \<open>A line with a controller at its end\<close>

record zo_line =
  l_in :: "u8 list"
  l_out :: "u8 list"
  l_clock :: nat
  l_node :: "u8 list \<Rightarrow> u8 list"

definition line_write :: "u8 \<Rightarrow> zo_line \<Rightarrow> zo_line" where
  "line_write b h =
     (let out = l_out h @ [b] in
      if whole_frame out then h\<lparr>l_in := l_in h @ l_node h out, l_out := []\<rparr> else h\<lparr>l_out := out\<rparr>)"

definition line_hw :: "zo_packet \<Rightarrow> zo_line zo_hw" where
  "line_hw st = \<lparr>
     z_millis = (\<lambda>h. (of_nat (l_clock h), h\<lparr>l_clock := Suc (l_clock h)\<rparr>)),
     z_delay = (\<lambda>d h. h\<lparr>l_clock := l_clock h + unat d\<rparr>),
     z_peek = (\<lambda>h. (case l_in h of [] \<Rightarrow> - 1 | c # cs \<Rightarrow> uint c, h)),
     z_read = (\<lambda>h. case l_in h of [] \<Rightarrow> (- 1, h) | c # cs \<Rightarrow> (uint c, h\<lparr>l_in := cs\<rparr>)),
     z_write = line_write,
     z_flush = (\<lambda>h. h),
     z_transmitterEnable = (\<lambda>pin h. h),
     z_wireBegin = (\<lambda>a h. h),
     z_beginTransmission = (\<lambda>a h. h),
     z_wireWrite = (\<lambda>bs h. h),
     z_endTransmission = (\<lambda>h. (4, h)),
     z_readByte = (\<lambda>h. (0xFF, h)),
     z_pending = (\<lambda>h. (False, h)),
     z_stack = st \<rparr>"

interpretation line: serial_line "line_hw st" l_in l_out l_clock l_node
  by unfold_locales (auto simp: line_hw_def line_write_def Let_def)

definition line_ready :: "zo_line zo \<Rightarrow> bool" where
  "line_ready z \<longleftrightarrow> z_hw z \<noteq> ZO_HW_WIRE \<and> z_decoder z = WAIT_ON_HEADER_0 \<and> z_CommSuccess z \<and>
     l_out (z_bus z) = [] \<and> l_in (z_bus z) = []"

definition zo_wf :: "zo_packet \<Rightarrow> bool" where
  "zo_wf p \<longleftrightarrow> unat (p_byteCount p) \<le> 22 \<and> length (p_data p) = 22"

lemma plain_wf: "length (p_data st) = 22 \<Longrightarrow> zo_wf (plainPacket (line_hw st) n c)"
  by (simp add: zo_wf_def plainPacket_def line_hw_def)

text \<open>A query whose answer comes behind noise.\<close>

lemma query_answered:
  assumes "length (p_data st) = 22" and "line_ready z"
    and "l_node (z_bus z) (zo_frame (plainPacket (line_hw st) n c)) = g @ zo_frame q"
    and "0x55 \<notin> set g" "length g \<le> 170" and "zo_wf q" and "p_addressedNodeID q = z_localNodeID z"
  shows "\<exists>h. request (line_hw st) (plainPacket (line_hw st) n c) z =
    Some (True, p_lrc q = calcLRC q \<and> p_commandID q \<noteq> ZO_PROTOCOL_ERROR_ID,
      received q (plainPacket (line_hw st) n c),
      judged (received q (plainPacket (line_hw st) n c)) (z\<lparr>z_byteCount := 0, z_bus := h\<rparr>))"
proof -
  have "length g + length (zo_frame q) \<le> 200" using assms(5, 6) by (simp add: zo_frame_def zo_wf_def)
  then show ?thesis
    using line.request_answered [where z = z and p = "plainPacket (line_hw st) n c" and st = st and g = g and q = q]
      plain_wf [OF assms(1), of n c] assms
    by (simp add: zo_wf_def line_ready_def)
qed

lemma xor_start: "foldl (XOR) (a XOR d) ys = foldl (XOR) a ys XOR (d :: u8)"
proof (induction ys arbitrary: a)
  case (Cons y ys)
  have "(a XOR d) XOR y = (a XOR y) XOR d" by (simp add: xor.assoc xor.commute [of d])
  then have "foldl (XOR) (a XOR d) (y # ys) = foldl (XOR) ((a XOR y) XOR d) ys"
    by (simp only: foldl.simps)
  also have "\<dots> = foldl (XOR) (a XOR y) ys XOR d" by (rule Cons.IH)
  finally show ?case by simp
qed simp

lemma xor_update:
  "i < length xs \<Longrightarrow> foldl (XOR) a (xs[i := c]) = foldl (XOR) a xs XOR (xs ! i XOR (c :: u8))"
proof (induction xs arbitrary: a i)
  case (Cons x xs)
  show ?case
  proof (cases i)
    case 0
    have "foldl (XOR) a ((x # xs)[i := c]) = foldl (XOR) a xs XOR c" using 0 by (simp add: xor_start)
    moreover have "foldl (XOR) a (x # xs) = foldl (XOR) a xs XOR x" by (simp add: xor_start)
    ultimately show ?thesis using 0 by (simp add: xor.assoc)
  next
    case (Suc j)
    then show ?thesis using Cons by simp
  qed
qed simp

lemma xor_same: "a XOR (b XOR c) = (a :: u8) \<longleftrightarrow> b = c"
  by (metis xor.assoc xor.left_neutral xor.right_neutral xor_self_eq)

lemma length_le64 [simp]: "length (le64 v) = 8"
  by (simp add: le64_def le32_def le16_def)


lemma corrupt_lrc:
  assumes "zo_wf q" and "p_lrc q = calcLRC q"
    and "q' \<noteq> q" and "q' = q\<lparr>p_commandID := c\<rparr> \<or> q' = q\<lparr>p_lrc := c\<rparr> \<or>
      (\<exists>i < unat (p_byteCount q). q' = q\<lparr>p_data := (p_data q)[i := c]\<rparr>)"
  shows "p_lrc q' \<noteq> calcLRC q' \<and> zo_wf q' \<and> p_addressedNodeID q' = p_addressedNodeID q"
  using assms(4)
proof (elim disjE exE conjE)
  assume q: "q' = q\<lparr>p_commandID := c\<rparr>"
  then have c: "c \<noteq> p_commandID q" using assms(3) by auto
  have "calcLRC q' = calcLRC q XOR (p_commandID q XOR c)"
    using xor_start [of "c XOR p_byteCount q" "p_commandID q XOR c"] q
    by (simp add: calcLRC_def xor.assoc xor.commute xor.left_commute)
  then have "calcLRC q' \<noteq> calcLRC q" using c by (simp add: xor_same)
  then show ?thesis using assms(1, 2) q by (simp add: zo_wf_def)
next
  assume q: "q' = q\<lparr>p_lrc := c\<rparr>"
  then show ?thesis using assms by (auto simp: zo_wf_def calcLRC_def)
next
  fix i
  assume i: "i < unat (p_byteCount q)" and q: "q' = q\<lparr>p_data := (p_data q)[i := c]\<rparr>"
  then have c: "c \<noteq> p_data q ! i" using assms(3) by auto
  have l: "i < length (take (unat (p_byteCount q)) (p_data q))" using i assms(1) by (simp add: zo_wf_def)
  have "calcLRC q' = calcLRC q XOR (p_data q ! i XOR c)"
    using xor_update [OF l] q i by (simp add: calcLRC_def take_update_swap)
  then have "calcLRC q' \<noteq> calcLRC q" using c by (simp add: xor_same)
  then show ?thesis using assms(1, 2) q by (simp add: zo_wf_def)
qed

section \<open>Properties\<close>

definition demo_packet :: zo_packet where
  "demo_packet = \<lparr> p_addressedNodeID = 1, p_ownNodeID = 2, p_commandID = 0x6F, p_byteCount = 8,
     p_data = le64 0x0123456789ABCDEF @ replicate 14 0, p_lrc = 0x67 \<rparr>"

definition demo_zo :: "u8 list \<Rightarrow> zo_line zo" where
  "demo_zo bs = \<lparr> z_localNodeID = 1, z_hw = ZO_HW_SERIAL, z_decoder = WAIT_ON_HEADER_0, z_byteCount = 0,
     z_buffered = demo_packet, z_i2cPacketReceived = False, z_CommSuccess = True, z_Warning = 0, z_rs485 = - 1,
     z_bus = \<lparr> l_in = [], l_out = [], l_clock = 0, l_node = (\<lambda>_. bs) \<rparr> \<rparr>"

lemma demo:
  "zo_wf demo_packet" "p_lrc demo_packet = calcLRC demo_packet" "line_ready (demo_zo bs)"
  "p_addressedNodeID demo_packet = z_localNodeID (demo_zo bs)" "length (p_data demo_packet) = 22"
  "take 8 (p_data demo_packet) = le64 0x0123456789ABCDEF" "p_commandID demo_packet = 0x6F"
  "p_byteCount demo_packet = 8" "l_node (z_bus (demo_zo bs)) ps = bs"
  by (simp_all add: zo_wf_def demo_packet_def calcLRC_def line_ready_def demo_zo_def le64_def le32_def le16_def)

text \<open>
  What \<open>putPacket\<close> writes on a serial line is found by the decoder of the node it is addressed
  to, behind any noise without a first header byte, with its data over what the packet held.
\<close>

theorem packet_behind_noise:
  assumes "zo_wf q" "z_hw s \<noteq> ZO_HW_WIRE" "z_rs485 s = - 1"
    and "z_decoder z = WAIT_ON_HEADER_0" "p_addressedNodeID q = z_localNodeID z"
    and "0x55 \<notin> set g" "length (p_data p) = 22"
  shows "\<exists>bs. putPacket hw q s = Some (True, s\<lparr>z_bus := fold (z_write hw) bs (z_bus s)\<rparr>) \<and>
    decodeAll (g @ bs @ rest) p z = Some (True, received q p, z\<lparr>z_byteCount := 0, z_decoder := WAIT_ON_HEADER_0\<rparr>)"
proof (intro exI conjI)
  show "putPacket hw q s = Some (True, s\<lparr>z_bus := fold (z_write hw) (zo_frame q) (z_bus s)\<rparr>)"
    using assms by (simp add: putPacket_def putPacketSerial_def zo_frame_def zo_wf_def)
  show "decodeAll (g @ zo_frame q @ rest) p z =
      Some (True, received q p, z\<lparr>z_byteCount := 0, z_decoder := WAIT_ON_HEADER_0\<rparr>)"
    using assms by (simp add: decode_noise decode_frame zo_wf_def)
qed

theorem packet_behind_noise_witness:
  "\<exists>bs. putPacket (line_hw demo_packet) demo_packet (demo_zo []) = Some (True, (demo_zo [])\<lparr>z_bus :=
      fold (z_write (line_hw demo_packet)) bs (z_bus (demo_zo []))\<rparr>) \<and>
    decodeAll ([1, 2, 0xAA] @ bs @ [7]) demo_packet (demo_zo []) =
      Some (True, received demo_packet demo_packet,
        (demo_zo [])\<lparr>z_byteCount := 0, z_decoder := WAIT_ON_HEADER_0\<rparr>)"
  by (rule packet_behind_noise) (simp_all add: demo, simp_all add: demo_zo_def)



text \<open>
  C20. An answer of which the command, the checksum or one byte of the data has changed on the line is
  refused: \<open>getPosition\<close> returns \<open>-999\<close> and the communication counts as failed.
\<close>

theorem wrong_byte_refused:
  assumes "length (p_data st) = 22" and "line_ready z"
    and "l_node (z_bus z) (zo_frame (plainPacket (line_hw st) n 0x6F)) = g @ zo_frame q'"
    and "0x55 \<notin> set g" "length g \<le> 170" and "zo_wf q" and "p_addressedNodeID q = z_localNodeID z"
    and "p_lrc q = calcLRC q" and "q' \<noteq> q"
    and "q' = q\<lparr>p_commandID := c\<rparr> \<or> q' = q\<lparr>p_lrc := c\<rparr> \<or>
      (\<exists>i < unat (p_byteCount q). q' = q\<lparr>p_data := (p_data q)[i := c]\<rparr>)"
  shows "\<exists>z'. getPosition (line_hw st) n z = Some (- 999, z') \<and> \<not> z_CommSuccess z'"
proof -
  have q': "p_lrc q' \<noteq> calcLRC q'" "zo_wf q'" "p_addressedNodeID q' = z_localNodeID z"
    using corrupt_lrc [OF assms(6, 8, 9, 10)] assms(7) by auto
  let ?r = "received q' (plainPacket (line_hw st) n 0x6F)"
  have "p_lrc ?r \<noteq> calcLRC ?r" using q'(1, 2) by (simp add: received_def calcLRC_def zo_wf_def)
  then have "\<not> z_CommSuccess (judged ?r z')" for z' :: "zo_line zo" by (simp add: judged_def zo_fail_def)
  then show ?thesis using query_answered [OF assms(1 - 5) q'(2, 3)] q'(1) by (auto simp: getPosition_def)
qed

theorem wrong_byte_refused_witness:
  "\<exists>z'. getPosition (line_hw demo_packet) 2 (demo_zo ([] @ zo_frame (demo_packet\<lparr>p_lrc := 0\<rparr>))) = Some (- 999, z') \<and>
     \<not> z_CommSuccess z'"
  by (rule wrong_byte_refused [where g = "[]" and q = demo_packet and c = 0 and q' = "demo_packet\<lparr>p_lrc := 0\<rparr>"])
    (simp_all add: demo, simp_all add: demo_packet_def)



end
