(* ===== verification/EspDrv.thy ===== *)
theory EspDrv
  imports RingBuffer "HOL-Library.Char_ord"
begin

text \<open>
  The driver of a WiFi modem that is spoken to with AT commands over a serial stream
  (WiFiEsp/src/utility/EspDrv.cpp).  The stream, with its functions \<open>find\<close> and \<open>parseInt\<close>, the
  clock and \<open>IPAddress::fromString\<close> are the parameter \<open>esp_hw\<close>; \<open>e_stack n\<close> is what lies in a local
  buffer of \<open>n\<close> bytes that has not been set.  The output of the log is left out.  \<open>None\<close> is an
  access outside a buffer, the use of a null pointer, or a loop that does not end.
\<close>

section \<open>Strings of C\<close>

definition ascii :: "string \<Rightarrow> u8 list" where
  "ascii s = map (\<lambda>c. of_nat (of_char c)) s"

text \<open>\<open>sprintf\<close> into a buffer of \<open>n\<close> bytes, and a string parameter between quotes.\<close>

definition sprintf_buf :: "nat \<Rightarrow> u8 list \<Rightarrow> u8 list option" where
  "sprintf_buf n s = (if length s < n then Some s else None)"

definition quoted :: "u8 list \<Rightarrow> u8 list" where
  "quoted s = 0x22 # s @ [0x22]"

definition isSpaceChar :: "u8 \<Rightarrow> bool" where
  "isSpaceChar c \<longleftrightarrow> c = 0x20 \<or> 9 \<le> c \<and> c \<le> 13"

definition isDigitChar :: "u8 \<Rightarrow> bool" where
  "isDigitChar c \<longleftrightarrow> 0x30 \<le> c \<and> c \<le> 0x39"

definition isHexChar :: "u8 \<Rightarrow> bool" where
  "isHexChar c \<longleftrightarrow> isDigitChar c \<or> 0x41 \<le> c \<and> c \<le> 0x46 \<or> 0x61 \<le> c \<and> c \<le> 0x66"

definition hexValue :: "u8 \<Rightarrow> int" where
  "hexValue c = (if isDigitChar c then uint c - 0x30 else if c < 0x61 then uint c - 0x37 else uint c - 0x57)"

definition signOf :: "u8 list \<Rightarrow> int \<times> u8 list" where
  "signOf s = (case s of [] \<Rightarrow> (1, [])
     | c # cs \<Rightarrow> if c = 0x2D then (- 1, cs) else if c = 0x2B then (1, cs) else (1, s))"

text \<open>
  \<open>atoi\<close> reads up to the first byte that is not a digit: there must be one.  A value out of the
  range of an \<open>int\<close> is undefined.  \<open>strtol\<close>, on a string with its terminating zero cut off, cuts
  the value off at the range of a \<open>long\<close>.
\<close>

definition c_atoi :: "u8 list \<Rightarrow> int option" where
  "c_atoi s =
     (let (sign, s) = signOf (dropWhile isSpaceChar s);
          v = sign * foldl (\<lambda>a d. 10 * a + (uint d - 0x30)) 0 (takeWhile isDigitChar s)
      in if dropWhile isDigitChar s = [] \<or> v < - (2 ^ 31) \<or> 2 ^ 31 \<le> v then None else Some v)"

definition strtol16 :: "u8 list \<Rightarrow> int" where
  "strtol16 s =
     (let (sign, s) = signOf (dropWhile isSpaceChar s);
          s = (if 2 < length s \<and> s ! 0 = 0x30 \<and> (s ! 1 = 0x78 \<or> s ! 1 = 0x58) \<and> isHexChar (s ! 2) then drop 2 s else s);
          v = sign * foldl (\<lambda>a d. 16 * a + hexValue d) 0 (takeWhile isHexChar s)
      in max (- (2 ^ 31)) (min (2 ^ 31 - 1) v))"

text \<open>
  \<open>strtok\<close> on the bytes from its saved pointer on: the token, \<open>None\<close> for the null pointer, and the
  bytes from the new saved pointer on.  The bytes must contain the end of the token.
\<close>

definition strtok :: "u8 \<Rightarrow> u8 list \<Rightarrow> (u8 list option \<times> u8 list) option" where
  "strtok d s =
     (case dropWhile (\<lambda>c. c = d) s of [] \<Rightarrow> None
      | c # cs \<Rightarrow>
          if c = 0 then Some (None, c # cs)
          else case dropWhile (\<lambda>c. c \<noteq> d \<and> c \<noteq> 0) (c # cs) of [] \<Rightarrow> None
               | e # rest \<Rightarrow> Some (Some (takeWhile (\<lambda>c. c \<noteq> d \<and> c \<noteq> 0) (c # cs)), if e = 0 then e # rest else rest))"

text \<open>The number in each of \<open>n\<close> tokens.\<close>

fun tokenValues :: "(u8 list \<Rightarrow> int option) \<Rightarrow> u8 \<Rightarrow> nat \<Rightarrow> u8 list \<Rightarrow> u8 list option" where
  "tokenValues val d 0 s = Some []"
| "tokenValues val d (Suc n) s =
     (case strtok d s of
        Some (Some token, s) \<Rightarrow> (case (val token, tokenValues val d n s) of
                                 (Some v, Some vs) \<Rightarrow> Some (word_of_int v # vs) | _ \<Rightarrow> None)
      | _ \<Rightarrow> None)"

section \<open>Data\<close>

definition NUMESPTAGS :: int where [simp]: "NUMESPTAGS = 5"
definition TAG_OK :: int where [simp]: "TAG_OK = 0"
definition TAG_ERROR :: int where [simp]: "TAG_ERROR = 1"
definition TAG_FAIL :: int where [simp]: "TAG_FAIL = 2"
definition TAG_SENDOK :: int where [simp]: "TAG_SENDOK = 3"
definition TAG_CONNECT :: int where [simp]: "TAG_CONNECT = 4"

definition crlf :: "u8 list" where "crlf = [0x0D, 0x0A]"

definition ESPTAGS :: "u8 list list" where
  "ESPTAGS = [crlf @ ascii ''OK'' @ crlf, crlf @ ascii ''ERROR'' @ crlf, crlf @ ascii ''FAIL'' @ crlf,
     crlf @ ascii ''SEND OK'' @ crlf, ascii '' CONNECT'' @ crlf]"

definition WL_NO_SHIELD :: u8 where [simp]: "WL_NO_SHIELD = 255"
definition WL_IDLE_STATUS :: u8 where [simp]: "WL_IDLE_STATUS = 0"
definition WL_CONNECTED :: u8 where [simp]: "WL_CONNECTED = 1"
definition WL_CONNECT_FAILED :: u8 where [simp]: "WL_CONNECT_FAILED = 2"
definition WL_DISCONNECTED :: u8 where [simp]: "WL_DISCONNECTED = 3"
definition WL_SSID_MAX_LENGTH :: nat where [simp]: "WL_SSID_MAX_LENGTH = 32"
definition WL_MAC_ADDR_LENGTH :: nat where [simp]: "WL_MAC_ADDR_LENGTH = 6"
definition WL_NETWORKS_LIST_MAXNUM :: u8 where [simp]: "WL_NETWORKS_LIST_MAXNUM = 10"
definition WIFI_SOCK_NUM :: nat where [simp]: "WIFI_SOCK_NUM = 4"
definition SOCK_NOT_AVAIL :: u8 where [simp]: "SOCK_NOT_AVAIL = 255"
definition NO_SOCKET_AVAIL :: u8 where [simp]: "NO_SOCKET_AVAIL = 255"
definition NA_STATE :: u16 where [simp]: "NA_STATE = - 1"
definition CMD_BUFFER_SIZE :: nat where [simp]: "CMD_BUFFER_SIZE = 200"
definition CLOSED :: u8 where [simp]: "CLOSED = 0"
definition ESTABLISHED :: u8 where [simp]: "ESTABLISHED = 4"

datatype tProtMode = TCP_MODE | UDP_MODE | SSL_MODE

record 'h esp_hw =
  e_millis :: "'h \<Rightarrow> u32 \<times> 'h"
  e_delay :: "u32 \<Rightarrow> 'h \<Rightarrow> 'h"
  e_available :: "'h \<Rightarrow> int \<times> 'h"
  e_read :: "'h \<Rightarrow> int \<times> 'h"
  e_peek :: "'h \<Rightarrow> int \<times> 'h"
  e_write :: "u8 list \<Rightarrow> 'h \<Rightarrow> 'h"
  e_println :: "u8 list \<Rightarrow> 'h \<Rightarrow> 'h"
  e_find :: "u8 list \<Rightarrow> 'h \<Rightarrow> bool \<times> 'h"
  e_parseInt :: "'h \<Rightarrow> u32 \<times> 'h"
  e_ipFromString :: "u8 list \<Rightarrow> u8 list \<Rightarrow> u8 list"
  e_stack :: "nat \<Rightarrow> u8 list"

text \<open>
  The static variables of \<open>EspDrv\<close>: the ring, the networks found, the values kept, the data
  announced by the modem and the connection they belong to, and where they came from.  The
  last fields are those of \<open>WiFiEspClass\<close>: the state and the port of each socket, and the mode.
\<close>

record 'h esp =
  e_ring :: ring
  networkSsid :: "u8 list list"
  networkRssi :: "u32 list"
  networkEncr :: "u8 list"
  ssid :: "u8 list"
  bssid :: "u8 list"
  mac :: "u8 list"
  esp_localIp :: "u8 list"
  fwVersion :: "u8 list"
  bufPos :: u32
  connId :: u8
  esp_remotePort :: u16
  esp_remoteIp :: "u8 list"
  sockState :: "u16 list"
  server_port :: "u16 list"
  espMode :: u8
  e_bus :: 'h

definition espMillis :: "'h esp_hw \<Rightarrow> 'h esp \<Rightarrow> u32 \<times> 'h esp" where
  "espMillis hw e = (case e_millis hw (e_bus e) of (n, h) \<Rightarrow> (n, e\<lparr>e_bus := h\<rparr>))"

definition espDelay :: "'h esp_hw \<Rightarrow> u32 \<Rightarrow> 'h esp \<Rightarrow> 'h esp" where
  "espDelay hw ms e = e\<lparr>e_bus := e_delay hw ms (e_bus e)\<rparr>"

definition espAvailable :: "'h esp_hw \<Rightarrow> 'h esp \<Rightarrow> int \<times> 'h esp" where
  "espAvailable hw e = (case e_available hw (e_bus e) of (n, h) \<Rightarrow> (n, e\<lparr>e_bus := h\<rparr>))"

definition espRead :: "'h esp_hw \<Rightarrow> 'h esp \<Rightarrow> int \<times> 'h esp" where
  "espRead hw e = (case e_read hw (e_bus e) of (n, h) \<Rightarrow> (n, e\<lparr>e_bus := h\<rparr>))"

definition espPeek :: "'h esp_hw \<Rightarrow> 'h esp \<Rightarrow> int \<times> 'h esp" where
  "espPeek hw e = (case e_peek hw (e_bus e) of (n, h) \<Rightarrow> (n, e\<lparr>e_bus := h\<rparr>))"

definition espWrite :: "'h esp_hw \<Rightarrow> u8 list \<Rightarrow> 'h esp \<Rightarrow> 'h esp" where
  "espWrite hw bs e = e\<lparr>e_bus := e_write hw bs (e_bus e)\<rparr>"

definition espPrintln :: "'h esp_hw \<Rightarrow> u8 list \<Rightarrow> 'h esp \<Rightarrow> 'h esp" where
  "espPrintln hw bs e = e\<lparr>e_bus := e_println hw bs (e_bus e)\<rparr>"

definition espFind :: "'h esp_hw \<Rightarrow> u8 list \<Rightarrow> 'h esp \<Rightarrow> bool \<times> 'h esp" where
  "espFind hw bs e = (case e_find hw bs (e_bus e) of (n, h) \<Rightarrow> (n, e\<lparr>e_bus := h\<rparr>))"

definition espParseInt :: "'h esp_hw \<Rightarrow> 'h esp \<Rightarrow> u32 \<times> 'h esp" where
  "espParseInt hw e = (case e_parseInt hw (e_bus e) of (n, h) \<Rightarrow> (n, e\<lparr>e_bus := h\<rparr>))"

text \<open>The variables before the program starts.\<close>

definition esp_new :: "'h \<Rightarrow> 'h esp" where
  "esp_new h = \<lparr> e_ring = ring_new 32,
     networkSsid = map (\<lambda>c. c # replicate 31 0) (ascii ''12345'') @ replicate 5 (replicate 32 0),
     networkRssi = replicate 10 0, networkEncr = replicate 10 0, ssid = replicate 32 0, bssid = replicate 6 0,
     mac = replicate 6 0, esp_localIp = replicate 4 0, fwVersion = replicate 6 0, bufPos = 0, connId = 0,
     esp_remotePort = 0, esp_remoteIp = replicate 4 0, sockState = replicate 4 NA_STATE, server_port = replicate 4 0,
     espMode = 0, e_bus = h \<rparr>"

section \<open>Waiting for the modem\<close>

text \<open>The last of the tags that the ring ends with is looked for in the order of the table.\<close>

fun espTag :: "u8 list list \<Rightarrow> int \<Rightarrow> int \<Rightarrow> ring \<Rightarrow> int option" where
  "espTag [] i ret r = Some ret"
| "espTag (t # ts) i ret r =
     (case ring_endsWith t r of None \<Rightarrow> None | Some found \<Rightarrow> if found then Some i else espTag ts (i + 1) ret r)"

definition tagFound :: "u8 list option \<Rightarrow> bool \<Rightarrow> ring \<Rightarrow> int option" where
  "tagFound tag findTags r = do {
     ret \<leftarrow> (case tag of None \<Rightarrow> Some (- 1)
             | Some t \<Rightarrow> do { found \<leftarrow> ring_endsWith t r; Some (if found then NUMESPTAGS else - 1) });
     if findTags then espTag ESPTAGS 0 ret r else Some ret }"

partial_function (option) untilLoop ::
  "'h esp_hw \<Rightarrow> u32 \<Rightarrow> u32 \<Rightarrow> u8 list option \<Rightarrow> bool \<Rightarrow> int \<Rightarrow> 'h esp \<Rightarrow> (int \<times> 'h esp) option" where
  "untilLoop hw timeout start tag findTags ret e =
     (case espMillis hw e of (now, e) \<Rightarrow>
        if \<not> (now - start < timeout \<and> ret < 0) then Some (ret, e)
        else case espAvailable hw e of (n, e) \<Rightarrow>
          if n = 0 then untilLoop hw timeout start tag findTags ret e
          else case espRead hw e of (c, e) \<Rightarrow>
            Option.bind (tagFound tag findTags (ring_push (word_of_int c) (e_ring e))) (\<lambda>ret.
              untilLoop hw timeout start tag findTags ret (e\<lparr>e_ring := ring_push (word_of_int c) (e_ring e)\<rparr>)))"

definition readUntil :: "'h esp_hw \<Rightarrow> u32 \<Rightarrow> u8 list option \<Rightarrow> bool \<Rightarrow> 'h esp \<Rightarrow> (int \<times> 'h esp) option" where
  "readUntil hw timeout tag findTags e = do {
     let e = e\<lparr>e_ring := ring_reset (e_ring e)\<rparr>;
     let (start, e) = espMillis hw e;
     (ret, e) \<leftarrow> untilLoop hw timeout start tag findTags (- 1) e;
     let (now, e) = espMillis hw e;
     Some (ret, e) }"

partial_function (option) espEmptyBuf :: "'h esp_hw \<Rightarrow> 'h esp \<Rightarrow> 'h esp option" where
  "espEmptyBuf hw e =
     (case espAvailable hw e of (n, e) \<Rightarrow>
        if n > 0 then (case espRead hw e of (c, e) \<Rightarrow> espEmptyBuf hw e) else Some e)"

partial_function (option) timedLoop :: "'h esp_hw \<Rightarrow> u32 \<Rightarrow> 'h esp \<Rightarrow> (int \<times> 'h esp) option" where
  "timedLoop hw start e =
     (case espRead hw e of (c, e) \<Rightarrow>
        if c \<ge> 0 then Some (c, e)
        else case espMillis hw e of (now, e) \<Rightarrow>
          if now - start < 1000 then timedLoop hw start e else Some (- 1, e))"

definition timedRead :: "'h esp_hw \<Rightarrow> 'h esp \<Rightarrow> (int \<times> 'h esp) option" where
  "timedRead hw e = (case espMillis hw e of (start, e) \<Rightarrow> timedLoop hw start e)"

section \<open>Commands\<close>

definition sendCmd :: "'h esp_hw \<Rightarrow> u8 list \<Rightarrow> u32 \<Rightarrow> 'h esp \<Rightarrow> (int \<times> 'h esp) option" where
  "sendCmd hw cmd timeout e = do {
     e \<leftarrow> espEmptyBuf hw e;
     let e = espPrintln hw cmd e;
     readUntil hw timeout None True e }"

text \<open>The command with arguments; \<open>cmd\<close> is the formatted text, which is cut off at the buffer.\<close>

definition sendCmdArgs :: "'h esp_hw \<Rightarrow> u8 list \<Rightarrow> u32 \<Rightarrow> 'h esp \<Rightarrow> (int \<times> 'h esp) option" where
  "sendCmdArgs hw cmd timeout e = do {
     let cmdBuf = take (CMD_BUFFER_SIZE - 1) cmd;
     e \<leftarrow> espEmptyBuf hw e;
     let e = espPrintln hw cmdBuf e;
     readUntil hw timeout None True e }"

text \<open>The text between two tags; \<open>out\<close> is the buffer that receives it.\<close>

definition sendCmdGet ::
  "'h esp_hw \<Rightarrow> u8 list \<Rightarrow> u8 list \<Rightarrow> u8 list \<Rightarrow> u8 list \<Rightarrow> 'h esp \<Rightarrow> (bool \<times> u8 list \<times> 'h esp) option" where
  "sendCmdGet hw cmd startTag endTag out e = do {
     let out = out[0 := 0];
     e \<leftarrow> espEmptyBuf hw e;
     let e = espPrintln hw cmd e;
     (idx, e) \<leftarrow> readUntil hw 1000 (Some startTag) True e;
     if idx = NUMESPTAGS then do {
       let e = e\<lparr>e_ring := ring_init (e_ring e)\<rparr>;
       (idx, e) \<leftarrow> readUntil hw 500 (Some endTag) True e;
       if idx = NUMESPTAGS then do {
         let out = splice out 0 (ring_getStrN (of_nat (length endTag)) (of_nat (length out) - 1) (e_ring e));
         (_, e) \<leftarrow> readUntil hw 2000 None True e;
         Some (True, out, e) }
       else Some (False, out, e) }
     else Some (False, out, e) }"

definition esp_reset :: "'h esp_hw \<Rightarrow> 'h esp \<Rightarrow> 'h esp option" where
  "esp_reset hw e = do {
     (_, e) \<leftarrow> sendCmd hw (ascii ''AT+RST'') 1000 e;
     let e = espDelay hw 3000 e;
     e \<leftarrow> espEmptyBuf hw e;
     (_, e) \<leftarrow> sendCmd hw (ascii ''ATE0'') 1000 e;
     (_, e) \<leftarrow> sendCmd hw (ascii ''AT+CWMODE=1'') 1000 e;
     let e = espDelay hw 200 e;
     (_, e) \<leftarrow> sendCmd hw (ascii ''AT+CIPMUX=1'') 1000 e;
     (_, e) \<leftarrow> sendCmd hw (ascii ''AT+CIPDINFO=1'') 1000 e;
     (_, e) \<leftarrow> sendCmd hw (ascii ''AT+CWAUTOCONN=0'') 1000 e;
     (_, e) \<leftarrow> sendCmd hw (ascii ''AT+CWDHCP=1,1'') 1000 e;
     Some (espDelay hw 200 e) }"

definition getFwVersion :: "'h esp_hw \<Rightarrow> 'h esp \<Rightarrow> (u8 list \<times> 'h esp) option" where
  "getFwVersion hw e = do {
     (_, out, e) \<leftarrow> sendCmdGet hw (ascii ''AT+GMR'') (ascii ''SDK version:'') crlf ((fwVersion e)[0 := 0]) e;
     let e = e\<lparr>fwVersion := out\<rparr>;
     Some (fwVersion e, e) }"

fun initLoop :: "'h esp_hw \<Rightarrow> nat \<Rightarrow> 'h esp \<Rightarrow> (bool \<times> 'h esp) option" where
  "initLoop hw 0 e = Some (False, e)"
| "initLoop hw (Suc n) e = do {
     (idx, e) \<leftarrow> sendCmd hw (ascii ''AT'') 1000 e;
     if idx = TAG_OK then Some (True, e) else initLoop hw n (espDelay hw 1000 e) }"

definition wifiDriverInit :: "'h esp_hw \<Rightarrow> 'h esp \<Rightarrow> 'h esp option" where
  "wifiDriverInit hw e = do {
     (initOK, e) \<leftarrow> initLoop hw 5 e;
     if \<not> initOK then Some (espDelay hw 5000 e)
     else do {
       e \<leftarrow> esp_reset hw e;
       (_, e) \<leftarrow> getFwVersion hw e;
       Some (if (fwVersion e ! 0 \<noteq> 0x31 \<and> fwVersion e ! 0 \<noteq> 0x32) \<or> fwVersion e ! 1 \<noteq> 0x2E
             then espDelay hw 4000 e else e) } }"

definition wifiConnect :: "'h esp_hw \<Rightarrow> u8 list \<Rightarrow> u8 list \<Rightarrow> 'h esp \<Rightarrow> (bool \<times> 'h esp) option" where
  "wifiConnect hw name passphrase e = do {
     (ret, e) \<leftarrow> sendCmdArgs hw (ascii ''AT+CWJAP_CUR='' @ quoted name @ ascii '','' @ quoted passphrase) 20000 e;
     if ret = TAG_OK then Some (True, e)
     else do {
       e \<leftarrow> espEmptyBuf hw (espDelay hw 1000 e);
       Some (False, e) } }"

definition wifiStartAP ::
  "'h esp_hw \<Rightarrow> u8 list \<Rightarrow> u8 list \<Rightarrow> u8 \<Rightarrow> u8 \<Rightarrow> u8 \<Rightarrow> 'h esp \<Rightarrow> (bool \<times> 'h esp) option" where
  "wifiStartAP hw name pwd channel enc mode e = do {
     (ret, e) \<leftarrow> sendCmdArgs hw (ascii ''AT+CWMODE_CUR='' @ decimal (unat mode)) 10000 e;
     if ret \<noteq> TAG_OK then Some (False, e)
     else do {
       (ret, e) \<leftarrow> sendCmdArgs hw (ascii ''AT+CWSAP_CUR='' @ quoted name @ ascii '','' @ quoted pwd @ ascii '','' @
           decimal (unat channel) @ ascii '','' @ decimal (unat enc)) 10000 e;
       if ret \<noteq> TAG_OK then Some (False, e)
       else do {
         e \<leftarrow> (if mode = 2 then do { (_, e) \<leftarrow> sendCmd hw (ascii ''AT+CWDHCP_CUR=0,1'') 1000 e; Some e } else Some e);
         e \<leftarrow> (if mode = 3 then do { (_, e) \<leftarrow> sendCmd hw (ascii ''AT+CWDHCP_CUR=2,1'') 1000 e; Some e } else Some e);
         Some (True, e) } } }"

definition esp_disconnect :: "'h esp_hw \<Rightarrow> 'h esp \<Rightarrow> (u8 \<times> 'h esp) option" where
  "esp_disconnect hw e = do {
     (ret, e) \<leftarrow> sendCmd hw (ascii ''AT+CWQAP'') 1000 e;
     if ret = TAG_OK then Some (WL_DISCONNECTED, e)
     else do {
       e \<leftarrow> espEmptyBuf hw (espDelay hw 2000 e);
       Some (WL_DISCONNECTED, e) } }"

definition esp_config :: "'h esp_hw \<Rightarrow> u8 list \<Rightarrow> 'h esp \<Rightarrow> 'h esp option" where
  "esp_config hw ip e = do {
     (_, e) \<leftarrow> sendCmd hw (ascii ''AT+CWDHCP_CUR=1,0'') 1000 e;
     let e = espDelay hw 500 e;
     buf \<leftarrow> sprintf_buf 16 (dotted_quad ip);
     (_, e) \<leftarrow> sendCmdArgs hw (ascii ''AT+CIPSTA_CUR='' @ quoted buf) 2000 e;
     Some (espDelay hw 500 e) }"

definition esp_configAP :: "'h esp_hw \<Rightarrow> u8 list \<Rightarrow> 'h esp \<Rightarrow> 'h esp option" where
  "esp_configAP hw ip e = do {
     (_, e) \<leftarrow> sendCmd hw (ascii ''AT+CWMODE_CUR=2'') 1000 e;
     (_, e) \<leftarrow> sendCmd hw (ascii ''AT+CWDHCP_CUR=2,0'') 1000 e;
     let e = espDelay hw 500 e;
     buf \<leftarrow> sprintf_buf 16 (dotted_quad ip);
     (_, e) \<leftarrow> sendCmdArgs hw (ascii ''AT+CIPAP_CUR='' @ quoted buf) 2000 e;
     Some (espDelay hw 500 e) }"

section \<open>What the modem reports\<close>

definition getConnectionStatus :: "'h esp_hw \<Rightarrow> 'h esp \<Rightarrow> (u8 \<times> 'h esp) option" where
  "getConnectionStatus hw e = do {
     (ok, buf, e) \<leftarrow> sendCmdGet hw (ascii ''AT+CIPSTATUS'') (ascii ''STATUS:'') crlf (e_stack hw 10) e;
     if \<not> ok then Some (WL_NO_SHIELD, e)
     else do {
       s \<leftarrow> c_atoi buf;
       Some (if s = 2 \<or> s = 3 \<or> s = 4 then WL_CONNECTED else if s = 5 then WL_DISCONNECTED else WL_IDLE_STATUS, e) } }"

definition getClientState :: "'h esp_hw \<Rightarrow> u8 \<Rightarrow> 'h esp \<Rightarrow> (bool \<times> 'h esp) option" where
  "getClientState hw sock e = do {
     findBuf \<leftarrow> sprintf_buf 20 (ascii ''+CIPSTATUS:'' @ decimal (unat sock) @ ascii '','');
     (ok, _, e) \<leftarrow> sendCmdGet hw (ascii ''AT+CIPSTATUS'') findBuf (ascii '','') (e_stack hw 10) e;
     Some (ok, e) }"

text \<open>The tokens of an address of the network hardware are stored from the last place on.\<close>

definition macTokens :: "u8 list \<Rightarrow> u8 list option" where
  "macTokens buf = map_option rev (tokenValues (\<lambda>t. Some (strtol16 t)) 0x3A 6 buf)"

definition ipTokens :: "u8 list \<Rightarrow> u8 list option" where
  "ipTokens buf = tokenValues (\<lambda>t. c_atoi (t @ [0])) 0x2E 4 buf"

definition getMacAddress :: "'h esp_hw \<Rightarrow> 'h esp \<Rightarrow> (u8 list \<times> 'h esp) option" where
  "getMacAddress hw e = do {
     let e = e\<lparr>mac := replicate WL_MAC_ADDR_LENGTH 0\<rparr>;
     (ok, buf, e) \<leftarrow> sendCmdGet hw (ascii ''AT+CIFSR'') (ascii '':STAMAC,'' @ [0x22]) [0x22] (e_stack hw 20) e;
     e \<leftarrow> (if ok then do { m \<leftarrow> macTokens buf; Some (e\<lparr>mac := m\<rparr>) } else Some e);
     Some (mac e, e) }"

definition getIpAddress :: "'h esp_hw \<Rightarrow> u8 list \<Rightarrow> 'h esp \<Rightarrow> (u8 list \<times> 'h esp) option" where
  "getIpAddress hw ip e = do {
     (ok, buf, e) \<leftarrow> sendCmdGet hw (ascii ''AT+CIFSR'') (ascii '':STAIP,'' @ [0x22]) [0x22] (e_stack hw 20) e;
     if ok then do { a \<leftarrow> ipTokens buf; let e = e\<lparr>esp_localIp := a\<rparr>; Some (esp_localIp e, e) }
     else Some (ip, e) }"

definition getIpAddressAP :: "'h esp_hw \<Rightarrow> u8 list \<Rightarrow> 'h esp \<Rightarrow> (u8 list \<times> 'h esp) option" where
  "getIpAddressAP hw ip e = do {
     (ok, buf, e) \<leftarrow> sendCmdGet hw (ascii ''AT+CIPAP?'') (ascii ''+CIPAP:ip:'' @ [0x22]) [0x22] (e_stack hw 20) e;
     if ok then do { a \<leftarrow> ipTokens buf; let e = e\<lparr>esp_localIp := a\<rparr>; Some (esp_localIp e, e) }
     else Some (ip, e) }"

definition getCurrentSSID :: "'h esp_hw \<Rightarrow> 'h esp \<Rightarrow> (u8 list \<times> 'h esp) option" where
  "getCurrentSSID hw e = do {
     (_, out, e) \<leftarrow> sendCmdGet hw (ascii ''AT+CWJAP?'') (ascii ''+CWJAP:'' @ [0x22]) [0x22] ((ssid e)[0 := 0]) e;
     let e = e\<lparr>ssid := out\<rparr>;
     Some (ssid e, e) }"

definition getCurrentBSSID :: "'h esp_hw \<Rightarrow> 'h esp \<Rightarrow> (u8 list \<times> 'h esp) option" where
  "getCurrentBSSID hw e = do {
     let e = e\<lparr>bssid := replicate WL_MAC_ADDR_LENGTH 0\<rparr>;
     (ok, buf, e) \<leftarrow> sendCmdGet hw (ascii ''AT+CWJAP?'') (ascii '','' @ [0x22]) (0x22 # ascii '','') (e_stack hw 20) e;
     e \<leftarrow> (if ok then do { m \<leftarrow> macTokens buf; Some (e\<lparr>bssid := m\<rparr>) } else Some e);
     Some (bssid e, e) }"

definition getCurrentRSSI :: "'h esp_hw \<Rightarrow> 'h esp \<Rightarrow> (int \<times> 'h esp) option" where
  "getCurrentRSSI hw e = do {
     (_, buf, e) \<leftarrow> sendCmdGet hw (ascii ''AT+CWJAP?'') (ascii '',-'') crlf (e_stack hw 10) e;
     if isDigitChar (buf ! 0) then do { n \<leftarrow> c_atoi buf; Some (- n, e) } else Some (0, e) }"

definition getNetmask :: "'h esp_hw \<Rightarrow> u8 list \<Rightarrow> 'h esp \<Rightarrow> (bool \<times> u8 list \<times> 'h esp) option" where
  "getNetmask hw netmask e = do {
     (ok, buf, e) \<leftarrow> sendCmdGet hw (ascii ''AT+CIPSTA?'') (ascii ''+CIPSTA:netmask:'' @ [0x22]) [0x22] (e_stack hw 20) e;
     Some (if ok then (True, e_ipFromString hw buf netmask, e) else (False, netmask, e)) }"

definition getGateway :: "'h esp_hw \<Rightarrow> u8 list \<Rightarrow> 'h esp \<Rightarrow> (bool \<times> u8 list \<times> 'h esp) option" where
  "getGateway hw gw e = do {
     (ok, buf, e) \<leftarrow> sendCmdGet hw (ascii ''AT+CIPSTA?'') (ascii ''+CIPSTA:gateway:'' @ [0x22]) [0x22] (e_stack hw 20) e;
     Some (if ok then (True, e_ipFromString hw buf gw, e) else (False, gw, e)) }"

text \<open>The networks found: one round of the loop, and the loop with the number of the network.\<close>

definition scanNetwork :: "'h esp_hw \<Rightarrow> u8 \<Rightarrow> 'h esp \<Rightarrow> (int \<times> 'h esp) option" where
  "scanNetwork hw n e = do {
     let (encr, e) = espParseInt hw e;
     let e = e\<lparr>networkEncr := (networkEncr e)[unat n := ucast encr]\<rparr>;
     (_, e) \<leftarrow> readUntil hw 1000 (Some [0x22]) True e;
     (idx, e) \<leftarrow> readUntil hw 1000 (Some [0x22]) False e;
     let e = (if idx = NUMESPTAGS
              then e\<lparr>networkSsid := (networkSsid e)[unat n := splice (replicate WL_SSID_MAX_LENGTH 0) 0
                       (ring_getStrN 1 (of_nat WL_SSID_MAX_LENGTH - 1) (e_ring e))]\<rparr>
              else e);
     (_, e) \<leftarrow> readUntil hw 1000 (Some (ascii '','')) True e;
     let (rssi, e) = espParseInt hw e;
     let e = e\<lparr>networkRssi := (networkRssi e)[unat n := rssi]\<rparr>;
     readUntil hw 1000 (Some (ascii ''+CWLAP:('')) True e }"

partial_function (option) scanLoop :: "'h esp_hw \<Rightarrow> int \<Rightarrow> u8 \<Rightarrow> 'h esp \<Rightarrow> (int \<times> u8 \<times> 'h esp) option" where
  "scanLoop hw idx n e =
     (if idx = NUMESPTAGS
      then Option.bind (scanNetwork hw n e) (\<lambda>(idx, e).
             if n = WL_NETWORKS_LIST_MAXNUM - 1 then Some (idx, n, e) else scanLoop hw idx (n + 1) e)
      else Some (idx, n, e))"

definition getScanNetworks :: "'h esp_hw \<Rightarrow> 'h esp \<Rightarrow> (u8 \<times> 'h esp) option" where
  "getScanNetworks hw e = do {
     e \<leftarrow> espEmptyBuf hw e;
     let e = espPrintln hw (ascii ''AT+CWLAP'') e;
     (idx, e) \<leftarrow> readUntil hw 10000 (Some (ascii ''+CWLAP:('')) True e;
     (idx, n, e) \<leftarrow> scanLoop hw idx 0 e;
     Some (if idx = - 1 then - 1 else n, e) }"

definition getSSIDNetoworks :: "u8 \<Rightarrow> 'h esp \<Rightarrow> u8 list option" where
  "getSSIDNetoworks i e = (if i \<ge> WL_NETWORKS_LIST_MAXNUM then None else Some (networkSsid e ! unat i))"

definition getEncTypeNetowrks :: "u8 \<Rightarrow> 'h esp \<Rightarrow> u8" where
  "getEncTypeNetowrks i e = (if i \<ge> WL_NETWORKS_LIST_MAXNUM then 0 else networkEncr e ! unat i)"

definition getRSSINetoworks :: "u8 \<Rightarrow> 'h esp \<Rightarrow> u32" where
  "getRSSINetoworks i e = (if i \<ge> WL_NETWORKS_LIST_MAXNUM then 0 else networkRssi e ! unat i)"

definition esp_ping :: "'h esp_hw \<Rightarrow> u8 list \<Rightarrow> 'h esp \<Rightarrow> (bool \<times> 'h esp) option" where
  "esp_ping hw host e = do {
     (ret, e) \<leftarrow> sendCmdArgs hw (ascii ''AT+PING='' @ quoted host) 8000 e;
     Some (ret = TAG_OK, e) }"

section \<open>Connections\<close>

definition startServer :: "'h esp_hw \<Rightarrow> u16 \<Rightarrow> u8 \<Rightarrow> 'h esp \<Rightarrow> (bool \<times> 'h esp) option" where
  "startServer hw port sock e = do {
     (ret, e) \<leftarrow> sendCmdArgs hw (ascii ''AT+CIPSERVER='' @ decimal (unat sock) @ ascii '','' @ decimal (unat port)) 1000 e;
     Some (ret = TAG_OK, e) }"

definition startClient :: "'h esp_hw \<Rightarrow> u8 list \<Rightarrow> u16 \<Rightarrow> u8 \<Rightarrow> tProtMode \<Rightarrow> 'h esp \<Rightarrow> (bool \<times> 'h esp) option" where
  "startClient hw host port sock protMode e = do {
     let cmd = ascii ''AT+CIPSTART='' @ decimal (unat sock) @ ascii '','';
     (ret, e) \<leftarrow> (case protMode of
         TCP_MODE \<Rightarrow> sendCmdArgs hw (cmd @ quoted (ascii ''TCP'') @ ascii '','' @ quoted host @ ascii '','' @ decimal (unat port)) 5000 e
       | SSL_MODE \<Rightarrow> do {
           (_, e) \<leftarrow> sendCmd hw (ascii ''AT+CIPSSLSIZE=4096'') 1000 e;
           sendCmdArgs hw (cmd @ quoted (ascii ''SSL'') @ ascii '','' @ quoted host @ ascii '','' @ decimal (unat port)) 5000 e }
       | UDP_MODE \<Rightarrow>
           sendCmdArgs hw (cmd @ quoted (ascii ''UDP'') @ ascii '','' @ quoted host @ ascii '',0,'' @ decimal (unat port) @ ascii '',2'') 5000 e);
     Some (ret = TAG_OK, e) }"

definition stopClient :: "'h esp_hw \<Rightarrow> u8 \<Rightarrow> 'h esp \<Rightarrow> 'h esp option" where
  "stopClient hw sock e = do {
     (_, e) \<leftarrow> sendCmdArgs hw (ascii ''AT+CIPCLOSE='' @ decimal (unat sock)) 4000 e;
     Some e }"

definition getServerState :: "u8 \<Rightarrow> u8" where "getServerState sock = 0"

text \<open>The header of a data packet, \<open>+IPD,id,len,"a.b.c.d",port:\<close>, behind its first five characters.\<close>

definition packetHeader :: "'h esp_hw \<Rightarrow> 'h esp \<Rightarrow> 'h esp" where
  "packetHeader hw e =
     (let (n, e) = espParseInt hw e; e = e\<lparr>connId := ucast n\<rparr>; (_, e) = espRead hw e;
          (n, e) = espParseInt hw e; e = e\<lparr>bufPos := n\<rparr>; (_, e) = espRead hw e;
          (n, e) = espParseInt hw e; e = e\<lparr>esp_remoteIp := (esp_remoteIp e)[0 := ucast n]\<rparr>; (_, e) = espRead hw e;
          (n, e) = espParseInt hw e; e = e\<lparr>esp_remoteIp := (esp_remoteIp e)[1 := ucast n]\<rparr>; (_, e) = espRead hw e;
          (n, e) = espParseInt hw e; e = e\<lparr>esp_remoteIp := (esp_remoteIp e)[2 := ucast n]\<rparr>; (_, e) = espRead hw e;
          (n, e) = espParseInt hw e; e = e\<lparr>esp_remoteIp := (esp_remoteIp e)[3 := ucast n]\<rparr>; (_, e) = espRead hw e;
          (_, e) = espRead hw e;
          (n, e) = espParseInt hw e; e = e\<lparr>esp_remotePort := ucast n\<rparr>; (_, e) = espRead hw e
      in e)"

definition availData :: "'h esp_hw \<Rightarrow> u8 \<Rightarrow> 'h esp \<Rightarrow> u16 \<times> 'h esp" where
  "availData hw sock e =
     (if 0 <s bufPos e \<and> (connId e = sock \<or> connId e = 0) then (ucast (bufPos e), e)
      else let (bytes, e) = espAvailable hw e in
        if bytes \<noteq> 0 then
          let (found, e) = espFind hw (ascii ''+IPD,'') e in
          if found then
            let e = packetHeader hw e in
            if connId e = sock \<or> sock = 0 then (ucast (bufPos e), e) else (0, e)
          else (0, e)
        else (0, e))"

text \<open>
  One byte of the data: whether there was one, the byte, whether the connection has been closed.
  The byte is only set when there was one or after the time limit.
\<close>

definition gotByte :: "'h esp_hw \<Rightarrow> u8 \<Rightarrow> bool \<Rightarrow> bool \<Rightarrow> 'h esp \<Rightarrow> (bool \<times> u8 \<times> bool \<times> 'h esp) option" where
  "gotByte hw sock peek connClose e = do {
     let (c, e) = (if peek then espPeek hw e else case espRead hw e of (c, e) \<Rightarrow> (c, e\<lparr>bufPos := bufPos e - 1\<rparr>));
     (connClose, e) \<leftarrow>
       (if bufPos e = 0 then
          let e = espDelay hw 5 e; (n, e) = espAvailable hw e in
          if n \<noteq> 0 then
            let (d, e) = espPeek hw e in
            if d = 48 + uint sock
            then do { (_, e) \<leftarrow> readUntil hw 500 (Some (ascii '',CLOSED'' @ crlf)) False e; Some (True, e) }
            else Some (connClose, e)
          else Some (connClose, e)
        else Some (connClose, e));
     Some (True, word_of_int c, connClose, e) }"

partial_function (option) dataLoop ::
  "'h esp_hw \<Rightarrow> u32 \<Rightarrow> u8 \<Rightarrow> bool \<Rightarrow> bool \<Rightarrow> 'h esp \<Rightarrow> (bool \<times> u8 \<times> bool \<times> 'h esp) option" where
  "dataLoop hw start sock peek connClose e =
     (case espAvailable hw e of (n, e) \<Rightarrow>
        if n \<noteq> 0 then gotByte hw sock peek connClose e
        else case espMillis hw e of (now, e) \<Rightarrow>
          if now - start < 2000 then dataLoop hw start sock peek connClose e
          else Some (False, 0, connClose, e\<lparr>bufPos := 0, connId := 0\<rparr>))"

definition getData ::
  "'h esp_hw \<Rightarrow> u8 \<Rightarrow> u8 \<Rightarrow> bool \<Rightarrow> bool \<Rightarrow> 'h esp \<Rightarrow> (bool \<times> u8 \<times> bool \<times> 'h esp) option" where
  "getData hw sock old peek connClose e =
     (if sock \<noteq> connId e then Some (False, old, connClose, e)
      else case espMillis hw e of (start, e) \<Rightarrow> dataLoop hw start sock peek connClose e)"

text \<open>The bytes of a buffer, up to the first that does not come in time.\<close>

fun dataBufLoop :: "'h esp_hw \<Rightarrow> nat \<Rightarrow> 'h esp \<Rightarrow> (bool \<times> u8 list \<times> 'h esp) option" where
  "dataBufLoop hw 0 e = Some (True, [], e)"
| "dataBufLoop hw (Suc n) e = do {
     (c, e) \<leftarrow> timedRead hw e;
     if c = - 1 then Some (False, [], e)
     else do {
       (ok, bs, e) \<leftarrow> dataBufLoop hw n (e\<lparr>bufPos := bufPos e - 1\<rparr>);
       Some (ok, word_of_int c # bs, e) } }"

definition getDataBuf :: "'h esp_hw \<Rightarrow> u8 \<Rightarrow> u16 \<Rightarrow> 'h esp \<Rightarrow> (int \<times> u8 list \<times> 'h esp) option" where
  "getDataBuf hw sock bufSize e =
     (if sock \<noteq> connId e then Some (0, [], e)
      else do {
        let bufSize = (if bufPos e <s ucast bufSize then ucast (bufPos e) else bufSize);
        (ok, bs, e) \<leftarrow> dataBufLoop hw (unat bufSize) e;
        Some (if ok then uint bufSize else - 1, bs, e) })"

text \<open>
  Sending: the command, the prompt of the modem, the data and its confirmation; \<open>put\<close> sends the
  data.  The three functions differ in the command and in how they send the data.
\<close>

definition sendPrompted ::
  "'h esp_hw \<Rightarrow> u8 list \<Rightarrow> ('h esp \<Rightarrow> 'h esp) \<Rightarrow> 'h esp \<Rightarrow> (bool \<times> 'h esp) option" where
  "sendPrompted hw cmdBuf put e = do {
     let e = espPrintln hw cmdBuf e;
     (idx, e) \<leftarrow> readUntil hw 1000 (Some (ascii ''>'')) False e;
     if idx \<noteq> NUMESPTAGS then Some (False, e)
     else do {
       let e = put e;
       (idx, e) \<leftarrow> readUntil hw 2000 None True e;
       Some (idx = TAG_SENDOK, e) } }"

definition sendData :: "'h esp_hw \<Rightarrow> u8 \<Rightarrow> u8 list \<Rightarrow> 'h esp \<Rightarrow> (bool \<times> 'h esp) option" where
  "sendData hw sock data e = do {
     let len = (of_nat (length data) :: u16);
     cmdBuf \<leftarrow> sprintf_buf 20 (ascii ''AT+CIPSEND='' @ decimal (unat sock) @ ascii '','' @ decimal (unat len));
     sendPrompted hw cmdBuf (espWrite hw (take (unat len) data)) e }"

definition sendDataFlash :: "'h esp_hw \<Rightarrow> u8 \<Rightarrow> u8 list \<Rightarrow> bool \<Rightarrow> 'h esp \<Rightarrow> (bool \<times> 'h esp) option" where
  "sendDataFlash hw sock data appendCrLf e = do {
     let len = (of_nat (length data) :: u16);
     let len2 = len + (if appendCrLf then 2 else 0);
     cmdBuf \<leftarrow> sprintf_buf 20 (ascii ''AT+CIPSEND='' @ decimal (unat sock) @ ascii '','' @ decimal (unat len2));
     let bytes = take (unat len) data @ (if appendCrLf then crlf else []);
     sendPrompted hw cmdBuf (fold (\<lambda>c. espWrite hw [c]) bytes) e }"

definition sendDataUdp :: "'h esp_hw \<Rightarrow> u8 \<Rightarrow> u8 list \<Rightarrow> u16 \<Rightarrow> u8 list \<Rightarrow> 'h esp \<Rightarrow> (bool \<times> 'h esp) option" where
  "sendDataUdp hw sock host port data e = do {
     let len = (of_nat (length data) :: u16);
     cmdBuf \<leftarrow> sprintf_buf 40 (ascii ''AT+CIPSEND='' @ decimal (unat sock) @ ascii '','' @ decimal (unat len) @
       ascii '','' @ quoted host @ ascii '','' @ decimal (unat port));
     sendPrompted hw cmdBuf (espWrite hw (take (unat len) data)) e }"

definition getRemoteIpAddress :: "'h esp \<Rightarrow> u8 list" where "getRemoteIpAddress e = esp_remoteIp e"
definition getRemotePort :: "'h esp \<Rightarrow> u16" where "getRemotePort e = esp_remotePort e"

end
