(* ===== verification/WifiEsp.thy ===== *)
theory WifiEsp
  imports EspDrv
begin

text \<open>
  The classes over the WiFi driver: \<open>WiFiEspClass\<close> with its table of sockets, the client, the
  server and UDP (WiFiEsp/src/WiFiEsp.cpp, WiFiEspClient.cpp, WiFiEspServer.cpp, WiFiEspUdp.cpp).
  \<open>None\<close> is also an access outside the table of sockets.
\<close>

section \<open>The table of sockets\<close>

text \<open>The loop goes from the last socket to the first.\<close>

fun freeSocketLoop :: "u16 list \<Rightarrow> nat \<Rightarrow> u8" where
  "freeSocketLoop st 0 = SOCK_NOT_AVAIL"
| "freeSocketLoop st (Suc i) = (if st ! i = NA_STATE then of_nat i else freeSocketLoop st i)"

definition getFreeSocket :: "'h esp \<Rightarrow> u8" where
  "getFreeSocket e = freeSocketLoop (sockState e) WIFI_SOCK_NUM"

definition allocateSocket :: "u8 \<Rightarrow> 'h esp \<Rightarrow> 'h esp option" where
  "allocateSocket sock e =
     (if unat sock < WIFI_SOCK_NUM then Some (e\<lparr>sockState := (sockState e)[unat sock := ucast sock]\<rparr>) else None)"

definition releaseSocket :: "u8 \<Rightarrow> 'h esp \<Rightarrow> 'h esp option" where
  "releaseSocket sock e =
     (if unat sock < WIFI_SOCK_NUM then Some (e\<lparr>sockState := (sockState e)[unat sock := NA_STATE]\<rparr>) else None)"

section \<open>The network\<close>

definition wifi_init :: "'h esp_hw \<Rightarrow> 'h esp \<Rightarrow> 'h esp option" where
  "wifi_init hw e = wifiDriverInit hw e"

definition firmwareVersion :: "'h esp_hw \<Rightarrow> 'h esp \<Rightarrow> (u8 list \<times> 'h esp) option" where
  "firmwareVersion hw e = getFwVersion hw e"

definition wifi_begin :: "'h esp_hw \<Rightarrow> u8 list \<Rightarrow> u8 list \<Rightarrow> 'h esp \<Rightarrow> (u8 \<times> 'h esp) option" where
  "wifi_begin hw name passphrase e = do {
     (ok, e) \<leftarrow> wifiConnect hw name passphrase (e\<lparr>espMode := 1\<rparr>);
     Some (if ok then WL_CONNECTED else WL_CONNECT_FAILED, e) }"

definition beginAP :: "'h esp_hw \<Rightarrow> u8 list \<Rightarrow> u8 \<Rightarrow> u8 list \<Rightarrow> u8 \<Rightarrow> bool \<Rightarrow> 'h esp \<Rightarrow> (u8 \<times> 'h esp) option" where
  "beginAP hw name channel pwd enc apOnly e = do {
     let e = e\<lparr>espMode := if apOnly then 2 else 3\<rparr>;
     (ok, e) \<leftarrow> wifiStartAP hw name pwd channel enc (espMode e) e;
     Some (if ok then WL_CONNECTED else WL_CONNECT_FAILED, e) }"

definition beginAP_default :: "'h esp_hw \<Rightarrow> u8 list \<Rightarrow> 'h esp \<Rightarrow> (u8 \<times> 'h esp) option" where
  "beginAP_default hw name e = beginAP hw name 10 [] 0 True e"

definition beginAP_channel :: "'h esp_hw \<Rightarrow> u8 list \<Rightarrow> u8 \<Rightarrow> 'h esp \<Rightarrow> (u8 \<times> 'h esp) option" where
  "beginAP_channel hw name channel e = beginAP hw name channel [] 0 True e"

definition wifi_config :: "'h esp_hw \<Rightarrow> u8 list \<Rightarrow> 'h esp \<Rightarrow> 'h esp option" where
  "wifi_config hw ip e = esp_config hw ip e"

definition wifi_configAP :: "'h esp_hw \<Rightarrow> u8 list \<Rightarrow> 'h esp \<Rightarrow> 'h esp option" where
  "wifi_configAP hw ip e = esp_configAP hw ip e"

definition wifi_disconnect :: "'h esp_hw \<Rightarrow> 'h esp \<Rightarrow> (u8 \<times> 'h esp) option" where
  "wifi_disconnect hw e = esp_disconnect hw e"

definition macAddress :: "'h esp_hw \<Rightarrow> 'h esp \<Rightarrow> (u8 list \<times> 'h esp) option" where
  "macAddress hw e = do { (m, e) \<leftarrow> getMacAddress hw e; Some (take WL_MAC_ADDR_LENGTH m, e) }"

definition wifi_localIP :: "'h esp_hw \<Rightarrow> 'h esp \<Rightarrow> (u8 list \<times> 'h esp) option" where
  "wifi_localIP hw e =
     (if espMode e = 1 then getIpAddress hw (replicate 4 0) e else getIpAddressAP hw (replicate 4 0) e)"

definition wifi_subnetMask :: "'h esp_hw \<Rightarrow> 'h esp \<Rightarrow> (u8 list \<times> 'h esp) option" where
  "wifi_subnetMask hw e =
     (if espMode e = 1 then do { (_, m, e) \<leftarrow> getNetmask hw (replicate 4 0) e; Some (m, e) }
      else Some (replicate 4 0, e))"

definition wifi_gatewayIP :: "'h esp_hw \<Rightarrow> 'h esp \<Rightarrow> (u8 list \<times> 'h esp) option" where
  "wifi_gatewayIP hw e =
     (if espMode e = 1 then do { (_, g, e) \<leftarrow> getGateway hw (replicate 4 0) e; Some (g, e) }
      else Some (replicate 4 0, e))"

definition wifi_SSID :: "'h esp_hw \<Rightarrow> 'h esp \<Rightarrow> (u8 list \<times> 'h esp) option" where
  "wifi_SSID hw e = getCurrentSSID hw e"

definition wifi_BSSID :: "'h esp_hw \<Rightarrow> 'h esp \<Rightarrow> (u8 list \<times> 'h esp) option" where
  "wifi_BSSID hw e = do { (b, e) \<leftarrow> getCurrentBSSID hw e; Some (take WL_MAC_ADDR_LENGTH b, e) }"

definition wifi_RSSI :: "'h esp_hw \<Rightarrow> 'h esp \<Rightarrow> (int \<times> 'h esp) option" where
  "wifi_RSSI hw e = getCurrentRSSI hw e"

definition scanNetworks :: "'h esp_hw \<Rightarrow> 'h esp \<Rightarrow> (u8 \<times> 'h esp) option" where
  "scanNetworks hw e = getScanNetworks hw e"

definition wifi_SSID_of :: "u8 \<Rightarrow> 'h esp \<Rightarrow> u8 list option" where
  "wifi_SSID_of i e = getSSIDNetoworks i e"

definition wifi_RSSI_of :: "u8 \<Rightarrow> 'h esp \<Rightarrow> u32" where
  "wifi_RSSI_of i e = getRSSINetoworks i e"

definition encryptionType :: "u8 \<Rightarrow> 'h esp \<Rightarrow> u8" where
  "encryptionType i e = getEncTypeNetowrks i e"

definition wifi_status :: "'h esp_hw \<Rightarrow> 'h esp \<Rightarrow> (u8 \<times> 'h esp) option" where
  "wifi_status hw e = getConnectionStatus hw e"

definition wifi_reset :: "'h esp_hw \<Rightarrow> 'h esp \<Rightarrow> 'h esp option" where
  "wifi_reset hw e = esp_reset hw e"

definition wifi_ping :: "'h esp_hw \<Rightarrow> u8 list \<Rightarrow> 'h esp \<Rightarrow> (bool \<times> 'h esp) option" where
  "wifi_ping hw host e = esp_ping hw host e"

section \<open>The client\<close>

record wclient =
  c_sock :: u8
  c_writeError :: bool

definition wclient_new :: wclient where "wclient_new = \<lparr> c_sock = 255, c_writeError = False \<rparr>"
definition wclient_of :: "u8 \<Rightarrow> wclient" where "wclient_of sock = \<lparr> c_sock = sock, c_writeError = False \<rparr>"

definition wclient_connect ::
  "'h esp_hw \<Rightarrow> u8 list \<Rightarrow> u16 \<Rightarrow> tProtMode \<Rightarrow> wclient \<Rightarrow> 'h esp \<Rightarrow> (bool \<times> wclient \<times> 'h esp) option" where
  "wclient_connect hw host port protMode c e = do {
     let c = c\<lparr>c_sock := getFreeSocket e\<rparr>;
     if c_sock c \<noteq> NO_SOCKET_AVAIL then do {
       (ok, e) \<leftarrow> startClient hw host port (c_sock c) protMode e;
       if \<not> ok then Some (False, c, e)
       else do {
         e \<leftarrow> allocateSocket (c_sock c) e;
         Some (True, c, e) } }
     else Some (False, c, e) }"

definition wclient_connect_host :: "'h esp_hw \<Rightarrow> u8 list \<Rightarrow> u16 \<Rightarrow> wclient \<Rightarrow> 'h esp \<Rightarrow> (bool \<times> wclient \<times> 'h esp) option" where
  "wclient_connect_host hw host port c e = wclient_connect hw host port TCP_MODE c e"

definition wclient_connect_ip :: "'h esp_hw \<Rightarrow> u8 list \<Rightarrow> u16 \<Rightarrow> wclient \<Rightarrow> 'h esp \<Rightarrow> (bool \<times> wclient \<times> 'h esp) option" where
  "wclient_connect_ip hw ip port c e = do {
     s \<leftarrow> sprintf_buf 16 (dotted_quad ip);
     wclient_connect hw s port TCP_MODE c e }"

definition connectSSL :: "'h esp_hw \<Rightarrow> u8 list \<Rightarrow> u16 \<Rightarrow> wclient \<Rightarrow> 'h esp \<Rightarrow> (bool \<times> wclient \<times> 'h esp) option" where
  "connectSSL hw host port c e = wclient_connect hw host port SSL_MODE c e"

definition connectSSL_ip :: "'h esp_hw \<Rightarrow> u8 list \<Rightarrow> u16 \<Rightarrow> wclient \<Rightarrow> 'h esp \<Rightarrow> (bool \<times> wclient \<times> 'h esp) option" where
  "connectSSL_ip hw ip port c e = do {
     s \<leftarrow> sprintf_buf 16 (dotted_quad ip);
     wclient_connect hw s port SSL_MODE c e }"

definition wclient_stop :: "'h esp_hw \<Rightarrow> wclient \<Rightarrow> 'h esp \<Rightarrow> (wclient \<times> 'h esp) option" where
  "wclient_stop hw c e =
     (if c_sock c = 255 then Some (c, e)
      else do {
        e \<leftarrow> stopClient hw (c_sock c) e;
        e \<leftarrow> releaseSocket (c_sock c) e;
        Some (c\<lparr>c_sock := 255\<rparr>, e) })"

text \<open>Both write functions: \<open>send\<close> is the function of the driver, \<open>n\<close> the size.\<close>

definition wclient_send ::
  "'h esp_hw \<Rightarrow> nat \<Rightarrow> (u8 \<Rightarrow> 'h esp \<Rightarrow> (bool \<times> 'h esp) option) \<Rightarrow> wclient \<Rightarrow> 'h esp \<Rightarrow> (nat \<times> wclient \<times> 'h esp) option" where
  "wclient_send hw n send c e =
     (if unat (c_sock c) \<ge> WIFI_SOCK_NUM \<or> n = 0 then Some (0, c\<lparr>c_writeError := True\<rparr>, e)
      else do {
        (r, e) \<leftarrow> send (c_sock c) e;
        if \<not> r then do {
          (c, e) \<leftarrow> wclient_stop hw (c\<lparr>c_writeError := True\<rparr>) (espDelay hw 4000 e);
          Some (0, c, e) }
        else Some (n, c, e) })"

definition wclient_write :: "'h esp_hw \<Rightarrow> u8 list \<Rightarrow> wclient \<Rightarrow> 'h esp \<Rightarrow> (nat \<times> wclient \<times> 'h esp) option" where
  "wclient_write hw buf c e = wclient_send hw (length buf) (\<lambda>sock. sendData hw sock buf) c e"

definition wclient_write1 :: "'h esp_hw \<Rightarrow> u8 \<Rightarrow> wclient \<Rightarrow> 'h esp \<Rightarrow> (nat \<times> wclient \<times> 'h esp) option" where
  "wclient_write1 hw b c e = wclient_write hw [b] c e"

definition printFSH :: "'h esp_hw \<Rightarrow> u8 list \<Rightarrow> bool \<Rightarrow> wclient \<Rightarrow> 'h esp \<Rightarrow> (nat \<times> wclient \<times> 'h esp) option" where
  "printFSH hw text appendCrLf c e =
     wclient_send hw (length text) (\<lambda>sock. sendDataFlash hw sock text appendCrLf) c e"

text \<open>Neither function returns the value that it declares.\<close>

definition wclient_print :: "'h esp_hw \<Rightarrow> u8 list \<Rightarrow> wclient \<Rightarrow> 'h esp \<Rightarrow> (wclient \<times> 'h esp) option" where
  "wclient_print hw text c e = do { (_, c, e) \<leftarrow> printFSH hw text False c e; Some (c, e) }"

definition wclient_println :: "'h esp_hw \<Rightarrow> u8 list \<Rightarrow> wclient \<Rightarrow> 'h esp \<Rightarrow> (wclient \<times> 'h esp) option" where
  "wclient_println hw text c e = do { (_, c, e) \<leftarrow> printFSH hw text True c e; Some (c, e) }"

definition wclient_available :: "'h esp_hw \<Rightarrow> wclient \<Rightarrow> 'h esp \<Rightarrow> u16 \<times> 'h esp" where
  "wclient_available hw c e = (if c_sock c \<noteq> 255 then availData hw (c_sock c) e else (0, e))"

text \<open>\<open>read\<close> and \<open>peek\<close>; the local variable for the byte is not initialised.\<close>

definition wclient_byte :: "'h esp_hw \<Rightarrow> bool \<Rightarrow> wclient \<Rightarrow> 'h esp \<Rightarrow> (int \<times> wclient \<times> 'h esp) option" where
  "wclient_byte hw peek c e = do {
     let (n, e) = wclient_available hw c e;
     if n = 0 then Some (- 1, c, e)
     else do {
       (_, b, connClose, e) \<leftarrow> getData hw (c_sock c) (e_stack hw 1 ! 0) peek False e;
       (c, e) \<leftarrow> (if connClose then do { e \<leftarrow> releaseSocket (c_sock c) e; Some (c\<lparr>c_sock := 255\<rparr>, e) } else Some (c, e));
       Some (uint b, c, e) } }"

definition wclient_read :: "'h esp_hw \<Rightarrow> wclient \<Rightarrow> 'h esp \<Rightarrow> (int \<times> wclient \<times> 'h esp) option" where
  "wclient_read hw c e = wclient_byte hw False c e"

definition wclient_peek :: "'h esp_hw \<Rightarrow> wclient \<Rightarrow> 'h esp \<Rightarrow> (int \<times> wclient \<times> 'h esp) option" where
  "wclient_peek hw c e = wclient_byte hw True c e"

definition wclient_readN :: "'h esp_hw \<Rightarrow> nat \<Rightarrow> wclient \<Rightarrow> 'h esp \<Rightarrow> (int \<times> u8 list \<times> 'h esp) option" where
  "wclient_readN hw n c e = do {
     let (avail, e) = wclient_available hw c e;
     if avail = 0 then Some (- 1, [], e) else getDataBuf hw (c_sock c) (of_nat n) e }"

partial_function (option) wclient_flush :: "'h esp_hw \<Rightarrow> wclient \<Rightarrow> 'h esp \<Rightarrow> (wclient \<times> 'h esp) option" where
  "wclient_flush hw c e =
     (case wclient_available hw c e of (n, e) \<Rightarrow>
        if n \<noteq> 0 then Option.bind (wclient_read hw c e) (\<lambda>(_, c, e). wclient_flush hw c e) else Some (c, e))"

definition wclient_status :: "'h esp_hw \<Rightarrow> wclient \<Rightarrow> 'h esp \<Rightarrow> (u8 \<times> wclient \<times> 'h esp) option" where
  "wclient_status hw c e =
     (if c_sock c = 255 then Some (CLOSED, c, e)
      else do {
        let (n, e) = availData hw (c_sock c) e;
        if n \<noteq> 0 then Some (ESTABLISHED, c, e)
        else do {
          (ok, e) \<leftarrow> getClientState hw (c_sock c) e;
          if ok then Some (ESTABLISHED, c, e)
          else do { e \<leftarrow> releaseSocket (c_sock c) e; Some (CLOSED, c\<lparr>c_sock := 255\<rparr>, e) } } })"

definition wclient_connected :: "'h esp_hw \<Rightarrow> wclient \<Rightarrow> 'h esp \<Rightarrow> (bool \<times> wclient \<times> 'h esp) option" where
  "wclient_connected hw c e = do { (s, c, e) \<leftarrow> wclient_status hw c e; Some (s = ESTABLISHED, c, e) }"

definition wclient_bool :: "wclient \<Rightarrow> bool" where "wclient_bool c \<longleftrightarrow> c_sock c \<noteq> 255"
definition wclient_remoteIP :: "'h esp \<Rightarrow> u8 list" where "wclient_remoteIP e = getRemoteIpAddress e"

section \<open>The server\<close>

record wserver =
  s_port :: u16
  s_sock :: u8
  s_started :: bool

text \<open>The socket and the flag are not initialised by the constructor; \<open>old\<close> holds them.\<close>

definition wserver_new :: "wserver \<Rightarrow> u16 \<Rightarrow> wserver" where
  "wserver_new old port = old\<lparr>s_port := port\<rparr>"

definition wserver_begin :: "'h esp_hw \<Rightarrow> wserver \<Rightarrow> 'h esp \<Rightarrow> (wserver \<times> 'h esp) option" where
  "wserver_begin hw s e = do {
     let s = s\<lparr>s_sock := 1\<rparr>;
     e \<leftarrow> allocateSocket (s_sock s) e;
     (ok, e) \<leftarrow> startServer hw (s_port s) (s_sock s) e;
     Some (s\<lparr>s_started := ok\<rparr>, e) }"

definition wserver_available :: "'h esp_hw \<Rightarrow> 'h esp \<Rightarrow> (wclient \<times> 'h esp) option" where
  "wserver_available hw e = do {
     let (bytes, e) = availData hw 0 e;
     if bytes > 0 then do {
       e \<leftarrow> allocateSocket (connId e) e;
       Some (wclient_of (connId e), e) }
     else Some (wclient_of 255, e) }"

definition wserver_status :: u8 where "wserver_status = getServerState 0"

fun wserverLoop :: "'h esp_hw \<Rightarrow> u8 list \<Rightarrow> nat list \<Rightarrow> 'h esp \<Rightarrow> (nat \<times> 'h esp) option" where
  "wserverLoop hw buf [] e = Some (0, e)"
| "wserverLoop hw buf (sock # socks) e = do {
     (n, e) \<leftarrow> (if sockState e ! sock \<noteq> 0
                then do { (n, _, e) \<leftarrow> wclient_write hw buf (wclient_of (of_nat sock)) e; Some (n, e) }
                else Some (0, e));
     (m, e) \<leftarrow> wserverLoop hw buf socks e;
     Some (n + m, e) }"

definition wserver_write :: "'h esp_hw \<Rightarrow> u8 list \<Rightarrow> 'h esp \<Rightarrow> (nat \<times> 'h esp) option" where
  "wserver_write hw buf e = wserverLoop hw buf [0..<WIFI_SOCK_NUM] e"

definition wserver_write1 :: "'h esp_hw \<Rightarrow> u8 \<Rightarrow> 'h esp \<Rightarrow> (nat \<times> 'h esp) option" where
  "wserver_write1 hw b e = wserver_write hw [b] e"

section \<open>UDP\<close>

record wudp =
  w_sock :: u8
  w_port :: u16
  w_remotePort :: u16
  w_remoteHost :: "u8 list"

definition wudp_new :: "wudp \<Rightarrow> wudp" where "wudp_new old = old\<lparr>w_sock := NO_SOCKET_AVAIL\<rparr>"

definition wudp_begin :: "'h esp_hw \<Rightarrow> u16 \<Rightarrow> wudp \<Rightarrow> 'h esp \<Rightarrow> (u8 \<times> wudp \<times> 'h esp) option" where
  "wudp_begin hw port u e = do {
     let sock = getFreeSocket e;
     if sock \<noteq> NO_SOCKET_AVAIL then do {
       (_, e) \<leftarrow> startClient hw (ascii ''0'') port sock UDP_MODE e;
       e \<leftarrow> allocateSocket sock e;
       let e = e\<lparr>server_port := (server_port e)[unat sock := port]\<rparr>;
       Some (1, u\<lparr>w_sock := sock, w_port := port\<rparr>, e) }
     else Some (0, u, e) }"

definition wudp_available :: "'h esp_hw \<Rightarrow> wudp \<Rightarrow> 'h esp \<Rightarrow> u16 \<times> 'h esp" where
  "wudp_available hw u e = (if w_sock u \<noteq> NO_SOCKET_AVAIL then availData hw (w_sock u) e else (0, e))"

definition wudp_read :: "'h esp_hw \<Rightarrow> wudp \<Rightarrow> 'h esp \<Rightarrow> (int \<times> 'h esp) option" where
  "wudp_read hw u e = do {
     let (n, e) = wudp_available hw u e;
     if n = 0 then Some (- 1, e)
     else do {
       (ok, b, _, e) \<leftarrow> getData hw (w_sock u) (e_stack hw 1 ! 0) False False e;
       Some (if ok then uint b else - 1, e) } }"

definition wudp_readN :: "'h esp_hw \<Rightarrow> nat \<Rightarrow> wudp \<Rightarrow> 'h esp \<Rightarrow> (int \<times> u8 list \<times> 'h esp) option" where
  "wudp_readN hw n u e = do {
     let (avail, e) = wudp_available hw u e;
     if avail = 0 then Some (- 1, [], e) else getDataBuf hw (w_sock u) (of_nat n) e }"

text \<open>The byte that \<open>peek\<close> returns is a local variable that is never set.\<close>

definition wudp_peek :: "'h esp_hw \<Rightarrow> wudp \<Rightarrow> 'h esp \<Rightarrow> int \<times> 'h esp" where
  "wudp_peek hw u e =
     (let (n, e) = wudp_available hw u e in if n = 0 then (- 1, e) else (uint (e_stack hw 1 ! 0), e))"

fun wudpFlushLoop :: "'h esp_hw \<Rightarrow> nat \<Rightarrow> wudp \<Rightarrow> 'h esp \<Rightarrow> 'h esp option" where
  "wudpFlushLoop hw 0 u e = Some e"
| "wudpFlushLoop hw (Suc n) u e = do { (_, e) \<leftarrow> wudp_read hw u e; wudpFlushLoop hw n u e }"

definition wudp_flush :: "'h esp_hw \<Rightarrow> wudp \<Rightarrow> 'h esp \<Rightarrow> 'h esp option" where
  "wudp_flush hw u e = (case wudp_available hw u e of (n, e) \<Rightarrow> wudpFlushLoop hw (unat n) u e)"

definition wudp_stop :: "'h esp_hw \<Rightarrow> wudp \<Rightarrow> 'h esp \<Rightarrow> (wudp \<times> 'h esp) option" where
  "wudp_stop hw u e =
     (if w_sock u = NO_SOCKET_AVAIL then Some (u, e)
      else do {
        e \<leftarrow> wudp_flush hw u e;
        e \<leftarrow> stopClient hw (w_sock u) e;
        e \<leftarrow> releaseSocket (w_sock u) e;
        let e = e\<lparr>server_port := (server_port e)[unat (w_sock u) := 0]\<rparr>;
        Some (u\<lparr>w_sock := NO_SOCKET_AVAIL\<rparr>, e) })"

text \<open>The host is copied into a buffer of 30 bytes.\<close>

definition wudp_beginPacket :: "u8 list \<Rightarrow> u16 \<Rightarrow> wudp \<Rightarrow> 'h esp \<Rightarrow> (bool \<times> wudp \<times> 'h esp) option" where
  "wudp_beginPacket host port u e = do {
     let u = (if w_sock u = NO_SOCKET_AVAIL then u\<lparr>w_sock := getFreeSocket e\<rparr> else u);
     if w_sock u \<noteq> NO_SOCKET_AVAIL then do {
       host \<leftarrow> sprintf_buf 30 host;
       e \<leftarrow> allocateSocket (w_sock u) e;
       Some (True, u\<lparr>w_remotePort := port, w_remoteHost := host\<rparr>, e) }
     else Some (False, u, e) }"

definition wudp_beginPacket_ip :: "u8 list \<Rightarrow> u16 \<Rightarrow> wudp \<Rightarrow> 'h esp \<Rightarrow> (bool \<times> wudp \<times> 'h esp) option" where
  "wudp_beginPacket_ip ip port u e = do {
     s \<leftarrow> sprintf_buf 18 (dotted_quad ip);
     wudp_beginPacket s port u e }"

definition wudp_endPacket :: int where "wudp_endPacket = 1"

definition wudp_write :: "'h esp_hw \<Rightarrow> u8 list \<Rightarrow> wudp \<Rightarrow> 'h esp \<Rightarrow> (nat \<times> 'h esp) option" where
  "wudp_write hw buf u e = do {
     (r, e) \<leftarrow> sendDataUdp hw (w_sock u) (w_remoteHost u) (w_remotePort u) buf e;
     Some (if r then length buf else 0, e) }"

definition wudp_write1 :: "'h esp_hw \<Rightarrow> u8 \<Rightarrow> wudp \<Rightarrow> 'h esp \<Rightarrow> (nat \<times> 'h esp) option" where
  "wudp_write1 hw b u e = wudp_write hw [b] u e"

definition wudp_parsePacket :: "'h esp_hw \<Rightarrow> wudp \<Rightarrow> 'h esp \<Rightarrow> u16 \<times> 'h esp" where
  "wudp_parsePacket hw u e = wudp_available hw u e"

definition wudp_remoteIP :: "'h esp \<Rightarrow> u8 list" where "wudp_remoteIP e = getRemoteIpAddress e"
definition wudp_remotePort :: "'h esp \<Rightarrow> u16" where "wudp_remotePort e = getRemotePort e"

end
