(* ===== verification/WifiLink.thy ===== *)
theory WifiLink
  imports WifiEsp
begin

text \<open>
  The WiFi driver over a modem: the locales \<open>modem\<close> and \<open>modem_parser\<close> with the laws of the stream,
  what the driver finds in it, what it extracts from a report, how data are sent and received.
\<close>

section \<open>Tags in the stream\<close>

text \<open>The tag at the end of what has been read: those of the table come first.\<close>

definition tagOf :: "u8 list option \<Rightarrow> bool \<Rightarrow> u8 list \<Rightarrow> int" where
  "tagOf tag findTags xs =
     (case (if findTags then find (\<lambda>i. suffix (ESPTAGS ! i) xs) [0..<5] else None) of
        Some i \<Rightarrow> int i
      | None \<Rightarrow> (case tag of None \<Rightarrow> - 1 | Some t \<Rightarrow> if suffix t xs then NUMESPTAGS else - 1))"

lemma endsWith_holds:
  assumes "holds r xs" and "length str \<le> rb_size r"
  shows "ring_endsWith str r = Some (suffix str xs)"
proof -
  have p: "ringBufP r < rb_size r" "rb_size r \<le> length xs" using assms(1) by (auto simp: holds_def)
  have b: "(let b = int (ringBufP r) - int (length str) in if b < 0 then b + int (rb_size r) else b) =
      int ((ringBufP r + rb_size r - length str) mod rb_size r)"
  proof (cases "length str \<le> ringBufP r")
    case True
    then have "ringBufP r + rb_size r - length str = rb_size r + (ringBufP r - length str)" by simp
    from wrap_once [OF this] show ?thesis using True p by simp
  next
    case False
    then show ?thesis using p assms(2) by (simp add: Let_def of_nat_diff)
  qed
  have "suffix str xs \<longleftrightarrow> str = drop (length xs - length str) xs"
    using p assms(2) by (metis append_take_drop_id length_append diff_diff_cancel length_drop le_trans suffix_def
        append_eq_append_conv suffix_drop)
  then show ?thesis using compareLoop_spec [OF assms(1, 2) refl] b
    by (simp add: ring_endsWith_def Let_def)
qed

lemma holds_reset:
  assumes "holds r xs"
  shows "holds (ring_reset r) (take (rb_size r) (ringBuf r))"
proof -
  have "ringBuf r ! ((rb_size r - k) mod rb_size r) = take (rb_size r) (ringBuf r) ! (rb_size r - k)"
    if "1 \<le> k" "k \<le> rb_size r" for k
    using that by simp
  then show ?thesis using assms by (auto simp: holds_def ring_reset_def min_def)
qed

lemma tags_length: "t \<in> set ESPTAGS \<Longrightarrow> length t \<le> 32"
  by (auto simp: ESPTAGS_def ascii_def crlf_def)

lemma espTag_spec:
  assumes "holds r xs" and "\<forall>t \<in> set ts. length t \<le> rb_size r"
  shows "espTag ts i ret r =
    Some (case find (\<lambda>k. suffix (ts ! k) xs) [0..<length ts] of Some k \<Rightarrow> i + int k | None \<Rightarrow> ret)"
  using assms(2)
proof (induction ts arbitrary: i)
  case (Cons t ts)
  have u: "[0..<length (t # ts)] = 0 # map Suc [0..<length ts]"
    by (simp add: upt_conv_Cons map_Suc_upt del: upt_Suc)
  have "find (\<lambda>k. suffix ((t # ts) ! k) xs) (map Suc ks) = map_option Suc (find (\<lambda>k. suffix (ts ! k) xs) ks)" for ks
    by (induction ks) auto
  then show ?case using Cons endsWith_holds [OF assms(1), of t] unfolding u
    by (auto split: option.split)
qed simp

lemma tagFound_spec:
  assumes "holds r xs" and "rb_size r = 32" and "\<forall>t. tag = Some t \<longrightarrow> length t \<le> 32"
  shows "tagFound tag ft r = Some (tagOf tag ft xs)"
proof -
  have l: "length ESPTAGS = 5" by (simp add: ESPTAGS_def)
  have ts: "\<forall>t \<in> set ESPTAGS. length t \<le> rb_size r"
    using tags_length assms(2) by simp
  show ?thesis
  proof (cases tag)
    case None
    then show ?thesis using espTag_spec [OF assms(1) ts, of 0 "- 1"] l
      by (simp add: tagFound_def tagOf_def split: option.split)
  next
    case (Some t)
    then show ?thesis
      using espTag_spec [OF assms(1) ts, of 0] l endsWith_holds [OF assms(1), of t] assms(2, 3)
      by (auto simp: tagFound_def tagOf_def split: option.split)
  qed
qed

text \<open>\<open>bs\<close> ends with the first tag in the stream, behind what is left in the ring.\<close>

definition first_tag :: "u8 list option \<Rightarrow> bool \<Rightarrow> u8 list \<Rightarrow> u8 list \<Rightarrow> int \<Rightarrow> bool" where
  "first_tag tag ft xs bs k \<longleftrightarrow> bs \<noteq> [] \<and> 0 \<le> k \<and> tagOf tag ft (xs @ bs) = k \<and>
     (\<forall>i < length bs. 0 < i \<longrightarrow> tagOf tag ft (xs @ take i bs) = - 1)"

definition ring_good :: "ring \<Rightarrow> bool" where
  "ring_good r \<longleftrightarrow> (\<exists>xs. holds r xs) \<and> rb_size r = 32"

abbreviation left_over :: "ring \<Rightarrow> u8 list" where
  "left_over r \<equiv> take 32 (ringBuf r)"

lemma push_size [simp]: "rb_size (ring_push c r) = rb_size r" "rb_size (fold ring_push bs r) = rb_size r"
  by (simp_all add: ring_push_def Let_def) (induction bs arbitrary: r; simp add: ring_push_def Let_def)

lemma good_push: "ring_good r \<Longrightarrow> ring_good (fold ring_push bs r)"
  using holds_fold by (auto simp: ring_good_def)

lemma good_reset: "ring_good r \<Longrightarrow> holds (ring_reset r) (left_over r) \<and> rb_size (ring_reset r) = 32"
proof -
  assume "ring_good r"
  then obtain xs where "holds r xs" "rb_size r = 32" by (auto simp: ring_good_def)
  then show ?thesis using holds_reset [of r xs] by (simp add: ring_reset_def)
qed

lemma good_init: "rb_size r = 32 \<Longrightarrow> ring_good (ring_init r)"
proof -
  assume "rb_size r = 32"
  then have "ring_init r = ring_new 32" by (simp add: ring_init_def ring_new_def)
  then show ?thesis using holds_new [of 32] by (auto simp: ring_good_def ring_new_def ring_init_def)
qed

text \<open>A ring that has not been filled.\<close>

lemma push_init:
  assumes "length bs < rb_size r"
  shows "fold ring_push bs (ring_init r) =
    r\<lparr>ringBufP := length bs, ringBuf := bs @ replicate (rb_size r + 1 - length bs) 0\<rparr>"
  using assms
proof (induction bs rule: rev_induct)
  case (snoc c bs)
  have u: "(bs @ replicate (rb_size r + 1 - length bs) 0)[length bs := c] =
      bs @ c # replicate (rb_size r - length bs) 0"
    using snoc.prems by (simp add: list_update_append Suc_diff_le)
  show ?case using snoc u by (simp add: ring_push_def Let_def Suc_diff_le)
qed (simp add: ring_init_def)

lemma getStrN_text:
  assumes "rb_size r = 32" and "length val + length tag < 32" "0 \<notin> set val" "length val < n" "n < 2 ^ 31"
  shows "ring_getStrN (of_nat (length tag)) (of_nat n - 1) (fold ring_push (val @ tag) (ring_init r)) = val"
proof -
  have len: "(of_nat (length (val @ tag)) :: u32) - of_nat (length tag) = of_nat (length val)" by simp
  have "unat (of_nat n :: u32) = n" "unat (of_nat (length val) :: u32) = length val"
    using assms by (simp_all add: unat_of_nat_small)
  then have small: "\<not> of_nat (length val) > (of_nat n - 1 :: u32)" "unat (of_nat (length val) :: u32) = length val"
    using assms(4) by (simp_all add: word_less_nat_alt unat_sub_small)
  have "takeWhile (\<lambda>c. c \<noteq> 0) (val @ ys) = val @ takeWhile (\<lambda>c. c \<noteq> 0) ys" for ys
    using assms(3) by (intro takeWhile_append2) auto
  then have "strncpy_bytes (val @ ys) (length val) = val" for ys by (simp add: strncpy_bytes_def Let_def)
  then show ?thesis using push_init [of "val @ tag" r] assms(1, 2) len small
    by (simp add: ring_getStrN_def Let_def)
qed

text \<open>
  A text that contains the last byte of a tag only at its end, and a text that no tag fits in
  whatever lies before it.
\<close>

lemma suffix_last: "suffix t (xs @ ys @ [y]) \<Longrightarrow> t \<noteq> [] \<Longrightarrow> last t = y"
  by (auto simp: suffix_def) (metis append.assoc last_appendR last_snoc)

lemma tags_last: "i < 5 \<Longrightarrow> ESPTAGS ! i \<noteq> [] \<and> last (ESPTAGS ! i) = 0x0A"
  by (simp add: less_Suc_eq eval_nat_numeral) (auto simp: ESPTAGS_def ascii_def crlf_def)

lemma tagOf_none:
  assumes "ft \<longrightarrow> (\<forall>i < 5. \<not> suffix (ESPTAGS ! i) xs)" and "\<forall>t. tag = Some t \<longrightarrow> \<not> suffix t xs"
  shows "tagOf tag ft xs = - 1"
proof -
  have "find (\<lambda>i. suffix (ESPTAGS ! i) xs) [0..<5] = None" if ft
    using that assms(1) by (auto simp: find_None_iff)
  then show ?thesis using assms(2) by (auto simp: tagOf_def split: option.split)
qed

lemma first_by_last:
  assumes "bs = pre @ t" and "t \<noteq> []" "last t \<notin> set pre" "last t \<notin> set (butlast t)"
    and "ft \<longrightarrow> last t \<noteq> 0x0A \<and> 0x0A \<notin> set pre \<and> 0x0A \<notin> set (butlast t)"
  shows "first_tag (Some t) ft xs bs NUMESPTAGS"
proof -
  have no: "\<forall>i < 5. \<not> suffix (ESPTAGS ! i) (xs @ ys @ [y])" if "y \<noteq> 0x0A" for ys y
    using that suffix_last tags_last by metis
  have bs: "bs = (pre @ butlast t) @ [last t]" using assms(1, 2) by simp
  have "tagOf (Some t) ft (xs @ bs) = NUMESPTAGS"
  proof -
    have "find (\<lambda>i. suffix (ESPTAGS ! i) (xs @ bs)) [0..<5] = None" if ft
      using that no [of "last t" "pre @ butlast t"] assms(5) bs by (auto simp: find_None_iff)
    moreover have "suffix t (xs @ bs)" unfolding assms(1) by (simp add: suffix_def)
    ultimately show ?thesis by (auto simp: tagOf_def)
  qed
  moreover have "tagOf (Some t) ft (xs @ take i bs) = - 1" if i: "i < length bs" "0 < i" for i
  proof -
    obtain k where k: "i = Suc k" using i(2) by (cases i) auto
    define y where "y = bs ! k"
    have tk: "take i bs = take k bs @ [y]" using i k by (simp add: y_def take_Suc_conv_app_nth)
    have "k < length (pre @ butlast t)" using i(1) k unfolding bs by simp
    then have "y \<in> set (pre @ butlast t)" unfolding y_def bs by (metis nth_append nth_mem)
    then have "y \<noteq> last t" "ft \<longrightarrow> y \<noteq> 0x0A" using assms(3 - 5) by auto
    then show ?thesis unfolding tk
      using no suffix_last [of t xs "take k bs" y] assms(2) by (intro tagOf_none) auto
  qed
  ultimately show ?thesis using assms(1, 2) by (auto simp: first_tag_def)
qed

definition unmistakable :: "u8 list \<Rightarrow> bool" where
  "unmistakable bs \<longleftrightarrow> (\<forall>i < length bs. 0 < i \<longrightarrow>
     (\<forall>k < 5. \<not> suffix (ESPTAGS ! k) (take i bs) \<and> \<not> suffix (take i bs) (ESPTAGS ! k)))"

lemma suffix_overlap: "suffix t (xs @ ys) \<Longrightarrow> suffix t ys \<or> suffix ys t"
  by (metis suffix_appendI suffix_order.order_refl suffix_same_cases)

lemma tags_apart:
  assumes "k < 3"
  shows "\<not> suffix (ESPTAGS ! k) (ESPTAGS ! 3) \<and> \<not> suffix (ESPTAGS ! 3) (ESPTAGS ! k)"
proof -
  consider "k = 0" | "k = 1" | "k = 2" using assms by linarith
  then show ?thesis by cases (simp_all add: ESPTAGS_def ascii_def crlf_def suffix_to_prefix)
qed

lemma first_confirmation:
  assumes "unmistakable bs" and "suffix (ESPTAGS ! 3) bs"
  shows "first_tag None True xs bs TAG_SENDOK"
proof -
  have len: "length (ESPTAGS ! 3) = 11" by (simp add: ESPTAGS_def ascii_def crlf_def)
  then have bl: "11 \<le> length bs" using assms(2) suffix_length_le by metis
  have "\<not> suffix (ESPTAGS ! k) (xs @ bs)" if k: "k < 3" for k
  proof
    assume s: "suffix (ESPTAGS ! k) (xs @ bs)"
    have "suffix (ESPTAGS ! 3) (xs @ bs)" using assms(2) by (rule suffix_appendI)
    then have "suffix (ESPTAGS ! k) (ESPTAGS ! 3) \<or> suffix (ESPTAGS ! 3) (ESPTAGS ! k)"
      using s suffix_same_cases by blast
    then show False using tags_apart [OF k] by simp
  qed
  then have "tagOf None True (xs @ bs) = TAG_SENDOK"
    using suffix_appendI [OF assms(2), of xs] by (simp add: tagOf_def upt_rec eval_nat_numeral)
  moreover have "tagOf None True (xs @ take i bs) = - 1" if "i < length bs" "0 < i" for i
    using assms(1) that by (intro tagOf_none) (auto simp: unmistakable_def dest!: suffix_overlap)
  ultimately show ?thesis using bl by (auto simp: first_tag_def)
qed

section \<open>A modem\<close>

text \<open>
  What the driver relies on: bytes come out of a queue, the clock goes on by a millisecond when it
  is read, and what is written is kept and answered.  \<open>reaction\<close> is the modem: what it sends when
  these pieces have been written to it.
\<close>

locale modem =
  fixes hw :: "'h esp_hw"
    and inq :: "'h \<Rightarrow> u8 list" and clock :: "'h \<Rightarrow> nat" and sent :: "'h \<Rightarrow> u8 list list"
    and reaction :: "'h \<Rightarrow> u8 list list \<Rightarrow> u8 list"
  assumes available: "e_available hw h = (int (length (inq h)), h)"
    and read_byte: "inq h = c # cs \<Longrightarrow> \<exists>h'. e_read hw h = (uint c, h') \<and> inq h' = cs \<and> clock h' = clock h \<and>
      sent h' = sent h \<and> reaction h' = reaction h"
    and peek_byte: "inq h = c # cs \<Longrightarrow> e_peek hw h = (uint c, h)"
    and millis: "\<exists>h'. e_millis hw h = (of_nat (clock h), h') \<and> inq h' = inq h \<and> clock h' = Suc (clock h) \<and>
      sent h' = sent h \<and> reaction h' = reaction h"
    and println: "inq (e_println hw bs h) = inq h @ reaction h (sent h @ [bs @ crlf])"
      "sent (e_println hw bs h) = sent h @ [bs @ crlf]" "reaction (e_println hw bs h) = reaction h"
    and writes: "inq (e_write hw bs h) = inq h @ reaction h (sent h @ [bs])"
      "sent (e_write hw bs h) = sent h @ [bs]" "reaction (e_write hw bs h) = reaction h"
    and delays: "inq (e_delay hw ms h) = inq h" "sent (e_delay hw ms h) = sent h"
      "reaction (e_delay hw ms h) = reaction h"
begin

text \<open>What has been written, and the modem, are the same in both worlds.\<close>

definition stays :: "'h \<Rightarrow> 'h \<Rightarrow> bool" where
  "stays h h' \<longleftrightarrow> sent h' = sent h \<and> reaction h' = reaction h"

lemma stays_trans: "stays h h' \<Longrightarrow> stays h' h'' \<Longrightarrow> stays h h''"
  by (simp add: stays_def)

lemma millis_step:
  obtains h where "espMillis hw e = (of_nat (clock (e_bus e)), e\<lparr>e_bus := h\<rparr>)" "inq h = inq (e_bus e)"
    "clock h = Suc (clock (e_bus e))" "stays (e_bus e) h"
  using millis [of "e_bus e"] by (auto simp: espMillis_def stays_def)

lemma stream_step:
  assumes "inq (e_bus e) = c # cs"
  obtains h where "espRead hw e = (uint c, e\<lparr>e_bus := h\<rparr>)" "inq h = cs" "clock h = clock (e_bus e)"
    "stays (e_bus e) h"
  using read_byte [OF assms] by (auto simp: espRead_def stays_def)

lemma available_step: "espAvailable hw e = (int (length (inq (e_bus e))), e)"
  by (simp add: espAvailable_def available)

lemma early: "start \<le> now \<Longrightarrow> now - start < unat timeout \<Longrightarrow> (of_nat now - of_nat start :: u32) < timeout"
proof -
  assume a: "start \<le> now" "now - start < unat timeout"
  have "now - start < 2 ^ 32" using a(2) unsigned_less [of timeout, where ?'a = nat] by simp
  then have "unat (of_nat (now - start) :: u32) = now - start" by (simp add: unat_of_nat_small)
  moreover have "(of_nat now :: u32) - of_nat start = of_nat (now - start)" using a(1) by (simp add: of_nat_diff)
  ultimately show ?thesis using a(2) by (simp add: word_less_nat_alt del: of_nat_diff)
qed

text \<open>One byte in the loop of \<open>readUntil\<close>.\<close>

lemma until_byte:
  assumes "inq (e_bus e) = c # cs" and "holds (e_ring e) xs" "rb_size (e_ring e) = 32"
    and "\<forall>t. tag = Some t \<longrightarrow> length t \<le> 32" and "start \<le> clock (e_bus e)" "clock (e_bus e) - start < unat timeout"
  obtains h where "untilLoop hw timeout (of_nat start) tag ft (- 1) e =
      untilLoop hw timeout (of_nat start) tag ft (tagOf tag ft (xs @ [c]))
        (e\<lparr>e_ring := ring_push c (e_ring e), e_bus := h\<rparr>)"
    "inq h = cs" "clock h = Suc (clock (e_bus e))" "stays (e_bus e) h"
proof -
  obtain h1 where h1: "espMillis hw e = (of_nat (clock (e_bus e)), e\<lparr>e_bus := h1\<rparr>)" "inq h1 = c # cs"
      "clock h1 = Suc (clock (e_bus e))" "stays (e_bus e) h1"
    using millis_step [of e] assms(1) by metis
  obtain h2 where h2: "espRead hw (e\<lparr>e_bus := h1\<rparr>) = (uint c, e\<lparr>e_bus := h2\<rparr>)" "inq h2 = cs"
      "clock h2 = clock h1" "stays h1 h2"
    using stream_step [of "e\<lparr>e_bus := h1\<rparr>" c cs] h1(2) by auto
  have size: "rb_size (ring_push c (e_ring e)) = 32" using assms(3) by (simp add: ring_push_def Let_def)
  have "untilLoop hw timeout (of_nat start) tag ft (- 1) e =
      untilLoop hw timeout (of_nat start) tag ft (tagOf tag ft (xs @ [c]))
        (e\<lparr>e_bus := h2, e_ring := ring_push c (e_ring e)\<rparr>)"
    using h1(1, 2) h2(1) early [OF assms(5, 6)] tagFound_spec [OF holds_push [OF assms(2), of c] size assms(4)]
    by (subst untilLoop.simps) (simp add: available_step)
  also have "e\<lparr>e_bus := h2, e_ring := ring_push c (e_ring e)\<rparr> = e\<lparr>e_ring := ring_push c (e_ring e), e_bus := h2\<rparr>"
    by simp
  finally show thesis using that [of h2] h1(3) h2(2, 3) stays_trans [OF h1(4) h2(4)] by simp
qed

lemma until_ends:
  assumes "0 \<le> ret"
  obtains h where "untilLoop hw timeout start tag ft ret e = Some (ret, e\<lparr>e_bus := h\<rparr>)" "inq h = inq (e_bus e)"
    "clock h = Suc (clock (e_bus e))" "stays (e_bus e) h"
proof -
  obtain h where h: "espMillis hw e = (of_nat (clock (e_bus e)), e\<lparr>e_bus := h\<rparr>)" "inq h = inq (e_bus e)"
      "clock h = Suc (clock (e_bus e))" "stays (e_bus e) h"
    by (rule millis_step)
  then show thesis using assms that [of h] by (subst (asm) untilLoop.simps) auto
qed

text \<open>The tag comes in time: the loop stops behind it.\<close>

lemma until_finds:
  assumes "inq (e_bus e) = bs @ rest" and "bs \<noteq> []" and "tagOf tag ft (xs @ bs) = k" "0 \<le> k"
    and "\<And>i. 0 < i \<Longrightarrow> i < length bs \<Longrightarrow> tagOf tag ft (xs @ take i bs) = - 1"
    and "holds (e_ring e) xs" "rb_size (e_ring e) = 32" "\<forall>t. tag = Some t \<longrightarrow> length t \<le> 32"
    and "start \<le> clock (e_bus e)" "clock (e_bus e) + length bs \<le> start + unat timeout"
  shows "\<exists>h. untilLoop hw timeout (of_nat start) tag ft (- 1) e =
      Some (k, e\<lparr>e_ring := fold ring_push bs (e_ring e), e_bus := h\<rparr>) \<and> inq h = rest \<and> stays (e_bus e) h"
  using assms
proof (induction bs arbitrary: e xs)
  case (Cons c bs)
  have time: "clock (e_bus e) - start < unat timeout" using Cons.prems(9, 10) by simp
  obtain h where h: "untilLoop hw timeout (of_nat start) tag ft (- 1) e =
      untilLoop hw timeout (of_nat start) tag ft (tagOf tag ft (xs @ [c]))
        (e\<lparr>e_ring := ring_push c (e_ring e), e_bus := h\<rparr>)" "inq h = bs @ rest"
      "clock h = Suc (clock (e_bus e))" "stays (e_bus e) h"
    using until_byte [OF _ Cons.prems(6, 7, 8, 9) time, of c "bs @ rest" ft] Cons.prems(1) by auto
  show ?case
  proof (cases "bs = []")
    case True
    then have k: "tagOf tag ft (xs @ [c]) = k" using Cons.prems(3) by simp
    obtain h2 where h2: "untilLoop hw timeout (of_nat start) tag ft k (e\<lparr>e_ring := ring_push c (e_ring e), e_bus := h\<rparr>) =
        Some (k, e\<lparr>e_ring := ring_push c (e_ring e), e_bus := h2\<rparr>)" "inq h2 = inq h" "stays h h2"
      using until_ends [OF Cons.prems(4), of timeout "of_nat start" tag ft "e\<lparr>e_ring := ring_push c (e_ring e), e_bus := h\<rparr>"]
      by auto
    then show ?thesis using h True unfolding k by (intro exI [of _ h2]) (auto intro: stays_trans)
  next
    case False
    have none: "tagOf tag ft (xs @ [c]) = - 1" using Cons.prems(5) [of 1] False by simp
    let ?e = "e\<lparr>e_ring := ring_push c (e_ring e), e_bus := h\<rparr>"
    have size: "rb_size (e_ring ?e) = 32" using Cons.prems(7) by (simp add: ring_push_def Let_def)
    have more: "tagOf tag ft ((xs @ [c]) @ take i bs) = - 1" if "0 < i" "i < length bs" for i
      using Cons.prems(5) [of "Suc i"] that by simp
    have "\<exists>h'. untilLoop hw timeout (of_nat start) tag ft (- 1) ?e =
        Some (k, ?e\<lparr>e_ring := fold ring_push bs (e_ring ?e), e_bus := h'\<rparr>) \<and> inq h' = rest \<and> stays (e_bus ?e) h'"
      by (rule Cons.IH [OF _ False _ Cons.prems(4) more _ size Cons.prems(8)])
        (use Cons.prems h holds_push in auto)
    then show ?thesis using h none by (auto intro: stays_trans)
  qed
qed simp

text \<open>In any case the loop ends.\<close>

lemma until_returns:
  assumes "holds (e_ring e) xs" "rb_size (e_ring e) = 32" "\<forall>t. tag = Some t \<longrightarrow> length t \<le> 32"
    and "start \<le> clock (e_bus e)" "clock (e_bus e) + k = start + unat timeout"
  shows "\<exists>ret r h ys. untilLoop hw timeout (of_nat start) tag ft (- 1) e = Some (ret, e\<lparr>e_ring := r, e_bus := h\<rparr>) \<and>
    holds r ys \<and> rb_size r = 32 \<and> stays (e_bus e) h"
  using assms
proof (induction k arbitrary: e xs)
  case 0
  obtain h where h: "espMillis hw e = (of_nat (clock (e_bus e)), e\<lparr>e_bus := h\<rparr>)" "stays (e_bus e) h"
    by (rule millis_step)
  have "(of_nat (clock (e_bus e)) - of_nat start :: u32) = timeout"
    using 0(5) by simp
  then have "untilLoop hw timeout (of_nat start) tag ft (- 1) e = Some (- 1, e\<lparr>e_ring := e_ring e, e_bus := h\<rparr>)"
    using h(1) by (subst untilLoop.simps) simp
  then show ?case using 0 h(2) by blast
next
  case (Suc k)
  have time: "clock (e_bus e) - start < unat timeout" using Suc.prems(4, 5) by simp
  show ?case
  proof (cases "inq (e_bus e)")
    case Nil
    obtain h where h: "espMillis hw e = (of_nat (clock (e_bus e)), e\<lparr>e_bus := h\<rparr>)" "inq h = []"
        "clock h = Suc (clock (e_bus e))" "stays (e_bus e) h"
      using millis_step [of e] Nil by metis
    have "untilLoop hw timeout (of_nat start) tag ft (- 1) e =
        untilLoop hw timeout (of_nat start) tag ft (- 1) (e\<lparr>e_bus := h\<rparr>)"
      using h(1, 2) early [OF Suc.prems(4) time] by (subst untilLoop.simps) (simp add: available_step)
    moreover have "\<exists>ret r h' ys. untilLoop hw timeout (of_nat start) tag ft (- 1) (e\<lparr>e_bus := h\<rparr>) =
        Some (ret, e\<lparr>e_bus := h, e_ring := r, e_bus := h'\<rparr>) \<and> holds r ys \<and> rb_size r = 32 \<and> stays h h'"
      using Suc.IH [of "e\<lparr>e_bus := h\<rparr>" xs] Suc.prems h(3) by simp
    ultimately show ?thesis using h(4) by (auto intro: stays_trans)
  next
    case (Cons c cs)
    obtain h where h: "untilLoop hw timeout (of_nat start) tag ft (- 1) e =
        untilLoop hw timeout (of_nat start) tag ft (tagOf tag ft (xs @ [c]))
          (e\<lparr>e_ring := ring_push c (e_ring e), e_bus := h\<rparr>)"
        "clock h = Suc (clock (e_bus e))" "stays (e_bus e) h"
      using until_byte [OF Cons Suc.prems(1 - 4) time] by metis
    let ?e = "e\<lparr>e_ring := ring_push c (e_ring e), e_bus := h\<rparr>"
    have ring: "holds (ring_push c (e_ring e)) (xs @ [c])" "rb_size (ring_push c (e_ring e)) = 32"
      using holds_push [OF Suc.prems(1)] Suc.prems(2) by (simp_all add: ring_push_def Let_def)
    show ?thesis
    proof (cases "0 \<le> tagOf tag ft (xs @ [c])")
      case True
      obtain h2 where "untilLoop hw timeout (of_nat start) tag ft (tagOf tag ft (xs @ [c])) ?e =
          Some (tagOf tag ft (xs @ [c]), ?e\<lparr>e_bus := h2\<rparr>)" "stays h h2"
        using until_ends [OF True, of timeout "of_nat start" tag ft ?e] by auto
      then show ?thesis using h ring
        by (intro exI [of _ "tagOf tag ft (xs @ [c])"] exI [of _ "ring_push c (e_ring e)"] exI [of _ h2]
            exI [of _ "xs @ [c]"]) (auto intro: stays_trans)
    next
      case False
      then have none: "tagOf tag ft (xs @ [c]) = - 1" by (auto simp: tagOf_def split: option.splits if_splits)
      have "\<exists>ret r h' ys. untilLoop hw timeout (of_nat start) tag ft (- 1) ?e =
          Some (ret, ?e\<lparr>e_ring := r, e_bus := h'\<rparr>) \<and> holds r ys \<and> rb_size r = 32 \<and> stays h h'"
        using Suc.IH [of ?e "xs @ [c]"] Suc.prems h(2) ring by simp
      then show ?thesis using h none by (auto intro: stays_trans)
    qed
  qed
qed

lemma readUntil_finds:
  assumes "ring_good (e_ring e)" and "inq (e_bus e) = bs @ rest"
    and "first_tag tag ft (left_over (e_ring e)) bs k"
    and "\<forall>t. tag = Some t \<longrightarrow> length t \<le> 32" and "length bs < unat timeout"
  shows "\<exists>h. readUntil hw timeout tag ft e =
      Some (k, e\<lparr>e_ring := fold ring_push bs (ring_reset (e_ring e)), e_bus := h\<rparr>) \<and>
    inq h = rest \<and> stays (e_bus e) h"
proof -
  let ?r = "ring_reset (e_ring e)"
  obtain h1 where h1: "espMillis hw (e\<lparr>e_ring := ?r\<rparr>) = (of_nat (clock (e_bus e)), e\<lparr>e_ring := ?r, e_bus := h1\<rparr>)"
      "inq h1 = bs @ rest" "clock h1 = Suc (clock (e_bus e))" "stays (e_bus e) h1"
    using millis_step [of "e\<lparr>e_ring := ?r\<rparr>"] assms(2) by auto
  obtain h2 where h2: "untilLoop hw timeout (of_nat (clock (e_bus e))) tag ft (- 1) (e\<lparr>e_ring := ?r, e_bus := h1\<rparr>) =
      Some (k, e\<lparr>e_ring := fold ring_push bs ?r, e_bus := h2\<rparr>)" "inq h2 = rest" "stays h1 h2"
    using until_finds [of "e\<lparr>e_ring := ?r, e_bus := h1\<rparr>" bs rest tag ft "left_over (e_ring e)" k "clock (e_bus e)" timeout]
      assms h1 good_reset [OF assms(1)] by (auto simp: first_tag_def)
  obtain h3 where "espMillis hw (e\<lparr>e_ring := fold ring_push bs ?r, e_bus := h2\<rparr>) =
      (of_nat (clock h2), e\<lparr>e_ring := fold ring_push bs ?r, e_bus := h3\<rparr>)" "inq h3 = rest" "stays h2 h3"
    using millis_step [of "e\<lparr>e_ring := fold ring_push bs ?r, e_bus := h2\<rparr>"] h2(2) by auto
  then show ?thesis using h1 h2 by (auto simp: readUntil_def intro: stays_trans)
qed

lemma readUntil_returns:
  assumes "ring_good (e_ring e)" and "\<forall>t. tag = Some t \<longrightarrow> length t \<le> 32" and "0 < unat timeout"
  shows "\<exists>ret r h. readUntil hw timeout tag ft e = Some (ret, e\<lparr>e_ring := r, e_bus := h\<rparr>) \<and>
    ring_good r \<and> stays (e_bus e) h"
proof -
  let ?r = "ring_reset (e_ring e)"
  obtain h1 where h1: "espMillis hw (e\<lparr>e_ring := ?r\<rparr>) = (of_nat (clock (e_bus e)), e\<lparr>e_ring := ?r, e_bus := h1\<rparr>)"
      "clock h1 = Suc (clock (e_bus e))" "stays (e_bus e) h1"
    using millis_step [of "e\<lparr>e_ring := ?r\<rparr>"] by auto
  have k: "Suc (clock (e_bus e)) + (unat timeout - 1) = clock (e_bus e) + unat timeout" using assms(3) by simp
  obtain ret r h2 ys where h2: "untilLoop hw timeout (of_nat (clock (e_bus e))) tag ft (- 1) (e\<lparr>e_ring := ?r, e_bus := h1\<rparr>) =
      Some (ret, e\<lparr>e_ring := r, e_bus := h2\<rparr>)" "holds r ys" "rb_size r = 32" "stays h1 h2"
    using until_returns [of "e\<lparr>e_ring := ?r, e_bus := h1\<rparr>" "left_over (e_ring e)" tag "clock (e_bus e)"
        "unat timeout - 1" timeout ft] good_reset [OF assms(1)] assms(2) h1 k by auto
  obtain h3 where "espMillis hw (e\<lparr>e_ring := r, e_bus := h2\<rparr>) = (of_nat (clock h2), e\<lparr>e_ring := r, e_bus := h3\<rparr>)"
      "stays h2 h3"
    using millis_step [of "e\<lparr>e_ring := r, e_bus := h2\<rparr>"] by auto
  then show ?thesis using h1 h2
    by (intro exI [of _ ret] exI [of _ r] exI [of _ h3])
      (auto simp: readUntil_def ring_good_def intro: stays_trans)
qed

lemma empty_buffer:
  "\<exists>h. espEmptyBuf hw e = Some (e\<lparr>e_bus := h\<rparr>) \<and> inq h = [] \<and> stays (e_bus e) h"
proof (induction "inq (e_bus e)" arbitrary: e)
  case Nil
  then have "espEmptyBuf hw e = Some (e\<lparr>e_bus := e_bus e\<rparr>)"
    by (subst espEmptyBuf.simps) (simp add: available_step)
  then show ?case using Nil by (intro exI [of _ "e_bus e"]) (simp add: stays_def)
next
  case (Cons c cs)
  obtain h where h: "espRead hw e = (uint c, e\<lparr>e_bus := h\<rparr>)" "inq h = cs" "stays (e_bus e) h"
    using stream_step [of e c cs] Cons(2) by metis
  have "espEmptyBuf hw e = espEmptyBuf hw (e\<lparr>e_bus := h\<rparr>)"
    using h(1) Cons(2) [symmetric] by (subst espEmptyBuf.simps) (simp add: available_step)
  then show ?case using Cons(1) [of "e\<lparr>e_bus := h\<rparr>"] h(2, 3) by (auto intro: stays_trans)
qed

text \<open>A command has been sent, and its answer is waiting.\<close>

lemma command_sent:
  obtains h where "Option.bind (espEmptyBuf hw e) (\<lambda>e. f (espPrintln hw cmd e)) = f (e\<lparr>e_bus := h\<rparr>)"
    "inq h = reaction (e_bus e) (sent (e_bus e) @ [cmd @ crlf])" "sent h = sent (e_bus e) @ [cmd @ crlf]"
    "reaction h = reaction (e_bus e)"
proof -
  obtain h where h: "espEmptyBuf hw e = Some (e\<lparr>e_bus := h\<rparr>)" "inq h = []" "stays (e_bus e) h"
    using empty_buffer by blast
  then show thesis using that [of "e_println hw cmd h"]
    by (simp add: espPrintln_def println stays_def)
qed

lemma args_returns:
  assumes "ring_good (e_ring e)" and "0 < unat timeout"
  shows "\<exists>k r h. sendCmdArgs hw cmd timeout e = Some (k, e\<lparr>e_ring := r, e_bus := h\<rparr>) \<and> ring_good r"
proof -
  have unfold: "sendCmdArgs hw cmd timeout e = Option.bind (espEmptyBuf hw e)
      (\<lambda>e. readUntil hw timeout None True (espPrintln hw (take (CMD_BUFFER_SIZE - 1) cmd) e))"
    by (simp only: sendCmdArgs_def Let_def)
  obtain h where sent: "Option.bind (espEmptyBuf hw e)
      (\<lambda>e. readUntil hw timeout None True (espPrintln hw (take (CMD_BUFFER_SIZE - 1) cmd) e)) =
      readUntil hw timeout None True (e\<lparr>e_bus := h\<rparr>)"
    by (rule command_sent)
  note trans [OF unfold sent]
  then show ?thesis using readUntil_returns [of "e\<lparr>e_bus := h\<rparr>" None timeout True] assms by auto
qed

text \<open>The text between two tags is delivered.\<close>

lemma sendCmdGet_between:
  assumes "ring_good (e_ring e)"
    and "reaction (e_bus e) (sent (e_bus e) @ [cmd @ crlf]) = bs @ val @ endTag @ rest"
    and "first_tag (Some startTag) True (left_over (e_ring e)) bs NUMESPTAGS" "length bs < 1000"
    and "first_tag (Some endTag) True (replicate 32 0) (val @ endTag) NUMESPTAGS"
    and "length startTag \<le> 32" and "length val + length endTag < 32" and "0 \<notin> set val"
    and "length val < length out" "length out < 2 ^ 31"
  shows "\<exists>r h. sendCmdGet hw cmd startTag endTag out e =
      Some (True, splice (out[0 := 0]) 0 val, e\<lparr>e_ring := r, e_bus := h\<rparr>) \<and> ring_good r"
proof -
  let ?out = "out[0 := 0]"
  let ?rest = "\<lambda>e. do {
     (idx, e) \<leftarrow> readUntil hw 1000 (Some startTag) True e;
     if idx = NUMESPTAGS then do {
       let e = e\<lparr>e_ring := ring_init (e_ring e)\<rparr>;
       (idx, e) \<leftarrow> readUntil hw 500 (Some endTag) True e;
       if idx = NUMESPTAGS then do {
         let out = splice ?out 0 (ring_getStrN (of_nat (length endTag)) (of_nat (length ?out) - 1) (e_ring e));
         (_, e) \<leftarrow> readUntil hw 2000 None True e;
         Some (True, out, e) }
       else Some (False, ?out, e) }
     else Some (False, ?out, e) }"
  have unfold: "sendCmdGet hw cmd startTag endTag out e = Option.bind (espEmptyBuf hw e) (\<lambda>e. ?rest (espPrintln hw cmd e))"
    by (simp only: sendCmdGet_def Let_def)
  obtain h0 where sent: "Option.bind (espEmptyBuf hw e) (\<lambda>e. ?rest (espPrintln hw cmd e)) = ?rest (e\<lparr>e_bus := h0\<rparr>)"
      and in0: "inq h0 = reaction (e_bus e) (sent (e_bus e) @ [cmd @ crlf])"
    by (rule command_sent)
  have h0: "sendCmdGet hw cmd startTag endTag out e = ?rest (e\<lparr>e_bus := h0\<rparr>)"
    by (rule trans [OF unfold sent])
  note h0 = h0 in0 [unfolded assms(2)]
  let ?r1 = "fold ring_push bs (ring_reset (e_ring e))"
  obtain h1 where h1: "readUntil hw 1000 (Some startTag) True (e\<lparr>e_bus := h0\<rparr>) =
      Some (NUMESPTAGS, e\<lparr>e_ring := ?r1, e_bus := h1\<rparr>)" "inq h1 = val @ endTag @ rest"
    using readUntil_finds [of "e\<lparr>e_bus := h0\<rparr>" bs "val @ endTag @ rest" "Some startTag" True NUMESPTAGS 1000]
      assms h0(2) by auto
  have size: "rb_size ?r1 = 32" using good_reset [OF assms(1)] by simp
  let ?r2 = "fold ring_push (val @ endTag) (ring_init ?r1)"
  have init: "left_over (ring_init ?r1) = replicate 32 0" "ring_reset (ring_init ?r1) = ring_init ?r1"
    using size by (simp_all add: ring_init_def ring_reset_def)
  obtain h2 where h2: "readUntil hw 500 (Some endTag) True (e\<lparr>e_bus := h1, e_ring := ring_init ?r1\<rparr>) =
      Some (NUMESPTAGS, e\<lparr>e_ring := ?r2, e_bus := h2\<rparr>)"
    using readUntil_finds [of "e\<lparr>e_bus := h1, e_ring := ring_init ?r1\<rparr>" "val @ endTag" rest "Some endTag" True
        NUMESPTAGS 500] assms(5, 7) h1(2) init good_init [OF size] by auto
  have got: "ring_getStrN (of_nat (length endTag)) (of_nat (length ?out) - 1) ?r2 = val"
    using getStrN_text [OF size assms(7, 8), of "length out"] assms(9, 10) by simp
  have good: "ring_good ?r2" by (rule good_push [OF good_init [OF size]])
  obtain ret r h3 where "readUntil hw 2000 None True (e\<lparr>e_ring := ?r2, e_bus := h2\<rparr>) =
      Some (ret, e\<lparr>e_ring := r, e_bus := h3\<rparr>)" "ring_good r"
    using readUntil_returns [of "e\<lparr>e_ring := ?r2, e_bus := h2\<rparr>" None 2000 True] good by auto
  then show ?thesis using h0(1) h1(1) h2 got
    by (intro exI [of _ r] exI [of _ h3]) (simp add: Let_def del: fold_append)
qed

text \<open>Data are sent when the modem has prompted for them, and then confirms them.\<close>

lemma sendPrompted_sends:
  assumes "ring_good (e_ring e)"
    and "inq (e_bus e) @ reaction (e_bus e) (sent (e_bus e) @ [cmd @ crlf]) = ps @ rest"
    and "first_tag (Some (ascii ''>'')) False (left_over (e_ring e)) ps NUMESPTAGS" "length ps < 1000"
    and "rest @ reaction (e_bus e) (sent (e_bus e) @ [cmd @ crlf, data]) = qs @ rest'"
    and "first_tag None True (left_over (fold ring_push ps (ring_reset (e_ring e)))) qs TAG_SENDOK" "length qs < 2000"
  shows "\<exists>r h. sendPrompted hw cmd (espWrite hw data) e = Some (True, e\<lparr>e_ring := r, e_bus := h\<rparr>) \<and>
    ring_good r \<and> inq h = rest' \<and> sent h = sent (e_bus e) @ [cmd @ crlf, data]"
proof -
  let ?r1 = "fold ring_push ps (ring_reset (e_ring e))"
  let ?e0 = "e\<lparr>e_bus := e_println hw cmd (e_bus e)\<rparr>"
  obtain h1 where h1: "readUntil hw 1000 (Some (ascii ''>'')) False ?e0 =
      Some (NUMESPTAGS, e\<lparr>e_ring := ?r1, e_bus := h1\<rparr>)" "inq h1 = rest" "stays (e_bus ?e0) h1"
    using readUntil_finds [of ?e0 ps rest "Some (ascii ''>'')" False NUMESPTAGS 1000] assms(1 - 4)
    by (auto simp: println ascii_def)
  have good: "ring_good ?r1" using good_push good_reset [OF assms(1)] by (auto simp: ring_good_def)
  let ?e1 = "e\<lparr>e_ring := ?r1, e_bus := e_write hw data h1\<rparr>"
  have sent1: "sent h1 = sent (e_bus e) @ [cmd @ crlf]" "reaction h1 = reaction (e_bus e)"
    using h1(3) by (simp_all add: stays_def println)
  obtain h2 where h2: "readUntil hw 2000 None True ?e1 =
      Some (TAG_SENDOK, e\<lparr>e_ring := fold ring_push qs (ring_reset ?r1), e_bus := h2\<rparr>)" "inq h2 = rest'"
      "stays (e_bus ?e1) h2"
    using readUntil_finds [of ?e1 qs rest' None True TAG_SENDOK 2000] good assms(5 - 7) h1(2) sent1
    by (auto simp: writes)
  have "ring_good (fold ring_push qs (ring_reset ?r1))"
    using good_push good_reset [OF good] by (auto simp: ring_good_def)
  moreover have "sendPrompted hw cmd (espWrite hw data) e =
      Some (True, e\<lparr>e_ring := fold ring_push qs (ring_reset ?r1), e_bus := h2\<rparr>)"
    using h1(1) h2(1) by (simp add: sendPrompted_def espPrintln_def espWrite_def)
  moreover have "sent h2 = sent (e_bus e) @ [cmd @ crlf, data]"
    using h2(3) sent1 by (simp add: stays_def writes)
  ultimately show ?thesis using h2(2) by blast
qed

text \<open>A byte of the data of a connection, and the last one, behind which the connection is closed.\<close>

lemma getData_next:
  assumes "inq (e_bus e) = d # ds" and "sock = connId e" and "bufPos e \<noteq> 1"
  shows "\<exists>h. getData hw sock old False close e = Some (True, d, close, e\<lparr>bufPos := bufPos e - 1, e_bus := h\<rparr>) \<and>
    inq h = ds"
proof -
  obtain h1 where h1: "espMillis hw e = (of_nat (clock (e_bus e)), e\<lparr>e_bus := h1\<rparr>)" "inq h1 = d # ds"
    using millis_step [of e] assms(1) by metis
  obtain h2 where h2: "espRead hw (e\<lparr>e_bus := h1\<rparr>) = (uint d, e\<lparr>e_bus := h2\<rparr>)" "inq h2 = ds"
    using stream_step [of "e\<lparr>e_bus := h1\<rparr>" d ds] h1(2) by auto
  have "bufPos e - 1 \<noteq> 0" using assms(3) by simp
  then have "gotByte hw sock False close (e\<lparr>e_bus := h1\<rparr>) =
      Some (True, d, close, e\<lparr>bufPos := bufPos e - 1, e_bus := h2\<rparr>)"
    using h2(1) by (simp add: gotByte_def)
  then show ?thesis using h1 h2(2) assms(2)
    by (intro exI [of _ h2]) (simp add: getData_def, subst dataLoop.simps, simp add: available_step)
qed

lemma getData_last:
  assumes "inq (e_bus e) = d # bs @ rest" and "sock = connId e" "bufPos e = 1" "sock < 5" and "ring_good (e_ring e)"
    and "bs = (0x30 + sock) # ascii '',CLOSED'' @ crlf"
    and "first_tag (Some (ascii '',CLOSED'' @ crlf)) False (left_over (e_ring e)) bs NUMESPTAGS"
  shows "\<exists>h. getData hw sock old False close e =
    Some (True, d, True, e\<lparr>e_ring := fold ring_push bs (ring_reset (e_ring e)), bufPos := 0, e_bus := h\<rparr>) \<and>
    inq h = rest"
proof -
  define tag where "tag = ascii '',CLOSED'' @ crlf"
  define r where "r = fold ring_push bs (ring_reset (e_ring e))"
  have bs: "bs = (0x30 + sock) # tag" "length tag = 9" using assms(6) by (simp_all add: tag_def ascii_def crlf_def)
  obtain h1 where h1: "espMillis hw e = (of_nat (clock (e_bus e)), e\<lparr>e_bus := h1\<rparr>)" "inq h1 = d # bs @ rest"
    using millis_step [of e] assms(1) by metis
  obtain h2 where h2: "espRead hw (e\<lparr>e_bus := h1\<rparr>) = (uint d, e\<lparr>e_bus := h2\<rparr>)" "inq h2 = bs @ rest"
    using stream_step [of "e\<lparr>e_bus := h1\<rparr>" d "bs @ rest"] h1(2) by auto
  let ?h3 = "e_delay hw 5 h2"
  have h3: "inq ?h3 = (0x30 + sock) # tag @ rest" by (simp add: delays h2(2) bs)
  have digit: "uint (0x30 + sock) = 48 + uint sock"
    using assms(4) by (simp add: word_less_def uint_word_ariths)
  have peek: "espPeek hw (e\<lparr>bufPos := 0, e_bus := ?h3\<rparr>) = (48 + uint sock, e\<lparr>bufPos := 0, e_bus := ?h3\<rparr>)"
    using peek_byte [of ?h3 "0x30 + sock"] h3 digit by (simp add: espPeek_def)
  obtain h4 where h4: "readUntil hw 500 (Some tag) False (e\<lparr>bufPos := 0, e_bus := ?h3\<rparr>) =
      Some (NUMESPTAGS, e\<lparr>bufPos := 0, e_ring := r, e_bus := h4\<rparr>)" "inq h4 = rest"
    using readUntil_finds [of "e\<lparr>bufPos := 0, e_bus := ?h3\<rparr>" bs rest "Some tag" False NUMESPTAGS 500]
      assms(5, 7) [folded tag_def] h3 bs by (auto simp: r_def)
  have ne: "inq ?h3 \<noteq> []" by (simp add: h3)
  have ord: "e\<lparr>bufPos := 0, e_ring := r, e_bus := h4\<rparr> = e\<lparr>e_ring := r, bufPos := 0, e_bus := h4\<rparr>" by simp
  have "gotByte hw sock False close (e\<lparr>e_bus := h1\<rparr>) =
      Some (True, d, True, e\<lparr>bufPos := 0, e_ring := r, e_bus := h4\<rparr>)"
    using h2(1) ne peek h4(1) assms(3) by (simp add: gotByte_def espDelay_def available_step tag_def)
  then show ?thesis using h1 h4(2) assms(2) unfolding r_def [symmetric] ord
    by (intro exI [of _ h4]) (simp add: getData_def, subst dataLoop.simps, simp add: available_step)
qed

end

text \<open>\<open>n\<close> bytes read from a client.\<close>

fun wclient_reads :: "'h esp_hw \<Rightarrow> nat \<Rightarrow> wclient \<Rightarrow> 'h esp \<Rightarrow> (int list \<times> wclient \<times> 'h esp) option" where
  "wclient_reads hw 0 c e = Some ([], c, e)"
| "wclient_reads hw (Suc n) c e = do {
     (b, c, e) \<leftarrow> wclient_read hw c e;
     (bs, c, e) \<leftarrow> wclient_reads hw n c e;
     Some (b # bs, c, e) }"

lemma announced:
  assumes "bufPos e = of_nat n" "0 < n" "n < 65536" "connId e = c_sock c" "c_sock c \<noteq> 255"
  shows "wclient_available hw c e = (of_nat n, e)" "(of_nat n :: u16) \<noteq> 0"
proof -
  have u: "unat (of_nat n :: u32) = n" using assms(3) by (simp add: unat_of_nat_small)
  have "0 <s (of_nat n :: u32)" using u assms(2, 3) by (simp add: word_sless_alt sint32_small)
  moreover have "(ucast (of_nat n :: u32) :: u16) = of_nat n" using u by (simp add: word_unat_eq_iff unsigned_of_nat take_bit_eq_mod)
  ultimately show "wclient_available hw c e = (of_nat n, e)" using assms by (simp add: wclient_available_def availData_def)
  have "unat (of_nat n :: u16) = n" using assms(3) by (simp add: unat_of_nat_small)
  then show "(of_nat n :: u16) \<noteq> 0" using assms(2) by (auto simp: word_unat_eq_iff)
qed

section \<open>The header of a data packet\<close>

definition digit_value :: "u8 list \<Rightarrow> nat" where
  "digit_value ds = foldl (\<lambda>a d. 10 * a + unat (d - 0x30)) 0 ds"

lemma digit_char_value: "k < 10 \<Longrightarrow> isDigitChar (0x30 + of_nat k) \<and> unat (0x30 + of_nat k - 0x30 :: u8) = k"
proof -
  assume k: "k < 10"
  have u: "unat (of_nat k :: u8) = k" using k by (simp add: unat_of_nat_small)
  then have "unat (0x30 + of_nat k :: u8) = 48 + k" using k by (subst unat_add_small) simp_all
  then show ?thesis using k u by (simp add: isDigitChar_def word_le_nat_alt)
qed

lemma decimal_value: "digit_value (decimal n) = n \<and> decimal n \<noteq> [] \<and> list_all isDigitChar (decimal n)"
proof (induction n rule: decimal.induct)
  case (1 n)
  show ?case
  proof (cases "n < 10")
    case True
    then show ?thesis using digit_char_value [of n] by (subst (1 2 3) decimal.simps) (simp add: digit_value_def)
  next
    case False
    have m: "n mod 10 < 10" by simp
    show ?thesis using 1 [OF False] False digit_char_value [OF m]
      by (subst (1 2 3) decimal.simps) (simp add: digit_value_def)
  qed
qed

lemma length_decimal: "n < 10 ^ k \<Longrightarrow> 0 < k \<Longrightarrow> length (decimal n) \<le> k"
proof (induction n arbitrary: k rule: decimal.induct)
  case (1 n)
  show ?case
  proof (cases "n < 10")
    case True
    then show ?thesis using 1(3) by (subst decimal.simps) simp
  next
    case False
    then obtain j where j: "k = Suc j" "0 < j" using 1(2, 3) by (cases k; cases "k - 1") auto
    then have "n div 10 < 10 ^ j" using 1(2) by (simp add: div_less_iff_less_mult mult.commute)
    then show ?thesis using 1(1) [OF False _ j(2)] False j(1) by (subst decimal.simps) simp
  qed
qed

definition packet_text :: "u8 \<Rightarrow> nat \<Rightarrow> u8 list \<Rightarrow> u16 \<Rightarrow> u8 list" where
  "packet_text link n ip port =
     decimal (unat link) @ 0x2C # decimal n @ 0x2C # 0x22 # dotted_quad ip @ 0x22 # 0x2C # decimal (unat port) @ [0x3A]"

text \<open>What the driver relies on in \<open>find\<close> and \<open>parseInt\<close>.\<close>

locale modem_parser = modem +
  assumes find_text: "inq h = pre @ t @ rest \<Longrightarrow> \<forall>i < length pre. \<not> prefix t (drop i (inq h)) \<Longrightarrow>
      \<exists>h'. e_find hw t h = (True, h') \<and> inq h' = rest"
    and parse_digits: "inq h = junk @ ds @ c # rest \<Longrightarrow> \<forall>x \<in> set junk. \<not> isDigitChar x \<and> x \<noteq> 0x2D \<Longrightarrow>
      ds \<noteq> [] \<Longrightarrow> list_all isDigitChar ds \<Longrightarrow> \<not> isDigitChar c \<Longrightarrow>
      \<exists>h'. e_parseInt hw h = (of_nat (digit_value ds), h') \<and> inq h' = c # rest"
begin

lemma parse_field:
  assumes "inq h = junk @ decimal n @ c # rest" and "\<forall>x \<in> set junk. \<not> isDigitChar x \<and> x \<noteq> 0x2D" and "\<not> isDigitChar c"
  obtains h1 h2 where "e_parseInt hw h = (of_nat n, h1)" "e_read hw h1 = (uint c, h2)" "inq h2 = rest"
  using parse_digits [OF assms(1, 2) _ _ assms(3)] decimal_value [of n] read_byte by metis

lemma header_read:
  assumes "inq (e_bus e) = packet_text link n ip port @ rest" and "length (esp_remoteIp e) = 4" "length ip = 4"
  shows "\<exists>h. packetHeader hw e = e\<lparr>connId := link, bufPos := of_nat n, esp_remoteIp := ip, esp_remotePort := port, e_bus := h\<rparr> \<and>
    inq h = rest"
proof -
  obtain a b c d where ip: "ip = [a, b, c, d]" using assms(3) by (auto simp: length_Suc_conv eval_nat_numeral)
  obtain a' b' c' d' where old: "esp_remoteIp e = [a', b', c', d']"
    using assms(2) by (auto simp: length_Suc_conv eval_nat_numeral)
  have nd: "\<not> isDigitChar 0x2C" "\<not> isDigitChar 0x22" "\<not> isDigitChar 0x2E" "\<not> isDigitChar 0x3A"
    by (simp_all add: isDigitChar_def)
  have whole_text: "inq (e_bus e) = [] @ decimal (unat link) @ 0x2C # decimal n @ 0x2C # 0x22 #
      decimal (unat a) @ 0x2E # decimal (unat b) @ 0x2E # decimal (unat c) @ 0x2E # decimal (unat d) @
      0x22 # 0x2C # decimal (unat port) @ 0x3A # rest"
    using assms(1) by (simp add: packet_text_def dotted_quad_def ip eval_nat_numeral)
  obtain p1 r1 where 1: "e_parseInt hw (e_bus e) = (of_nat (unat link), p1)" "e_read hw p1 = (uint (0x2C :: u8), r1)"
      "inq r1 = [] @ decimal n @ 0x2C # 0x22 #
      decimal (unat a) @ 0x2E # decimal (unat b) @ 0x2E # decimal (unat c) @ 0x2E # decimal (unat d) @
      0x22 # 0x2C # decimal (unat port) @ 0x3A # rest"
    using parse_field [OF whole_text] nd by auto
  obtain p2 r2 where 2: "e_parseInt hw r1 = (of_nat n, p2)" "e_read hw p2 = (uint (0x2C :: u8), r2)"
      "inq r2 = [0x22] @ decimal (unat a) @ 0x2E # decimal (unat b) @ 0x2E # decimal (unat c) @ 0x2E # decimal (unat d) @
      0x22 # 0x2C # decimal (unat port) @ 0x3A # rest"
    using parse_field [OF 1(3)] nd by auto
  obtain p3 r3 where 3: "e_parseInt hw r2 = (of_nat (unat a), p3)" "e_read hw p3 = (uint (0x2E :: u8), r3)"
      "inq r3 = [] @ decimal (unat b) @ 0x2E # decimal (unat c) @ 0x2E # decimal (unat d) @
      0x22 # 0x2C # decimal (unat port) @ 0x3A # rest"
    using parse_field [OF 2(3)] nd by auto
  obtain p4 r4 where 4: "e_parseInt hw r3 = (of_nat (unat b), p4)" "e_read hw p4 = (uint (0x2E :: u8), r4)"
      "inq r4 = [] @ decimal (unat c) @ 0x2E # decimal (unat d) @ 0x22 # 0x2C # decimal (unat port) @ 0x3A # rest"
    using parse_field [OF 3(3)] nd by auto
  obtain p5 r5 where 5: "e_parseInt hw r4 = (of_nat (unat c), p5)" "e_read hw p5 = (uint (0x2E :: u8), r5)"
      "inq r5 = [] @ decimal (unat d) @ 0x22 # 0x2C # decimal (unat port) @ 0x3A # rest"
    using parse_field [OF 4(3)] nd by auto
  obtain p6 r6 where 6: "e_parseInt hw r5 = (of_nat (unat d), p6)" "e_read hw p6 = (uint (0x22 :: u8), r6)"
      "inq r6 = 0x2C # decimal (unat port) @ 0x3A # rest"
    using parse_field [OF 5(3)] nd by auto
  obtain r7 where 7: "e_read hw r6 = (uint (0x2C :: u8), r7)" "inq r7 = [] @ decimal (unat port) @ 0x3A # rest"
    using read_byte [OF 6(3)] by auto
  obtain p8 r8 where 8: "e_parseInt hw r7 = (of_nat (unat port), p8)" "e_read hw p8 = (uint (0x3A :: u8), r8)"
      "inq r8 = rest"
    using parse_field [OF 7(2)] nd by auto
  have narrow: "ucast (ucast (x :: u8) :: u32) = x" "ucast (ucast (y :: u16) :: u32) = y" for x y
    by (intro bit_word_eqI; auto simp: bit_simps)+
  show ?thesis using 1(1, 2) 2(1, 2) 3(1, 2) 4(1, 2) 5(1, 2) 6(1, 2) 7(1) 8 narrow
    by (intro exI [of _ r8]) (simp add: packetHeader_def espParseInt_def espRead_def Let_def ip old)
qed

lemma header_found:
  assumes "inq (e_bus e) = pre @ ascii ''+IPD,'' @ packet_text link n ip port @ rest"
    and "\<forall>i < length pre. \<not> prefix (ascii ''+IPD,'') (drop i (inq (e_bus e)))"
    and "bufPos e = 0" "length (esp_remoteIp e) = 4" "length ip = 4"
  shows "\<exists>h. availData hw link e = (of_nat n,
      e\<lparr>connId := link, bufPos := of_nat n, esp_remoteIp := ip, esp_remotePort := port, e_bus := h\<rparr>) \<and> inq h = rest"
proof -
  obtain h1 where h1: "e_find hw (ascii ''+IPD,'') (e_bus e) = (True, h1)" "inq h1 = packet_text link n ip port @ rest"
    using find_text [OF assms(1, 2)] by blast
  obtain h2 where h2: "packetHeader hw (e\<lparr>e_bus := h1\<rparr>) =
      e\<lparr>connId := link, bufPos := of_nat n, esp_remoteIp := ip, esp_remotePort := port, e_bus := h2\<rparr>" "inq h2 = rest"
    using header_read [of "e\<lparr>e_bus := h1\<rparr>" link n ip port rest] h1(2) assms(4, 5) by auto
  have "inq (e_bus e) \<noteq> []" using assms(1) by (simp add: ascii_def)
  moreover have "(ucast (of_nat n :: u32) :: u16) = of_nat n"
    by (rule bit_word_eqI) (auto simp: bit_simps)
  ultimately show ?thesis using h1(1) h2 assms(3)
    by (intro exI [of _ h2]) (simp add: availData_def available_step espFind_def Let_def)
qed

text \<open>The bytes of the packet, and the end of the connection behind them.\<close>

lemma reads_until_closed:
  assumes "data \<noteq> []" "length data < 65536" and "inq (e_bus e) = data @ bs @ rest"
    and "bufPos e = of_nat (length data)" "connId e = c_sock c" "c_sock c < 4" and "ring_good (e_ring e)"
    and "bs = (0x30 + c_sock c) # ascii '',CLOSED'' @ crlf"
    and "first_tag (Some (ascii '',CLOSED'' @ crlf)) False (left_over (e_ring e)) bs NUMESPTAGS"
  shows "\<exists>r h. wclient_reads hw (length data) c e = Some (map uint data, c\<lparr>c_sock := 255\<rparr>,
      e\<lparr>e_ring := r, bufPos := 0, sockState := (sockState e)[unat (c_sock c) := NA_STATE], e_bus := h\<rparr>) \<and>
    inq h = rest"
  using assms
proof (induction data arbitrary: e)
  case (Cons d ds)
  have u: "unat (of_nat (length (d # ds)) :: u32) = length (d # ds)"
    using Cons.prems(2) by (intro unat_of_nat_small) simp
  have sock: "c_sock c < 5" "c_sock c \<noteq> 255" "unat (c_sock c) < WIFI_SOCK_NUM"
    using Cons.prems(6) by (auto simp: word_less_nat_alt)
  have avail: "wclient_available hw c e = (of_nat (length (d # ds)), e)" "(of_nat (length (d # ds)) :: u16) \<noteq> 0"
    using announced [of e "length (d # ds)" c] Cons.prems sock by auto
  show ?case
  proof (cases "ds = []")
    case True
    have inq: "inq (e_bus e) = d # bs @ rest" and one: "bufPos e = 1"
      using Cons.prems(3, 4) True by simp_all
    obtain h where h: "getData hw (c_sock c) (e_stack hw 1 ! 0) False False e = Some (True, d, True,
        e\<lparr>e_ring := fold ring_push bs (ring_reset (e_ring e)), bufPos := 0, e_bus := h\<rparr>)" "inq h = rest"
      using getData_last [OF inq Cons.prems(5) [symmetric] one sock(1) Cons.prems(7 - 9),
          where old = "e_stack hw 1 ! 0" and close = False] by blast
    then show ?thesis using avail True sock
      by (intro exI [of _ "fold ring_push bs (ring_reset (e_ring e))"] exI [of _ h])
        (simp add: wclient_read_def wclient_byte_def releaseSocket_def del: of_nat_Suc)
  next
    case False
    then have "length (d # ds) \<noteq> 1" by simp
    then have ne: "bufPos e \<noteq> 1" using u Cons.prems(4) by (metis unat_1)
    obtain h where h: "getData hw (c_sock c) (e_stack hw 1 ! 0) False False e =
        Some (True, d, False, e\<lparr>bufPos := bufPos e - 1, e_bus := h\<rparr>)" "inq h = ds @ bs @ rest"
      using getData_next [where ds = "ds @ bs @ rest", OF _ Cons.prems(5) [symmetric] ne,
          where old = "e_stack hw 1 ! 0" and close = False] Cons.prems(3) by auto
    let ?e = "e\<lparr>bufPos := bufPos e - 1, e_bus := h\<rparr>"
    have "\<exists>r h'. wclient_reads hw (length ds) c ?e = Some (map uint ds, c\<lparr>c_sock := 255\<rparr>,
      ?e\<lparr>e_ring := r, bufPos := 0, sockState := (sockState ?e)[unat (c_sock c) := NA_STATE], e_bus := h'\<rparr>) \<and> inq h' = rest"
      by (rule Cons.IH [OF False]) (use Cons.prems(2 - 7, 9) h(2) in \<open>simp_all add: Cons.prems(8)\<close>)
    then obtain r h' where "wclient_reads hw (length ds) c ?e = Some (map uint ds, c\<lparr>c_sock := 255\<rparr>,
      e\<lparr>e_ring := r, bufPos := 0, sockState := (sockState e)[unat (c_sock c) := NA_STATE], e_bus := h'\<rparr>)" "inq h' = rest"
      by auto
    then show ?thesis using avail h(1)
      by (intro exI [of _ r] exI [of _ h']) (simp add: wclient_read_def wclient_byte_def del: of_nat_Suc)
  qed
qed simp

end

end
