(* ===== verification/WifiProps.thy ===== *)
theory WifiProps
  imports WifiLink
begin

text \<open>
  The WiFi driver and its classes over a modem with any behaviour: an interpretation of the locales
  of \<open>WifiLink\<close>, and the properties.
\<close>

section \<open>A modem with any behaviour\<close>

text \<open>\<open>m_react\<close> says what the modem sends after these pieces have been written to it.\<close>

record wmodem =
  m_in :: "u8 list"
  m_clock :: nat
  m_sent :: "u8 list list"
  m_react :: "u8 list list \<Rightarrow> u8 list"

definition modem_write :: "u8 list \<Rightarrow> wmodem \<Rightarrow> wmodem" where
  "modem_write bs h =
     (let log = m_sent h @ [bs] in h\<lparr>m_in := m_in h @ m_react h log, m_sent := log\<rparr>)"

fun findText :: "u8 list \<Rightarrow> u8 list \<Rightarrow> bool \<times> u8 list" where
  "findText t [] = (t = [], [])"
| "findText t (c # cs) = (if prefix t (c # cs) then (True, drop (length t) (c # cs)) else findText t cs)"

definition modem_parseInt :: "wmodem \<Rightarrow> u32 \<times> wmodem" where
  "modem_parseInt h =
     (let s = dropWhile (\<lambda>c. \<not> isDigitChar c \<and> c \<noteq> 0x2D) (m_in h);
          neg = (s \<noteq> [] \<and> hd s = 0x2D);
          s = (if neg then tl s else s);
          n = of_nat (digit_value (takeWhile isDigitChar s))
      in (if neg then - n else n, h\<lparr>m_in := dropWhile isDigitChar s\<rparr>))"

definition modem_hw :: "(u8 list \<Rightarrow> u8 list \<Rightarrow> u8 list) \<Rightarrow> (nat \<Rightarrow> u8 list) \<Rightarrow> wmodem esp_hw" where
  "modem_hw fromString stack = \<lparr>
     e_millis = (\<lambda>h. (of_nat (m_clock h), h\<lparr>m_clock := Suc (m_clock h)\<rparr>)),
     e_delay = (\<lambda>ms h. h\<lparr>m_clock := m_clock h + unat ms\<rparr>),
     e_available = (\<lambda>h. (int (length (m_in h)), h)),
     e_read = (\<lambda>h. case m_in h of [] \<Rightarrow> (- 1, h) | c # cs \<Rightarrow> (uint c, h\<lparr>m_in := cs\<rparr>)),
     e_peek = (\<lambda>h. (case m_in h of [] \<Rightarrow> - 1 | c # cs \<Rightarrow> uint c, h)),
     e_write = modem_write,
     e_println = (\<lambda>bs. modem_write (bs @ crlf)),
     e_find = (\<lambda>t h. case findText t (m_in h) of (found, rest) \<Rightarrow> (found, h\<lparr>m_in := rest\<rparr>)),
     e_parseInt = modem_parseInt,
     e_ipFromString = fromString,
     e_stack = stack \<rparr>"

lemma findText_here: "prefix t s \<Longrightarrow> findText t s = (True, drop (length t) s)"
  by (cases s) auto

lemma findText_first:
  assumes "\<forall>i < length pre. \<not> prefix t (drop i (pre @ t @ rest))"
  shows "findText t (pre @ t @ rest) = (True, rest)"
  using assms
proof (induction pre)
  case Nil
  show ?case using findText_here [of t "t @ rest"] by simp
next
  case (Cons c pre)
  have "\<not> prefix t (c # pre @ t @ rest)" using Cons.prems by (metis append_Cons drop_0 length_greater_0_conv list.distinct(1))
  moreover have "\<forall>i < length pre. \<not> prefix t (drop i (pre @ t @ rest))"
    using Cons.prems by (metis Suc_less_eq append_Cons drop_Suc_Cons length_Cons)
  ultimately show ?case using Cons.IH by simp
qed

lemma parseInt_digits:
  assumes "m_in h = junk @ ds @ c # rest" and "\<forall>x \<in> set junk. \<not> isDigitChar x \<and> x \<noteq> 0x2D"
    and "ds \<noteq> []" "list_all isDigitChar ds" "\<not> isDigitChar c"
  shows "modem_parseInt h = (of_nat (digit_value ds), h\<lparr>m_in := c # rest\<rparr>)"
proof -
  have hd: "isDigitChar (hd ds)" using assms(3, 4) by (cases ds) auto
  have "dropWhile (\<lambda>c. \<not> isDigitChar c \<and> c \<noteq> 0x2D) (m_in h) = dropWhile (\<lambda>c. \<not> isDigitChar c \<and> c \<noteq> 0x2D) (ds @ c # rest)"
    unfolding assms(1) using assms(2) by (intro dropWhile_append2) auto
  also have "\<dots> = ds @ c # rest" using hd assms(3) by (cases ds) auto
  finally have s: "dropWhile (\<lambda>c. \<not> isDigitChar c \<and> c \<noteq> 0x2D) (m_in h) = ds @ c # rest" .
  have neg: "hd (ds @ c # rest) \<noteq> 0x2D" using hd assms(3) by (cases ds) (auto simp: isDigitChar_def)
  have "takeWhile isDigitChar (ds @ c # rest) = ds" "dropWhile isDigitChar (ds @ c # rest) = c # rest"
    using assms(4, 5) by (simp_all add: takeWhile_append2 dropWhile_append2 list_all_iff)
  then show ?thesis using s neg by (simp add: modem_parseInt_def Let_def)
qed

interpretation wm: modem_parser "modem_hw fromString stack" m_in m_clock m_sent m_react
proof unfold_locales
  fix h :: wmodem and pre t rest
  assume "m_in h = pre @ t @ rest" "\<forall>i < length pre. \<not> prefix t (drop i (m_in h))"
  then show "\<exists>h'. e_find (modem_hw fromString stack) t h = (True, h') \<and> m_in h' = rest"
    using findText_first [of pre t rest] by (simp add: modem_hw_def)
next
  fix h :: wmodem and junk ds c rest
  assume "m_in h = junk @ ds @ c # rest" "\<forall>x \<in> set junk. \<not> isDigitChar x \<and> x \<noteq> 0x2D" "ds \<noteq> []"
    "list_all isDigitChar ds" "\<not> isDigitChar c"
  then show "\<exists>h'. e_parseInt (modem_hw fromString stack) h = (of_nat (digit_value ds), h') \<and> m_in h' = c # rest"
    using parseInt_digits [of h junk ds c rest] by (simp add: modem_hw_def)
qed (auto simp: modem_hw_def modem_write_def Let_def)

section \<open>The driver leaves the table of sockets alone\<close>

lemma access_keeps [simp]:
  "sockState (snd (espMillis hw e)) = sockState e" "sockState (snd (espAvailable hw e)) = sockState e"
  "sockState (snd (espRead hw e)) = sockState e" "sockState (espDelay hw ms e) = sockState e"
  "sockState (espPrintln hw bs e) = sockState e"
  by (simp_all add: espMillis_def espAvailable_def espRead_def espDelay_def espPrintln_def split: prod.split)

lemma access_keeps':
  "espMillis hw e = (n, e') \<Longrightarrow> sockState e' = sockState e"
  "espAvailable hw e = (k, e') \<Longrightarrow> sockState e' = sockState e"
  "espRead hw e = (k, e') \<Longrightarrow> sockState e' = sockState e"
  by (metis access_keeps(1) snd_conv, metis access_keeps(2) snd_conv, metis access_keeps(3) snd_conv)

lemma untilLoop_keeps:
  "untilLoop hw timeout start tag ft ret e = Some (k, e') \<Longrightarrow> sockState e' = sockState e"
proof (drule untilLoop.raw_induct [where P = "\<lambda>hw timeout start tag ft ret e r. sockState (snd r) = sockState e", rotated])
  fix loop hw timeout start tag ft ret e r
  assume IH: "\<And>hw timeout start tag ft ret e y. loop hw timeout start tag ft ret e = Some y \<Longrightarrow>
      sockState (snd y) = sockState e"
    and r: "(case espMillis hw e of (now, e) \<Rightarrow>
        if \<not> (now - start < timeout \<and> ret < 0) then Some (ret, e)
        else case espAvailable hw e of (n, e) \<Rightarrow>
          if n = 0 then loop hw timeout start tag ft ret e
          else case espRead hw e of (c, e) \<Rightarrow>
            Option.bind (tagFound tag ft (ring_push (word_of_int c) (e_ring e))) (\<lambda>ret.
              loop hw timeout start tag ft ret (e\<lparr>e_ring := ring_push (word_of_int c) (e_ring e)\<rparr>))) = Some r"
  show "sockState (snd r) = sockState e"
    using r by (auto split: prod.splits if_splits Option.bind_splits dest!: IH access_keeps')
qed simp

lemma readUntil_keeps: "readUntil hw timeout tag ft e = Some (k, e') \<Longrightarrow> sockState e' = sockState e"
  unfolding readUntil_def Let_def
  by (auto split: Option.bind_splits prod.splits dest!: untilLoop_keeps access_keeps')

lemma espEmptyBuf_keeps: "espEmptyBuf hw e = Some e' \<Longrightarrow> sockState e' = sockState e"
proof (drule espEmptyBuf.raw_induct [where P = "\<lambda>hw e r. sockState r = sockState e", rotated])
  fix loop hw e r
  assume IH: "\<And>hw e y. loop hw e = Some y \<Longrightarrow> sockState y = sockState e"
    and r: "(case espAvailable hw e of (n, e) \<Rightarrow>
        if n > 0 then (case espRead hw e of (c, e) \<Rightarrow> loop hw e) else Some e) = Some r"
  show "sockState r = sockState e"
    using r by (auto split: prod.splits if_splits dest!: IH access_keeps')
qed simp

lemma sendCmd_keeps:
  "sendCmd hw cmd timeout e = Some (k, e') \<Longrightarrow> sockState e' = sockState e"
  "sendCmdArgs hw cmd timeout e = Some (k, e') \<Longrightarrow> sockState e' = sockState e"
  by (auto simp: sendCmd_def sendCmdArgs_def Let_def split: Option.bind_splits
      dest!: readUntil_keeps espEmptyBuf_keeps)

lemma startClient_keeps:
  "startClient hw host port sock m e = Some (ok, e') \<Longrightarrow> sockState e' = sockState e"
  by (auto simp: startClient_def Let_def split: Option.bind_splits tProtMode.splits dest!: sendCmd_keeps)

lemma freeSocketLoop_spec:
  assumes "n \<le> 4" and "i < n" "st ! i = NA_STATE" "\<forall>j. i < j \<and> j < n \<longrightarrow> st ! j \<noteq> NA_STATE"
  shows "freeSocketLoop st n = of_nat i"
  using assms
proof (induction n)
  case (Suc n)
  then show ?case by (cases "i = n") auto
qed simp

lemma freeSocketLoop_none: "\<forall>j < n. st ! j \<noteq> NA_STATE \<Longrightarrow> freeSocketLoop st n = SOCK_NOT_AVAIL"
  by (induction n) auto

section \<open>Properties\<close>

text \<open>
  C24. A client takes the last free socket, and none when there is none.  When the connection fails
  the table of sockets is unchanged, but the client keeps the number of the socket and counts as
  connected.
\<close>

theorem connect_takes_last_free_socket:
  assumes "wclient_connect hw host port m c e = Some (ok, c', e')"
  shows "((\<forall>j < 4. sockState e ! j \<noteq> NA_STATE) \<longrightarrow> \<not> ok \<and> \<not> wclient_bool c' \<and> e' = e) \<and>
    (\<forall>i < 4. sockState e ! i = NA_STATE \<and> (\<forall>j. i < j \<and> j < 4 \<longrightarrow> sockState e ! j \<noteq> NA_STATE) \<longrightarrow>
      c_sock c' = of_nat i \<and> wclient_bool c' \<and>
      sockState e' = (if ok then (sockState e)[i := of_nat i] else sockState e))"
proof (intro conjI impI allI)
  assume "\<forall>j < 4. sockState e ! j \<noteq> NA_STATE"
  then have "getFreeSocket e = SOCK_NOT_AVAIL" by (simp add: getFreeSocket_def freeSocketLoop_none)
  then show "\<not> ok" "\<not> wclient_bool c'" "e' = e" using assms
    by (auto simp: wclient_connect_def wclient_bool_def Let_def)
next
  fix i :: nat
  assume i: "i < 4" "sockState e ! i = NA_STATE \<and> (\<forall>j. i < j \<and> j < 4 \<longrightarrow> sockState e ! j \<noteq> NA_STATE)"
  then have free: "getFreeSocket e = of_nat i" by (simp add: getFreeSocket_def freeSocketLoop_spec)
  have u: "unat (of_nat i :: u8) = i" using i(1) by (simp add: unat_of_nat_small)
  then have ne: "(of_nat i :: u8) \<noteq> 255" using i(1) by (auto simp: word_unat_eq_iff)
  have "(ucast (of_nat i :: u8) :: u16) = of_nat i" by (metis u of_nat_unat)
  then show "c_sock c' = of_nat i" "wclient_bool c'"
    "sockState e' = (if ok then (sockState e)[i := of_nat i] else sockState e)"
    using assms free ne u i(1)
    by (auto simp: wclient_connect_def wclient_bool_def allocateSocket_def Let_def split: Option.bind_splits if_splits
        dest!: startClient_keeps)
qed

definition demo_esp :: "(u8 list list \<Rightarrow> u8 list) \<Rightarrow> wmodem esp" where
  "demo_esp react = esp_new \<lparr> m_in = [], m_clock = 0, m_sent = [], m_react = react \<rparr>"

abbreviation demo_modem :: "wmodem esp_hw" where
  "demo_modem \<equiv> modem_hw (\<lambda>s a. a) (\<lambda>n. replicate n 0)"

lemma demo_esp_fields:
  "ring_good (e_ring (demo_esp react))" "sockState (demo_esp react) = [- 1, - 1, - 1, - 1]"
  "bufPos (demo_esp react) = 0" "length (esp_remoteIp (demo_esp react)) = 4" "ssid (demo_esp react) = replicate 32 0"
  "e_bus (demo_esp react) = \<lparr> m_in = [], m_clock = 0, m_sent = [], m_react = react \<rparr>"
  using good_init [of "\<lparr>rb_size = 32, ringBuf = [], ringBufP = 0\<rparr>"]
  by (simp_all add: demo_esp_def esp_new_def ring_new_def eval_nat_numeral)

theorem connect_takes_last_free_socket_witness:
  "\<exists>ok c' e'. wclient_connect demo_modem (ascii ''host'') 80 TCP_MODE wclient_new (demo_esp (\<lambda>_. [])) = Some (ok, c', e') \<and>
     c_sock c' = 3 \<and> wclient_bool c'"
proof -
  let ?e = "demo_esp (\<lambda>_. [])"
  have free: "getFreeSocket ?e = 3" by (simp add: getFreeSocket_def demo_esp_fields eval_nat_numeral)
  obtain k r h where k: "sendCmdArgs demo_modem (ascii ''AT+CIPSTART='' @ decimal (unat (3 :: u8)) @ ascii '','' @
      quoted (ascii ''TCP'') @ ascii '','' @ quoted (ascii ''host'') @ ascii '','' @ decimal (unat (80 :: u16))) 5000 ?e =
      Some (k, ?e\<lparr>e_ring := r, e_bus := h\<rparr>)"
    using wm.args_returns [of ?e 5000] demo_esp_fields(1) by fastforce
  then have "startClient demo_modem (ascii ''host'') 80 3 TCP_MODE ?e = Some (k = TAG_OK, ?e\<lparr>e_ring := r, e_bus := h\<rparr>)"
    by (simp add: startClient_def)
  then obtain ok c' e' where c: "wclient_connect demo_modem (ascii ''host'') 80 TCP_MODE wclient_new ?e = Some (ok, c', e')"
    using free by (cases "k = TAG_OK") (auto simp: wclient_connect_def allocateSocket_def)
  have "c_sock c' = of_nat 3 \<and> wclient_bool c'"
    using connect_takes_last_free_socket [OF c] by (auto simp: demo_esp_fields eval_nat_numeral)
  then show ?thesis using c by auto
qed

text \<open>
  C23. The name that the modem reports becomes the SSID, written over the name before: a shorter name
  leaves the rest of a longer one behind it, and only a buffer with zeros there ends the string.
\<close>

theorem SSID_is_reported_over_old:
  assumes "ring_good (e_ring e)" and "length (ssid e) = 32"
    and "m_react (e_bus e) (m_sent (e_bus e) @ [ascii ''AT+CWJAP?'' @ crlf]) =
      pre @ ascii ''+CWJAP:'' @ 0x22 # name @ 0x22 # rest"
    and "length pre < 900" "set pre \<inter> {0x22, 0x0A} = {}"
    and "name \<noteq> []" "length name \<le> 30" "set name \<inter> {0, 0x22, 0x0A} = {}"
  shows "\<exists>r h. wifi_SSID (modem_hw fromString stack) e =
    Some (name @ drop (length name) (ssid e),
      e\<lparr>e_ring := r, ssid := name @ drop (length name) (ssid e), e_bus := h\<rparr>)"
proof -
  let ?start = "ascii ''+CWJAP:'' @ [0x22]" and ?cmd = "ascii ''AT+CWJAP?''"
  have start: "first_tag (Some ?start) True xs (pre @ ?start) NUMESPTAGS" for xs
    by (rule first_by_last [OF refl]) (use assms(5) in \<open>auto simp: ascii_def\<close>)
  have stop: "first_tag (Some [0x22]) True xs (name @ [0x22]) NUMESPTAGS" for xs
    by (rule first_by_last [OF refl]) (use assms(8) in auto)
  have answer: "m_react (e_bus e) (m_sent (e_bus e) @ [?cmd @ crlf]) = (pre @ ?start) @ name @ [0x22] @ rest"
    using assms(3) by simp
  have zero: "0 \<notin> set name" using assms(8) by auto
  obtain r h where rh: "sendCmdGet (modem_hw fromString stack) ?cmd ?start [0x22] ((ssid e)[0 := 0]) e =
      Some (True, splice ((ssid e)[0 := 0, 0 := 0]) 0 name, e\<lparr>e_ring := r, e_bus := h\<rparr>)"
    using wm.sendCmdGet_between [OF assms(1) answer start _ stop _ _ zero, of "(ssid e)[0 := 0]",
        where fromString = fromString and stack = stack] assms(2, 4, 7)
    by (auto simp: ascii_def)
  have over: "splice ((ssid e)[0 := 0, 0 := 0]) 0 name = name @ drop (length name) (ssid e)"
    using assms(6) by (cases name; cases "ssid e") (simp_all add: splice_def)
  show ?thesis using rh unfolding over
    by (intro exI [of _ r] exI [of _ h]) (simp add: wifi_SSID_def getCurrentSSID_def)
qed

theorem SSID_is_reported_over_old_witness:
  "\<exists>r h. wifi_SSID demo_modem ((demo_esp (\<lambda>_. ascii ''+CWJAP:'' @ 0x22 # ascii ''net'' @ 0x22 # crlf))
       \<lparr>ssid := ascii ''mynetwork'' @ replicate 23 0\<rparr>) =
    Some (ascii ''netetwork'' @ replicate 23 0, (demo_esp (\<lambda>_. ascii ''+CWJAP:'' @ 0x22 # ascii ''net'' @ 0x22 # crlf))
       \<lparr>ssid := ascii ''mynetwork'' @ replicate 23 0, e_ring := r, ssid := ascii ''netetwork'' @ replicate 23 0, e_bus := h\<rparr>)"
proof -
  let ?e = "(demo_esp (\<lambda>_. ascii ''+CWJAP:'' @ 0x22 # ascii ''net'' @ 0x22 # crlf))
    \<lparr>ssid := ascii ''mynetwork'' @ replicate 23 0\<rparr>"
  have "\<exists>r h. wifi_SSID demo_modem ?e = Some (ascii ''net'' @ drop (length (ascii ''net'')) (ssid ?e),
      ?e\<lparr>e_ring := r, ssid := ascii ''net'' @ drop (length (ascii ''net'')) (ssid ?e), e_bus := h\<rparr>)"
    by (rule SSID_is_reported_over_old [where pre = "[]" and rest = crlf])
      (simp_all add: demo_esp_fields, simp_all add: ascii_def)
  then show ?thesis by (simp add: ascii_def)
qed

text \<open>
  C22. What a client writes reaches the modem: when it prompts after the command, which names the
  socket and the length, and confirms the data, the data follow the command and the size is
  returned.
\<close>

theorem client_write_delivers:
  assumes "ring_good (e_ring e)" and "c_sock c < 4" and "0 < length buf" "length buf < 65536"
    and "cmd = ascii ''AT+CIPSEND='' @ decimal (unat (c_sock c)) @ ascii '','' @ decimal (length buf)"
    and "m_in (e_bus e) @ m_react (e_bus e) (m_sent (e_bus e) @ [cmd @ crlf]) = ps @ 0x3E # rest"
    and "0x3E \<notin> set ps" "length ps < 900"
    and "rest @ m_react (e_bus e) (m_sent (e_bus e) @ [cmd @ crlf, buf]) = qs"
    and "unmistakable qs" "suffix (ESPTAGS ! 3) qs" "length qs < 2000"
  shows "\<exists>r h. wclient_write (modem_hw fromString stack) buf c e =
      Some (length buf, c, e\<lparr>e_ring := r, e_bus := h\<rparr>) \<and>
    m_in h = [] \<and> m_sent h = m_sent (e_bus e) @ [cmd @ crlf, buf]"
proof -
  have n: "unat (of_nat (length buf) :: u16) = length buf" using assms(4) by (simp add: unat_of_nat_small)
  have sock: "unat (c_sock c) < 4" using assms(2) by (simp add: word_less_nat_alt)
  have "length (decimal (unat (c_sock c))) \<le> 1" "length (decimal (length buf)) \<le> 5"
    using sock assms(4) by (intro length_decimal; simp)+
  then have fits: "sprintf_buf 20 cmd = Some cmd" by (simp add: sprintf_buf_def assms(5) ascii_def)
  have prompt: "first_tag (Some (ascii ''>'')) False xs (ps @ [0x3E]) NUMESPTAGS" for xs
    by (rule first_by_last [where pre = ps]) (use assms(7) in \<open>auto simp: ascii_def\<close>)
  have "\<exists>r h. sendPrompted (modem_hw fromString stack) cmd (espWrite (modem_hw fromString stack) buf) e =
      Some (True, e\<lparr>e_ring := r, e_bus := h\<rparr>) \<and> ring_good r \<and> m_in h = [] \<and>
      m_sent h = m_sent (e_bus e) @ [cmd @ crlf, buf]"
    by (rule wm.sendPrompted_sends [OF assms(1) _ prompt _ _ first_confirmation [OF assms(10, 11)], where rest = rest])
      (use assms(6, 8, 9, 12) in auto)
  then obtain r h where "sendData (modem_hw fromString stack) (c_sock c) buf e =
      Some (True, e\<lparr>e_ring := r, e_bus := h\<rparr>)" "m_in h = []" "m_sent h = m_sent (e_bus e) @ [cmd @ crlf, buf]"
    using fits n by (auto simp: sendData_def assms(5))
  then show ?thesis using sock assms(3)
    by (intro exI [of _ r] exI [of _ h]) (auto simp: wclient_write_def wclient_send_def)
qed

definition demo_answers :: "u8 list list \<Rightarrow> u8 list" where
  "demo_answers log = (if length log = 1 then ascii ''OK'' @ [0x3E, 0x20] else crlf @ ascii ''SEND OK'' @ crlf)"

lemma demo_unmistakable: "unmistakable (0x20 # crlf @ ascii ''SEND OK'' @ crlf)"
proof -
  let ?qs = "0x20 # crlf @ ascii ''SEND OK'' @ crlf"
  have apart: "\<not> suffix (ESPTAGS ! k) (take i ?qs) \<and> \<not> suffix (take i ?qs) (ESPTAGS ! k)"
    if "i \<in> {1, 2, 3, 4, 5, 6, 7, 8, 9, 10, 11}" "k \<in> {0, 1, 2, 3, 4}" for i k :: nat
    using that by (elim insertE; simp add: ESPTAGS_def ascii_def crlf_def suffix_to_prefix)
  show ?thesis unfolding unmistakable_def
  proof (intro allI impI)
    fix i k :: nat
    assume "i < length ?qs" "0 < i" "k < 5"
    then have "i < 12" by (simp add: crlf_def ascii_def)
    then have "i \<in> set [1..<12]" "k \<in> set [0..<5]" using \<open>0 < i\<close> \<open>k < 5\<close> by simp_all
    then have "i \<in> {1, 2, 3, 4, 5, 6, 7, 8, 9, 10, 11}" "k \<in> {0, 1, 2, 3, 4}"
      by (simp_all add: upt_rec eval_nat_numeral)
    then show "\<not> suffix (ESPTAGS ! k) (take i ?qs) \<and> \<not> suffix (take i ?qs) (ESPTAGS ! k)" by (rule apart)
  qed
qed

theorem client_write_delivers_witness:
  "\<exists>r h. wclient_write demo_modem [1, 2, 3] (wclient_of 3) (demo_esp demo_answers) =
      Some (length [1, 2, 3 :: u8], wclient_of 3, (demo_esp demo_answers)\<lparr>e_ring := r, e_bus := h\<rparr>) \<and>
    m_in h = [] \<and> m_sent h = m_sent (e_bus (demo_esp demo_answers)) @ [ascii ''AT+CIPSEND=3,3'' @ crlf, [1, 2, 3]]"
proof (rule client_write_delivers [where ps = "ascii ''OK''" and rest = "[0x20]"
      and qs = "0x20 # crlf @ ascii ''SEND OK'' @ crlf"])
  show "ascii ''AT+CIPSEND=3,3'' = ascii ''AT+CIPSEND='' @ decimal (unat (c_sock (wclient_of 3))) @ ascii '','' @
      decimal (length [1, 2, 3 :: u8])"
    by (simp add: ascii_def wclient_of_def decimal.simps)
  show "unmistakable (0x20 # crlf @ ascii ''SEND OK'' @ crlf)" by (rule demo_unmistakable)
qed (simp_all add: demo_esp_fields demo_answers_def wclient_of_def ascii_def ESPTAGS_def crlf_def suffix_to_prefix)

text \<open>
  C12. What the modem announces for a client is read byte by byte, behind anything else in the stream,
  and with the last byte the report that the connection is closed is taken too: the client
  is closed and its socket is free.
\<close>

theorem client_reads_until_closed:
  assumes "m_in (e_bus e) = pre @ ascii ''+IPD,'' @ packet_text (c_sock c) (length data) ip port @ data @
      (0x30 + c_sock c) # ascii '',CLOSED'' @ crlf @ rest"
    and "\<forall>i < length pre. \<not> prefix (ascii ''+IPD,'') (drop i (m_in (e_bus e)))"
    and "ring_good (e_ring e)" "bufPos e = 0" "length (esp_remoteIp e) = 4" "length ip = 4"
    and "c_sock c < 4" "data \<noteq> []" "length data < 65536"
  shows "\<exists>e1 e2. wclient_available (modem_hw fromString stack) c e = (of_nat (length data), e1) \<and>
    wclient_reads (modem_hw fromString stack) (length data) c e1 = Some (map uint data, c\<lparr>c_sock := 255\<rparr>, e2) \<and>
    m_in (e_bus e2) = rest \<and> sockState e2 = (sockState e)[unat (c_sock c) := NA_STATE] \<and>
    wclient_remoteIP e2 = ip"
proof -
  let ?bs = "(0x30 + c_sock c) # ascii '',CLOSED'' @ crlf"
  have stream: "m_in (e_bus e) = pre @ ascii ''+IPD,'' @ packet_text (c_sock c) (length data) ip port @ (data @ ?bs @ rest)"
    using assms(1) by simp
  have sock: "c_sock c \<noteq> 255" using assms(7) by auto
  obtain h where h: "availData (modem_hw fromString stack) (c_sock c) e = (of_nat (length data),
      e\<lparr>connId := c_sock c, bufPos := of_nat (length data), esp_remoteIp := ip, esp_remotePort := port, e_bus := h\<rparr>)"
      "m_in h = data @ ?bs @ rest"
    using wm.header_found [OF stream assms(2, 4, 5, 6)] by blast
  let ?e1 = "e\<lparr>connId := c_sock c, bufPos := of_nat (length data), esp_remoteIp := ip, esp_remotePort := port, e_bus := h\<rparr>"
  have closed: "first_tag (Some (ascii '',CLOSED'' @ crlf)) False xs ?bs NUMESPTAGS" for xs
  proof (rule first_by_last [where pre = "[0x30 + c_sock c]"])
    have "0x30 + c_sock c \<noteq> 0x0A" using assms(7) by (auto simp: word_less_nat_alt word_unat_eq_iff unat_word_ariths)
    then show "last (ascii '',CLOSED'' @ crlf) \<notin> set [0x30 + c_sock c]" by (simp add: ascii_def crlf_def)
  qed (auto simp: ascii_def crlf_def)
  have "\<exists>r h'. wclient_reads (modem_hw fromString stack) (length data) c ?e1 = Some (map uint data, c\<lparr>c_sock := 255\<rparr>,
      ?e1\<lparr>e_ring := r, bufPos := 0, sockState := (sockState ?e1)[unat (c_sock c) := NA_STATE], e_bus := h'\<rparr>) \<and>
      m_in h' = rest"
    by (rule wm.reads_until_closed [OF assms(8, 9) _ _ _ assms(7) _ refl closed]) (use assms(3) h(2) in auto)
  then show ?thesis using h(1) sock
    by (auto simp: wclient_available_def wclient_remoteIP_def getRemoteIpAddress_def)
qed

theorem client_reads_until_closed_witness:
  "\<exists>e1 e2. wclient_available demo_modem (wclient_of 3)
      ((demo_esp (\<lambda>_. []))\<lparr>e_bus := \<lparr> m_in = ascii ''xx+IPD,3,2,'' @ 0x22 # ascii ''10.0.0.7'' @ 0x22 #
         ascii '',80:hi3,CLOSED'' @ crlf, m_clock = 0, m_sent = [], m_react = \<lambda>_. [] \<rparr>\<rparr>) = (of_nat (length [0x68, 0x69 :: u8]), e1) \<and>
    wclient_reads demo_modem (length [0x68, 0x69 :: u8]) (wclient_of 3) e1 =
      Some (map uint [0x68, 0x69 :: u8], (wclient_of 3)\<lparr>c_sock := 255\<rparr>, e2) \<and>
    m_in (e_bus e2) = [] \<and> sockState e2 = [- 1, - 1, - 1, - 1] \<and>
    wclient_remoteIP e2 = [10, 0, 0, 7]"
proof -
  let ?in = "ascii ''xx+IPD,3,2,'' @ 0x22 # ascii ''10.0.0.7'' @ 0x22 # ascii '',80:hi3,CLOSED'' @ crlf"
  let ?e = "(demo_esp (\<lambda>_. []))\<lparr>e_bus := \<lparr> m_in = ?in, m_clock = 0, m_sent = [], m_react = \<lambda>_. [] \<rparr>\<rparr>"
  have dec: "decimal 3 = [0x33]" "decimal 2 = [0x32]" "decimal 10 = [0x31, 0x30]" "decimal 0 = [0x30]"
      "decimal 7 = [0x37]" "decimal 80 = [0x38, 0x30]" "decimal (Suc (Suc 0)) = [0x32]"
    by (simp_all add: decimal.simps)
  have stream: "m_in (e_bus ?e) = ascii ''xx'' @ ascii ''+IPD,'' @
      packet_text (c_sock (wclient_of 3)) (length [0x68, 0x69 :: u8]) [10, 0, 0, 7] 80 @ [0x68, 0x69] @
      (0x30 + c_sock (wclient_of 3)) # ascii '',CLOSED'' @ crlf @ []"
    by (simp add: wclient_of_def packet_text_def dotted_quad_def dec ascii_def)
  have noise: "\<forall>i < length (ascii ''xx''). \<not> prefix (ascii ''+IPD,'') (drop i (m_in (e_bus ?e)))"
    by (auto simp: ascii_def less_Suc_eq)
  show ?thesis
    using client_reads_until_closed [OF stream noise, where fromString = "\<lambda>s a. a" and stack = "\<lambda>n. replicate n 0"]
    by (simp add: demo_esp_fields wclient_of_def)
qed

end
