(* ===== verification/Spec2Isabelle.thy ===== *)
theory Spec2Isabelle
  imports Eeprom DnsServer RingBuffer MqttProps TruncateProps SyncProps VolumeProps TableProps DriverProps NameProps EthProps DhcpReply Sha1Props ZerooneProps WifiProps
begin

text \<open>
  A verification development for parts of this collection of Arduino libraries: the
  storage stack, which is the SD library (src/SD), the FAT file system and the card driver
  below it, and the SPI transfers of the ESP8266 (src/SPI) below the driver; the MQTT client
  (src/Adafruit_MQTT_Library); the Ethernet library (src/Ethernet), from the driver of its chip
  to the DHCP client; the EEPROM emulation (src/EEPROM); the name server of a captive
  portal (src/DNSServer); SHA-1 (src/Hash); the motor controller library
  (src/ZerooneSupermodified_T3X_Wire); and the library for a WiFi modem (src/WiFiEsp).

  \<^bold>\<open>The program.\<close>  A sketch calls \<open>SDClass\<close> and \<open>File\<close> (SD.cpp, File.cpp).  These walk
  a path and work on \<open>SdFile\<close> objects (utility/SdFile.cpp): a file or directory with its
  position, the cluster at the position, its size and the place of its directory entry.  An
  \<open>SdFile\<close> reads and writes blocks through \<open>SdVolume\<close> (utility/SdVolume.cpp), which keeps one
  block in a cache with a dirty flag, knows the layout of the volume, follows and
  changes the cluster chains of the file allocation table, and mirrors the table.
  \<open>SdVolume\<close> calls \<open>Sd2Card\<close> (utility/Sd2Card.cpp), the driver that talks the SPI protocol of
  an SD card, byte by byte, through \<open>SPIClass\<close> (SPI.cpp).  The card itself is hardware and
  is a parameter.

  The MQTT client (Adafruit_MQTT.cpp) keeps one packet buffer, the table of the
  subscriptions and a packet id counter; its subclass \<open>Adafruit_MQTT_Client\<close>
  (Adafruit_MQTT_Client.cpp) sends and receives the bytes through an Arduino \<open>Client\<close>, which
  is a parameter, as are the clock and the user's callbacks.

  The Ethernet library drives a W5100 chip over SPI (utility/w5100.cpp): registers and the
  circular buffers of four sockets live in the chip, the driver moves bytes and pointers and
  issues commands.  utility/socket.cpp makes sockets of it; \<open>EthernetUDP\<close>, \<open>EthernetClient\<close> and
  \<open>EthernetServer\<close> are built on those, \<open>DNSClient\<close> (Dns.cpp) and \<open>DhcpClass\<close> (Dhcp.cpp) on
  \<open>EthernetUDP\<close>, and \<open>EthernetClass\<close> (Ethernet.cpp) configures the chip, with or without DHCP.

  The WiFi library speaks AT commands over a serial stream.  \<open>EspDrv\<close> (utility/EspDrv.cpp) sends a
  command and looks for a tag at the end of what comes back, which it keeps in a ring buffer
  (utility/RingBuffer.cpp); the header of a data packet it parses with the functions of the
  stream.  \<open>WiFiEspClass\<close> holds the table of the four sockets, on which \<open>WiFiEspClient\<close>,
  \<open>WiFiEspServer\<close> and \<open>WiFiEspUDP\<close> work.

  The motor controller library has one class, \<open>zoSms\<close>.  A command fills a packet, sends it over
  a serial line or the two-wire bus, and polls for the response: from the serial line through
  a decoder that is a state machine over the bytes, from the bus through a packet that the
  interrupt fills.  The checksum and the error code of the response decide on its success.

  \<^bold>\<open>The theories that model the code.\<close>
  \<^item> \<open>SdPrelude\<close>: words, the little-endian fields of a byte block, splices and slices, and the
    lemmas on them that all components share.
  \<^item> \<open>FatStructs\<close> (FatStructs.h, part of SdFat.h): the partition table, the BIOS parameter
    block and the directory entry as records, with their byte layout; date and time fields.
  \<^item> \<open>BlockDevice\<close>: the record \<open>card_ops\<close> of the operations that the volume calls on the card,
    and the locale \<open>block_device\<close> with the laws that the file system relies on.
  \<^item> \<open>SdVolume\<close> (SdVolume.cpp, SdFat.h): \<open>fs\<close> is the state of the volume, the static cache
    and the card; every operation of the class, \<open>fatGet\<close>, \<open>fatPut\<close>, \<open>allocContiguous\<close>,
    \<open>freeChain\<close>, \<open>chainSize\<close>, the cache, and the two overloads of \<open>init\<close>.
  \<^item> \<open>ShortName\<close>, \<open>SdPrint\<close>, \<open>SdFile\<close> (SdFile.cpp): 8.3 names, printing, and every operation of
    \<open>SdFile\<close>.
  \<^item> \<open>SdPath\<close> (SD.cpp, File.cpp, SD.h): path components, the path walk with its two handles
    and its callbacks, \<open>SDClass\<close> and \<open>File\<close>.
  \<^item> \<open>SpiBus\<close> (SPI.cpp): the transfer functions over the 64 byte buffer of the peripheral.
  \<^item> \<open>Sd2Card\<close> (Sd2Card.cpp, Sd2Card.h, SdInfo.h): the driver, hardware SPI build, ESP8266.
  \<^item> \<open>MqttPacket\<close>, \<open>Mqtt\<close> (Adafruit_MQTT.cpp, Adafruit_MQTT_Client.cpp and headers): the packets
    as byte lists, and the client: connecting, sending, receiving, publishing, subscriptions,
    callbacks.  A write outside the packet buffer sets the flag \<open>overrun\<close>.
  \<^item> \<open>Eeprom\<close> (EEPROM.cpp, EEPROM.h): the RAM copy of a flash sector with its dirty flag; the
    flash is a parameter, the locale \<open>flash_chip\<close> states its laws, and the invariant
    \<open>eeprom_ok\<close> relates the copy to the cells.
  \<^item> \<open>DnsServer\<close> (DNSServer.cpp, DNSServer.h): parsing a query and answering it; the socket and the
    \<open>String\<close> operations are a parameter, the locale \<open>dns_socket\<close> states the laws of the socket.
  \<^item> \<open>RingBuffer\<close> (RingBuffer.cpp): the ring, and that endsWith compares with what was pushed.
    These three theories also hold their properties.
  \<^item> \<open>W5100\<close> (w5100.cpp, w5100.h): registers, buffers and commands over the record \<open>ehw\<close> of the
    operations of the bus and the clock; \<open>eth\<close> is the state of the library, with the outside
    world in its last field.
  \<^item> \<open>EthSocket\<close> (socket.cpp), \<open>EthUdp\<close> (EthernetUdp.cpp), \<open>EthClient\<close> (EthernetClient.cpp,
    EthernetServer.cpp), \<open>DnsClient\<close> (Dns.cpp), \<open>DhcpClient\<close> (Dhcp.cpp, Ethernet.cpp): every function.
    Waiting for the chip or for a datagram may not end, and is \<open>None\<close> then.

  \<^item> \<open>EspDrv\<close> (EspDrv.cpp, EspDrv.h), \<open>WifiEsp\<close> (WiFiEsp.cpp, WiFiEspClient.cpp, WiFiEspServer.cpp,
    WiFiEspUdp.cpp): every function of the WiFi library, over the record \<open>esp_hw\<close> of the stream and
    the clock; the static variables of all classes are the record \<open>esp\<close>.
  \<^item> \<open>Sha1\<close> (sha1.c, sha1.h, Hash.cpp): the rounds over the sixteen words that are expanded in
    place, the context with its counters, padding, and the functions of the library.
  \<^item> \<open>Zeroone\<close> (ZerooneSupermodified_T3X_Wire.cpp, zoProtocol.h): packets, both transports, the decoder,
    waiting for the response, and every command; the hardware is the record \<open>zo_hw\<close>.

  \<^bold>\<open>The theories that prove.\<close>
  \<^item> \<open>SdCache\<close>: the view of the disk through the cache, which every operation preserves or
    changes as an array of blocks.
  \<^item> \<open>FatTable\<close>, \<open>FatChain\<close>, \<open>FatAlloc\<close>: the file allocation table as a function from clusters to
    entries; chains; \<open>fatPut\<close> as an update of that function; allocation and freeing.
  \<^item> \<open>FileData\<close>, \<open>FileRead\<close>, \<open>FileWrite\<close>, \<open>FileStore\<close>: a file as the bytes along its chain, and
    the refinements: \<open>read\<close> returns a slice of them, \<open>write\<close> splices into them.
  \<^item> \<open>SdDriver\<close>: the locale \<open>sd_bus\<close> with the laws of a card on the bus (how it answers
    commands, and what its memory is), the proof that the driver on such a bus is a \<open>block_device\<close>
    (a sublocale), and \<open>SdSlave\<close>: a concrete card that satisfies the laws (an
    interpretation), which shows that they can hold.
  \<^item> \<open>SdExample\<close>: a concrete formatted card, on which the witnesses of the properties run.
  \<^item> \<open>FileSync\<close>: what sync leaves on the card, and the invariant that the directory entry of a
    file is right or marked dirty; opening the file again from the card alone.
  \<^item> \<open>FileTruncate\<close>: cutting a chain, and what truncate and remove leave.
  \<^item> \<open>MqttLink\<close>: the locale \<open>link\<close> with the laws of a connection that stays up, what the receiving
    and sending functions do over it, and a pair of byte queues that satisfies the laws.
  \<^item> \<open>EthChip\<close>: the locale \<open>w5100\<close> with the laws of the chip (registers keep what is written, RECV
    and SEND move the pointers of the buffers), and what the driver does over it; \<open>EthSim\<close>: a
    chip that satisfies the laws (an interpretation).  \<open>EthStream\<close>: the locale \<open>rxstream\<close>, a socket as
    a queue of bytes, which the chip provides (a sublocale), and datagrams in that queue.
  \<^item> \<open>EthProps\<close>, \<open>DnsClientProps\<close>, \<open>DhcpProps\<close>, \<open>DhcpReply\<close>: sockets and datagrams; requests and
    responses of the resolver byte by byte; the messages, the replies, the timers and the
    states of the DHCP client.
  \<^item> \<open>Sha1Props\<close>: the hash function of FIPS 180-4 as a reference, that the code computes it, and that
    the data may come in pieces.
  \<^item> \<open>WifiLink\<close>: the locales \<open>modem\<close> and \<open>modem_parser\<close> with the laws of the stream, what waiting for a
    tag finds and that it ends, what is extracted, sent and received; \<open>WifiProps\<close>: a modem with
    any behaviour (an interpretation), the table of sockets, and the properties.
  \<^item> \<open>ZerooneProps\<close>: the locale \<open>serial_line\<close> with the laws of the line and the clock, what a request
    over it returns, and a line with an arbitrary controller at its end (an interpretation).
  \<^item> \<open>FileProps\<close>, \<open>MqttProps\<close>, \<open>TruncateProps\<close>, \<open>SyncProps\<close>, \<open>VolumeProps\<close>, \<open>TableProps\<close>, \<open>DriverProps\<close>, \<open>NameProps\<close>: the properties.

  \<^bold>\<open>Conventions.\<close>  A C++ object is a record, a method a function that returns the updated
  records; a pointer to a static buffer is an index into the state.  A method that can fail
  returns a bool or an option, as in the code.  Integers keep their width, so that sums
  wrap as they do in the code.  A loop that may run for ever is a \<open>partial_function (option)\<close>,
  so that \<open>None\<close> means that the code does not return; there is no fuel.  The bounds in the
  hypotheses of the properties (\<open>geom\<close>: the volume fits the card and the table covers all
  clusters; \<open>writable\<close>: the volume has room, and the position plus the length stay below
  \<open>2 ^ 32\<close>) are those that a formatted volume and a file on it satisfy.

  \<^bold>\<open>Not modelled.\<close>  The software SPI build of the driver and the clock settings (they only
  time the wire), the deprecated overloads of \<open>SdFile\<close> that forward their arguments, and the
  other libraries of the collection, which are listed in the manifest with the reason:
  most of them are dialogues over serial streams or over the network stack of the SDK.
\<close>

end
